(* ===== verification/Decimal.thy ===== *)
theory Decimal
  imports Prelude
begin

text \<open>
  Go's \<open>strconv\<close> decimal conversions (\<open>FormatInt\<close>, \<open>ParseUint\<close>, \<open>ParseInt\<close> with base 10)
  and the zero-padded \<open>%020d\<close> of \<open>fmt\<close>, with the facts the id-keyed stores need: a printed
  number parses back, and the padded form of a number sorts as the number does.
\<close>

definition digit_char :: "nat \<Rightarrow> char" where
  "digit_char d = char_of (48 + d)"

definition is_digit :: "char \<Rightarrow> bool" where
  "is_digit c = (48 \<le> (of_char c :: nat) \<and> (of_char c :: nat) \<le> 57)"

definition digit_val :: "char \<Rightarrow> nat" where
  "digit_val c = of_char c - 48"

lemma of_char_digit_char: "d < 10 \<Longrightarrow> (of_char (digit_char d) :: nat) = 48 + d"
  by (simp add: digit_char_def)

lemma digit_char_0: "digit_char 0 = CHR ''0''"
proof -
  have "(of_char (digit_char 0) :: nat) = of_char (CHR ''0'')"
    by (simp add: of_char_digit_char)
  then show ?thesis by (metis char_of_char)
qed

lemma digit_val_char [simp]: "d < 10 \<Longrightarrow> digit_val (digit_char d) = d"
  by (simp add: digit_val_def of_char_digit_char)

lemma is_digit_char [simp]: "d < 10 \<Longrightarrow> is_digit (digit_char d)"
  by (simp add: is_digit_def of_char_digit_char)

lemma digit_char_inj: "d < 10 \<Longrightarrow> e < 10 \<Longrightarrow> digit_char d = digit_char e \<longleftrightarrow> d = e"
  by (metis digit_val_char)

lemma digit_char_less: "d < 10 \<Longrightarrow> e < 10 \<Longrightarrow> digit_char d < digit_char e \<longleftrightarrow> d < e"
  by (simp add: less_char_def of_char_digit_char)

section \<open>Printing\<close>

fun format_nat :: "nat \<Rightarrow> string" where
  "format_nat n =
     (if n < 10 then [digit_char n] else format_nat (n div 10) @ [digit_char (n mod 10)])"

declare format_nat.simps [simp del]

definition format_int :: "int \<Rightarrow> string" where
  "format_int n = (if n < 0 then CHR ''-'' # format_nat (nat (- n)) else format_nat (nat n))"

fun pad_dec :: "nat \<Rightarrow> nat \<Rightarrow> string" where
  "pad_dec 0 n = []"
| "pad_dec (Suc w) n = pad_dec w (n div 10) @ [digit_char (n mod 10)]"

definition sprintf020 :: "nat \<Rightarrow> string" where
  "sprintf020 n = (if n < 10 ^ 20 then pad_dec 20 n else format_nat n)"

section \<open>Parsing\<close>

fun dec_val :: "nat \<Rightarrow> string \<Rightarrow> nat" where
  "dec_val acc [] = acc"
| "dec_val acc (c # cs) = dec_val (10 * acc + digit_val c) cs"

definition all_digits :: "string \<Rightarrow> bool" where
  "all_digits s = (s \<noteq> [] \<and> list_all is_digit s)"

definition parse_uint64 :: "string \<Rightarrow> err + nat" where
  "parse_uint64 s =
     (if \<not> all_digits s then Inl ErrSyntax
      else if dec_val 0 s < 2 ^ 64 then Inr (dec_val 0 s) else Inl ErrRange)"

definition parse_int64 :: "string \<Rightarrow> err + int" where
  "parse_int64 s =
     (let neg = (s \<noteq> [] \<and> hd s = CHR ''-'');
          body = (if s \<noteq> [] \<and> (hd s = CHR ''-'' \<or> hd s = CHR ''+'') then tl s else s)
      in if \<not> all_digits body then Inl ErrSyntax
         else let v = int (dec_val 0 body) in
           if neg then (if v \<le> 2 ^ 63 then Inr (- v) else Inl ErrRange)
           else (if v < 2 ^ 63 then Inr v else Inl ErrRange))"

lemma dec_val_append: "dec_val a (s @ t) = dec_val (dec_val a s) t"
  by (induction s arbitrary: a) auto

lemma format_nat_digits: "format_nat n \<noteq> [] \<and> list_all is_digit (format_nat n)"
proof (induction n rule: format_nat.induct)
  case (1 n)
  then show ?case by (cases "n < 10") (auto simp: format_nat.simps [of n])
qed

lemma dec_val_format_nat: "dec_val 0 (format_nat n) = n"
proof (induction n rule: format_nat.induct)
  case (1 n)
  then show ?case by (cases "n < 10") (auto simp: format_nat.simps [of n] dec_val_append)
qed

lemma all_digits_format_nat [simp]: "all_digits (format_nat n)"
  using format_nat_digits by (simp add: all_digits_def)

lemma format_nat_inj: "format_nat m = format_nat n \<longleftrightarrow> m = n"
  by (metis dec_val_format_nat)

lemma is_digit_not_sign: "is_digit c \<Longrightarrow> c \<noteq> CHR ''-'' \<and> c \<noteq> CHR ''+''"
  by (auto simp: is_digit_def)

lemma hd_format_nat: "is_digit (hd (format_nat n))"
  using format_nat_digits [of n] by (cases "format_nat n") auto

lemma parse_uint64_format: "n < 2 ^ 64 \<Longrightarrow> parse_uint64 (format_nat n) = Inr n"
  by (simp add: parse_uint64_def dec_val_format_nat)

lemma parse_int64_format:
  assumes "0 \<le> n" "n < 2 ^ 63" shows "parse_int64 (format_int n) = Inr n"
proof -
  have "hd (format_nat (nat n)) \<noteq> CHR ''-''" "hd (format_nat (nat n)) \<noteq> CHR ''+''"
    using is_digit_not_sign [OF hd_format_nat] by auto
  with assms show ?thesis
    by (simp add: parse_int64_def format_int_def dec_val_format_nat)
qed

section \<open>Padded numbers sort as numbers\<close>

lemma length_pad_dec [simp]: "length (pad_dec w n) = w"
  by (induction w arbitrary: n) auto

lemma snoc_less_iff:
  fixes xs ys :: "'a::linorder list"
  assumes "length xs = length ys"
  shows "xs @ [a] < ys @ [b] \<longleftrightarrow> xs < ys \<or> xs = ys \<and> a < b"
  using assms by (induction xs ys rule: list_induct2) auto

lemma pad_dec_inj: "m < 10 ^ w \<Longrightarrow> n < 10 ^ w \<Longrightarrow> pad_dec w m = pad_dec w n \<longleftrightarrow> m = n"
proof (induction w arbitrary: m n)
  case (Suc w)
  then have "pad_dec w (m div 10) = pad_dec w (n div 10) \<longleftrightarrow> m div 10 = n div 10"
    by (intro Suc.IH) auto
  moreover have "m div 10 = n div 10 \<and> m mod 10 = n mod 10 \<longleftrightarrow> m = n"
    by (metis div_mult_mod_eq)
  ultimately show ?case by (simp add: digit_char_inj)
qed auto

lemma div_mod_less:
  "(m::nat) < n \<longleftrightarrow> m div 10 < n div 10 \<or> m div 10 = n div 10 \<and> m mod 10 < n mod 10"
proof -
  have "m = 10 * (m div 10) + m mod 10" "n = 10 * (n div 10) + n mod 10"
    "m mod 10 < 10" "n mod 10 < 10" by simp_all
  then show ?thesis by linarith
qed

lemma pad_dec_less: "m < 10 ^ w \<Longrightarrow> n < 10 ^ w \<Longrightarrow> pad_dec w m < pad_dec w n \<longleftrightarrow> m < n"
proof (induction w arbitrary: m n)
  case (Suc w)
  then have "m div 10 < 10 ^ w" "n div 10 < 10 ^ w" by auto
  then have less: "pad_dec w (m div 10) < pad_dec w (n div 10) \<longleftrightarrow> m div 10 < n div 10"
    and eq: "pad_dec w (m div 10) = pad_dec w (n div 10) \<longleftrightarrow> m div 10 = n div 10"
    by (auto simp: Suc.IH pad_dec_inj)
  have "m < n \<longleftrightarrow> m div 10 < n div 10 \<or> m div 10 = n div 10 \<and> m mod 10 < n mod 10"
    by (rule div_mod_less)
  with less eq show ?case by (simp add: snoc_less_iff digit_char_less)
qed auto

lemma two64_less: "(2::nat) ^ 64 < 10 ^ 20"
  by simp

lemma sprintf020_less:
  assumes "m < 2 ^ 64" "n < 2 ^ 64" shows "sprintf020 m < sprintf020 n \<longleftrightarrow> m < n"
proof -
  have "m < 10 ^ 20" "n < 10 ^ 20" using assms two64_less by linarith+
  then show ?thesis unfolding sprintf020_def by (simp only: if_True pad_dec_less)
qed

lemma sprintf020_inj:
  assumes "m < 2 ^ 64" "n < 2 ^ 64" shows "sprintf020 m = sprintf020 n \<longleftrightarrow> m = n"
proof -
  have "m < 10 ^ 20" "n < 10 ^ 20" using assms two64_less by linarith+
  then show ?thesis unfolding sprintf020_def by (simp only: if_True pad_dec_inj)
qed

lemma list_all_pad_dec [simp]: "list_all is_digit (pad_dec w n)"
  by (induction w arbitrary: n) auto

lemma sprintf020_digits: "all_digits (sprintf020 n)"
proof (cases "n < 10 ^ 20")
  case True
  moreover have "pad_dec 20 n \<noteq> []" by (metis length_pad_dec list.size(3) zero_neq_numeral)
  ultimately show ?thesis unfolding sprintf020_def all_digits_def by simp
next
  case False
  then show ?thesis unfolding sprintf020_def by (simp only: if_False all_digits_format_nat)
qed

end
