(* ===== verification/Snowflake.thy ===== *)
theory Snowflake
  imports Decimal
begin

unbundle bit_operations_syntax

text \<open>
  \<open>internal/util/id.go\<close>: the id generator. \<open>Next\<close> mints ids from the wall clock, \<open>NewAt\<close>
  and \<open>NewBelow\<close> mint ids for a given time from a second, per-millisecond counter
  (\<open>aux\<close>). Integers are Go's \<open>int64\<close>: an operation that can leave the range is wrapped by
  \<open>i64\<close>. The mutex makes each call one atomic step, so a call is a function from the
  generator and a clock reading (in Unix milliseconds) to the id and the next generator.
\<close>

definition i64 :: "int \<Rightarrow> int" where
  "i64 x = signed_take_bit 63 x"

lemma i64_id: "- (2 ^ 63) \<le> x \<Longrightarrow> x < 2 ^ 63 \<Longrightarrow> i64 x = x"
  by (simp add: i64_def signed_take_bit_int_eq_self)

definition discordEpoch :: int where
  "discordEpoch = 1420070400000"

record Snowflake =
  worker :: int
  process :: int
  lastMs :: int
  seq :: int
  aux :: "(int \<times> int) list"  \<comment> \<open>Go map: at most one entry per key\<close>

definition NewSnowflake :: "int \<Rightarrow> int \<Rightarrow> Snowflake" where
  "NewSnowflake w p = \<lparr>worker = w AND 31, process = p AND 31, lastMs = 0, seq = 0, aux = []\<rparr>"

definition aux_get :: "Snowflake \<Rightarrow> int \<Rightarrow> int" where
  "aux_get s ms = (case map_of (aux s) ms of None \<Rightarrow> 0 | Some n \<Rightarrow> n)"

definition mint :: "Snowflake \<Rightarrow> int \<Rightarrow> int \<Rightarrow> int" where
  "mint s ms q = i64 (push_bit 22 ms) OR i64 (push_bit 17 (worker s)) OR i64 (push_bit 12 (process s)) OR q"

definition Next :: "Snowflake \<Rightarrow> int \<Rightarrow> int \<times> Snowflake" where
  "Next s now =
     (let ms = i64 (now - discordEpoch) in
      if ms \<le> lastMs s then
        let q = (i64 (seq s + 1)) AND 4095;
            ms' = (if q = 0 then i64 (lastMs s + 1) else lastMs s)
        in (mint s ms' q, s\<lparr>lastMs := ms', seq := q\<rparr>)
      else (mint s ms 0, s\<lparr>lastMs := ms, seq := 0\<rparr>))"

definition New :: "Snowflake \<Rightarrow> int \<Rightarrow> string \<times> Snowflake" where
  "New s now = (let (i, s') = Next s now in (format_int i, s'))"

text \<open>
  \<open>NewAt\<close>: the spill loop. Every round deletes the entry of an exhausted millisecond, so it
  ends. An absent entry reads as 0.
\<close>

function newAt_spill :: "(int \<times> int) list \<Rightarrow> int \<Rightarrow> (int \<times> int) list \<times> int \<times> int" where
  "newAt_spill a ms =
     (let q = (case map_of a ms of None \<Rightarrow> 0 | Some n \<Rightarrow> n) + 1 in
      if q > 4095 then newAt_spill (AList.delete ms a) (i64 (ms + 1)) else (a, ms, q))"
  by pat_completeness auto

lemma length_delete_present: "map_of a k = Some v \<Longrightarrow> length (AList.delete k a) < length a"
proof (induction a)
  case (Cons x a)
  then show ?case
    by (cases x) (auto simp: AList.delete_eq le_imp_less_Suc split: if_splits)
qed simp

termination newAt_spill
proof (relation "measure (\<lambda>(a, ms). length a)")
  fix a :: "(int \<times> int) list" and ms q
  assume "q = (case map_of a ms of None \<Rightarrow> 0 | Some n \<Rightarrow> n) + 1" "q > 4095"
  then obtain v where "map_of a ms = Some v" by (cases "map_of a ms") auto
  then show "((AList.delete ms a, i64 (ms + 1)), a, ms) \<in> measure (\<lambda>(a, ms). length a)"
    by (simp add: length_delete_present)
qed simp

declare newAt_spill.simps [simp del]

definition NewAt_id :: "Snowflake \<Rightarrow> int \<Rightarrow> int \<times> Snowflake" where
  "NewAt_id s t =
     (let ms0 = i64 (t - discordEpoch);
          ms1 = (if ms0 < 0 then 0 else ms0);
          (a, ms, q) = newAt_spill (aux s) ms1
      in (mint s ms q, s\<lparr>aux := AList.update ms q a\<rparr>))"

definition NewAt :: "Snowflake \<Rightarrow> int \<Rightarrow> string \<times> Snowflake" where
  "NewAt s t = (let (i, s') = NewAt_id s t in (format_int i, s'))"

text \<open>\<open>NewBelow\<close>: walks back over the milliseconds until an id fits below the ceiling.\<close>

function newBelow_walk :: "Snowflake \<Rightarrow> int \<Rightarrow> int \<Rightarrow> int option \<times> Snowflake" where
  "newBelow_walk s ceil ms =
     (if ms < 0 then (None, s)
      else let q = aux_get s ms + 1 in
        if q > 4095 then newBelow_walk (s\<lparr>aux := AList.delete ms (aux s)\<rparr>) ceil (ms - 1)
        else let i = mint s ms q in
          if ceil = 0 \<or> i < ceil then (Some i, s\<lparr>aux := AList.update ms q (aux s)\<rparr>)
          else newBelow_walk s ceil (ms - 1))"
  by pat_completeness auto
termination newBelow_walk
  by (relation "measure (\<lambda>(s, ceil, ms). nat (ms + 1))") auto

declare newBelow_walk.simps [simp del]

definition newBelow_ceil :: "string \<Rightarrow> int" where
  "newBelow_ceil ceiling =
     (if ceiling \<noteq> [] then (case parse_int64 ceiling of Inr n \<Rightarrow> if n > 0 then n else 0 | Inl _ \<Rightarrow> 0)
      else 0)"

definition NewBelow :: "Snowflake \<Rightarrow> int \<Rightarrow> string \<Rightarrow> string \<times> Snowflake" where
  "NewBelow s t ceiling =
     (let ms0 = i64 (t - discordEpoch);
          ms1 = (if ms0 < 0 then 0 else ms0)
      in case newBelow_walk s (newBelow_ceil ceiling) ms1 of
           (Some i, s') \<Rightarrow> (format_int i, s')
         | (None, s') \<Rightarrow> (''0'', s'))"

definition ParseSnowflake :: "string \<Rightarrow> err + int" where
  "ParseSnowflake v = tryb (parse_int64 v) (\<lambda>n. if n < 0 then Inl ErrNegative else Inr n)"

definition SnowflakeTime :: "int \<Rightarrow> int" where
  "SnowflakeTime i = i64 (drop_bit 22 i + discordEpoch)"

section \<open>The bit layout of an id\<close>

definition valid_gen :: "Snowflake \<Rightarrow> bool" where
  "valid_gen s \<longleftrightarrow> 0 \<le> worker s \<and> worker s < 32 \<and> 0 \<le> process s \<and> process s < 32
     \<and> 0 \<le> lastMs s \<and> 0 \<le> seq s \<and> seq s < 4096"

lemma or_push_bit: "0 \<le> b \<Longrightarrow> b < 2 ^ n \<Longrightarrow> push_bit n a OR b = a * 2 ^ n + b"
  for a b :: int
proof -
  assume b: "0 \<le> b" "b < 2 ^ n"
  then have tb: "take_bit n b = b" by (simp add: take_bit_int_eq_self)
  have "push_bit n a AND b = 0"
    by (rule bit_eqI) (metis bit_0_eq bit_and_iff bit_push_bit_iff bit_take_bit_iff bot_apply bot_bool_def not_le tb)
  then show ?thesis by (simp add: push_bit_eq_mult flip: disjunctive_add_eq_or)
qed

lemma mint_arith:
  assumes "0 \<le> worker s" "worker s < 32" "0 \<le> process s" "process s < 32"
    and "0 \<le> ms" "ms < 2 ^ 41" "0 \<le> q" "q < 4096"
  shows "mint s ms q = ms * 2 ^ 22 + worker s * 2 ^ 17 + process s * 2 ^ 12 + q"
proof -
  have 1: "i64 (push_bit 22 ms) = push_bit 22 ms" "i64 (push_bit 17 (worker s)) = push_bit 17 (worker s)"
    "i64 (push_bit 12 (process s)) = push_bit 12 (process s)"
    using assms by (auto intro!: i64_id simp: push_bit_eq_mult)
  have p: "push_bit 12 (process s) OR q = process s * 2 ^ 12 + q"
    using assms by (intro or_push_bit) auto
  have w: "push_bit 17 (worker s) OR (process s * 2 ^ 12 + q) = worker s * 2 ^ 17 + (process s * 2 ^ 12 + q)"
    using assms by (intro or_push_bit) auto
  have m: "push_bit 22 ms OR (worker s * 2 ^ 17 + (process s * 2 ^ 12 + q))
      = ms * 2 ^ 22 + (worker s * 2 ^ 17 + (process s * 2 ^ 12 + q))"
    using assms by (intro or_push_bit) auto
  show ?thesis unfolding mint_def 1 or.assoc p w m by simp
qed

lemma mint_bounds:
  assumes "0 \<le> worker s" "worker s < 32" "0 \<le> process s" "process s < 32"
    and "0 \<le> ms" "ms < 2 ^ 41" "0 \<le> q" "q < 4096"
  shows "0 \<le> mint s ms q" "mint s ms q < 2 ^ 63" "ms * 2 ^ 22 \<le> mint s ms q"
    "mint s ms q < (ms + 1) * 2 ^ 22"
  using assms by (auto simp: mint_arith)

lemma drop_bit_mint:
  assumes "0 \<le> worker s" "worker s < 32" "0 \<le> process s" "process s < 32"
    and "0 \<le> ms" "ms < 2 ^ 41" "0 \<le> q" "q < 4096"
  shows "drop_bit 22 (mint s ms q) = ms"
proof -
  have "mint s ms q div 2 ^ 22 = ms"
    by (rule int_div_pos_eq [of _ _ _ "mint s ms q - ms * 2 ^ 22"])
      (use mint_bounds(3,4) [OF assms] in auto)
  then show ?thesis by (simp add: drop_bit_eq_div)
qed

lemma SnowflakeTime_mint:
  assumes "0 \<le> worker s" "worker s < 32" "0 \<le> process s" "process s < 32"
    and "0 \<le> ms" "ms < 2 ^ 41" "0 \<le> q" "q < 4096"
  shows "SnowflakeTime (mint s ms q) = ms + discordEpoch"
  using assms by (simp add: SnowflakeTime_def drop_bit_mint i64_id discordEpoch_def)

section \<open>Next: strictly increasing ids\<close>

definition last_id :: "Snowflake \<Rightarrow> int" where
  "last_id s = mint s (lastMs s) (seq s)"

lemma and_4095: "0 \<le> q \<Longrightarrow> q \<le> 4096 \<Longrightarrow> q AND 4095 = (if q = 4096 then 0 else q)"
  for q :: int
proof -
  have "q AND 4095 = take_bit 12 q" by (simp add: take_bit_eq_mask mask_eq_exp_minus_1)
  then show "0 \<le> q \<Longrightarrow> q \<le> 4096 \<Longrightarrow> ?thesis" by (auto simp: take_bit_eq_mod)
qed

lemma Next_step:
  assumes v: "valid_gen s" and last: "lastMs s < 2 ^ 41 - 1"
    and lo: "- (2 ^ 62) < now" and now: "now - discordEpoch < 2 ^ 41"
    and N: "Next s now = (i, s')"
  shows "valid_gen s'" and "i = last_id s'" and "last_id s < i"
    and "lastMs s' \<le> max (lastMs s + 1) (now - discordEpoch)"
    and "lastMs s' < 2 ^ 41" and "worker s' = worker s" and "process s' = process s"
proof -
  have ms: "i64 (now - discordEpoch) = now - discordEpoch"
    using lo now by (intro i64_id) (auto simp: discordEpoch_def)
  have wp: "0 \<le> worker s" "worker s < 32" "0 \<le> process s" "process s < 32"
    and sq: "0 \<le> seq s" "seq s < 4096" and lm: "0 \<le> lastMs s"
    using v by (auto simp: valid_gen_def)
  have i1: "i64 (seq s + 1) = seq s + 1" "i64 (lastMs s + 1) = lastMs s + 1"
    using sq lm last by (auto intro!: i64_id)
  define q where "q = (seq s + 1) AND 4095"
  have q: "q = (if seq s = 4095 then 0 else seq s + 1)"
    using sq by (simp add: q_def and_4095)
  define s1 where "s1 = (if now - discordEpoch \<le> lastMs s
    then s\<lparr>lastMs := (if q = 0 then lastMs s + 1 else lastMs s), seq := q\<rparr>
    else s\<lparr>lastMs := now - discordEpoch, seq := 0\<rparr>)"
  have mint_cong: "mint s = mint s1" by (auto simp: mint_def fun_eq_iff s1_def)
  have eq: "i = mint s1 (lastMs s1) (seq s1) \<and> s' = s1"
    using N unfolding Next_def ms i1 Let_def q_def [symmetric] mint_cong [symmetric]
    by (auto simp: s1_def split: if_splits)
  have v1: "valid_gen s1" and b1: "lastMs s1 < 2 ^ 41"
    using v last now q lm by (auto simp: s1_def valid_gen_def)
  then show "valid_gen s'" "lastMs s' < 2 ^ 41" using eq by auto
  show "i = last_id s'" using eq by (simp add: last_id_def)
  show "worker s' = worker s" "process s' = process s" using eq by (auto simp: s1_def)
  show "lastMs s' \<le> max (lastMs s + 1) (now - discordEpoch)"
    using eq by (auto simp: s1_def)
  have "last_id s = lastMs s * 2 ^ 22 + worker s * 2 ^ 17 + process s * 2 ^ 12 + seq s"
    using wp sq lm last by (simp add: last_id_def mint_arith)
  moreover have "i = lastMs s1 * 2 ^ 22 + worker s1 * 2 ^ 17 + process s1 * 2 ^ 12 + seq s1"
    using eq v1 b1 by (simp add: mint_arith valid_gen_def)
  moreover have "lastMs s < lastMs s1 \<or> lastMs s = lastMs s1 \<and> seq s < seq s1"
    using q sq by (auto simp: s1_def)
  moreover have "worker s1 = worker s" "process s1 = process s" by (auto simp: s1_def)
  moreover have "0 \<le> seq s1" using v1 by (simp add: valid_gen_def)
  ultimately show "last_id s < i" using sq by (elim disjE) auto
qed

fun next_run :: "Snowflake \<Rightarrow> int list \<Rightarrow> int list" where
  "next_run s [] = []"
| "next_run s (now # nows) = (let (i, s') = Next s now in i # next_run s' nows)"

lemma next_run_sorted:
  assumes "valid_gen s" "lastMs s + int (length nows) < 2 ^ 41"
    and "\<forall>now \<in> set nows. - (2 ^ 62) < now \<and> now - discordEpoch + int (length nows) < 2 ^ 41"
  shows "sorted_wrt (<) (last_id s # next_run s nows)"
  using assms
proof (induction nows arbitrary: s)
  case (Cons now nows)
  obtain i s' where N: "Next s now = (i, s')" by (cases "Next s now")
  have "- (2 ^ 62) < now" "now - discordEpoch < 2 ^ 41" "lastMs s < 2 ^ 41 - 1"
    using Cons.prems by auto
  note st = Next_step [OF Cons.prems(1) this(3) this(1) this(2) N]
  have "sorted_wrt (<) (last_id s' # next_run s' nows)"
  proof (rule Cons.IH [OF st(1)])
    show "lastMs s' + int (length nows) < 2 ^ 41" using st(4) Cons.prems by auto
    show "\<forall>now \<in> set nows. - (2 ^ 62) < now \<and> now - discordEpoch + int (length nows) < 2 ^ 41"
      using Cons.prems(3) by auto
  qed
  with st(2,3) N show ?case by auto
qed simp

section \<open>NewAt: time-anchored ids\<close>

definition valid_aux :: "Snowflake \<Rightarrow> bool" where
  "valid_aux s \<longleftrightarrow> (\<forall>ms n. map_of (aux s) ms = Some n \<longrightarrow> 0 < n \<and> n \<le> 4095)"

definition anchor_ms :: "int \<Rightarrow> int" where
  "anchor_ms t = max 0 (t - discordEpoch)"

lemma anchor_ms_code:
  assumes "- (2 ^ 62) < t" "t - discordEpoch < 2 ^ 41"
  shows "(if i64 (t - discordEpoch) < 0 then 0 else i64 (t - discordEpoch)) = anchor_ms t"
    "0 \<le> anchor_ms t" "anchor_ms t < 2 ^ 41"
proof -
  have "i64 (t - discordEpoch) = t - discordEpoch"
    using assms by (intro i64_id) (auto simp: discordEpoch_def)
  then show "(if i64 (t - discordEpoch) < 0 then 0 else i64 (t - discordEpoch)) = anchor_ms t"
    "0 \<le> anchor_ms t" "anchor_ms t < 2 ^ 41"
    using assms by (auto simp: anchor_ms_def)
qed

lemma aux_get_range: "valid_aux s \<Longrightarrow> 0 \<le> aux_get s ms \<and> aux_get s ms \<le> 4095"
  by (auto simp: valid_aux_def aux_get_def split: option.splits) force

lemma newAt_spill_room:
  "aux_get s ms < 4095 \<Longrightarrow> newAt_spill (aux s) ms = (aux s, ms, aux_get s ms + 1)"
  by (simp add: newAt_spill.simps aux_get_def split: option.splits)

lemma NewAt_id_room:
  assumes "- (2 ^ 62) < t" "t - discordEpoch < 2 ^ 41" "aux_get s (anchor_ms t) < 4095"
  shows "NewAt_id s t = (mint s (anchor_ms t) (aux_get s (anchor_ms t) + 1),
           s\<lparr>aux := AList.update (anchor_ms t) (aux_get s (anchor_ms t) + 1) (aux s)\<rparr>)"
  using assms by (simp add: NewAt_id_def anchor_ms_code newAt_spill_room)

lemma aux_get_update [simp]:
  "aux_get (s\<lparr>aux := AList.update k v (aux s)\<rparr>) ms = (if ms = k then v else aux_get s ms)"
  by (simp add: aux_get_def update_conv')

lemma mint_aux [simp]: "mint (s\<lparr>aux := a\<rparr>) = mint s"
  by (simp add: mint_def fun_eq_iff)

definition newAt_state :: "nat \<Rightarrow> Snowflake \<Rightarrow> int \<Rightarrow> Snowflake" where
  "newAt_state n s t = ((\<lambda>s. snd (NewAt_id s t)) ^^ n) s"

lemma newAt_state_Suc: "newAt_state (Suc n) s t = snd (NewAt_id (newAt_state n s t) t)"
  by (simp add: newAt_state_def)

lemma newAt_state_burst:
  assumes t: "- (2 ^ 62) < t" "t - discordEpoch < 2 ^ 41" and fresh: "aux s = []" and n: "n \<le> 4095"
  shows "newAt_state n s t = s\<lparr>aux := (if n = 0 then [] else [(anchor_ms t, int n)])\<rparr>"
  using n
proof (induction n)
  case 0
  then show ?case using fresh by (cases s) (simp add: newAt_state_def)
next
  case (Suc n)
  let ?s = "newAt_state n s t"
  have "aux_get ?s (anchor_ms t) = int n"
    using Suc by (auto simp: aux_get_def)
  then have "NewAt_id ?s t = (mint ?s (anchor_ms t) (int n + 1),
      ?s\<lparr>aux := AList.update (anchor_ms t) (int n + 1) (aux ?s)\<rparr>)"
    using NewAt_id_room [OF t, of ?s] Suc.prems by simp
  then show ?case using Suc by (simp add: newAt_state_Suc)
qed

lemma newAt_burst_id:
  assumes "- (2 ^ 62) < t" "t - discordEpoch < 2 ^ 41" "aux s = []" "n < 4095"
  shows "fst (NewAt_id (newAt_state n s t) t) = mint s (anchor_ms t) (int n + 1)"
proof -
  have "aux_get (newAt_state n s t) (anchor_ms t) = int n"
    using assms by (auto simp: newAt_state_burst aux_get_def)
  then have "fst (NewAt_id (newAt_state n s t) t) = mint (newAt_state n s t) (anchor_ms t) (int n + 1)"
    using assms by (simp add: NewAt_id_room)
  then show ?thesis using assms by (simp add: newAt_state_burst)
qed

lemma newAt_state_spilled:
  assumes t: "- (2 ^ 62) < t" "t - discordEpoch < 2 ^ 41" and fresh: "aux s = []"
  shows "newAt_state 4096 s t = s\<lparr>aux := [(anchor_ms t + 1, 1)]\<rparr>"
proof -
  have "newAt_state 4096 s t = snd (NewAt_id (newAt_state 4095 s t) t)"
    using newAt_state_Suc [of 4095 s t] by simp
  moreover have "newAt_state 4095 s t = s\<lparr>aux := [(anchor_ms t, 4095)]\<rparr>"
    using newAt_state_burst [OF t fresh, of 4095] by simp
  moreover have "i64 (anchor_ms t + 1) = anchor_ms t + 1"
    using anchor_ms_code [OF t] by (intro i64_id) auto
  ultimately show ?thesis
    by (simp add: NewAt_id_def anchor_ms_code [OF t] newAt_spill.simps Let_def)
qed

section \<open>NewBelow: ids under a ceiling\<close>

lemma newBelow_walk_below:
  assumes "newBelow_walk s ceil ms = (Some i, s')"
  shows "ceil = 0 \<or> i < ceil"
  using assms
proof (induction s ceil ms rule: newBelow_walk.induct)
  case (1 s ceil ms)
  then show ?case
    by (auto simp: newBelow_walk.simps [of s ceil ms] Let_def split: if_splits)
qed

lemma valid_aux_delete: "valid_aux s \<Longrightarrow> valid_aux (s\<lparr>aux := AList.delete k (aux s)\<rparr>)"
  by (auto simp: valid_aux_def delete_conv' split: if_splits)

lemma newBelow_walk_minted:
  assumes "newBelow_walk s ceil ms = (Some i, s')" "valid_aux s"
  shows "\<exists>m q. 0 \<le> m \<and> m \<le> ms \<and> 0 < q \<and> q \<le> 4095 \<and> i = mint s m q"
  using assms
proof (induction s ceil ms rule: newBelow_walk.induct)
  case (1 s ceil ms)
  let ?q = "aux_get s ms + 1"
  have ms: "\<not> ms < 0" using 1(3) by (auto simp: newBelow_walk.simps [of s ceil ms])
  have q: "0 < ?q" "?q \<le> 4096" using aux_get_range [OF 1(4), of ms] by auto
  consider (spill) "?q > 4095" | (fit) "\<not> ?q > 4095" "ceil = 0 \<or> mint s ms ?q < ceil"
    | (step) "\<not> ?q > 4095" "\<not> (ceil = 0 \<or> mint s ms ?q < ceil)" by blast
  then show ?case
  proof cases
    case spill
    have "\<exists>m q. 0 \<le> m \<and> m \<le> ms - 1 \<and> 0 < q \<and> q \<le> 4095
        \<and> i = mint (s\<lparr>aux := AList.delete ms (aux s)\<rparr>) m q"
    proof (rule 1(1) [OF ms refl spill _ valid_aux_delete [OF 1(4)]])
      show "newBelow_walk (s\<lparr>aux := AList.delete ms (aux s)\<rparr>) ceil (ms - 1) = (Some i, s')"
        using 1(3) ms spill by (simp add: newBelow_walk.simps [of s ceil ms])
    qed
    then show ?thesis by auto
  next
    case fit
    then have "i = mint s ms ?q"
      using 1(3) ms by (auto simp: newBelow_walk.simps [of s ceil ms] Let_def)
    with fit q ms show ?thesis by (intro exI [of _ ms] exI [of _ ?q]) auto
  next
    case step
    have "\<exists>m q. 0 \<le> m \<and> m \<le> ms - 1 \<and> 0 < q \<and> q \<le> 4095 \<and> i = mint s m q"
    proof (rule 1(2) [OF ms refl step(1) refl step(2) _ 1(4)])
      show "newBelow_walk s ceil (ms - 1) = (Some i, s')"
        using 1(3) ms step by (simp add: newBelow_walk.simps [of s ceil ms])
    qed
    then show ?thesis by auto
  qed
qed

lemma NewBelow_cases:
  assumes v: "valid_gen s" "valid_aux s" and t: "- (2 ^ 62) < t" "t - discordEpoch < 2 ^ 41"
  shows "\<exists>i. fst (NewBelow s t c) = format_int i \<and> 0 \<le> i \<and> i < 2 ^ 63 \<and>
     (newBelow_ceil c = 0 \<or> i < newBelow_ceil c) \<and> (i \<noteq> 0 \<longrightarrow> SnowflakeTime i \<le> max t discordEpoch)"
proof (cases "newBelow_walk s (newBelow_ceil c) (anchor_ms t)")
  case (Pair r s')
  have NB: "NewBelow s t c = (case (r, s') of (Some i, s') \<Rightarrow> (format_int i, s') | (None, s') \<Rightarrow> (''0'', s'))"
    by (simp only: NewBelow_def Let_def anchor_ms_code(1) [OF t] Pair)
  have ceil: "0 \<le> newBelow_ceil c" by (auto simp: newBelow_ceil_def split: sum.splits)
  show ?thesis
  proof (cases r)
    case None
    have "fst (NewBelow s t c) = format_int 0"
      unfolding NB None by (simp add: format_int_def format_nat.simps digit_char_0)
    with ceil show ?thesis by (intro exI [of _ 0]) auto
  next
    case (Some i)
    obtain m q where m: "0 \<le> m" "m \<le> anchor_ms t" "0 < q" "q \<le> 4095" and i: "i = mint s m q"
      using newBelow_walk_minted v(2) Pair Some by blast
    have wp: "0 \<le> worker s" "worker s < 32" "0 \<le> process s" "process s < 32"
      using v(1) by (auto simp: valid_gen_def)
    have m41: "m < 2 ^ 41" using m anchor_ms_code [OF t] by auto
    note b = mint_bounds [OF wp m(1) m41, of q] SnowflakeTime_mint [OF wp m(1) m41, of q]
    have "newBelow_ceil c = 0 \<or> i < newBelow_ceil c"
      using newBelow_walk_below Pair Some by blast
    moreover have "SnowflakeTime i \<le> max t discordEpoch"
      using b(5) m i by (auto simp: anchor_ms_def)
    ultimately show ?thesis using b m i Some NB by auto
  qed
qed

lemma ParseSnowflake_format:
  "0 \<le> n \<Longrightarrow> n < 2 ^ 63 \<Longrightarrow> ParseSnowflake (format_int n) = Inr n"
  by (simp add: ParseSnowflake_def parse_int64_format)

lemma and_31: "x AND 31 = x mod 32" for x :: int
  using take_bit_eq_mask [of 5 x] by (simp add: mask_eq_exp_minus_1 take_bit_eq_mod)

section \<open>Properties\<close>

text \<open>C12: The ids a generator mints with \<open>Next\<close> are strictly increasing, also against the last id before, while the
  time fits the 41 bits that an id has for it: with \<open>n\<close> ids to come, every reading of the clock and the last time
  used must stay \<open>n\<close> milliseconds below epoch + 2^41 (the year 2084), past which the shift of the code overflows.
  Within this the clock may stand still, run backwards or jump, and more than 4096 ids may fall in one
  millisecond.\<close>

lemma Next_ids_increase:
  assumes "valid_gen s" "lastMs s + int (length nows) < 2 ^ 41"
    and "\<forall>now \<in> set nows. - (2 ^ 62) < now \<and> now - discordEpoch + int (length nows) < 2 ^ 41"
  shows "sorted_wrt (<) (last_id s # next_run s nows)"
  using assms by (rule next_run_sorted)

lemma Next_ids_increase_witness:
  "sorted_wrt (<) (last_id (NewSnowflake 1 1) #
     next_run (NewSnowflake 1 1) [1500000000000, 1500000000000, 1400000000000, 1500000000001])"
  by (rule Next_ids_increase) (simp_all add: valid_gen_def NewSnowflake_def discordEpoch_def and_31)

text \<open>Up to 4095 ids anchored at one timestamp with \<open>NewAt\<close> are distinct, in the order they were
  drawn, and each reads back the timestamp it was anchored at (the epoch for an older one).\<close>

lemma NewAt_burst_ordered:
  assumes "valid_gen s" "aux s = []" "- (2 ^ 62) < t" "t - discordEpoch < 2 ^ 41" "i < j" "j < 4095"
  shows "fst (NewAt_id (newAt_state i s t) t) < fst (NewAt_id (newAt_state j s t) t) \<and>
    SnowflakeTime (fst (NewAt_id (newAt_state i s t) t)) = max t discordEpoch"
proof -
  have g: "0 \<le> worker s" "worker s < 32" "0 \<le> process s" "process s < 32"
    using assms(1) by (auto simp: valid_gen_def)
  note a = anchor_ms_code(2,3) [OF assms(3,4)]
  have "fst (NewAt_id (newAt_state i s t) t) = mint s (anchor_ms t) (int i + 1)"
    "fst (NewAt_id (newAt_state j s t) t) = mint s (anchor_ms t) (int j + 1)"
    using newAt_burst_id assms by simp_all
  moreover have "mint s (anchor_ms t) (int i + 1) < mint s (anchor_ms t) (int j + 1)"
    using mint_arith [OF g a] assms(5,6) by simp
  moreover have "SnowflakeTime (mint s (anchor_ms t) (int i + 1)) = max t discordEpoch"
    using SnowflakeTime_mint [OF g a, of "int i + 1"] assms(5,6) by (simp add: anchor_ms_def)
  ultimately show ?thesis by simp
qed

lemma NewAt_burst_ordered_witness:
  "fst (NewAt_id (newAt_state 0 (NewSnowflake 1 1) 1500000000000) 1500000000000)
     < fst (NewAt_id (newAt_state 7 (NewSnowflake 1 1) 1500000000000) 1500000000000)"
  using NewAt_burst_ordered [of "NewSnowflake 1 1" 1500000000000 0 7]
  by (simp add: valid_gen_def NewSnowflake_def discordEpoch_def and_31)

text \<open>The 4097th id anchored at one timestamp is the first one again: the spill into the next
  millisecond deletes the counter of the full one, so the sequence starts over.\<close>

lemma NewAt_repeats_after_spill:
  assumes "- (2 ^ 62) < t" "t - discordEpoch < 2 ^ 41" "aux s = []"
  shows "fst (NewAt_id (newAt_state 4096 s t) t) = fst (NewAt_id s t)"
proof -
  have "aux_get (newAt_state 4096 s t) (anchor_ms t) = 0" "aux_get s (anchor_ms t) = 0"
    using assms by (simp_all add: newAt_state_spilled aux_get_def)
  then show ?thesis
    using assms by (simp add: NewAt_id_room newAt_state_spilled)
qed

lemma NewAt_repeats_after_spill_witness:
  "fst (NewAt_id (newAt_state 4096 (NewSnowflake 1 1) 1500000000000) 1500000000000)
     = fst (NewAt_id (NewSnowflake 1 1) 1500000000000)"
  by (rule NewAt_repeats_after_spill) (simp_all add: NewSnowflake_def discordEpoch_def)

text \<open>C29: For an anchor below epoch + 2^41 (the year 2084), \<open>NewBelow\<close> returns the decimal form of a non-negative
  63-bit id that lies strictly below the ceiling when the ceiling parses to a positive number, and whose embedded time
  is at most the anchor, or the Discord epoch (2015) for an anchor before it; counters are supposed to be as the
  generator leaves them.\<close>

lemma NewBelow_under_ceiling:
  assumes "valid_gen s" "valid_aux s" "- (2 ^ 62) < t" "t - discordEpoch < 2 ^ 41"
  shows "\<exists>i. fst (NewBelow s t c) = format_int i \<and> ParseSnowflake (fst (NewBelow s t c)) = Inr i \<and>
     (newBelow_ceil c = 0 \<or> i < newBelow_ceil c) \<and> SnowflakeTime i \<le> max t discordEpoch"
proof -
  obtain i where "fst (NewBelow s t c) = format_int i" "0 \<le> i" "i < 2 ^ 63"
    "newBelow_ceil c = 0 \<or> i < newBelow_ceil c" "i \<noteq> 0 \<longrightarrow> SnowflakeTime i \<le> max t discordEpoch"
    using NewBelow_cases [OF assms, of c] by blast
  moreover have "SnowflakeTime 0 = discordEpoch"
    by (simp add: SnowflakeTime_def discordEpoch_def i64_id)
  ultimately show ?thesis using ParseSnowflake_format [of i] by (intro exI [of _ i]) auto
qed

lemma NewBelow_under_ceiling_witness:
  "\<exists>i. fst (NewBelow (NewSnowflake 1 1) 1500000000000 ''335200000000000000'') = format_int i \<and>
     (newBelow_ceil ''335200000000000000'' = 0 \<or> i < newBelow_ceil ''335200000000000000'')"
  using NewBelow_under_ceiling [of "NewSnowflake 1 1" 1500000000000 "''335200000000000000''"]
  by (auto simp: valid_gen_def valid_aux_def NewSnowflake_def discordEpoch_def and_31)

end
