(* ===== verification/Badger.thy ===== *)
theory Badger
  imports Prelude "HOL-Library.RBT"
begin

text \<open>
  The key/value database the storage package sits on (\<open>github.com/dgraph-io/badger/v4\<close>) is not
  part of the repository: it is a parameter of the model, a record \<open>badger\<close> of the operations
  the code calls inside a transaction. The locale \<open>kv\<close> states what its documentation promises
  (a read sees the writes before it, iteration runs over the live keys in byte order); the
  locale \<open>kv_live\<close> adds that no operation fails for a reason other than a missing key. Every
  theorem about the store names the one it needs as a hypothesis. \<open>mem_kv\<close>, a red-black tree,
  shows that both can hold.
\<close>

record ('d, 'v) badger =
  txn_get :: "'d \<Rightarrow> string \<Rightarrow> err + 'v"
  txn_set :: "'d \<Rightarrow> string \<Rightarrow> 'v \<Rightarrow> err + 'd"
  txn_set_ttl :: "'d \<Rightarrow> string \<Rightarrow> 'v \<Rightarrow> int \<Rightarrow> err + 'd"
  txn_delete :: "'d \<Rightarrow> string \<Rightarrow> err + 'd"
  txn_keys :: "'d \<Rightarrow> string list"    \<comment> \<open>what an iterator visits, ascending\<close>
  txn_commit :: "'d \<Rightarrow> err option"

text \<open>
  \<open>db.Update(f)\<close> runs \<open>f\<close> on a snapshot and commits it; an error of \<open>f\<close> or of the commit
  leaves the database as it was. \<open>db.View(f)\<close> only reads.
\<close>

definition db_update :: "('d, 'v) badger \<Rightarrow> 'd \<Rightarrow> ('d \<Rightarrow> err + ('a \<times> 'd)) \<Rightarrow> (err + 'a) \<times> 'd" where
  "db_update B d f =
     (case f d of
        Inl e \<Rightarrow> (Inl e, d)
      | Inr (x, d') \<Rightarrow> (case txn_commit B d' of Some e \<Rightarrow> (Inl e, d) | None \<Rightarrow> (Inr x, d')))"

definition db_view :: "'d \<Rightarrow> ('d \<Rightarrow> err + 'a) \<Rightarrow> err + 'a" where
  "db_view d f = f d"

text \<open>
  An iterator: \<open>Seek\<close> positions at the first key not below the start, \<open>ValidForPrefix\<close> ends
  the loop at the first key outside the prefix. In reverse the order of the keys is turned.
\<close>

definition seek_scan :: "('d, 'v) badger \<Rightarrow> 'd \<Rightarrow> string \<Rightarrow> string \<Rightarrow> string list" where
  "seek_scan B d start p =
     takeWhile (\<lambda>k. has_prefix k p) (dropWhile (\<lambda>k. k < start) (txn_keys B d))"

definition rseek_scan :: "('d, 'v) badger \<Rightarrow> 'd \<Rightarrow> string \<Rightarrow> string \<Rightarrow> string list" where
  "rseek_scan B d start p =
     takeWhile (\<lambda>k. has_prefix k p) (dropWhile (\<lambda>k. start < k) (rev (txn_keys B d)))"

abbreviation scan :: "('d, 'v) badger \<Rightarrow> 'd \<Rightarrow> string \<Rightarrow> string list" where
  "scan B d p \<equiv> seek_scan B d p p"

fun delete_keys :: "('d, 'v) badger \<Rightarrow> 'd \<Rightarrow> string list \<Rightarrow> err + 'd" where
  "delete_keys B d [] = Inr d"
| "delete_keys B d (k # ks) = tryb (txn_delete B d k) (\<lambda>d. delete_keys B d ks)"

text \<open>The contents of a database, as a map.\<close>

definition content :: "('d, 'v) badger \<Rightarrow> 'd \<Rightarrow> string \<rightharpoonup> 'v" where
  "content B d k = (case txn_get B d k of Inr v \<Rightarrow> Some v | Inl _ \<Rightarrow> None)"

section \<open>Byte order and prefixes\<close>

lemma has_prefix_le: "has_prefix k p \<Longrightarrow> p \<le> k"
  for k p :: string
proof -
  have "p \<le> p @ r" for r by (induction p) auto
  then show "has_prefix k p \<Longrightarrow> p \<le> k" by (auto simp: has_prefix_iff)
qed

lemma prefix_convex: "has_prefix (k::string) p \<Longrightarrow> p \<le> k' \<Longrightarrow> k' \<le> k \<Longrightarrow> has_prefix k' p"
proof (induction p arbitrary: k k')
  case (Cons a p)
  then obtain r where k: "k = a # r" "has_prefix r p" by (cases k) (auto simp: has_prefix_def)
  from Cons.prems(2) obtain b r' where k': "k' = b # r'" by (cases k') auto
  have "b = a \<and> p \<le> r' \<and> r' \<le> r" using Cons.prems(2,3) k k' by auto
  with Cons.IH [OF k(2), of r'] k' show ?case by (auto simp: has_prefix_def)
qed simp

lemma sorted_takeWhile_dropWhile:
  fixes ks :: "'a::linorder list"
  assumes "sorted_wrt (<) ks"
    and conv: "\<And>x y. x \<in> set ks \<Longrightarrow> y \<in> set ks \<Longrightarrow> P y \<Longrightarrow> start \<le> x \<Longrightarrow> x \<le> y \<Longrightarrow> P x"
  shows "takeWhile P (dropWhile (\<lambda>k. k < start) ks) = filter (\<lambda>k. start \<le> k \<and> P k) ks"
  using assms
proof (induction ks)
  case (Cons k ks)
  have up: "\<forall>x \<in> set ks. k < x" using Cons.prems(1) by simp
  have IH: "takeWhile P (dropWhile (\<lambda>k. k < start) ks) = filter (\<lambda>k. start \<le> k \<and> P k) ks"
  proof (rule Cons.IH)
    show "sorted_wrt (<) ks" using Cons.prems(1) by simp
    show "P x" if "x \<in> set ks" "y \<in> set ks" "P y" "start \<le> x" "x \<le> y" for x y
      by (rule Cons.prems(2) [of x y]) (use that in simp_all)
  qed
  show ?case
  proof (cases "k < start")
    case True
    with IH show ?thesis by auto
  next
    case False
    then have ge: "\<forall>x \<in> set (k # ks). start \<le> x" using up by auto
    then have dw: "dropWhile (\<lambda>k. k < start) ks = ks"
      by (cases ks) auto
    show ?thesis
    proof (cases "P k")
      case True
      with IH dw ge False show ?thesis by auto
    next
      case F: False
      have "\<forall>x \<in> set ks. \<not> P x"
      proof
        fix x assume x: "x \<in> set ks"
        then have "k \<le> x" using up by fastforce
        with x F False Cons.prems(2) [of k x] ge show "\<not> P x" by auto
      qed
      with F False show ?thesis by (auto simp: filter_empty_conv)
    qed
  qed
qed simp

lemma sorted_wrt_less_rev: "sorted_wrt (>) (rev xs) = sorted_wrt (<) (xs :: 'a::linorder list)"
  by (simp add: sorted_wrt_rev)

lemma rsorted_takeWhile_dropWhile:
  fixes ks :: "'a::linorder list"
  assumes "sorted_wrt (>) ks"
    and conv: "\<And>x y. x \<in> set ks \<Longrightarrow> y \<in> set ks \<Longrightarrow> P y \<Longrightarrow> x \<le> start \<Longrightarrow> y \<le> x \<Longrightarrow> P x"
  shows "takeWhile P (dropWhile (\<lambda>k. start < k) ks) = filter (\<lambda>k. k \<le> start \<and> P k) ks"
  using assms
proof (induction ks)
  case (Cons k ks)
  have up: "\<forall>x \<in> set ks. x < k" using Cons.prems(1) by simp
  have IH: "takeWhile P (dropWhile (\<lambda>k. start < k) ks) = filter (\<lambda>k. k \<le> start \<and> P k) ks"
  proof (rule Cons.IH)
    show "sorted_wrt (>) ks" using Cons.prems(1) by simp
    show "P x" if "x \<in> set ks" "y \<in> set ks" "P y" "x \<le> start" "y \<le> x" for x y
      by (rule Cons.prems(2) [of x y]) (use that in simp_all)
  qed
  show ?case
  proof (cases "start < k")
    case True
    with IH show ?thesis by auto
  next
    case False
    then have ge: "\<forall>x \<in> set (k # ks). x \<le> start" using up by auto
    then have dw: "dropWhile (\<lambda>k. start < k) ks = ks"
      by (cases ks) auto
    show ?thesis
    proof (cases "P k")
      case True
      with IH dw ge False show ?thesis by auto
    next
      case F: False
      have "\<forall>x \<in> set ks. \<not> P x"
      proof
        fix x assume x: "x \<in> set ks"
        then have "x \<le> k" using up by fastforce
        with x F False Cons.prems(2) [of k x] ge show "\<not> P x" by auto
      qed
      with F False show ?thesis by (auto simp: filter_empty_conv)
    qed
  qed
qed simp

section \<open>The documented contract\<close>

locale kv =
  fixes B :: "('d, 'v) badger"
  assumes get_set: "txn_set B d k v = Inr d' \<Longrightarrow>
      txn_get B d' k' = (if k' = k then Inr v else txn_get B d k')"
    and get_set_ttl: "txn_set_ttl B d k v t = Inr d' \<Longrightarrow>
      txn_get B d' k' = (if k' = k then Inr v else txn_get B d k')"
    and get_delete: "txn_delete B d k = Inr d' \<Longrightarrow>
      txn_get B d' k' = (if k' = k then Inl KeyNotFound else txn_get B d k')"
    and keys_sorted: "sorted_wrt (<) (txn_keys B d)"
    and keys_iff: "k \<in> set (txn_keys B d) \<longleftrightarrow> txn_get B d k \<noteq> Inl KeyNotFound"
begin

lemma content_set: "txn_set B d k v = Inr d' \<Longrightarrow> content B d' = (content B d)(k \<mapsto> v)"
  by (auto simp: content_def get_set fun_eq_iff)

lemma content_delete: "txn_delete B d k = Inr d' \<Longrightarrow> content B d' = (content B d)(k := None)"
  by (auto simp: content_def get_delete fun_eq_iff)

lemma seek_scan_filter:
  "p \<le> start \<Longrightarrow> seek_scan B d start p = filter (\<lambda>k. start \<le> k \<and> has_prefix k p) (txn_keys B d)"
  unfolding seek_scan_def
  by (rule sorted_takeWhile_dropWhile [OF keys_sorted]) (meson order_trans prefix_convex)

lemma scan_filter: "scan B d p = filter (\<lambda>k. has_prefix k p) (txn_keys B d)"
proof -
  have "filter (\<lambda>k. p \<le> k \<and> has_prefix k p) (txn_keys B d) = filter (\<lambda>k. has_prefix k p) (txn_keys B d)"
    by (rule filter_cong) (auto intro: has_prefix_le)
  then show ?thesis by (simp add: seek_scan_filter)
qed

lemma rseek_scan_filter:
  assumes "\<And>k. k \<le> start \<Longrightarrow> has_prefix k p \<or> k < p"
  shows "rseek_scan B d start p = rev (filter (\<lambda>k. k \<le> start \<and> has_prefix k p) (txn_keys B d))"
proof -
  have "rseek_scan B d start p = filter (\<lambda>k. k \<le> start \<and> has_prefix k p) (rev (txn_keys B d))"
    unfolding rseek_scan_def
  proof (rule rsorted_takeWhile_dropWhile)
    show "sorted_wrt (>) (rev (txn_keys B d))" using keys_sorted by (simp add: sorted_wrt_less_rev)
    fix x y assume "has_prefix y p" "x \<le> start" "y \<le> x"
    then show "has_prefix x p" using assms [of x] has_prefix_le [of y p] by auto
  qed
  then show ?thesis by (simp add: rev_filter)
qed

lemma set_scan: "set (scan B d p) = {k. has_prefix k p \<and> txn_get B d k \<noteq> Inl KeyNotFound}"
  by (auto simp: scan_filter keys_iff)

lemma sorted_scan: "sorted_wrt (<) (scan B d p)"
  unfolding scan_filter by (rule sorted_wrt_filter [OF keys_sorted])

lemma get_delete_keys:
  "delete_keys B d ks = Inr d' \<Longrightarrow>
     txn_get B d' k = (if k \<in> set ks then Inl KeyNotFound else txn_get B d k)"
proof (induction ks arbitrary: d)
  case (Cons x ks)
  then obtain d1 where "txn_delete B d x = Inr d1" "delete_keys B d1 ks = Inr d'"
    by (auto simp: tryb_eq_Inr)
  with Cons.IH [of d1] show ?case by (auto simp: get_delete)
qed simp

text \<open>Two databases with the same reads have the same live keys, in the same order.\<close>

lemma keys_cong:
  assumes "\<And>k. txn_get B d k = Inl KeyNotFound \<longleftrightarrow> txn_get B d' k = Inl KeyNotFound"
  shows "txn_keys B d = txn_keys B d'"
proof (rule sorted_distinct_set_unique)
  have "sorted_wrt (<) (txn_keys B d)" "sorted_wrt (<) (txn_keys B d')" by (rule keys_sorted)+
  then show "sorted (txn_keys B d)" "distinct (txn_keys B d)"
    "sorted (txn_keys B d')" "distinct (txn_keys B d')"
    by (auto simp: strict_sorted_iff)
  show "set (txn_keys B d) = set (txn_keys B d')" using assms by (auto simp: keys_iff)
qed

lemma scan_cong:
  assumes "\<And>k. has_prefix k p \<Longrightarrow> txn_get B d k = Inl KeyNotFound \<longleftrightarrow> txn_get B d' k = Inl KeyNotFound"
  shows "scan B d p = scan B d' p"
proof (rule sorted_distinct_set_unique)
  have "sorted_wrt (<) (scan B d p)" "sorted_wrt (<) (scan B d' p)" by (rule sorted_scan)+
  then show "sorted (scan B d p)" "distinct (scan B d p)" "sorted (scan B d' p)" "distinct (scan B d' p)"
    by (auto simp: strict_sorted_iff)
  show "set (scan B d p) = set (scan B d' p)" using assms by (auto simp: set_scan)
qed

end

locale kv_live = kv +
  assumes get_total: "txn_get B d k = Inl e \<Longrightarrow> e = KeyNotFound"
    and set_total: "\<exists>d'. txn_set B d k v = Inr d'"
    and set_ttl_total: "\<exists>d'. txn_set_ttl B d k v t = Inr d'"
    and delete_total: "\<exists>d'. txn_delete B d k = Inr d'"
    and commit_total: "txn_commit B d = None"
begin

lemma update_live: "db_update B d f = (case f d of Inl e \<Rightarrow> (Inl e, d) | Inr (x, d') \<Rightarrow> (Inr x, d'))"
  by (simp add: db_update_def commit_total split: sum.splits)

lemma delete_keys_total: "\<exists>d'. delete_keys B d ks = Inr d'"
proof (induction ks arbitrary: d)
  case (Cons k ks)
  then show ?case using delete_total [of d k] by auto
qed simp

lemma get_missing: "txn_get B d k = Inl e \<longleftrightarrow> e = KeyNotFound \<and> content B d k = None"
  using get_total [of d k] by (auto simp: content_def split: sum.splits)

lemma get_present: "txn_get B d k = Inr v \<longleftrightarrow> content B d k = Some v"
  by (auto simp: content_def split: sum.splits)

lemma set_scan_content: "set (scan B d p) = {k. has_prefix k p \<and> k \<in> dom (content B d)}"
proof -
  have "txn_get B d k \<noteq> Inl KeyNotFound \<longleftrightarrow> k \<in> dom (content B d)" for k
    using get_total [of d k] by (auto simp: content_def dom_def split: sum.splits)
  then show ?thesis by (auto simp: set_scan)
qed

end

section \<open>A reference database\<close>

definition mem_kv :: "((string, 'v) rbt, 'v) badger" where
  "mem_kv = \<lparr>
     txn_get = (\<lambda>d k. case RBT.lookup d k of Some v \<Rightarrow> Inr v | None \<Rightarrow> Inl KeyNotFound),
     txn_set = (\<lambda>d k v. Inr (RBT.insert k v d)),
     txn_set_ttl = (\<lambda>d k v t. Inr (RBT.insert k v d)),
     txn_delete = (\<lambda>d k. Inr (RBT.delete k d)),
     txn_keys = RBT.keys,
     txn_commit = (\<lambda>d. None)\<rparr>"

interpretation mem: kv_live mem_kv
proof
  fix d :: "(string, 'v) rbt"
  show "sorted_wrt (<) (txn_keys mem_kv d)"
    by (simp add: mem_kv_def strict_sorted_iff)
  show "k \<in> set (txn_keys mem_kv d) \<longleftrightarrow> txn_get mem_kv d k \<noteq> Inl KeyNotFound" for k
  proof -
    have "set (RBT.keys d) = dom (RBT.lookup d)" by (simp add: RBT.lookup_keys)
    then show ?thesis by (auto simp: mem_kv_def dom_def split: option.splits)
  qed
qed (auto simp: mem_kv_def split: option.splits if_splits)

end
