(* ===== verification/StoreTypes.thy ===== *)
theory StoreTypes
  imports Badger Decimal
begin

text \<open>
  The rows of \<open>internal/storage\<close>: one record per Go struct, and the values the database
  holds. The code stores JSON; \<open>json.Marshal\<close> of a struct is the constructor of its row and
  \<open>json.Unmarshal\<close> into a struct is the partial inverse, failing on any other value. Times are
  nanoseconds; a Go map inside a row is an association list with one entry per key.
\<close>

type_synonym time = int

definition zeroTime :: time where
  "zeroTime = -62135596800000000000"

datatype json =
    JNull | JBool bool | JNum string | JStr string
  | JArr "json list" | JObj "(string \<times> json) list"

record MentionRef =
  mr_Nick :: string
  mr_ID :: string

record BufferedMessage =
  bm_ID :: string
  bm_ChannelID :: string
  bm_AuthorID :: string
  bm_AuthorName :: string
  bm_Content :: string
  bm_Nonce :: json
  bm_Timestamp :: string
  bm_Type :: int
  bm_MsgID :: string
  bm_ReplyTo :: string
  bm_Reactions :: "(string \<times> string list) list"
  bm_Attachments :: "json list"
  bm_Embeds :: "json list"
  bm_Mentions :: "MentionRef list"

record User =
  u_ID :: string
  u_Username :: string
  u_Email :: string
  u_PassHash :: string
  u_IsAdmin :: bool
  u_Avatar :: string
  u_CreatedAt :: time

record SessionRow =
  ss_TokenHash :: string
  ss_UserID :: string
  ss_CreatedAt :: time
  ss_LastSeen :: time

record Category =
  cat_ID :: string
  cat_Name :: string
  cat_Position :: int

record Network =
  n_ID :: string
  n_ConnID :: string
  n_Name :: string
  n_Host :: string
  n_Port :: int
  n_TLS :: bool
  n_Password :: string
  n_SASLUser :: string
  n_SASLPass :: string
  n_ChannelKeys :: "(string \<times> string) list"
  n_IconHash :: string
  n_IconURL :: string
  n_Categories :: "Category list"
  n_CreatedBy :: string
  n_CreatedAt :: time

record Channel =
  ch_ID :: string
  ch_NetworkID :: string
  ch_IRCName :: string
  ch_Name :: string
  ch_Topic :: string
  ch_ParentID :: string
  ch_Position :: int
  ch_CreatedAt :: time

record DMChannel =
  dm_ID :: string
  dm_NetworkID :: string
  dm_OwnerID :: string
  dm_Nick :: string
  dm_LastMsgAt :: time
  dm_CreatedAt :: time

record Membership =
  mem_UserID :: string
  mem_NetworkID :: string
  mem_Nick :: string
  mem_Username :: string
  mem_Realname :: string
  mem_Avatar :: string
  mem_AvatarRejected :: bool
  mem_AutoJoin :: "string list"
  mem_JoinedAt :: time

record ReadState =
  rs_ChannelID :: string
  rs_LastMessageID :: string
  rs_MentionCount :: int

record Attachment =
  at_ID :: string
  at_Filename :: string
  at_ContentType :: string
  at_Size :: int
  at_Width :: int
  at_Height :: int
  at_UploadedAt :: int

record PendingUpload =
  pu_Token :: string
  pu_UploadFilename :: string
  pu_Filename :: string
  pu_UserID :: string
  pu_ChannelID :: string
  pu_FileSize :: int
  pu_CreatedAt :: int

record AttachmentRef =
  ar_AttachmentID :: string

datatype dbval =
    VMsg BufferedMessage | VUser User | VSession SessionRow | VNet Network | VChan Channel
  | VDM DMChannel | VMem Membership | VRead ReadState | VNote string
  | VSettings "(string \<times> json) list" | VUpload PendingUpload | VAtt Attachment
  | VAttRef AttachmentRef | VTime time | VBytes string

type_synonym 'd store = "('d, dbval) badger"

section \<open>Decoding\<close>

definition as_msg :: "dbval \<Rightarrow> err + BufferedMessage" where
  "as_msg v = (case v of VMsg m \<Rightarrow> Inr m | _ \<Rightarrow> Inl JSONErr)"
definition as_user :: "dbval \<Rightarrow> err + User" where
  "as_user v = (case v of VUser u \<Rightarrow> Inr u | _ \<Rightarrow> Inl JSONErr)"
definition as_session :: "dbval \<Rightarrow> err + SessionRow" where
  "as_session v = (case v of VSession s \<Rightarrow> Inr s | _ \<Rightarrow> Inl JSONErr)"
definition as_net :: "dbval \<Rightarrow> err + Network" where
  "as_net v = (case v of VNet n \<Rightarrow> Inr n | _ \<Rightarrow> Inl JSONErr)"
definition as_chan :: "dbval \<Rightarrow> err + Channel" where
  "as_chan v = (case v of VChan c \<Rightarrow> Inr c | _ \<Rightarrow> Inl JSONErr)"
definition as_dm :: "dbval \<Rightarrow> err + DMChannel" where
  "as_dm v = (case v of VDM c \<Rightarrow> Inr c | _ \<Rightarrow> Inl JSONErr)"
definition as_mem :: "dbval \<Rightarrow> err + Membership" where
  "as_mem v = (case v of VMem m \<Rightarrow> Inr m | _ \<Rightarrow> Inl JSONErr)"
definition as_read :: "dbval \<Rightarrow> err + ReadState" where
  "as_read v = (case v of VRead r \<Rightarrow> Inr r | _ \<Rightarrow> Inl JSONErr)"
definition as_note :: "dbval \<Rightarrow> err + string" where
  "as_note v = (case v of VNote s \<Rightarrow> Inr s | _ \<Rightarrow> Inl JSONErr)"
definition as_settings :: "dbval \<Rightarrow> err + (string \<times> json) list" where
  "as_settings v = (case v of VSettings s \<Rightarrow> Inr s | _ \<Rightarrow> Inl JSONErr)"
definition as_upload :: "dbval \<Rightarrow> err + PendingUpload" where
  "as_upload v = (case v of VUpload u \<Rightarrow> Inr u | _ \<Rightarrow> Inl JSONErr)"
definition as_att :: "dbval \<Rightarrow> err + Attachment" where
  "as_att v = (case v of VAtt a \<Rightarrow> Inr a | _ \<Rightarrow> Inl JSONErr)"
definition as_attref :: "dbval \<Rightarrow> err + AttachmentRef" where
  "as_attref v = (case v of VAttRef a \<Rightarrow> Inr a | _ \<Rightarrow> Inl JSONErr)"
definition as_time :: "dbval \<Rightarrow> err + time" where
  "as_time v = (case v of VTime t \<Rightarrow> Inr t | _ \<Rightarrow> Inl JSONErr)"
definition as_bytes :: "dbval \<Rightarrow> err + string" where
  "as_bytes v = (case v of VBytes s \<Rightarrow> Inr s | _ \<Rightarrow> Inl JSONErr)"

lemmas as_defs = as_msg_def as_user_def as_session_def as_net_def as_chan_def as_dm_def as_mem_def
  as_read_def as_note_def as_settings_def as_upload_def as_att_def as_attref_def as_time_def
  as_bytes_def

lemma as_simps [simp]:
  "as_msg (VMsg m) = Inr m" "as_user (VUser u) = Inr u" "as_session (VSession s) = Inr s"
  "as_net (VNet n) = Inr n" "as_chan (VChan c) = Inr c" "as_dm (VDM dm) = Inr dm"
  "as_mem (VMem mem) = Inr mem" "as_read (VRead r) = Inr r" "as_note (VNote t) = Inr t"
  "as_settings (VSettings st) = Inr st" "as_upload (VUpload up) = Inr up" "as_att (VAtt a) = Inr a"
  "as_attref (VAttRef ar) = Inr ar" "as_time (VTime tm) = Inr tm" "as_bytes (VBytes b) = Inr b"
  by (simp_all add: as_defs)

lemma as_Inr:
  "as_msg v = Inr m \<longleftrightarrow> v = VMsg m" "as_user v = Inr u \<longleftrightarrow> v = VUser u"
  "as_session v = Inr s \<longleftrightarrow> v = VSession s" "as_net v = Inr n \<longleftrightarrow> v = VNet n"
  "as_chan v = Inr c \<longleftrightarrow> v = VChan c" "as_dm v = Inr dm \<longleftrightarrow> v = VDM dm"
  "as_mem v = Inr mem \<longleftrightarrow> v = VMem mem" "as_read v = Inr r \<longleftrightarrow> v = VRead r"
  "as_note v = Inr t \<longleftrightarrow> v = VNote t" "as_bytes v = Inr b \<longleftrightarrow> v = VBytes b"
  "as_att v = Inr a \<longleftrightarrow> v = VAtt a" "as_attref v = Inr ar \<longleftrightarrow> v = VAttRef ar"
  by (auto simp: as_defs split: dbval.splits)

text \<open>\<open>item.Value(json.Unmarshal)\<close> after \<open>txn.Get\<close>: read a key and decode it.\<close>

definition get_as :: "'d store \<Rightarrow> (dbval \<Rightarrow> err + 'a) \<Rightarrow> 'd \<Rightarrow> string \<Rightarrow> err + 'a" where
  "get_as B as t k = tryb (txn_get B t k) as"

text \<open>A write that ends a transaction: \<open>return txn.Set(...)\<close>.\<close>

definition finish :: "err + 'd \<Rightarrow> 'a \<Rightarrow> err + ('a \<times> 'd)" where
  "finish r x = tryb r (\<lambda>t. Inr (x, t))"

lemma finish_simps [simp]: "finish (Inl e) x = Inl e" "finish (Inr t) x = Inr (x, t)"
  by (simp_all add: finish_def)

text \<open>\<open>if errors.Is(err, badger.ErrKeyNotFound) { return ..., e }\<close>.\<close>

definition map_missing :: "err \<Rightarrow> err + 'a \<Rightarrow> err + 'a" where
  "map_missing e r = (case r of Inl KeyNotFound \<Rightarrow> Inl e | _ \<Rightarrow> r)"

lemma map_missing_Inr [simp]: "map_missing e (Inr x) = Inr x"
  by (simp add: map_missing_def)

lemma map_missing_KeyNotFound [simp]: "map_missing e (Inl KeyNotFound) = Inl e"
  by (simp add: map_missing_def)

lemma map_missing_eq_Inr [simp]: "map_missing e r = Inr x \<longleftrightarrow> r = Inr x"
  by (auto simp: map_missing_def split: sum.splits err.splits)

text \<open>Reading a list of keys, stopping at the first value that does not decode.\<close>

fun read_all :: "'d store \<Rightarrow> (dbval \<Rightarrow> err + 'a) \<Rightarrow> 'd \<Rightarrow> string list \<Rightarrow> err + (string \<times> 'a) list" where
  "read_all B as t [] = Inr []"
| "read_all B as t (k # ks) =
     tryb (get_as B as t k) (\<lambda>x. tryb (read_all B as t ks) (\<lambda>xs. Inr ((k, x) # xs)))"

text \<open>\<open>strings.TrimPrefix(key, prefix)\<close> is the part of a key after its prefix.\<close>

fun read_ok :: "'d store \<Rightarrow> (dbval \<Rightarrow> err + 'a) \<Rightarrow> 'd \<Rightarrow> string list \<Rightarrow> (string \<times> 'a) list" where
  "read_ok B as t [] = []"
| "read_ok B as t (k # ks) =
     (case get_as B as t k of Inr x \<Rightarrow> (k, x) # read_ok B as t ks | Inl e \<Rightarrow> read_ok B as t ks)"


text \<open>
  A transaction that also draws ids from a generator (\<open>newID func() string\<close> of the callers):
  the generator advances even when the transaction fails. \<open>ignore_err\<close> is \<open>_ = txn.Set(...)\<close>.
\<close>

type_synonym 'g idgen = "'g \<Rightarrow> string \<times> 'g"

definition db_update_ids ::
  "'d store \<Rightarrow> 'd \<Rightarrow> 'g \<Rightarrow> ('d \<Rightarrow> 'g \<Rightarrow> (err + ('a \<times> 'd)) \<times> 'g) \<Rightarrow> (err + 'a) \<times> 'd \<times> 'g" where
  "db_update_ids B d g f = (let (r, g') = f d g; (x, d') = db_update B d (\<lambda>_. r) in (x, d', g'))"

definition ignore_err :: "err + 'd \<Rightarrow> 'd \<Rightarrow> 'd" where
  "ignore_err r t = (case r of Inr t' \<Rightarrow> t' | Inl _ \<Rightarrow> t)"

lemma ignore_err_simps [simp]: "ignore_err (Inr t') t = t'" "ignore_err (Inl e) t = t"
  by (simp_all add: ignore_err_def)

section \<open>The database of the program\<close>

text \<open>The contract of \<open>kv_live\<close> at the values this program stores.\<close>

locale store = kv_live B for B :: "('d, dbval) badger"
begin

lemma get_as_content: "get_as B f d k = Inr x \<longleftrightarrow> (\<exists>v. content B d k = Some v \<and> f v = Inr x)"
  by (auto simp: get_as_def content_def tryb_eq_Inr split: sum.splits)

lemma get_as_missing: "content B d k = None \<Longrightarrow> get_as B f d k = Inl KeyNotFound"
  by (simp add: get_as_def get_missing [THEN iffD2])

lemma get_as_cong: "content B d k = content B d' k \<Longrightarrow> get_as B f d k = get_as B f d' k"
  by (cases "content B d' k")
    (auto simp: get_as_def get_missing [THEN iffD2] get_present [symmetric] get_as_missing)

end

interpretation mem_store: store mem_kv
  by unfold_locales

lemma content_mem [simp]: "content mem_kv d = RBT.lookup d"
  by (rule ext) (simp add: content_def mem_kv_def split: option.splits)

abbreviation empty_db :: "(string, dbval) rbt" where
  "empty_db \<equiv> RBT.empty"

end
