(* ===== verification/MessageStore.thy ===== *)
theory MessageStore
  imports StoreTypes
begin

text \<open>
  \<open>internal/storage/messages.go\<close>: the per-channel replay ring, the reverse index from IRC
  message ids to rows, and the chathistory watermark.
\<close>

definition MsgBufferCap :: nat where
  "MsgBufferCap = 500"

definition padID :: "string \<Rightarrow> string" where
  "padID i = (case parse_uint64 i of Inr n \<Rightarrow> sprintf020 n | Inl _ \<Rightarrow> ''z'' @ i)"

definition msgPrefix :: "string \<Rightarrow> string" where
  "msgPrefix ch = ''msg:'' @ ch @ '':''"

definition msgKey :: "string \<Rightarrow> string \<Rightarrow> string" where
  "msgKey ch i = ''msg:'' @ ch @ '':'' @ padID i"

definition msgidKey :: "string \<Rightarrow> string \<Rightarrow> string" where
  "msgidKey net msgid = ''ircmsgid:'' @ net @ '':'' @ msgid"

definition chatPrefillKey :: "string \<Rightarrow> string \<Rightarrow> string" where
  "chatPrefillKey net irc = ''chatprefill:'' @ net @ '':'' @ irc"

abbreviation NUL :: char where
  "NUL \<equiv> CHR 0x00"

definition ChatPrefillDone :: "'d store \<Rightarrow> 'd \<Rightarrow> string \<Rightarrow> string \<Rightarrow> bool" where
  "ChatPrefillDone B d net irc =
     (case txn_get B d (chatPrefillKey net irc) of Inr _ \<Rightarrow> True | Inl _ \<Rightarrow> False)"

definition MarkChatPrefill :: "'d store \<Rightarrow> 'd \<Rightarrow> string \<Rightarrow> string \<Rightarrow> time \<Rightarrow> (err + unit) \<times> 'd" where
  "MarkChatPrefill B d net irc now =
     db_update B d (\<lambda>t. finish (txn_set B t (chatPrefillKey net irc) (VTime now)) ())"

definition SetMessageMsgID ::
  "'d store \<Rightarrow> 'd \<Rightarrow> string \<Rightarrow> string \<Rightarrow> string \<Rightarrow> string \<Rightarrow> (err + unit) \<times> 'd" where
  "SetMessageMsgID B d net ch i msgid =
     db_update B d (\<lambda>t.
       tryb (get_as B as_msg t (msgKey ch i)) (\<lambda>m.
       tryb (if bm_MsgID m \<noteq> msgid then txn_set B t (msgKey ch i) (VMsg (m\<lparr>bm_MsgID := msgid\<rparr>))
             else Inr t) (\<lambda>t.
       finish (txn_set B t (msgidKey net msgid) (VBytes (ch @ [NUL] @ i))) ())))"

definition IndexMessageMsgID ::
  "'d store \<Rightarrow> 'd \<Rightarrow> string \<Rightarrow> string \<Rightarrow> string \<Rightarrow> string \<Rightarrow> (err + unit) \<times> 'd" where
  "IndexMessageMsgID B d net msgid ch i =
     (if msgid = [] then (Inr (), d)
      else db_update B d (\<lambda>t. finish (txn_set B t (msgidKey net msgid) (VBytes (ch @ [NUL] @ i))) ()))"

definition SetMessageEmbeds ::
  "'d store \<Rightarrow> 'd \<Rightarrow> string \<Rightarrow> string \<Rightarrow> json list \<Rightarrow> (err + BufferedMessage) \<times> 'd" where
  "SetMessageEmbeds B d ch i embeds =
     db_update B d (\<lambda>t.
       tryb (get_as B as_msg t (msgKey ch i)) (\<lambda>m.
       let m' = m\<lparr>bm_Embeds := embeds\<rparr> in finish (txn_set B t (msgKey ch i) (VMsg m')) m'))"

definition LookupMessageByMsgID :: "'d store \<Rightarrow> 'd \<Rightarrow> string \<Rightarrow> string \<Rightarrow> (string \<times> string) option" where
  "LookupMessageByMsgID B d net msgid =
     (case get_as B as_bytes d (msgidKey net msgid) of
        Inl _ \<Rightarrow> None
      | Inr val \<Rightarrow> (case index_byte val NUL of
            Some i \<Rightarrow> if i > 0 then Some (take i val, drop (i + 1) val) else None
          | None \<Rightarrow> None))"

definition MessageMsgID :: "'d store \<Rightarrow> 'd \<Rightarrow> string \<Rightarrow> string \<Rightarrow> string" where
  "MessageMsgID B d ch i =
     (case get_as B as_msg d (msgKey ch i) of Inr m \<Rightarrow> bm_MsgID m | Inl _ \<Rightarrow> [])"

definition AppendMessage :: "'d store \<Rightarrow> 'd \<Rightarrow> BufferedMessage \<Rightarrow> (err + unit) \<times> 'd" where
  "AppendMessage B d m =
     db_update B d (\<lambda>t.
       tryb (txn_set B t (msgKey (bm_ChannelID m) (bm_ID m)) (VMsg m)) (\<lambda>t.
       let keys = scan B t (msgPrefix (bm_ChannelID m)) in
       finish (delete_keys B t (take (length keys - MsgBufferCap) keys)) ()))"

definition MessageByID :: "'d store \<Rightarrow> 'd \<Rightarrow> string \<Rightarrow> string \<Rightarrow> BufferedMessage option" where
  "MessageByID B d ch i =
     (case get_as B as_msg d (msgKey ch i) of Inr m \<Rightarrow> Some m | Inl _ \<Rightarrow> None)"

definition DeleteMessage :: "'d store \<Rightarrow> 'd \<Rightarrow> string \<Rightarrow> string \<Rightarrow> string \<Rightarrow> (err + unit) \<times> 'd" where
  "DeleteMessage B d net ch i =
     db_update B d (\<lambda>t.
       case txn_get B t (msgKey ch i) of
         Inl e \<Rightarrow> (if e = KeyNotFound then Inr ((), t) else Inl e)
       | Inr v \<Rightarrow>
         tryb (as_msg v) (\<lambda>m.
         tryb (if bm_MsgID m \<noteq> [] then txn_delete B t (msgidKey net (bm_MsgID m)) else Inr t) (\<lambda>t.
         finish (txn_delete B t (msgKey ch i)) ())))"

definition UpdateMessageReactions ::
  "'d store \<Rightarrow> 'd \<Rightarrow> string \<Rightarrow> string \<Rightarrow> (string \<times> string list) list \<Rightarrow> (err + unit) \<times> 'd" where
  "UpdateMessageReactions B d ch i byEmoji =
     db_update B d (\<lambda>t.
       tryb (get_as B as_msg t (msgKey ch i)) (\<lambda>m.
       let m' = m\<lparr>bm_Reactions := (if length byEmoji = 0 then [] else byEmoji)\<rparr> in
       finish (txn_set B t (msgKey ch i) (VMsg m')) ()))"

text \<open>
  One pass of an iterator of \<open>ChannelMessages\<close>: skip the excluded key, keep what decodes, stop
  when \<open>limit\<close> rows are out (the test follows the append, so a limit of 0 acts as 1).
\<close>

fun collect_rows ::
  "'d store \<Rightarrow> 'd \<Rightarrow> (string \<Rightarrow> bool) \<Rightarrow> nat \<Rightarrow> string list \<Rightarrow> BufferedMessage list \<Rightarrow> BufferedMessage list" where
  "collect_rows B t excl limit [] out = out"
| "collect_rows B t excl limit (k # ks) out =
     (if excl k then collect_rows B t excl limit ks out
      else let out' = (case get_as B as_msg t k of Inr m \<Rightarrow> out @ [m] | Inl _ \<Rightarrow> out)
        in if length out' \<ge> limit then out' else collect_rows B t excl limit ks out')"

definition ChannelMessages ::
  "'d store \<Rightarrow> 'd \<Rightarrow> string \<Rightarrow> string \<Rightarrow> string \<Rightarrow> nat \<Rightarrow> BufferedMessage list" where
  "ChannelMessages B d ch before after limit =
     (let p = msgPrefix ch in
      if after = [] then
        let start = p @ (if before \<noteq> [] then padID before else replicate 19 (CHR 0xFF)) in
        collect_rows B d (\<lambda>k. before \<noteq> [] \<and> k = msgKey ch before) limit (rseek_scan B d start p) []
      else
        collect_rows B d (\<lambda>k. k = msgKey ch after) limit (seek_scan B d (msgKey ch after) p) [])"

section \<open>Keys\<close>

lemma msgKey_prefix: "msgKey ch i = msgPrefix ch @ padID i"
  by (simp add: msgKey_def msgPrefix_def)

lemma has_prefix_msgKey [simp]: "has_prefix (msgKey ch i) (msgPrefix ch)"
  by (simp add: msgKey_prefix)

lemma msgKey_other_channel:
  "CHR '':'' \<notin> set ch \<Longrightarrow> CHR '':'' \<notin> set ch' \<Longrightarrow> has_prefix (msgKey ch i) (msgPrefix ch') \<longleftrightarrow> ch = ch'"
  by (simp add: msgKey_def msgPrefix_def)

lemma msgidKey_not_msg [simp]:
  "\<not> has_prefix (msgidKey net i) (msgPrefix ch)" "msgidKey net i \<noteq> msgKey ch j"
  by (simp_all add: msgidKey_def msgPrefix_def msgKey_def)

lemma append_less_same: "p @ x < p @ y \<longleftrightarrow> x < y" for x y :: string
  by (induction p) auto

lemma append_le_same: "p @ x \<le> p @ y \<longleftrightarrow> x \<le> y" for x y :: string
  by (induction p) auto

lemma msgKey_less: "msgKey ch i < msgKey ch j \<longleftrightarrow> padID i < padID j"
  by (simp add: msgKey_prefix append_less_same)

lemma padID_numeric:
  "n < 2 ^ 64 \<Longrightarrow> padID (format_nat n) = sprintf020 n"
  by (simp add: padID_def parse_uint64_format)

lemma padID_less_numeric:
  "m < 2 ^ 64 \<Longrightarrow> n < 2 ^ 64 \<Longrightarrow> padID (format_nat m) < padID (format_nat n) \<longleftrightarrow> m < n"
  by (simp add: padID_numeric sprintf020_less)

lemma is_digit_less_FF: "is_digit c \<Longrightarrow> c < CHR 0xFF"
  by (simp add: is_digit_def less_char_def)

lemma padID_hd: "\<exists>c r. padID i = c # r \<and> c < CHR 0xFF"
proof (cases "parse_uint64 i")
  case (Inl e)
  then show ?thesis by (simp add: padID_def less_char_def)
next
  case (Inr n)
  have "all_digits (sprintf020 n)" by (rule sprintf020_digits)
  then obtain c r where "sprintf020 n = c # r" "is_digit c"
    by (cases "sprintf020 n") (auto simp: all_digits_def)
  then show ?thesis using Inr by (simp add: padID_def is_digit_less_FF)
qed

lemma msgKey_below_top: "msgKey ch i < msgPrefix ch @ replicate 19 (CHR 0xFF)"
proof -
  obtain c r where "padID i = c # r" "c < CHR 0xFF" using padID_hd by blast
  then have "padID i < replicate 19 (CHR 0xFF)" by (simp add: numeral_eq_Suc)
  then show ?thesis by (simp add: msgKey_prefix append_less_same)
qed

lemma le_prefix_append: "k \<le> p @ s \<Longrightarrow> has_prefix k p \<or> k < p" for k p s :: string
proof (induction p arbitrary: k)
  case (Cons a p)
  then show ?case by (cases k) auto
qed simp

section \<open>The ring of a channel\<close>

text \<open>
  The rows of a channel in key order, and the invariant that every value under the channel's
  prefix is a row of that channel stored under its own key.
\<close>

definition ring :: "'d store \<Rightarrow> 'd \<Rightarrow> string \<Rightarrow> BufferedMessage list" where
  "ring B d ch = map snd (read_ok B as_msg d (scan B d (msgPrefix ch)))"

definition ring_wf :: "'d store \<Rightarrow> 'd \<Rightarrow> string \<Rightarrow> bool" where
  "ring_wf B d ch \<longleftrightarrow> (\<forall>k v. content B d k = Some v \<and> has_prefix k (msgPrefix ch) \<longrightarrow>
     (\<exists>m. v = VMsg m \<and> bm_ChannelID m = ch \<and> k = msgKey ch (bm_ID m)))"

definition row_less :: "BufferedMessage \<Rightarrow> BufferedMessage \<Rightarrow> bool" where
  "row_less a b = (padID (bm_ID a) < padID (bm_ID b))"

text \<open>The abstract operation: insert in id order, replacing a row with the same key.\<close>

fun insert_row :: "BufferedMessage \<Rightarrow> BufferedMessage list \<Rightarrow> BufferedMessage list" where
  "insert_row m [] = [m]"
| "insert_row m (r # rs) =
     (if row_less m r then m # r # rs
      else if padID (bm_ID m) = padID (bm_ID r) then m # rs
      else r # insert_row m rs)"

definition newest :: "nat \<Rightarrow> 'a list \<Rightarrow> 'a list" where
  "newest n xs = drop (length xs - n) xs"

lemma length_newest: "length (newest n xs) \<le> n"
  by (simp add: newest_def)

lemma set_insert_row:
  "sorted_wrt row_less rs \<Longrightarrow>
     set (insert_row m rs) = insert m {r \<in> set rs. padID (bm_ID r) \<noteq> padID (bm_ID m)}"
proof (induction rs)
  case (Cons r rs)
  then show ?case by (auto simp: row_less_def)
qed simp

lemma sorted_insert_row: "sorted_wrt row_less rs \<Longrightarrow> sorted_wrt row_less (insert_row m rs)"
proof (induction rs)
  case (Cons r rs)
  then have IH: "sorted_wrt row_less (insert_row m rs)" and r: "\<forall>x \<in> set rs. row_less r x"
    and s: "sorted_wrt row_less rs" by simp_all
  consider "row_less m r" | "padID (bm_ID m) = padID (bm_ID r)" | "row_less r m"
    unfolding row_less_def by (rule linorder_cases [of "padID (bm_ID m)" "padID (bm_ID r)"])
  then show ?case
  proof cases
    case 1
    then have "\<forall>x \<in> set rs. row_less m x" using r by (auto simp: row_less_def)
    with 1 r s show ?thesis by simp
  next
    case 2
    with r have "\<forall>x \<in> set rs. row_less m x" by (auto simp: row_less_def)
    moreover have "insert_row m (r # rs) = m # rs" using 2 by (simp add: row_less_def)
    ultimately show ?thesis using s by simp
  next
    case 3
    then have "insert_row m (r # rs) = r # insert_row m rs" by (auto simp: row_less_def)
    with 3 r s IH show ?thesis by (auto simp: set_insert_row)
  qed
qed simp

lemma insert_row_above:
  "\<forall>r \<in> set rs. row_less r m \<Longrightarrow> insert_row m rs = rs @ [m]"
proof (induction rs)
  case (Cons r rs)
  then show ?case by (auto simp: row_less_def)
qed simp

lemma insert_row_below: "\<forall>r \<in> set rs. row_less m r \<Longrightarrow> insert_row m rs = m # rs"
  by (cases rs) auto

lemma row_sorted_unique:
  "sorted_wrt row_less xs \<Longrightarrow> sorted_wrt row_less ys \<Longrightarrow> set xs = set ys \<Longrightarrow> xs = ys"
proof (induction xs arbitrary: ys)
  case (Cons x xs)
  then obtain y ys' where ys: "ys = y # ys'" by (cases ys) auto
  have irr: "\<not> row_less a b" if "row_less b a" for a b using that by (auto simp: row_less_def)
  have "x = y" using Cons.prems ys irr by (metis insertE list.set(2) list.set_intros(1) sorted_wrt.simps(2))
  moreover have "x \<notin> set xs" "y \<notin> set ys'" using Cons.prems ys by (auto simp: row_less_def)
  ultimately have "set xs = set ys'" using Cons.prems(3) ys by auto
  with Cons ys \<open>x = y\<close> show ?case by auto
qed simp

lemma read_ok_append: "read_ok B f t (xs @ ys) = read_ok B f t xs @ read_ok B f t ys"
  by (induction xs) (auto split: sum.splits)

lemma read_ok_rev: "read_ok B f t (rev xs) = rev (read_ok B f t xs)"
  by (induction xs) (auto simp: read_ok_append split: sum.splits)

lemma read_ok_filter: "read_ok B f t (filter P xs) = filter (\<lambda>(k, x). P k) (read_ok B f t xs)"
  by (induction xs) (auto split: sum.splits)

lemma set_read_ok: "set (read_ok B f t ks) = {(k, x). k \<in> set ks \<and> get_as B f t k = Inr x}"
  by (induction ks) (auto split: sum.splits)

lemma read_ok_cong:
  "(\<And>k. k \<in> set ks \<Longrightarrow> get_as B f t k = get_as B f t' k) \<Longrightarrow> read_ok B f t ks = read_ok B f t' ks"
proof (induction ks)
  case (Cons a ks)
  then have "get_as B f t a = get_as B f t' a" "read_ok B f t ks = read_ok B f t' ks" by simp_all
  then show ?case by (simp split: sum.splits)
qed simp

lemma collect_rows_take:
  assumes "0 < limit" "length out < limit"
  shows "collect_rows B t excl limit ks out =
    take limit (out @ map snd (read_ok B as_msg t (filter (\<lambda>k. \<not> excl k) ks)))"
  using assms(2)
proof (induction ks arbitrary: out)
  case (Cons k ks)
  show ?case
  proof (cases "excl k")
    case False
    show ?thesis
    proof (cases "get_as B as_msg t k")
      case (Inr m)
      with False Cons show ?thesis
        by (cases "length out + 1 = limit") (auto simp: take_Cons')
    next
      case (Inl e)
      with False Cons show ?thesis by auto
    qed
  qed (use Cons in auto)
qed simp

context store
begin

lemma sorted_ring:
  assumes "ring_wf B d ch"
  shows "sorted_wrt row_less (ring B d ch)"
proof -
  have *: "sorted_wrt row_less (map snd (read_ok B as_msg d ks))"
    if "sorted_wrt (<) ks" "\<forall>k \<in> set ks. has_prefix k (msgPrefix ch)" for ks
    using that
  proof (induction ks)
    case (Cons k ks)
    have key: "k' = msgKey ch (bm_ID m)" if "get_as B as_msg d k' = Inr m" "k' \<in> set (k # ks)" for k' m
      using that assms Cons.prems(2) by (force simp: get_as_content as_Inr ring_wf_def)
    show ?case
    proof (cases "get_as B as_msg d k")
      case (Inr m)
      have "row_less m m'" if "(k', m') \<in> set (read_ok B as_msg d ks)" for k' m'
      proof -
        have k': "k' \<in> set ks" "get_as B as_msg d k' = Inr m'" using that by (auto simp: set_read_ok)
        then have "k < k'" using Cons.prems(1) by simp
        then show ?thesis using key [OF Inr] key [OF k'(2)] k' by (simp add: row_less_def msgKey_less)
      qed
      then show ?thesis using Inr Cons by auto
    qed (use Cons in auto)
  qed simp
  show ?thesis unfolding ring_def
    by (rule *) (auto simp: sorted_scan set_scan)
qed

lemma set_ring:
  assumes "ring_wf B d ch"
  shows "m \<in> set (ring B d ch) \<longleftrightarrow>
    bm_ChannelID m = ch \<and> content B d (msgKey ch (bm_ID m)) = Some (VMsg m)"
proof
  assume "m \<in> set (ring B d ch)"
  then obtain k where "has_prefix k (msgPrefix ch)" "content B d k = Some (VMsg m)"
    by (auto simp: ring_def set_read_ok set_scan_content get_as_content as_Inr)
  with assms show "bm_ChannelID m = ch \<and> content B d (msgKey ch (bm_ID m)) = Some (VMsg m)"
    by (auto simp: ring_wf_def)
next
  assume "bm_ChannelID m = ch \<and> content B d (msgKey ch (bm_ID m)) = Some (VMsg m)"
  then have "(msgKey ch (bm_ID m), m) \<in> set (read_ok B as_msg d (scan B d (msgPrefix ch)))"
    by (auto simp: set_read_ok set_scan_content get_as_content as_Inr)
  then show "m \<in> set (ring B d ch)" by (force simp: ring_def)
qed

text \<open>The keys of a well-formed ring are the keys of its rows, in the same order.\<close>

lemma keys_of_read_ok:
  "\<forall>k \<in> set ks. \<exists>m. content B d k = Some (VMsg m) \<Longrightarrow> map fst (read_ok B as_msg d ks) = ks"
proof (induction ks)
  case (Cons k ks)
  then obtain m where "get_as B as_msg d k = Inr m" by (auto simp: get_as_content as_Inr)
  with Cons show ?case by simp
qed simp

lemma ring_wf_keys:
  assumes "ring_wf B d ch" "k \<in> set (scan B d (msgPrefix ch))"
  shows "\<exists>m. content B d k = Some (VMsg m) \<and> bm_ChannelID m = ch \<and> k = msgKey ch (bm_ID m)"
  using assms by (fastforce simp: set_scan_content ring_wf_def)

lemma scan_ring:
  assumes "ring_wf B d ch"
  shows "scan B d (msgPrefix ch) = map (\<lambda>m. msgKey ch (bm_ID m)) (ring B d ch)"
proof -
  let ?r = "read_ok B as_msg d (scan B d (msgPrefix ch))"
  have "map fst ?r = scan B d (msgPrefix ch)"
    by (rule keys_of_read_ok) (use ring_wf_keys [OF assms] in blast)
  moreover have "fst x = msgKey ch (bm_ID (snd x))" if "x \<in> set ?r" for x
  proof -
    have "fst x \<in> set (scan B d (msgPrefix ch))" "content B d (fst x) = Some (VMsg (snd x))"
      using that unfolding set_read_ok by (auto simp: get_as_content as_Inr)
    then show ?thesis using ring_wf_keys [OF assms] by fastforce
  qed
  ultimately show ?thesis unfolding ring_def by (metis (no_types, lifting) map_cong map_map comp_def)
qed

lemma ring_eqI:
  assumes "ring_wf B d ch" "sorted_wrt row_less rs"
    and "\<And>m. m \<in> set rs \<longleftrightarrow> bm_ChannelID m = ch \<and> content B d (msgKey ch (bm_ID m)) = Some (VMsg m)"
  shows "ring B d ch = rs"
  by (rule row_sorted_unique) (use assms sorted_ring set_ring in auto)

text \<open>Writing a row of the channel is an insertion into its ring.\<close>

lemma ring_wf_set:
  assumes "ring_wf B d ch" "bm_ChannelID m = ch" "txn_set B d (msgKey ch (bm_ID m)) (VMsg m) = Inr d'"
  shows "ring_wf B d' ch"
  using assms(1,2) by (auto simp: ring_wf_def content_set [OF assms(3)])

lemma msgKey_eq: "msgKey ch i = msgKey ch j \<longleftrightarrow> padID i = padID j"
  by (simp add: msgKey_prefix)

lemma ring_set:
  assumes wf: "ring_wf B d ch" and ch: "bm_ChannelID m = ch"
    and st: "txn_set B d (msgKey ch (bm_ID m)) (VMsg m) = Inr d'"
  shows "ring B d' ch = insert_row m (ring B d ch)"
proof (rule ring_eqI)
  show "ring_wf B d' ch" by (rule ring_wf_set [OF wf ch st])
  show "sorted_wrt row_less (insert_row m (ring B d ch))"
    by (rule sorted_insert_row [OF sorted_ring [OF wf]])
  fix r show "r \<in> set (insert_row m (ring B d ch)) \<longleftrightarrow>
    bm_ChannelID r = ch \<and> content B d' (msgKey ch (bm_ID r)) = Some (VMsg r)"
    using ch by (auto simp: set_insert_row [OF sorted_ring [OF wf]] set_ring [OF wf]
        content_set [OF st] msgKey_eq)
qed

lemma ring_drop:
  assumes wf: "ring_wf B d ch" and del: "delete_keys B d (take n (scan B d (msgPrefix ch))) = Inr d'"
  shows "ring_wf B d' ch" "ring B d' ch = drop n (ring B d ch)"
proof -
  let ?rs = "ring B d ch"
  have ks: "take n (scan B d (msgPrefix ch)) = map (\<lambda>m. msgKey ch (bm_ID m)) (take n ?rs)"
    by (simp add: scan_ring [OF wf] take_map)
  have c: "content B d' k = (if k \<in> set (map (\<lambda>m. msgKey ch (bm_ID m)) (take n ?rs)) then None else content B d k)" for k
    unfolding content_def using get_delete_keys [OF del, of k] unfolding ks by simp
  show wf': "ring_wf B d' ch" using wf by (auto simp: ring_wf_def c split: if_splits)
  have srt: "sorted_wrt row_less (take n ?rs @ drop n ?rs)" using sorted_ring [OF wf] by simp
  show "ring B d' ch = drop n ?rs"
  proof (rule ring_eqI [OF wf'])
    show "sorted_wrt row_less (drop n ?rs)" using srt by (simp only: sorted_wrt_append)
    fix m
    have split_set: "set ?rs = set (take n ?rs) \<union> set (drop n ?rs)"
      by (metis append_take_drop_id set_append)
    have sep: "padID (bm_ID a) \<noteq> padID (bm_ID b)" if "a \<in> set (take n ?rs)" "b \<in> set (drop n ?rs)" for a b
      using srt [unfolded sorted_wrt_append row_less_def] that by fastforce
    have "m \<in> set (drop n ?rs) \<longleftrightarrow> m \<in> set ?rs \<and> padID (bm_ID m) \<notin> padID ` bm_ID ` set (take n ?rs)"
      using split_set by (fastforce dest: sep)
    then show "m \<in> set (drop n ?rs) \<longleftrightarrow>
      bm_ChannelID m = ch \<and> content B d' (msgKey ch (bm_ID m)) = Some (VMsg m)"
      by (auto simp: set_ring [OF wf] c msgKey_eq)
  qed
qed


lemma AppendMessage_ring:
  assumes wf: "ring_wf B d ch" and ch: "bm_ChannelID m = ch"
  shows "\<exists>d'. AppendMessage B d m = (Inr (), d') \<and> ring_wf B d' ch
    \<and> ring B d' ch = newest MsgBufferCap (insert_row m (ring B d ch))
    \<and> (\<forall>k. \<not> has_prefix k (msgPrefix ch) \<longrightarrow> content B d' k = content B d k)"
proof -
  obtain d1 where st: "txn_set B d (msgKey ch (bm_ID m)) (VMsg m) = Inr d1" using set_total by blast
  let ?ks = "scan B d1 (msgPrefix ch)"
  let ?n = "length ?ks - MsgBufferCap"
  obtain d2 where del: "delete_keys B d1 (take ?n ?ks) = Inr d2" using delete_keys_total by blast
  have wf1: "ring_wf B d1 ch" by (rule ring_wf_set [OF wf ch st])
  have "length ?ks = length (ring B d1 ch)" by (simp add: scan_ring [OF wf1])
  then have r: "ring_wf B d2 ch" "ring B d2 ch = newest MsgBufferCap (insert_row m (ring B d ch))"
    using ring_drop [OF wf1 del] ring_set [OF wf ch st] by (simp_all add: newest_def)
  have "content B d2 k = content B d k" if "\<not> has_prefix k (msgPrefix ch)" for k
  proof -
    have "k \<notin> set (take ?n ?ks)" using that by (auto dest!: in_set_takeD simp: set_scan)
    moreover have "k \<noteq> msgKey ch (bm_ID m)" using that by auto
    ultimately show ?thesis
      unfolding content_def using get_delete_keys [OF del, of k] get_set [OF st, of k] by simp
  qed
  moreover have "AppendMessage B d m = (Inr (), d2)"
    using st del ch by (simp add: AppendMessage_def update_live Let_def)
  ultimately show ?thesis using r by blast
qed

lemma ring_cong:
  assumes "\<And>k. has_prefix k (msgPrefix ch) \<Longrightarrow> content B d' k = content B d k"
  shows "ring_wf B d' ch = ring_wf B d ch" "ring B d' ch = ring B d ch"
proof -
  show "ring_wf B d' ch = ring_wf B d ch" using assms by (auto simp: ring_wf_def)
  have "scan B d' (msgPrefix ch) = scan B d (msgPrefix ch)"
  proof (rule scan_cong)
    fix k assume "has_prefix k (msgPrefix ch)"
    then have "content B d' k = content B d k" by (rule assms)
    then show "txn_get B d' k = Inl KeyNotFound \<longleftrightarrow> txn_get B d k = Inl KeyNotFound"
      by (simp add: get_missing)
  qed
  moreover have "read_ok B as_msg d' (scan B d (msgPrefix ch)) = read_ok B as_msg d (scan B d (msgPrefix ch))"
    by (rule read_ok_cong, rule get_as_cong, rule assms) (simp add: set_scan)
  ultimately show "ring B d' ch = ring B d ch" by (simp add: ring_def)
qed

text \<open>Pages of a channel.\<close>

lemma read_ok_keys:
  assumes wf: "ring_wf B d ch" and sub: "set ks \<subseteq> set (scan B d (msgPrefix ch))"
  shows "filter (\<lambda>(k, m). P k) (read_ok B as_msg d ks)
    = filter (\<lambda>(k, m). P (msgKey ch (bm_ID m))) (read_ok B as_msg d ks)"
proof (rule filter_cong [OF refl])
  fix x assume "x \<in> set (read_ok B as_msg d ks)"
  then have "fst x \<in> set (scan B d (msgPrefix ch))" "content B d (fst x) = Some (VMsg (snd x))"
    using sub unfolding set_read_ok by (auto simp: get_as_content as_Inr)
  then have "fst x = msgKey ch (bm_ID (snd x))" using ring_wf_keys [OF wf] by fastforce
  then show "(case x of (k, m) \<Rightarrow> P k) = (case x of (k, m) \<Rightarrow> P (msgKey ch (bm_ID m)))"
    by (cases x) simp
qed

lemma ring_filter_keys:
  assumes "ring_wf B d ch"
  shows "map snd (read_ok B as_msg d (filter P (scan B d (msgPrefix ch))))
    = filter (\<lambda>m. P (msgKey ch (bm_ID m))) (ring B d ch)"
proof -
  have "filter (\<lambda>m. Q m) (map snd xs) = map snd (filter (\<lambda>(k, m). Q m) xs)" for Q and xs :: "(string \<times> BufferedMessage) list"
    by (induction xs) auto
  then show ?thesis
    using read_ok_keys [OF assms order_refl, of P] by (simp add: read_ok_filter ring_def)
qed

lemma ChannelMessages_before:
  assumes wf: "ring_wf B d ch" and lim: "0 < limit"
  shows "ChannelMessages B d ch before [] limit
    = take limit (rev (filter (\<lambda>m. before = [] \<or> padID (bm_ID m) < padID before) (ring B d ch)))"
proof -
  let ?start = "msgPrefix ch @ (if before \<noteq> [] then padID before else replicate 19 (CHR 0xFF))"
  let ?ex = "\<lambda>k. before \<noteq> [] \<and> k = msgKey ch before"
  have "rseek_scan B d ?start (msgPrefix ch) = rev (filter (\<lambda>k. k \<le> ?start) (scan B d (msgPrefix ch)))"
    by (subst rseek_scan_filter) (auto simp: scan_filter conj_commute dest: le_prefix_append)
  then have "ChannelMessages B d ch before [] limit
    = take limit (map snd (read_ok B as_msg d (filter (\<lambda>k. \<not> ?ex k) (rev (filter (\<lambda>k. k \<le> ?start) (scan B d (msgPrefix ch)))))))"
    unfolding ChannelMessages_def Let_def by (simp add: collect_rows_take lim)
  also have "\<dots> = take limit (rev (filter (\<lambda>m. msgKey ch (bm_ID m) \<le> ?start \<and> \<not> ?ex (msgKey ch (bm_ID m))) (ring B d ch)))"
    unfolding rev_filter [symmetric] filter_filter read_ok_rev rev_map [symmetric] ring_filter_keys [OF wf]
    by (simp add: conj_commute)
  also have "(\<lambda>m. msgKey ch (bm_ID m) \<le> ?start \<and> \<not> ?ex (msgKey ch (bm_ID m)))
      = (\<lambda>m. before = [] \<or> padID (bm_ID m) < padID before)"
  proof
    fix m
    show "(msgKey ch (bm_ID m) \<le> ?start \<and> \<not> ?ex (msgKey ch (bm_ID m)))
      = (before = [] \<or> padID (bm_ID m) < padID before)"
    proof (cases "before = []")
      case True
      then show ?thesis using msgKey_below_top [of ch "bm_ID m"] by simp
    qed (auto simp: msgKey_prefix append_le_same)
  qed
  finally show ?thesis .
qed

lemma ChannelMessages_after:
  assumes wf: "ring_wf B d ch" and lim: "0 < limit" and a: "after \<noteq> []"
  shows "ChannelMessages B d ch before after limit
    = take limit (filter (\<lambda>m. padID after < padID (bm_ID m)) (ring B d ch))"
proof -
  have "seek_scan B d (msgKey ch after) (msgPrefix ch)
      = filter (\<lambda>k. msgKey ch after \<le> k) (scan B d (msgPrefix ch))"
    unfolding scan_filter
    by (subst seek_scan_filter) (auto simp: has_prefix_le conj_commute)
  then have "ChannelMessages B d ch before after limit
    = take limit (map snd (read_ok B as_msg d (filter (\<lambda>k. msgKey ch after \<le> k \<and> k \<noteq> msgKey ch after) (scan B d (msgPrefix ch)))))"
    unfolding ChannelMessages_def Let_def using a by (simp add: collect_rows_take lim conj_commute)
  also have "\<dots> = take limit (filter (\<lambda>m. padID after < padID (bm_ID m)) (ring B d ch))"
    unfolding ring_filter_keys [OF wf] by (simp add: msgKey_prefix append_le_same less_le neq_commute conj_commute)
  finally show ?thesis .
qed


text \<open>The message-id index.\<close>

lemma SetMessageMsgID_content:
  assumes "content B d (msgKey ch i) = Some (VMsg m)"
  shows "\<exists>d'. SetMessageMsgID B d net ch i msgid = (Inr (), d') \<and>
    content B d' = (content B d)(msgKey ch i \<mapsto> VMsg (m\<lparr>bm_MsgID := msgid\<rparr>),
                                msgidKey net msgid \<mapsto> VBytes (ch @ [NUL] @ i))"
proof -
  have g: "get_as B as_msg d (msgKey ch i) = Inr m" using assms by (simp add: get_as_content as_Inr)
  obtain d1 where d1: "(if bm_MsgID m \<noteq> msgid then txn_set B d (msgKey ch i) (VMsg (m\<lparr>bm_MsgID := msgid\<rparr>))
      else Inr d) = Inr d1" using set_total [of d] by fastforce
  obtain d2 where d2: "txn_set B d1 (msgidKey net msgid) (VBytes (ch @ [NUL] @ i)) = Inr d2"
    using set_total by blast
  have c1: "content B d1 = (content B d)(msgKey ch i \<mapsto> VMsg (m\<lparr>bm_MsgID := msgid\<rparr>))"
  proof (cases "bm_MsgID m = msgid")
    case True
    then show ?thesis using d1 assms by (auto simp: fun_eq_iff)
  next
    case False
    with d1 show ?thesis by (simp add: content_set)
  qed
  have "SetMessageMsgID B d net ch i msgid = (Inr (), d2)"
    using g d1 d2 by (simp add: SetMessageMsgID_def update_live)
  then show ?thesis using c1 content_set [OF d2] by simp
qed

lemma LookupMessage_bytes:
  assumes "content B d (msgidKey net msgid) = Some (VBytes (ch @ [NUL] @ i))" "ch \<noteq> []" "NUL \<notin> set ch"
  shows "LookupMessageByMsgID B d net msgid = Some (ch, i)"
proof -
  have "get_as B as_bytes d (msgidKey net msgid) = Inr (ch @ [NUL] @ i)"
    using assms by (simp add: get_as_content as_Inr)
  then show ?thesis using assms index_byte_append [of NUL ch i] by (simp add: LookupMessageByMsgID_def)
qed

lemma DeleteMessage_content:
  assumes "content B d (msgKey ch i) = Some (VMsg m)"
  shows "\<exists>d'. DeleteMessage B d net ch i = (Inr (), d') \<and>
    content B d' = (if bm_MsgID m = [] then content B d else (content B d)(msgidKey net (bm_MsgID m) := None))
                     (msgKey ch i := None)"
proof -
  have g: "txn_get B d (msgKey ch i) = Inr (VMsg m)" using assms by (simp add: get_present)
  obtain d1 where d1: "(if bm_MsgID m \<noteq> [] then txn_delete B d (msgidKey net (bm_MsgID m)) else Inr d) = Inr d1"
    using delete_total [of d] by fastforce
  obtain d2 where d2: "txn_delete B d1 (msgKey ch i) = Inr d2" using delete_total by blast
  have "content B d1 = (if bm_MsgID m = [] then content B d else (content B d)(msgidKey net (bm_MsgID m) := None))"
    using d1 by (auto simp: content_delete split: if_splits)
  moreover have "DeleteMessage B d net ch i = (Inr (), d2)"
    using g d1 d2 by (simp add: DeleteMessage_def update_live)
  ultimately show ?thesis using content_delete [OF d2] by simp
qed

lemma DeleteMessage_absent:
  "content B d (msgKey ch i) = None \<Longrightarrow> DeleteMessage B d net ch i = (Inr (), d)"
  by (simp add: DeleteMessage_def update_live get_missing [THEN iffD2])

lemma DeleteMessage_ring:
  assumes wf: "ring_wf B d ch" and m: "m \<in> set (ring B d ch)"
  shows "\<exists>d'. DeleteMessage B d net ch (bm_ID m) = (Inr (), d') \<and> ring_wf B d' ch
    \<and> ring B d' ch = filter (\<lambda>r. padID (bm_ID r) \<noteq> padID (bm_ID m)) (ring B d ch)
    \<and> (bm_MsgID m \<noteq> [] \<longrightarrow> LookupMessageByMsgID B d' net (bm_MsgID m) = None)"
proof -
  have "content B d (msgKey ch (bm_ID m)) = Some (VMsg m)" using m by (simp add: set_ring [OF wf])
  then obtain d' where d': "DeleteMessage B d net ch (bm_ID m) = (Inr (), d')"
    and c: "content B d' = (if bm_MsgID m = [] then content B d else (content B d)(msgidKey net (bm_MsgID m) := None))
                     (msgKey ch (bm_ID m) := None)"
    using DeleteMessage_content by blast
  have cm: "content B d' k = (if k = msgKey ch (bm_ID m) then None else content B d k)"
    if "has_prefix k (msgPrefix ch)" for k
    using that c by (auto split: if_splits)
  have wf': "ring_wf B d' ch" using wf by (auto simp: ring_wf_def cm split: if_splits)
  have "ring B d' ch = filter (\<lambda>r. padID (bm_ID r) \<noteq> padID (bm_ID m)) (ring B d ch)"
    by (rule ring_eqI [OF wf' sorted_wrt_filter [OF sorted_ring [OF wf]]])
      (auto simp: set_ring [OF wf] cm msgKey_eq)
  moreover have "LookupMessageByMsgID B d' net (bm_MsgID m) = None" if "bm_MsgID m \<noteq> []"
  proof -
    have "content B d' (msgidKey net (bm_MsgID m)) = None" using that c by simp
    then show ?thesis by (simp add: LookupMessageByMsgID_def get_as_missing)
  qed
  ultimately show ?thesis using d' wf' by blast
qed

end

section \<open>Runs of appends\<close>

primrec append_all :: "'d store \<Rightarrow> 'd \<Rightarrow> BufferedMessage list \<Rightarrow> 'd" where
  "append_all B d [] = d"
| "append_all B d (m # ms) = append_all B (snd (AppendMessage B d m)) ms"

lemma newest_newest: "newest n (newest n xs @ ys) = newest n (xs @ ys)"
  by (cases "length xs \<le> n") (simp_all add: newest_def add.commute)

lemma newest_all: "length xs \<le> n \<Longrightarrow> newest n xs = xs"
  by (simp add: newest_def)

lemma sorted_newest: "sorted_wrt P (xs @ ys) \<Longrightarrow> sorted_wrt P (newest n xs @ ys)"
  unfolding newest_def by (auto simp: sorted_wrt_append sorted_wrt_drop dest: in_set_dropD)

context store
begin

lemma append_all_ring:
  assumes "ring_wf B d ch" "length (ring B d ch) \<le> MsgBufferCap" "\<forall>m \<in> set ms. bm_ChannelID m = ch"
    and "sorted_wrt row_less (ring B d ch @ ms)"
  shows "ring_wf B (append_all B d ms) ch \<and> ring B (append_all B d ms) ch = newest MsgBufferCap (ring B d ch @ ms)"
  using assms
proof (induction ms arbitrary: d)
  case Nil
  then show ?case by (simp add: newest_all)
next
  case (Cons m ms)
  obtain d' where d: "AppendMessage B d m = (Inr (), d')" "ring_wf B d' ch"
      "ring B d' ch = newest MsgBufferCap (insert_row m (ring B d ch))"
    using AppendMessage_ring [OF Cons.prems(1), of m] Cons.prems(3) by auto
  have "\<forall>r \<in> set (ring B d ch). row_less r m" using Cons.prems(4) by (auto simp: sorted_wrt_append)
  then have r: "ring B d' ch = newest MsgBufferCap (ring B d ch @ [m])"
    using d(3) by (simp add: insert_row_above)
  have "ring_wf B (append_all B d' ms) ch \<and>
      ring B (append_all B d' ms) ch = newest MsgBufferCap (ring B d' ch @ ms)"
  proof (rule Cons.IH [OF d(2)])
    show "length (ring B d' ch) \<le> MsgBufferCap" by (simp add: r length_newest)
    show "sorted_wrt row_less (ring B d' ch @ ms)"
      unfolding r by (rule sorted_newest) (use Cons.prems(4) in simp)
  qed (use Cons.prems(3) in simp)
  then show ?case using d(1) by (simp add: r newest_newest)
qed

end

section \<open>Properties\<close>

definition sampleMessage :: "string \<Rightarrow> string \<Rightarrow> BufferedMessage" where
  "sampleMessage ch i =
     \<lparr>bm_ID = i, bm_ChannelID = ch, bm_AuthorID = [], bm_AuthorName = [], bm_Content = ''hi'', bm_Nonce = JNull,
      bm_Timestamp = [], bm_Type = 0, bm_MsgID = [], bm_ReplyTo = [], bm_Reactions = [], bm_Attachments = [],
      bm_Embeds = [], bm_Mentions = []\<rparr>"

lemma sampleMessage_sel [simp]:
  "bm_ID (sampleMessage ch i) = i" "bm_ChannelID (sampleMessage ch i) = ch" "bm_MsgID (sampleMessage ch i) = []"
  by (simp_all add: sampleMessage_def)

lemma ring_wf_empty [simp]: "ring_wf mem_kv empty_db ch"
  by (simp add: ring_wf_def)

lemma ring_empty [simp]: "ring mem_kv empty_db ch = []"
  using mem_store.set_ring [OF ring_wf_empty, of _ ch] by (cases "ring mem_kv empty_db ch") auto

text \<open>A database with one message, and one with a message of each of two ids.\<close>

definition one_row :: "(string, dbval) rbt" where
  "one_row = append_all mem_kv empty_db [sampleMessage ''7'' ''42'']"

lemma one_row: "ring_wf mem_kv one_row ''7''" "ring mem_kv one_row ''7'' = [sampleMessage ''7'' ''42'']"
  using mem_store.append_all_ring [OF ring_wf_empty, of "''7''" "[sampleMessage ''7'' ''42'']"]
  by (simp_all add: one_row_def newest_def MsgBufferCap_def)

definition full_ring :: "BufferedMessage list" where
  "full_ring = map (\<lambda>i. sampleMessage ''7'' (format_nat (i + 1000))) [0..<500]"

text \<open>C13: Appending a message to a channel's ring inserts it at its place in id order (replacing a row
  of the same id) and keeps the newest 500 rows; nothing outside the channel's key prefix changes.\<close>

lemma AppendMessage_newest:
  assumes "store B" "ring_wf B d (bm_ChannelID m)"
  shows "\<exists>d'. AppendMessage B d m = (Inr (), d') \<and> ring_wf B d' (bm_ChannelID m)
    \<and> ring B d' (bm_ChannelID m) = newest 500 (insert_row m (ring B d (bm_ChannelID m)))
    \<and> (\<forall>k. \<not> has_prefix k (msgPrefix (bm_ChannelID m)) \<longrightarrow> content B d' k = content B d k)"
  using store.AppendMessage_ring [OF assms refl] by (simp add: MsgBufferCap_def)

lemma AppendMessage_newest_witness:
  "\<exists>d'. AppendMessage mem_kv empty_db (sampleMessage ''7'' ''42'') = (Inr (), d')
    \<and> ring mem_kv d' ''7'' = [sampleMessage ''7'' ''42'']"
  using AppendMessage_newest [OF mem_store.store_axioms ring_wf_empty, of "sampleMessage ''7'' ''42''"]
  by (auto simp: newest_def)

text \<open>Appending messages with increasing ids to a channel with an empty ring leaves exactly the
  newest 500 of them in the ring, oldest first.\<close>

lemma append_all_newest:
  assumes "store B" "ring_wf B d ch" "ring B d ch = []" "\<forall>m \<in> set ms. bm_ChannelID m = ch"
    and "sorted_wrt row_less ms"
  shows "ring B (append_all B d ms) ch = newest 500 ms"
  using store.append_all_ring [OF assms(1,2), of ms] assms(3-5) by (simp add: MsgBufferCap_def)

lemma append_all_newest_witness:
  "ring mem_kv (append_all mem_kv empty_db [sampleMessage ''7'' (format_nat 42), sampleMessage ''7'' (format_nat 43)]) ''7''
    = [sampleMessage ''7'' (format_nat 42), sampleMessage ''7'' (format_nat 43)]"
proof -
  have "padID (format_nat 42) < padID (format_nat 43)" by (subst padID_less_numeric) simp_all
  then show ?thesis
    using append_all_newest [OF mem_store.store_axioms ring_wf_empty ring_empty,
      of "[sampleMessage ''7'' (format_nat 42), sampleMessage ''7'' (format_nat 43)]" "''7''"]
    by (simp add: newest_def row_less_def)
qed

text \<open>A message older than every row of a full ring (a backfilled one) is dropped by the append that
  stores it: the ring is left as it was.\<close>

lemma AppendMessage_backfill_dropped:
  assumes "store B" "ring_wf B d (bm_ChannelID m)" "length (ring B d (bm_ChannelID m)) = 500"
    and "\<forall>r \<in> set (ring B d (bm_ChannelID m)). row_less m r"
  shows "ring B (snd (AppendMessage B d m)) (bm_ChannelID m) = ring B d (bm_ChannelID m)"
  using store.AppendMessage_ring [OF assms(1,2) refl] assms(3,4)
  by (auto simp: insert_row_below newest_def MsgBufferCap_def)

lemma AppendMessage_backfill_dropped_witness:
  "ring mem_kv (snd (AppendMessage mem_kv (append_all mem_kv empty_db full_ring) (sampleMessage ''7'' (format_nat 3)))) ''7''
    = full_ring"
proof -
  let ?ms = full_ring
  have less: "padID (format_nat i) < padID (format_nat j) \<longleftrightarrow> i < j" if "i < 2000" "j < 2000" for i j
    by (rule padID_less_numeric) (use that in simp_all)
  have "sorted_wrt row_less ?ms"
    by (auto simp: full_ring_def sorted_wrt_iff_nth_less row_less_def less)
  then have r: "ring_wf mem_kv (append_all mem_kv empty_db ?ms) ''7''" "ring mem_kv (append_all mem_kv empty_db ?ms) ''7'' = ?ms"
    using mem_store.append_all_ring [OF ring_wf_empty, of "''7''" ?ms] by (auto simp: full_ring_def newest_def MsgBufferCap_def)
  have "\<forall>r \<in> set ?ms. row_less (sampleMessage ''7'' (format_nat 3)) r"
    by (auto simp: full_ring_def row_less_def less)
  then show ?thesis
    using AppendMessage_backfill_dropped [OF mem_store.store_axioms, of "append_all mem_kv empty_db ?ms" "sampleMessage ''7'' (format_nat 3)"] r
    by (simp add: full_ring_def)
qed

text \<open>C14: A page of history: with \<open>after\<close> the oldest rows above the cursor, otherwise the newest rows
  below it (all rows without a cursor), newest first, at most \<open>limit\<close> of them.\<close>

lemma ChannelMessages_page:
  assumes "store B" "ring_wf B d ch" "0 < limit"
  shows "ChannelMessages B d ch before after limit =
    take limit (if after \<noteq> [] then filter (\<lambda>m. padID after < padID (bm_ID m)) (ring B d ch)
      else rev (filter (\<lambda>m. before = [] \<or> padID (bm_ID m) < padID before) (ring B d ch)))"
  using store.ChannelMessages_before [OF assms, of before] store.ChannelMessages_after [OF assms, of after]
  by simp

lemma ChannelMessages_page_witness:
  "ChannelMessages mem_kv one_row ''7'' [] [] 50 = [sampleMessage ''7'' ''42'']"
  using ChannelMessages_page [OF mem_store.store_axioms one_row(1), of 50 "[]" "[]"] by (simp add: one_row)

text \<open>Binding an IRC msgid to a stored message makes the reverse index find the message and the row
  carry the msgid, and leaves every other key of the database as it was.\<close>

lemma SetMessageMsgID_roundtrip:
  assumes "store B" "ring_wf B d ch" "m \<in> set (ring B d ch)" "ch \<noteq> []" "NUL \<notin> set ch"
  shows "\<exists>d'. SetMessageMsgID B d net ch (bm_ID m) msgid = (Inr (), d')
    \<and> LookupMessageByMsgID B d' net msgid = Some (ch, bm_ID m)
    \<and> MessageMsgID B d' ch (bm_ID m) = msgid
    \<and> (\<forall>k. k \<noteq> msgKey ch (bm_ID m) \<and> k \<noteq> msgidKey net msgid \<longrightarrow> content B d' k = content B d k)"
proof -
  have c: "content B d (msgKey ch (bm_ID m)) = Some (VMsg m)"
    using store.set_ring [OF assms(1,2)] assms(3) by blast
  obtain d' where d': "SetMessageMsgID B d net ch (bm_ID m) msgid = (Inr (), d')"
      "content B d' = (content B d)(msgKey ch (bm_ID m) \<mapsto> VMsg (m\<lparr>bm_MsgID := msgid\<rparr>),
        msgidKey net msgid \<mapsto> VBytes (ch @ [NUL] @ bm_ID m))"
    using store.SetMessageMsgID_content [OF assms(1) c] by blast
  have "get_as B as_msg d' (msgKey ch (bm_ID m)) = Inr (m\<lparr>bm_MsgID := msgid\<rparr>)"
    by (simp add: store.get_as_content [OF assms(1)] d'(2) msgidKey_not_msg(2) [symmetric] as_Inr)
  moreover have "LookupMessageByMsgID B d' net msgid = Some (ch, bm_ID m)"
    using assms(4,5) by (intro store.LookupMessage_bytes [OF assms(1)]) (simp_all add: d'(2))
  ultimately show ?thesis using d' by (intro exI [of _ d']) (simp add: MessageMsgID_def)
qed

lemma SetMessageMsgID_roundtrip_witness:
  "\<exists>d'. SetMessageMsgID mem_kv one_row ''net'' ''7'' ''42'' ''abc'' = (Inr (), d')
    \<and> LookupMessageByMsgID mem_kv d' ''net'' ''abc'' = Some (''7'', ''42'')"
  using SetMessageMsgID_roundtrip [OF mem_store.store_axioms one_row(1), of "sampleMessage ''7'' ''42''" "''net''" "''abc''"]
  by (auto simp: one_row)

text \<open>Deleting a message removes its row and only it from the ring, and its msgid no longer resolves.\<close>

lemma DeleteMessage_removes:
  assumes "store B" "ring_wf B d ch" "m \<in> set (ring B d ch)"
  shows "\<exists>d'. DeleteMessage B d net ch (bm_ID m) = (Inr (), d') \<and> ring_wf B d' ch
    \<and> ring B d' ch = filter (\<lambda>r. padID (bm_ID r) \<noteq> padID (bm_ID m)) (ring B d ch)
    \<and> (bm_MsgID m \<noteq> [] \<longrightarrow> LookupMessageByMsgID B d' net (bm_MsgID m) = None)"
  by (rule store.DeleteMessage_ring [OF assms])

lemma DeleteMessage_removes_witness:
  "\<exists>d'. DeleteMessage mem_kv one_row ''net'' ''7'' ''42'' = (Inr (), d') \<and> ring mem_kv d' ''7'' = []"
  using DeleteMessage_removes [OF mem_store.store_axioms one_row(1), of "sampleMessage ''7'' ''42''" "''net''"]
  by (auto simp: one_row)

end
