(* ===== verification/NetworkStore.thy ===== *)
theory NetworkStore
  imports MessageStore
begin

text \<open>
  \<open>internal/storage/networks.go\<close>: networks, the channel registry (the record \<open>chan/<id>\<close> and the
  index \<open>channet/<net>/<irc>\<close>), DM threads (\<open>dm/<id>\<close> and \<open>dmown/<owner>/<net>/<nick>\<close>),
  memberships, and the garbage collection of a network. \<open>sort.Slice\<close> leaves the order of equal
  elements open; the model keeps their order in the scan.
\<close>

definition chanKey :: "string \<Rightarrow> string" where
  "chanKey i = ''chan/'' @ i"

definition chanNetKey :: "string \<Rightarrow> string \<Rightarrow> string" where
  "chanNetKey net irc = ''channet/'' @ net @ ''/'' @ irc"

definition dmKey :: "string \<Rightarrow> string" where
  "dmKey i = ''dm/'' @ i"

definition dmOwnerKey :: "string \<Rightarrow> string \<Rightarrow> string \<Rightarrow> string" where
  "dmOwnerKey owner net nick = ''dmown/'' @ owner @ ''/'' @ net @ ''/'' @ nick"

definition dmOwnerPrefix :: "string \<Rightarrow> string" where
  "dmOwnerPrefix owner = ''dmown/'' @ owner @ ''/''"

definition SystemIRCName :: string where
  "SystemIRCName = NUL # ''system''"

definition SystemChanName :: string where
  "SystemChanName = ''server-notices''"

definition networkKey :: "string \<Rightarrow> string" where
  "networkKey i = ''network/'' @ i"

definition netConnKey :: "string \<Rightarrow> string" where
  "netConnKey i = ''netconn/'' @ i"

definition memberKey :: "string \<Rightarrow> string \<Rightarrow> string" where
  "memberKey net user = ''member/'' @ net @ ''/'' @ user"

text \<open>The prefixes the scans are built with.\<close>

definition memberPrefix :: "string \<Rightarrow> string" where
  "memberPrefix net = ''member/'' @ net @ ''/''"

definition prefillPrefix :: "string \<Rightarrow> string" where
  "prefillPrefix net = ''chatprefill:'' @ net @ '':''"

definition chanNetPrefix :: "string \<Rightarrow> string" where
  "chanNetPrefix net = ''channet/'' @ net @ ''/''"

section \<open>The channel registry\<close>

definition EnsureSystemChannel ::
  "'d store \<Rightarrow> 'd \<Rightarrow> 'g idgen \<Rightarrow> 'g \<Rightarrow> string \<Rightarrow> time \<Rightarrow> (err + Channel) \<times> 'd \<times> 'g" where
  "EnsureSystemChannel B d newID g netID now =
     db_update_ids B d g (\<lambda>t g.
       case txn_get B t (chanNetKey netID SystemIRCName) of
         Inr v \<Rightarrow> (tryb (as_bytes v) (\<lambda>i. tryb (get_as B as_chan t (chanKey i)) (\<lambda>ch. Inr (ch, t))), g)
       | Inl e \<Rightarrow>
         if e \<noteq> KeyNotFound then (Inl e, g)
         else let (i, g') = newID g;
                  ch = \<lparr>ch_ID = i, ch_NetworkID = netID, ch_IRCName = SystemIRCName,
                        ch_Name = SystemChanName, ch_Topic = [], ch_ParentID = [],
                        ch_Position = 0, ch_CreatedAt = now\<rparr>
              in (tryb (txn_set B t (chanKey (ch_ID ch)) (VChan ch)) (\<lambda>t.
                  finish (txn_set B t (chanNetKey netID SystemIRCName) (VBytes (ch_ID ch))) ch), g'))"

definition EnsureChannel ::
  "'d store \<Rightarrow> 'd \<Rightarrow> 'g idgen \<Rightarrow> 'g \<Rightarrow> string \<Rightarrow> string \<Rightarrow> time \<Rightarrow> (err + Channel) \<times> 'd \<times> 'g" where
  "EnsureChannel B d newID g netID ircName now =
     db_update_ids B d g (\<lambda>t g.
       case txn_get B t (chanNetKey netID ircName) of
         Inr v \<Rightarrow> (tryb (as_bytes v) (\<lambda>i. tryb (get_as B as_chan t (chanKey i)) (\<lambda>ch. Inr (ch, t))), g)
       | Inl e \<Rightarrow>
         if e \<noteq> KeyNotFound then (Inl e, g)
         else let (i, g') = newID g;
                  ch = \<lparr>ch_ID = i, ch_NetworkID = netID, ch_IRCName = ircName,
                        ch_Name = trim_prefix ircName ''#'', ch_Topic = [], ch_ParentID = [],
                        ch_Position = 0, ch_CreatedAt = now\<rparr>
              in (tryb (txn_set B t (chanKey (ch_ID ch)) (VChan ch)) (\<lambda>t.
                  finish (txn_set B t (chanNetKey netID ircName) (VBytes (ch_ID ch))) ch), g'))"

definition GetChannel :: "'d store \<Rightarrow> 'd \<Rightarrow> string \<Rightarrow> err + Channel" where
  "GetChannel B d i = map_missing ErrNotFound (get_as B as_chan d (chanKey i))"

fun ChannelsByIRC ::
  "'d store \<Rightarrow> 'd \<Rightarrow> 'g idgen \<Rightarrow> 'g \<Rightarrow> string \<Rightarrow> string list \<Rightarrow> time \<Rightarrow> (err + Channel list) \<times> 'd \<times> 'g" where
  "ChannelsByIRC B d newID g netID [] now = (Inr [], d, g)"
| "ChannelsByIRC B d newID g netID (name # names) now =
     (case EnsureChannel B d newID g netID name now of
        (Inl e, d', g') \<Rightarrow> (Inl e, d', g')
      | (Inr ch, d', g') \<Rightarrow>
          (case ChannelsByIRC B d' newID g' netID names now of
             (Inl e, d'', g'') \<Rightarrow> (Inl e, d'', g'')
           | (Inr out, d'', g'') \<Rightarrow> (Inr (ch # out), d'', g'')))"

definition GetChannelByIRC :: "'d store \<Rightarrow> 'd \<Rightarrow> string \<Rightarrow> string \<Rightarrow> err + Channel" where
  "GetChannelByIRC B d netID ircName =
     map_missing ErrNotFound
       (tryb (get_as B as_bytes d (chanNetKey netID ircName)) (\<lambda>i. get_as B as_chan d (chanKey i)))"

definition SetChannelGrouping ::
  "'d store \<Rightarrow> 'd \<Rightarrow> string \<Rightarrow> string \<Rightarrow> int \<Rightarrow> bool \<Rightarrow> (err + unit) \<times> 'd" where
  "SetChannelGrouping B d i parentID position setPosition =
     db_update B d (\<lambda>t.
       tryb (get_as B as_chan t (chanKey i)) (\<lambda>ch.
       let ch = ch\<lparr>ch_ParentID := parentID\<rparr>;
           ch = (if setPosition then ch\<lparr>ch_Position := position\<rparr> else ch)
       in finish (txn_set B t (chanKey i) (VChan ch)) ()))"

definition ListChannelsByNetwork :: "'d store \<Rightarrow> 'd \<Rightarrow> string \<Rightarrow> Channel list" where
  "ListChannelsByNetwork B d netID =
     filter (\<lambda>ch. ch_NetworkID ch = netID) (map snd (read_ok B as_chan d (scan B d ''chan/'')))"

definition SetChannelTopic :: "'d store \<Rightarrow> 'd \<Rightarrow> string \<Rightarrow> string \<Rightarrow> (err + unit) \<times> 'd" where
  "SetChannelTopic B d i topic =
     db_update B d (\<lambda>t.
       tryb (get_as B as_chan t (chanKey i)) (\<lambda>ch.
       if ch_Topic ch = topic then Inr ((), t)
       else finish (txn_set B t (chanKey i) (VChan (ch\<lparr>ch_Topic := topic\<rparr>))) ()))"

definition RenameChannel :: "'d store \<Rightarrow> 'd \<Rightarrow> string \<Rightarrow> string \<Rightarrow> string \<Rightarrow> (err + unit) \<times> 'd" where
  "RenameChannel B d netID oldIRC newIRC =
     db_update B d (\<lambda>t.
       tryb (get_as B as_bytes t (chanNetKey netID oldIRC)) (\<lambda>i.
       tryb (get_as B as_chan t (chanKey i)) (\<lambda>ch.
       let ch = ch\<lparr>ch_IRCName := newIRC, ch_Name := trim_prefix newIRC ''#''\<rparr> in
       tryb (txn_set B t (chanKey (ch_ID ch)) (VChan ch)) (\<lambda>t.
       tryb (txn_delete B t (chanNetKey netID oldIRC)) (\<lambda>t.
       tryb (txn_set B t (chanNetKey netID newIRC) (VBytes (ch_ID ch))) (\<lambda>t.
       case txn_get B t (chatPrefillKey netID oldIRC) of
         Inl _ \<Rightarrow> Inr ((), t)
       | Inr v \<Rightarrow>
         let t = ignore_err (txn_set B t (chatPrefillKey netID newIRC) v) t
         in Inr ((), ignore_err (txn_delete B t (chatPrefillKey netID oldIRC)) t)))))))"

section \<open>DM threads\<close>

definition EnsureDMChannel ::
  "'d store \<Rightarrow> 'd \<Rightarrow> 'g idgen \<Rightarrow> 'g \<Rightarrow> string \<Rightarrow> string \<Rightarrow> string \<Rightarrow> time \<Rightarrow> (err + DMChannel) \<times> 'd \<times> 'g" where
  "EnsureDMChannel B d newID g owner netID nick now =
     db_update_ids B d g (\<lambda>t g.
       case txn_get B t (dmOwnerKey owner netID nick) of
         Inr v \<Rightarrow> (tryb (as_bytes v) (\<lambda>i. tryb (get_as B as_dm t (dmKey i)) (\<lambda>dm. Inr (dm, t))), g)
       | Inl e \<Rightarrow>
         if e \<noteq> KeyNotFound then (Inl e, g)
         else let (i, g') = newID g;
                  dm = \<lparr>dm_ID = i, dm_NetworkID = netID, dm_OwnerID = owner, dm_Nick = nick,
                        dm_LastMsgAt = zeroTime, dm_CreatedAt = now\<rparr>
              in (tryb (txn_set B t (dmKey (dm_ID dm)) (VDM dm)) (\<lambda>t.
                  finish (txn_set B t (dmOwnerKey owner netID nick) (VBytes (dm_ID dm))) dm), g'))"

definition GetDMChannel :: "'d store \<Rightarrow> 'd \<Rightarrow> string \<Rightarrow> err + DMChannel" where
  "GetDMChannel B d i = map_missing ErrNotFound (get_as B as_dm d (dmKey i))"

definition emptyDM :: DMChannel where
  "emptyDM = \<lparr>dm_ID = [], dm_NetworkID = [], dm_OwnerID = [], dm_Nick = [],
     dm_LastMsgAt = zeroTime, dm_CreatedAt = zeroTime\<rparr>"

text \<open>
  The closure of \<open>ListDMChannels\<close> returns nil for an index entry without a record, so such an
  entry contributes the zero \<open>DMChannel\<close>; only a record that does not decode is skipped.
\<close>

fun dm_rows :: "'d store \<Rightarrow> 'd \<Rightarrow> string list \<Rightarrow> DMChannel list" where
  "dm_rows B t [] = []"
| "dm_rows B t (k # ks) =
     (case get_as B as_bytes t k of
        Inl _ \<Rightarrow> dm_rows B t ks
      | Inr i \<Rightarrow> (case txn_get B t (dmKey i) of
            Inl _ \<Rightarrow> emptyDM # dm_rows B t ks
          | Inr v \<Rightarrow> (case as_dm v of Inl _ \<Rightarrow> dm_rows B t ks | Inr dm \<Rightarrow> dm # dm_rows B t ks)))"

definition ListDMChannels :: "'d store \<Rightarrow> 'd \<Rightarrow> string \<Rightarrow> DMChannel list" where
  "ListDMChannels B d owner =
     sort_key (\<lambda>dm. - dm_LastMsgAt dm) (dm_rows B d (scan B d (dmOwnerPrefix owner)))"

definition TouchDMChannel :: "'d store \<Rightarrow> 'd \<Rightarrow> string \<Rightarrow> time \<Rightarrow> (err + unit) \<times> 'd" where
  "TouchDMChannel B d i now =
     db_update B d (\<lambda>t.
       tryb (get_as B as_dm t (dmKey i)) (\<lambda>dm.
       finish (txn_set B t (dmKey i) (VDM (dm\<lparr>dm_LastMsgAt := now\<rparr>))) ()))"

definition DeleteDMChannel :: "'d store \<Rightarrow> 'd \<Rightarrow> string \<Rightarrow> (err + unit) \<times> 'd" where
  "DeleteDMChannel B d i =
     db_update B d (\<lambda>t.
       case txn_get B t (dmKey i) of
         Inl e \<Rightarrow> if e = KeyNotFound then Inr ((), t) else Inl e
       | Inr v \<Rightarrow>
         tryb (as_dm v) (\<lambda>dm.
         tryb (txn_delete B t (dmKey i)) (\<lambda>t.
         finish (txn_delete B t (dmOwnerKey (dm_OwnerID dm) (dm_NetworkID dm) (dm_Nick dm))) ())))"

definition SetDMNetwork :: "'d store \<Rightarrow> 'd \<Rightarrow> string \<Rightarrow> string \<Rightarrow> (err + unit) \<times> 'd" where
  "SetDMNetwork B d i netID =
     db_update B d (\<lambda>t.
       tryb (get_as B as_dm t (dmKey i)) (\<lambda>dm.
       if dm_NetworkID dm = netID then Inr ((), t)
       else
         tryb (txn_delete B t (dmOwnerKey (dm_OwnerID dm) (dm_NetworkID dm) (dm_Nick dm))) (\<lambda>t.
         let dm = dm\<lparr>dm_NetworkID := netID\<rparr> in
         tryb (txn_set B t (dmKey i) (VDM dm)) (\<lambda>t.
         finish (txn_set B t (dmOwnerKey (dm_OwnerID dm) (dm_NetworkID dm) (dm_Nick dm)) (VBytes i)) ()))))"

section \<open>Networks\<close>

definition UpsertNetwork :: "'d store \<Rightarrow> 'd \<Rightarrow> Network \<Rightarrow> (err + unit) \<times> 'd" where
  "UpsertNetwork B d n =
     db_update B d (\<lambda>t.
       tryb (txn_set B t (networkKey (n_ID n)) (VNet n)) (\<lambda>t.
       finish (txn_set B t (netConnKey (n_ConnID n)) (VBytes (n_ID n))) ()))"

definition SetNetworkIcon :: "'d store \<Rightarrow> 'd \<Rightarrow> string \<Rightarrow> string \<Rightarrow> string \<Rightarrow> (err + unit) \<times> 'd" where
  "SetNetworkIcon B d netID hash iconURL =
     db_update B d (\<lambda>t.
       tryb (get_as B as_net t (networkKey netID)) (\<lambda>n.
       finish (txn_set B t (networkKey netID) (VNet (n\<lparr>n_IconHash := hash, n_IconURL := iconURL\<rparr>))) ()))"

definition RenameNetwork :: "'d store \<Rightarrow> 'd \<Rightarrow> string \<Rightarrow> string \<Rightarrow> (err + unit) \<times> 'd" where
  "RenameNetwork B d i name =
     db_update B d (\<lambda>t.
       tryb (get_as B as_net t (networkKey i)) (\<lambda>n.
       finish (txn_set B t (networkKey i) (VNet (n\<lparr>n_Name := name\<rparr>))) ()))"

definition GetNetwork :: "'d store \<Rightarrow> 'd \<Rightarrow> string \<Rightarrow> err + Network" where
  "GetNetwork B d i = map_missing ErrNotFound (get_as B as_net d (networkKey i))"

definition NetworkByConnID :: "'d store \<Rightarrow> 'd \<Rightarrow> string \<Rightarrow> err + Network" where
  "NetworkByConnID B d connID =
     tryb (map_missing ErrNotFound (get_as B as_bytes d (netConnKey connID))) (\<lambda>i. GetNetwork B d i)"

definition ListNetworks :: "'d store \<Rightarrow> 'd \<Rightarrow> err + Network list" where
  "ListNetworks B d =
     tryb (read_all B as_net d (scan B d ''network/'')) (\<lambda>rows. Inr (sort_key n_ID (map snd rows)))"

section \<open>Memberships\<close>

definition UpsertMembership :: "'d store \<Rightarrow> 'd \<Rightarrow> Membership \<Rightarrow> (err + unit) \<times> 'd" where
  "UpsertMembership B d m =
     db_update B d (\<lambda>t. finish (txn_set B t (memberKey (mem_NetworkID m) (mem_UserID m)) (VMem m)) ())"

definition GetMembership :: "'d store \<Rightarrow> 'd \<Rightarrow> string \<Rightarrow> string \<Rightarrow> err + Membership" where
  "GetMembership B d netID userID = map_missing ErrNotFound (get_as B as_mem d (memberKey netID userID))"

definition ListMemberships :: "'d store \<Rightarrow> 'd \<Rightarrow> string \<Rightarrow> err + Membership list" where
  "ListMemberships B d netID =
     tryb (read_all B as_mem d (scan B d (memberPrefix netID)))
       (\<lambda>rows. Inr (sort_key mem_UserID (map snd rows)))"

definition ListMembershipsForUser :: "'d store \<Rightarrow> 'd \<Rightarrow> string \<Rightarrow> err + Membership list" where
  "ListMembershipsForUser B d userID =
     tryb (read_all B as_mem d (scan B d ''member/''))
       (\<lambda>rows. Inr (sort_key mem_NetworkID (filter (\<lambda>m. mem_UserID m = userID) (map snd rows))))"

definition DeleteMembership :: "'d store \<Rightarrow> 'd \<Rightarrow> string \<Rightarrow> string \<Rightarrow> (err + unit) \<times> 'd" where
  "DeleteMembership B d netID userID =
     db_update B d (\<lambda>t. finish (txn_delete B t (memberKey netID userID)) ())"

definition MembershipAddChannel ::
  "'d store \<Rightarrow> 'd \<Rightarrow> string \<Rightarrow> string \<Rightarrow> string \<Rightarrow> (err + Membership) \<times> 'd" where
  "MembershipAddChannel B d netID userID ircName =
     db_update B d (\<lambda>t.
       tryb (get_as B as_mem t (memberKey netID userID)) (\<lambda>m.
       if list_ex (\<lambda>ch. equal_fold ch ircName) (mem_AutoJoin m) then Inr (m, t)
       else let m = m\<lparr>mem_AutoJoin := mem_AutoJoin m @ [ircName]\<rparr>
            in finish (txn_set B t (memberKey netID userID) (VMem m)) m))"

definition MembershipRemoveChannel ::
  "'d store \<Rightarrow> 'd \<Rightarrow> string \<Rightarrow> string \<Rightarrow> string \<Rightarrow> (err + unit) \<times> 'd" where
  "MembershipRemoveChannel B d netID userID ircName =
     db_update B d (\<lambda>t.
       case txn_get B t (memberKey netID userID) of
         Inl e \<Rightarrow> if e = KeyNotFound then Inr ((), t) else Inl e
       | Inr v \<Rightarrow>
         tryb (as_mem v) (\<lambda>m.
         finish (txn_set B t (memberKey netID userID)
           (VMem (m\<lparr>mem_AutoJoin := filter (\<lambda>ch. \<not> equal_fold ch ircName) (mem_AutoJoin m)\<rparr>))) ()))"

section \<open>Garbage collection of a network\<close>

fun cascade_chans :: "'d store \<Rightarrow> 'd \<Rightarrow> string list \<Rightarrow> err + 'd" where
  "cascade_chans B t [] = Inr t"
| "cascade_chans B t (i # ids) =
     tryb (txn_delete B t (chanKey i)) (\<lambda>t.
     tryb (delete_keys B t (scan B t (msgPrefix i))) (\<lambda>t.
     cascade_chans B t ids))"

definition DeleteNetworkCascade :: "'d store \<Rightarrow> 'd \<Rightarrow> string \<Rightarrow> (err + unit) \<times> 'd" where
  "DeleteNetworkCascade B d netID =
     db_update B d (\<lambda>t.
       tryb (txn_delete B t (networkKey netID)) (\<lambda>t.
       let memberKeys = scan B t (memberPrefix netID);
           prefillKeys = scan B t (prefillPrefix netID);
           chanIdxKeys = scan B t (chanNetPrefix netID);
           chanIDs = map snd (read_ok B as_bytes t chanIdxKeys)
       in tryb (delete_keys B t memberKeys) (\<lambda>t.
          tryb (delete_keys B t prefillKeys) (\<lambda>t.
          tryb (delete_keys B t chanIdxKeys) (\<lambda>t.
          finish (cascade_chans B t chanIDs) ())))))"

section \<open>The registry as a map\<close>

text \<open>
  The registry is a map from (network, IRC name) to a channel. Its invariant: an index entry
  points to a record that carries the entry's own network and name. Network and channel ids are
  snowflakes, so they hold no separator of a key.
\<close>

definition plain :: "string \<Rightarrow> bool" where
  "plain s \<longleftrightarrow> CHR ''/'' \<notin> set s \<and> CHR '':'' \<notin> set s"

definition reg_entry :: "'d store \<Rightarrow> 'd \<Rightarrow> string \<Rightarrow> string \<Rightarrow> Channel \<Rightarrow> bool" where
  "reg_entry B d net irc ch \<longleftrightarrow> content B d (chanNetKey net irc) = Some (VBytes (ch_ID ch)) \<and>
     content B d (chanKey (ch_ID ch)) = Some (VChan ch) \<and>
     ch_NetworkID ch = net \<and> ch_IRCName ch = irc \<and> plain (ch_ID ch)"

definition reg_wf :: "'d store \<Rightarrow> 'd \<Rightarrow> bool" where
  "reg_wf B d \<longleftrightarrow> (\<forall>net irc. plain net \<longrightarrow> content B d (chanNetKey net irc) \<noteq> None \<longrightarrow>
     (\<exists>ch. reg_entry B d net irc ch))"

definition registry :: "'d store \<Rightarrow> 'd \<Rightarrow> string \<Rightarrow> string \<Rightarrow> Channel option" where
  "registry B d net irc = (case GetChannelByIRC B d net irc of Inr ch \<Rightarrow> Some ch | Inl _ \<Rightarrow> None)"

lemma chanNetKey_inj:
  "plain net \<Longrightarrow> plain net' \<Longrightarrow> chanNetKey net irc = chanNetKey net' irc' \<longleftrightarrow> net = net' \<and> irc = irc'"
  by (simp add: chanNetKey_def plain_def sep_eq)

lemma chan_keys_disjoint [simp]:
  "chanKey i \<noteq> chanNetKey net irc" "chanNetKey net irc \<noteq> chanKey i"
  "chanKey i = chanKey j \<longleftrightarrow> i = j"
  "chatPrefillKey net irc \<noteq> chanKey i" "chatPrefillKey net irc \<noteq> chanNetKey net' irc'"
  "chanKey i \<noteq> chatPrefillKey net irc" "chanNetKey net' irc' \<noteq> chatPrefillKey net irc"
  "chanKey i \<noteq> networkKey j" "chanNetKey net irc \<noteq> networkKey j"
  "chatPrefillKey net irc \<noteq> networkKey j" "memberKey net u \<noteq> networkKey j"
  "netConnKey c \<noteq> networkKey j" "msgKey ch m \<noteq> networkKey j"
  by (simp_all add: chanKey_def chanNetKey_def chatPrefillKey_def networkKey_def memberKey_def
      netConnKey_def msgKey_def)

context store
begin

lemma reg_entry_cong:
  assumes "\<And>irc. content B d' (chanNetKey net irc) = content B d (chanNetKey net irc)"
    and "\<And>i. content B d' (chanKey i) = content B d (chanKey i)"
  shows "reg_entry B d' net irc ch = reg_entry B d net irc ch"
  using assms by (simp add: reg_entry_def)

lemma registry_entry:
  assumes wf: "reg_wf B d" and net: "plain net"
  shows "registry B d net irc = Some ch \<longleftrightarrow> reg_entry B d net irc ch"
proof
  assume "registry B d net irc = Some ch"
  then obtain i where i: "content B d (chanNetKey net irc) = Some (VBytes i)"
      "content B d (chanKey i) = Some (VChan ch)"
    by (auto simp: registry_def GetChannelByIRC_def tryb_eq_Inr get_as_content as_Inr split: sum.splits)
  with wf net obtain ch' where "reg_entry B d net irc ch'" by (force simp: reg_wf_def)
  with i show "reg_entry B d net irc ch" by (auto simp: reg_entry_def)
next
  assume e: "reg_entry B d net irc ch"
  then have "get_as B as_bytes d (chanNetKey net irc) = Inr (ch_ID ch)"
    "get_as B as_chan d (chanKey (ch_ID ch)) = Inr ch"
    by (auto simp: reg_entry_def get_as_content as_Inr)
  then show "registry B d net irc = Some ch" by (simp add: registry_def GetChannelByIRC_def)
qed

lemma registry_None:
  assumes "reg_wf B d" "plain net"
  shows "registry B d net irc = None \<longleftrightarrow> content B d (chanNetKey net irc) = None"
  using assms registry_entry [OF assms] unfolding reg_wf_def
  by (metis not_Some_eq option.distinct(1) reg_entry_def)

text \<open>A change of the database that writes one entry.\<close>

lemma reg_add:
  assumes wf: "reg_wf B d" and net: "plain net"
    and ch: "ch_NetworkID ch = net" "ch_IRCName ch = irc" "plain (ch_ID ch)"
    and own: "content B d (chanKey (ch_ID ch)) = None \<or> registry B d net irc = Some ch0
       \<and> ch_ID ch0 = ch_ID ch"
    and c: "\<And>k. content B d' k = (if k = chanNetKey net irc then Some (VBytes (ch_ID ch))
        else if k = chanKey (ch_ID ch) then Some (VChan ch)
        else content B d k) \<or> (\<forall>n i. k \<noteq> chanNetKey n i) \<and> (\<forall>i. k \<noteq> chanKey i)"
  shows "reg_wf B d'"
    and "plain n \<Longrightarrow> registry B d' n i = (if n = net \<and> i = irc then Some ch else registry B d n i)"
proof -
  have cn: "content B d' (chanNetKey n i) = (if n = net \<and> i = irc then Some (VBytes (ch_ID ch))
      else content B d (chanNetKey n i))" if "plain n" for n i
    using c [of "chanNetKey n i"] chanNetKey_inj [OF that net, of i irc] by auto
  have cc: "content B d' (chanKey j) = (if j = ch_ID ch then Some (VChan ch) else content B d (chanKey j))" for j
    using c [of "chanKey j"] by auto
  have e: "reg_entry B d' n i x \<longleftrightarrow> (if n = net \<and> i = irc then x = ch else reg_entry B d n i x)"
    if n: "plain n" for n i x
  proof (cases "n = net \<and> i = irc")
    case True
    then show ?thesis using ch by (auto simp: reg_entry_def cn [OF net] cc)
  next
    case False
    have "\<not> reg_entry B d n i x" if "ch_ID x = ch_ID ch"
    proof
      assume r: "reg_entry B d n i x"
      from own show False
      proof (elim disjE conjE)
        assume "content B d (chanKey (ch_ID ch)) = None"
        then show False using r that by (simp add: reg_entry_def)
      next
        assume "registry B d net irc = Some ch0" "ch_ID ch0 = ch_ID ch"
        then have "reg_entry B d net irc ch0" using registry_entry [OF wf net] by simp
        then show False using r that False \<open>ch_ID ch0 = ch_ID ch\<close> by (auto simp: reg_entry_def)
      qed
    qed
    moreover have "reg_entry B d' n i x \<Longrightarrow> ch_ID x = ch_ID ch \<Longrightarrow> False"
      using False ch by (auto simp: reg_entry_def cn [OF n] cc)
    ultimately show ?thesis using False by (auto simp: reg_entry_def cn [OF n] cc)
  qed
  show wf': "reg_wf B d'"
    unfolding reg_wf_def
  proof (intro allI impI)
    fix n i assume n: "plain n" and x: "content B d' (chanNetKey n i) \<noteq> None"
    show "\<exists>x. reg_entry B d' n i x"
    proof (cases "n = net \<and> i = irc")
      case False
      then have "content B d (chanNetKey n i) \<noteq> None" using x by (auto simp: cn [OF n])
      with wf n e [OF n] False show ?thesis by (auto simp: reg_wf_def)
    qed (use e [OF n] in auto)
  qed
  show "registry B d' n i = (if n = net \<and> i = irc then Some ch else registry B d n i)" if "plain n"
  proof (cases "n = net \<and> i = irc")
    case True
    then show ?thesis using registry_entry [OF wf' that] e [OF that] by auto
  next
    case False
    then have "registry B d' n i = Some x \<longleftrightarrow> registry B d n i = Some x" for x
      using registry_entry [OF wf' that] registry_entry [OF wf that] e [OF that] by auto
    then have "registry B d' n i = registry B d n i" by (rule option_ext)
    then show ?thesis using False by auto
  qed
qed

end

definition new_channel :: "string \<Rightarrow> string \<Rightarrow> string \<Rightarrow> time \<Rightarrow> Channel" where
  "new_channel i netID ircName now = \<lparr>ch_ID = i, ch_NetworkID = netID, ch_IRCName = ircName,
     ch_Name = trim_prefix ircName ''#'', ch_Topic = [], ch_ParentID = [], ch_Position = 0,
     ch_CreatedAt = now\<rparr>"

lemma new_channel_sel [simp]:
  "ch_ID (new_channel i n c t) = i" "ch_NetworkID (new_channel i n c t) = n"
  "ch_IRCName (new_channel i n c t) = c"
  by (simp_all add: new_channel_def)

context store
begin

lemma EnsureChannel_old:
  assumes "reg_wf B d" "plain net" "registry B d net irc = Some ch"
  shows "EnsureChannel B d newID g net irc now = (Inr ch, d, g)"
proof -
  have "txn_get B d (chanNetKey net irc) = Inr (VBytes (ch_ID ch))"
    "get_as B as_chan d (chanKey (ch_ID ch)) = Inr ch"
    using assms registry_entry [OF assms(1,2)]
    by (auto simp: reg_entry_def get_present get_as_content as_Inr)
  then show ?thesis by (simp add: EnsureChannel_def db_update_ids_def update_live)
qed

lemma EnsureChannel_new:
  assumes wf: "reg_wf B d" and net: "plain net" and none: "registry B d net irc = None"
    and i: "newID g = (i, g')" "plain i" "content B d (chanKey i) = None"
  shows "\<exists>d'. EnsureChannel B d newID g net irc now = (Inr (new_channel i net irc now), d', g')
    \<and> content B d' = (content B d)(chanKey i \<mapsto> VChan (new_channel i net irc now),
                                   chanNetKey net irc \<mapsto> VBytes i)
    \<and> reg_wf B d'
    \<and> (\<forall>n c. plain n \<longrightarrow> registry B d' n c =
         (if n = net \<and> c = irc then Some (new_channel i net irc now) else registry B d n c))"
proof -
  let ?ch = "new_channel i net irc now"
  have "txn_get B d (chanNetKey net irc) = Inl KeyNotFound"
    using none registry_None [OF wf net] by (simp add: get_missing)
  moreover obtain d1 where d1: "txn_set B d (chanKey i) (VChan ?ch) = Inr d1" using set_total by blast
  moreover obtain d2 where d2: "txn_set B d1 (chanNetKey net irc) (VBytes i) = Inr d2" using set_total by blast
  ultimately have E: "EnsureChannel B d newID g net irc now = (Inr ?ch, d2, g')"
    using i(1) by (simp add: EnsureChannel_def db_update_ids_def update_live Let_def flip: new_channel_def)
  have c: "content B d2 = (content B d)(chanKey i \<mapsto> VChan ?ch, chanNetKey net irc \<mapsto> VBytes i)"
    using content_set [OF d1] content_set [OF d2] by simp
  have "reg_wf B d2 \<and> (\<forall>n k. plain n \<longrightarrow> registry B d2 n k = (if n = net \<and> k = irc then Some ?ch else registry B d n k))"
    using reg_add [OF wf net, of ?ch irc ?ch d2] i c by auto
  with E c show ?thesis by blast
qed

lemma RenameChannel_step:
  assumes wf: "reg_wf B d" and net: "plain net" and old: "registry B d net old = Some ch"
    and ne: "old \<noteq> new"
  defines "ch' \<equiv> ch\<lparr>ch_IRCName := new, ch_Name := trim_prefix new ''#''\<rparr>"
  shows "\<exists>d'. RenameChannel B d net old new = (Inr (), d') \<and> reg_wf B d'
    \<and> (\<forall>n c. plain n \<longrightarrow> registry B d' n c = (if n = net \<and> c = new then Some ch'
          else if n = net \<and> c = old then None else registry B d n c))
    \<and> (ChatPrefillDone B d' net new \<longleftrightarrow> ChatPrefillDone B d net old \<or> ChatPrefillDone B d net new)
    \<and> \<not> ChatPrefillDone B d' net old"
proof -
  have en: "reg_entry B d net old ch" using old registry_entry [OF wf net] by simp
  have g: "get_as B as_bytes d (chanNetKey net old) = Inr (ch_ID ch)"
    "get_as B as_chan d (chanKey (ch_ID ch)) = Inr ch"
    using en by (auto simp: reg_entry_def get_as_content as_Inr)
  have id': "ch_ID ch' = ch_ID ch" by (simp add: ch'_def)
  obtain d1 where d1: "txn_set B d (chanKey (ch_ID ch)) (VChan ch') = Inr d1" using set_total by blast
  obtain d2 where d2: "txn_delete B d1 (chanNetKey net old) = Inr d2" using delete_total by blast
  obtain d3 where d3: "txn_set B d2 (chanNetKey net new) (VBytes (ch_ID ch)) = Inr d3" using set_total by blast
  have c3: "content B d3 = (content B d)(chanKey (ch_ID ch) \<mapsto> VChan ch', chanNetKey net old := None,
      chanNetKey net new \<mapsto> VBytes (ch_ID ch))"
    using content_set [OF d1] content_delete [OF d2] content_set [OF d3] by simp
  have pf: "txn_get B d3 (chatPrefillKey net c) = txn_get B d (chatPrefillKey net c)" for c
    using get_set [OF d1] get_delete [OF d2] get_set [OF d3] by simp
  obtain d4 where R: "RenameChannel B d net old new = (Inr (), d4)"
    and c4: "content B d4 = (case content B d (chatPrefillKey net old) of None \<Rightarrow> content B d3
        | Some v \<Rightarrow> (content B d3)(chatPrefillKey net new \<mapsto> v, chatPrefillKey net old := None))"
  proof (cases "txn_get B d (chatPrefillKey net old)")
    case (Inl e)
    then have "RenameChannel B d net old new = (Inr (), d3)"
      using g d1 d2 d3 pf [of old] id' by (simp add: RenameChannel_def update_live Let_def flip: ch'_def)
    moreover have "content B d (chatPrefillKey net old) = None" using Inl by (simp add: content_def)
    ultimately show ?thesis using that by simp
  next
    case (Inr v)
    obtain e1 where e1: "txn_set B d3 (chatPrefillKey net new) v = Inr e1" using set_total by blast
    obtain e2 where e2: "txn_delete B e1 (chatPrefillKey net old) = Inr e2" using delete_total by blast
    have "RenameChannel B d net old new = (Inr (), e2)"
      using g d1 d2 d3 pf [of old] id' Inr e1 e2 by (simp add: RenameChannel_def update_live Let_def flip: ch'_def)
    moreover have "content B d (chatPrefillKey net old) = Some v" using Inr by (simp add: content_def)
    ultimately show ?thesis using that content_set [OF e1] content_delete [OF e2] by simp
  qed
  have done_iff: "ChatPrefillDone B t net c \<longleftrightarrow> content B t (chatPrefillKey net c) \<noteq> None" for t c
    by (auto simp: ChatPrefillDone_def content_def split: sum.splits)
  have pk: "chatPrefillKey net old = chatPrefillKey net new \<longleftrightarrow> False" using ne by (simp add: chatPrefillKey_def)
  have ck: "content B d4 k = (if k = chanNetKey net new then Some (VBytes (ch_ID ch))
      else if k = chanKey (ch_ID ch) then Some (VChan ch') else if k = chanNetKey net old then None
      else content B d k)" if "k \<noteq> chatPrefillKey net new" "k \<noteq> chatPrefillKey net old" for k
    using that ne chanNetKey_inj [OF net net, of old new] by (auto simp: c4 c3 split: option.splits)
  have cn: "content B d4 (chanNetKey n c) = (if n = net \<and> c = new then Some (VBytes (ch_ID ch))
      else if n = net \<and> c = old then None else content B d (chanNetKey n c))" if "plain n" for n c
    using ck [of "chanNetKey n c"] chanNetKey_inj [OF that net] by auto
  have cc: "content B d4 (chanKey j) = (if j = ch_ID ch then Some (VChan ch') else content B d (chanKey j))" for j
    using ck [of "chanKey j"] by auto
  have uniq: "n = net \<and> c = old" if "reg_entry B d n c x" "ch_ID x = ch_ID ch" for n c x
    using that en by (auto simp: reg_entry_def)
  have e4: "reg_entry B d4 n c x \<longleftrightarrow> (if n = net \<and> c = new then x = ch'
      else \<not> (n = net \<and> c = old) \<and> reg_entry B d n c x)" if n: "plain n" for n c x
  proof (cases "n = net \<and> c = new")
    case True
    then show ?thesis using en id' by (auto simp: reg_entry_def cn [OF net] cc ch'_def)
  next
    case False
    show ?thesis
    proof (cases "ch_ID x = ch_ID ch")
      case True
      have "ch_NetworkID ch' = net" "ch_IRCName ch' = new"
        using en by (simp_all add: ch'_def reg_entry_def)
      then have "\<not> reg_entry B d4 n c x"
        using False True by (auto simp: reg_entry_def cc)
      moreover have "\<not> (\<not> (n = net \<and> c = old) \<and> reg_entry B d n c x)"
        using uniq True by blast
      ultimately show ?thesis using False by auto
    next
      case F: False
      with False show ?thesis by (auto simp: reg_entry_def cn [OF n] cc)
    qed
  qed
  have wf4: "reg_wf B d4" unfolding reg_wf_def
  proof (intro allI impI)
    fix n c assume n: "plain n" and x: "content B d4 (chanNetKey n c) \<noteq> None"
    show "\<exists>x. reg_entry B d4 n c x"
    proof (cases "n = net \<and> c = new")
      case True
      then show ?thesis using e4 [OF n] by auto
    next
      case False
      then have "content B d (chanNetKey n c) \<noteq> None" "\<not> (n = net \<and> c = old)"
        using x by (auto simp: cn [OF n] split: if_splits)
      with wf n False e4 [OF n] show ?thesis by (auto simp: reg_wf_def)
    qed
  qed
  have "registry B d4 n c = (if n = net \<and> c = new then Some ch'
          else if n = net \<and> c = old then None else registry B d n c)" if "plain n" for n c
  proof -
    have "registry B d4 n c = Some x \<longleftrightarrow> (if n = net \<and> c = new then x = ch'
        else \<not> (n = net \<and> c = old) \<and> registry B d n c = Some x)" for x
      using registry_entry [OF wf4 that] registry_entry [OF wf that] e4 [OF that] by simp
    then show ?thesis by (intro option_ext) auto
  qed
  moreover have "ChatPrefillDone B d4 net new \<longleftrightarrow> ChatPrefillDone B d net old \<or> ChatPrefillDone B d net new"
    "\<not> ChatPrefillDone B d4 net old"
    using pk by (auto simp: done_iff c4 c3 split: option.splits)
  ultimately show ?thesis using R wf4 by blast
qed

end

section \<open>What the cascade removes and keeps\<close>

lemma chanNetKey_prefix:
  "plain n \<Longrightarrow> plain net \<Longrightarrow> has_prefix (chanNetKey n irc) (chanNetPrefix net) \<longleftrightarrow> n = net"
  by (simp add: chanNetKey_def chanNetPrefix_def plain_def)

lemma key_prefixes [simp]:
  "\<not> has_prefix (chanNetKey n irc) (memberPrefix x)" "\<not> has_prefix (chanNetKey n irc) (prefillPrefix x)"
  "\<not> has_prefix (chanNetKey n irc) (msgPrefix j)"
  "\<not> has_prefix (chanKey i) (memberPrefix x)" "\<not> has_prefix (chanKey i) (prefillPrefix x)"
  "\<not> has_prefix (chanKey i) (chanNetPrefix x)" "\<not> has_prefix (chanKey i) (msgPrefix j)"
  "\<not> has_prefix (networkKey i) (msgPrefix j)"
  by (simp_all add: chanNetKey_def chanKey_def msgPrefix_def networkKey_def memberPrefix_def
      prefillPrefix_def chanNetPrefix_def)

lemma msg_prefixes:
  "has_prefix k (msgPrefix j) \<Longrightarrow> \<not> has_prefix k (memberPrefix x) \<and> \<not> has_prefix k (prefillPrefix x)
     \<and> \<not> has_prefix k (chanNetPrefix x)"
  by (auto simp: msgPrefix_def has_prefix_iff memberPrefix_def prefillPrefix_def chanNetPrefix_def)

text \<open>The keys the cascade of a network removes.\<close>

definition cascaded :: "'d store \<Rightarrow> 'd \<Rightarrow> string \<Rightarrow> string \<Rightarrow> bool" where
  "cascaded B d netID k \<longleftrightarrow> k = networkKey netID \<or> has_prefix k (memberPrefix netID)
     \<or> has_prefix k (prefillPrefix netID) \<or> has_prefix k (chanNetPrefix netID)
     \<or> (\<exists>irc ch. registry B d netID irc = Some ch \<and>
          (k = chanKey (ch_ID ch) \<or> has_prefix k (msgPrefix (ch_ID ch))))"

context store
begin

lemma content_delete_keys:
  "delete_keys B d ks = Inr d' \<Longrightarrow> content B d' k = (if k \<in> set ks then None else content B d k)"
  by (simp add: content_def get_delete_keys)

lemma cascade_chans_content:
  "cascade_chans B d ids = Inr d' \<Longrightarrow> content B d' k =
     (if \<exists>i \<in> set ids. k = chanKey i \<or> has_prefix k (msgPrefix i) then None else content B d k)"
proof (induction ids arbitrary: d)
  case (Cons i ids)
  then obtain d1 d2 where d1: "txn_delete B d (chanKey i) = Inr d1"
    and d2: "delete_keys B d1 (scan B d1 (msgPrefix i)) = Inr d2"
    and d': "cascade_chans B d2 ids = Inr d'"
    by (auto simp: tryb_eq_Inr)
  have "content B d2 k = (if k = chanKey i \<or> has_prefix k (msgPrefix i) then None else content B d k)"
    using content_delete_keys [OF d2, of k]
    by (auto simp: set_scan_content content_delete [OF d1] split: if_splits)
  then show ?case using Cons.IH [OF d'] by auto
qed simp

lemma cascade_chans_total: "\<exists>d'. cascade_chans B d ids = Inr d'"
proof (induction ids arbitrary: d)
  case (Cons i ids)
  obtain d1 where d1: "txn_delete B d (chanKey i) = Inr d1" using delete_total by blast
  obtain d2 where d2: "delete_keys B d1 (scan B d1 (msgPrefix i)) = Inr d2" using delete_keys_total by blast
  show ?case using Cons.IH [of d2] d1 d2 by auto
qed simp

lemma DeleteNetworkCascade_content:
  assumes wf: "reg_wf B d" and net: "plain netID"
  shows "\<exists>d'. DeleteNetworkCascade B d netID = (Inr (), d') \<and>
    (\<forall>k. content B d' k = (if cascaded B d netID k then None else content B d k))"
proof -
  obtain d1 where d1: "txn_delete B d (networkKey netID) = Inr d1" using delete_total by blast
  let ?m = "memberPrefix netID" and ?p = "prefillPrefix netID"
  let ?c = "chanNetPrefix netID"
  let ?ids = "map snd (read_ok B as_bytes d1 (scan B d1 ?c))"
  obtain d2 where d2: "delete_keys B d1 (scan B d1 ?m) = Inr d2" using delete_keys_total by blast
  obtain d3 where d3: "delete_keys B d2 (scan B d1 ?p) = Inr d3" using delete_keys_total by blast
  obtain d4 where d4: "delete_keys B d3 (scan B d1 ?c) = Inr d4" using delete_keys_total by blast
  obtain d5 where d5: "cascade_chans B d4 ?ids = Inr d5" using cascade_chans_total by blast
  have D: "DeleteNetworkCascade B d netID = (Inr (), d5)"
    using d1 d2 d3 d4 d5 by (simp add: DeleteNetworkCascade_def update_live Let_def)
  have c1: "content B d1 = (content B d)(networkKey netID := None)" by (rule content_delete [OF d1])
  have cn: "content B d1 (chanNetKey netID irc) = content B d (chanNetKey netID irc)" for irc
    by (simp add: c1)
  have ids: "i \<in> set ?ids \<longleftrightarrow> (\<exists>irc ch. registry B d netID irc = Some ch \<and> ch_ID ch = i)" for i
  proof
    assume "i \<in> set ?ids"
    then obtain k where k: "has_prefix k ?c" "content B d1 k = Some (VBytes i)"
      by (auto simp: set_read_ok get_as_content as_Inr set_scan_content)
    then obtain irc where irc: "k = chanNetKey netID irc" by (auto simp: has_prefix_iff chanNetKey_def chanNetPrefix_def)
    then have "content B d (chanNetKey netID irc) = Some (VBytes i)" using k(2) cn by simp
    with wf net obtain ch where "reg_entry B d netID irc ch" "ch_ID ch = i"
      by (force simp: reg_wf_def reg_entry_def)
    then show "\<exists>irc ch. registry B d netID irc = Some ch \<and> ch_ID ch = i"
      using registry_entry [OF wf net] by auto
  next
    assume "\<exists>irc ch. registry B d netID irc = Some ch \<and> ch_ID ch = i"
    then obtain irc ch where e: "reg_entry B d netID irc ch" and i: "ch_ID ch = i"
      using registry_entry [OF wf net] by auto
    have k: "content B d1 (chanNetKey netID irc) = Some (VBytes i)" using e i cn by (simp add: reg_entry_def)
    moreover have "has_prefix (chanNetKey netID irc) ?c" using net by (simp add: chanNetKey_prefix)
    ultimately have "(chanNetKey netID irc, i) \<in> set (read_ok B as_bytes d1 (scan B d1 ?c))"
      by (auto simp: set_read_ok get_as_content as_Inr set_scan_content)
    then show "i \<in> set ?ids" by force
  qed
  have del: "content B d4 k = (if k = networkKey netID \<or> has_prefix k ?m \<or> has_prefix k ?p \<or> has_prefix k ?c
      then None else content B d k)" for k
  proof (cases "content B d1 k")
    case None
    then have "content B d4 k = None"
      using content_delete_keys [OF d2, of k] content_delete_keys [OF d3, of k] content_delete_keys [OF d4, of k]
      by simp
    then show ?thesis using None by (auto simp: c1 split: if_splits)
  next
    case (Some v)
    then have "k \<in> set (scan B d1 p) \<longleftrightarrow> has_prefix k p" for p by (auto simp: set_scan_content)
    then have "content B d4 k = (if has_prefix k ?m \<or> has_prefix k ?p \<or> has_prefix k ?c then None else content B d1 k)"
      using content_delete_keys [OF d2, of k] content_delete_keys [OF d3, of k] content_delete_keys [OF d4, of k]
      by simp
    then show ?thesis by (simp add: c1)
  qed
  have "content B d5 k = (if cascaded B d netID k then None else content B d k)" for k
  proof -
    have "(\<exists>i \<in> set ?ids. k = chanKey i \<or> has_prefix k (msgPrefix i)) \<longleftrightarrow>
        (\<exists>irc ch. registry B d netID irc = Some ch \<and> (k = chanKey (ch_ID ch) \<or> has_prefix k (msgPrefix (ch_ID ch))))"
      unfolding Bex_def ids by blast
    then show ?thesis unfolding cascade_chans_content [OF d5] del cascaded_def by (simp only: if_if_or disj_ac)
  qed
  with D show ?thesis by blast
qed

lemma msgPrefix_plain:
  "plain i \<Longrightarrow> plain j \<Longrightarrow> has_prefix k (msgPrefix i) \<Longrightarrow> has_prefix k (msgPrefix j) \<longleftrightarrow> i = j"
  by (auto simp: msgPrefix_def has_prefix_iff plain_def sep_eq)

lemma DeleteNetworkCascade_others:
  assumes wf: "reg_wf B d" and net: "plain netID"
    and D: "DeleteNetworkCascade B d netID = (Inr (), d')"
  shows "reg_wf B d'" and "\<And>irc. registry B d' netID irc = None"
    and "\<And>n irc. plain n \<Longrightarrow> n \<noteq> netID \<Longrightarrow> registry B d' n irc = registry B d n irc"
    and "\<And>n irc ch. plain n \<Longrightarrow> n \<noteq> netID \<Longrightarrow> registry B d n irc = Some ch \<Longrightarrow>
      ring B d' (ch_ID ch) = ring B d (ch_ID ch)"
    and "\<And>irc ch. registry B d netID irc = Some ch \<Longrightarrow> ring B d' (ch_ID ch) = []"
proof -
  let ?gone = "cascaded B d netID"
  have c: "content B d' k = (if ?gone k then None else content B d k)" for k
    using DeleteNetworkCascade_content [OF wf net] D by auto
  have gi: "?gone (chanNetKey n irc) \<longleftrightarrow> n = netID" if "plain n" for n irc
    using net that by (simp add: cascaded_def chanNetKey_prefix)
  have gc: "?gone (chanKey i) \<longleftrightarrow> (\<exists>irc ch. registry B d netID irc = Some ch \<and> ch_ID ch = i)" for i
    by (auto simp: cascaded_def)
  have uniq: "n = netID" if "reg_entry B d n irc ch" "registry B d netID irc' = Some ch'" "ch_ID ch' = ch_ID ch" for n irc ch irc' ch'
  proof -
    have e: "reg_entry B d netID irc' ch'" using that(2) registry_entry [OF wf net] by simp
    have "content B d (chanKey (ch_ID ch)) = Some (VChan ch)" "ch_NetworkID ch = n"
      using that(1) by (simp_all only: reg_entry_def)
    moreover have "content B d (chanKey (ch_ID ch)) = Some (VChan ch')" "ch_NetworkID ch' = netID"
      using e by (simp_all only: reg_entry_def that(3))
    ultimately show ?thesis by simp
  qed
  have keep: "reg_entry B d' n irc ch \<longleftrightarrow> n \<noteq> netID \<and> reg_entry B d n irc ch" if n: "plain n" for n irc ch
  proof (cases "n = netID")
    case True
    then show ?thesis using gi [OF net, of irc] by (simp add: reg_entry_def c)
  next
    case False
    have "\<not> ?gone (chanKey (ch_ID ch))" if "reg_entry B d n irc ch"
      using uniq [OF that] False gc by blast
    moreover have "reg_entry B d' n irc ch \<Longrightarrow> reg_entry B d n irc ch"
      by (auto simp: reg_entry_def c split: if_splits)
    moreover have "reg_entry B d n irc ch \<Longrightarrow> \<not> ?gone (chanKey (ch_ID ch)) \<Longrightarrow> reg_entry B d' n irc ch"
      using gi [OF n, of irc] False by (simp add: reg_entry_def c)
    ultimately show ?thesis using False by blast
  qed
  show wf': "reg_wf B d'" unfolding reg_wf_def
  proof (intro allI impI)
    fix n irc assume n: "plain n" and x: "content B d' (chanNetKey n irc) \<noteq> None"
    then have "n \<noteq> netID" "content B d (chanNetKey n irc) \<noteq> None" using gi [OF n, of irc] c by (auto split: if_splits)
    with wf n keep [OF n] show "\<exists>ch. reg_entry B d' n irc ch" by (auto simp: reg_wf_def)
  qed
  show "registry B d' netID irc = None" for irc
    using registry_entry [OF wf' net] keep [OF net] by (cases "registry B d' netID irc") auto
  show "registry B d' n irc = registry B d n irc" if n: "plain n" "n \<noteq> netID" for n irc
  proof -
    have "registry B d' n irc = Some x \<longleftrightarrow> registry B d n irc = Some x" for x
      using registry_entry [OF wf' n(1)] registry_entry [OF wf n(1)] keep [OF n(1)] n(2) by simp
    then show ?thesis by (rule option_ext)
  qed
  show "ring B d' (ch_ID ch) = ring B d (ch_ID ch)"
    if n: "plain n" "n \<noteq> netID" and r: "registry B d n irc = Some ch" for n irc ch
  proof (rule ring_cong(2))
    fix k assume k: "has_prefix k (msgPrefix (ch_ID ch))"
    have e: "reg_entry B d n irc ch" using r registry_entry [OF wf n(1)] by simp
    have "\<not> has_prefix k (msgPrefix (ch_ID ch'))" if "registry B d netID irc' = Some ch'" for irc' ch'
    proof
      assume "has_prefix k (msgPrefix (ch_ID ch'))"
      moreover have "reg_entry B d netID irc' ch'" using that registry_entry [OF wf net] by simp
      then have "plain (ch_ID ch')" "plain (ch_ID ch)" using e by (simp_all only: reg_entry_def)
      ultimately have "ch_ID ch' = ch_ID ch" using k msgPrefix_plain by blast
      then show False using uniq [OF e that] n(2) by simp
    qed
    moreover have "k \<noteq> networkKey netID" "k \<noteq> chanKey i" for i using k by auto
    ultimately have "\<not> ?gone k" using msg_prefixes [OF k] by (auto simp: cascaded_def)
    then show "content B d' k = content B d k" by (simp add: c)
  qed
  show "ring B d' (ch_ID ch) = []" if r: "registry B d netID irc = Some ch" for irc ch
  proof -
    have "?gone k" if "has_prefix k (msgPrefix (ch_ID ch))" for k using r that by (auto simp: cascaded_def)
    then have "set (scan B d' (msgPrefix (ch_ID ch))) = {}" by (auto simp: set_scan_content c)
    then show ?thesis by (simp add: ring_def)
  qed
qed

end

section \<open>Properties\<close>

lemma reg_wf_empty: "reg_wf mem_kv empty_db" "registry mem_kv empty_db net irc = None"
  by (simp_all add: reg_wf_def registry_def GetChannelByIRC_def mem_store.get_as_missing)

definition demo_ids :: "nat idgen" where
  "demo_ids n = (format_nat n, Suc n)"

text \<open>A registry with \<open>#a\<close> of network 1 and \<open>#b\<close> of network 2.\<close>

lemma plain_nat [simp]: "plain (format_nat n)"
  using format_nat_digits [of n] by (auto simp: plain_def list_all_iff is_digit_def)

lemma demo_registry:
  "\<exists>d. reg_wf mem_kv d \<and> registry mem_kv d ''1'' ''#a'' = Some (new_channel (format_nat 3) ''1'' ''#a'' 0)
    \<and> registry mem_kv d ''2'' ''#b'' = Some (new_channel (format_nat 4) ''2'' ''#b'' 0)"
proof -
  have p: "plain ''1''" "plain ''2''" by (simp_all add: plain_def)
  have g: "demo_ids 3 = (format_nat 3, 4)" "demo_ids 4 = (format_nat 4, 5)" by (simp_all add: demo_ids_def)
  have c: "content mem_kv empty_db (chanKey (format_nat 3)) = None" by simp
  obtain d1 where d1: "content mem_kv d1 = (content mem_kv empty_db)
        (chanKey (format_nat 3) \<mapsto> VChan (new_channel (format_nat 3) ''1'' ''#a'' 0), chanNetKey ''1'' ''#a'' \<mapsto> VBytes (format_nat 3))"
      "reg_wf mem_kv d1" and r1: "\<forall>n c. plain n \<longrightarrow> registry mem_kv d1 n c =
         (if n = ''1'' \<and> c = ''#a'' then Some (new_channel (format_nat 3) ''1'' ''#a'' 0) else registry mem_kv empty_db n c)"
    using mem_store.EnsureChannel_new [where newID = demo_ids and g = 3, OF reg_wf_empty(1) p(1) reg_wf_empty(2) g(1) plain_nat c, where irc = "''#a''" and now = 0] by auto
  have r: "registry mem_kv d1 ''2'' ''#b'' = None" "registry mem_kv d1 ''1'' ''#a'' = Some (new_channel (format_nat 3) ''1'' ''#a'' 0)"
    using r1 p by (simp_all add: reg_wf_empty)
  have c2: "content mem_kv d1 (chanKey (format_nat 4)) = None"
    unfolding d1(1) by (simp add: format_nat_inj)
  obtain d2 where "reg_wf mem_kv d2" "\<forall>n c. plain n \<longrightarrow> registry mem_kv d2 n c =
         (if n = ''2'' \<and> c = ''#b'' then Some (new_channel (format_nat 4) ''2'' ''#b'' 0) else registry mem_kv d1 n c)"
    using mem_store.EnsureChannel_new [where newID = demo_ids and g = 4, OF d1(2) p(2) r(1) g(2) plain_nat c2, where now = 0] by auto
  then show ?thesis using r p by (intro exI [of _ d2]) simp
qed

text \<open>\<open>EnsureChannel\<close> returns the registered channel of the name, minting and registering a new one
  (with the next id) when there is none; a second call returns the same channel, draws no id and changes
  nothing, and no other entry of the registry changes.\<close>

lemma EnsureChannel_idempotent:
  assumes "store B" "reg_wf B d" "plain net"
    and "newID g = (i, g1)" "plain i" "content B d (chanKey i) = None"
  shows "\<exists>ch d' g'. EnsureChannel B d newID g net irc now = (Inr ch, d', g')
    \<and> EnsureChannel B d' newID g' net irc later = (Inr ch, d', g')
    \<and> reg_wf B d' \<and> registry B d' net irc = Some ch
    \<and> (case registry B d net irc of Some old \<Rightarrow> ch = old \<and> d' = d \<and> g' = g
         | None \<Rightarrow> ch = new_channel i net irc now \<and> g' = g1)
    \<and> (\<forall>n c. plain n \<and> (n, c) \<noteq> (net, irc) \<longrightarrow> registry B d' n c = registry B d n c)"
proof (cases "registry B d net irc")
  case None
  let ?ch = "new_channel i net irc now"
  obtain d' where E: "EnsureChannel B d newID g net irc now = (Inr ?ch, d', g1)" "reg_wf B d'"
    and r: "\<forall>n c. plain n \<longrightarrow> registry B d' n c = (if n = net \<and> c = irc then Some ?ch else registry B d n c)"
    using store.EnsureChannel_new [where newID = newID and g = g and now = now, OF assms(1,2,3) None assms(4,5,6)] by blast
  have "registry B d' net irc = Some ?ch" using r assms(3) by simp
  with E r None store.EnsureChannel_old [OF assms(1) E(2) assms(3) this, where newID = newID and g = g1 and now = later] show ?thesis
    by (intro exI [of _ ?ch] exI [of _ d'] exI [of _ g1]) simp
next
  case (Some ch)
  have "EnsureChannel B d newID g net irc t = (Inr ch, d, g)" for t
    by (rule store.EnsureChannel_old [OF assms(1,2,3) Some])
  with assms(2) Some show ?thesis
    by (intro exI [of _ ch] exI [of _ d] exI [of _ g]) simp
qed

lemma EnsureChannel_idempotent_witness:
  "\<exists>ch d' g'. EnsureChannel mem_kv empty_db demo_ids 3 ''1'' ''#a'' 0 = (Inr ch, d', g')
    \<and> EnsureChannel mem_kv d' demo_ids g' ''1'' ''#a'' 9 = (Inr ch, d', g')"
proof -
  have p: "plain ''1''" "demo_ids 3 = (format_nat 3, 4)" "content mem_kv empty_db (chanKey (format_nat 3)) = None"
    by (simp_all add: plain_def demo_ids_def)
  show ?thesis
    using EnsureChannel_idempotent [where newID = demo_ids and g = 3 and irc = "''#a''" and now = 0 and later = 9,
      OF mem_store.store_axioms reg_wf_empty(1) p(1,2) plain_nat p(3)] by blast
qed

text \<open>C22: Renaming a channel moves its registry entry to the new name with the same id, moves its
  chathistory watermark along, and touches no other entry of any network.\<close>

lemma RenameChannel_moves:
  assumes "store B" "reg_wf B d" "plain net" "registry B d net old = Some ch" "old \<noteq> new"
  shows "\<exists>d'. RenameChannel B d net old new = (Inr (), d') \<and> reg_wf B d'
    \<and> (\<forall>n c. plain n \<longrightarrow> registry B d' n c =
          (if n = net \<and> c = new then Some (ch\<lparr>ch_IRCName := new, ch_Name := trim_prefix new ''#''\<rparr>)
           else if n = net \<and> c = old then None else registry B d n c))
    \<and> (ChatPrefillDone B d' net new \<longleftrightarrow> ChatPrefillDone B d net old \<or> ChatPrefillDone B d net new)
    \<and> \<not> ChatPrefillDone B d' net old"
  by (rule store.RenameChannel_step [OF assms])

lemma RenameChannel_moves_witness:
  "\<exists>d d' ch. RenameChannel mem_kv d ''1'' ''#a'' ''#c'' = (Inr (), d') \<and> registry mem_kv d' ''1'' ''#c'' = Some ch
    \<and> ch_ID ch = format_nat 3 \<and> registry mem_kv d' ''1'' ''#a'' = None"
proof -
  obtain d where d: "reg_wf mem_kv d" "registry mem_kv d ''1'' ''#a'' = Some (new_channel (format_nat 3) ''1'' ''#a'' 0)"
    using demo_registry by blast
  have p: "plain ''1''" "''#a'' \<noteq> ''#c''" by (simp_all add: plain_def)
  obtain d' where "RenameChannel mem_kv d ''1'' ''#a'' ''#c'' = (Inr (), d')"
    and r: "\<forall>n c. plain n \<longrightarrow> registry mem_kv d' n c =
      (if n = ''1'' \<and> c = ''#c'' then Some ((new_channel (format_nat 3) ''1'' ''#a'' 0)\<lparr>ch_IRCName := ''#c'', ch_Name := trim_prefix ''#c'' ''#''\<rparr>)
       else if n = ''1'' \<and> c = ''#a'' then None else registry mem_kv d n c)"
    using RenameChannel_moves [OF mem_store.store_axioms d(1) p(1) d(2) p(2)] by blast
  moreover from r p have "registry mem_kv d' ''1'' ''#c'' = Some ((new_channel (format_nat 3) ''1'' ''#a'' 0)\<lparr>ch_IRCName := ''#c'', ch_Name := trim_prefix ''#c'' ''#''\<rparr>)"
    "registry mem_kv d' ''1'' ''#a'' = None" by simp_all
  moreover have "ch_ID ((new_channel (format_nat 3) ''1'' ''#a'' 0)\<lparr>ch_IRCName := ''#c'', ch_Name := trim_prefix ''#c'' ''#''\<rparr>) = format_nat 3"
    by simp
  ultimately show ?thesis by blast
qed

lemma kept_not_cascaded:
  assumes "has_prefix k ''pin/'' \<or> has_prefix k ''ircmsgid:'' \<or> has_prefix k ''netconn/''"
  shows "\<not> cascaded B d netID k"
proof -
  have p: "take 4 s = take 4 q" if "has_prefix s q" "4 \<le> length q" for s q
    using that by (metis has_prefix_def min_def take_take)
  have "take 4 k \<in> {''pin/'', ''ircm'', ''netc''}"
    using assms p [of k "''pin/''"] p [of k "''ircmsgid:''"] p [of k "''netconn/''"] by auto
  moreover have "take 4 k \<in> {''netw'', ''memb'', ''chat'', ''chan'', ''msg:''}" if "cascaded B d netID k"
    using that p [of k "memberPrefix netID"] p [of k "prefillPrefix netID"] p [of k "chanNetPrefix netID"]
      p [of k "msgPrefix i" for i]
    by (auto simp: cascaded_def networkKey_def memberPrefix_def prefillPrefix_def chanNetPrefix_def chanKey_def msgPrefix_def)
  ultimately show ?thesis by auto
qed

text \<open>C16: Deleting a network in cascade removes exactly these keys: its row, its memberships, the prefill watermarks
  and the registry index of its channels, and for every channel of the registry the record and the message ring. Every
  other key stays: the channels and rings of other networks, but also the pins of the deleted channels, the index
  from IRC message ids to their rows and the \<open>netconn\<close> entry of the network, so that leaving a network does leave
  residue, unlike the comment on \<open>Leave\<close> says.\<close>

lemma DeleteNetworkCascade_exact:
  assumes "store B" "reg_wf B d" "plain netID"
  shows "\<exists>d'. DeleteNetworkCascade B d netID = (Inr (), d') \<and> reg_wf B d'
    \<and> (\<forall>k. content B d' k = (if cascaded B d netID k then None else content B d k))
    \<and> (\<forall>irc. registry B d' netID irc = None)
    \<and> (\<forall>irc ch. registry B d netID irc = Some ch \<longrightarrow> ring B d' (ch_ID ch) = [])
    \<and> (\<forall>n irc. plain n \<and> n \<noteq> netID \<longrightarrow> registry B d' n irc = registry B d n irc)
    \<and> (\<forall>n irc ch. plain n \<and> n \<noteq> netID \<and> registry B d n irc = Some ch \<longrightarrow> ring B d' (ch_ID ch) = ring B d (ch_ID ch))
    \<and> (\<forall>k. has_prefix k ''pin/'' \<or> has_prefix k ''ircmsgid:'' \<or> has_prefix k ''netconn/'' \<longrightarrow> content B d' k = content B d k)"
proof -
  obtain d' where D: "DeleteNetworkCascade B d netID = (Inr (), d')"
    and c: "\<forall>k. content B d' k = (if cascaded B d netID k then None else content B d k)"
    using store.DeleteNetworkCascade_content [OF assms] by blast
  have "\<forall>k. has_prefix k ''pin/'' \<or> has_prefix k ''ircmsgid:'' \<or> has_prefix k ''netconn/'' \<longrightarrow> content B d' k = content B d k"
    using c kept_not_cascaded [of _ B d netID] by simp
  with D c store.DeleteNetworkCascade_others [OF assms D] show ?thesis by blast
qed

lemma DeleteNetworkCascade_exact_witness:
  "\<exists>d d' ch. DeleteNetworkCascade mem_kv d ''1'' = (Inr (), d') \<and> registry mem_kv d ''1'' ''#a'' \<noteq> None
    \<and> registry mem_kv d' ''1'' ''#a'' = None \<and> registry mem_kv d' ''2'' ''#b'' = Some ch"
proof -
  obtain d where d: "reg_wf mem_kv d" "registry mem_kv d ''1'' ''#a'' = Some (new_channel (format_nat 3) ''1'' ''#a'' 0)"
      "registry mem_kv d ''2'' ''#b'' = Some (new_channel (format_nat 4) ''2'' ''#b'' 0)"
    using demo_registry by blast
  have p: "plain ''1''" "plain ''2''" "''2'' \<noteq> ''1''" by (simp_all add: plain_def)
  obtain d' where "DeleteNetworkCascade mem_kv d ''1'' = (Inr (), d')" "\<forall>irc. registry mem_kv d' ''1'' irc = None"
    "\<forall>n irc. plain n \<and> n \<noteq> ''1'' \<longrightarrow> registry mem_kv d' n irc = registry mem_kv d n irc"
    using DeleteNetworkCascade_exact [OF mem_store.store_axioms d(1) p(1)] by blast
  then show ?thesis using d p
    by (intro exI [of _ d] exI [of _ d'] exI [of _ "new_channel (format_nat 4) ''2'' ''#b'' 0"]) auto
qed

end
