(* ===== verification/UserStore.thy ===== *)
theory UserStore
  imports StoreTypes
begin

text \<open>
  \<open>internal/storage/users.go\<close> and \<open>sessions.go\<close>: user records with unique, case-insensitive
  username and email indexes, and login sessions keyed by the hash of their token.
\<close>

definition userKey :: "string \<Rightarrow> string" where
  "userKey i = ''user/id/'' @ i"

definition userNameKey :: "string \<Rightarrow> string" where
  "userNameKey name = ''user/name/'' @ to_lower name"

definition userEmailKey :: "string \<Rightarrow> string" where
  "userEmailKey email = ''user/email/'' @ to_lower email"

definition CreateUser :: "'d store \<Rightarrow> 'd \<Rightarrow> User \<Rightarrow> (err + unit) \<times> 'd" where
  "CreateUser B d u =
     db_update B d (\<lambda>t.
       case txn_get B t (userNameKey (u_Username u)) of
         Inr _ \<Rightarrow> Inl ErrUsernameTaken
       | Inl e \<Rightarrow>
         if e \<noteq> KeyNotFound then Inl e
         else case txn_get B t (userEmailKey (u_Email u)) of
           Inr _ \<Rightarrow> Inl ErrEmailTaken
         | Inl e \<Rightarrow>
           if e \<noteq> KeyNotFound then Inl e
           else
             tryb (txn_set B t (userNameKey (u_Username u)) (VBytes (u_ID u))) (\<lambda>t.
             tryb (txn_set B t (userEmailKey (u_Email u)) (VBytes (u_ID u))) (\<lambda>t.
             finish (txn_set B t (userKey (u_ID u)) (VUser u)) ())))"

definition getUser :: "'d store \<Rightarrow> 'd \<Rightarrow> string \<Rightarrow> err + User" where
  "getUser B t k = get_as B as_user t k"

definition GetUserByID :: "'d store \<Rightarrow> 'd \<Rightarrow> string \<Rightarrow> err + User" where
  "GetUserByID B d i = map_missing ErrNotFound (getUser B d (userKey i))"

definition GetUserByUsername :: "'d store \<Rightarrow> 'd \<Rightarrow> string \<Rightarrow> err + User" where
  "GetUserByUsername B d name =
     map_missing ErrNotFound (tryb (get_as B as_bytes d (userNameKey name)) (\<lambda>i. getUser B d (userKey i)))"

definition GetUserByEmail :: "'d store \<Rightarrow> 'd \<Rightarrow> string \<Rightarrow> err + User" where
  "GetUserByEmail B d email =
     map_missing ErrNotFound (tryb (get_as B as_bytes d (userEmailKey email)) (\<lambda>i. getUser B d (userKey i)))"

definition ListUsers :: "'d store \<Rightarrow> 'd \<Rightarrow> err + User list" where
  "ListUsers B d =
     tryb (read_all B as_user d (scan B d ''user/id/'')) (\<lambda>rows. Inr (sort_key u_ID (map snd rows)))"

definition UserCount :: "'d store \<Rightarrow> 'd \<Rightarrow> err + nat" where
  "UserCount B d = tryb (ListUsers B d) (\<lambda>us. Inr (length us))"

text \<open>Sessions.\<close>

definition sessionKey :: "string \<Rightarrow> string" where
  "sessionKey hash = ''session/'' @ hash"

definition CreateSession :: "'d store \<Rightarrow> 'd \<Rightarrow> SessionRow \<Rightarrow> (err + unit) \<times> 'd" where
  "CreateSession B d sess =
     db_update B d (\<lambda>t. finish (txn_set B t (sessionKey (ss_TokenHash sess)) (VSession sess)) ())"

definition GetSession :: "'d store \<Rightarrow> 'd \<Rightarrow> string \<Rightarrow> err + SessionRow" where
  "GetSession B d hash = map_missing ErrNotFound (get_as B as_session d (sessionKey hash))"

definition TouchSession :: "'d store \<Rightarrow> 'd \<Rightarrow> string \<Rightarrow> time \<Rightarrow> (err + unit) \<times> 'd" where
  "TouchSession B d hash now =
     db_update B d (\<lambda>t.
       tryb (get_as B as_session t (sessionKey hash)) (\<lambda>sess.
       finish (txn_set B t (sessionKey hash) (VSession (sess\<lparr>ss_LastSeen := now\<rparr>))) ()))"

definition DeleteSession :: "'d store \<Rightarrow> 'd \<Rightarrow> string \<Rightarrow> (err + unit) \<times> 'd" where
  "DeleteSession B d hash = db_update B d (\<lambda>t. finish (txn_delete B t (sessionKey hash)) ())"

section \<open>Keys\<close>

lemma user_keys [simp]:
  "userKey i = userKey j \<longleftrightarrow> i = j"
  "userKey i \<noteq> userNameKey n" "userNameKey n \<noteq> userKey i"
  "userKey i \<noteq> userEmailKey m" "userEmailKey m \<noteq> userKey i"
  "userNameKey n \<noteq> userEmailKey m" "userEmailKey m \<noteq> userNameKey n"
  "sessionKey h = sessionKey h' \<longleftrightarrow> h = h'"
  "sessionKey h \<noteq> userKey i" "sessionKey h \<noteq> userNameKey n" "sessionKey h \<noteq> userEmailKey m"
  "userKey i \<noteq> sessionKey h" "userNameKey n \<noteq> sessionKey h" "userEmailKey m \<noteq> sessionKey h"
  by (simp_all add: userKey_def userNameKey_def userEmailKey_def sessionKey_def)

lemma userNameKey_eq: "userNameKey a = userNameKey b \<longleftrightarrow> equal_fold a b"
  by (simp add: userNameKey_def equal_fold_def)

lemma userEmailKey_eq: "userEmailKey a = userEmailKey b \<longleftrightarrow> equal_fold a b"
  by (simp add: userEmailKey_def equal_fold_def)

section \<open>The user table\<close>

text \<open>
  The invariant of the table: an index entry points to a record whose own name (or email) has
  that index key, and every record is indexed under both. So no two users share a name or an
  email up to case.
\<close>

definition users_wf :: "'d store \<Rightarrow> 'd \<Rightarrow> bool" where
  "users_wf B d \<longleftrightarrow>
     (\<forall>i v. content B d (userKey i) = Some v \<longrightarrow> (\<exists>u. v = VUser u \<and> u_ID u = i \<and>
        content B d (userNameKey (u_Username u)) = Some (VBytes i) \<and>
        content B d (userEmailKey (u_Email u)) = Some (VBytes i))) \<and>
     (\<forall>n v. content B d (userNameKey n) = Some v \<longrightarrow> (\<exists>u. v = VBytes (u_ID u) \<and>
        content B d (userKey (u_ID u)) = Some (VUser u) \<and> equal_fold (u_Username u) n)) \<and>
     (\<forall>m v. content B d (userEmailKey m) = Some v \<longrightarrow> (\<exists>u. v = VBytes (u_ID u) \<and>
        content B d (userKey (u_ID u)) = Some (VUser u) \<and> equal_fold (u_Email u) m))"

definition user_row :: "'d store \<Rightarrow> 'd \<Rightarrow> User \<Rightarrow> bool" where
  "user_row B d u \<longleftrightarrow> content B d (userKey (u_ID u)) = Some (VUser u)"

lemma users_wf_name:
  assumes "users_wf B d" "content B d (userNameKey n) = Some v"
  obtains u where "v = VBytes (u_ID u)" "user_row B d u" "equal_fold (u_Username u) n"
  using assms unfolding users_wf_def user_row_def by blast

lemma users_wf_email:
  assumes "users_wf B d" "content B d (userEmailKey n) = Some v"
  obtains u where "v = VBytes (u_ID u)" "user_row B d u" "equal_fold (u_Email u) n"
  using assms unfolding users_wf_def user_row_def by blast

lemma name_free:
  "users_wf B d \<Longrightarrow> (\<And>w. user_row B d w \<Longrightarrow> \<not> equal_fold (u_Username w) n) \<Longrightarrow>
     content B d (userNameKey n) = None"
  by (cases "content B d (userNameKey n)") (auto elim: users_wf_name)

lemma email_free:
  "users_wf B d \<Longrightarrow> (\<And>w. user_row B d w \<Longrightarrow> \<not> equal_fold (u_Email w) n) \<Longrightarrow>
     content B d (userEmailKey n) = None"
  by (cases "content B d (userEmailKey n)") (auto elim: users_wf_email)

context store
begin

lemma GetUserByID_row: "users_wf B d \<Longrightarrow> GetUserByID B d i = Inr u \<longleftrightarrow> user_row B d u \<and> u_ID u = i"
  by (auto simp: GetUserByID_def getUser_def get_as_content as_Inr user_row_def users_wf_def)

lemma GetUserByUsername_row:
  assumes "users_wf B d"
  shows "GetUserByUsername B d n = Inr u \<longleftrightarrow> user_row B d u \<and> equal_fold (u_Username u) n"
proof
  assume "GetUserByUsername B d n = Inr u"
  then obtain i where i: "content B d (userNameKey n) = Some (VBytes i)" "content B d (userKey i) = Some (VUser u)"
    by (auto simp: GetUserByUsername_def getUser_def tryb_eq_Inr get_as_content as_Inr)
  with assms obtain u' where "i = u_ID u'" "content B d (userKey (u_ID u')) = Some (VUser u')" "equal_fold (u_Username u') n"
    unfolding users_wf_def by blast
  with i show "user_row B d u \<and> equal_fold (u_Username u) n" by (simp add: user_row_def)
next
  assume u: "user_row B d u \<and> equal_fold (u_Username u) n"
  then have "content B d (userNameKey (u_Username u)) = Some (VBytes (u_ID u))"
    using assms unfolding users_wf_def user_row_def by blast
  moreover have "userNameKey (u_Username u) = userNameKey n" using u by (simp add: userNameKey_eq)
  ultimately have "get_as B as_bytes d (userNameKey n) = Inr (u_ID u)" by (simp add: get_as_content as_Inr)
  moreover have "get_as B as_user d (userKey (u_ID u)) = Inr u"
    using u by (simp add: get_as_content as_Inr user_row_def)
  ultimately show "GetUserByUsername B d n = Inr u" by (simp add: GetUserByUsername_def getUser_def)
qed

lemma GetUserByEmail_row:
  assumes "users_wf B d"
  shows "GetUserByEmail B d n = Inr u \<longleftrightarrow> user_row B d u \<and> equal_fold (u_Email u) n"
proof
  assume "GetUserByEmail B d n = Inr u"
  then obtain i where i: "content B d (userEmailKey n) = Some (VBytes i)" "content B d (userKey i) = Some (VUser u)"
    by (auto simp: GetUserByEmail_def getUser_def tryb_eq_Inr get_as_content as_Inr)
  with assms obtain u' where "i = u_ID u'" "content B d (userKey (u_ID u')) = Some (VUser u')" "equal_fold (u_Email u') n"
    unfolding users_wf_def by blast
  with i show "user_row B d u \<and> equal_fold (u_Email u) n" by (simp add: user_row_def)
next
  assume u: "user_row B d u \<and> equal_fold (u_Email u) n"
  then have "content B d (userEmailKey (u_Email u)) = Some (VBytes (u_ID u))"
    using assms unfolding users_wf_def user_row_def by blast
  moreover have "userEmailKey (u_Email u) = userEmailKey n" using u by (simp add: userEmailKey_eq)
  ultimately have "get_as B as_bytes d (userEmailKey n) = Inr (u_ID u)" by (simp add: get_as_content as_Inr)
  moreover have "get_as B as_user d (userKey (u_ID u)) = Inr u"
    using u by (simp add: get_as_content as_Inr user_row_def)
  ultimately show "GetUserByEmail B d n = Inr u" by (simp add: GetUserByEmail_def getUser_def)
qed

text \<open>Two users that agree up to case on their name are the same user.\<close>

lemma users_unique:
  assumes "users_wf B d" "user_row B d u" "user_row B d v"
    and "equal_fold (u_Username u) (u_Username v) \<or> equal_fold (u_Email u) (u_Email v)"
  shows "u = v"
  using assms(4)
proof
  assume "equal_fold (u_Username u) (u_Username v)"
  then have "GetUserByUsername B d (u_Username v) = Inr u" "GetUserByUsername B d (u_Username v) = Inr v"
    using assms by (auto simp: GetUserByUsername_row [OF assms(1)])
  then show ?thesis by simp
next
  assume "equal_fold (u_Email u) (u_Email v)"
  then have "GetUserByEmail B d (u_Email v) = Inr u" "GetUserByEmail B d (u_Email v) = Inr v"
    using assms by (auto simp: GetUserByEmail_row [OF assms(1)])
  then show ?thesis by simp
qed

text \<open>The three outcomes of \<open>CreateUser\<close>.\<close>

lemma CreateUser_taken:
  assumes "users_wf B d" "user_row B d v" "equal_fold (u_Username v) (u_Username u)"
  shows "CreateUser B d u = (Inl ErrUsernameTaken, d)"
proof -
  have "content B d (userNameKey (u_Username v)) = Some (VBytes (u_ID v))"
    using assms(1,2) unfolding users_wf_def user_row_def by blast
  moreover have "userNameKey (u_Username v) = userNameKey (u_Username u)" using assms(3) by (simp add: userNameKey_eq)
  ultimately have "txn_get B d (userNameKey (u_Username u)) = Inr (VBytes (u_ID v))"
    by (simp add: get_present)
  then show ?thesis by (simp add: CreateUser_def update_live)
qed

lemma CreateUser_email_taken:
  assumes "users_wf B d" "user_row B d v" "equal_fold (u_Email v) (u_Email u)"
    and "\<And>w. user_row B d w \<Longrightarrow> \<not> equal_fold (u_Username w) (u_Username u)"
  shows "CreateUser B d u = (Inl ErrEmailTaken, d)"
proof -
  have "content B d (userEmailKey (u_Email v)) = Some (VBytes (u_ID v))"
    using assms(1,2) unfolding users_wf_def user_row_def by blast
  moreover have "userEmailKey (u_Email v) = userEmailKey (u_Email u)" using assms(3) by (simp add: userEmailKey_eq)
  ultimately have "txn_get B d (userEmailKey (u_Email u)) = Inr (VBytes (u_ID v))"
    by (simp add: get_present)
  moreover have "content B d (userNameKey (u_Username u)) = None"
    using assms(1,4) by (rule name_free)
  ultimately show ?thesis by (simp add: CreateUser_def update_live get_missing [THEN iffD2])
qed

lemma CreateUser_new:
  assumes wf: "users_wf B d" and i: "content B d (userKey (u_ID u)) = None"
    and free: "\<And>w. user_row B d w \<Longrightarrow> \<not> equal_fold (u_Username w) (u_Username u) \<and> \<not> equal_fold (u_Email w) (u_Email u)"
  shows "\<exists>d'. CreateUser B d u = (Inr (), d') \<and> users_wf B d' \<and>
    (\<forall>v. user_row B d' v \<longleftrightarrow> v = u \<or> user_row B d v) \<and>
    content B d' = (content B d)(userNameKey (u_Username u) \<mapsto> VBytes (u_ID u),
      userEmailKey (u_Email u) \<mapsto> VBytes (u_ID u), userKey (u_ID u) \<mapsto> VUser u)"
proof -
  have n: "content B d (userNameKey (u_Username u)) = None"
    by (rule name_free [OF wf]) (use free in blast)
  have m: "content B d (userEmailKey (u_Email u)) = None"
    by (rule email_free [OF wf]) (use free in blast)
  obtain d1 where d1: "txn_set B d (userNameKey (u_Username u)) (VBytes (u_ID u)) = Inr d1" using set_total by blast
  obtain d2 where d2: "txn_set B d1 (userEmailKey (u_Email u)) (VBytes (u_ID u)) = Inr d2" using set_total by blast
  obtain d3 where d3: "txn_set B d2 (userKey (u_ID u)) (VUser u) = Inr d3" using set_total by blast
  have C: "CreateUser B d u = (Inr (), d3)"
    using n m d1 d2 d3 by (simp add: CreateUser_def update_live get_missing [THEN iffD2])
  have c: "content B d3 = (content B d)(userNameKey (u_Username u) \<mapsto> VBytes (u_ID u),
      userEmailKey (u_Email u) \<mapsto> VBytes (u_ID u), userKey (u_ID u) \<mapsto> VUser u)"
    using content_set [OF d1] content_set [OF d2] content_set [OF d3] by simp
  have cu: "content B d3 (userKey j) = (if j = u_ID u then Some (VUser u) else content B d (userKey j))" for j
    by (simp add: c)
  have cn: "content B d3 (userNameKey k) = (if equal_fold k (u_Username u) then Some (VBytes (u_ID u))
      else content B d (userNameKey k))" for k by (simp add: c userNameKey_eq)
  have cm: "content B d3 (userEmailKey k) = (if equal_fold k (u_Email u) then Some (VBytes (u_ID u))
      else content B d (userEmailKey k))" for k by (simp add: c userEmailKey_eq)
  have rows: "user_row B d3 v \<longleftrightarrow> v = u \<or> user_row B d v" for v
    using i by (auto simp: user_row_def cu)
  have "users_wf B d3"
    unfolding users_wf_def
  proof (intro conjI allI impI)
    fix j v assume v: "content B d3 (userKey j) = Some v"
    show "\<exists>w. v = VUser w \<and> u_ID w = j \<and> content B d3 (userNameKey (u_Username w)) = Some (VBytes j) \<and>
        content B d3 (userEmailKey (u_Email w)) = Some (VBytes j)"
    proof (cases "j = u_ID u")
      case True
      then show ?thesis using v by (intro exI [of _ u]) (simp add: cu cn cm)
    next
      case False
      then have "content B d (userKey j) = Some v" using v by (simp add: cu)
      then obtain w where w: "v = VUser w" "u_ID w = j" "content B d (userNameKey (u_Username w)) = Some (VBytes j)"
        "content B d (userEmailKey (u_Email w)) = Some (VBytes j)" "user_row B d w"
        using wf unfolding users_wf_def user_row_def by blast
      then show ?thesis using free [OF w(5)] by (simp add: cn cm)
    qed
  next
    fix k v assume v: "content B d3 (userNameKey k) = Some v"
    show "\<exists>w. v = VBytes (u_ID w) \<and> content B d3 (userKey (u_ID w)) = Some (VUser w) \<and> equal_fold (u_Username w) k"
    proof (cases "equal_fold k (u_Username u)")
      case True
      then show ?thesis using v by (auto simp: cn cu equal_fold_sym)
    next
      case False
      then obtain w where "v = VBytes (u_ID w)" "content B d (userKey (u_ID w)) = Some (VUser w)" "equal_fold (u_Username w) k"
        using users_wf_name [OF wf, of k v] v unfolding cn user_row_def by auto
      then show ?thesis using i by (auto simp: cu)
    qed
  next
    fix k v assume v: "content B d3 (userEmailKey k) = Some v"
    show "\<exists>w. v = VBytes (u_ID w) \<and> content B d3 (userKey (u_ID w)) = Some (VUser w) \<and> equal_fold (u_Email w) k"
    proof (cases "equal_fold k (u_Email u)")
      case True
      then show ?thesis using v by (auto simp: cm cu equal_fold_sym)
    next
      case False
      then obtain w where "v = VBytes (u_ID w)" "content B d (userKey (u_ID w)) = Some (VUser w)" "equal_fold (u_Email w) k"
        using users_wf_email [OF wf, of k v] v unfolding cm user_row_def by auto
      then show ?thesis using i by (auto simp: cu)
    qed
  qed
  with C c rows show ?thesis by blast
qed

end

lemma users_wf_id:
  "users_wf B d \<Longrightarrow> content B d (userKey i) = Some v \<Longrightarrow> \<exists>u. user_row B d u \<and> u_ID u = i"
  unfolding users_wf_def user_row_def by metis

section \<open>Properties\<close>

definition sample_user :: "string \<Rightarrow> string \<Rightarrow> string \<Rightarrow> User" where
  "sample_user i n m = \<lparr>u_ID = i, u_Username = n, u_Email = m, u_PassHash = [], u_IsAdmin = False,
     u_Avatar = [], u_CreatedAt = 0\<rparr>"

lemma users_wf_empty: "users_wf mem_kv empty_db"
  by (simp add: users_wf_def)

text \<open>C23: Creating a user in a well-formed table: a name taken up to case is refused with
  \<open>ErrUsernameTaken\<close>, else an email taken up to case with \<open>ErrEmailTaken\<close>, both leaving the database as
  it was; otherwise the user is added, and found by id, name and email, and nobody else changes.\<close>

lemma CreateUser_unique:
  assumes "store B" "users_wf B d" "content B d (userKey (u_ID u)) = None"
  shows "if \<exists>v. user_row B d v \<and> equal_fold (u_Username v) (u_Username u) then CreateUser B d u = (Inl ErrUsernameTaken, d)
    else if \<exists>v. user_row B d v \<and> equal_fold (u_Email v) (u_Email u) then CreateUser B d u = (Inl ErrEmailTaken, d)
    else \<exists>d'. CreateUser B d u = (Inr (), d') \<and> users_wf B d'
      \<and> (\<forall>v. user_row B d' v \<longleftrightarrow> v = u \<or> user_row B d v)
      \<and> GetUserByID B d' (u_ID u) = Inr u \<and> GetUserByUsername B d' (u_Username u) = Inr u
      \<and> GetUserByEmail B d' (u_Email u) = Inr u"
proof -
  have new: ?thesis if free: "\<And>v. user_row B d v \<Longrightarrow> \<not> equal_fold (u_Username v) (u_Username u)"
    "\<And>v. user_row B d v \<Longrightarrow> \<not> equal_fold (u_Email v) (u_Email u)"
  proof -
    obtain d' where d': "CreateUser B d u = (Inr (), d')" "users_wf B d'"
        "\<forall>v. user_row B d' v \<longleftrightarrow> v = u \<or> user_row B d v"
      using store.CreateUser_new [OF assms] free by blast
    then have "GetUserByID B d' (u_ID u) = Inr u" "GetUserByUsername B d' (u_Username u) = Inr u"
        "GetUserByEmail B d' (u_Email u) = Inr u"
      using store.GetUserByID_row [OF assms(1) d'(2)] store.GetUserByUsername_row [OF assms(1) d'(2)]
        store.GetUserByEmail_row [OF assms(1) d'(2)] by auto
    with d' free show ?thesis by auto
  qed
  show ?thesis
    using new store.CreateUser_taken [OF assms(1,2)] store.CreateUser_email_taken [OF assms(1,2)] by auto
qed

lemma CreateUser_unique_witness:
  "\<exists>d'. CreateUser mem_kv empty_db (sample_user ''1'' ''alice'' ''a@x.org'') = (Inr (), d')
    \<and> CreateUser mem_kv d' (sample_user ''2'' ''Alice'' ''b@x.org'') = (Inl ErrUsernameTaken, d')"
proof -
  let ?a = "sample_user ''1'' ''alice'' ''a@x.org''" and ?b = "sample_user ''2'' ''Alice'' ''b@x.org''"
  obtain d' where d: "CreateUser mem_kv empty_db ?a = (Inr (), d')" "users_wf mem_kv d'"
      "\<forall>v. user_row mem_kv d' v \<longleftrightarrow> v = ?a \<or> user_row mem_kv empty_db v"
    using CreateUser_unique [OF mem_store.store_axioms users_wf_empty, of ?a] by (auto simp: user_row_def)
  have "?b \<noteq> ?a" "\<not> user_row mem_kv empty_db ?b" by (simp_all add: sample_user_def user_row_def)
  have "content mem_kv d' (userKey ''2'') = None"
  proof (rule ccontr)
    assume "content mem_kv d' (userKey ''2'') \<noteq> None"
    then obtain v where "user_row mem_kv d' v" "u_ID v = ''2''"
      using users_wf_id [OF d(2), of "''2''"] by blast
    moreover have "\<not> user_row mem_kv empty_db v" by (simp add: user_row_def)
    ultimately have "v = ?a" using d(3) by blast
    then have "u_ID v = ''1''" by (simp add: sample_user_def)
    with \<open>u_ID v = ''2''\<close> show False by simp
  qed
  then have c: "content mem_kv d' (userKey (u_ID ?b)) = None" by (simp add: sample_user_def)
  have "equal_fold (u_Username ?a) (u_Username ?b)" by code_simp
  then have E: "\<exists>v. user_row mem_kv d' v \<and> equal_fold (u_Username v) (u_Username ?b)" using d(3) by blast
  have "CreateUser mem_kv d' ?b = (Inl ErrUsernameTaken, d')"
    using CreateUser_unique [OF mem_store.store_axioms d(2) c] unfolding if_P [OF E] .
  with d(1) show ?thesis by blast
qed

end
