(* ===== verification/MiscStore.thy ===== *)
theory MiscStore
  imports StoreTypes
begin

text \<open>
  The small tables of \<open>internal/storage\<close>: pins (\<open>pins.go\<close>), private notes (\<open>notes.go\<close>),
  read positions (\<open>readstate.go\<close>) and the two settings stores (\<open>settings.go\<close>,
  \<open>settingsproto.go\<close>). A Go map is an association list with one entry per key.
\<close>

section \<open>Pins\<close>

definition MaxChannelPins :: nat where
  "MaxChannelPins = 50"

record PinnedMessage =
  pin_ID :: string
  pin_At :: time

definition pinKey :: "string \<Rightarrow> string \<Rightarrow> string" where
  "pinKey ch i = ''pin/'' @ ch @ ''/'' @ i"

definition pinPrefix :: "string \<Rightarrow> string" where
  "pinPrefix ch = ''pin/'' @ ch @ ''/''"

definition PutPin :: "'d store \<Rightarrow> 'd \<Rightarrow> string \<Rightarrow> string \<Rightarrow> time \<Rightarrow> (err + unit) \<times> 'd" where
  "PutPin B d ch i now =
     db_update B d (\<lambda>t.
       case txn_get B t (pinKey ch i) of
         Inr _ \<Rightarrow> Inr ((), t)
       | Inl e \<Rightarrow> if e \<noteq> KeyNotFound then Inl e
                  else finish (txn_set B t (pinKey ch i) (VTime now)) ())"

definition DeletePin :: "'d store \<Rightarrow> 'd \<Rightarrow> string \<Rightarrow> string \<Rightarrow> (err + unit) \<times> 'd" where
  "DeletePin B d ch i = db_update B d (\<lambda>t. finish (txn_delete B t (pinKey ch i)) ())"

definition ListPins :: "'d store \<Rightarrow> 'd \<Rightarrow> string \<Rightarrow> err + PinnedMessage list" where
  "ListPins B d ch =
     (let prefix = pinPrefix ch in
      tryb (read_all B as_time d (scan B d prefix)) (\<lambda>rows.
      Inr (sort_key pin_At (map (\<lambda>(k, at). \<lparr>pin_ID = trim_prefix k prefix, pin_At = at\<rparr>) rows))))"

section \<open>Notes\<close>

definition userNoteKey :: "string \<Rightarrow> string \<Rightarrow> string" where
  "userNoteKey user target = ''note/'' @ user @ ''/'' @ target"

definition notePrefix :: "string \<Rightarrow> string" where
  "notePrefix user = ''note/'' @ user @ ''/''"

definition PutUserNote :: "'d store \<Rightarrow> 'd \<Rightarrow> string \<Rightarrow> string \<Rightarrow> string \<Rightarrow> (err + unit) \<times> 'd" where
  "PutUserNote B d user target note =
     db_update B d (\<lambda>t.
       if note = [] then finish (txn_delete B t (userNoteKey user target)) ()
       else finish (txn_set B t (userNoteKey user target) (VNote note)) ())"

definition GetUserNote :: "'d store \<Rightarrow> 'd \<Rightarrow> string \<Rightarrow> string \<Rightarrow> err + string" where
  "GetUserNote B d user target =
     (case get_as B as_note d (userNoteKey user target) of
        Inl e \<Rightarrow> if e = KeyNotFound then Inr [] else Inl e
      | Inr note \<Rightarrow> Inr note)"

definition ListUserNotes :: "'d store \<Rightarrow> 'd \<Rightarrow> string \<Rightarrow> err + (string \<times> string) list" where
  "ListUserNotes B d user =
     (let prefix = notePrefix user in
      tryb (read_all B as_note d (scan B d prefix)) (\<lambda>rows.
      Inr (map (\<lambda>(k, note). (trim_prefix k prefix, note)) rows)))"

section \<open>Read positions\<close>

definition readStateKey :: "string \<Rightarrow> string \<Rightarrow> string" where
  "readStateKey user ch = ''rs/'' @ user @ ''/'' @ ch"

definition readStatePrefix :: "string \<Rightarrow> string" where
  "readStatePrefix user = ''rs/'' @ user @ ''/''"

definition PutReadState :: "'d store \<Rightarrow> 'd \<Rightarrow> string \<Rightarrow> ReadState \<Rightarrow> (err + unit) \<times> 'd" where
  "PutReadState B d user rs =
     db_update B d (\<lambda>t. finish (txn_set B t (readStateKey user (rs_ChannelID rs)) (VRead rs)) ())"

definition emptyReadState :: ReadState where
  "emptyReadState = \<lparr>rs_ChannelID = [], rs_LastMessageID = [], rs_MentionCount = 0\<rparr>"

definition GetReadState :: "'d store \<Rightarrow> 'd \<Rightarrow> string \<Rightarrow> string \<Rightarrow> ReadState \<times> bool" where
  "GetReadState B d user ch =
     (case get_as B as_read d (readStateKey user ch) of
        Inr rs \<Rightarrow> (rs, True) | Inl _ \<Rightarrow> (emptyReadState, False))"

definition ReadStates :: "'d store \<Rightarrow> 'd \<Rightarrow> string \<Rightarrow> err + ReadState list" where
  "ReadStates B d user =
     (let prefix = readStatePrefix user in
      tryb (read_all B as_read d (scan B d prefix)) (\<lambda>rows.
      Inr (map (\<lambda>(k, rs). rs\<lparr>rs_ChannelID := trim_prefix k prefix\<rparr>) rows)))"

section \<open>Settings\<close>

definition settingsKey :: "string \<Rightarrow> string" where
  "settingsKey user = ''settings:'' @ user"

definition UserSettings :: "'d store \<Rightarrow> 'd \<Rightarrow> string \<Rightarrow> (string \<times> json) list" where
  "UserSettings B d user =
     (case get_as B as_settings d (settingsKey user) of Inr s \<Rightarrow> s | Inl _ \<Rightarrow> [])"

definition MergeUserSettings ::
  "'d store \<Rightarrow> 'd \<Rightarrow> string \<Rightarrow> (string \<times> json) list \<Rightarrow> (err + unit) \<times> 'd" where
  "MergeUserSettings B d user patch =
     (if length patch = 0 then (Inr (), d)
      else db_update B d (\<lambda>t.
        let current = (case get_as B as_settings t (settingsKey user) of Inr s \<Rightarrow> s | Inl _ \<Rightarrow> []);
            current = fold (\<lambda>(k, v) m. AList.update k v m) patch current
        in finish (txn_set B t (settingsKey user) (VSettings current)) ()))"

definition settingsProtoKey :: "string \<Rightarrow> string \<Rightarrow> string" where
  "settingsProtoKey user kind = ''settingsproto:'' @ kind @ '':'' @ user"

definition UserSettingsProto :: "'d store \<Rightarrow> 'd \<Rightarrow> string \<Rightarrow> string \<Rightarrow> string option" where
  "UserSettingsProto B d user kind =
     (case get_as B as_bytes d (settingsProtoKey user kind) of Inr b \<Rightarrow> Some b | Inl _ \<Rightarrow> None)"

definition SetUserSettingsProto ::
  "'d store \<Rightarrow> 'd \<Rightarrow> string \<Rightarrow> string \<Rightarrow> string \<Rightarrow> (err + unit) \<times> 'd" where
  "SetUserSettingsProto B d user kind blob =
     db_update B d (\<lambda>t. finish (txn_set B t (settingsProtoKey user kind) (VBytes blob)) ())"

section \<open>Merging settings\<close>

lemma map_of_fold_update:
  "map_of (fold (\<lambda>(k, v) m. AList.update k v m) ps m) = map_of m ++ map_of (rev ps)"
  by (induction ps arbitrary: m) (auto simp: update_conv' fun_eq_iff map_add_def split: option.splits)

lemma map_of_rev_distinct: "distinct (map fst ps) \<Longrightarrow> map_of (rev ps) = map_of ps"
proof (induction ps)
  case (Cons p ps)
  have "map_of ps (fst p) = None" using Cons.prems by (simp add: map_of_eq_None_iff)
  with Cons show ?case by (auto simp: fun_eq_iff map_add_def split: option.splits)
qed simp

context store
begin

lemma MergeUserSettings_content:
  assumes "patch \<noteq> []"
  shows "\<exists>d'. MergeUserSettings B d user patch = (Inr (), d') \<and>
    content B d' = (content B d)(settingsKey user \<mapsto>
      VSettings (fold (\<lambda>(k, v) m. AList.update k v m) patch (UserSettings B d user)))"
proof -
  let ?v = "VSettings (fold (\<lambda>(k, v) m. AList.update k v m) patch (UserSettings B d user))"
  obtain d' where d': "txn_set B d (settingsKey user) ?v = Inr d'" using set_total by blast
  then show ?thesis using assms content_set [OF d']
    by (simp add: MergeUserSettings_def update_live Let_def UserSettings_def)
qed

lemma UserSettings_row: "content B d (settingsKey user) = Some (VSettings m) \<Longrightarrow> UserSettings B d user = m"
  using get_as_content [of as_settings d "settingsKey user" m] by (simp add: UserSettings_def)

lemma PutPin_content:
  "\<exists>d'. PutPin B d ch i now = (Inr (), d') \<and>
     content B d' = (if content B d (pinKey ch i) = None then (content B d)(pinKey ch i \<mapsto> VTime now) else content B d)"
proof (cases "content B d (pinKey ch i)")
  case None
  then have g: "txn_get B d (pinKey ch i) = Inl KeyNotFound" by (simp add: get_missing)
  obtain d' where d': "txn_set B d (pinKey ch i) (VTime now) = Inr d'" using set_total by blast
  then show ?thesis using None g content_set [OF d'] by (simp add: PutPin_def update_live)
next
  case (Some v)
  then have "txn_get B d (pinKey ch i) = Inr v" by (simp add: get_present)
  then show ?thesis using Some by (simp add: PutPin_def update_live)
qed

end

section \<open>Properties\<close>

text \<open>Merging a settings patch makes the user's stored settings the right-biased union of the old map
  and the patch, and changes no other key of the database.\<close>

lemma MergeUserSettings_union:
  assumes "store B" "distinct (map fst patch)"
  shows "\<exists>d'. MergeUserSettings B d user patch = (Inr (), d')
    \<and> map_of (UserSettings B d' user) = map_of (UserSettings B d user) ++ map_of patch
    \<and> (\<forall>k. k \<noteq> settingsKey user \<longrightarrow> content B d' k = content B d k)"
proof (cases "patch = []")
  case True
  then show ?thesis by (simp add: MergeUserSettings_def)
next
  case False
  let ?m = "fold (\<lambda>(k, v) m. AList.update k v m) patch (UserSettings B d user)"
  obtain d' where d': "MergeUserSettings B d user patch = (Inr (), d')"
      "content B d' = (content B d)(settingsKey user \<mapsto> VSettings ?m)"
    using store.MergeUserSettings_content [OF assms(1) False] by blast
  have "map_of (rev patch) = map_of patch"
    using assms(2) by (rule map_of_rev_distinct)
  moreover have "UserSettings B d' user = ?m"
    by (rule store.UserSettings_row [OF assms(1)]) (simp add: d'(2))
  ultimately show ?thesis using d' by (simp add: map_of_fold_update)
qed

lemma MergeUserSettings_union_witness:
  "\<exists>d'. MergeUserSettings mem_kv empty_db ''7'' [(''theme'', JStr ''light''), (''locale'', JStr ''fr'')] = (Inr (), d')
    \<and> map_of (UserSettings mem_kv d' ''7'') ''theme'' = Some (JStr ''light'')"
proof -
  have "distinct (map fst [(''theme'', JStr ''light''), (''locale'', JStr ''fr'')])" by simp
  from MergeUserSettings_union [OF mem_store.store_axioms this, of empty_db "''7''"]
  obtain d' where "MergeUserSettings mem_kv empty_db ''7'' [(''theme'', JStr ''light''), (''locale'', JStr ''fr'')] = (Inr (), d')"
    "map_of (UserSettings mem_kv d' ''7'') = map_of (UserSettings mem_kv empty_db ''7'') ++ map_of [(''theme'', JStr ''light''), (''locale'', JStr ''fr'')]"
    by blast
  then show ?thesis by (intro exI [of _ d']) (simp add: map_add_def)
qed

text \<open>Pinning a message stores the time of the first pin: pinning it again, or pinning any other
  message, leaves it as it was.\<close>

lemma PutPin_first:
  assumes "store B"
  shows "\<exists>d1 d2. PutPin B d ch i now = (Inr (), d1) \<and> PutPin B d1 ch j later = (Inr (), d2)
    \<and> content B d2 (pinKey ch i) = (case content B d (pinKey ch i) of None \<Rightarrow> Some (VTime now) | Some v \<Rightarrow> Some v)"
proof -
  obtain d1 where d1: "PutPin B d ch i now = (Inr (), d1)"
     "content B d1 = (if content B d (pinKey ch i) = None then (content B d)(pinKey ch i \<mapsto> VTime now) else content B d)"
    using store.PutPin_content [OF assms] by blast
  obtain d2 where d2: "PutPin B d1 ch j later = (Inr (), d2)"
     "content B d2 = (if content B d1 (pinKey ch j) = None then (content B d1)(pinKey ch j \<mapsto> VTime later) else content B d1)"
    using store.PutPin_content [OF assms] by blast
  have "content B d2 (pinKey ch i) = content B d1 (pinKey ch i)"
    using d1(2) d2(2) by (auto split: if_splits)
  then show ?thesis using d1 d2(1) by (auto split: option.splits)
qed

lemma PutPin_first_witness:
  "\<exists>d1 d2. PutPin mem_kv empty_db ''7'' ''42'' 10 = (Inr (), d1) \<and> PutPin mem_kv d1 ''7'' ''42'' 20 = (Inr (), d2)
    \<and> content mem_kv d2 (pinKey ''7'' ''42'') = Some (VTime 10)"
  using PutPin_first [OF mem_store.store_axioms, of empty_db "''7''" "''42''" 10 "''42''" 20] by simp

end
