(* ===== verification/Sha256.thy ===== *)
theory Sha256
  imports Prelude "HOL-Library.Word"
begin

unbundle bit_operations_syntax

text \<open>
  \<open>crypto/sha256\<close> and \<open>encoding/hex\<close> of Go's standard library, as FIPS 180-4 and RFC 4648 define
  them: the code names stored tokens and avatar images by their SHA-256 digest. A string is a list
  of bytes.
\<close>

type_synonym w32 = "32 word"

text \<open>
  The constants of the standard are computed the way it describes them: the first 32 bits of the
  fractional parts of the cube roots (square roots) of the first 64 (8) primes. \<open>iroot e n\<close> is the
  integer \<open>e\<close>-th root of \<open>n\<close>, found bit by bit from bit 47 down.
\<close>

definition first_primes :: "nat list" where
  "first_primes = filter (\<lambda>p. list_all (\<lambda>d. p mod d \<noteq> 0) [2..<p]) [2..<312]"

definition iroot :: "nat \<Rightarrow> int \<Rightarrow> int" where
  "iroot e n = foldl (\<lambda>r i. if (r + 2 ^ i) ^ e \<le> n then r + 2 ^ i else r) 0 (rev [0..<48])"

definition sha_k :: "w32 list" where
  "sha_k = map (\<lambda>p. of_int (iroot 3 (int p * 2 ^ 96))) first_primes"

definition sha_init :: "w32 list" where
  "sha_init = map (\<lambda>p. of_int (iroot 2 (int p * 2 ^ 64))) (take 8 first_primes)"

definition rotr32 :: "nat \<Rightarrow> w32 \<Rightarrow> w32" where
  "rotr32 n x = drop_bit n x OR push_bit (32 - n) x"

definition sha_word :: "string \<Rightarrow> w32" where
  "sha_word bs = foldl (\<lambda>acc b. push_bit 8 acc OR of_nat (of_char b)) 0 bs"

fun chunks :: "nat \<Rightarrow> 'a list \<Rightarrow> 'a list list" where
  "chunks n [] = []"
| "chunks n (x # xs) = (if n = 0 then [x # xs] else take n (x # xs) # chunks n (drop (n - 1) xs))"

text \<open>\<open>sha_schedule n ws\<close> extends the last 16 words, newest first.\<close>

fun sha_schedule :: "nat \<Rightarrow> w32 list \<Rightarrow> w32 list" where
  "sha_schedule 0 ws = ws"
| "sha_schedule (Suc n) ws =
     (let w2 = ws ! 1; w7 = ws ! 6; w15 = ws ! 14; w16 = ws ! 15;
          s0 = rotr32 7 w15 XOR rotr32 18 w15 XOR drop_bit 3 w15;
          s1 = rotr32 17 w2 XOR rotr32 19 w2 XOR drop_bit 10 w2
      in sha_schedule n ((w16 + s0 + w7 + s1) # ws))"

fun sha_round :: "w32 list \<Rightarrow> w32 \<times> w32 \<Rightarrow> w32 list" where
  "sha_round [a, b, c, d, e, f, g, h] (k, w) =
     (let s1 = rotr32 6 e XOR rotr32 11 e XOR rotr32 25 e;
          ch = (e AND f) XOR (NOT e AND g);
          t1 = h + s1 + ch + k + w;
          s0 = rotr32 2 a XOR rotr32 13 a XOR rotr32 22 a;
          maj = (a AND b) XOR (a AND c) XOR (b AND c);
          t2 = s0 + maj
      in [t1 + t2, a, b, c, d + t1, e, f, g])"
| "sha_round s _ = s"

definition sha_block :: "w32 list \<Rightarrow> string \<Rightarrow> w32 list" where
  "sha_block hs bs =
     (let ws = rev (sha_schedule 48 (rev (map sha_word (chunks 4 bs))))
      in map2 (+) hs (foldl sha_round hs (zip sha_k ws)))"

fun be_bytes :: "nat \<Rightarrow> nat \<Rightarrow> string" where
  "be_bytes 0 x = []"
| "be_bytes (Suc n) x = be_bytes n (x div 256) @ [char_of (x mod 256)]"

definition sha_pad :: "string \<Rightarrow> string" where
  "sha_pad m = (let l = length m in
     m @ CHR 0x80 # replicate ((55 + 64 - l mod 64) mod 64) (CHR 0x00) @ be_bytes 8 (8 * l))"

definition sha256 :: "string \<Rightarrow> string" where
  "sha256 m = concat (map (\<lambda>w. be_bytes 4 (unat w)) (foldl sha_block sha_init (chunks 64 (sha_pad m))))"

definition hex_digit :: "nat \<Rightarrow> char" where
  "hex_digit n = (if n < 10 then char_of (48 + n) else char_of (87 + n))"

definition hex_encode :: "string \<Rightarrow> string" where
  "hex_encode bs = concat (map (\<lambda>b. let n = of_char b in [hex_digit (n div 16), hex_digit (n mod 16)]) bs)"

definition SHA256Hex :: "string \<Rightarrow> string" where
  "SHA256Hex s = hex_encode (sha256 s)"

lemma length_hex_encode: "length (hex_encode bs) = 2 * length bs"
  by (induction bs) (auto simp: hex_encode_def Let_def)

lemma length_be_bytes [simp]: "length (be_bytes n x) = n"
  by (induction n arbitrary: x) auto

end
