(* ===== verification/AttachmentStore.thy ===== *)
theory AttachmentStore
  imports NetworkStore UserStore Sha256
begin

text \<open>
  \<open>internal/storage/attachments.go\<close> and \<open>avatars.go\<close>: upload slots, stored files, content-hashed
  avatars, and what is remembered of remote IRC peers. The clock is an argument in Unix seconds.
\<close>

definition uploadTTL :: int where
  "uploadTTL = 24 * 3600 * 1000000000"

definition uploadKey :: "string \<Rightarrow> string" where
  "uploadKey token = ''upload:'' @ token"

definition uploadRefKey :: "string \<Rightarrow> string" where
  "uploadRefKey f = ''uploadref:'' @ f"

definition attKey :: "string \<Rightarrow> string" where
  "attKey i = ''att:'' @ i"

definition attDataKey :: "string \<Rightarrow> string" where
  "attDataKey i = ''attdata:'' @ i"

definition CreateUpload :: "'d store \<Rightarrow> 'd \<Rightarrow> PendingUpload \<Rightarrow> (err + unit) \<times> 'd" where
  "CreateUpload B d up =
     db_update B d (\<lambda>t. finish (txn_set_ttl B t (uploadKey (pu_Token up)) (VUpload up) uploadTTL) ())"

definition GetUpload :: "'d store \<Rightarrow> 'd \<Rightarrow> string \<Rightarrow> err + PendingUpload" where
  "GetUpload B d token = get_as B as_upload d (uploadKey token)"

definition PutAttachment :: "'d store \<Rightarrow> 'd \<Rightarrow> Attachment \<Rightarrow> string \<Rightarrow> (err + unit) \<times> 'd" where
  "PutAttachment B d att data =
     db_update B d (\<lambda>t.
       tryb (txn_set B t (attKey (at_ID att)) (VAtt att)) (\<lambda>t.
       finish (txn_set B t (attDataKey (at_ID att)) (VBytes data)) ()))"

definition BindUpload :: "'d store \<Rightarrow> 'd \<Rightarrow> string \<Rightarrow> string \<Rightarrow> (err + unit) \<times> 'd" where
  "BindUpload B d uploadFilename attachmentID =
     db_update B d (\<lambda>t. finish (txn_set_ttl B t (uploadRefKey uploadFilename)
       (VAttRef \<lparr>ar_AttachmentID = attachmentID\<rparr>) uploadTTL) ())"

definition BindAttachment ::
  "'d store \<Rightarrow> 'd \<Rightarrow> PendingUpload \<Rightarrow> Attachment \<Rightarrow> string \<Rightarrow> (err + unit) \<times> 'd" where
  "BindAttachment B d upload att data =
     (case PutAttachment B d att data of
        (Inl e, d') \<Rightarrow> (Inl e, d')
      | (Inr _, d') \<Rightarrow> BindUpload B d' (pu_UploadFilename upload) (at_ID att))"

definition ResolveUpload :: "'d store \<Rightarrow> 'd \<Rightarrow> string \<Rightarrow> err + Attachment" where
  "ResolveUpload B d uploadFilename =
     map_missing ErrAttachmentNotFound
       (tryb (get_as B as_attref d (uploadRefKey uploadFilename))
         (\<lambda>ref. get_as B as_att d (attKey (ar_AttachmentID ref))))"

definition GetAttachment :: "'d store \<Rightarrow> 'd \<Rightarrow> string \<Rightarrow> err + Attachment" where
  "GetAttachment B d i = map_missing ErrAttachmentNotFound (get_as B as_att d (attKey i))"

definition GetAttachmentData :: "'d store \<Rightarrow> 'd \<Rightarrow> string \<Rightarrow> err + string" where
  "GetAttachmentData B d i = map_missing ErrAttachmentNotFound (get_as B as_bytes d (attDataKey i))"

section \<open>Avatars\<close>

definition MaxAvatarBytes :: nat where
  "MaxAvatarBytes = 4 * 2 ^ 20"

definition allowedAvatarTypes :: "string list" where
  "allowedAvatarTypes = [''image/png'', ''image/jpeg'', ''image/gif'', ''image/webp'', ''image/avif'']"

definition AvatarAllowed :: "string \<Rightarrow> bool" where
  "AvatarAllowed ct = (to_lower (trim_space (hd (split_on (CHR '';'') ct))) \<in> set allowedAvatarTypes)"

definition avatarContentType :: "string \<Rightarrow> string" where
  "avatarContentType data =
     (if length data \<ge> 8 \<and> take 8 data = CHR 0x89 # ''PNG'' @ [CHR 0x0D, CHR 0x0A, CHR 0x1A, CHR 0x0A]
        then ''image/png''
      else if length data \<ge> 3 \<and> data ! 0 = CHR 0xFF \<and> data ! 1 = CHR 0xD8 \<and> data ! 2 = CHR 0xFF
        then ''image/jpeg''
      else if length data \<ge> 6 \<and> (take 6 data = ''GIF87a'' \<or> take 6 data = ''GIF89a'')
        then ''image/gif''
      else if length data \<ge> 12 \<and> take 4 data = ''RIFF'' \<and> take 4 (drop 8 data) = ''WEBP''
        then ''image/webp''
      else if length data \<ge> 12 \<and> take 4 (drop 4 data) = ''ftyp''
        then ''image/avif''
      else [])"

definition PutAvatar :: "'d store \<Rightarrow> 'd \<Rightarrow> string \<Rightarrow> string \<Rightarrow> int \<Rightarrow> (err + string) \<times> 'd" where
  "PutAvatar B d data contentType now =
     (if length data = 0 then (Inl ErrEmptyAvatar, d)
      else if length data > MaxAvatarBytes then (Inl ErrAvatarTooLarge, d)
      else
        let contentType = (if contentType = [] \<or> \<not> AvatarAllowed contentType
                           then avatarContentType data else contentType)
        in if contentType = [] \<or> \<not> AvatarAllowed contentType then (Inl ErrAvatarType, d)
        else
          let hash = hex_encode (take 16 (sha256 data));
              att = \<lparr>at_ID = hash, at_Filename = hash @ ''.png'', at_ContentType = contentType,
                     at_Size = int (length data), at_Width = 0, at_Height = 0, at_UploadedAt = now\<rparr>
          in case PutAttachment B d att data of
               (Inl e, d') \<Rightarrow> (Inl e, d')
             | (Inr _, d') \<Rightarrow> (Inr hash, d'))"

definition GetAvatar :: "'d store \<Rightarrow> 'd \<Rightarrow> string \<Rightarrow> err + (Attachment \<times> string)" where
  "GetAvatar B d hash =
     tryb (GetAttachment B d hash) (\<lambda>att. tryb (GetAttachmentData B d hash) (\<lambda>data. Inr (att, data)))"

definition SetUserAvatar :: "'d store \<Rightarrow> 'd \<Rightarrow> string \<Rightarrow> string \<Rightarrow> (err + unit) \<times> 'd" where
  "SetUserAvatar B d userID hash =
     db_update B d (\<lambda>t.
       tryb (get_as B as_user t (userKey userID)) (\<lambda>u.
       finish (txn_set B t (userKey userID) (VUser (u\<lparr>u_Avatar := hash\<rparr>))) ()))"

definition SetMembershipAvatar ::
  "'d store \<Rightarrow> 'd \<Rightarrow> string \<Rightarrow> string \<Rightarrow> string \<Rightarrow> (err + unit) \<times> 'd" where
  "SetMembershipAvatar B d networkID userID hash =
     db_update B d (\<lambda>t.
       tryb (get_as B as_mem t (memberKey networkID userID)) (\<lambda>m.
       finish (txn_set B t (memberKey networkID userID) (VMem (m\<lparr>mem_Avatar := hash\<rparr>))) ()))"

definition SetMembershipAvatarRejected ::
  "'d store \<Rightarrow> 'd \<Rightarrow> string \<Rightarrow> string \<Rightarrow> bool \<Rightarrow> (err + unit) \<times> 'd" where
  "SetMembershipAvatarRejected B d networkID userID rejected =
     db_update B d (\<lambda>t.
       tryb (get_as B as_mem t (memberKey networkID userID)) (\<lambda>m.
       finish (txn_set B t (memberKey networkID userID) (VMem (m\<lparr>mem_AvatarRejected := rejected\<rparr>))) ()))"

section \<open>What is remembered of a remote peer\<close>

definition peerAvatarKey :: "string \<Rightarrow> string \<Rightarrow> string \<Rightarrow> string" where
  "peerAvatarKey userID networkID nick =
     ''peeravatar/'' @ userID @ ''/'' @ networkID @ ''/'' @ to_lower nick"

definition PutPeerAvatar ::
  "'d store \<Rightarrow> 'd \<Rightarrow> string \<Rightarrow> string \<Rightarrow> string \<Rightarrow> string \<Rightarrow> (err + unit) \<times> 'd" where
  "PutPeerAvatar B d userID networkID nick hash =
     (if nick = [] then (Inr (), d)
      else db_update B d (\<lambda>t. finish (txn_set B t (peerAvatarKey userID networkID nick) (VBytes hash)) ()))"

definition PeerAvatar :: "'d store \<Rightarrow> 'd \<Rightarrow> string \<Rightarrow> string \<Rightarrow> string \<Rightarrow> string" where
  "PeerAvatar B d userID networkID nick =
     (case get_as B as_bytes d (peerAvatarKey userID networkID nick) of Inr h \<Rightarrow> h | Inl _ \<Rightarrow> [])"

definition peerFlagKey :: "string \<Rightarrow> string \<Rightarrow> string \<Rightarrow> string \<Rightarrow> string" where
  "peerFlagKey userID networkID nick kind =
     ''peer'' @ kind @ ''/'' @ userID @ ''/'' @ networkID @ ''/'' @ to_lower nick"

definition PutPeerBot ::
  "'d store \<Rightarrow> 'd \<Rightarrow> string \<Rightarrow> string \<Rightarrow> string \<Rightarrow> bool \<Rightarrow> (err + unit) \<times> 'd" where
  "PutPeerBot B d userID networkID nick isBot =
     (if nick = [] then (Inr (), d)
      else db_update B d (\<lambda>t.
        if \<not> isBot then finish (txn_delete B t (peerFlagKey userID networkID nick ''bot'')) ()
        else finish (txn_set B t (peerFlagKey userID networkID nick ''bot'') (VBytes ''1'')) ()))"

definition PeerBot :: "'d store \<Rightarrow> 'd \<Rightarrow> string \<Rightarrow> string \<Rightarrow> string \<Rightarrow> bool" where
  "PeerBot B d userID networkID nick =
     (case txn_get B d (peerFlagKey userID networkID nick ''bot'') of Inr _ \<Rightarrow> True | Inl _ \<Rightarrow> False)"

definition PutPeerColor ::
  "'d store \<Rightarrow> 'd \<Rightarrow> string \<Rightarrow> string \<Rightarrow> string \<Rightarrow> string \<Rightarrow> (err + unit) \<times> 'd" where
  "PutPeerColor B d userID networkID nick hex =
     (if nick = [] then (Inr (), d)
      else db_update B d (\<lambda>t.
        if hex = [] then finish (txn_delete B t (peerFlagKey userID networkID nick ''color'')) ()
        else finish (txn_set B t (peerFlagKey userID networkID nick ''color'') (VBytes hex)) ()))"

definition PeerColor :: "'d store \<Rightarrow> 'd \<Rightarrow> string \<Rightarrow> string \<Rightarrow> string \<Rightarrow> string" where
  "PeerColor B d userID networkID nick =
     (case get_as B as_bytes d (peerFlagKey userID networkID nick ''color'') of Inr h \<Rightarrow> h | Inl _ \<Rightarrow> [])"

section \<open>Files\<close>

lemma att_keys [simp]:
  "attKey i = attKey j \<longleftrightarrow> i = j" "attDataKey i = attDataKey j \<longleftrightarrow> i = j"
  "attKey i \<noteq> attDataKey j" "attDataKey j \<noteq> attKey i"
  "uploadRefKey f \<noteq> attKey i" "uploadRefKey f \<noteq> attDataKey i"
  "attKey i \<noteq> uploadRefKey f" "attDataKey i \<noteq> uploadRefKey f"
  by (simp_all add: attKey_def attDataKey_def uploadRefKey_def)

context store
begin

lemma PutAttachment_content:
  "\<exists>d'. PutAttachment B d att data = (Inr (), d') \<and>
     content B d' = (content B d)(attKey (at_ID att) \<mapsto> VAtt att, attDataKey (at_ID att) \<mapsto> VBytes data)"
proof -
  obtain d1 where d1: "txn_set B d (attKey (at_ID att)) (VAtt att) = Inr d1" using set_total by blast
  obtain d2 where d2: "txn_set B d1 (attDataKey (at_ID att)) (VBytes data) = Inr d2" using set_total by blast
  show ?thesis using d1 d2 content_set [OF d1] content_set [OF d2]
    by (simp add: PutAttachment_def update_live)
qed

lemma get_att:
  "content B d (attKey i) = Some (VAtt att) \<Longrightarrow> GetAttachment B d i = Inr att"
  "content B d (attDataKey i) = Some (VBytes data) \<Longrightarrow> GetAttachmentData B d i = Inr data"
  by (simp_all add: GetAttachment_def GetAttachmentData_def get_as_content as_Inr)

lemma BindAttachment_resolves:
  "\<exists>d'. BindAttachment B d upload att data = (Inr (), d') \<and>
     ResolveUpload B d' (pu_UploadFilename upload) = Inr att \<and>
     GetAttachmentData B d' (at_ID att) = Inr data"
proof -
  obtain d1 where P: "PutAttachment B d att data = (Inr (), d1)"
    and c1: "content B d1 = (content B d)(attKey (at_ID att) \<mapsto> VAtt att, attDataKey (at_ID att) \<mapsto> VBytes data)"
    using PutAttachment_content by blast
  obtain d2 where d2: "txn_set_ttl B d1 (uploadRefKey (pu_UploadFilename upload))
      (VAttRef \<lparr>ar_AttachmentID = at_ID att\<rparr>) uploadTTL = Inr d2" using set_ttl_total by blast
  have c2: "content B d2 = (content B d1)(uploadRefKey (pu_UploadFilename upload) \<mapsto> VAttRef \<lparr>ar_AttachmentID = at_ID att\<rparr>)"
    using get_set_ttl [OF d2] by (auto simp: content_def fun_eq_iff)
  have ref: "get_as B as_attref d2 (uploadRefKey (pu_UploadFilename upload)) = Inr \<lparr>ar_AttachmentID = at_ID att\<rparr>"
    and att: "get_as B as_att d2 (attKey (at_ID att)) = Inr att"
    by (simp_all add: get_as_content as_Inr c1 c2)
  have "BindAttachment B d upload att data = (Inr (), d2)"
    using P d2 by (simp add: BindAttachment_def BindUpload_def update_live)
  moreover have "ResolveUpload B d2 (pu_UploadFilename upload) = Inr att"
    using ref att by (simp add: ResolveUpload_def)
  moreover have "GetAttachmentData B d2 (at_ID att) = Inr data"
    by (rule get_att) (simp add: c1 c2)
  ultimately show ?thesis by blast
qed

lemma PutAvatar_stored:
  assumes "PutAvatar B d data ct now = (Inr h, d')"
  shows "\<exists>att. GetAvatar B d' h = Inr (att, data) \<and> AvatarAllowed (at_ContentType att) \<and>
    h = hex_encode (take 16 (sha256 data)) \<and> length data \<le> MaxAvatarBytes"
proof -
  define ct' where "ct' = (if ct = [] \<or> \<not> AvatarAllowed ct then avatarContentType data else ct)"
  define att where "att = \<lparr>at_ID = hex_encode (take 16 (sha256 data)),
    at_Filename = hex_encode (take 16 (sha256 data)) @ ''.png'', at_ContentType = ct',
    at_Size = int (length data), at_Width = 0, at_Height = 0, at_UploadedAt = now\<rparr>"
  have guards: "0 < length data" "length data \<le> MaxAvatarBytes" "AvatarAllowed ct'"
    using assms unfolding PutAvatar_def Let_def ct'_def [symmetric]
    by (auto split: if_splits)
  have att_id: "at_ID att = hex_encode (take 16 (sha256 data))" by (simp add: att_def)
  have "ct' \<noteq> []" using assms guards unfolding PutAvatar_def Let_def ct'_def [symmetric]
    by (auto split: if_splits)
  then have "PutAvatar B d data ct now = (case PutAttachment B d att data of
      (Inl e, d') \<Rightarrow> (Inl e, d') | (Inr _, d') \<Rightarrow> (Inr (at_ID att), d'))"
    using guards unfolding PutAvatar_def Let_def ct'_def [symmetric] att_def [symmetric] att_id by simp
  then obtain d1 where "h = at_ID att" "d' = d1"
    "content B d1 = (content B d)(attKey (at_ID att) \<mapsto> VAtt att, attDataKey (at_ID att) \<mapsto> VBytes data)"
    using assms PutAttachment_content [of d att data] by auto
  then have "GetAvatar B d' h = Inr (att, data)"
    using get_att [of d' h] by (simp add: GetAvatar_def)
  then show ?thesis using guards \<open>h = at_ID att\<close> by (auto simp: att_def)
qed

end

section \<open>Properties\<close>

text \<open>Storing an avatar: an empty, oversized or unrecognised image is refused and changes nothing; any
  other is stored under the first 16 bytes of its SHA-256, from where \<open>GetAvatar\<close> returns the same bytes with
  an allowed content type.\<close>

lemma PutAvatar_decides:
  assumes "store B"
  shows "case PutAvatar B d data ct now of
    (Inl e, d') \<Rightarrow> d' = d \<and> (data = [] \<and> e = ErrEmptyAvatar \<or> length data > 4194304 \<and> e = ErrAvatarTooLarge
        \<or> \<not> AvatarAllowed ct \<and> \<not> AvatarAllowed (avatarContentType data) \<and> e = ErrAvatarType)
  | (Inr h, d') \<Rightarrow> h = hex_encode (take 16 (sha256 data)) \<and> data \<noteq> [] \<and> length data \<le> 4194304
      \<and> (\<exists>att. GetAvatar B d' h = Inr (att, data) \<and> AvatarAllowed (at_ContentType att))"
proof (cases "PutAvatar B d data ct now")
  case (Pair r d')
  show ?thesis
  proof (cases r)
    case (Inr h)
    have "data \<noteq> []" using Pair Inr by (auto simp: PutAvatar_def)
    with store.PutAvatar_stored [OF assms, of d data ct now h d'] Pair Inr show ?thesis
      by (auto simp: MaxAvatarBytes_def)
  next
    case (Inl e)
    obtain d2 where P: "PutAttachment B d att data = (Inr (), d2 att)" for att
      using store.PutAttachment_content [OF assms, of d _ data] by metis
    have no: "\<not> AvatarAllowed []" by code_simp
    show ?thesis using Pair Inl no
      by (auto simp: PutAvatar_def P Let_def MaxAvatarBytes_def split: if_splits)
  qed
qed

lemma PutAvatar_decides_witness:
  "fst (PutAvatar mem_kv empty_db ''hello'' ''text/plain'' 0) = Inl ErrAvatarType"
proof -
  have "\<not> AvatarAllowed ''text/plain''" "\<not> AvatarAllowed (avatarContentType ''hello'')" "avatarContentType ''hello'' = []"
    by code_simp+
  then have "\<exists>e. fst (PutAvatar mem_kv empty_db ''hello'' ''text/plain'' 0) = Inl e"
    by (simp add: PutAvatar_def MaxAvatarBytes_def)
  then show ?thesis
    using PutAvatar_decides [OF mem_store.store_axioms, of empty_db "''hello''" "''text/plain''" 0]
    by (auto split: prod.splits)
qed

text \<open>An uploaded file, once bound, is found again under its upload name with its metadata and bytes.\<close>

lemma BindAttachment_found:
  assumes "store B"
  shows "\<exists>d'. BindAttachment B d upload att data = (Inr (), d')
    \<and> ResolveUpload B d' (pu_UploadFilename upload) = Inr att
    \<and> GetAttachmentData B d' (at_ID att) = Inr data"
  by (rule store.BindAttachment_resolves [OF assms])

definition demo_upload :: PendingUpload where
  "demo_upload = \<lparr>pu_Token = ''t'', pu_UploadFilename = ''u'', pu_Filename = ''a.txt'', pu_UserID = ''1'',
     pu_ChannelID = ''2'', pu_FileSize = 2, pu_CreatedAt = 0\<rparr>"

definition demo_attachment :: Attachment where
  "demo_attachment = \<lparr>at_ID = ''9'', at_Filename = ''a.txt'', at_ContentType = ''text/plain'', at_Size = 2,
     at_Width = 0, at_Height = 0, at_UploadedAt = 0\<rparr>"

lemma BindAttachment_found_witness:
  "\<exists>d'. BindAttachment mem_kv empty_db demo_upload demo_attachment ''hi'' = (Inr (), d')
    \<and> ResolveUpload mem_kv d' ''u'' = Inr demo_attachment \<and> GetAttachmentData mem_kv d' ''9'' = Inr ''hi''"
  using BindAttachment_found [OF mem_store.store_axioms, of empty_db demo_upload demo_attachment "''hi''"]
  by (simp add: demo_upload_def demo_attachment_def)

end
