(* ===== verification/Crypto.thy ===== *)
theory Crypto
  imports Decimal Sha256
begin

text \<open>
  \<open>internal/util/crypto.go\<close>: password hashes in the PHC string format and random tokens. The key
  derivation (\<open>golang.org/x/crypto/argon2\<close>) is third-party code: a parameter \<open>argon\<close> with its
  version number and \<open>IDKey\<close>. \<open>rand.Reader\<close> is a source \<open>'r\<close> of bytes that may fail. Base64 and
  the \<open>%d\<close> verb of \<open>fmt.Sscanf\<close> are Go's standard library and are written out.
\<close>

record argon =
  argon_version :: nat
  argon_IDKey :: "string \<Rightarrow> string \<Rightarrow> nat \<Rightarrow> nat \<Rightarrow> nat \<Rightarrow> nat \<Rightarrow> string"

type_synonym 'r rand = "nat \<Rightarrow> 'r \<Rightarrow> (err + string) \<times> 'r"

section \<open>Base64 without padding\<close>

definition b64_alphabet :: string where
  "b64_alphabet = ''ABCDEFGHIJKLMNOPQRSTUVWXYZabcdefghijklmnopqrstuvwxyz0123456789+/''"

definition b64_char :: "nat \<Rightarrow> char" where
  "b64_char n = b64_alphabet ! n"

definition b64_val :: "char \<Rightarrow> nat option" where
  "b64_val c = index_byte b64_alphabet c"

fun b64_encode :: "nat list \<Rightarrow> nat list" where
  "b64_encode (a # b # c # r) =
     [a div 4, (a mod 4) * 16 + b div 16, (b mod 16) * 4 + c div 64, c mod 64] @ b64_encode r"
| "b64_encode [a, b] = [a div 4, (a mod 4) * 16 + b div 16, (b mod 16) * 4]"
| "b64_encode [a] = [a div 4, (a mod 4) * 16]"
| "b64_encode [] = []"

fun b64_decode :: "nat list \<Rightarrow> nat list option" where
  "b64_decode (w # x # y # z # r) =
     map_option ((@) [w * 4 + x div 16, (x mod 16) * 16 + y div 4, (y mod 4) * 64 + z]) (b64_decode r)"
| "b64_decode [w, x, y] = Some [w * 4 + x div 16, (x mod 16) * 16 + y div 4]"
| "b64_decode [w, x] = Some [w * 4 + x div 16]"
| "b64_decode [w] = None"
| "b64_decode [] = Some []"

definition raw_encode :: "string \<Rightarrow> string" where
  "raw_encode s = map b64_char (b64_encode (map of_char s))"

definition raw_decode :: "string \<Rightarrow> err + string" where
  "raw_decode s =
     (let vs = map b64_val (filter (\<lambda>c. c \<noteq> CHR 0x0A \<and> c \<noteq> CHR 0x0D) s) in
      if list_ex (\<lambda>v. v = None) vs then Inl ErrBase64
      else case b64_decode (map the vs) of None \<Rightarrow> Inl ErrBase64 | Some bs \<Rightarrow> Inr (map char_of bs))"

section \<open>Sscanf\<close>

definition scan_lit :: "string \<Rightarrow> string \<Rightarrow> err + string" where
  "scan_lit lit s = (if has_prefix s lit then Inr (drop (length lit) s) else Inl ErrScan)"

definition scan_skip :: "string \<Rightarrow> string" where
  "scan_skip s = dropWhile (\<lambda>c. (of_char c :: nat) \<in> {9, 11, 12, 13, 32}) s"

definition scan_uint :: "nat \<Rightarrow> string \<Rightarrow> err + (nat \<times> string)" where
  "scan_uint bound s =
     (let s = scan_skip s; ds = takeWhile is_digit s in
      if ds = [] then Inl ErrScan
      else if dec_val 0 ds \<ge> bound then Inl ErrScan
      else Inr (dec_val 0 ds, dropWhile is_digit s))"

definition scan_int :: "string \<Rightarrow> err + (int \<times> string)" where
  "scan_int s =
     (let s = scan_skip s in
      case s of
        [] \<Rightarrow> Inl ErrScan
      | c # r \<Rightarrow>
          let neg = (c = CHR ''-'');
              u = (if c = CHR ''-'' \<or> c = CHR ''+'' then r else s);
              ds = takeWhile is_digit u
          in if ds = [] then Inl ErrScan
             else if dec_val 0 ds \<ge> 2 ^ 63 + (if neg then 1 else 0) then Inl ErrScan
             else Inr (if neg then - int (dec_val 0 ds) else int (dec_val 0 ds), dropWhile is_digit u))"

section \<open>Passwords and tokens\<close>

definition argonTime :: nat where "argonTime = 2"
definition argonMemory :: nat where "argonMemory = 64 * 1024"
definition argonThreads :: nat where "argonThreads = 1"
definition argonKeyLen :: nat where "argonKeyLen = 32"
definition argonSaltLen :: nat where "argonSaltLen = 16"

definition phc_string :: "nat \<Rightarrow> nat \<Rightarrow> nat \<Rightarrow> nat \<Rightarrow> string \<Rightarrow> string \<Rightarrow> string" where
  "phc_string v m t p salt key =
     ''$argon2id$v='' @ format_nat v @ ''$m='' @ format_nat m @ '',t='' @ format_nat t @ '',p='' @ format_nat p
       @ ''$'' @ salt @ ''$'' @ key"

definition HashPassword :: "argon \<Rightarrow> 'r rand \<Rightarrow> 'r \<Rightarrow> string \<Rightarrow> (err + string) \<times> 'r" where
  "HashPassword A rnd r password =
     (case rnd argonSaltLen r of
        (Inl e, r') \<Rightarrow> (Inl e, r')
      | (Inr salt, r') \<Rightarrow>
          (let key = argon_IDKey A password salt argonTime argonMemory argonThreads argonKeyLen in
           (Inr (phc_string (argon_version A) argonMemory argonTime argonThreads
                  (raw_encode salt) (raw_encode key)), r')))"

definition VerifyPassword :: "argon \<Rightarrow> string \<Rightarrow> string \<Rightarrow> err + bool" where
  "VerifyPassword A password encoded =
     (let parts = split_on (CHR ''$'') encoded in
      if length parts \<noteq> 6 \<or> parts ! 1 \<noteq> ''argon2id'' then Inl ErrHashFormat
      else
        tryb (scan_lit ''v='' (parts ! 2)) (\<lambda>s.
        tryb (scan_int s) (\<lambda>(version, _).
        if version \<noteq> int (argon_version A) then Inl ErrArgonVersion
        else
          tryb (scan_lit ''m='' (parts ! 3)) (\<lambda>s.
          tryb (scan_uint (2 ^ 32) s) (\<lambda>(memory, s).
          tryb (scan_lit '',t='' s) (\<lambda>s.
          tryb (scan_uint (2 ^ 32) s) (\<lambda>(iterations, s).
          tryb (scan_lit '',p='' s) (\<lambda>s.
          tryb (scan_uint (2 ^ 8) s) (\<lambda>(threads, s).
          tryb (raw_decode (parts ! 4)) (\<lambda>salt.
          tryb (raw_decode (parts ! 5)) (\<lambda>want.
          Inr (argon_IDKey A password salt iterations memory threads (length want mod 2 ^ 32) = want))))))))))))"

definition RandomToken :: "'r rand \<Rightarrow> 'r \<Rightarrow> nat \<Rightarrow> (err + string) \<times> 'r" where
  "RandomToken rnd r n =
     (case rnd n r of (Inl e, r') \<Rightarrow> (Inl e, r') | (Inr b, r') \<Rightarrow> (Inr (hex_encode b), r'))"


section \<open>Round trips\<close>

lemma b64_decode_encode: "\<forall>x \<in> set xs. x < 256 \<Longrightarrow> b64_decode (b64_encode xs) = Some xs"
proof (induction xs rule: b64_encode.induct)
  case (1 a b c r)
  have "a div 4 * 4 + ((a mod 4) * 16 + b div 16) div 16 = a"
    "((a mod 4) * 16 + b div 16) mod 16 * 16 + ((b mod 16) * 4 + c div 64) div 4 = b"
    "((b mod 16) * 4 + c div 64) mod 4 * 64 + c mod 64 = c"
    using 1 by auto
  with 1 show ?case by simp
next
  case (2 a b)
  then show ?case by auto
next
  case (3 a)
  then show ?case by auto
qed simp

lemma b64_encode_range: "\<forall>x \<in> set xs. x < 256 \<Longrightarrow> \<forall>y \<in> set (b64_encode xs). y < 64"
  by (induction xs rule: b64_encode.induct) auto

lemma index_byte_nth: "distinct s \<Longrightarrow> n < length s \<Longrightarrow> index_byte s (s ! n) = Some n"
proof (induction s arbitrary: n)
  case (Cons x xs)
  show ?case
  proof (cases n)
    case (Suc m)
    with Cons have "xs ! m \<noteq> x" "m < length xs" by auto
    with Cons Suc show ?thesis by auto
  qed simp
qed simp

lemma b64_alphabet_facts:
  "distinct b64_alphabet" "length b64_alphabet = 64" "CHR ''$'' \<notin> set b64_alphabet"
  "CHR 0x0A \<notin> set b64_alphabet" "CHR 0x0D \<notin> set b64_alphabet"
  by (simp_all add: b64_alphabet_def)

lemma b64_val_char: "n < 64 \<Longrightarrow> b64_val (b64_char n) = Some n"
  by (simp add: b64_val_def b64_char_def index_byte_nth b64_alphabet_facts)

lemma b64_char_in: "n < 64 \<Longrightarrow> b64_char n \<in> set b64_alphabet"
  by (simp add: b64_char_def b64_alphabet_facts)

lemma raw_encode_alphabet: "set (raw_encode s) \<subseteq> set b64_alphabet"
proof -
  have "\<forall>x \<in> set (map of_char s). (x :: nat) < 256" by auto
  then have "\<forall>y \<in> set (b64_encode (map of_char s)). y < 64" by (rule b64_encode_range)
  then show ?thesis by (auto simp: raw_encode_def b64_char_in)
qed

lemma raw_decode_encode: "raw_decode (raw_encode s) = Inr s"
proof -
  let ?ns = "map of_char s :: nat list"
  have lt: "\<forall>x \<in> set ?ns. x < 256" by auto
  note rng = b64_encode_range [OF lt]
  have "filter (\<lambda>c. c \<noteq> CHR 0x0A \<and> c \<noteq> CHR 0x0D) (raw_encode s) = raw_encode s"
    using raw_encode_alphabet [of s] b64_alphabet_facts(4,5) by (intro filter_True) auto
  moreover have "map b64_val (raw_encode s) = map Some (b64_encode ?ns)"
    using rng by (auto simp: raw_encode_def b64_val_char)
  moreover have "map (the \<circ> Some) xs = (xs :: nat list)" for xs by (simp add: comp_def)
  ultimately show ?thesis
    using b64_decode_encode [OF lt]
    by (simp add: raw_decode_def Let_def list_ex_iff comp_def)
qed

lemma split_on_head: "c \<notin> set a \<Longrightarrow> split_on c (a @ c # r) = a # split_on c r"
  by (induction a) auto

lemma split_on_last: "c \<notin> set a \<Longrightarrow> split_on c a = [a]"
  by (induction a) auto

lemma format_nat_is_digit: "c \<in> set (format_nat n) \<Longrightarrow> is_digit c"
  using format_nat_digits [of n] by (auto simp: list_all_iff)

lemma dollar_not_in_nat: "CHR ''$'' \<notin> set (format_nat n)"
  using format_nat_is_digit [of "CHR ''$''" n] by (auto simp: is_digit_def)

definition stops :: "string \<Rightarrow> bool" where
  "stops r \<longleftrightarrow> r = [] \<or> \<not> is_digit (hd r)"

lemma takeWhile_digits:
  "stops r \<Longrightarrow> takeWhile is_digit (format_nat n @ r) = format_nat n"
  "stops r \<Longrightarrow> dropWhile is_digit (format_nat n @ r) = r"
  using format_nat_is_digit [of _ n]
  by (cases r; auto simp: stops_def takeWhile_append2 dropWhile_append2)+

lemma scan_skip_nat: "scan_skip (format_nat n @ r) = format_nat n @ r"
proof -
  obtain c cs where "format_nat n = c # cs" using format_nat_digits by (cases "format_nat n") auto
  moreover from this have "is_digit c" using format_nat_is_digit [of c n] by simp
  ultimately show ?thesis by (auto simp: scan_skip_def is_digit_def)
qed

lemma scan_uint_nat: "n < b \<Longrightarrow> stops r \<Longrightarrow> scan_uint b (format_nat n @ r) = Inr (n, r)"
  using format_nat_digits [of n]
  by (simp add: scan_uint_def Let_def scan_skip_nat takeWhile_digits dec_val_format_nat)

lemma scan_int_nat:
  assumes "n < 2 ^ 63" "stops r"
  shows "scan_int (format_nat n @ r) = Inr (int n, r)"
proof -
  obtain c cs where c: "format_nat n = c # cs" using format_nat_digits by (cases "format_nat n") auto
  then have "is_digit c" using format_nat_is_digit [of c n] by simp
  then have "c \<noteq> CHR ''-''" "c \<noteq> CHR ''+''" by (auto simp: is_digit_def)
  then have "scan_int (format_nat n @ r) = (let ds = takeWhile is_digit (format_nat n @ r) in
      if ds = [] then Inl ErrScan
      else if dec_val 0 ds \<ge> 2 ^ 63 then Inl ErrScan
      else Inr (int (dec_val 0 ds), dropWhile is_digit (format_nat n @ r)))"
    by (simp add: scan_int_def scan_skip_nat c [symmetric]) (simp add: c Let_def)
  then show ?thesis using assms format_nat_digits [of n]
    by (simp add: Let_def takeWhile_digits dec_val_format_nat)
qed

lemma scan_lit_append: "scan_lit l (l @ r) = Inr r"
  by (simp add: scan_lit_def)

lemma stops_simps [simp]: "stops []" "stops (CHR '','' # r)" "stops (CHR ''$'' # r)"
  by (simp_all add: stops_def is_digit_def)

text \<open>\<open>VerifyPassword\<close> on the strings \<open>HashPassword\<close> makes.\<close>

lemma phc_parts:
  "split_on (CHR ''$'') (phc_string v m t p (raw_encode salt) (raw_encode key)) =
     [[], ''argon2id'', ''v='' @ format_nat v, ''m='' @ format_nat m @ '',t='' @ format_nat t @ '',p='' @ format_nat p,
      raw_encode salt, raw_encode key]"
proof -
  have na: "CHR ''$'' \<notin> set (raw_encode s)" for s
    using raw_encode_alphabet [of s] b64_alphabet_facts(3) by auto
  have h: "phc_string v m t p (raw_encode salt) (raw_encode key) =
      [] @ CHR ''$'' # (''argon2id'' @ CHR ''$'' # ((''v='' @ format_nat v) @ CHR ''$'' #
        ((''m='' @ format_nat m @ '',t='' @ format_nat t @ '',p='' @ format_nat p) @ CHR ''$'' #
          (raw_encode salt @ CHR ''$'' # raw_encode key))))"
    by (simp add: phc_string_def)
  have n: "CHR ''$'' \<notin> set ([] :: string)" "CHR ''$'' \<notin> set ''argon2id''" "CHR ''$'' \<notin> set (''v='' @ format_nat v)"
    "CHR ''$'' \<notin> set (''m='' @ format_nat m @ '',t='' @ format_nat t @ '',p='' @ format_nat p)"
    by (simp_all add: dollar_not_in_nat)
  show ?thesis unfolding h
    by (simp only: split_on_head [OF n(1)] split_on_head [OF n(2)] split_on_head [OF n(3)]
        split_on_head [OF n(4)] split_on_head [OF na] split_on_last [OF na])
qed

lemma VerifyPassword_phc:
  assumes "argon_version A < 2 ^ 63" "m < 2 ^ 32" "t < 2 ^ 32" "p < 2 ^ 8" "length key < 2 ^ 32"
  shows "VerifyPassword A q (phc_string (argon_version A) m t p (raw_encode salt) (raw_encode key)) =
    Inr (argon_IDKey A q salt t m p (length key) = key)"
  unfolding VerifyPassword_def phc_parts Let_def
  using assms
    scan_int_nat [of "argon_version A" "[]"]
  by (simp add: scan_lit_append [of "''v=''", simplified] scan_lit_append [of "''m=''", simplified]
      scan_lit_append [of "'',t=''", simplified] scan_lit_append [of "'',p=''", simplified]
      scan_uint_nat scan_uint_nat [of _ _ "[]", simplified] raw_decode_encode)

lemma HashPassword_verifies:
  assumes "argon_version A < 2 ^ 63"
    and "\<And>pw salt. length (argon_IDKey A pw salt argonTime argonMemory argonThreads argonKeyLen) = argonKeyLen"
    and H: "HashPassword A rnd r password = (Inr h, r')"
  shows "\<exists>salt. rnd argonSaltLen r = (Inr salt, r') \<and> (\<forall>q. VerifyPassword A q h =
    Inr (argon_IDKey A q salt argonTime argonMemory argonThreads argonKeyLen
       = argon_IDKey A password salt argonTime argonMemory argonThreads argonKeyLen))"
proof -
  obtain salt where s: "rnd argonSaltLen r = (Inr salt, r')"
    and h: "h = phc_string (argon_version A) argonMemory argonTime argonThreads (raw_encode salt)
        (raw_encode (argon_IDKey A password salt argonTime argonMemory argonThreads argonKeyLen))"
    using H by (auto simp: HashPassword_def Let_def split: prod.splits sum.splits)
  let ?k = "argon_IDKey A password salt argonTime argonMemory argonThreads argonKeyLen"
  have len: "length ?k = argonKeyLen" by (rule assms(2))
  have "VerifyPassword A q h = Inr (argon_IDKey A q salt argonTime argonMemory argonThreads (length ?k) = ?k)" for q
    unfolding h by (rule VerifyPassword_phc)
      (use assms(1) len in \<open>auto simp: argonMemory_def argonTime_def argonThreads_def argonKeyLen_def\<close>)
  with s len show ?thesis by auto
qed

section \<open>Properties\<close>

text \<open>A password hash verifies: the string \<open>HashPassword\<close> returns parses back, and \<open>VerifyPassword\<close>
  accepts a password for it exactly when it derives the key of the hashed one under the same salt.\<close>

lemma HashPassword_Verify:
  assumes "argon_version A < 2 ^ 63"
    and "\<And>pw salt. length (argon_IDKey A pw salt argonTime argonMemory argonThreads argonKeyLen) = argonKeyLen"
    and "HashPassword A rnd r password = (Inr h, r')"
  shows "\<exists>salt. rnd argonSaltLen r = (Inr salt, r') \<and> (\<forall>q. VerifyPassword A q h =
    Inr (argon_IDKey A q salt argonTime argonMemory argonThreads argonKeyLen
       = argon_IDKey A password salt argonTime argonMemory argonThreads argonKeyLen))"
  by (rule HashPassword_verifies [OF assms])

definition demo_argon :: argon where
  "demo_argon = \<lparr>argon_version = 19, argon_IDKey = (\<lambda>pw salt t m p n. take n (pw @ salt @ replicate n (CHR 0x00)))\<rparr>"

lemma HashPassword_Verify_witness:
  "\<exists>h r'. HashPassword demo_argon (\<lambda>n r. (Inr (replicate n (CHR ''r'')), r)) () ''secret'' = (Inr h, r')
    \<and> VerifyPassword demo_argon ''secret'' h = Inr True \<and> VerifyPassword demo_argon ''guess'' h = Inr False"
proof -
  have len: "length (argon_IDKey demo_argon pw salt argonTime argonMemory argonThreads argonKeyLen) = argonKeyLen" for pw salt
    by (simp add: demo_argon_def)
  let ?rnd = "\<lambda>n r. (Inr (replicate n (CHR ''r'')), r) :: (err + string) \<times> unit"
  obtain h where h: "HashPassword demo_argon ?rnd () ''secret'' = (Inr h, ())"
    by (simp add: HashPassword_def Let_def)
  have "argon_version demo_argon < 2 ^ 63" by (simp add: demo_argon_def)
  from HashPassword_Verify [OF this len h] obtain salt where
    "VerifyPassword demo_argon q h = Inr (argon_IDKey demo_argon q salt argonTime argonMemory argonThreads argonKeyLen
       = argon_IDKey demo_argon ''secret'' salt argonTime argonMemory argonThreads argonKeyLen)" for q by blast
  then have "VerifyPassword demo_argon ''secret'' h = Inr True" "VerifyPassword demo_argon ''guess'' h = Inr False"
    by (simp_all add: demo_argon_def argonKeyLen_def)
  with h show ?thesis by blast
qed

end
