(* ===== verification/Auth.thy ===== *)
theory Auth
  imports UserStore Snowflake Crypto
begin

text \<open>
  \<open>internal/discord/auth/auth.go\<close>: accounts and login tokens. The service state is the record
  \<open>auth\<close>; a handler takes it with the clock reading of the call (nanoseconds) and returns it
  updated. The database, the key derivation and the random source are the parameters of
  \<open>Badger\<close> and \<open>Crypto\<close>.
\<close>

record ('d, 'r) auth =
  au_db :: 'd
  au_sf :: Snowflake
  au_registration :: string
  au_adminKey :: string
  au_rand :: 'r

definition username_ok :: "string \<Rightarrow> bool" where
  "username_ok s = (2 \<le> length s \<and> length s \<le> 32 \<and>
     list_all (\<lambda>c. (97 \<le> (of_char c :: nat) \<and> (of_char c :: nat) \<le> 122) \<or> is_digit c
       \<or> c = CHR ''.'' \<or> c = CHR ''_'') s)"

definition re_space :: "char \<Rightarrow> bool" where
  "re_space c = ((of_char c :: nat) \<in> {9, 10, 12, 13, 32})"

text \<open>\<open>^[^@\s]+@[^@\s]+\.[^@\s]+$\<close>: one at sign, and a dot strictly inside what follows it.\<close>

definition email_ok :: "string \<Rightarrow> bool" where
  "email_ok s = (case index_byte s (CHR ''@'') of
     None \<Rightarrow> False
   | Some i \<Rightarrow> (let l = take i s; r = drop (i + 1) s in
       l \<noteq> [] \<and> list_all (\<lambda>c. \<not> re_space c) l \<and> list_all (\<lambda>c. c \<noteq> CHR ''@'' \<and> \<not> re_space c) r
       \<and> CHR ''.'' \<in> set (butlast (tl r))))"

definition AdminAuthorized :: "('d, 'r) auth \<Rightarrow> string \<Rightarrow> bool" where
  "AdminAuthorized s headerKey = (if length (au_adminKey s) = 0 then False else headerKey = au_adminKey s)"

definition SetAdminKey :: "('d, 'r) auth \<Rightarrow> string \<Rightarrow> ('d, 'r) auth" where
  "SetAdminKey s key = s\<lparr>au_adminKey := hex_encode key\<rparr>"

definition newSession ::
  "'d store \<Rightarrow> 'r rand \<Rightarrow> ('d, 'r) auth \<Rightarrow> string \<Rightarrow> time \<Rightarrow> (err + string) \<times> ('d, 'r) auth" where
  "newSession B rnd s userID now =
     (case RandomToken rnd (au_rand s) 32 of
        (Inl e, r) \<Rightarrow> (Inl e, s\<lparr>au_rand := r\<rparr>)
      | (Inr token, r) \<Rightarrow>
          (case CreateSession B (au_db s) \<lparr>ss_TokenHash = SHA256Hex token, ss_UserID = userID,
                  ss_CreatedAt = now, ss_LastSeen = now\<rparr> of
             (Inl e, d) \<Rightarrow> (Inl e, s\<lparr>au_rand := r, au_db := d\<rparr>)
           | (Inr _, d) \<Rightarrow> (Inr token, s\<lparr>au_rand := r, au_db := d\<rparr>)))"

text \<open>The two uniqueness guards of the account handlers.\<close>

definition check_free :: "'d store \<Rightarrow> 'd \<Rightarrow> string \<Rightarrow> string \<Rightarrow> err option" where
  "check_free B d username email =
     (case GetUserByUsername B d username of
        Inr _ \<Rightarrow> Some ErrUsernameTaken
      | Inl e \<Rightarrow>
        if e \<noteq> ErrNotFound then Some e
        else case GetUserByEmail B d email of
          Inr _ \<Rightarrow> Some ErrEmailTaken
        | Inl e \<Rightarrow> if e \<noteq> ErrNotFound then Some e else None)"

definition CreateUserAdmin ::
  "'d store \<Rightarrow> argon \<Rightarrow> 'r rand \<Rightarrow> ('d, 'r) auth \<Rightarrow> string \<Rightarrow> string \<Rightarrow> string \<Rightarrow> bool \<Rightarrow> time \<Rightarrow>
     (err + User) \<times> ('d, 'r) auth" where
  "CreateUserAdmin B A rnd s username email password forceAdmin now =
     (let username = trim_space (to_lower username);
          email = to_lower (trim_space email) in
      if \<not> username_ok username then (Inl ErrInvalidUsername, s)
      else if \<not> email_ok email then (Inl ErrInvalidEmail, s)
      else if length password < 8 \<or> length password > 128 then (Inl ErrInvalidPassword, s)
      else case check_free B (au_db s) username email of
        Some e \<Rightarrow> (Inl e, s)
      | None \<Rightarrow>
        (case HashPassword A rnd (au_rand s) password of
           (Inl e, r) \<Rightarrow> (Inl e, s\<lparr>au_rand := r\<rparr>)
         | (Inr hash, r) \<Rightarrow>
           (case UserCount B (au_db s) of
              Inl e \<Rightarrow> (Inl e, s\<lparr>au_rand := r\<rparr>)
            | Inr count \<Rightarrow>
              (let (i, sf) = New (au_sf s) (now div 1000000);
                   u = \<lparr>u_ID = i, u_Username = username, u_Email = email, u_PassHash = hash,
                        u_IsAdmin = (forceAdmin \<or> count = 0), u_Avatar = [], u_CreatedAt = now\<rparr>
               in case CreateUser B (au_db s) u of
                    (Inl e, d) \<Rightarrow> (Inl e, s\<lparr>au_rand := r, au_sf := sf, au_db := d\<rparr>)
                  | (Inr _, d) \<Rightarrow> (Inr u, s\<lparr>au_rand := r, au_sf := sf, au_db := d\<rparr>)))))"

definition Register ::
  "'d store \<Rightarrow> argon \<Rightarrow> 'r rand \<Rightarrow> ('d, 'r) auth \<Rightarrow> string \<Rightarrow> string \<Rightarrow> string \<Rightarrow> time \<Rightarrow>
     (err + (User \<times> string)) \<times> ('d, 'r) auth" where
  "Register B A rnd s username email password now =
     (if au_registration s = ''closed'' then (Inl ErrRegistrationClosed, s)
      else
        let username = trim_space username;
            email = to_lower (trim_space email) in
        if \<not> username_ok username then (Inl ErrInvalidUsername, s)
        else if \<not> email_ok email then (Inl ErrInvalidEmail, s)
        else if length password < 8 \<or> length password > 128 then (Inl ErrInvalidPassword, s)
        else case check_free B (au_db s) username email of
          Some e \<Rightarrow> (Inl e, s)
        | None \<Rightarrow>
          (case HashPassword A rnd (au_rand s) password of
             (Inl e, r) \<Rightarrow> (Inl e, s\<lparr>au_rand := r\<rparr>)
           | (Inr hash, r) \<Rightarrow>
             (let (i, sf) = New (au_sf s) (now div 1000000);
                  u = \<lparr>u_ID = i, u_Username = username, u_Email = email, u_PassHash = hash,
                       u_IsAdmin = False, u_Avatar = [], u_CreatedAt = now\<rparr>;
                  s = s\<lparr>au_rand := r, au_sf := sf\<rparr>
              in case CreateUser B (au_db s) u of
                   (Inl e, d) \<Rightarrow> (Inl e, s\<lparr>au_db := d\<rparr>)
                 | (Inr _, d) \<Rightarrow>
                   (case newSession B rnd (s\<lparr>au_db := d\<rparr>) (u_ID u) now of
                      (Inl e, s) \<Rightarrow> (Inl e, s)
                    | (Inr token, s) \<Rightarrow> (Inr (u, token), s)))))"

definition find_login :: "'d store \<Rightarrow> 'd \<Rightarrow> string \<Rightarrow> err + User" where
  "find_login B d login =
     (case GetUserByEmail B d login of
        Inl e \<Rightarrow> if e = ErrNotFound then GetUserByUsername B d login else Inl e
      | Inr u \<Rightarrow> Inr u)"

definition Login ::
  "'d store \<Rightarrow> argon \<Rightarrow> 'r rand \<Rightarrow> ('d, 'r) auth \<Rightarrow> string \<Rightarrow> string \<Rightarrow> time \<Rightarrow>
     (err + (User \<times> string)) \<times> ('d, 'r) auth" where
  "Login B A rnd s login password now =
     (case find_login B (au_db s) (trim_space login) of
        Inl _ \<Rightarrow> (Inl ErrInvalidCredentials, s)
      | Inr u \<Rightarrow>
        (case VerifyPassword A password (u_PassHash u) of
           Inl _ \<Rightarrow> (Inl ErrInvalidCredentials, s)
         | Inr ok \<Rightarrow>
           if \<not> ok then (Inl ErrInvalidCredentials, s)
           else (case newSession B rnd s (u_ID u) now of
                   (Inl e, s) \<Rightarrow> (Inl e, s)
                 | (Inr token, s) \<Rightarrow> (Inr (u, token), s))))"

definition Logout :: "'d store \<Rightarrow> ('d, 'r) auth \<Rightarrow> string \<Rightarrow> (err + unit) \<times> ('d, 'r) auth" where
  "Logout B s token =
     (let (r, d) = DeleteSession B (au_db s) (SHA256Hex token) in (r, s\<lparr>au_db := d\<rparr>))"

definition ValidateToken ::
  "'d store \<Rightarrow> ('d, 'r) auth \<Rightarrow> string \<Rightarrow> time \<Rightarrow> (err + User) \<times> ('d, 'r) auth" where
  "ValidateToken B s token now =
     (let hash = SHA256Hex token in
      case GetSession B (au_db s) hash of
        Inl _ \<Rightarrow> (Inl ErrInvalidCredentials, s)
      | Inr sess \<Rightarrow>
        (case GetUserByID B (au_db s) (ss_UserID sess) of
           Inl _ \<Rightarrow> (Inl ErrInvalidCredentials, s)
         | Inr u \<Rightarrow>
           (case TouchSession B (au_db s) hash now of
              (Inl e, d) \<Rightarrow> (Inl e, s\<lparr>au_db := d\<rparr>)
            | (Inr _, d) \<Rightarrow> (Inr u, s\<lparr>au_db := d\<rparr>))))"

section \<open>Accounts\<close>

text \<open>The sessions of the database, by token hash.\<close>

definition session_of :: "'d store \<Rightarrow> 'd \<Rightarrow> string \<Rightarrow> SessionRow option" where
  "session_of B d hash = (case content B d (sessionKey hash) of Some (VSession s) \<Rightarrow> Some s | _ \<Rightarrow> None)"

context store
begin

lemma GetSession_of: "GetSession B d h = Inr s \<longleftrightarrow> session_of B d h = Some s"
  by (auto simp: GetSession_def get_as_content as_Inr session_of_def split: option.splits dbval.splits)

lemma CreateSession_content:
  "\<exists>d'. CreateSession B d s = (Inr (), d') \<and> content B d' = (content B d)(sessionKey (ss_TokenHash s) \<mapsto> VSession s)"
proof -
  obtain d' where d': "txn_set B d (sessionKey (ss_TokenHash s)) (VSession s) = Inr d'" using set_total by blast
  then show ?thesis using content_set [OF d'] by (simp add: CreateSession_def update_live)
qed

lemma DeleteSession_content:
  "\<exists>d'. DeleteSession B d h = (Inr (), d') \<and> content B d' = (content B d)(sessionKey h := None)"
proof -
  obtain d' where d': "txn_delete B d (sessionKey h) = Inr d'" using delete_total by blast
  then show ?thesis using content_delete [OF d'] by (simp add: DeleteSession_def update_live)
qed

text \<open>Changes outside the user keys keep the table.\<close>

lemma users_cong:
  assumes "\<And>i. content B d' (userKey i) = content B d (userKey i)"
    and "\<And>n. content B d' (userNameKey n) = content B d (userNameKey n)"
    and "\<And>m. content B d' (userEmailKey m) = content B d (userEmailKey m)"
  shows "users_wf B d' = users_wf B d" "user_row B d' u = user_row B d u"
  using assms by (simp_all add: users_wf_def user_row_def)

lemma ValidateToken_session:
  assumes wf: "users_wf B (au_db s)" and u: "user_row B (au_db s) u"
    and sess: "session_of B (au_db s) (SHA256Hex token) = Some sess" "ss_UserID sess = u_ID u"
  shows "\<exists>d'. ValidateToken B s token now = (Inr u, s\<lparr>au_db := d'\<rparr>) \<and>
    content B d' = (content B (au_db s))(sessionKey (SHA256Hex token) \<mapsto> VSession (sess\<lparr>ss_LastSeen := now\<rparr>))"
proof -
  let ?d = "au_db s" and ?h = "SHA256Hex token"
  have c: "content B ?d (sessionKey ?h) = Some (VSession sess)"
    using sess(1) by (auto simp: session_of_def split: option.splits dbval.splits)
  obtain d' where d': "txn_set B ?d (sessionKey ?h) (VSession (sess\<lparr>ss_LastSeen := now\<rparr>)) = Inr d'"
    using set_total by blast
  have "get_as B as_session ?d (sessionKey ?h) = Inr sess" using c by (simp add: get_as_content as_Inr)
  then have "TouchSession B ?d ?h now = (Inr (), d')" using d' by (simp add: TouchSession_def update_live)
  moreover have "GetSession B ?d ?h = Inr sess" using sess(1) by (simp add: GetSession_of)
  moreover have "GetUserByID B ?d (ss_UserID sess) = Inr u" using u sess(2) by (simp add: GetUserByID_row [OF wf])
  ultimately show ?thesis using content_set [OF d']
    by (intro exI [of _ d']) (simp add: ValidateToken_def Let_def)
qed

lemma ValidateToken_none:
  "session_of B (au_db s) (SHA256Hex token) = None \<Longrightarrow> ValidateToken B s token now = (Inl ErrInvalidCredentials, s)"
  using GetSession_of [of "au_db s" "SHA256Hex token"]
  by (cases "GetSession B (au_db s) (SHA256Hex token)") (auto simp: ValidateToken_def Let_def)

lemma newSession_live:
  assumes "newSession B rnd s userID now = (Inr token, s')"
  shows "content B (au_db s') = (content B (au_db s))(sessionKey (SHA256Hex token) \<mapsto>
      VSession \<lparr>ss_TokenHash = SHA256Hex token, ss_UserID = userID, ss_CreatedAt = now, ss_LastSeen = now\<rparr>)"
proof -
  obtain r where r: "RandomToken rnd (au_rand s) 32 = (Inr token, r)"
    using assms by (auto simp: newSession_def split: prod.splits sum.splits)
  let ?row = "\<lparr>ss_TokenHash = SHA256Hex token, ss_UserID = userID, ss_CreatedAt = now, ss_LastSeen = now\<rparr>"
  obtain d' where "CreateSession B (au_db s) ?row = (Inr (), d')"
    "content B d' = (content B (au_db s))(sessionKey (SHA256Hex token) \<mapsto> VSession ?row)"
    using CreateSession_content [of "au_db s" ?row] by auto
  with assms r show ?thesis by (auto simp: newSession_def)
qed

lemma check_free_iff:
  assumes wf: "users_wf B d"
  shows "check_free B d n m = None \<longleftrightarrow>
    (\<forall>u. user_row B d u \<longrightarrow> \<not> equal_fold (u_Username u) n \<and> \<not> equal_fold (u_Email u) m)"
proof
  assume "check_free B d n m = None"
  then have "\<forall>u. GetUserByUsername B d n \<noteq> Inr u" "\<forall>u. GetUserByEmail B d m \<noteq> Inr u"
    by (auto simp: check_free_def split: sum.splits if_splits)
  then show "\<forall>u. user_row B d u \<longrightarrow> \<not> equal_fold (u_Username u) n \<and> \<not> equal_fold (u_Email u) m"
    using GetUserByUsername_row [OF wf] GetUserByEmail_row [OF wf] by blast
next
  assume free: "\<forall>u. user_row B d u \<longrightarrow> \<not> equal_fold (u_Username u) n \<and> \<not> equal_fold (u_Email u) m"
  have "GetUserByUsername B d n = Inl ErrNotFound"
    using free by (simp add: GetUserByUsername_def get_as_missing name_free [OF wf])
  moreover have "GetUserByEmail B d m = Inl ErrNotFound"
    using free by (simp add: GetUserByEmail_def get_as_missing email_free [OF wf])
  ultimately show "check_free B d n m = None" by (simp add: check_free_def)
qed

end

section \<open>Registration, login and logout\<close>

definition new_user :: "string \<Rightarrow> string \<Rightarrow> string \<Rightarrow> string \<Rightarrow> time \<Rightarrow> User" where
  "new_user i username email hash now = \<lparr>u_ID = i, u_Username = username, u_Email = email,
     u_PassHash = hash, u_IsAdmin = False, u_Avatar = [], u_CreatedAt = now\<rparr>"

lemma new_user_sel [simp]:
  "u_ID (new_user i n m h t) = i" "u_Username (new_user i n m h t) = n" "u_Email (new_user i n m h t) = m"
  "u_PassHash (new_user i n m h t) = h" "u_IsAdmin (new_user i n m h t) = False"
  by (simp_all add: new_user_def)

text \<open>What a successful registration has done.\<close>

lemma Register_Inr:
  assumes "Register B A rnd s username email password now = (Inr (u, token), s')"
  obtains hash r i sf d where
    "au_registration s \<noteq> ''closed''" "username_ok (trim_space username)"
    "email_ok (to_lower (trim_space email))" "8 \<le> length password" "length password \<le> 128"
    "check_free B (au_db s) (trim_space username) (to_lower (trim_space email)) = None"
    "HashPassword A rnd (au_rand s) password = (Inr hash, r)" "New (au_sf s) (now div 1000000) = (i, sf)"
    "u = new_user i (trim_space username) (to_lower (trim_space email)) hash now"
    "CreateUser B (au_db s) u = (Inr (), d)"
    "newSession B rnd (s\<lparr>au_rand := r, au_sf := sf, au_db := d\<rparr>) (u_ID u) now = (Inr token, s')"
proof -
  define n where "n = trim_space username"
  define m where "m = to_lower (trim_space email)"
  obtain i sf where N: "New (au_sf s) (now div 1000000) = (i, sf)" by (cases "New (au_sf s) (now div 1000000)")
  have g: "au_registration s \<noteq> ''closed''" "username_ok n" "email_ok m" "8 \<le> length password"
    "length password \<le> 128" "check_free B (au_db s) n m = None"
    using assms unfolding Register_def Let_def n_def [symmetric] m_def [symmetric]
    by (auto split: if_splits option.splits)
  obtain hash r where H: "HashPassword A rnd (au_rand s) password = (Inr hash, r)"
  proof (cases "HashPassword A rnd (au_rand s) password")
    case (Pair x r)
    show thesis
    proof (cases x)
      case (Inl e)
      with Pair g assms have False unfolding Register_def Let_def n_def [symmetric] m_def [symmetric] by simp
      then show thesis ..
    next
      case (Inr hash)
      with Pair that show thesis by simp
    qed
  qed
  have R: "(case CreateUser B (au_db s) (new_user i n m hash now) of
        (Inl e, d) \<Rightarrow> (Inl e, s\<lparr>au_rand := r, au_sf := sf, au_db := d\<rparr>)
      | (Inr _, d) \<Rightarrow>
        (case newSession B rnd (s\<lparr>au_rand := r, au_sf := sf, au_db := d\<rparr>) (u_ID (new_user i n m hash now)) now of
           (Inl e, s) \<Rightarrow> (Inl e, s)
         | (Inr token, s) \<Rightarrow> (Inr (new_user i n m hash now, token), s))) = (Inr (u, token), s')"
    using assms g H unfolding Register_def Let_def n_def [symmetric] m_def [symmetric] N new_user_def by simp
  then obtain d where C: "CreateUser B (au_db s) (new_user i n m hash now) = (Inr (), d)"
    by (auto split: prod.splits sum.splits)
  from R C have S: "newSession B rnd (s\<lparr>au_rand := r, au_sf := sf, au_db := d\<rparr>) i now = (Inr token, s')"
    and u: "u = new_user i n m hash now"
    by (auto split: prod.splits sum.splits)
  show thesis
    by (rule that [of hash r i sf d]) (use g N H C S u in \<open>auto simp: n_def m_def\<close>)
qed

context store
begin

lemma Register_state:
  assumes wf: "users_wf B (au_db s)"
    and fresh: "content B (au_db s) (userKey (fst (New (au_sf s) (now div 1000000)))) = None"
    and R: "Register B A rnd s username email password now = (Inr (u, token), s')"
  shows "users_wf B (au_db s')" "\<And>v. user_row B (au_db s') v \<longleftrightarrow> v = u \<or> user_row B (au_db s) v"
    "session_of B (au_db s') (SHA256Hex token) = Some \<lparr>ss_TokenHash = SHA256Hex token, ss_UserID = u_ID u,
        ss_CreatedAt = now, ss_LastSeen = now\<rparr>"
    "u_Username u = trim_space username" "u_Email u = to_lower (trim_space email)"
    "\<exists>r. HashPassword A rnd (au_rand s) password = (Inr (u_PassHash u), r)"
proof -
  obtain hash r i sf d where g:
    "check_free B (au_db s) (trim_space username) (to_lower (trim_space email)) = None"
    "HashPassword A rnd (au_rand s) password = (Inr hash, r)" "New (au_sf s) (now div 1000000) = (i, sf)"
    and u: "u = new_user i (trim_space username) (to_lower (trim_space email)) hash now"
    and C: "CreateUser B (au_db s) u = (Inr (), d)"
    and S: "newSession B rnd (s\<lparr>au_rand := r, au_sf := sf, au_db := d\<rparr>) (u_ID u) now = (Inr token, s')"
    using Register_Inr [OF R] by metis
  have free: "\<not> equal_fold (u_Username w) (u_Username u) \<and> \<not> equal_fold (u_Email w) (u_Email u)"
    if "user_row B (au_db s) w" for w
    using g(1) that u by (simp add: check_free_iff [OF wf])
  have i0: "content B (au_db s) (userKey (u_ID u)) = None" using fresh g(3) u by simp
  obtain d' where "CreateUser B (au_db s) u = (Inr (), d')" and wf': "users_wf B d'"
    and rows: "\<forall>v. user_row B d' v \<longleftrightarrow> v = u \<or> user_row B (au_db s) v"
    using CreateUser_new [OF wf i0 free] by blast
  with C have d: "d' = d" by simp
  note c = newSession_live [OF S, simplified]
  show "users_wf B (au_db s')" using wf' d users_cong(1) [of "au_db s'" d] by (simp add: c)
  show "user_row B (au_db s') v \<longleftrightarrow> v = u \<or> user_row B (au_db s) v" for v
    using rows d users_cong(2) [of "au_db s'" d] by (simp add: c)
  show "session_of B (au_db s') (SHA256Hex token) = Some \<lparr>ss_TokenHash = SHA256Hex token, ss_UserID = u_ID u,
        ss_CreatedAt = now, ss_LastSeen = now\<rparr>"
    by (simp add: session_of_def c)
  show "u_Username u = trim_space username" "u_Email u = to_lower (trim_space email)"
    "\<exists>r. HashPassword A rnd (au_rand s) password = (Inr (u_PassHash u), r)"
    using u g(2) by auto
qed

lemma Logout_state:
  "\<exists>d'. Logout B s token = (Inr (), s\<lparr>au_db := d'\<rparr>) \<and>
     content B d' = (content B (au_db s))(sessionKey (SHA256Hex token) := None)"
  using DeleteSession_content [of "au_db s" "SHA256Hex token"] by (auto simp: Logout_def Let_def)

lemma find_login_row:
  assumes wf: "users_wf B d" and u: "user_row B d u" "equal_fold (u_Email u) l"
  shows "find_login B d l = Inr u"
  using u GetUserByEmail_row [OF wf, of l u] by (simp add: find_login_def)

lemma Login_Inr:
  assumes "Login B A rnd s login password now = (Inr (u, token), s')"
  shows "find_login B (au_db s) (trim_space login) = Inr u" "VerifyPassword A password (u_PassHash u) = Inr True"
    "newSession B rnd s (u_ID u) now = (Inr token, s')"
  using assms by (auto simp: Login_def split: sum.splits if_splits prod.splits)

lemma Login_Inl:
  "find_login B (au_db s) (trim_space login) = Inl e \<Longrightarrow> Login B A rnd s login password now = (Inl ErrInvalidCredentials, s)"
  "find_login B (au_db s) (trim_space login) = Inr u \<Longrightarrow> VerifyPassword A password (u_PassHash u) \<noteq> Inr True \<Longrightarrow>
     Login B A rnd s login password now = (Inl ErrInvalidCredentials, s)"
  by (auto simp: Login_def split: sum.splits)

end

section \<open>A registration that succeeds\<close>

definition steady :: "'r rand \<Rightarrow> bool" where
  "steady rnd \<longleftrightarrow> (\<forall>n r. \<exists>b r'. rnd n r = (Inr b, r'))"

context store
begin

lemma newSession_steady:
  assumes "steady rnd"
  shows "\<exists>token s'. newSession B rnd s userID now = (Inr token, s')"
proof -
  obtain b r' where "rnd 32 (au_rand s) = (Inr b, r')" using assms unfolding steady_def by blast
  moreover obtain d where "CreateSession B (au_db s) \<lparr>ss_TokenHash = SHA256Hex (hex_encode b), ss_UserID = userID,
      ss_CreatedAt = now, ss_LastSeen = now\<rparr> = (Inr (), d)" using CreateSession_content by blast
  ultimately show ?thesis by (simp add: newSession_def RandomToken_def)
qed

lemma Register_steady:
  assumes wf: "users_wf B (au_db s)" and rnd: "steady rnd"
    and fresh: "content B (au_db s) (userKey (fst (New (au_sf s) (now div 1000000)))) = None"
    and g: "au_registration s \<noteq> ''closed''" "username_ok (trim_space username)"
      "email_ok (to_lower (trim_space email))" "8 \<le> length password" "length password \<le> 128"
      "check_free B (au_db s) (trim_space username) (to_lower (trim_space email)) = None"
  shows "\<exists>u token s'. Register B A rnd s username email password now = (Inr (u, token), s')"
proof -
  obtain i sf where N: "New (au_sf s) (now div 1000000) = (i, sf)" by (cases "New (au_sf s) (now div 1000000)")
  obtain hash r where H: "HashPassword A rnd (au_rand s) password = (Inr hash, r)"
    using rnd unfolding steady_def HashPassword_def Let_def by (metis (no_types, lifting) case_prod_conv sum.case(2))
  define u where "u = new_user i (trim_space username) (to_lower (trim_space email)) hash now"
  obtain d where C: "CreateUser B (au_db s) u = (Inr (), d)"
    using CreateUser_new [OF wf, of u] fresh g(6) N by (auto simp: u_def check_free_iff [OF wf])
  obtain token s' where S: "newSession B rnd (s\<lparr>au_rand := r, au_sf := sf, au_db := d\<rparr>) (u_ID u) now = (Inr token, s')"
    using newSession_steady [OF rnd] by blast
  show ?thesis
    using g H C S unfolding Register_def Let_def N u_def new_user_def by simp
qed

end

section \<open>Properties\<close>

definition demo_rand :: "nat rand" where
  "demo_rand n r = (Inr (replicate n (CHR ''r'')), r + 1)"

definition demo_auth :: "((string, dbval) rbt, nat) auth" where
  "demo_auth = \<lparr>au_db = empty_db, au_sf = NewSnowflake 1 1, au_registration = ''open'', au_adminKey = [], au_rand = 0\<rparr>"

lemma demo_auth: "users_wf mem_kv (au_db demo_auth)" "steady demo_rand" "content mem_kv (au_db demo_auth) k = None"
  by (simp_all add: users_wf_def demo_auth_def steady_def demo_rand_def)

lemma demo_argon:
  "argon_version demo_argon < 2 ^ 63"
  "length (argon_IDKey demo_argon pw salt argonTime argonMemory argonThreads argonKeyLen) = argonKeyLen"
  by (simp_all add: demo_argon_def)

lemma demo_register:
  "\<exists>u token s'. Register mem_kv demo_argon demo_rand demo_auth ''alice'' ''alice@example.org'' ''correct horse'' 0 = (Inr (u, token), s')"
proof (rule mem_store.Register_steady)
  show "check_free mem_kv (au_db demo_auth) (trim_space ''alice'') (to_lower (trim_space ''alice@example.org'')) = None"
    using mem_store.check_free_iff [OF demo_auth(1)] demo_auth(3) by (simp add: user_row_def)
  show "username_ok (trim_space ''alice'')" "email_ok (to_lower (trim_space ''alice@example.org''))"
    by code_simp+
  show "au_registration demo_auth \<noteq> ''closed''" by (simp add: demo_auth_def)
qed (rule demo_auth demo_auth(3) | simp)+

text \<open>C17: After a successful registration the returned token authenticates exactly the new user, the new
  user is the only row added to the user table, and the table keeps its invariant (no two users share a
  name or an email up to case).\<close>

lemma Register_authenticates:
  assumes "store B" "users_wf B (au_db s)"
    and "content B (au_db s) (userKey (fst (New (au_sf s) (now div 1000000)))) = None"
    and "Register B A rnd s username email password now = (Inr (u, token), s')"
  shows "fst (ValidateToken B s' token later) = Inr u \<and> users_wf B (au_db s')
    \<and> (\<forall>v. user_row B (au_db s') v \<longleftrightarrow> v = u \<or> user_row B (au_db s) v)"
proof -
  note R = store.Register_state [OF assms]
  have "user_row B (au_db s') u" by (simp add: R(2))
  from store.ValidateToken_session [OF assms(1) R(1) this R(3), of later]
  have "fst (ValidateToken B s' token later) = Inr u" by auto
  with R(1,2) show ?thesis by blast
qed

lemma Register_authenticates_witness:
  "\<exists>u token s'. Register mem_kv demo_argon demo_rand demo_auth ''alice'' ''alice@example.org'' ''correct horse'' 0 = (Inr (u, token), s')
    \<and> fst (ValidateToken mem_kv s' token 5) = Inr u"
proof -
  obtain u token s' where
    R: "Register mem_kv demo_argon demo_rand demo_auth ''alice'' ''alice@example.org'' ''correct horse'' 0 = (Inr (u, token), s')"
    using demo_register by blast
  show ?thesis
    using Register_authenticates [OF mem_store.store_axioms demo_auth(1) demo_auth(3) R, of 5] R by blast
qed

text \<open>After a successful registration, logging in with the registered email (in any case, with
  surrounding space) opens a session for that user exactly when the password derives the registered
  password's key; any other password is refused and changes nothing.\<close>

lemma Register_Login:
  assumes "store B" "users_wf B (au_db s)"
    and "content B (au_db s) (userKey (fst (New (au_sf s) (now div 1000000)))) = None"
    and "Register B A rnd s username email password now = (Inr (u, token), s')"
    and "argon_version A < 2 ^ 63"
    and "\<And>pw salt. length (argon_IDKey A pw salt argonTime argonMemory argonThreads argonKeyLen) = argonKeyLen"
    and "equal_fold (trim_space login) (trim_space email)"
  shows "\<exists>salt. \<forall>q. Login B A rnd s' login q later =
    (if argon_IDKey A q salt argonTime argonMemory argonThreads argonKeyLen
          = argon_IDKey A password salt argonTime argonMemory argonThreads argonKeyLen
     then (case newSession B rnd s' (u_ID u) later of
             (Inl e, s2) \<Rightarrow> (Inl e, s2) | (Inr tok, s2) \<Rightarrow> (Inr (u, tok), s2))
     else (Inl ErrInvalidCredentials, s'))"
proof -
  note R = store.Register_state [OF assms(1-4)]
  obtain r where "HashPassword A rnd (au_rand s) password = (Inr (u_PassHash u), r)" using R(6) by blast
  from HashPassword_verifies [OF assms(5,6) this]
  obtain salt where V: "\<And>q. VerifyPassword A q (u_PassHash u) =
    Inr (argon_IDKey A q salt argonTime argonMemory argonThreads argonKeyLen
       = argon_IDKey A password salt argonTime argonMemory argonThreads argonKeyLen)" by blast
  have "equal_fold (u_Email u) (trim_space login)" using assms(7) R(5) by (simp add: equal_fold_def)
  then have "find_login B (au_db s') (trim_space login) = Inr u"
    using R(2) by (intro store.find_login_row [OF assms(1) R(1)]) auto
  then show ?thesis by (intro exI [of _ salt]) (simp add: Login_def V)
qed

lemma Register_Login_witness:
  "\<exists>u token s'. Register mem_kv demo_argon demo_rand demo_auth ''alice'' ''alice@example.org'' ''correct horse'' 0 = (Inr (u, token), s')
    \<and> (\<exists>tok s2. Login mem_kv demo_argon demo_rand s' '' ALICE@example.org'' ''correct horse'' 5 = (Inr (u, tok), s2))"
proof -
  obtain u token s' where
    R: "Register mem_kv demo_argon demo_rand demo_auth ''alice'' ''alice@example.org'' ''correct horse'' 0 = (Inr (u, token), s')"
    using demo_register by blast
  obtain tok s2 where S: "newSession mem_kv demo_rand s' (u_ID u) 5 = (Inr tok, s2)"
    using mem_store.newSession_steady [OF demo_auth(2)] by blast
  have "equal_fold (trim_space '' ALICE@example.org'') (trim_space ''alice@example.org'')" by code_simp
  from Register_Login [OF mem_store.store_axioms demo_auth(1) demo_auth(3) R demo_argon this, of 5]
  have "Login mem_kv demo_argon demo_rand s' '' ALICE@example.org'' ''correct horse'' 5 = (Inr (u, tok), s2)"
    using S by auto
  with R show ?thesis by blast
qed

text \<open>A logged-out token authenticates nobody; every other session of the database stays live.\<close>

lemma Logout_revokes:
  assumes "store B"
  shows "\<exists>s'. Logout B s token = (Inr (), s') \<and> ValidateToken B s' token later = (Inl ErrInvalidCredentials, s')
    \<and> (\<forall>h. h \<noteq> SHA256Hex token \<longrightarrow> session_of B (au_db s') h = session_of B (au_db s) h)"
proof -
  obtain d' where d: "Logout B s token = (Inr (), s\<lparr>au_db := d'\<rparr>)"
      "content B d' = (content B (au_db s))(sessionKey (SHA256Hex token) := None)"
    using store.Logout_state [OF assms] by blast
  have "ValidateToken B (s\<lparr>au_db := d'\<rparr>) token later = (Inl ErrInvalidCredentials, s\<lparr>au_db := d'\<rparr>)"
    by (rule store.ValidateToken_none [OF assms]) (simp add: session_of_def d)
  with d show ?thesis by (intro exI [of _ "s\<lparr>au_db := d'\<rparr>"]) (simp add: session_of_def)
qed

lemma Logout_revokes_witness:
  "\<exists>s'. Logout mem_kv demo_auth ''abc'' = (Inr (), s') \<and> ValidateToken mem_kv s' ''abc'' 5 = (Inl ErrInvalidCredentials, s')"
  using Logout_revokes [OF mem_store.store_axioms, of demo_auth "''abc''" 5] by blast

end
