(* ===== verification/ProtoMerge.thy ===== *)
theory ProtoMerge
  imports Prelude
begin

text \<open>
  \<open>internal/discord/rest/settingsproto.go\<close>: the top-level field splitter of a serialized protobuf
  message and the merge of a settings patch into the stored settings. \<open>binary.Uvarint\<close> is Go's
  \<open>encoding/binary\<close>: at most ten bytes, the tenth at most 1.
\<close>

fun uvarint_loop :: "nat \<Rightarrow> nat \<Rightarrow> string \<Rightarrow> (nat \<times> nat) option" where
  "uvarint_loop i x [] = None"
| "uvarint_loop i x (c # cs) =
     (let b = of_char c :: nat in
      if i = 10 then None
      else if b < 128 then (if i = 9 \<and> b > 1 then None else Some (x + b * 2 ^ (7 * i), i + 1))
      else uvarint_loop (i + 1) (x + (b mod 128) * 2 ^ (7 * i)) cs)"

definition uvarint :: "string \<Rightarrow> (nat \<times> nat) option" where
  "uvarint b = uvarint_loop 0 0 b"

record protoField =
  pf_num :: nat
  pf_raw :: string

text \<open>One round of the loop of \<open>splitProtoFields\<close>: the first record and the rest.\<close>

definition next_field :: "string \<Rightarrow> err + (protoField \<times> string)" where
  "next_field b =
     (case uvarint b of
        None \<Rightarrow> Inl ErrBadProto
      | Some (tag, n) \<Rightarrow>
        if tag div 8 = 0 then Inl ErrBadProto
        else
          let rec = take n b; b = drop n b;
              field = (\<lambda>k. Inr (\<lparr>pf_num = tag div 8, pf_raw = rec @ take k b\<rparr>, drop k b))
          in if tag mod 8 = 0 then
               (case uvarint b of None \<Rightarrow> Inl ErrBadProto | Some (_, m) \<Rightarrow> field m)
             else if tag mod 8 = 1 then (if length b < 8 then Inl ErrBadProto else field 8)
             else if tag mod 8 = 2 then
               (case uvarint b of
                  None \<Rightarrow> Inl ErrBadProto
                | Some (l, m) \<Rightarrow> if length b - m < l then Inl ErrBadProto else field (m + l))
             else if tag mod 8 = 5 then (if length b < 4 then Inl ErrBadProto else field 4)
             else Inl ErrBadProto)"

lemma uvarint_loop_Some:
  "uvarint_loop i x b = Some (v, n) \<Longrightarrow> i < n \<and> n \<le> i + length b \<and>
     (\<forall>r. uvarint_loop i x (take (n - i) b @ r) = Some (v, n))"
proof (induction i x b rule: uvarint_loop.induct)
  case (2 i x c cs)
  show ?case
  proof (cases "i = 10 \<or> (of_char c :: nat) < 128")
    case True
    with 2 show ?thesis by (auto simp: Let_def split: if_splits)
  next
    case False
    then have u: "uvarint_loop (i + 1) (x + (of_char c mod 128) * 2 ^ (7 * i)) cs = Some (v, n)"
      using 2 by (auto simp: Let_def)
    from False 2(1) [OF refl _ _ u] have "i + 1 < n" "n \<le> i + 1 + length cs"
      "\<forall>r. uvarint_loop (i + 1) (x + (of_char c mod 128) * 2 ^ (7 * i)) (take (n - (i + 1)) cs @ r) = Some (v, n)"
      by auto
    moreover from this have "n - i = Suc (n - (i + 1))" by simp
    ultimately show ?thesis using False by (auto simp: Let_def)
  qed
qed simp

lemma uvarint_Some:
  assumes "uvarint b = Some (v, n)"
  shows "0 < n" "n \<le> length b" "uvarint (take n b @ r) = Some (v, n)"
  using uvarint_loop_Some [of 0 0 b v n] assms by (auto simp: uvarint_def)

text \<open>A record is determined by its own bytes.\<close>

lemma next_field_Inr:
  assumes "next_field b = Inr (f, rest)"
  shows "b = pf_raw f @ rest" "pf_raw f \<noteq> []" "length rest < length b"
    "next_field (pf_raw f @ r) = Inr (f, r)"
proof -
  obtain tag n where u: "uvarint b = Some (tag, n)" and t: "tag div 8 \<noteq> 0"
    using assms by (auto simp: next_field_def split: option.splits if_splits)
  define h where "h = take n b"
  define b1 where "b1 = drop n b"
  note hb = h_def [symmetric] b1_def [symmetric]
  note un = uvarint_Some [OF u]
  have b: "b = h @ b1" by (simp add: h_def b1_def)
  have lh: "length h = n" using un by (simp add: h_def)
  have lb: "length b - n = length b1" by (simp add: b1_def)
  have uh: "uvarint (h @ r) = Some (tag, n)" for r using un(3) by (simp add: h_def)
  obtain k where k: "f = \<lparr>pf_num = tag div 8, pf_raw = h @ take k b1\<rparr>" "rest = drop k b1" "k \<le> length b1"
    and same: "\<And>r. next_field (h @ take k b1 @ r) = Inr (\<lparr>pf_num = tag div 8, pf_raw = h @ take k b1\<rparr>, r)"
  proof -
    have tk: "take n (h @ x) = h" "drop n (h @ x) = x" for x
      using lh by simp_all
    consider "tag mod 8 = 0" | "tag mod 8 = 1" | "tag mod 8 = 2" | "tag mod 8 = 5"
      using assms u t by (auto simp: next_field_def Let_def split: if_splits)
    then show thesis
    proof cases
      case 1
      then obtain v m where m: "uvarint b1 = Some (v, m)"
        and f: "f = \<lparr>pf_num = tag div 8, pf_raw = h @ take m b1\<rparr>" "rest = drop m b1"
        using assms u t by (auto simp: next_field_def Let_def hb lb split: option.splits)
      show thesis
      proof (rule that [OF f])
        show "m \<le> length b1" by (rule uvarint_Some(2) [OF m])
        then show "next_field (h @ take m b1 @ r) = Inr (\<lparr>pf_num = tag div 8, pf_raw = h @ take m b1\<rparr>, r)" for r
          using 1 t uh [of "take m b1 @ r"] uvarint_Some(3) [OF m, of r]
          by (simp add: next_field_def Let_def lh)
      qed
    next
      case 2
      then have l: "8 \<le> length b1" and f: "f = \<lparr>pf_num = tag div 8, pf_raw = h @ take 8 b1\<rparr>" "rest = drop 8 b1"
        using assms u t by (auto simp: next_field_def Let_def hb lb split: if_splits)
      show thesis
        by (rule that [OF f l]) (use 2 t uh l in \<open>simp add: next_field_def Let_def lh\<close>)
    next
      case 3
      then obtain l m where m: "uvarint b1 = Some (l, m)" and len: "l \<le> length b1 - m"
        and f: "f = \<lparr>pf_num = tag div 8, pf_raw = h @ take (m + l) b1\<rparr>" "rest = drop (m + l) b1"
        using assms u t by (auto simp: next_field_def Let_def hb lb split: option.splits if_splits)
      have ml: "m \<le> length b1" by (rule uvarint_Some(2) [OF m])
      show thesis
      proof (rule that [OF f])
        show "m + l \<le> length b1" using len ml by simp
        have "take (m + l) b1 @ r = take m b1 @ take l (drop m b1) @ r" for r
          by (simp add: take_add)
        then show "next_field (h @ take (m + l) b1 @ r) = Inr (\<lparr>pf_num = tag div 8, pf_raw = h @ take (m + l) b1\<rparr>, r)" for r
          using 3 t uh [of "take (m + l) b1 @ r"] uvarint_Some(3) [OF m, of "take l (drop m b1) @ r"] len ml
          by (simp add: next_field_def Let_def lh)
      qed
    next
      case 4
      then have l: "4 \<le> length b1" and f: "f = \<lparr>pf_num = tag div 8, pf_raw = h @ take 4 b1\<rparr>" "rest = drop 4 b1"
        using assms u t by (auto simp: next_field_def Let_def hb lb split: if_splits)
      show thesis
        by (rule that [OF f l]) (use 4 t uh l in \<open>simp add: next_field_def Let_def lh\<close>)
    qed
  qed
  show "b = pf_raw f @ rest" using k b by simp
  show "pf_raw f \<noteq> []" using k un lh by auto
  show "length rest < length b" using k un lh b by auto
  show "next_field (pf_raw f @ r) = Inr (f, r)" using k same [of r] by simp
qed

function splitProtoFields :: "string \<Rightarrow> err + protoField list" where
  "splitProtoFields b =
     (if b = [] then Inr []
      else case next_field b of
        Inl e \<Rightarrow> Inl e
      | Inr (f, rest) \<Rightarrow> tryb (splitProtoFields rest) (\<lambda>fs. Inr (f # fs)))"
  by pat_completeness auto
termination splitProtoFields
  by (relation "measure length") (use next_field_Inr(3) in auto)

declare splitProtoFields.simps [simp del]

text \<open>The Go map \<open>fields\<close> after the two loops, and the fields in ascending order.\<close>

definition field_map :: "protoField list \<Rightarrow> (nat \<times> string) list \<Rightarrow> (nat \<times> string) list" where
  "field_map fs m = fold (\<lambda>f m. AList.update (pf_num f) (pf_raw f) m) fs m"

definition mergeProtoFields :: "string \<Rightarrow> string \<Rightarrow> err + string" where
  "mergeProtoFields stored patch =
     tryb (splitProtoFields stored) (\<lambda>base.
     tryb (splitProtoFields patch) (\<lambda>inc.
     let fields = field_map inc (field_map base []);
         nums = sort (map fst fields)
     in Inr (concat (map (\<lambda>n. the (map_of fields n)) nums))))"

section \<open>Splitting is exact\<close>

lemma split_Nil [simp]: "splitProtoFields [] = Inr []"
  by (simp add: splitProtoFields.simps)

lemma split_Cons:
  "splitProtoFields b = Inr (f # fs) \<longleftrightarrow>
     b \<noteq> [] \<and> (\<exists>rest. next_field b = Inr (f, rest) \<and> splitProtoFields rest = Inr fs)"
  by (subst splitProtoFields.simps) (auto simp: tryb_eq_Inr split: sum.splits)

lemma split_Inr_Nil: "splitProtoFields b = Inr [] \<longleftrightarrow> b = []"
  by (subst splitProtoFields.simps) (auto simp: tryb_eq_Inr split: sum.splits)

lemma split_concat: "splitProtoFields b = Inr fs \<Longrightarrow> concat (map pf_raw fs) = b"
proof (induction fs arbitrary: b)
  case (Cons f fs)
  then obtain rest where "next_field b = Inr (f, rest)" "splitProtoFields rest = Inr fs" by (auto simp: split_Cons)
  with Cons.IH next_field_Inr(1) show ?case by fastforce
qed (simp add: split_Inr_Nil)

text \<open>A field that some split produced is reproduced from its raw bytes, in any position.\<close>

definition genuine :: "protoField \<Rightarrow> bool" where
  "genuine f \<longleftrightarrow> pf_raw f \<noteq> [] \<and> (\<forall>r. next_field (pf_raw f @ r) = Inr (f, r))"

lemma split_genuine: "splitProtoFields b = Inr fs \<Longrightarrow> \<forall>f \<in> set fs. genuine f"
proof (induction fs arbitrary: b)
  case (Cons f fs)
  then obtain rest where "next_field b = Inr (f, rest)" "splitProtoFields rest = Inr fs" by (auto simp: split_Cons)
  with Cons.IH next_field_Inr(2,4) show ?case by (auto simp: genuine_def)
qed simp

lemma split_of_genuine: "\<forall>f \<in> set fs. genuine f \<Longrightarrow> splitProtoFields (concat (map pf_raw fs)) = Inr fs"
  by (induction fs) (auto simp: split_Cons genuine_def)

section \<open>The merge is a right-biased union of fields\<close>

definition fields_of :: "string \<Rightarrow> nat \<rightharpoonup> string" where
  "fields_of b = (case splitProtoFields b of Inl _ \<Rightarrow> Map.empty
     | Inr fs \<Rightarrow> map_of (rev (map (\<lambda>f. (pf_num f, pf_raw f)) fs)))"

lemma map_of_field_map: "map_of (field_map fs m) = map_of m ++ map_of (rev (map (\<lambda>f. (pf_num f, pf_raw f)) fs))"
proof (induction fs arbitrary: m)
  case (Cons f fs)
  then show ?case by (auto simp: field_map_def update_conv' map_add_def fun_eq_iff split: option.splits)
qed (simp add: field_map_def)

lemma distinct_field_map: "distinct (map fst m) \<Longrightarrow> distinct (map fst (field_map fs m))"
  by (induction fs arbitrary: m) (auto simp: field_map_def distinct_update)

lemma map_of_field_map_genuine:
  assumes "map_of (rev (map (\<lambda>f. (pf_num f, pf_raw f)) fs)) n = Some raw"
  obtains f where "f \<in> set fs" "pf_num f = n" "pf_raw f = raw"
  using map_of_SomeD [OF assms] that by auto

lemma map_of_sorted_fields:
  assumes "distinct (map fst m)"
  shows "map_of (map (\<lambda>n. (n, the (map_of m n))) (sort (map fst m))) = map_of m"
proof
  fix n
  have "map_of (map (\<lambda>n. (n, the (map_of m n))) ns) n = (if n \<in> set ns then Some (the (map_of m n)) else None)" for ns
    by (induction ns) auto
  moreover have "n \<in> set (sort (map fst m)) \<longleftrightarrow> map_of m n \<noteq> None"
    by (simp add: map_of_eq_None_iff)
  ultimately show "map_of (map (\<lambda>n. (n, the (map_of m n))) (sort (map fst m))) n = map_of m n"
    by auto
qed

lemma merge_split:
  assumes "splitProtoFields stored = Inr base" "splitProtoFields patch = Inr inc"
  defines "fm \<equiv> field_map inc (field_map base [])"
  defines "out \<equiv> map (\<lambda>n. \<lparr>pf_num = n, pf_raw = the (map_of fm n)\<rparr>) (sort (map fst fm))"
  shows "mergeProtoFields stored patch = Inr (concat (map pf_raw out))"
    and "splitProtoFields (concat (map pf_raw out)) = Inr out"
    and "sorted (map pf_num out)" "distinct (map pf_num out)"
    and "fields_of (concat (map pf_raw out)) = fields_of stored ++ fields_of patch"
proof -
  have d: "distinct (map fst fm)" by (simp add: fm_def distinct_field_map)
  show "mergeProtoFields stored patch = Inr (concat (map pf_raw out))"
    using assms(1,2) by (simp add: mergeProtoFields_def fm_def out_def Let_def comp_def)
  have m: "map_of fm = fields_of stored ++ fields_of patch"
    using assms(1,2) by (simp add: fm_def map_of_field_map fields_of_def)
  have "genuine f" if "f \<in> set out" for f
  proof -
    have "f \<in> (\<lambda>n. \<lparr>pf_num = n, pf_raw = the (map_of fm n)\<rparr>) ` set (sort (map fst fm))"
      using that by (simp only: out_def set_map)
    then obtain n where n: "n \<in> fst ` set fm" "f = \<lparr>pf_num = n, pf_raw = the (map_of fm n)\<rparr>"
      by (metis (no_types, lifting) imageE set_map set_sort)
    then obtain raw where raw: "map_of fm n = Some raw" by (metis domD dom_map_of_conv_image_fst)
    then have "fields_of stored n = Some raw \<or> fields_of patch n = Some raw"
      by (auto simp: m map_add_def split: option.splits)
    then obtain g where "g \<in> set base \<union> set inc" "pf_num g = n" "pf_raw g = raw"
      using assms(1,2) by (auto simp: fields_of_def elim!: map_of_field_map_genuine)
    then have "genuine g" "g = f" using split_genuine [OF assms(1)] split_genuine [OF assms(2)] n raw by auto
    then show ?thesis by simp
  qed
  then show sp: "splitProtoFields (concat (map pf_raw out)) = Inr out" by (simp add: split_of_genuine)
  show "sorted (map pf_num out)" "distinct (map pf_num out)" using d by (simp_all add: out_def comp_def)
  have "map_of (rev (map (\<lambda>f. (pf_num f, pf_raw f)) out)) = map_of (map (\<lambda>f. (pf_num f, pf_raw f)) out)"
    by (rule map_of_inject_set [THEN iffD2]) (use d in \<open>auto simp: out_def comp_def rev_map [symmetric]\<close>)
  then show "fields_of (concat (map pf_raw out)) = fields_of stored ++ fields_of patch"
    using map_of_sorted_fields [OF d] m sp by (simp add: fields_of_def out_def comp_def)
qed

section \<open>Properties\<close>

lemma fields_of_inj:
  assumes "splitProtoFields a = Inr xs" "splitProtoFields b = Inr ys" "fields_of a = fields_of b"
    and "sorted (map pf_num xs)" "distinct (map pf_num xs)" "sorted (map pf_num ys)" "distinct (map pf_num ys)"
  shows "a = b"
proof -
  have key: "fields_of c n = Some r \<longleftrightarrow> (\<exists>f \<in> set fs. pf_num f = n \<and> pf_raw f = r)"
    if "splitProtoFields c = Inr fs" "distinct (map pf_num fs)" for c fs n r
  proof -
    have "distinct (map fst (rev (map (\<lambda>f. (pf_num f, pf_raw f)) fs)))"
      using that(2) by (simp add: rev_map [symmetric] comp_def)
    then show ?thesis using that(1) by (auto simp: fields_of_def)
  qed
  have eq: "f = g" if "pf_num f = pf_num g" "pf_raw f = pf_raw g" for f g :: protoField
    using that by simp
  have mem: "f \<in> set fs \<longleftrightarrow> fields_of c (pf_num f) = Some (pf_raw f)"
    if "splitProtoFields c = Inr fs" "distinct (map pf_num fs)" for c fs and f :: protoField
  proof
    note k = key [OF that]
    assume "fields_of c (pf_num f) = Some (pf_raw f)"
    then obtain g where "g \<in> set fs" "pf_num g = pf_num f" "pf_raw g = pf_raw f"
      using k by blast
    with eq [of g f] show "f \<in> set fs" by (simp only:)
  next
    assume "f \<in> set fs"
    then show "fields_of c (pf_num f) = Some (pf_raw f)" using key [OF that] by blast
  qed
  have "set xs = set ys"
    using mem [OF assms(1,5)] mem [OF assms(2,7)] assms(3) by (intro set_eqI) (simp only:)
  then have "map pf_num xs = map pf_num ys"
    using assms(4-7) by (intro sorted_distinct_set_unique) auto
  moreover have "inj_on pf_num (set xs \<union> set ys)"
    using assms(5) \<open>set xs = set ys\<close> by (simp add: distinct_map)
  ultimately have "xs = ys" by (simp add: inj_on_map_eq_map)
  then show ?thesis using split_concat [OF assms(1)] split_concat [OF assms(2)] by simp
qed

text \<open>The last record of a field, as a list of at most one record.\<close>

definition last_record :: "nat \<Rightarrow> protoField list \<Rightarrow> protoField list" where
  "last_record n fs = (let ys = filter (\<lambda>f. pf_num f = n) fs in if ys = [] then [] else [last ys])"

lemma map_of_last_record:
  "map_of (rev (map (\<lambda>f. (pf_num f, pf_raw f)) fs)) n = map_option pf_raw (case last_record n fs of [] \<Rightarrow> None | f # _ \<Rightarrow> Some f)"
proof (induction fs rule: rev_induct)
  case (snoc f fs)
  then show ?case by (auto simp: last_record_def Let_def)
qed (simp add: last_record_def)

lemma last_record_cases: "last_record n fs = [] \<or> (\<exists>f. last_record n fs = [f] \<and> pf_num f = n)"
proof (cases "filter (\<lambda>f. pf_num f = n) fs = []")
  case False
  then have "last (filter (\<lambda>f. pf_num f = n) fs) \<in> set (filter (\<lambda>f. pf_num f = n) fs)" by (rule last_in_set)
  with False show ?thesis by (simp add: last_record_def)
qed (simp add: last_record_def)

lemma distinct_last_record:
  assumes "distinct (map pf_num fs)"
  shows "filter (\<lambda>f. pf_num f = n) fs = last_record n fs"
proof -
  have "distinct (map pf_num fs) \<Longrightarrow> length (filter (\<lambda>f. pf_num f = n) fs) \<le> 1" for fs
    by (induction fs) (auto simp: filter_empty_conv intro: rev_image_eqI)
  from this [OF assms] show ?thesis
    by (cases "filter (\<lambda>f. pf_num f = n) fs") (auto simp: last_record_def Let_def)
qed

lemma merged_records:
  assumes "splitProtoFields stored = Inr base" "splitProtoFields patch = Inr inc"
    and "splitProtoFields m = Inr out" "distinct (map pf_num out)" "fields_of m = fields_of stored ++ fields_of patch"
  shows "filter (\<lambda>f. pf_num f = n) out
    = (if n \<in> pf_num ` set inc then last_record n inc else last_record n base)"
proof -
  have in_patch: "n \<in> pf_num ` set inc \<longleftrightarrow> last_record n inc \<noteq> []"
    by (auto simp: last_record_def Let_def filter_empty_conv image_iff)
  have eq: "f = g" if "pf_num f = pf_num g" "pf_raw f = pf_raw g" for f g :: protoField
    using that by simp
  have "fields_of m n = (if n \<in> pf_num ` set inc then fields_of patch n else fields_of stored n)"
    using last_record_cases [of n inc] assms(2) unfolding assms(5) in_patch
    by (auto simp: map_add_def fields_of_def map_of_last_record)
  then have "last_record n out = (if n \<in> pf_num ` set inc then last_record n inc else last_record n base)"
    using last_record_cases [of n inc] last_record_cases [of n base] last_record_cases [of n out] assms(1-3)
    by (auto simp: fields_of_def map_of_last_record intro: eq split: if_splits)
  then show ?thesis by (simp add: distinct_last_record [OF assms(4)])
qed

text \<open>C24: Merging a settings blob with a patch fails exactly when one of them does not parse. Otherwise the
  result parses to fields in ascending order, at most one record each: for a field of the patch the last
  record the patch has of it, for any other field the last record the stored blob has of it, and nothing
  else. So a field that neither blob repeats is replaced or kept whole, as the documentation of the merge
  says, while of a repeated field of the stored blob, also one that the patch does not mention, all
  records but the last are lost. Merging the same patch into the result again changes nothing.\<close>

lemma mergeProtoFields_union:
  "case splitProtoFields stored of
     Inl e \<Rightarrow> mergeProtoFields stored patch = Inl e
   | Inr base \<Rightarrow>
     (case splitProtoFields patch of
        Inl e \<Rightarrow> mergeProtoFields stored patch = Inl e
      | Inr inc \<Rightarrow> (\<exists>m out. mergeProtoFields stored patch = Inr m \<and> splitProtoFields m = Inr out
          \<and> sorted (map pf_num out)
          \<and> (\<forall>n. filter (\<lambda>f. pf_num f = n) out
               = (if n \<in> pf_num ` set inc then last_record n inc else last_record n base))
          \<and> mergeProtoFields m patch = Inr m))"
proof (cases "splitProtoFields stored")
  case S: (Inr base)
  show ?thesis
  proof (cases "splitProtoFields patch")
    case P: (Inr inc)
    obtain m out where m: "mergeProtoFields stored patch = Inr m" "splitProtoFields m = Inr out"
        "sorted (map pf_num out)" "distinct (map pf_num out)" "fields_of m = fields_of stored ++ fields_of patch"
      using merge_split [OF S P] by blast
    obtain m2 out2 where m2: "mergeProtoFields m patch = Inr m2" "splitProtoFields m2 = Inr out2"
        "sorted (map pf_num out2)" "distinct (map pf_num out2)" "fields_of m2 = fields_of m ++ fields_of patch"
      using merge_split [OF m(2) P] by blast
    have "a ++ b ++ b = a ++ b" for a b :: "nat \<rightharpoonup> string"
      by (auto simp: map_add_def fun_eq_iff split: option.splits)
    then have "fields_of m2 = fields_of m" using m(5) m2(5) by simp
    then have "m2 = m" using fields_of_inj [OF m2(2) m(2)] m m2 by simp
    moreover have "filter (\<lambda>f. pf_num f = n) out
        = (if n \<in> pf_num ` set inc then last_record n inc else last_record n base)" for n
      by (rule merged_records [OF S P m(2,4,5)])
    ultimately show ?thesis using S P m m2(1) by auto
  qed (simp add: S mergeProtoFields_def)
qed (simp add: mergeProtoFields_def)

end
