(* ===== verification/Json.thy ===== *)
theory Json
  imports StoreTypes Sha256
begin

text \<open>
  \<open>encoding/json\<close> as the gateway uses it: the text \<open>json.Marshal\<close> writes for a payload. A struct is
  the object of its fields in declaration order. Text is taken as valid UTF-8 without the line
  separators U+2028 and U+2029, whose bytes are copied. Marshalling fails on a number literal
  (\<open>json.Number\<close>) that is not a JSON number.
\<close>

definition json_escape_char :: "char \<Rightarrow> string" where
  "json_escape_char c =
     (let n = of_char c :: nat in
      if c = CHR 0x22 then [CHR 0x5C, CHR 0x22]
      else if c = CHR 0x5C then [CHR 0x5C, CHR 0x5C]
      else if n = 8 then [CHR 0x5C, CHR ''b'']
      else if n = 12 then [CHR 0x5C, CHR ''f'']
      else if n = 10 then [CHR 0x5C, CHR ''n'']
      else if n = 13 then [CHR 0x5C, CHR ''r'']
      else if n = 9 then [CHR 0x5C, CHR ''t'']
      else if n < 32 \<or> c = CHR ''<'' \<or> c = CHR ''>'' \<or> c = CHR ''&''
        then CHR 0x5C # ''u00'' @ [hex_digit (n div 16), hex_digit (n mod 16)]
      else [c])"

definition json_string :: "string \<Rightarrow> string" where
  "json_string s = CHR 0x22 # concat (map json_escape_char s) @ [CHR 0x22]"

definition drop_digits :: "string \<Rightarrow> string" where
  "drop_digits s = dropWhile is_digit s"

definition valid_number :: "string \<Rightarrow> bool" where
  "valid_number s =
     (let s = (if has_prefix s ''-'' then tl s else s) in
      case s of
        [] \<Rightarrow> False
      | c # r \<Rightarrow>
        is_digit c \<and>
        (let s = (if c = CHR ''0'' then r else drop_digits r);
             frac = (case s of d # t \<Rightarrow> d = CHR ''.'' | [] \<Rightarrow> False);
             s1 = (if frac then drop_digits (tl s) else s);
             ok1 = (frac \<longrightarrow> tl s \<noteq> [] \<and> is_digit (hd (tl s)))
         in ok1 \<and>
           (case s1 of
              [] \<Rightarrow> True
            | e # t \<Rightarrow>
              (e = CHR ''e'' \<or> e = CHR ''E'') \<and>
              (let t = (if t \<noteq> [] \<and> (hd t = CHR ''+'' \<or> hd t = CHR ''-'') then tl t else t)
               in t \<noteq> [] \<and> list_all is_digit t))))"

fun json_encode :: "json \<Rightarrow> string" and json_list :: "json list \<Rightarrow> string list"
  and json_fields :: "(string \<times> json) list \<Rightarrow> string list" where
  "json_encode JNull = ''null''"
| "json_encode (JBool b) = (if b then ''true'' else ''false'')"
| "json_encode (JNum s) = s"
| "json_encode (JStr s) = json_string s"
| "json_encode (JArr xs) = ''['' @ join '','' (json_list xs) @ '']''"
| "json_encode (JObj fs) = ''{'' @ join '','' (json_fields fs) @ ''}''"
| "json_list [] = []"
| "json_list (x # xs) = json_encode x # json_list xs"
| "json_fields [] = []"
| "json_fields ((k, v) # fs) = (json_string k @ '':'' @ json_encode v) # json_fields fs"

fun json_ok :: "json \<Rightarrow> bool" and json_ok_list :: "json list \<Rightarrow> bool"
  and json_ok_fields :: "(string \<times> json) list \<Rightarrow> bool" where
  "json_ok JNull = True"
| "json_ok (JBool b) = True"
| "json_ok (JNum s) = valid_number s"
| "json_ok (JStr s) = True"
| "json_ok (JArr xs) = json_ok_list xs"
| "json_ok (JObj fs) = json_ok_fields fs"
| "json_ok_list [] = True"
| "json_ok_list (x # xs) = (json_ok x \<and> json_ok_list xs)"
| "json_ok_fields [] = True"
| "json_ok_fields ((k, v) # fs) = (json_ok v \<and> json_ok_fields fs)"

definition marshal :: "json \<Rightarrow> err + string" where
  "marshal j = (if json_ok j then Inr (json_encode j) else Inl JSONErr)"

definition JInt :: "int \<Rightarrow> json" where
  "JInt n = JNum (format_int n)"

lemma json_encode_nonempty: "json_ok j \<Longrightarrow> json_encode j \<noteq> []"
  by (cases j) (auto simp: json_string_def valid_number_def)

section \<open>Printed integers are numbers\<close>

lemma format_nat_leading: "0 < n \<Longrightarrow> hd (format_nat n) \<noteq> CHR ''0''"
proof (induction n rule: format_nat.induct)
  case (1 n)
  show ?case
  proof (cases "n < 10")
    case True
    have "digit_char n \<noteq> digit_char 0" using True 1(2) digit_char_inj [of n 0] by simp
    then show ?thesis using True by (simp add: format_nat.simps [of n] digit_char_0)
  next
    case False
    then have "hd (format_nat (n div 10)) \<noteq> CHR ''0''" using 1(1) by simp
    moreover have "format_nat (n div 10) \<noteq> []" using format_nat_digits by blast
    ultimately show ?thesis using False by (simp add: format_nat.simps [of n])
  qed
qed

lemma format_nat_0: "format_nat 0 = ''0''"
  by (simp add: format_nat.simps [of 0] digit_char_0)

lemma drop_digits_all: "list_all is_digit r \<Longrightarrow> drop_digits r = []"
  by (induction r) (auto simp: drop_digits_def)

lemma valid_number_digits:
  assumes "all_digits s" "hd s \<noteq> CHR ''0'' \<or> s = ''0''"
  shows "valid_number s" "valid_number (CHR ''-'' # s)"
proof -
  obtain c r where c: "s = c # r" using assms(1) by (cases s) (auto simp: all_digits_def)
  have d: "is_digit c" "list_all is_digit r" using assms(1) c by (auto simp: all_digits_def)
  have "c \<noteq> CHR ''-''" using d by (auto simp: is_digit_def)
  then show "valid_number s" "valid_number (CHR ''-'' # s)"
    using assms(2) c d by (auto simp: valid_number_def Let_def drop_digits_all has_prefix_Cons)
qed

lemma valid_number_int [simp]: "valid_number (format_int n)"
proof -
  have "hd (format_nat k) \<noteq> CHR ''0'' \<or> format_nat k = ''0''" for k
    using format_nat_leading [of k] format_nat_0 by (cases "k = 0") auto
  then show ?thesis unfolding format_int_def by (auto intro: valid_number_digits)
qed

lemma json_ok_int [simp]: "json_ok (JInt n)"
  by (simp add: JInt_def)

end
