(* ===== verification/Session.thy ===== *)
theory Session
  imports Json
begin

text \<open>
  \<open>internal/discord/gateway/session.go\<close>: a gateway session numbers its dispatches, keeps a bounded
  log of them for RESUME, and writes to the queue of the socket it is attached to. The queues are
  Go channels of capacity \<open>chanCap\<close>, named by numbers: \<open>wire\<close> maps a name to its channel.
  Sending on a closed channel panics; the value \<open>None\<close> of an operation is that panic. A session's
  lock makes each operation one atomic step.
\<close>

definition replayLimit :: nat where
  "replayLimit = 256"

definition replayBytes :: nat where
  "replayBytes = 4 * 2 ^ 20"

definition chanCap :: nat where
  "chanCap = 256"

datatype writeRequest = WFrame string | WFlush nat

record wchan =
  wc_queue :: "writeRequest list"
  wc_closed :: bool

type_synonym wire = "nat \<Rightarrow> wchan"

record eventRecord =
  ev_seq :: int
  ev_frame :: string

record Session =
  gs_ID :: string
  gs_UserID :: string
  gs_seq :: int
  gs_events :: "eventRecord list"
  gs_eventsBytes :: int
  gs_send :: "nat option"
  gs_detachedAt :: time
  gs_memberLists :: "string list"

definition chan_full :: "wchan \<Rightarrow> bool" where
  "chan_full c = (length (wc_queue c) \<ge> chanCap)"

definition chan_push :: "wire \<Rightarrow> nat \<Rightarrow> writeRequest \<Rightarrow> wire" where
  "chan_push w c r = w(c := (w c)\<lparr>wc_queue := wc_queue (w c) @ [r]\<rparr>)"

definition chan_close :: "wire \<Rightarrow> nat \<Rightarrow> wire" where
  "chan_close w c = w(c := (w c)\<lparr>wc_closed := True\<rparr>)"

definition watchMemberList :: "Session \<Rightarrow> string \<Rightarrow> string \<Rightarrow> Session" where
  "watchMemberList s guild ch =
     s\<lparr>gs_memberLists := List.insert (guild @ [CHR 0x00] @ ch) (gs_memberLists s)\<rparr>"

definition memberListSet :: "Session \<Rightarrow> string list" where
  "memberListSet s = gs_memberLists s"

definition attach :: "Session \<Rightarrow> wire \<Rightarrow> nat \<Rightarrow> (bool \<times> Session \<times> wire) option" where
  "attach s w ch =
     (let tookOver = (gs_send s \<noteq> None \<and> gs_send s \<noteq> Some ch);
          s' = s\<lparr>gs_send := Some ch, gs_detachedAt := zeroTime\<rparr>
      in if tookOver then
           (let old = the (gs_send s) in
            if wc_closed (w old) then None else Some (tookOver, s', chan_close w old))
         else Some (tookOver, s', w))"

definition detach :: "Session \<Rightarrow> nat \<Rightarrow> time \<Rightarrow> Session" where
  "detach s ch now = (if gs_send s = Some ch then s\<lparr>gs_send := None, gs_detachedAt := now\<rparr> else s)"

definition offline :: "Session \<Rightarrow> bool" where
  "offline s = (gs_send s = None)"

definition stale :: "Session \<Rightarrow> int \<Rightarrow> time \<Rightarrow> bool" where
  "stale s ttl now = (gs_send s = None \<and> gs_detachedAt s \<noteq> zeroTime \<and> now - gs_detachedAt s > ttl)"

text \<open>A failed \<open>select\<close> means the queue is full: the session gives the socket up.\<close>

definition sendFrameLocked :: "Session \<Rightarrow> wire \<Rightarrow> string \<Rightarrow> time \<Rightarrow> (Session \<times> wire) option" where
  "sendFrameLocked s w frame now =
     (case gs_send s of
        None \<Rightarrow> Some (s, w)
      | Some c \<Rightarrow>
        if wc_closed (w c) then None
        else if \<not> chan_full (w c) then Some (s, chan_push w c (WFrame frame))
        else Some (s\<lparr>gs_send := None, gs_detachedAt := now\<rparr>, chan_close w c))"

definition payload :: "int \<Rightarrow> string \<Rightarrow> json \<Rightarrow> json" where
  "payload seq t d = JObj ([(''op'', JInt 0), (''s'', JInt seq)] @ (if t = [] then [] else [(''t'', JStr t)])
     @ [(''d'', d)])"

text \<open>The trimming loop: drop the oldest frames while the byte count is over, but keep one.\<close>

fun trim_bytes :: "eventRecord list \<Rightarrow> int \<Rightarrow> eventRecord list \<times> int" where
  "trim_bytes (e # f # es) b =
     (if b > int replayBytes then trim_bytes (f # es) (b - int (length (ev_frame e))) else (e # f # es, b))"
| "trim_bytes es b = (es, b)"

definition record_event :: "Session \<Rightarrow> int \<Rightarrow> string \<Rightarrow> Session" where
  "record_event s seq frame =
     (let es = gs_events s @ [\<lparr>ev_seq = seq, ev_frame = frame\<rparr>];
          b = gs_eventsBytes s + int (length frame);
          (es, b) = trim_bytes es b;
          es = (if length es > replayLimit then drop (length es - replayLimit) es else es)
      in s\<lparr>gs_events := es, gs_eventsBytes := b\<rparr>)"

definition dispatchRaw ::
  "Session \<Rightarrow> wire \<Rightarrow> string \<Rightarrow> json \<Rightarrow> bool \<Rightarrow> time \<Rightarrow> ((err + int) \<times> Session \<times> wire) option" where
  "dispatchRaw s w t d record now =
     (let seq = gs_seq s + 1 in
      case marshal (payload seq t d) of
        Inl e \<Rightarrow> Some (Inl e, s, w)
      | Inr frame \<Rightarrow>
        let s = s\<lparr>gs_seq := seq\<rparr>;
            s = (if record then record_event s seq frame else s)
        in case sendFrameLocked s w frame now of
             None \<Rightarrow> None
           | Some (s, w) \<Rightarrow> Some (Inr seq, s, w))"

definition dispatch ::
  "Session \<Rightarrow> wire \<Rightarrow> string \<Rightarrow> json \<Rightarrow> bool \<Rightarrow> time \<Rightarrow> ((err + int) \<times> Session \<times> wire) option" where
  "dispatch s w t d record now =
     (case marshal d of
        Inl e \<Rightarrow> Some (Inl e, s, w)
      | Inr _ \<Rightarrow> dispatchRaw s w t d record now)"

text \<open>\<open>queueFlush\<close> either queues the barrier or resolves it at once: the flag says which.\<close>

definition queueFlush :: "Session \<Rightarrow> wire \<Rightarrow> nat \<Rightarrow> (bool \<times> wire) option" where
  "queueFlush s w done_id =
     (case gs_send s of
        None \<Rightarrow> Some (True, w)
      | Some c \<Rightarrow>
        if wc_closed (w c) then None
        else if \<not> chan_full (w c) then Some (False, chan_push w c (WFlush done_id))
        else Some (True, w))"

fun replay_events :: "wire \<Rightarrow> eventRecord list \<Rightarrow> int \<Rightarrow> nat \<Rightarrow> wire option" where
  "replay_events w [] since ch = Some w"
| "replay_events w (ev # evs) since ch =
     (if ev_seq ev > since then
        (if wc_closed (w ch) then None
         else replay_events (if chan_full (w ch) then w else chan_push w ch (WFrame (ev_frame ev))) evs since ch)
      else replay_events w evs since ch)"

definition replay :: "Session \<Rightarrow> wire \<Rightarrow> int \<Rightarrow> nat \<Rightarrow> wire option" where
  "replay s w since ch = replay_events w (gs_events s) since ch"

section \<open>The replay log\<close>

definition log_bytes :: "eventRecord list \<Rightarrow> int" where
  "log_bytes es = (\<Sum>e \<leftarrow> es. int (length (ev_frame e)))"

text \<open>
  The invariant of a session: its log is in strictly increasing sequence order, ends at or before
  the counter, and holds at most \<open>replayLimit\<close> frames; the byte count is at least what the log
  holds; and the queue it writes to is open.
\<close>

definition session_wf :: "Session \<Rightarrow> wire \<Rightarrow> bool" where
  "session_wf s w \<longleftrightarrow>
     sorted_wrt (<) (map ev_seq (gs_events s)) \<and>
     (\<forall>e \<in> set (gs_events s). ev_seq e \<le> gs_seq s) \<and>
     length (gs_events s) \<le> replayLimit \<and>
     log_bytes (gs_events s) \<le> gs_eventsBytes s \<and>
     (\<forall>c. gs_send s = Some c \<longrightarrow> \<not> wc_closed (w c))"

lemma log_bytes_simps [simp]:
  "log_bytes [] = 0" "log_bytes (e # es) = int (length (ev_frame e)) + log_bytes es"
  "log_bytes (xs @ ys) = log_bytes xs + log_bytes ys"
  by (simp_all add: log_bytes_def)

lemma log_bytes_nonneg: "0 \<le> log_bytes es"
  by (induction es) auto

lemma trim_bytes_suffix:
  assumes "trim_bytes es b = (es', b')"
  shows "\<exists>n. es' = drop n es \<and> b' = b - log_bytes (take n es) \<and> (es \<noteq> [] \<longrightarrow> n < length es)"
  using assms
proof (induction es b rule: trim_bytes.induct)
  case (1 e f es b)
  show ?case
  proof (cases "b > int replayBytes")
    case True
    with 1 obtain n where "es' = drop n (f # es)" "b' = b - int (length (ev_frame e)) - log_bytes (take n (f # es))"
      "n < length (f # es)" by auto
    then show ?thesis by (intro exI [of _ "Suc n"]) auto
  next
    case False
    with 1 show ?thesis by (intro exI [of _ 0]) auto
  qed
qed (auto intro: exI [of _ 0])

lemma trim_bytes_bound:
  "trim_bytes es b = (es', b') \<Longrightarrow> b' \<le> int replayBytes \<or> length es' \<le> 1"
  by (induction es b rule: trim_bytes.induct) (auto split: if_splits)

text \<open>What recording an event does to the log: it appends it and drops a prefix.\<close>

lemma record_event_log:
  obtains n b where "gs_events (record_event s seq frame) = drop n (gs_events s @ [\<lparr>ev_seq = seq, ev_frame = frame\<rparr>])"
    "n \<le> length (gs_events s)" "gs_eventsBytes (record_event s seq frame) = b"
    "log_bytes (gs_events s @ [\<lparr>ev_seq = seq, ev_frame = frame\<rparr>])
       - log_bytes (take n (gs_events s @ [\<lparr>ev_seq = seq, ev_frame = frame\<rparr>]))
       \<le> b - (gs_eventsBytes s - log_bytes (gs_events s))"
    "b \<le> int replayBytes \<or> length (gs_events (record_event s seq frame)) \<le> 1"
    "length (gs_events (record_event s seq frame)) \<le> replayLimit"
proof -
  let ?es = "gs_events s @ [\<lparr>ev_seq = seq, ev_frame = frame\<rparr>]"
  obtain es1 b1 where t: "trim_bytes ?es (gs_eventsBytes s + int (length frame)) = (es1, b1)"
    by (cases "trim_bytes ?es (gs_eventsBytes s + int (length frame))")
  obtain n where n: "es1 = drop n ?es" "b1 = gs_eventsBytes s + int (length frame) - log_bytes (take n ?es)"
    "n < length ?es" using trim_bytes_suffix [OF t] by auto
  define m where "m = (if length es1 > replayLimit then length es1 - replayLimit else 0)"
  have ev: "gs_events (record_event s seq frame) = drop m es1"
    using t by (simp add: record_event_def Let_def m_def)
  have bb: "gs_eventsBytes (record_event s seq frame) = b1"
    using t by (simp add: record_event_def Let_def)
  have lm: "m \<le> length es1 - 1"
    by (auto simp: m_def replayLimit_def)
  show thesis
  proof (rule that [of "n + m" b1])
    show "gs_events (record_event s seq frame) = drop (n + m) ?es" using ev n by (simp add: add.commute)
    show "n + m \<le> length (gs_events s)" using n(1,3) lm by simp
    show "gs_eventsBytes (record_event s seq frame) = b1" by (rule bb)
    have "log_bytes (take n ?es) \<le> log_bytes (take (n + m) ?es)"
      unfolding take_add log_bytes_simps(3) using log_bytes_nonneg by simp
    then show "log_bytes ?es - log_bytes (take (n + m) ?es) \<le> b1 - (gs_eventsBytes s - log_bytes (gs_events s))"
      using n(2) by simp
    show "b1 \<le> int replayBytes \<or> length (gs_events (record_event s seq frame)) \<le> 1"
      using trim_bytes_bound [OF t] ev by auto
    show "length (gs_events (record_event s seq frame)) \<le> replayLimit"
      using ev by (simp add: m_def)
  qed
qed

lemma record_event_other [simp]:
  "gs_seq (record_event s q f) = gs_seq s" "gs_send (record_event s q f) = gs_send s"
  "gs_ID (record_event s q f) = gs_ID s" "gs_UserID (record_event s q f) = gs_UserID s"
  "gs_memberLists (record_event s q f) = gs_memberLists s"
  "gs_detachedAt (record_event s q f) = gs_detachedAt s"
  by (simp_all add: record_event_def Let_def split: prod.splits)

lemma sendFrameLocked_wf:
  assumes "\<forall>c. gs_send s = Some c \<longrightarrow> \<not> wc_closed (w c)"
  obtains s' w' where "sendFrameLocked s w frame now = Some (s', w')"
    "gs_events s' = gs_events s" "gs_eventsBytes s' = gs_eventsBytes s" "gs_seq s' = gs_seq s"
    "gs_ID s' = gs_ID s" "gs_UserID s' = gs_UserID s"
    "\<forall>c. gs_send s' = Some c \<longrightarrow> \<not> wc_closed (w' c)"
    "\<forall>c. gs_send s \<noteq> Some c \<longrightarrow> w' c = w c"
proof (cases "gs_send s")
  case None
  then show thesis by (intro that [of s w]) (simp_all add: sendFrameLocked_def)
next
  case (Some c)
  then have o: "\<not> wc_closed (w c)" using assms by simp
  show thesis
  proof (cases "chan_full (w c)")
    case True
    then show thesis using Some o
      by (intro that [of "s\<lparr>gs_send := None, gs_detachedAt := now\<rparr>" "chan_close w c"])
        (simp_all add: sendFrameLocked_def chan_close_def)
  next
    case False
    then show thesis using Some o
      by (intro that [of s "chan_push w c (WFrame frame)"]) (simp_all add: sendFrameLocked_def chan_push_def)
  qed
qed

text \<open>A dispatch never panics, keeps the invariant and takes the next number.\<close>

lemma dispatchRaw_step:
  assumes wf: "session_wf s w" and ok: "json_ok d"
  obtains s' w' frame where
    "dispatchRaw s w t d rec now = Some (Inr (gs_seq s + 1), s', w')" "session_wf s' w'"
    "gs_seq s' = gs_seq s + 1" "gs_ID s' = gs_ID s" "gs_UserID s' = gs_UserID s"
    "marshal (payload (gs_seq s + 1) t d) = Inr frame"
    "gs_events s' = (if rec then gs_events (record_event (s\<lparr>gs_seq := gs_seq s + 1\<rparr>) (gs_seq s + 1) frame)
       else gs_events s)"
    "gs_eventsBytes s' = (if rec then gs_eventsBytes (record_event (s\<lparr>gs_seq := gs_seq s + 1\<rparr>) (gs_seq s + 1) frame)
       else gs_eventsBytes s)"
    "\<forall>c. gs_send s \<noteq> Some c \<longrightarrow> w' c = w c"
proof -
  obtain frame where f: "marshal (payload (gs_seq s + 1) t d) = Inr frame"
    using ok by (cases "t = []") (simp_all add: marshal_def payload_def)
  define s1 where "s1 = s\<lparr>gs_seq := gs_seq s + 1\<rparr>"
  define s2 where "s2 = (if rec then record_event s1 (gs_seq s + 1) frame else s1)"
  have send: "gs_send s2 = gs_send s" by (simp add: s2_def s1_def)
  obtain s' w' where S: "sendFrameLocked s2 w frame now = Some (s', w')"
    "gs_events s' = gs_events s2" "gs_eventsBytes s' = gs_eventsBytes s2" "gs_seq s' = gs_seq s2"
    "gs_ID s' = gs_ID s2" "gs_UserID s' = gs_UserID s2"
    "\<forall>c. gs_send s' = Some c \<longrightarrow> \<not> wc_closed (w' c)" "\<forall>c. gs_send s2 \<noteq> Some c \<longrightarrow> w' c = w c"
    using sendFrameLocked_wf [of s2 w frame now] wf send unfolding session_wf_def by metis
  have D: "dispatchRaw s w t d rec now = Some (Inr (gs_seq s + 1), s', w')"
    using S(1) f by (simp add: dispatchRaw_def Let_def s1_def s2_def split: if_splits)
  have wf2: "sorted_wrt (<) (map ev_seq (gs_events s2)) \<and> (\<forall>e \<in> set (gs_events s2). ev_seq e \<le> gs_seq s2) \<and>
     length (gs_events s2) \<le> replayLimit \<and> log_bytes (gs_events s2) \<le> gs_eventsBytes s2"
  proof (cases rec)
    case False
    then show ?thesis using wf by (auto simp: s2_def s1_def session_wf_def)
  next
    case True
    let ?es = "gs_events s @ [\<lparr>ev_seq = gs_seq s + 1, ev_frame = frame\<rparr>]"
    obtain n b where r: "gs_events s2 = drop n ?es" "gs_eventsBytes s2 = b"
      "log_bytes ?es - log_bytes (take n ?es) \<le> b - (gs_eventsBytes s - log_bytes (gs_events s))"
      "length (gs_events s2) \<le> replayLimit"
    proof -
      have e1: "gs_events s1 = gs_events s" "gs_eventsBytes s1 = gs_eventsBytes s" by (simp_all add: s1_def)
      have s2: "record_event s1 (gs_seq s + 1) frame = s2" using True by (simp add: s2_def)
      show thesis by (rule record_event_log [of s1 "gs_seq s + 1" frame, unfolded e1 s2], rule that)
    qed
    have "sorted_wrt (<) (map ev_seq ?es)" "\<forall>e \<in> set ?es. ev_seq e \<le> gs_seq s + 1"
      using wf by (fastforce simp: session_wf_def sorted_wrt_append)+
    then have "sorted_wrt (<) (map ev_seq (drop n ?es))" "\<forall>e \<in> set (drop n ?es). ev_seq e \<le> gs_seq s + 1"
      by (simp_all only: drop_map [symmetric] sorted_wrt_drop) (meson in_set_dropD)
    moreover have "log_bytes ?es = log_bytes (take n ?es) + log_bytes (drop n ?es)"
      by (metis append_take_drop_id log_bytes_simps(3))
    moreover have "log_bytes (gs_events s) \<le> gs_eventsBytes s" using wf by (simp add: session_wf_def)
    moreover have "gs_seq s2 = gs_seq s + 1" by (simp add: s2_def s1_def)
    ultimately show ?thesis using r by simp
  qed
  show thesis
  proof (rule that [OF D])
    show "session_wf s' w'" using wf2 S by (simp add: session_wf_def)
    show "marshal (payload (gs_seq s + 1) t d) = Inr frame" by (rule f)
    show "\<forall>c. gs_send s \<noteq> Some c \<longrightarrow> w' c = w c" using S(8) send by simp
  qed (use S in \<open>auto simp: s2_def s1_def\<close>)
qed

section \<open>Replaying the log\<close>

text \<open>The queue after a list of frames was written to it, as long as they fit.\<close>

definition push_frames :: "wire \<Rightarrow> nat \<Rightarrow> string list \<Rightarrow> wire" where
  "push_frames w ch fs = w(ch := (w ch)\<lparr>wc_queue := wc_queue (w ch) @ map WFrame fs\<rparr>)"

lemma push_frames_Nil [simp]: "push_frames w ch [] = w"
  by (simp add: push_frames_def)

lemma push_frames_Cons: "push_frames (chan_push w ch (WFrame f)) ch fs = push_frames w ch (f # fs)"
  by (simp add: push_frames_def chan_push_def)

lemma replay_events_room:
  assumes "\<not> wc_closed (w ch)"
    and "length (wc_queue (w ch)) + length (filter (\<lambda>e. ev_seq e > since) es) \<le> chanCap"
  shows "replay_events w es since ch = Some (push_frames w ch (map ev_frame (filter (\<lambda>e. ev_seq e > since) es)))"
  using assms
proof (induction es arbitrary: w)
  case (Cons e es)
  show ?case
  proof (cases "ev_seq e > since")
    case True
    let ?w = "chan_push w ch (WFrame (ev_frame e))"
    have "replay_events ?w es since ch = Some (push_frames ?w ch (map ev_frame (filter (\<lambda>e. ev_seq e > since) es)))"
      by (rule Cons.IH) (use Cons.prems True in \<open>auto simp: chan_push_def\<close>)
    moreover have "\<not> chan_full (w ch)" using Cons.prems(2) True by (simp add: chan_full_def)
    ultimately show ?thesis using True Cons.prems(1) by (simp add: push_frames_Cons)
  qed (use Cons in auto)
qed simp

text \<open>
  What a client is sent on RESUME: if it has seen everything up to the part of the history that
  the log dropped, it gets exactly the events it missed.
\<close>

lemma filter_suffix:
  assumes "sorted_wrt (<) (map ev_seq hist)" "n = 0 \<or> ev_seq (hist ! (n - 1)) \<le> since" "n \<le> length hist"
  shows "filter (\<lambda>e. ev_seq e > since) (drop n hist) = filter (\<lambda>e. ev_seq e > since) hist"
proof -
  have "\<not> since < ev_seq e" if "e \<in> set (take n hist)" for e
  proof -
    from that have "\<exists>i < length (take n hist). take n hist ! i = e" by (simp only: in_set_conv_nth)
    then obtain i where i: "i < n" "e = hist ! i" by auto
    then have "ev_seq e \<le> ev_seq (hist ! (n - 1))"
    proof (cases "i = n - 1")
      case False
      then have "map ev_seq hist ! i < map ev_seq hist ! (n - 1)"
        using sorted_wrt_nth_less [OF assms(1), of i "n - 1"] assms(3) i by simp
      then show ?thesis using i assms(3) by simp
    qed (use i in simp)
    with i assms(2) show ?thesis by auto
  qed
  then have "filter (\<lambda>e. ev_seq e > since) (take n hist) = []" by (auto simp: filter_empty_conv)
  then show ?thesis by (metis append_take_drop_id filter_append append_Nil)
qed

section \<open>Runs of dispatches\<close>

text \<open>
  \<open>dispatch_all\<close> sends a list of events; \<open>event_frames\<close> is what they look like on the wire, numbered
  from the session's counter.
\<close>

fun dispatch_all :: "Session \<Rightarrow> wire \<Rightarrow> (string \<times> json) list \<Rightarrow> time \<Rightarrow> (Session \<times> wire) option" where
  "dispatch_all s w [] now = Some (s, w)"
| "dispatch_all s w ((t, d) # evs) now =
     (case dispatch s w t d True now of
        Some (Inr _, s', w') \<Rightarrow> dispatch_all s' w' evs now
      | _ \<Rightarrow> None)"

definition frame_of :: "int \<Rightarrow> string \<Rightarrow> json \<Rightarrow> string" where
  "frame_of seq t d = (case marshal (payload seq t d) of Inr f \<Rightarrow> f | Inl _ \<Rightarrow> [])"

fun event_frames :: "int \<Rightarrow> (string \<times> json) list \<Rightarrow> string list" where
  "event_frames seq [] = []"
| "event_frames seq ((t, d) # evs) = frame_of (seq + 1) t d # event_frames (seq + 1) evs"

lemma trim_bytes_under: "b \<le> int replayBytes \<Longrightarrow> trim_bytes es b = (es, b)"
  by (cases "(es, b)" rule: trim_bytes.cases) auto

lemma record_event_under:
  assumes "gs_eventsBytes s + int (length frame) \<le> int replayBytes"
  shows "\<exists>n. n \<le> length (gs_events s) + 1 - replayLimit \<and>
    record_event s seq frame = s\<lparr>gs_events := drop n (gs_events s @ [\<lparr>ev_seq = seq, ev_frame = frame\<rparr>]),
      gs_eventsBytes := gs_eventsBytes s + int (length frame)\<rparr>"
  using assms
  by (intro exI [of _ "length (gs_events s) + 1 - replayLimit"])
    (simp add: record_event_def Let_def trim_bytes_under)

lemma dispatch_offline:
  assumes ok: "json_ok d" and off: "gs_send s = None"
  shows "dispatch s w t d True now = Some (Inr (gs_seq s + 1),
    record_event (s\<lparr>gs_seq := gs_seq s + 1\<rparr>) (gs_seq s + 1) (frame_of (gs_seq s + 1) t d), w)"
proof -
  have "json_ok (payload (gs_seq s + 1) t d)" using ok by (simp add: payload_def)
  then show ?thesis using ok off
    by (simp add: dispatch_def dispatchRaw_def marshal_def Let_def frame_of_def sendFrameLocked_def)
qed

text \<open>
  While the session is offline and its log has room, the log ends with exactly the frames of the
  events dispatched, and all that is kept before them is old.
\<close>

lemma dispatch_all_offline:
  assumes "gs_send s = None" "list_all (\<lambda>(t, d). json_ok d) evs"
    and "length new + length evs \<le> replayLimit"
    and "gs_eventsBytes s + (\<Sum>f \<leftarrow> event_frames (gs_seq s) evs. int (length f)) \<le> int replayBytes"
    and "gs_events s = old @ new" "length (gs_events s) \<le> replayLimit"
  shows "\<exists>s' old'. dispatch_all s w evs now = Some (s', w) \<and> set old' \<subseteq> set old \<and> gs_seq s' = gs_seq s + int (length evs)
    \<and> map ev_frame (gs_events s') = map ev_frame old' @ map ev_frame new @ event_frames (gs_seq s) evs
    \<and> map ev_seq (gs_events s') = map ev_seq old' @ map ev_seq new @ map (\<lambda>i. gs_seq s + 1 + int i) [0..<length evs]"
  using assms
proof (induction evs arbitrary: s old new)
  case Nil
  then show ?case by (intro exI [of _ s] exI [of _ old]) simp
next
  case (Cons e evs)
  obtain t d where e: "e = (t, d)" by (cases e)
  let ?f = "frame_of (gs_seq s + 1) t d"
  let ?ev = "\<lparr>ev_seq = gs_seq s + 1, ev_frame = ?f\<rparr>"
  let ?s = "s\<lparr>gs_seq := gs_seq s + 1\<rparr>"
  have sum: "0 \<le> (\<Sum>f \<leftarrow> fs. int (length f))" for fs :: "string list" by (induction fs) auto
  have "gs_eventsBytes ?s + int (length ?f) \<le> int replayBytes"
    using Cons.prems(4) sum [of "event_frames (gs_seq s + 1) evs"] e by simp
  then obtain n where n: "n \<le> length (gs_events s) + 1 - replayLimit"
    and r: "record_event ?s (gs_seq s + 1) ?f = ?s\<lparr>gs_events := drop n (gs_events s @ [?ev]),
      gs_eventsBytes := gs_eventsBytes s + int (length ?f)\<rparr>"
    using record_event_under [of ?s ?f "gs_seq s + 1"] by auto
  define s1 where "s1 = record_event ?s (gs_seq s + 1) ?f"
  have D: "dispatch s w t d True now = Some (Inr (gs_seq s + 1), s1, w)"
    using dispatch_offline [of d s w t now] Cons.prems(1,2) e by (simp add: s1_def)
  have "n \<le> length old" using n Cons.prems(3,5,6) by simp
  then have ev1: "gs_events s1 = drop n old @ (new @ [?ev])"
    using Cons.prems(5) by (simp add: s1_def r)
  have s1: "gs_seq s1 = gs_seq s + 1" "gs_send s1 = None" "gs_eventsBytes s1 = gs_eventsBytes s + int (length ?f)"
    using Cons.prems(1) by (simp_all add: s1_def r)
  have "\<exists>s' old'. dispatch_all s1 w evs now = Some (s', w) \<and> set old' \<subseteq> set (drop n old) \<and> gs_seq s' = gs_seq s1 + int (length evs)
    \<and> map ev_frame (gs_events s') = map ev_frame old' @ map ev_frame (new @ [?ev]) @ event_frames (gs_seq s1) evs
    \<and> map ev_seq (gs_events s') = map ev_seq old' @ map ev_seq (new @ [?ev]) @ map (\<lambda>i. gs_seq s1 + 1 + int i) [0..<length evs]"
  proof (rule Cons.IH [OF s1(2) _ _ _ ev1])
    show "list_all (\<lambda>(t, d). json_ok d) evs" using Cons.prems(2) by simp
    show "length (new @ [?ev]) + length evs \<le> replayLimit" using Cons.prems(3) by simp
    show "gs_eventsBytes s1 + (\<Sum>f \<leftarrow> event_frames (gs_seq s1) evs. int (length f)) \<le> int replayBytes"
      using Cons.prems(4) e s1 by simp
    show "length (gs_events s1) \<le> replayLimit"
      using record_event_log [of ?s "gs_seq s + 1" ?f] unfolding s1_def by metis
  qed
  then obtain s' old' where h: "dispatch_all s1 w evs now = Some (s', w)" "set old' \<subseteq> set (drop n old)"
    "gs_seq s' = gs_seq s1 + int (length evs)"
    "map ev_frame (gs_events s') = map ev_frame old' @ map ev_frame (new @ [?ev]) @ event_frames (gs_seq s1) evs"
    "map ev_seq (gs_events s') = map ev_seq old' @ map ev_seq (new @ [?ev]) @ map (\<lambda>i. gs_seq s1 + 1 + int i) [0..<length evs]"
    by blast
  have "map (\<lambda>i. gs_seq s + 1 + int i) [0..<length (e # evs)] = (gs_seq s + 1) # map (\<lambda>i. gs_seq s1 + 1 + int i) [0..<length evs]"
    by (simp add: upt_conv_Cons map_Suc_upt [symmetric] s1 comp_def add.assoc del: upt_Suc)
  then show ?case
    using h D e s1 set_drop_subset [of n old] by (intro exI [of _ s'] exI [of _ old']) auto
qed

section \<open>The byte budget of the log\<close>

text \<open>What \<open>dispatchRaw\<close> does to the log, for a list of frames.\<close>

primrec record_all :: "Session \<Rightarrow> string list \<Rightarrow> Session" where
  "record_all s [] = s"
| "record_all s (f # fs) = record_all (record_event (s\<lparr>gs_seq := gs_seq s + 1\<rparr>) (gs_seq s + 1) f) fs"

lemma record_all_small:
  assumes "\<forall>f \<in> set fs. length f = L" "gs_eventsBytes s + int (length fs * L) \<le> int replayBytes"
    and "\<forall>e \<in> set (gs_events s). length (ev_frame e) = L" "length (gs_events s) \<le> replayLimit"
  shows "gs_eventsBytes (record_all s fs) = gs_eventsBytes s + int (length fs * L)
    \<and> (\<forall>e \<in> set (gs_events (record_all s fs)). length (ev_frame e) = L)
    \<and> length (gs_events (record_all s fs)) \<le> replayLimit
    \<and> gs_seq (record_all s fs) = gs_seq s + int (length fs)"
  using assms
proof (induction fs arbitrary: s)
  case (Cons f fs)
  let ?s = "s\<lparr>gs_seq := gs_seq s + 1\<rparr>"
  have z: "0 \<le> int (length fs) * int L" by simp
  have "gs_eventsBytes s + (int L + int (length fs) * int L) \<le> int replayBytes" "length f = L"
    using Cons.prems(1,2) by simp_all
  then have "gs_eventsBytes s + int L \<le> int replayBytes" using z by linarith
  then have "gs_eventsBytes ?s + int (length f) \<le> int replayBytes" using \<open>length f = L\<close> by simp
  then obtain n where r: "record_event ?s (gs_seq s + 1) f = ?s\<lparr>gs_events := drop n (gs_events s @ [\<lparr>ev_seq = gs_seq s + 1, ev_frame = f\<rparr>]),
      gs_eventsBytes := gs_eventsBytes s + int (length f)\<rparr>"
    using record_event_under [of ?s f "gs_seq s + 1"] by auto
  define s1 where "s1 = record_event ?s (gs_seq s + 1) f"
  have "length (gs_events s1) \<le> replayLimit"
    using record_event_log [of ?s "gs_seq s + 1" f] unfolding s1_def by metis
  moreover have "gs_eventsBytes s1 = gs_eventsBytes s + int L" "gs_seq s1 = gs_seq s + 1"
    using Cons.prems(1) by (simp_all add: s1_def r)
  moreover have "\<forall>e \<in> set (gs_events s1). length (ev_frame e) = L"
    using Cons.prems(1,3) by (auto simp: s1_def r dest: in_set_dropD)
  moreover have "record_all s (f # fs) = record_all s1 fs" by (simp add: s1_def)
  ultimately show ?case using Cons.IH [of s1] Cons.prems(1,2) by (simp add: algebra_simps)
qed simp

lemma trim_bytes_all:
  "\<forall>e \<in> set es. length (ev_frame e) = L \<Longrightarrow> es = [] \<or> b - int ((length es - 1) * L) > int replayBytes \<Longrightarrow>
     fst (trim_bytes (es @ [x]) b) = [x]"
proof (induction es arbitrary: b)
  case (Cons e es)
  have z: "0 \<le> int (length es) * int L" by simp
  have "b - int (length es) * int L > int replayBytes" using Cons.prems(2) by simp
  with z have b: "b > int replayBytes" by linarith
  have "es = [] \<or> b - int L - int ((length es - 1) * L) > int replayBytes"
    using Cons.prems(2) by (cases es) (auto simp: algebra_simps)
  then have "fst (trim_bytes (es @ [x]) (b - int L)) = [x]" using Cons.IH Cons.prems(1) by simp
  then show ?case using b Cons.prems(1) by (cases es) auto
qed simp

section \<open>Properties\<close>

definition demo_session :: Session where
  "demo_session = \<lparr>gs_ID = ''s'', gs_UserID = ''u'', gs_seq = 0, gs_events = [], gs_eventsBytes = 0,
     gs_send = None, gs_detachedAt = 5, gs_memberLists = []\<rparr>"

definition demo_wire :: wire where
  "demo_wire c = \<lparr>wc_queue = [], wc_closed = False\<rparr>"

lemma demo_session_wf: "session_wf demo_session demo_wire"
  by (simp add: session_wf_def demo_session_def)

text \<open>In a well-formed session a dispatch of a valid event never panics: it takes the next sequence
  number, keeps the session well formed (the queue it holds open is open), and writes to no queue but its own.\<close>

lemma dispatch_safe:
  assumes "session_wf s w" "json_ok d"
  shows "\<exists>s' w'. dispatch s w t d rec now = Some (Inr (gs_seq s + 1), s', w') \<and> session_wf s' w'
    \<and> gs_seq s' = gs_seq s + 1 \<and> (\<forall>c. gs_send s \<noteq> Some c \<longrightarrow> w' c = w c)"
proof -
  have "dispatch s w t d rec now = dispatchRaw s w t d rec now"
    using assms(2) by (simp add: dispatch_def marshal_def)
  then show ?thesis using dispatchRaw_step [OF assms, of t rec now] by metis
qed

lemma dispatch_safe_witness:
  "\<exists>s' w'. dispatch demo_session demo_wire ''MESSAGE_CREATE'' (JStr ''hi'') True 7 = Some (Inr 1, s', w') \<and> session_wf s' w'"
  using dispatch_safe [OF demo_session_wf, of "JStr ''hi''" "''MESSAGE_CREATE''" True 7]
  by (auto simp: demo_session_def)

text \<open>C21: A client that went away at sequence \<open>n\<close> and resumes from \<open>n\<close> on a fresh queue is sent exactly the
  events dispatched while it was away, in order, as long as they are at most 256 and the byte count has room.\<close>

lemma resume_gets_missed:
  assumes "session_wf s w" "gs_send s = None" "list_all (\<lambda>(t, d). json_ok d) evs" "length evs \<le> 256"
    and "gs_eventsBytes s + (\<Sum>f \<leftarrow> event_frames (gs_seq s) evs. int (length f)) \<le> int replayBytes"
    and "\<not> wc_closed (w ch)" "wc_queue (w ch) = []"
  shows "\<exists>s'. dispatch_all s w evs now = Some (s', w)
    \<and> replay s' w (gs_seq s) ch = Some (push_frames w ch (event_frames (gs_seq s) evs))"
proof -
  have wf: "length (gs_events s) \<le> replayLimit" "\<forall>e \<in> set (gs_events s). ev_seq e \<le> gs_seq s"
    using assms(1) by (simp_all add: session_wf_def)
  obtain s' old where D: "dispatch_all s w evs now = Some (s', w)" "set old \<subseteq> set (gs_events s)"
    "map ev_frame (gs_events s') = map ev_frame old @ event_frames (gs_seq s) evs"
    "map ev_seq (gs_events s') = map ev_seq old @ map (\<lambda>i. gs_seq s + 1 + int i) [0..<length evs]"
    using dispatch_all_offline [OF assms(2,3), of "[]" "gs_events s" w now] assms(4,5) wf(1)
    by (auto simp: replayLimit_def)
  define new where "new = drop (length old) (gs_events s')"
  have len: "length (gs_events s') = length old + length evs"
    using arg_cong [OF D(4), of length] by simp
  have take: "map ev_seq (take (length old) (gs_events s')) = map ev_seq old"
    using arg_cong [OF D(4), of "take (length old)"] by (simp add: take_map)
  have new: "map ev_frame new = event_frames (gs_seq s) evs"
      "map ev_seq new = map (\<lambda>i. gs_seq s + 1 + int i) [0..<length evs]"
    using arg_cong [OF D(3), of "drop (length old)"] arg_cong [OF D(4), of "drop (length old)"]
    by (simp_all add: drop_map new_def)
  have "filter (\<lambda>e. ev_seq e > gs_seq s) (take (length old) (gs_events s')) = []"
  proof -
    have "ev_seq ` set (take (length old) (gs_events s')) = ev_seq ` set old"
      using arg_cong [OF take, of set] by simp
    then show ?thesis using D(2) wf(2) by (auto simp: filter_empty_conv) (metis image_eqI imageE not_less subsetD)
  qed
  moreover have "filter (\<lambda>e. ev_seq e > gs_seq s) new = new"
  proof -
    have "ev_seq ` set new = (\<lambda>i. gs_seq s + 1 + int i) ` {0..<length evs}"
      using arg_cong [OF new(2), of set] by simp
    then have "gs_seq s < ev_seq e" if "e \<in> set new" for e using imageI [OF that, of ev_seq] by auto
    then show ?thesis by (intro filter_True) simp
  qed
  ultimately have f: "filter (\<lambda>e. ev_seq e > gs_seq s) (gs_events s') = new"
    unfolding new_def by (metis append_Nil append_take_drop_id filter_append)
  have "length new \<le> chanCap" using len assms(4) by (simp add: new_def chanCap_def)
  then have "replay s' w (gs_seq s) ch = Some (push_frames w ch (map ev_frame new))"
    unfolding replay_def using replay_events_room [of w ch "gs_seq s" "gs_events s'"] assms(6,7) f by simp
  with D(1) new(1) show ?thesis by simp
qed

lemma resume_gets_missed_witness:
  "\<exists>s'. dispatch_all demo_session demo_wire [(''A'', JNull), (''B'', JBool True)] 9 = Some (s', demo_wire)
    \<and> replay s' demo_wire 0 3 = Some (push_frames demo_wire 3 (event_frames 0 [(''A'', JNull), (''B'', JBool True)]))"
proof -
  have "gs_eventsBytes demo_session + (\<Sum>f \<leftarrow> event_frames (gs_seq demo_session) [(''A'', JNull), (''B'', JBool True)]. int (length f))
    \<le> int replayBytes"
    by (simp add: demo_session_def frame_of_def marshal_def payload_def json_string_def JInt_def replayBytes_def
        format_int_def format_nat.simps digit_char_def json_escape_char_def)
  moreover have "gs_send demo_session = None" "gs_seq demo_session = 0" by (simp_all add: demo_session_def)
  ultimately show ?thesis
    using resume_gets_missed [OF demo_session_wf, of "[(''A'', JNull), (''B'', JBool True)]" 3 9]
    by (simp add: demo_wire_def)
qed

text \<open>The byte budget of the log keeps counting frames the 256-frame limit has dropped: after \<open>n\<close> frames of
  \<open>L\<close> bytes that all fit the budget, the log holds at most \<open>256 * L\<close> bytes, yet one frame that exceeds the
  budget only together with the dropped ones leaves the log with nothing but itself.\<close>

lemma replay_log_wiped:
  assumes "gs_events s = []" "gs_eventsBytes s = 0" "fs \<noteq> []" "\<forall>f \<in> set fs. length f = L"
    and "length fs * L \<le> replayBytes" "replayBytes + 255 * L < length fs * L + length f"
  shows "log_bytes (gs_events (record_all s fs)) \<le> 256 * int L
    \<and> gs_events (record_all s (fs @ [f])) = [\<lparr>ev_seq = gs_seq s + int (length fs) + 1, ev_frame = f\<rparr>]"
proof -
  have app: "record_all s (fs @ [f]) = (let s = record_all s fs in record_event (s\<lparr>gs_seq := gs_seq s + 1\<rparr>) (gs_seq s + 1) f)"
    for s by (induction fs arbitrary: s) (simp_all add: Let_def)
  have le: "int (length fs * L) \<le> int replayBytes" using assms(5) by (simp only: of_nat_le_iff)
  define r where "r = record_all s fs"
  have r: "gs_eventsBytes r = int (length fs * L)" "\<forall>e \<in> set (gs_events r). length (ev_frame e) = L"
      "length (gs_events r) \<le> 256" "gs_seq r = gs_seq s + int (length fs)"
    using record_all_small [OF assms(4), of s] assms(1,2) le unfolding r_def replayLimit_def by auto
  have lb: "log_bytes es = int (length es * L)" if "\<forall>e \<in> set es. length (ev_frame e) = L" for es
    using that by (induction es) (auto simp: algebra_simps)
  have "length (gs_events r) * L \<le> 256 * L" using r(3) by (rule mult_right_mono) simp
  then have "log_bytes (gs_events r) \<le> 256 * int L" using lb [OF r(2)] by linarith
  moreover have "gs_events (record_event (r\<lparr>gs_seq := gs_seq r + 1\<rparr>) (gs_seq r + 1) f) = [\<lparr>ev_seq = gs_seq r + 1, ev_frame = f\<rparr>]"
  proof -
    let ?x = "\<lparr>ev_seq = gs_seq r + 1, ev_frame = f\<rparr>" and ?b = "gs_eventsBytes r + int (length f)"
    have "(length (gs_events r) - 1) * L \<le> 255 * L" using r(3) by (intro mult_right_mono) auto
    then have "?b - int ((length (gs_events r) - 1) * L) > int replayBytes"
      using assms(6) r(1) by linarith
    then have "fst (trim_bytes (gs_events r @ [?x]) ?b) = [?x]" by (intro trim_bytes_all [OF r(2)]) simp
    then show ?thesis by (auto simp: record_event_def Let_def replayLimit_def split: prod.splits)
  qed
  ultimately show ?thesis using r(4) by (simp add: app r_def [symmetric] Let_def)
qed

lemma replay_log_wiped_witness:
  "gs_events (record_all demo_session (replicate 41943 (replicate 100 (CHR ''x'')) @ [replicate 26000 (CHR ''y'')]))
    = [\<lparr>ev_seq = 41944, ev_frame = replicate 26000 (CHR ''y'')\<rparr>]"
  using replay_log_wiped [of demo_session "replicate 41943 (replicate 100 (CHR ''x''))" 100 "replicate 26000 (CHR ''y'')"]
  by (simp add: demo_session_def replayBytes_def)

end
