(* ===== verification/Format.thy ===== *)
theory Format
  imports Decimal
begin

text \<open>
  \<open>internal/irc/ircmanage/format.go\<close>: IRC text to Discord markdown. The closures of
  \<open>mircToMarkdown\<close> are functions on their two captured variables, the output \<open>b\<close> and the stack of
  open spans (bottom first, each with the output length before its opening delimiter).
\<close>

definition mdDelims :: "char \<Rightarrow> string" where
  "mdDelims c =
     (if c = CHR 0x02 then ''**''
      else if c = CHR 0x1D then ''*''
      else if c = CHR 0x1F then ''__''
      else if c = CHR 0x1E then ''~~''
      else if c = CHR 0x11 then [CHR 0x60]
      else [])"

type_synonym spans = "(char \<times> nat) list"

definition md_open :: "char \<Rightarrow> string \<times> spans \<Rightarrow> string \<times> spans" where
  "md_open code = (\<lambda>(b, stack). (b @ mdDelims code, stack @ [(code, length b)]))"

definition reopen :: "string \<times> spans \<Rightarrow> char list \<Rightarrow> string \<times> spans" where
  "reopen st codes = foldl (\<lambda>st c. md_open c st) st codes"

definition closeAt :: "nat \<Rightarrow> string \<times> spans \<Rightarrow> string \<times> spans" where
  "closeAt idx = (\<lambda>(b, stack).
     let (code, pos) = stack ! idx in
     if length b = pos + length (mdDelims code) then (take pos b, take idx stack)
     else
       let above = map fst (drop (idx + 1) stack);
           b = b @ concat (map mdDelims (rev above)) @ mdDelims code
       in reopen (b, take idx stack) above)"

fun find_span :: "char \<Rightarrow> spans \<Rightarrow> nat option" where
  "find_span code [] = None"
| "find_span code ((c, p) # st) = (if c = code then Some 0 else map_option Suc (find_span code st))"

definition toggle :: "char \<Rightarrow> string \<times> spans \<Rightarrow> string \<times> spans" where
  "toggle code st = (case find_span code (snd st) of
     Some i \<Rightarrow> closeAt i st
   | None \<Rightarrow> md_open code st)"

text \<open>The loop of \<open>reset\<close>, over the spans from the top.\<close>

fun reset_spans :: "string \<Rightarrow> spans \<Rightarrow> string" where
  "reset_spans b [] = b"
| "reset_spans b ((code, pos) # down) =
     (if length b = pos + length (mdDelims code) then reset_spans (take pos b) down
      else reset_spans (b @ mdDelims code) down)"

definition reset :: "string \<times> spans \<Rightarrow> string \<times> spans" where
  "reset = (\<lambda>(b, stack). (reset_spans b (rev stack), []))"

text \<open>\<open>count_upto P k s\<close> counts at most \<open>k\<close> leading bytes that satisfy the test.\<close>

fun count_upto :: "(char \<Rightarrow> bool) \<Rightarrow> nat \<Rightarrow> string \<Rightarrow> nat" where
  "count_upto P (Suc k) (c # s) = (if P c then Suc (count_upto P k s) else 0)"
| "count_upto P _ _ = 0"

definition mircColorLen :: "string \<Rightarrow> nat" where
  "mircColorLen rest =
     (let n = count_upto is_digit 2 rest in
      if n = 0 then 0
      else case drop n rest of
        c # r \<Rightarrow> if c = CHR '','' then (let bg = count_upto is_digit 2 r in if bg > 0 then n + 1 + bg else n) else n
      | [] \<Rightarrow> n)"

definition isHex :: "char \<Rightarrow> bool" where
  "isHex c = (let n = of_char c :: nat in
     (48 \<le> n \<and> n \<le> 57) \<or> (97 \<le> n \<and> n \<le> 102) \<or> (65 \<le> n \<and> n \<le> 70))"

definition mircHexLen :: "string \<Rightarrow> nat" where
  "mircHexLen rest =
     (let n = count_upto isHex 6 rest in
      if n = 0 then 0
      else case drop n rest of
        c # r \<Rightarrow> if c = CHR '','' then (let bg = count_upto isHex 6 r in if bg > 0 then n + 1 + bg else n) else n
      | [] \<Rightarrow> n)"

definition span_codes :: "char list" where
  "span_codes = [CHR 0x02, CHR 0x11, CHR 0x1D, CHR 0x1E, CHR 0x1F]"

function mirc_loop :: "string \<times> spans \<Rightarrow> string \<Rightarrow> string \<times> spans" where
  "mirc_loop st [] = st"
| "mirc_loop st (ch # s) =
     (if ch \<in> set span_codes then mirc_loop (toggle ch st) s
      else if ch = CHR 0x0F then mirc_loop (reset st) s
      else if ch = CHR 0x16 then mirc_loop st s
      else if ch = CHR 0x03 then mirc_loop st (drop (mircColorLen s) s)
      else if ch = CHR 0x04 then mirc_loop st (drop (mircHexLen s) s)
      else if ch = CHR 0x0A then (let (b, stack) = reset st in mirc_loop (b @ [CHR 0x0A], stack) s)
      else mirc_loop (fst st @ [ch], snd st) s)"
  by pat_completeness auto
termination mirc_loop
  by (relation "measure (\<lambda>(st, s). length s)") auto

definition mircToMarkdown :: "string \<Rightarrow> string" where
  "mircToMarkdown s = fst (reset (mirc_loop ([], []) s))"

definition mirc_controls :: string where
  "mirc_controls = [CHR 0x01, CHR 0x02, CHR 0x03, CHR 0x04, CHR 0x0F, CHR 0x11, CHR 0x16, CHR 0x1D, CHR 0x1E, CHR 0x1F]"

definition FormatIRC :: "string \<Rightarrow> string" where
  "FormatIRC s =
     (if \<not> contains_any s mirc_controls then s
      else
        let body = trim_suffix (trim_prefix s [CHR 0x01]) [CHR 0x01];
            ctcp = has_prefix s [CHR 0x01];
            action = (ctcp \<and> (body = ''ACTION'' \<or> has_prefix body ''ACTION ''));
            s = (if action then trim_prefix (drop 6 body) '' '' else if ctcp then body else s);
            s = mircToMarkdown s
        in if action then ''*'' @ s @ ''*'' else s)"

section \<open>Text without control bytes\<close>

lemma mirc_loop_plain:
  "\<forall>c \<in> set s. c \<notin> set mirc_controls \<and> c \<noteq> CHR 0x0A \<Longrightarrow> mirc_loop (b, st) s = (b @ s, st)"
proof (induction s arbitrary: b)
  case (Cons c s)
  then have "mirc_loop (b @ [c], st) s = (b @ c # s, st)" by simp
  with Cons.prems show ?case by (simp add: mirc_controls_def span_codes_def)
qed simp

section \<open>Delimiters are well nested\<close>

text \<open>
  The abstract output is a sequence of tokens, text bytes and delimiters; \<open>nest\<close> reads it with a
  stack (top first): a delimiter closes the top span or opens a span that is not yet open.
  \<open>None\<close> is a delimiter that would close a span that is not the innermost one.
\<close>

datatype tok = Txt char | Delim char

fun tok_bytes :: "tok \<Rightarrow> string" where
  "tok_bytes (Txt c) = [c]"
| "tok_bytes (Delim c) = mdDelims c"

definition toks_bytes :: "tok list \<Rightarrow> string" where
  "toks_bytes ts = concat (map tok_bytes ts)"

fun nest :: "tok list \<Rightarrow> char list \<Rightarrow> char list option" where
  "nest [] st = Some st"
| "nest (Txt c # ts) st = nest ts st"
| "nest (Delim k # ts) st =
     (case st of
        [] \<Rightarrow> nest ts [k]
      | t # st' \<Rightarrow> if t = k then nest ts st' else if k \<in> set st then None else nest ts (k # st))"

lemma nest_append: "nest (xs @ ys) st = (case nest xs st of None \<Rightarrow> None | Some st' \<Rightarrow> nest ys st')"
  by (induction xs st rule: nest.induct) (auto split: list.splits)

lemma nest_close: "nest (map Delim ks) (ks @ st) = Some st"
  by (induction ks) auto

lemma nest_open: "distinct (ks @ st) \<Longrightarrow> nest (map Delim ks) st = Some (rev ks @ st)"
  by (induction ks arbitrary: st) (auto split: list.splits)

text \<open>
  The simulation: the output is the text of a token list, and the stack records, for every open
  span, the text before its opening delimiter.
\<close>

fun spans_of :: "tok list \<Rightarrow> (char \<times> tok list) list \<Rightarrow> bool" where
  "spans_of ts [] = (nest ts [] = Some [])"
| "spans_of ts ((k, pre) # down) =
     (\<exists>post. ts = pre @ Delim k # post \<and> nest post (k # map fst down) = Some (k # map fst down)
        \<and> k \<in> set span_codes \<and> k \<notin> fst ` set down \<and> spans_of pre down)"

definition fmt_rel :: "string \<times> spans \<Rightarrow> tok list \<Rightarrow> (char \<times> tok list) list \<Rightarrow> bool" where
  "fmt_rel st ts tsp \<longleftrightarrow> fst st = toks_bytes ts \<and>
     rev (snd st) = map (\<lambda>(k, pre). (k, length (toks_bytes pre))) tsp \<and> spans_of ts tsp"

lemma toks_bytes_simps [simp]:
  "toks_bytes [] = []" "toks_bytes (t # ts) = tok_bytes t @ toks_bytes ts"
  "toks_bytes (xs @ ys) = toks_bytes xs @ toks_bytes ys"
  by (simp_all add: toks_bytes_def)

lemma spans_nest: "spans_of ts tsp \<Longrightarrow> nest ts [] = Some (map fst tsp)"
proof (induction tsp arbitrary: ts)
  case (Cons x tsp)
  obtain k pre where x: "x = (k, pre)" by (cases x)
  with Cons.prems obtain post where p: "ts = pre @ Delim k # post" "nest post (k # map fst tsp) = Some (k # map fst tsp)"
    "k \<notin> fst ` set tsp" "spans_of pre tsp" by auto
  have "nest (Delim k # post) (map fst tsp) = nest post (k # map fst tsp)"
    using p(3) by (auto split: list.splits)
  then show ?case using Cons.IH [OF p(4)] p x by (simp add: nest_append)
qed simp

lemma nest_fresh: "k \<notin> set st \<Longrightarrow> nest (Delim k # ts) st = nest ts (k # st)"
  by (cases st) auto

lemma spans_ext:
  "spans_of pre tsp \<Longrightarrow> nest more (map fst tsp) = Some (map fst tsp) \<Longrightarrow> spans_of (pre @ more) tsp"
  by (cases tsp) (auto simp: nest_append)

lemma spans_split:
  "spans_of ts (up @ (k, pre) # down) \<Longrightarrow>
     \<exists>post. ts = pre @ Delim k # post \<and> nest post (k # map fst down) = Some (map fst up @ k # map fst down)
       \<and> spans_of pre down \<and> k \<in> set span_codes \<and> k \<notin> fst ` set down"
proof (induction up arbitrary: ts)
  case (Cons x up)
  obtain k1 pre1 where x: "x = (k1, pre1)" by (cases x)
  with Cons.prems obtain post1 where p1: "ts = pre1 @ Delim k1 # post1"
    "nest post1 (k1 # map fst up @ k # map fst down) = Some (k1 # map fst up @ k # map fst down)"
    "k1 \<notin> fst ` set (up @ (k, pre) # down)" "spans_of pre1 (up @ (k, pre) # down)" by auto
  from Cons.IH [OF p1(4)] obtain post where p: "pre1 = pre @ Delim k # post"
    "nest post (k # map fst down) = Some (map fst up @ k # map fst down)"
    "spans_of pre down" "k \<in> set span_codes" "k \<notin> fst ` set down" by blast
  have "nest (Delim k1 # post1) (map fst up @ k # map fst down) = Some (k1 # map fst up @ k # map fst down)"
  proof -
    have "k1 \<notin> set (map fst up @ k # map fst down)" using p1(3) by auto
    then show ?thesis using p1(2) nest_fresh by simp
  qed
  then have "nest (post @ Delim k1 # post1) (k # map fst down) = Some (k1 # map fst up @ k # map fst down)"
    using p(2) by (simp add: nest_append)
  then show ?case using p p1(1) x by (intro exI [of _ "post @ Delim k1 # post1"]) simp
qed auto

lemma spans_distinct: "spans_of ts tsp \<Longrightarrow> distinct (map fst tsp) \<and> fst ` set tsp \<subseteq> set span_codes"
  by (induction tsp arbitrary: ts) force+

text \<open>The text of a token list, and the cut at an empty span.\<close>

definition texts :: "tok list \<Rightarrow> string" where
  "texts ts = concat (map (\<lambda>t. case t of Txt c \<Rightarrow> [c] | Delim _ \<Rightarrow> []) ts)"

lemma texts_simps [simp]:
  "texts [] = []" "texts (Txt c # ts) = c # texts ts" "texts (Delim k # ts) = texts ts"
  "texts (xs @ ys) = texts xs @ texts ys"
  by (simp_all add: texts_def)

lemma texts_delims [simp]: "texts (map Delim ks) = []"
  by (induction ks) auto

lemma bytes_delims [simp]: "toks_bytes (map Delim ks) = concat (map mdDelims ks)"
  by (induction ks) auto

lemma texts_empty: "toks_bytes ts = [] \<Longrightarrow> texts ts = []"
proof (induction ts)
  case (Cons t ts)
  then show ?case by (cases t) auto
qed simp

text \<open>At a line break no span is open.\<close>

definition lines_closed :: "tok list \<Rightarrow> bool" where
  "lines_closed ts \<longleftrightarrow> (\<forall>a b. ts = a @ Txt (CHR 0x0A) # b \<longrightarrow> nest a [] = Some [])"

lemma lines_closed_prefix: "lines_closed (xs @ ys) \<Longrightarrow> lines_closed xs"
  by (auto simp: lines_closed_def)

lemma lines_closed_snoc:
  "lines_closed xs \<Longrightarrow> (t = Txt (CHR 0x0A) \<Longrightarrow> nest xs [] = Some []) \<Longrightarrow> lines_closed (xs @ [t])"
  unfolding lines_closed_def by (fastforce simp: append_eq_append_conv2 append_eq_Cons_conv Cons_eq_append_conv)

lemma lines_closed_delims: "lines_closed xs \<Longrightarrow> lines_closed (xs @ map Delim ks)"
proof (induction ks rule: rev_induct)
  case (snoc k ks)
  then have "lines_closed ((xs @ map Delim ks) @ [Delim k])" by (intro lines_closed_snoc) auto
  then show ?case by simp
qed simp

definition sim :: "string \<times> spans \<Rightarrow> tok list \<Rightarrow> (char \<times> tok list) list \<Rightarrow> string \<Rightarrow> bool" where
  "sim st ts tsp vis \<longleftrightarrow> fmt_rel st ts tsp \<and> texts ts = vis \<and> lines_closed ts"

lemma sim_open:
  assumes "sim (b, stack) ts tsp vis" "k \<notin> fst ` set tsp" "k \<in> set span_codes"
  shows "sim (md_open k (b, stack)) (ts @ [Delim k]) ((k, ts) # tsp) vis"
  using assms lines_closed_snoc [of ts "Delim k"] by (auto simp: sim_def fmt_rel_def md_open_def)

lemma sim_reopen:
  assumes "sim (b, stack) ts tsp vis" "distinct (codes @ map fst tsp)" "set codes \<subseteq> set span_codes"
  shows "\<exists>ts' tsp'. sim (reopen (b, stack) codes) ts' tsp' vis"
  using assms
proof (induction codes arbitrary: b stack ts tsp)
  case (Cons c codes)
  obtain b' stack' where m: "md_open c (b, stack) = (b', stack')" by (cases "md_open c (b, stack)")
  have "sim (b', stack') (ts @ [Delim c]) ((c, ts) # tsp) vis"
    using sim_open [OF Cons.prems(1), of c] Cons.prems(2,3) m by auto
  then have "\<exists>ts' tsp'. sim (reopen (b', stack') codes) ts' tsp' vis"
    by (rule Cons.IH) (use Cons.prems in auto)
  then show ?case using m by (simp add: reopen_def)
qed (auto simp: reopen_def)

lemma find_span_Some:
  "find_span k st = Some i \<Longrightarrow> i < length st \<and> fst (st ! i) = k"
proof (induction st arbitrary: i)
  case (Cons x st)
  then show ?case by (cases x; cases i) (auto split: if_splits)
qed simp

lemma find_span_None: "find_span k st = None \<longleftrightarrow> k \<notin> fst ` set st"
proof (induction st)
  case (Cons x st)
  then show ?case by (cases x) auto
qed simp

lemma sim_closeAt:
  assumes s: "sim (b, stack) ts tsp vis" and i: "i < length stack"
  shows "\<exists>ts' tsp'. sim (closeAt i (b, stack)) ts' tsp' vis"
proof -
  let ?f = "\<lambda>(k :: char, pre). (k, length (toks_bytes pre))"
  have b: "b = toks_bytes ts" and st: "stack = rev (map ?f tsp)" and sp: "spans_of ts tsp"
    and tx: "texts ts = vis" and lc: "lines_closed ts"
    using s by (auto simp: sim_def fmt_rel_def rev_swap)
  define n where "n = length tsp - 1 - i"
  have n: "n < length tsp" "i = length tsp - 1 - n" using i st by (auto simp: n_def)
  obtain k pre where kp: "tsp ! n = (k, pre)" by (cases "tsp ! n")
  define up where "up = take n tsp"
  define down where "down = drop (Suc n) tsp"
  have tsp: "tsp = up @ (k, pre) # down" using n(1) kp by (simp add: up_def down_def id_take_nth_drop [symmetric] flip: kp)
  have ld: "length down = i" using n by (simp add: down_def)
  have st': "stack = rev (map ?f down) @ (k, length (toks_bytes pre)) # rev (map ?f up)" by (simp add: st tsp)
  have nth: "stack ! i = (k, length (toks_bytes pre))" "take i stack = rev (map ?f down)"
    "drop (i + 1) stack = rev (map ?f up)"
    using ld by (simp_all add: st' nth_append)
  obtain post where p: "ts = pre @ Delim k # post"
    "nest post (k # map fst down) = Some (map fst up @ k # map fst down)" "spans_of pre down"
    "k \<in> set span_codes" "k \<notin> fst ` set down"
    using spans_split [OF sp [unfolded tsp]] by blast
  have fsts: "map fst (rev (map ?f up)) = rev (map fst up)" by (simp add: rev_map comp_def case_prod_beta)
  show ?thesis
  proof (cases "length b = length (toks_bytes pre) + length (mdDelims k)")
    case True
    then have "toks_bytes post = []" by (simp add: b p(1))
    then have "texts pre = vis" using tx texts_empty [of post] by (simp add: p(1))
    moreover have "closeAt i (b, stack) = (toks_bytes pre, rev (map ?f down))"
      using True nth by (simp add: closeAt_def b p(1))
    moreover have "lines_closed pre" using lc p(1) lines_closed_prefix by blast
    ultimately show ?thesis using p(3) by (intro exI [of _ pre] exI [of _ down]) (simp add: sim_def fmt_rel_def rev_map)
  next
    case False
    define ks where "ks = map fst up @ [k]"
    let ?ts = "ts @ map Delim ks"
    have "nest (map Delim ks) (map fst up @ k # map fst down) = Some (map fst down)"
      using nest_close [of ks "map fst down"] by (simp add: ks_def)
    then have "nest (Delim k # post @ map Delim ks) (map fst down) = Some (map fst down)"
      using p(2,5) by (simp add: nest_fresh nest_append del: nest.simps)
    then have "spans_of (pre @ Delim k # post @ map Delim ks) down"
      by (rule spans_ext [OF p(3)])
    then have sp': "spans_of ?ts down" by (simp add: p(1))
    have "sim (toks_bytes ?ts, rev (map ?f down)) ?ts down vis"
      using sp' tx lines_closed_delims [OF lc] by (simp add: sim_def fmt_rel_def rev_map)
    moreover have "concat (map mdDelims ks) = concat (map mdDelims (map fst up)) @ mdDelims k" by (simp add: ks_def)
    then have "closeAt i (b, stack) = reopen (toks_bytes ?ts, rev (map ?f down)) (rev (map fst up))"
      using False nth(1,2) nth(3) [unfolded Suc_eq_plus1 [symmetric]]
      by (simp add: closeAt_def Let_def fsts b)
    moreover have "distinct (rev (map fst up) @ map fst down)" "set (rev (map fst up)) \<subseteq> set span_codes"
      using spans_distinct [OF sp] by (auto simp: tsp)
    ultimately show ?thesis using sim_reopen by metis
  qed
qed

lemma reset_spans_sim:
  assumes "spans_of ts tsp" "texts ts = vis" "lines_closed ts"
  shows "\<exists>ts'. reset_spans (toks_bytes ts) (map (\<lambda>(k, pre). (k, length (toks_bytes pre))) tsp) = toks_bytes ts' \<and>
    nest ts' [] = Some [] \<and> texts ts' = vis \<and> lines_closed ts'"
  using assms
proof (induction tsp arbitrary: ts)
  case Nil
  then show ?case by (intro exI [of _ ts]) simp
next
  case (Cons x tsp)
  obtain k pre where x: "x = (k, pre)" by (cases x)
  with Cons.prems(1) obtain post where p: "ts = pre @ Delim k # post"
    "nest post (k # map fst tsp) = Some (k # map fst tsp)" "k \<notin> fst ` set tsp" "spans_of pre tsp" by auto
  show ?case
  proof (cases "length (toks_bytes ts) = length (toks_bytes pre) + length (mdDelims k)")
    case True
    then have "texts pre = vis" using Cons.prems(2) texts_empty [of post] by (simp add: p(1))
    moreover have "lines_closed pre" using Cons.prems(3) p(1) lines_closed_prefix by blast
    ultimately show ?thesis using Cons.IH [OF p(4)] True by (simp add: x p(1))
  next
    case False
    have "nest (Delim k # post @ [Delim k]) (map fst tsp) = Some (map fst tsp)"
    proof -
      have "k \<notin> set (map fst tsp)" using p(3) by auto
      then have "nest (Delim k # post @ [Delim k]) (map fst tsp) = nest (post @ [Delim k]) (k # map fst tsp)"
        by (rule nest_fresh)
      then show ?thesis using p(2) by (simp add: nest_append del: nest.simps(3)) simp
    qed
    then have "spans_of (pre @ Delim k # post @ [Delim k]) tsp" by (rule spans_ext [OF p(4)])
    then have "spans_of (ts @ [Delim k]) tsp" by (simp add: p(1))
    from Cons.IH [OF this] have "\<exists>ts'. reset_spans (toks_bytes (ts @ [Delim k])) (map (\<lambda>(k, pre). (k, length (toks_bytes pre))) tsp) = toks_bytes ts' \<and>
      nest ts' [] = Some [] \<and> texts ts' = vis \<and> lines_closed ts'"
      using Cons.prems lines_closed_delims [of ts "[k]"] by simp
    then show ?thesis using False by (simp add: x)
  qed
qed

lemma sim_reset:
  assumes "sim st ts tsp vis"
  shows "\<exists>ts'. sim (reset st) ts' [] vis"
proof -
  obtain b stack where st: "st = (b, stack)" by (cases st)
  have "b = toks_bytes ts" "rev stack = map (\<lambda>(k, pre). (k, length (toks_bytes pre))) tsp"
    "spans_of ts tsp" "texts ts = vis" "lines_closed ts"
    using assms st by (auto simp: sim_def fmt_rel_def)
  with reset_spans_sim [of ts tsp vis] show ?thesis by (auto simp: sim_def fmt_rel_def reset_def st)
qed

lemma sim_text:
  assumes "sim st ts tsp vis" "c \<noteq> CHR 0x0A \<or> tsp = []"
  shows "sim (fst st @ [c], snd st) (ts @ [Txt c]) tsp (vis @ [c])"
proof -
  have sp: "spans_of ts tsp" using assms(1) by (auto simp: sim_def fmt_rel_def)
  have "spans_of (ts @ [Txt c]) tsp" by (rule spans_ext [OF sp]) simp
  moreover have "lines_closed (ts @ [Txt c])"
    using assms spans_nest [OF sp] by (intro lines_closed_snoc) (auto simp: sim_def)
  ultimately show ?thesis using assms(1) by (auto simp: sim_def fmt_rel_def)
qed

text \<open>The visible text of an IRC line: what is left without formatting bytes and color parameters.\<close>

function visible :: "string \<Rightarrow> string" where
  "visible [] = []"
| "visible (ch # s) =
     (if ch \<in> set span_codes \<or> ch = CHR 0x0F \<or> ch = CHR 0x16 then visible s
      else if ch = CHR 0x03 then visible (drop (mircColorLen s) s)
      else if ch = CHR 0x04 then visible (drop (mircHexLen s) s)
      else ch # visible s)"
  by pat_completeness auto
termination visible
  by (relation "measure length") auto

lemma sim_toggle:
  assumes "sim st ts tsp vis" "k \<in> set span_codes"
  shows "\<exists>ts' tsp'. sim (toggle k st) ts' tsp' vis"
proof (cases "find_span k (snd st)")
  case None
  have "rev (snd st) = map (\<lambda>(k, pre). (k, length (toks_bytes pre))) tsp"
    using assms(1) by (simp add: sim_def fmt_rel_def)
  then have "fst ` set (rev (snd st)) = fst ` set tsp" by (simp add: image_image case_prod_beta)
  then have "fst ` set (snd st) = fst ` set tsp" by simp
  then have "k \<notin> fst ` set tsp" using None by (simp add: find_span_None)
  then show ?thesis using sim_open [of "fst st" "snd st" ts tsp vis k] assms None by (auto simp: toggle_def)
next
  case (Some i)
  then show ?thesis using sim_closeAt [of "fst st" "snd st" ts tsp vis i] assms(1) find_span_Some [OF Some]
    by (simp add: toggle_def)
qed

lemma sim_loop:
  assumes "sim st ts tsp vis"
  shows "\<exists>ts' tsp'. sim (mirc_loop st s) ts' tsp' (vis @ visible s)"
  using assms
proof (induction st s arbitrary: ts tsp vis rule: mirc_loop.induct)
  case (1 st)
  then show ?case by auto
next
  case (2 st ch s)
  show ?case
  proof (cases "ch \<in> set span_codes")
    case True
    obtain ts' tsp' where "sim (toggle ch st) ts' tsp' vis" using sim_toggle [OF 2(8) True] by blast
    from 2(1) [OF True this] True show ?thesis by simp
  next
    case F1: False
    show ?thesis
    proof (cases "ch = CHR 0x0F")
      case True
      obtain ts' where "sim (reset st) ts' [] vis" using sim_reset [OF 2(8)] by blast
      from 2(2) [OF F1 True this] True F1 show ?thesis by simp
    next
      case F2: False
      show ?thesis
      proof (cases "ch = CHR 0x0A")
        case True
        obtain ts' where r: "sim (reset st) ts' [] vis" using sim_reset [OF 2(8)] by blast
        obtain b' stk where bs: "reset st = (b', stk)" by (cases "reset st")
        from sim_text [OF r, of ch] have t: "sim (b' @ [CHR 0x0A], stk) (ts' @ [Txt ch]) [] (vis @ [ch])"
          using True bs by simp
        have "\<exists>ts' tsp'. sim (mirc_loop (b' @ [CHR 0x0A], stk) s) ts' tsp' ((vis @ [ch]) @ visible s)"
          by (rule 2(6) [OF F1 F2 _ _ _ True refl _ t]) (use True bs in simp_all)
        then show ?thesis using True F1 bs by simp
      next
        case F3: False
        show ?thesis
        proof (cases "ch = CHR 0x16 \<or> ch = CHR 0x03 \<or> ch = CHR 0x04")
          case True
          then consider "ch = CHR 0x16" | "ch = CHR 0x03" | "ch = CHR 0x04" by blast
          then show ?thesis
          proof cases
            case 1
            then show ?thesis using 2(3) [OF F1 F2 1 2(8)] F1 F2 by simp
          next
            case c: 2
            then have "ch \<noteq> CHR 0x16" by simp
            from 2(4) [OF F1 F2 this c 2(8)] c F1 F2 show ?thesis by simp
          next
            case c: 3
            then have "ch \<noteq> CHR 0x16" "ch \<noteq> CHR 0x03" by simp_all
            from 2(5) [OF F1 F2 this c 2(8)] c F1 F2 show ?thesis by simp
          qed
        next
          case F4: False
          have "sim (fst st @ [ch], snd st) (ts @ [Txt ch]) tsp (vis @ [ch])" using sim_text [OF 2(8)] F3 by simp
          from 2(7) [OF F1 F2 _ _ _ F3 this] F1 F2 F3 F4 show ?thesis by simp
        qed
      qed
    qed
  qed
qed

lemma mircToMarkdown_tokens:
  "\<exists>ts. mircToMarkdown s = toks_bytes ts \<and> nest ts [] = Some [] \<and> lines_closed ts \<and> texts ts = visible s"
proof -
  have "sim ([], []) [] [] []" by (simp add: sim_def fmt_rel_def lines_closed_def)
  then obtain ts tsp where "sim (mirc_loop ([], []) s) ts tsp (visible s)" using sim_loop [of "([], [])" "[]" "[]" "[]" s] by auto
  then obtain ts' where "sim (reset (mirc_loop ([], []) s)) ts' [] (visible s)" using sim_reset by blast
  then show ?thesis by (intro exI [of _ ts']) (auto simp: sim_def fmt_rel_def mircToMarkdown_def)
qed

section \<open>Properties\<close>

text \<open>The markdown a mIRC line is turned into is a sequence of visible bytes and delimiters in which every
  delimiter closes the innermost open span or opens a new one, every span is closed at the end of its line,
  and the visible bytes are those of the line, in order.\<close>

lemma mircToMarkdown_nested:
  "\<exists>ts. mircToMarkdown s = toks_bytes ts \<and> nest ts [] = Some [] \<and> lines_closed ts \<and> texts ts = visible s"
  by (rule mircToMarkdown_tokens)

text \<open>A span that stays empty is cut out only when no other span was opened inside it: bold, italic,
  bold off leaves six stray asterisks before the text.\<close>

lemma mircToMarkdown_stray:
  "mircToMarkdown (CHR 0x02 # CHR 0x1D # CHR 0x02 # ''x'') = ''*******x*''"
  by code_simp

end
