(* ===== verification/Multiline.thy ===== *)
theory Multiline
  imports Decimal
begin

text \<open>
  \<open>internal/irc/ircmanage/multiline.go\<close>: outgoing bodies are split into IRC frames and packed into
  draft/multiline batches; incoming batches are joined back into one message. What the code hands
  to the IRC client library is a list of actions: an event it sends, or its \<open>Cmd.Message\<close>.
\<close>

record outFrame =
  of_text :: string
  of_concat :: bool

record ircEvent =
  ie_tags :: "(string \<times> string) list"
  ie_command :: string
  ie_params :: "string list"

datatype ircAction = SendEvent ircEvent | CmdMessage string string

record lineFrame =
  lf_line :: string
  lf_at :: "int option"
  lf_msgid :: string
  lf_reply :: string
  lf_echo :: bool
  lf_source :: string
  lf_concat :: bool

record lineBatch =
  lb_target :: string
  lb_chatRef :: string
  lb_openMsgid :: string
  lb_frames :: "lineFrame list"

definition isMultilineType :: "string \<Rightarrow> bool" where
  "isMultilineType t = (t = ''draft/multiline'' \<or> t = ''multiline'')"

definition isMultilineCap :: "string \<Rightarrow> bool" where
  "isMultilineCap token =
     (let name = hd (split_on (CHR ''='') token) in name = ''draft/multiline'' \<or> name = ''multiline'')"

definition frameBudget :: nat where
  "frameBudget = 350"

fun last_index :: "char \<Rightarrow> string \<Rightarrow> nat option" where
  "last_index c [] = None"
| "last_index c (x # xs) = (case last_index c xs of Some i \<Rightarrow> Some (Suc i) | None \<Rightarrow> if x = c then Some 0 else None)"

definition next_chunk :: "string \<Rightarrow> string" where
  "next_chunk rest =
     (let cut = (if frameBudget > length rest then length rest else frameBudget);
          chunk = take cut rest
      in if cut < length rest then
           (case last_index (CHR '' '') chunk of
              Some sp \<Rightarrow> if sp > 0 then take (sp + 1) chunk else chunk
            | None \<Rightarrow> chunk)
         else chunk)"

lemma last_index_less: "last_index c s = Some i \<Longrightarrow> i < length s"
  by (induction s arbitrary: i) (auto split: option.splits if_splits)

lemma next_chunk_prefix: "\<exists>n. next_chunk rest = take n rest \<and> n \<le> frameBudget \<and> (rest \<noteq> [] \<longrightarrow> 0 < n)"
proof -
  define cut where "cut = (if frameBudget > length rest then length rest else frameBudget)"
  have c: "cut \<le> frameBudget" "cut \<le> length rest" "rest \<noteq> [] \<longrightarrow> 0 < cut" by (auto simp: cut_def frameBudget_def)
  have nc: "next_chunk rest = (if cut < length rest then
        (case last_index (CHR '' '') (take cut rest) of
           Some sp \<Rightarrow> if sp > 0 then take (sp + 1) (take cut rest) else take cut rest
         | None \<Rightarrow> take cut rest)
      else take cut rest)"
    unfolding next_chunk_def Let_def cut_def [symmetric] by (rule refl)
  show ?thesis
  proof (cases "last_index (CHR '' '') (take cut rest)")
    case None
    with nc c show ?thesis by (intro exI [of _ cut]) simp
  next
    case (Some sp)
    then have sp: "sp < cut" using last_index_less [OF Some] by simp
    show ?thesis
    proof (cases "cut < length rest \<and> 0 < sp")
      case True
      then have "next_chunk rest = take (sp + 1) rest" using nc Some sp by (simp add: min_def)
      with sp c show ?thesis by (intro exI [of _ "sp + 1"]) simp
    next
      case False
      with nc c Some show ?thesis by (intro exI [of _ cut]) auto
    qed
  qed
qed

lemma next_chunk_nonempty: "rest \<noteq> [] \<Longrightarrow> 0 < length (next_chunk rest)"
  using next_chunk_prefix [of rest] by auto

function split_line :: "string \<Rightarrow> bool \<Rightarrow> outFrame list" where
  "split_line rest first =
     (if rest = [] then []
      else let chunk = next_chunk rest
           in \<lparr>of_text = chunk, of_concat = \<not> first\<rparr> # split_line (drop (length chunk) rest) False)"
  by pat_completeness auto
termination split_line
  by (relation "measure (\<lambda>(rest, first). length rest)") (auto intro!: diff_less dest: next_chunk_nonempty)

declare split_line.simps [simp del]

definition expand_line :: "string \<Rightarrow> outFrame list" where
  "expand_line ln =
     (if length ln \<le> frameBudget then [\<lparr>of_text = ln, of_concat = False\<rparr>] else split_line ln True)"

text \<open>The packing loop: the batches so far, the current one and its byte count.\<close>

definition pack_frame ::
  "nat \<Rightarrow> nat \<Rightarrow> outFrame \<Rightarrow> outFrame list list \<times> outFrame list \<times> nat \<Rightarrow> outFrame list list \<times> outFrame list \<times> nat" where
  "pack_frame maxLines maxBytes f = (\<lambda>(out, cur, curBytes).
     let cost = length (of_text f) + (if length cur > 0 then 1 else 0) in
     if length cur \<ge> maxLines \<or> (length cur > 0 \<and> curBytes + cost > maxBytes) then
       (if length cur > 0 then (out @ [cur], [f], length (of_text f))
        else (out, cur @ [f], curBytes + length (of_text f)))
     else (out, cur @ [f], curBytes + cost))"

definition planMultiline :: "string list \<Rightarrow> int \<Rightarrow> int \<Rightarrow> outFrame list list" where
  "planMultiline lns maxLines maxBytes =
     (let maxLines = (if maxLines < 1 then 1 else nat maxLines);
          maxBytes = (if maxBytes < 1 then frameBudget else nat maxBytes);
          frames = concat (map expand_line lns);
          (out, cur, _) = fold (pack_frame maxLines maxBytes) frames ([], [], 0)
      in if length cur > 0 then out @ [cur] else out)"

fun to_base36 :: "nat \<Rightarrow> string" where
  "to_base36 n =
     (let d = (\<lambda>k. if k < 10 then digit_char k else char_of (87 + k)) in
      if n < 36 then [d n] else to_base36 (n div 36) @ [d (n mod 36)])"

declare to_base36.simps [simp del]

definition reply_tags :: "string \<Rightarrow> (string \<times> string) list" where
  "reply_tags msgid = (if msgid = [] then [] else [(''+reply'', msgid), (''+draft/reply'', msgid)])"

text \<open>\<open>sendMultilineBatch\<close> takes the counter's next value.\<close>

definition sendMultilineBatch :: "nat \<Rightarrow> string \<Rightarrow> outFrame list \<Rightarrow> string \<Rightarrow> ircAction list" where
  "sendMultilineBatch seq target frames replyMsgid =
     (let ref = ''vb'' @ to_base36 seq in
      [SendEvent \<lparr>ie_tags = reply_tags replyMsgid, ie_command = ''BATCH'',
         ie_params = [''+'' @ ref, ''draft/multiline'', target]\<rparr>]
      @ map (\<lambda>f. SendEvent \<lparr>ie_tags = (''batch'', ref) # (if of_concat f then [(''draft/multiline-concat'', [])] else []),
           ie_command = ''PRIVMSG'', ie_params = [target, of_text f]\<rparr>) frames
      @ [SendEvent \<lparr>ie_tags = [], ie_command = ''BATCH'', ie_params = [''-'' @ ref]\<rparr>])"

fun send_batches :: "nat \<Rightarrow> string \<Rightarrow> outFrame list list \<Rightarrow> string \<Rightarrow> ircAction list \<times> nat" where
  "send_batches seq target [] replyMsgid = ([], seq)"
| "send_batches seq target (b # bs) replyMsgid =
     (let (acts, seq') = send_batches (seq + 1) target bs []
      in (sendMultilineBatch (seq + 1) target b replyMsgid @ acts, seq'))"

definition drop_blank_tail :: "string list \<Rightarrow> string list" where
  "drop_blank_tail lns = rev (dropWhile (\<lambda>l. trim_space l = []) (rev lns))"

definition sendLines ::
  "nat \<Rightarrow> bool \<Rightarrow> int \<times> int \<Rightarrow> string \<Rightarrow> string \<Rightarrow> string \<Rightarrow> ircAction list \<times> nat" where
  "sendLines seq multilineCap limits target content replyMsgid =
     (if CHR 0x0A \<notin> set content then
        (if replyMsgid \<noteq> [] then
           ([SendEvent \<lparr>ie_tags = reply_tags replyMsgid, ie_command = ''PRIVMSG'', ie_params = [target, content]\<rparr>], seq)
         else ([CmdMessage target content], seq))
      else
        let lns = drop_blank_tail (split_on (CHR 0x0A) content) in
        if length lns = 0 then ([], seq)
        else if \<not> multilineCap then
          (map (CmdMessage target) (filter (\<lambda>l. trim_space l \<noteq> []) lns), seq)
        else
          let (maxBytes, maxLines) = limits
          in send_batches seq target (planMultiline lns maxLines maxBytes) replyMsgid)"

section \<open>Incoming batches\<close>

definition batchAnchorMsgid :: "lineBatch \<Rightarrow> string" where
  "batchAnchorMsgid acc =
     (if lb_openMsgid acc \<noteq> [] then lb_openMsgid acc
      else case List.find (\<lambda>f. lf_msgid f \<noteq> []) (lb_frames acc) of Some f \<Rightarrow> lf_msgid f | None \<Rightarrow> [])"

definition discover :: "string \<Rightarrow> string list \<Rightarrow> string list" where
  "discover m out = (if m = [] \<or> m \<in> set out then out else out @ [m])"

definition batchExtraMsgids :: "lineBatch \<Rightarrow> string list" where
  "batchExtraMsgids acc =
     (let out = (if lb_openMsgid acc \<noteq> [] then [lb_openMsgid acc] else []);
          out = fold (\<lambda>f out. discover (lf_msgid f) out) (lb_frames acc) out
      in if length out > 0 then rev (remove1 (batchAnchorMsgid acc) (rev out)) else out)"

definition glue :: "bool \<Rightarrow> string \<Rightarrow> string list \<Rightarrow> string list" where
  "glue concatTag line out =
     (if concatTag \<and> length out > 0 then butlast out @ [last out @ line] else out @ [line])"

definition accLines :: "lineBatch \<Rightarrow> string list" where
  "accLines acc = fold (\<lambda>f out. glue (lf_concat f) (lf_line f) out) (lb_frames acc) []"

section \<open>Splitting and joining\<close>

text \<open>What the receiver of one outgoing batch accumulates, and the lines that the joining of incoming
  batches makes of it.\<close>

definition received_batch :: "outFrame list \<Rightarrow> lineBatch" where
  "received_batch b = \<lparr>lb_target = [], lb_chatRef = [], lb_openMsgid = [],
     lb_frames = map (\<lambda>f. \<lparr>lf_line = of_text f, lf_at = None, lf_msgid = [], lf_reply = [], lf_echo = False,
       lf_source = [], lf_concat = of_concat f\<rparr>) b\<rparr>"

definition join_frames :: "outFrame list \<Rightarrow> string list" where
  "join_frames b = accLines (received_batch b)"

lemma join_frames_fold: "join_frames fs = fold (\<lambda>f out. glue (of_concat f) (of_text f) out) fs []"
proof -
  have "fold (\<lambda>f out. glue (lf_concat f) (lf_line f) out) (lb_frames (received_batch fs)) out
      = fold (\<lambda>f out. glue (of_concat f) (of_text f) out) fs out" for out
    by (induction fs arbitrary: out) (auto simp: received_batch_def)
  then show ?thesis by (simp add: join_frames_def accLines_def)
qed

text \<open>The messages of several batches put one below the other; a batch that begins in the middle of a line
  continues the last line of the batch before it.\<close>

definition put_below :: "outFrame list \<Rightarrow> string list \<Rightarrow> string list" where
  "put_below b out =
     (if of_concat (hd b) \<and> out \<noteq> [] then butlast out @ (last out @ hd (join_frames b)) # tl (join_frames b)
      else out @ join_frames b)"

lemma split_line_Nil [simp]: "split_line [] b = []"
  by (simp add: split_line.simps)

lemma fold_glue_split:
  "out \<noteq> [] \<Longrightarrow> fold (\<lambda>f out. glue (of_concat f) (of_text f) out) (split_line rest False) out
     = butlast out @ [last out @ rest]"
proof (induction rest "False" arbitrary: out rule: split_line.induct)
  case (1 rest)
  show ?case
  proof (cases "rest = []")
    case True
    with 1(2) show ?thesis by simp
  next
    case False
    let ?c = "next_chunk rest"
    obtain n where n: "?c = take n rest" using next_chunk_prefix by blast
    have r: "?c @ drop (length ?c) rest = rest" unfolding n by (metis append_take_drop_id length_take min.commute take_all_iff min_def drop_all append_Nil2 nat_le_linear)
    have "fold (\<lambda>f out. glue (of_concat f) (of_text f) out) (split_line rest False) out
        = fold (\<lambda>f out. glue (of_concat f) (of_text f) out) (split_line (drop (length ?c) rest) False)
            (butlast out @ [last out @ ?c])"
      using False 1(2) by (subst split_line.simps) (simp add: Let_def glue_def)
    also have "\<dots> = butlast out @ [last out @ ?c @ drop (length ?c) rest]"
      using 1(1) [OF False refl, of "butlast out @ [last out @ ?c]"] by simp
    finally show ?thesis using r by simp
  qed
qed

lemma fold_glue_expand:
  "fold (\<lambda>f out. glue (of_concat f) (of_text f) out) (expand_line ln) out = out @ [ln]"
proof (cases "length ln \<le> frameBudget")
  case True
  then show ?thesis by (simp add: expand_line_def glue_def)
next
  case False
  then have ne: "ln \<noteq> []" by auto
  let ?c = "next_chunk ln"
  obtain n where n: "?c = take n ln" using next_chunk_prefix by blast
  have r: "?c @ drop (length ?c) ln = ln" unfolding n by (metis append_take_drop_id length_take min.commute take_all_iff min_def drop_all append_Nil2 nat_le_linear)
  have "fold (\<lambda>f out. glue (of_concat f) (of_text f) out) (split_line ln True) out
      = fold (\<lambda>f out. glue (of_concat f) (of_text f) out) (split_line (drop (length ?c) ln) False) (out @ [?c])"
    using ne by (subst split_line.simps) (simp add: Let_def glue_def)
  also have "\<dots> = out @ [ln]" using fold_glue_split [of "out @ [?c]"] r by simp
  finally show ?thesis using False by (simp add: expand_line_def)
qed

lemma join_expand: "join_frames (concat (map expand_line lns)) = lns"
proof -
  have "fold (\<lambda>f out. glue (of_concat f) (of_text f) out) (concat (map expand_line lns)) out = out @ lns" for out
    by (induction lns arbitrary: out) (auto simp: fold_glue_expand)
  then show ?thesis by (simp add: join_frames_fold)
qed

lemma glue_simps:
  "glue True line (out @ [l]) = out @ [l @ line]" "glue True line [l] = [l @ line]"
  "glue False line out = out @ [line]" "glue c line [] = [line]"
  by (simp_all add: glue_def)

lemma fold_glue_Cons:
  "fold (\<lambda>f out. glue (of_concat f) (of_text f) out) fs (out @ [l])
     = out @ fold (\<lambda>f out. glue (of_concat f) (of_text f) out) fs [l]"
proof (induction fs arbitrary: out l)
  case (Cons f fs)
  show ?case
  proof (cases "of_concat f")
    case True
    then show ?thesis by (simp add: glue_simps Cons.IH)
  next
    case False
    then show ?thesis using Cons.IH [of "out @ [l]" "of_text f"] Cons.IH [of "[l]" "of_text f"]
      by (simp add: glue_simps)
  qed
qed simp

lemma fold_glue_start:
  "fold (\<lambda>f out. glue (of_concat f) (of_text f) out) fs [k @ l]
     = (let r = fold (\<lambda>f out. glue (of_concat f) (of_text f) out) fs [l] in (k @ hd r) # tl r)"
proof (induction fs arbitrary: l)
  case (Cons f fs)
  show ?case
  proof (cases "of_concat f")
    case True
    then show ?thesis using Cons.IH [of "l @ of_text f"] by (simp add: glue_simps)
  next
    case False
    then show ?thesis
      using fold_glue_Cons [of fs "[k @ l]" "of_text f"] fold_glue_Cons [of fs "[l]" "of_text f"]
      by (simp add: glue_simps)
  qed
qed simp

lemma fold_glue_batch:
  assumes "b \<noteq> []"
  shows "fold (\<lambda>f out. glue (of_concat f) (of_text f) out) b out = put_below b out"
proof -
  obtain f fs where b: "b = f # fs" using assms by (cases b) auto
  have j: "join_frames b = fold (\<lambda>f out. glue (of_concat f) (of_text f) out) fs [of_text f]"
    by (simp add: join_frames_fold b glue_simps)
  show ?thesis
  proof (cases "of_concat f \<and> out \<noteq> []")
    case True
    have "fold (\<lambda>f out. glue (of_concat f) (of_text f) out) b out
        = fold (\<lambda>f out. glue (of_concat f) (of_text f) out) fs (butlast out @ [last out @ of_text f])"
      using True by (simp add: b glue_def [of True "of_text f" out])
    also have "\<dots> = butlast out @ fold (\<lambda>f out. glue (of_concat f) (of_text f) out) fs [last out @ of_text f]"
      by (rule fold_glue_Cons)
    also have "\<dots> = put_below b out"
      using True j fold_glue_start [of fs "last out" "of_text f"] by (simp add: put_below_def b Let_def)
    finally show ?thesis .
  next
    case False
    then have "fold (\<lambda>f out. glue (of_concat f) (of_text f) out) b out
        = fold (\<lambda>f out. glue (of_concat f) (of_text f) out) fs (out @ [of_text f])"
      by (auto simp: b glue_def [of "of_concat f" "of_text f" out] glue_simps)
    then show ?thesis using False j fold_glue_Cons [of fs out "of_text f"] by (auto simp: put_below_def b)
  qed
qed

lemma fold_glue_batches:
  "\<forall>b \<in> set bs. b \<noteq> [] \<Longrightarrow> fold (\<lambda>f out. glue (of_concat f) (of_text f) out) (concat bs) out = fold put_below bs out"
  by (induction bs arbitrary: out) (simp_all add: fold_glue_batch)

lemma expand_short:
  "\<forall>l \<in> set lns. length l \<le> frameBudget \<Longrightarrow> f \<in> set (concat (map expand_line lns)) \<Longrightarrow> \<not> of_concat f"
  by (auto simp: expand_line_def)

lemma put_below_apart: "\<forall>b \<in> set bs. \<not> of_concat (hd b) \<Longrightarrow> fold put_below bs out = out @ concat (map join_frames bs)"
  by (induction bs arbitrary: out) (simp_all add: put_below_def)

lemma split_line_budget: "f \<in> set (split_line rest b) \<Longrightarrow> length (of_text f) \<le> frameBudget"
proof (induction rest b rule: split_line.induct)
  case (1 rest b)
  show ?case
  proof (cases "rest = []")
    case False
    obtain n where "next_chunk rest = take n rest" "n \<le> frameBudget" using next_chunk_prefix by blast
    then have "length (next_chunk rest) \<le> frameBudget" by simp
    with 1 False show ?thesis by (subst (asm) split_line.simps) (auto simp: Let_def)
  qed (use 1 in simp)
qed

lemma expand_line_budget: "f \<in> set (expand_line ln) \<Longrightarrow> length (of_text f) \<le> frameBudget"
  by (auto simp: expand_line_def split_line_budget split: if_splits)

section \<open>The limits of a plan\<close>

definition batch_body :: "outFrame list \<Rightarrow> string" where
  "batch_body b = join [CHR 0x0A] (map of_text b)"

lemma join_snoc: "join sep (xs @ [y]) = (if xs = [] then y else join sep xs @ sep @ y)"
  by (induction sep xs rule: join.induct) auto

lemma length_batch_snoc:
  "length (batch_body (b @ [f])) = length (batch_body b) + length (of_text f) + (if b = [] then 0 else 1)"
  by (auto simp: batch_body_def join_snoc)

definition batch_ok :: "nat \<Rightarrow> nat \<Rightarrow> outFrame list \<Rightarrow> bool" where
  "batch_ok maxLines maxBytes b \<longleftrightarrow> b \<noteq> [] \<and> length b \<le> maxLines \<and>
     (length (batch_body b) \<le> maxBytes \<or> length b = 1)"

lemma pack_frames:
  fixes maxLines maxBytes :: nat
  assumes "1 \<le> maxLines"
  defines "ok \<equiv> batch_ok maxLines maxBytes"
  shows "list_all ok out \<Longrightarrow> cur = [] \<or> ok cur \<Longrightarrow> n = length (batch_body cur) \<Longrightarrow>
    (case fold (pack_frame maxLines maxBytes) fs (out, cur, n) of (out', cur', n') \<Rightarrow>
       list_all ok out' \<and> (cur' = [] \<or> ok cur') \<and> concat out' @ cur' = concat out @ cur @ fs
       \<and> (fs \<noteq> [] \<longrightarrow> cur' \<noteq> []))"
proof (induction fs arbitrary: out cur n)
  case (Cons f fs)
  obtain out1 cur1 n1 where p: "pack_frame maxLines maxBytes f (out, cur, n) = (out1, cur1, n1)"
    by (cases "pack_frame maxLines maxBytes f (out, cur, n)")
  have "list_all ok out1 \<and> cur1 \<noteq> [] \<and> ok cur1 \<and> n1 = length (batch_body cur1)
      \<and> concat out1 @ cur1 = concat out @ cur @ [f]"
  proof (cases "length cur \<ge> maxLines \<or> (length cur > 0 \<and> n + (length (of_text f) + 1) > maxBytes)")
    case True
    then have ne: "cur \<noteq> []" using assms(1) by auto
    with True p have "out1 = out @ [cur]" "cur1 = [f]" "n1 = length (of_text f)"
      by (auto simp: pack_frame_def Let_def)
    moreover have "ok [f]" "length (batch_body [f]) = length (of_text f)"
      using assms(1) by (simp_all add: ok_def batch_ok_def batch_body_def)
    ultimately show ?thesis using Cons.prems ne by simp
  next
    case False
    then have "out1 = out" "cur1 = cur @ [f]" "n1 = n + length (of_text f) + (if cur = [] then 0 else 1)"
      using p assms(1) by (auto simp: pack_frame_def Let_def split: if_splits)
    moreover have "ok (cur @ [f])"
      using Cons.prems(2,3) False length_batch_snoc [of cur f] assms(1)
      by (cases "cur = []") (auto simp: ok_def batch_ok_def)
    ultimately show ?thesis using Cons.prems(1,3) length_batch_snoc [of cur f] by simp
  qed
  with Cons.IH [of out1 cur1 n1] p show ?case by (auto split: prod.splits)
qed simp

lemma planMultiline_plan:
  defines "frames lns \<equiv> concat (map expand_line lns)"
  shows "concat (planMultiline lns ml mb) = frames lns"
    "\<forall>b \<in> set (planMultiline lns ml mb). batch_ok (if ml < 1 then 1 else nat ml) (if mb < 1 then frameBudget else nat mb) b"
proof -
  define l where "l = (if ml < 1 then 1 else nat ml)"
  define m where "m = (if mb < 1 then frameBudget else nat mb)"
  have l: "1 \<le> l" by (auto simp: l_def)
  obtain out cur n where r: "fold (pack_frame l m) (frames lns) ([], [], 0) = (out, cur, n)"
    by (cases "fold (pack_frame l m) (frames lns) ([], [], 0)")
  have "list_all (batch_ok l m) out \<and> (cur = [] \<or> batch_ok l m cur) \<and> concat out @ cur = frames lns"
    using pack_frames [OF l, of m "[]" "[]" 0 "frames lns"] r by (simp add: batch_body_def)
  moreover have "planMultiline lns ml mb = (if length cur > 0 then out @ [cur] else out)"
    using r by (simp add: planMultiline_def l_def m_def frames_def)
  ultimately show "concat (planMultiline lns ml mb) = frames lns"
    "\<forall>b \<in> set (planMultiline lns ml mb). batch_ok (if ml < 1 then 1 else nat ml) (if mb < 1 then frameBudget else nat mb) b"
    unfolding l_def [symmetric] m_def [symmetric] by (auto simp: list_all_iff)
qed

section \<open>The ids of an incoming batch\<close>

definition batch_msgids :: "lineBatch \<Rightarrow> string list" where
  "batch_msgids acc = filter (\<lambda>m. m \<noteq> []) (lb_openMsgid acc # map lf_msgid (lb_frames acc))"

lemma discover_fold:
  "distinct out \<Longrightarrow> distinct (fold (\<lambda>f out. discover (lf_msgid f) out) fs out) \<and>
     set (fold (\<lambda>f out. discover (lf_msgid f) out) fs out) = set out \<union> (set (map lf_msgid fs) - {[]})"
proof (induction fs arbitrary: out)
  case (Cons f fs)
  have "distinct (discover (lf_msgid f) out)" "set (discover (lf_msgid f) out) = set out \<union> ({lf_msgid f} - {[]})"
    using Cons.prems by (auto simp: discover_def)
  with Cons.IH [of "discover (lf_msgid f) out"] show ?case by auto
qed simp

lemma batchAnchor_first: "batchAnchorMsgid acc = (case batch_msgids acc of [] \<Rightarrow> [] | m # _ \<Rightarrow> m)"
proof (cases "lb_openMsgid acc = []")
  case True
  have "(case List.find (\<lambda>f. lf_msgid f \<noteq> []) fs of Some f \<Rightarrow> lf_msgid f | None \<Rightarrow> []) =
    (case filter (\<lambda>m. m \<noteq> []) (map lf_msgid fs) of [] \<Rightarrow> [] | m # _ \<Rightarrow> m)" for fs
    by (induction fs) auto
  with True show ?thesis by (simp add: batchAnchorMsgid_def batch_msgids_def)
qed (simp add: batchAnchorMsgid_def batch_msgids_def)

lemma batchExtra_set:
  "distinct (batchExtraMsgids acc) \<and> set (batchExtraMsgids acc) = set (batch_msgids acc) - {batchAnchorMsgid acc}"
proof -
  define out where "out = fold (\<lambda>f out. discover (lf_msgid f) out) (lb_frames acc)
      (if lb_openMsgid acc \<noteq> [] then [lb_openMsgid acc] else [])"
  have o: "distinct out" "set out = set (batch_msgids acc)"
    using discover_fold [of "if lb_openMsgid acc \<noteq> [] then [lb_openMsgid acc] else []" "lb_frames acc"]
    by (auto simp: out_def batch_msgids_def)
  have "batchExtraMsgids acc = (if length out > 0 then rev (remove1 (batchAnchorMsgid acc) (rev out)) else out)"
    by (simp add: batchExtraMsgids_def out_def)
  then show ?thesis using o by (auto simp: set_remove1_eq)
qed

section \<open>Properties\<close>

text \<open>A line of 700 bytes sent in batches of one frame arrives as two messages.\<close>

lemma long_line_arrives_broken:
  "let batches = planMultiline [replicate 700 (CHR ''a'')] 1 4096
   in map join_frames batches = [[replicate 350 (CHR ''a'')], [replicate 350 (CHR ''a'')]]"
  by code_simp

text \<open>C25: The plan of an outgoing message splits it into batches of at most the negotiated number of lines
  (at least one) and, unless a batch is a single line, of bytes; every frame fits the frame budget and no batch
  is empty. A receiver joins the frames of each batch by itself (as the code joins incoming batches); the
  messages it gets, put one below the other, are the lines of the message when no line is longer than 350
  bytes. In general they are, once a batch that begins in the middle of a long line is appended to the last
  line of the batch before it: a line that falls on the end of a batch arrives in two pieces.\<close>

lemma planMultiline_correct:
  fixes lns maxLines maxBytes
  defines "batches \<equiv> planMultiline lns maxLines maxBytes"
  shows "fold put_below batches [] = lns
    \<and> ((\<forall>l \<in> set lns. length l \<le> frameBudget) \<longrightarrow> concat (map join_frames batches) = lns)
    \<and> (\<forall>b \<in> set batches.
        batch_ok (if maxLines < 1 then 1 else nat maxLines) (if maxBytes < 1 then frameBudget else nat maxBytes) b
        \<and> (\<forall>f \<in> set b. length (of_text f) \<le> frameBudget))"
proof (intro conjI ballI impI)
  note plan = planMultiline_plan [of lns maxLines maxBytes, folded batches_def]
  have ne: "\<forall>b \<in> set batches. b \<noteq> []" using plan(2) by (auto simp: batch_ok_def)
  show below: "fold put_below batches [] = lns"
    using fold_glue_batches [OF ne, of "[]"] join_expand [of lns] by (simp add: plan(1) join_frames_fold)
  show "concat (map join_frames batches) = lns" if short: "\<forall>l \<in> set lns. length l \<le> frameBudget"
  proof -
    have "\<not> of_concat (hd b)" if "b \<in> set batches" for b
      using that ne plan(1) by (intro expand_short [OF short]) (metis UN_I hd_in_set set_concat)
    then show ?thesis using put_below_apart [of batches "[]"] below by simp
  qed
  fix b assume b: "b \<in> set batches"
  then show "batch_ok (if maxLines < 1 then 1 else nat maxLines) (if maxBytes < 1 then frameBudget else nat maxBytes) b"
    using plan(2) by blast
  fix f assume "f \<in> set b"
  with b have "f \<in> set (concat batches)" by auto
  then show "length (of_text f) \<le> frameBudget" by (auto simp: plan(1) expand_line_budget)
qed

lemma planMultiline_correct_witness:
  "batch_ok 2 100 (hd (planMultiline [''a'', ''b'', ''c''] 2 100))
    \<and> concat (map join_frames (planMultiline [''a'', ''b'', ''c''] 2 100)) = [''a'', ''b'', ''c'']"
proof -
  have "hd (planMultiline [''a'', ''b'', ''c''] 2 100) \<in> set (planMultiline [''a'', ''b'', ''c''] 2 100)"
    by code_simp
  then show ?thesis
    using planMultiline_correct [of "[''a'', ''b'', ''c'']" 2 100] by (simp add: frameBudget_def)
qed

text \<open>The anchor of an incoming batch is the first message id of its frames, the batch opening included,
  and the alias ids are exactly the other distinct ones.\<close>

lemma batch_ids:
  "batchAnchorMsgid acc = (case batch_msgids acc of [] \<Rightarrow> [] | m # _ \<Rightarrow> m)
    \<and> distinct (batchExtraMsgids acc) \<and> set (batchExtraMsgids acc) = set (batch_msgids acc) - {batchAnchorMsgid acc}"
  using batchAnchor_first batchExtra_set by blast

end
