(* ===== verification/Model.thy ===== *)
theory Model
  imports Json Snowflake
begin

text \<open>
  \<open>internal/discord/model\<close>: the identities and wire objects of the Discord side. \<open>hash/fnv\<close> is
  FNV-1a on 64-bit words. A Go map is a JSON object with one entry per key.
\<close>

section \<open>Hashed identities\<close>

definition fnv64a :: "string \<Rightarrow> 64 word" where
  "fnv64a s = foldl (\<lambda>h c. (h XOR of_nat (of_char c)) * 1099511628211) 14695981039346656037 s"

definition hashSnowflake :: "string \<Rightarrow> string" where
  "hashSnowflake seed =
     (let v = fnv64a seed;
          ms = 1420070400000 + v mod 63072000000;
          sf = push_bit 22 ms OR (v AND 0x3FFFFF)
      in format_nat (unat sf))"

definition IrcAuthorID :: "string \<Rightarrow> string" where
  "IrcAuthorID authorID = (if \<not> has_prefix authorID ''irc:'' then authorID else hashSnowflake authorID)"

section \<open>Roles\<close>

record ircRoleDef =
  rd_Mode :: string
  rd_Name :: string
  rd_Color :: int
  rd_Position :: int

definition ircRoleDefs :: "ircRoleDef list" where
  "ircRoleDefs =
     [\<lparr>rd_Mode = ''q'', rd_Name = ''Founder'', rd_Color = 0xFAA61A, rd_Position = 5\<rparr>,
      \<lparr>rd_Mode = ''a'', rd_Name = ''Admin'', rd_Color = 0xEB459E, rd_Position = 4\<rparr>,
      \<lparr>rd_Mode = ''o'', rd_Name = ''Operator'', rd_Color = 0x1ABC9C, rd_Position = 3\<rparr>,
      \<lparr>rd_Mode = ''h'', rd_Name = ''Half-op'', rd_Color = 0x57F287, rd_Position = 2\<rparr>,
      \<lparr>rd_Mode = ''v'', rd_Name = ''Voice'', rd_Color = 0x5865F2, rd_Position = 1\<rparr>]"

definition IrcRoleModes :: "string list" where
  "IrcRoleModes = map rd_Mode ircRoleDefs"

definition IrcModeRank :: "string \<Rightarrow> int" where
  "IrcModeRank mode =
     (case List.find (\<lambda>d. rd_Mode d = mode) ircRoleDefs of Some d \<Rightarrow> rd_Position d | None \<Rightarrow> 0)"

definition IrcRoleID :: "string \<Rightarrow> string" where
  "IrcRoleID mode = hashSnowflake (''irc-role:'' @ mode)"

definition hex_lower :: "char \<Rightarrow> bool" where
  "hex_lower c = (is_digit c \<or> (97 \<le> (of_char c :: nat) \<and> (of_char c :: nat) \<le> 102))"

definition ParseIrcColor :: "string \<Rightarrow> string option" where
  "ParseIrcColor v =
     (let v = to_lower (trim_space v);
          v = trim_prefix v ''#'' in
      if length v \<noteq> 6 then None
      else if \<not> list_all hex_lower v then None
      else Some (''#'' @ v))"

definition ircColorRolePosition :: int where
  "ircColorRolePosition = 6"

definition IrcColorRoleID :: "string \<Rightarrow> string" where
  "IrcColorRoleID color = hashSnowflake (''irc-color:'' @ color)"

definition hex_value :: "string \<Rightarrow> nat" where
  "hex_value s = foldl (\<lambda>a c. 16 * a + (let n = of_char c in if n \<ge> 97 then n - 87 else n - 48)) 0 s"

definition upper_char :: "char \<Rightarrow> char" where
  "upper_char c = (let n = of_char c :: nat in if 97 \<le> n \<and> n \<le> 122 then char_of (n - 32) else c)"

definition role_payload :: "string \<Rightarrow> string \<Rightarrow> int \<Rightarrow> bool \<Rightarrow> int \<Rightarrow> string \<Rightarrow> json" where
  "role_payload i name color hoist position perms =
     JObj [(''id'', JStr i), (''name'', JStr name), (''color'', JInt color), (''hoist'', JBool hoist),
       (''icon'', JNull), (''unicode_emoji'', JNull), (''position'', JInt position),
       (''permissions'', JStr perms), (''managed'', JBool False), (''mentionable'', JBool False),
       (''flags'', JInt 0)]"

definition IrcColorRolePayload :: "string \<Rightarrow> json option" where
  "IrcColorRolePayload color =
     (case ParseIrcColor color of
        None \<Rightarrow> None
      | Some normalized \<Rightarrow>
        Some (role_payload (IrcColorRoleID normalized) (''Color '' @ map upper_char normalized)
          (int (hex_value (trim_prefix normalized ''#''))) False ircColorRolePosition ''0''))"

definition IrcRolePayloads :: "json list" where
  "IrcRolePayloads =
     map (\<lambda>d. role_payload (IrcRoleID (rd_Mode d)) (rd_Name d) (rd_Color d) True (rd_Position d) ''0'') ircRoleDefs"

definition EveryoneRolePayload :: "string \<Rightarrow> bool \<Rightarrow> json" where
  "EveryoneRolePayload guildID reactCapable =
     role_payload guildID ''@everyone'' 0 False 0
       (if reactCapable then ''104324740529265'' else ''104324740529201'')"

section \<open>Members and users\<close>

definition MemberListID :: "string \<Rightarrow> string \<Rightarrow> string" where
  "MemberListID guildID channelID =
     (if channelID = [] then guildID @ '':everyone:0,99'' else guildID @ '':'' @ channelID @ '':0,99'')"

definition ClydeID :: string where
  "ClydeID = ''901392366394585088''"

definition ClydeNetID :: string where
  "ClydeNetID = ''clyde''"

definition peer_user :: "string \<Rightarrow> string \<Rightarrow> bool \<Rightarrow> json" where
  "peer_user i name isBot =
     JObj [(''id'', JStr i), (''username'', JStr name), (''discriminator'', JStr ''0''), (''bot'', JBool isBot)]"

definition DMPeerID :: "string \<Rightarrow> string \<Rightarrow> json" where
  "DMPeerID nick i = (if nick = ''Clyde'' then peer_user ClydeID ''Clyde'' True else peer_user i nick False)"

definition DMPeer :: "string \<Rightarrow> json" where
  "DMPeer nick = DMPeerID nick (IrcAuthorID (''irc:'' @ nick))"

definition ClydeMember :: "string \<Rightarrow> json" where
  "ClydeMember joinedAt =
     JObj [(''user'', peer_user ClydeID ''Clyde'' True), (''roles'', JArr []), (''joined_at'', JStr joinedAt)]"

definition AvatarPtr :: "string \<Rightarrow> json" where
  "AvatarPtr hash = (if hash = [] then JNull else JStr hash)"

definition ToUser :: "User \<Rightarrow> json" where
  "ToUser u =
     JObj [(''id'', JStr (u_ID u)), (''username'', JStr (u_Username u)), (''discriminator'', JStr ''0''),
       (''avatar'', AvatarPtr (u_Avatar u)), (''bot'', JBool False), (''system'', JBool False),
       (''flags'', JInt 0), (''public_flags'', JInt 0), (''email'', JStr (u_Email u)),
       (''verified'', JBool True), (''mfa_enabled'', JBool False), (''nsfw_allowed'', JBool True),
       (''premium_type'', JInt 2)]"

text \<open>\<open>ceilSecond\<close> on nanoseconds since the epoch; \<open>Truncate\<close> rounds down from the zero time.\<close>

definition ceilSecond :: "time \<Rightarrow> time" where
  "ceilSecond t = t - (t - zeroTime) mod 1000000000 + 1000000000"

section \<open>Settings\<close>

definition DefaultUserSettings :: "(string \<times> json) list" where
  "DefaultUserSettings =
     [(''theme'', JStr ''dark''), (''locale'', JStr ''en-US''), (''message_display_compact'', JBool False),
      (''developer_mode'', JBool False), (''convert_emoticons'', JBool True), (''show_current_game'', JBool True),
      (''restricted_guilds'', JArr []), (''guild_folders'', JArr []), (''inline_attachment_media'', JBool True),
      (''inline_embed_media'', JBool True), (''render_embeds'', JBool True), (''render_reactions'', JBool True),
      (''animate_emoji'', JBool True), (''afk_timeout'', JInt 300), (''default_guilds_restricted'', JBool False),
      (''streamer_mode'', JBool False), (''inline_filter_explicit_content'', JBool False)]"

definition SanitizeTheme :: "json option \<Rightarrow> string" where
  "SanitizeTheme v = (if v = Some (JStr ''light'') then ''light'' else ''dark'')"

text \<open>Stored numbers are \<open>json.Number\<close> literals (the store decodes with \<open>UseNumber\<close>).\<close>

definition idToString :: "json option \<Rightarrow> string option" where
  "idToString v =
     (case v of
        Some (JStr s) \<Rightarrow> Some s
      | Some (JNum s) \<Rightarrow> (case parse_int64 s of Inr _ \<Rightarrow> Some s | Inl _ \<Rightarrow> None)
      | _ \<Rightarrow> None)"

definition normalize_folder :: "json \<Rightarrow> json option" where
  "normalize_folder f =
     (case f of
        JObj m \<Rightarrow>
          let m = (case idToString (map_of m ''id'') of Some i \<Rightarrow> AList.update ''id'' (JStr i) m | None \<Rightarrow> m) in
          (case map_of m ''guild_ids'' of
             Some (JArr ids) \<Rightarrow>
               let keep = List.map_filter (\<lambda>i. map_option JStr (idToString (Some i))) ids in
               if length keep = 0 then None else Some (JObj (AList.update ''guild_ids'' (JArr keep) m))
           | _ \<Rightarrow> Some (JObj m))
      | _ \<Rightarrow> None)"

definition normalizeGuildFolders :: "json option \<Rightarrow> json list" where
  "normalizeGuildFolders v = (case v of Some (JArr folders) \<Rightarrow> List.map_filter normalize_folder folders | _ \<Rightarrow> [])"

definition SettingsWithDefaults :: "(string \<times> json) list \<Rightarrow> (string \<times> json) list" where
  "SettingsWithDefaults persisted =
     (let out = fold (\<lambda>(k, v) m. AList.update k v m) persisted DefaultUserSettings;
          out = AList.update ''theme'' (JStr (SanitizeTheme (map_of out ''theme''))) out
      in AList.update ''guild_folders'' (JArr (normalizeGuildFolders (map_of out ''guild_folders''))) out)"

section \<open>Hashed ids are snowflakes\<close>

lemma format_nat_unat: "format_nat (unat w) = format_int (uint w)"
  by (simp add: format_int_def)

lemma hashSnowflake_value:
  defines "v seed \<equiv> uint (fnv64a seed)"
  shows "hashSnowflake seed = format_int ((1420070400000 + v seed mod 63072000000) * 2 ^ 22 + v seed mod 2 ^ 22)"
proof -
  define ms :: "64 word" where "ms = 1420070400000 + fnv64a seed mod 63072000000"
  have m: "uint (fnv64a seed mod 63072000000) = v seed mod 63072000000"
    by (simp add: v_def uint_mod)
  have "uint ms = (1420070400000 + v seed mod 63072000000) mod 2 ^ 64"
    unfolding ms_def uint_word_ariths m by simp
  moreover have r: "0 \<le> v seed mod 63072000000" "v seed mod 63072000000 < 63072000000" by simp_all
  ultimately have ums: "uint ms = 1420070400000 + v seed mod 63072000000" by simp
  have lo: "uint (fnv64a seed AND 0x3FFFFF) = v seed mod 2 ^ 22"
  proof -
    have "(0x3FFFFF :: 64 word) = mask 22" by (simp add: mask_eq_exp_minus_1)
    then have "fnv64a seed AND 0x3FFFFF = take_bit 22 (fnv64a seed)" by (simp only: take_bit_eq_mask)
    then show ?thesis by (simp only: v_def unsigned_take_bit_eq) (simp add: take_bit_eq_mod)
  qed
  have hi: "uint (push_bit 22 ms) = push_bit 22 (uint ms)"
  proof -
    have "uint (push_bit 22 ms) = take_bit 64 (push_bit 22 (uint ms))"
      by (simp add: unsigned_push_bit_eq)
    also have "\<dots> = push_bit 22 (uint ms)"
      by (rule take_bit_int_eq_self) (use ums r in \<open>simp_all add: push_bit_eq_mult\<close>)
    finally show ?thesis .
  qed
  have "uint (push_bit 22 ms OR (fnv64a seed AND 0x3FFFFF)) = push_bit 22 (uint ms) OR (v seed mod 2 ^ 22)"
    by (simp only: uint_or lo hi)
  also have "\<dots> = uint ms * 2 ^ 22 + v seed mod 2 ^ 22"
    by (rule or_push_bit) simp_all
  finally have u: "uint (push_bit 22 ms OR (fnv64a seed AND 0x3FFFFF)) = uint ms * 2 ^ 22 + v seed mod 2 ^ 22" .
  have "hashSnowflake seed = format_nat (unat (push_bit 22 ms OR (fnv64a seed AND 0x3FFFFF)))"
    unfolding hashSnowflake_def Let_def ms_def by (rule refl)
  also have "\<dots> = format_int (uint (push_bit 22 ms OR (fnv64a seed AND 0x3FFFFF)))"
    by (rule format_nat_unat)
  finally show ?thesis unfolding u ums .
qed

lemma hashSnowflake_parse:
  "\<exists>n. hashSnowflake seed = format_int n \<and> ParseSnowflake (hashSnowflake seed) = Inr n \<and>
     2 ^ 22 * 1420070400000 \<le> n \<and> n < 2 ^ 63"
proof -
  let ?v = "uint (fnv64a seed)"
  let ?n = "(1420070400000 + ?v mod 63072000000) * 2 ^ 22 + ?v mod 2 ^ 22"
  have r: "0 \<le> ?v mod 63072000000" "?v mod 63072000000 < 63072000000" "0 \<le> ?v mod 2 ^ 22" "?v mod 2 ^ 22 < 2 ^ 22"
    by simp_all
  have "2 ^ 22 * 1420070400000 \<le> ?n" "?n < 2 ^ 63" using r by simp_all
  then show ?thesis
    using hashSnowflake_value [of seed] ParseSnowflake_format [of ?n] by (intro exI [of _ ?n]) simp
qed

section \<open>Properties\<close>

text \<open>The author id of an IRC nick is a decimal snowflake in the positive 63-bit range that parses back,
  embeds a time of the year 2060 or later, and is left alone when mapped again.\<close>

lemma IrcAuthorID_snowflake:
  "\<exists>n. ParseSnowflake (IrcAuthorID (''irc:'' @ nick)) = Inr n \<and> 0 < n \<and> n < 2 ^ 63
    \<and> SnowflakeTime n \<ge> 2840140800000 \<and> IrcAuthorID (IrcAuthorID (''irc:'' @ nick)) = IrcAuthorID (''irc:'' @ nick)"
proof -
  let ?h = "hashSnowflake (''irc:'' @ nick)"
  have h: "IrcAuthorID (''irc:'' @ nick) = ?h" by (simp add: IrcAuthorID_def)
  obtain n where n: "?h = format_int n" "ParseSnowflake ?h = Inr n" "2 ^ 22 * 1420070400000 \<le> n" "n < 2 ^ 63"
    using hashSnowflake_parse by blast
  have "1420070400000 \<le> drop_bit 22 n" using n(3) by (simp add: drop_bit_eq_div)
  moreover have "drop_bit 22 n < 2 ^ 41" using n(4) by (simp add: drop_bit_eq_div)
  ultimately have "SnowflakeTime n \<ge> 2840140800000"
    by (simp add: SnowflakeTime_def i64_id discordEpoch_def)
  moreover have "\<not> has_prefix ?h ''irc:''"
  proof -
    have "is_digit (hd (format_int n))" using n(3) hd_format_nat by (simp add: format_int_def)
    moreover have "\<not> is_digit (CHR ''i'')" by code_simp
    ultimately show ?thesis using n(1) by (cases ?h) auto
  qed
  ultimately show ?thesis using n h by (auto simp: IrcAuthorID_def intro!: exI [of _ n])
qed

end
