(* ===== verification/ConnState.thy ===== *)
theory ConnState
  imports MessageStore Multiline "HOL-Library.RBT" "HOL-Library.Sublist"
begin

text \<open>
  The per-connection state of \<open>internal/irc/ircmanage/manager.go\<close> (the struct \<open>conn\<close>) and its small
  operations: batches in flight, away states, facts about peers, channels being joined, the registry of message
  ids, the queue of our own messages that wait for their echo, and the reactions. Every operation of the code
  holds one of the connection's mutexes from its first to its last line, so it is one atomic function here.
  A Go map is a partial map; the reactions, whose snapshot is sorted by key, are red-black trees.

  The locale \<open>keyed_fifo\<close> is the contract of the queue of pending sends; \<open>conn_step\<close> is the relation of
  one operation on a connection, over which the invariants of the whole state are proved by rule induction.
\<close>

section \<open>State\<close>

record chatFrame =
  cf_target :: string
  cf_author :: string
  cf_content :: string
  cf_at :: int
  cf_msgid :: string
  cf_extraMsgids :: "string list"
  cf_reply :: string

record chatBatch =
  cb_target :: string
  cb_frames :: "chatFrame list"

record peerFact =
  pf_Account :: string
  pf_User :: string
  pf_Host :: string

record msgRef =
  mr_Snowflake :: string
  mr_ChannelID :: string
  mr_GuildID :: string

record ChannelMember =
  cm_Nick :: string
  cm_Mode :: string
  cm_Away :: bool
  cm_Account :: string
  cm_Host :: string

text \<open>One queued write of the connection's send worker.\<close>

record sendJob =
  sj_target :: string
  sj_content :: string
  sj_query :: bool
  sj_replyMsgid :: string

type_synonym reacting = "(string, bool) rbt"
type_synonym by_emoji = "(string, reacting) rbt"

record conn =
  c_userID :: string
  c_networkID :: string
  c_pendingJoins :: "string \<rightharpoonup> bool"
  c_away :: "string \<rightharpoonup> bool"
  c_peers :: "string \<rightharpoonup> peerFact"
  c_snowToMsgid :: "string \<rightharpoonup> string"
  c_msgidToRef :: "string \<rightharpoonup> msgRef"
  c_msgidOrder :: "string list"
  c_aliasOrder :: "string list"
  c_pendingSend :: "string \<rightharpoonup> msgRef list"
  c_reactions :: "(string, by_emoji) rbt"
  c_chatBatches :: "string \<rightharpoonup> chatBatch"
  c_chatStack :: "string list"
  c_lineBatches :: "string \<rightharpoonup> lineBatch"
  c_multilineBytes :: int
  c_multilineLines :: int
  c_sendJobs :: "sendJob list"
  c_linkUp :: bool
  c_histCapUp :: bool
  c_multilineCapUp :: bool
  c_metadataCapUp :: bool
  c_iconSeen :: string
  c_ownStatus :: string
  c_typingLast :: "string \<rightharpoonup> time"
  c_renames :: "string \<rightharpoonup> string"
  c_pageWaiting :: bool
  c_pageTarget :: string
  c_pageBatch :: "chatBatch option"
  c_pageCeiling :: string
  c_pageIssued :: time
  c_histSelectorBroken :: bool
  c_peerFetching :: "string \<rightharpoonup> bool"
  c_metaRetries :: "string \<rightharpoonup> int"
  c_avatarSetPending :: bool
  c_avatarSetPrevHash :: string
  c_avatarSetGlobal :: bool
  c_lastLinkErr :: string

definition newConn :: "string \<Rightarrow> string \<Rightarrow> conn" where
  "newConn userID networkID =
     \<lparr>c_userID = userID, c_networkID = networkID, c_pendingJoins = Map.empty, c_away = Map.empty,
      c_peers = Map.empty, c_snowToMsgid = Map.empty, c_msgidToRef = Map.empty, c_msgidOrder = [],
      c_aliasOrder = [], c_pendingSend = Map.empty, c_reactions = RBT.empty, c_chatBatches = Map.empty,
      c_chatStack = [], c_lineBatches = Map.empty, c_multilineBytes = 0, c_multilineLines = 0,
      c_sendJobs = [], c_linkUp = False, c_histCapUp = False, c_multilineCapUp = False, c_metadataCapUp = False,
      c_iconSeen = [], c_ownStatus = [], c_typingLast = Map.empty, c_renames = Map.empty, c_pageWaiting = False,
      c_pageTarget = [], c_pageBatch = None, c_pageCeiling = [], c_pageIssued = zeroTime, c_histSelectorBroken = False,
      c_peerFetching = Map.empty, c_metaRetries = Map.empty, c_avatarSetPending = False, c_avatarSetPrevHash = [],
      c_avatarSetGlobal = False, c_lastLinkErr = []\<rparr>"

definition zero_fact :: peerFact where
  "zero_fact = \<lparr>pf_Account = [], pf_User = [], pf_Host = []\<rparr>"

definition zero_ref :: msgRef where
  "zero_ref = \<lparr>mr_Snowflake = [], mr_ChannelID = [], mr_GuildID = []\<rparr>"

definition conn_key :: "string \<Rightarrow> string \<Rightarrow> string" where
  "conn_key userID networkID = userID @ NUL # networkID"

definition multilineLimits :: "conn \<Rightarrow> int \<times> int" where
  "multilineLimits c =
     (let b = c_multilineBytes c; l = c_multilineLines c
      in (if b \<le> 0 then 4096 else b, if l \<le> 0 then 24 else l))"

text \<open>The queue of the send worker holds 64 jobs; a further one is dropped.\<close>

definition sendJobsCap :: nat where
  "sendJobsCap = 64"

definition enqueueSend :: "conn \<Rightarrow> string \<Rightarrow> string \<Rightarrow> bool \<Rightarrow> string \<Rightarrow> conn" where
  "enqueueSend c target body query replyMsgid =
     (if length (c_sendJobs c) < sendJobsCap then
        c\<lparr>c_sendJobs := c_sendJobs c @
          [\<lparr>sj_target = target, sj_content = body, sj_query = query, sj_replyMsgid = replyMsgid\<rparr>]\<rparr>
      else c)"

definition selfWireStatus :: "conn \<Rightarrow> bool \<Rightarrow> string" where
  "selfWireStatus c away =
     (if \<not> away then ''online'' else if c_ownStatus c = ''dnd'' then ''dnd'' else ''idle'')"

section \<open>Batches in flight\<close>

definition openChatBatch :: "conn \<Rightarrow> string \<Rightarrow> chatBatch \<Rightarrow> conn" where
  "openChatBatch c ref acc = c\<lparr>c_chatBatches := (c_chatBatches c)(ref \<mapsto> acc)\<rparr>"

definition closeChatBatch :: "conn \<Rightarrow> string \<Rightarrow> chatBatch option \<times> conn" where
  "closeChatBatch c ref = (c_chatBatches c ref, c\<lparr>c_chatBatches := (c_chatBatches c)(ref := None)\<rparr>)"

definition chatBatchActive :: "conn \<Rightarrow> string \<Rightarrow> bool" where
  "chatBatchActive c ref = (c_chatBatches c ref \<noteq> None)"

definition appendChatFrame :: "conn \<Rightarrow> string \<Rightarrow> chatFrame \<Rightarrow> conn" where
  "appendChatFrame c ref f =
     (case c_chatBatches c ref of
        Some acc \<Rightarrow> c\<lparr>c_chatBatches := (c_chatBatches c)(ref \<mapsto> acc\<lparr>cb_frames := cb_frames acc @ [f]\<rparr>)\<rparr>
      | None \<Rightarrow> c)"

definition pushChatStack :: "conn \<Rightarrow> string \<Rightarrow> conn" where
  "pushChatStack c ref = c\<lparr>c_chatStack := c_chatStack c @ [ref]\<rparr>"

definition popChatStack :: "conn \<Rightarrow> string \<Rightarrow> conn" where
  "popChatStack c ref =
     (if c_chatStack c \<noteq> [] \<and> last (c_chatStack c) = ref
      then c\<lparr>c_chatStack := butlast (c_chatStack c)\<rparr> else c)"

definition peekChatStack :: "conn \<Rightarrow> string option" where
  "peekChatStack c = (if c_chatStack c = [] then None else Some (last (c_chatStack c)))"

definition openLineBatch :: "conn \<Rightarrow> string \<Rightarrow> lineBatch \<Rightarrow> conn" where
  "openLineBatch c ref acc = c\<lparr>c_lineBatches := (c_lineBatches c)(ref \<mapsto> acc)\<rparr>"

definition closeLineBatch :: "conn \<Rightarrow> string \<Rightarrow> lineBatch option \<times> conn" where
  "closeLineBatch c ref = (c_lineBatches c ref, c\<lparr>c_lineBatches := (c_lineBatches c)(ref := None)\<rparr>)"

definition lineBatchActive :: "conn \<Rightarrow> string \<Rightarrow> bool" where
  "lineBatchActive c ref = (c_lineBatches c ref \<noteq> None)"

definition appendLineFrame :: "conn \<Rightarrow> string \<Rightarrow> lineFrame \<Rightarrow> conn" where
  "appendLineFrame c ref f =
     (case c_lineBatches c ref of
        Some acc \<Rightarrow> c\<lparr>c_lineBatches := (c_lineBatches c)(ref \<mapsto> acc\<lparr>lb_frames := lb_frames acc @ [f]\<rparr>)\<rparr>
      | None \<Rightarrow> c)"

section \<open>Away states and peer facts\<close>

definition isAway :: "conn \<Rightarrow> string \<Rightarrow> bool" where
  "isAway c nick = (c_away c nick = Some True)"

definition setAway :: "conn \<Rightarrow> string \<Rightarrow> bool \<Rightarrow> bool \<times> conn" where
  "setAway c nick away =
     (if nick = [] then (False, c)
      else if (case c_away c nick of Some b \<Rightarrow> b | None \<Rightarrow> False) = away then (False, c)
      else (True, c\<lparr>c_away := (if away then (c_away c)(nick \<mapsto> True) else (c_away c)(nick := None))\<rparr>))"

definition renameAway :: "conn \<Rightarrow> string \<Rightarrow> string \<Rightarrow> conn" where
  "renameAway c oldNick newNick =
     (if oldNick = [] \<or> newNick = [] \<or> oldNick = newNick then c
      else case c_away c oldNick of
             Some away \<Rightarrow>
               c\<lparr>c_away := (let m = (c_away c)(oldNick := None) in if away then m(newNick \<mapsto> True) else m)\<rparr>
           | None \<Rightarrow> c)"

definition forgetAway :: "conn \<Rightarrow> string \<Rightarrow> conn" where
  "forgetAway c nick = c\<lparr>c_away := (c_away c)(nick := None)\<rparr>"

definition peerFactFor :: "conn \<Rightarrow> string \<Rightarrow> peerFact" where
  "peerFactFor c nick = (case c_peers c nick of Some f \<Rightarrow> f | None \<Rightarrow> zero_fact)"

definition setPeerAccount :: "conn \<Rightarrow> string \<Rightarrow> string \<Rightarrow> conn" where
  "setPeerAccount c nick account =
     (if nick = [] then c
      else let account = (if account = ''*'' then [] else account);
               f = peerFactFor c nick
           in if pf_Account f = account then c
              else c\<lparr>c_peers := (c_peers c)(nick \<mapsto> f\<lparr>pf_Account := account\<rparr>)\<rparr>)"

definition setPeerHost :: "conn \<Rightarrow> string \<Rightarrow> string \<Rightarrow> string \<Rightarrow> conn" where
  "setPeerHost c nick user host =
     (if nick = [] then c
      else let f = peerFactFor c nick
           in if pf_User f = user \<and> pf_Host f = host then c
              else c\<lparr>c_peers := (c_peers c)(nick \<mapsto> f\<lparr>pf_User := user, pf_Host := host\<rparr>)\<rparr>)"

definition renamePeer :: "conn \<Rightarrow> string \<Rightarrow> string \<Rightarrow> conn" where
  "renamePeer c oldNick newNick =
     (if oldNick = [] \<or> newNick = [] \<or> oldNick = newNick then c
      else case c_peers c oldNick of
             Some f \<Rightarrow> c\<lparr>c_peers := (c_peers c)(oldNick := None, newNick \<mapsto> f)\<rparr>
           | None \<Rightarrow> c)"

definition forgetPeer :: "conn \<Rightarrow> string \<Rightarrow> conn" where
  "forgetPeer c nick = c\<lparr>c_peers := (c_peers c)(nick := None)\<rparr>"

definition BioText :: "ChannelMember \<Rightarrow> string" where
  "BioText cm =
     (let lines = (if cm_Account cm \<noteq> [] then [''NickServ: '' @ cm_Account cm] else []);
          lines = (if cm_Host cm \<noteq> [] then lines @ [''Host: '' @ cm_Host cm] else lines)
      in join [CHR 0x0A] lines)"

definition peerBioText :: "conn \<Rightarrow> string \<Rightarrow> string" where
  "peerBioText c nick =
     (let f = peerFactFor c nick;
          host = (if pf_User f \<noteq> [] \<and> pf_Host f \<noteq> [] then pf_User f @ ''@'' @ pf_Host f else [])
      in BioText \<lparr>cm_Nick = nick, cm_Mode = [], cm_Away = False, cm_Account = pf_Account f, cm_Host = host\<rparr>)"

definition markPending :: "conn \<Rightarrow> string \<Rightarrow> conn" where
  "markPending c ch = c\<lparr>c_pendingJoins := (c_pendingJoins c)(to_lower ch \<mapsto> True)\<rparr>"

definition clearPending :: "conn \<Rightarrow> string \<Rightarrow> bool \<times> conn" where
  "clearPending c ch =
     (let k = to_lower ch
      in (c_pendingJoins c k = Some True, c\<lparr>c_pendingJoins := (c_pendingJoins c)(k := None)\<rparr>))"

section \<open>The registry of message ids\<close>

definition msgidRegistryCap :: nat where
  "msgidRegistryCap = 4096"

fun evict_oldest ::
  "nat \<Rightarrow> string list \<Rightarrow> (string \<rightharpoonup> string) \<Rightarrow> (string \<rightharpoonup> msgRef) \<Rightarrow>
    string list \<times> (string \<rightharpoonup> string) \<times> (string \<rightharpoonup> msgRef)" where
  "evict_oldest cap [] snow refs = ([], snow, refs)"
| "evict_oldest cap (oldest # order) snow refs =
     (if length (oldest # order) > cap then
        evict_oldest cap order (snow(oldest := None))
          (case snow oldest of Some mid \<Rightarrow> refs(mid := None) | None \<Rightarrow> refs)
      else (oldest # order, snow, refs))"

definition registerMsgid :: "conn \<Rightarrow> msgRef \<Rightarrow> string \<Rightarrow> conn" where
  "registerMsgid c ref msgid =
     (let order = (if c_snowToMsgid c (mr_Snowflake ref) = None
                   then c_msgidOrder c @ [mr_Snowflake ref] else c_msgidOrder c);
          snow = (c_snowToMsgid c)(mr_Snowflake ref \<mapsto> msgid);
          refs = (c_msgidToRef c)(msgid \<mapsto> ref);
          (order, snow, refs) = evict_oldest msgidRegistryCap order snow refs
      in c\<lparr>c_msgidOrder := order, c_snowToMsgid := snow, c_msgidToRef := refs\<rparr>)"

fun evict_alias :: "nat \<Rightarrow> string list \<Rightarrow> (string \<rightharpoonup> msgRef) \<Rightarrow> string list \<times> (string \<rightharpoonup> msgRef)" where
  "evict_alias cap [] refs = ([], refs)"
| "evict_alias cap (oldest # order) refs =
     (if length (oldest # order) > cap then evict_alias cap order (refs(oldest := None))
      else (oldest # order, refs))"

definition registerMsgidAlias :: "conn \<Rightarrow> msgRef \<Rightarrow> string \<Rightarrow> conn" where
  "registerMsgidAlias c ref msgid =
     (if msgid = [] then c
      else if c_snowToMsgid c (mr_Snowflake ref) = Some msgid then c
      else
        let refs = (c_msgidToRef c)(msgid \<mapsto> ref);
            (order, refs) = evict_alias msgidRegistryCap (c_aliasOrder c @ [msgid]) refs
        in c\<lparr>c_msgidToRef := refs, c_aliasOrder := order\<rparr>)"

definition lookupMsgid :: "conn \<Rightarrow> string \<Rightarrow> string option" where
  "lookupMsgid c snowflake = c_snowToMsgid c snowflake"

definition lookupRef :: "conn \<Rightarrow> string \<Rightarrow> msgRef option" where
  "lookupRef c msgid = c_msgidToRef c msgid"

definition refBySnowflake :: "conn \<Rightarrow> string \<Rightarrow> msgRef option" where
  "refBySnowflake c snowflake =
     (case c_snowToMsgid c snowflake of None \<Rightarrow> None | Some msgid \<Rightarrow> c_msgidToRef c msgid)"

section \<open>Our own messages waiting for their echo\<close>

definition pendingSendCap :: nat where
  "pendingSendCap = 64"

definition pending_queue :: "conn \<Rightarrow> string \<Rightarrow> msgRef list" where
  "pending_queue c target = (case c_pendingSend c (to_lower target) of Some q \<Rightarrow> q | None \<Rightarrow> [])"

definition pushPendingSend :: "conn \<Rightarrow> string \<Rightarrow> msgRef \<Rightarrow> conn" where
  "pushPendingSend c target ref =
     (let k = to_lower target;
          q = pending_queue c target;
          q = (if length q \<ge> pendingSendCap then tl q else q)
      in c\<lparr>c_pendingSend := (c_pendingSend c)(k \<mapsto> q @ [ref])\<rparr>)"

definition popPendingSend :: "conn \<Rightarrow> string \<Rightarrow> msgRef \<times> conn" where
  "popPendingSend c target =
     (let k = to_lower target
      in case pending_queue c target of
           [] \<Rightarrow> (zero_ref, c)
         | ref # q \<Rightarrow>
             (ref, c\<lparr>c_pendingSend :=
                (if q = [] then (c_pendingSend c)(k := None) else (c_pendingSend c)(k \<mapsto> q))\<rparr>))"

section \<open>Reactions\<close>

definition reactionSnapshot :: "conn \<Rightarrow> string \<Rightarrow> (string \<times> string list) list" where
  "reactionSnapshot c snowflake =
     (case RBT.lookup (c_reactions c) snowflake of
        None \<Rightarrow> []
      | Some byEmoji \<Rightarrow> map (\<lambda>(emoji, users). (emoji, RBT.keys users)) (RBT.entries byEmoji))"

definition trackReaction :: "conn \<Rightarrow> string \<Rightarrow> string \<Rightarrow> string \<Rightarrow> bool \<Rightarrow> bool \<times> conn" where
  "trackReaction c snowflake emoji userID remove =
     (let byEmoji0 = RBT.lookup (c_reactions c) snowflake in
      if Option.is_none byEmoji0 \<and> remove then (False, c)
      else
      let byEmoji = (case byEmoji0 of Some m \<Rightarrow> m | None \<Rightarrow> RBT.empty);
          users0 = RBT.lookup byEmoji emoji in
      if Option.is_none users0 \<and> remove then (False, c)
      else
      let users = (case users0 of Some m \<Rightarrow> m | None \<Rightarrow> RBT.empty) in
      if remove then
        (if RBT.lookup users userID \<noteq> Some True then (False, c)
         else
         let users = RBT.delete userID users;
             byEmoji = (if RBT.is_empty users then RBT.delete emoji byEmoji else RBT.insert emoji users byEmoji)
         in (True, c\<lparr>c_reactions :=
                (if RBT.is_empty byEmoji then RBT.delete snowflake (c_reactions c)
                 else RBT.insert snowflake byEmoji (c_reactions c))\<rparr>))
      else if RBT.lookup users userID = Some True then (False, c)
      else (True, c\<lparr>c_reactions :=
              RBT.insert snowflake (RBT.insert emoji (RBT.insert userID True users) byEmoji) (c_reactions c)\<rparr>))"

section \<open>The contract of a bounded queue per key\<close>

datatype ('k, 'a) queue_op = Enq 'k 'a | Deq 'k

fun run_queue ::
  "('s \<Rightarrow> 'k \<Rightarrow> 'a \<Rightarrow> 's) \<Rightarrow> ('s \<Rightarrow> 'k \<Rightarrow> 'a \<times> 's) \<Rightarrow> 's \<Rightarrow> ('k, 'a) queue_op list \<Rightarrow> ('k \<times> 'a) list \<times> 's" where
  "run_queue push pop s [] = ([], s)"
| "run_queue push pop s (Enq k x # ops) = run_queue push pop (push s k x) ops"
| "run_queue push pop s (Deq k # ops) =
     (let (x, s) = pop s k; (out, s) = run_queue push pop s ops in ((k, x) # out, s))"

definition enqueued :: "('k \<Rightarrow> bool) \<Rightarrow> ('k, 'a) queue_op list \<Rightarrow> 'a list" where
  "enqueued P ops = concat (map (\<lambda>op. case op of Enq k x \<Rightarrow> if P k then [x] else [] | Deq _ \<Rightarrow> []) ops)"

definition dequeued :: "('k \<Rightarrow> bool) \<Rightarrow> 'a \<Rightarrow> ('k \<times> 'a) list \<Rightarrow> 'a list" where
  "dequeued P none out = filter (\<lambda>x. x \<noteq> none) (map snd (filter (\<lambda>kx. P (fst kx)) out))"

lemma enqueued_simps [simp]:
  "enqueued P [] = []"
  "enqueued P (Enq k x # ops) = (if P k then x # enqueued P ops else enqueued P ops)"
  "enqueued P (Deq k # ops) = enqueued P ops"
  by (simp_all add: enqueued_def)

lemma dequeued_simps [simp]:
  "dequeued P none [] = []"
  "dequeued P none ((k, x) # out) = (if P k \<and> x \<noteq> none then x # dequeued P none out else dequeued P none out)"
  by (simp_all add: dequeued_def)

locale keyed_fifo =
  fixes view :: "'s \<Rightarrow> 'k \<Rightarrow> 'a list"
    and push :: "'s \<Rightarrow> 'k \<Rightarrow> 'a \<Rightarrow> 's"
    and pop :: "'s \<Rightarrow> 'k \<Rightarrow> 'a \<times> 's"
    and same :: "'k \<Rightarrow> 'k \<Rightarrow> bool"
    and cap :: nat
    and none :: 'a
  assumes cap_pos: "0 < cap"
    and same_sym: "same k k' \<Longrightarrow> same k' k"
    and same_view: "same k k' \<Longrightarrow> view s k' = view s k"
    and view_push: "view (push s k x) k' =
          (if same k k' then (if cap \<le> length (view s k) then tl (view s k) else view s k) @ [x] else view s k')"
    and view_pop: "view (snd (pop s k)) k' = (if same k k' then tl (view s k) else view s k')"
    and fst_pop: "fst (pop s k) = (case view s k of [] \<Rightarrow> none | x # _ \<Rightarrow> x)"
begin

abbreviation bounded :: "'s \<Rightarrow> bool" where
  "bounded s \<equiv> (\<forall>k. length (view s k) \<le> cap)"

lemma bounded_push: "bounded s \<Longrightarrow> bounded (push s k x)"
proof
  fix k'
  assume b: "bounded s"
  have "length (tl (view s k)) + 1 \<le> cap \<or> length (view s k) < cap"
    using b [rule_format, of k] cap_pos by (cases "view s k") auto
  moreover have "length (tl (view s k)) < cap" if "length (view s k) \<ge> cap"
    using b [rule_format, of k] cap_pos that by (cases "view s k") auto
  ultimately show "length (view (push s k x) k') \<le> cap"
    using b [rule_format, of k'] by (auto simp: view_push)
qed

lemma bounded_pop: "bounded s \<Longrightarrow> bounded (snd (pop s k))"
  by (auto simp: view_pop intro: le_trans [OF diff_le_self])

lemma bounded_run: "bounded s \<Longrightarrow> bounded (snd (run_queue push pop s ops))"
proof (induction ops arbitrary: s)
  case (Cons op ops)
  then show ?case
    using bounded_push [OF Cons.prems] bounded_pop [OF Cons.prems] by (cases op) (simp_all add: split_beta)
qed simp

lemma same_iff: "same k k' \<longleftrightarrow> same k' k"
  using same_sym by blast

text \<open>Whatever the order of the operations, what leaves the queue of a key is what entered it, in order and
  each at most once; and nothing is lost while the queue has room for everything that enters.\<close>

lemma fifo_order:
  "subseq (dequeued (same k) none (fst (run_queue push pop s ops)) @ view (snd (run_queue push pop s ops)) k)
     (view s k @ enqueued (same k) ops)"
proof (induction ops arbitrary: s)
  case (Cons op ops)
  show ?case
  proof (cases op)
    case (Enq k' x)
    have "subseq (view (push s k' x) k @ enqueued (same k) ops) (view s k @ enqueued (same k) (op # ops))"
    proof (cases "same k' k")
      case True
      then have "view s k' = view s k" "same k k'" using same_view same_sym by auto
      moreover have "subseq (tl (view s k)) (view s k)" by (cases "view s k") auto
      ultimately show ?thesis using True Enq by (auto simp: view_push intro!: list_emb_append_mono)
    next
      case False
      then show ?thesis using same_sym [of k k'] Enq by (auto simp: view_push)
    qed
    with Cons.IH [of "push s k' x"] show ?thesis
      using subseq_order.order_trans Enq by simp
  next
    case (Deq k')
    define s' where "s' = snd (pop s k')"
    have IH: "subseq (dequeued (same k) none (fst (run_queue push pop s' ops))
        @ view (snd (run_queue push pop s' ops)) k) (view s' k @ enqueued (same k) ops)"
      by (rule Cons.IH)
    have r: "run_queue push pop s (op # ops) =
        ((k', fst (pop s k')) # fst (run_queue push pop s' ops), snd (run_queue push pop s' ops))"
      using Deq by (simp add: s'_def split_beta)
    show ?thesis
    proof (cases "same k k'")
      case False
      then have "view s' k = view s k" using same_sym by (auto simp: s'_def view_pop)
      with IH r False Deq show ?thesis by simp
    next
      case True
      then have v: "view s k' = view s k" "view s' k = tl (view s k)"
        using same_view same_sym by (auto simp: s'_def view_pop)
      show ?thesis
        using IH r True Deq v by (cases "view s k") (auto simp: fst_pop)
    qed
  qed
qed simp

lemma fifo_lossless:
  assumes "length (view s k) + length (enqueued (same k) ops) \<le> cap"
    and "none \<notin> set (view s k @ enqueued (same k) ops)"
  shows "dequeued (same k) none (fst (run_queue push pop s ops)) @ view (snd (run_queue push pop s ops)) k
     = view s k @ enqueued (same k) ops"
  using assms
proof (induction ops arbitrary: s)
  case (Cons op ops)
  show ?case
  proof (cases op)
    case (Enq k' x)
    have "view (push s k' x) k @ enqueued (same k) ops = view s k @ enqueued (same k) (op # ops)"
      using Enq Cons.prems same_view [of k k'] same_view [of k' k] same_iff [of k k']
      by (auto simp: view_push)
    moreover from this have "length (view (push s k' x) k) + length (enqueued (same k) ops) \<le> cap"
      "none \<notin> set (view (push s k' x) k @ enqueued (same k) ops)"
      using Cons.prems by (metis length_append, metis)
    ultimately show ?thesis using Cons.IH [of "push s k' x"] Enq by simp
  next
    case (Deq k')
    define s' where "s' = snd (pop s k')"
    have r: "run_queue push pop s (op # ops) =
        ((k', fst (pop s k')) # fst (run_queue push pop s' ops), snd (run_queue push pop s' ops))"
      using Deq by (simp add: s'_def split_beta)
    have v: "view s' k = (if same k k' then tl (view s k) else view s k)"
      using same_iff [of k k'] same_view [of k' k] by (auto simp: s'_def view_pop)
    have "dequeued (same k) none (fst (run_queue push pop s' ops)) @ view (snd (run_queue push pop s' ops)) k
        = view s' k @ enqueued (same k) ops"
      by (rule Cons.IH) (use Cons.prems Deq v in \<open>cases "view s k"; auto\<close>)+
    with r Deq v Cons.prems same_view [of k k'] show ?thesis
      by (cases "view s k") (auto simp: fst_pop)
  qed
qed simp

end

interpretation pend: keyed_fifo pending_queue pushPendingSend popPendingSend
  "\<lambda>t t'. to_lower t = to_lower t'" pendingSendCap zero_ref
proof
  fix s k k'
  show "fst (popPendingSend s k) = (case pending_queue s k of [] \<Rightarrow> zero_ref | x # _ \<Rightarrow> x)"
    by (simp add: popPendingSend_def Let_def split: list.splits)
  show "pending_queue (snd (popPendingSend s k)) k'
      = (if to_lower k = to_lower k' then tl (pending_queue s k) else pending_queue s k')"
  proof (cases "pending_queue s k")
    case (Cons x q)
    then have "snd (popPendingSend s k) = s\<lparr>c_pendingSend :=
        (if q = [] then (c_pendingSend s)(to_lower k := None) else (c_pendingSend s)(to_lower k \<mapsto> q))\<rparr>"
      by (simp add: popPendingSend_def Let_def)
    with Cons show ?thesis by (auto simp: pending_queue_def)
  qed (auto simp: popPendingSend_def pending_queue_def)
qed (auto simp: pendingSendCap_def pushPendingSend_def pending_queue_def Let_def)

section \<open>Well-formed connections\<close>

definition registry_wf :: "conn \<Rightarrow> bool" where
  "registry_wf c \<longleftrightarrow> distinct (c_msgidOrder c) \<and> set (c_msgidOrder c) = dom (c_snowToMsgid c)
     \<and> length (c_msgidOrder c) \<le> msgidRegistryCap \<and> length (c_aliasOrder c) \<le> msgidRegistryCap"

definition pending_wf :: "conn \<Rightarrow> bool" where
  "pending_wf c \<longleftrightarrow> (\<forall>k q. c_pendingSend c k = Some q \<longrightarrow> q \<noteq> [] \<and> length q \<le> pendingSendCap)"

definition users_wf :: "reacting \<Rightarrow> bool" where
  "users_wf us \<longleftrightarrow> us \<noteq> RBT.empty \<and> (\<forall>u b. RBT.lookup us u = Some b \<longrightarrow> b)"

definition emoji_wf :: "by_emoji \<Rightarrow> bool" where
  "emoji_wf m \<longleftrightarrow> m \<noteq> RBT.empty \<and> (\<forall>e us. RBT.lookup m e = Some us \<longrightarrow> users_wf us)"

definition reactions_wf :: "conn \<Rightarrow> bool" where
  "reactions_wf c \<longleftrightarrow> (\<forall>s m. RBT.lookup (c_reactions c) s = Some m \<longrightarrow> emoji_wf m)"

definition names_wf :: "conn \<Rightarrow> bool" where
  "names_wf c \<longleftrightarrow> (\<forall>n. c_away c n \<noteq> Some False) \<and> [] \<notin> dom (c_away c) \<and> [] \<notin> dom (c_peers c)
     \<and> (\<forall>n. c_pendingJoins c n \<noteq> Some False) \<and> (\<forall>n \<in> dom (c_pendingJoins c). to_lower n = n)"

definition conn_wf :: "conn \<Rightarrow> bool" where
  "conn_wf c \<longleftrightarrow> registry_wf c \<and> pending_wf c \<and> reactions_wf c \<and> names_wf c"

lemmas conn_wf_defs = conn_wf_def registry_wf_def pending_wf_def reactions_wf_def names_wf_def

lemma evict_order: "fst (evict_oldest cap order snow refs) = drop (length order - cap) order"
  by (induction order arbitrary: snow refs) (simp_all add: Suc_diff_le)

lemma evict_snow:
  "distinct order \<Longrightarrow>
    fst (snd (evict_oldest cap order snow refs)) = snow |` (- set (take (length order - cap) order))"
  by (induction order arbitrary: snow refs) (auto simp: Suc_diff_le fun_eq_iff restrict_map_def)

lemma evict_refs:
  "\<forall>s \<in> set (take (length order - cap) order). snow s \<noteq> Some m \<Longrightarrow>
    snd (snd (evict_oldest cap order snow refs)) m = refs m"
  by (induction order arbitrary: snow refs) (auto simp: Suc_diff_le split: option.splits)

lemma evict_alias_order: "fst (evict_alias cap order refs) = drop (length order - cap) order"
  by (induction order arbitrary: refs) (simp_all add: Suc_diff_le)

lemma evict_alias_refs:
  "m \<notin> set (take (length order - cap) order) \<Longrightarrow> snd (evict_alias cap order refs) m = refs m"
  by (induction order arbitrary: refs) (auto simp: Suc_diff_le)


lemma rbt_eq_empty: "t = RBT.empty \<longleftrightarrow> (\<forall>k. RBT.lookup t k = None)"
  using RBT.lookup_empty_empty [of t] by (auto simp: fun_eq_iff)

lemma rbt_delete_empty:
  "RBT.delete k t = RBT.empty \<longleftrightarrow> (\<forall>k' x. RBT.lookup t k' = Some x \<longrightarrow> k' = k)"
  unfolding rbt_eq_empty by auto

lemma rbt_insert_nonempty [simp]: "RBT.insert k x t \<noteq> RBT.empty"
  by (auto simp: rbt_eq_empty)

lemma registerMsgid_wf:
  assumes "registry_wf c"
  shows "registry_wf (registerMsgid c ref msgid)"
proof -
  define order where "order = (if c_snowToMsgid c (mr_Snowflake ref) = None
                   then c_msgidOrder c @ [mr_Snowflake ref] else c_msgidOrder c)"
  define snow where "snow = (c_snowToMsgid c)(mr_Snowflake ref \<mapsto> msgid)"
  define refs where "refs = (c_msgidToRef c)(msgid \<mapsto> ref)"
  define n where "n = length order - msgidRegistryCap"
  have o: "distinct order" "set order = dom snow"
    using assms by (auto simp: order_def snow_def registry_wf_def dom_def)
  have c': "c_msgidOrder (registerMsgid c ref msgid) = drop n order"
    "c_snowToMsgid (registerMsgid c ref msgid) = snow |` (- set (take n order))"
    "c_aliasOrder (registerMsgid c ref msgid) = c_aliasOrder c"
    using evict_order [of msgidRegistryCap order snow refs] evict_snow [OF o(1), of msgidRegistryCap snow refs]
    by (simp_all add: registerMsgid_def Let_def order_def snow_def refs_def n_def split_beta)
  have "set (drop n order) = set order - set (take n order)"
    using set_take_disj_set_drop_if_distinct [OF o(1), of n n] set_append [of "take n order" "drop n order"]
    by auto
  then show ?thesis using c' o assms by (auto simp: registry_wf_def n_def)
qed

lemma registerMsgidAlias_wf:
  "registry_wf c \<Longrightarrow> registry_wf (registerMsgidAlias c ref msgid)"
  using evict_alias_order [of msgidRegistryCap "c_aliasOrder c @ [msgid]" "(c_msgidToRef c)(msgid \<mapsto> ref)"]
  by (auto simp: registerMsgidAlias_def registry_wf_def Let_def split_beta)

lemma pushPendingSend_wf: "pending_wf c \<Longrightarrow> pending_wf (pushPendingSend c target ref)"
  unfolding pending_wf_def pushPendingSend_def pending_queue_def Let_def
  by (auto simp: pendingSendCap_def le_diff_conv not_le split: if_splits option.splits) fastforce

lemma popPendingSend_wf: "pending_wf c \<Longrightarrow> pending_wf (snd (popPendingSend c target))"
  unfolding pending_wf_def popPendingSend_def pending_queue_def Let_def
  by (fastforce split: if_splits option.splits list.splits)

text \<open>Who reacted to what, read off the nested maps.\<close>

definition users_of :: "reacting \<Rightarrow> string set" where
  "users_of us = {u. RBT.lookup us u = Some True}"

definition emoji_of :: "by_emoji \<Rightarrow> (string \<times> string) set" where
  "emoji_of m = {(e, u). \<exists>us. RBT.lookup m e = Some us \<and> u \<in> users_of us}"

definition reacted :: "conn \<Rightarrow> (string \<times> string \<times> string) set" where
  "reacted c = {(s, e, u). \<exists>m. RBT.lookup (c_reactions c) s = Some m \<and> (e, u) \<in> emoji_of m}"

lemma users_of_simps [simp]:
  "users_of RBT.empty = {}"
  "users_of (RBT.insert u True us) = insert u (users_of us)"
  "users_of (RBT.delete u us) = users_of us - {u}"
  by (auto simp: users_of_def)

lemma emoji_of_simps [simp]:
  "emoji_of RBT.empty = {}"
  "emoji_of (RBT.insert e us m) = {(e', u). if e' = e then u \<in> users_of us else (e', u) \<in> emoji_of m}"
  "emoji_of (RBT.delete e m) = {(e', u) \<in> emoji_of m. e' \<noteq> e}"
  by (auto simp: emoji_of_def split: if_splits)

lemma reacted_insert:
  "reacted (c\<lparr>c_reactions := RBT.insert s m (c_reactions c)\<rparr>)
     = {(s', e, u). if s' = s then (e, u) \<in> emoji_of m else (s', e, u) \<in> reacted c}"
  by (auto simp: reacted_def)

lemma reacted_delete:
  "reacted (c\<lparr>c_reactions := RBT.delete s (c_reactions c)\<rparr>) = {(s', e, u) \<in> reacted c. s' \<noteq> s}"
  by (auto simp: reacted_def split: if_splits)

lemma in_reacted:
  "RBT.lookup (c_reactions c) s = Some m \<Longrightarrow> (s, e, u) \<in> reacted c \<longleftrightarrow> (e, u) \<in> emoji_of m"
  "RBT.lookup (c_reactions c) s = None \<Longrightarrow> (s, e, u) \<notin> reacted c"
  "RBT.lookup m e = Some us \<Longrightarrow> (e, u) \<in> emoji_of m \<longleftrightarrow> u \<in> users_of us"
  "RBT.lookup m e = None \<Longrightarrow> (e, u) \<notin> emoji_of m"
  by (auto simp: reacted_def emoji_of_def)

lemma emoji_of_put:
  "emoji_of (if us = RBT.empty then RBT.delete e m else RBT.insert e us m)
     = {(e', u). if e' = e then u \<in> users_of us else (e', u) \<in> emoji_of m}"
  by auto

lemma reacted_put:
  "reacted (c\<lparr>c_reactions := if m = RBT.empty then RBT.delete s (c_reactions c)
       else RBT.insert s m (c_reactions c)\<rparr>)
     = {(s', e, u). if s' = s then (e, u) \<in> emoji_of m else (s', e, u) \<in> reacted c}"
  by (auto simp: reacted_insert reacted_delete)

lemma trackReaction_reacted:
  assumes "trackReaction c s e u remove = (changed, c')"
  shows "reacted c' = (if remove then reacted c - {(s, e, u)} else insert (s, e, u) (reacted c))
    \<and> changed = (((s, e, u) \<in> reacted c) = remove)"
proof (cases "RBT.lookup (c_reactions c) s")
  case None
  then show ?thesis using assms
    by (auto simp: trackReaction_def Let_def in_reacted reacted_insert split: if_splits)
next
  case m: (Some m)
  show ?thesis
  proof (cases "RBT.lookup m e")
    case None
    then show ?thesis using m assms
      by (auto simp: trackReaction_def Let_def in_reacted reacted_insert split: if_splits)
  next
    case us: (Some us)
    have u: "(s, e, u') \<in> reacted c \<longleftrightarrow> RBT.lookup us u' = Some True" for u'
      using m us by (simp add: in_reacted users_of_def)
    have u': "(s, e', u') \<in> reacted c \<longleftrightarrow> (e', u') \<in> emoji_of m" for e' u'
      using m by (simp add: in_reacted)
    show ?thesis
    proof (cases "RBT.lookup us u = Some True")
      case True
      show ?thesis
      proof (cases remove)
        case True
        define us' where "us' = RBT.delete u us"
        define m' where "m' = (if us' = RBT.empty then RBT.delete e m else RBT.insert e us' m)"
        have c': "changed" "c' = c\<lparr>c_reactions := if m' = RBT.empty then RBT.delete s (c_reactions c)
            else RBT.insert s m' (c_reactions c)\<rparr>"
          using True \<open>RBT.lookup us u = Some True\<close> m us assms
          unfolding us'_def m'_def by (auto simp: trackReaction_def Let_def)
        have "reacted c' = {(s', e', v). if s' = s then (e', v) \<in> emoji_of m' else (s', e', v) \<in> reacted c}"
          unfolding c'(2) by (rule reacted_put)
        moreover have "emoji_of m' = {(e', v). if e' = e then v \<in> users_of us - {u} else (e', v) \<in> emoji_of m}"
          unfolding m'_def emoji_of_put us'_def users_of_simps by (rule refl)
        ultimately show ?thesis using True c'(1) \<open>RBT.lookup us u = Some True\<close> u u'
          by (auto simp: users_of_def)
      next
        case False
        then show ?thesis using \<open>RBT.lookup us u = Some True\<close> m us u assms
          by (auto simp: trackReaction_def Let_def)
      qed
    next
      case False
      then show ?thesis using m us u u' assms
        by (auto simp: trackReaction_def Let_def reacted_insert users_of_def split: if_splits)
    qed
  qed
qed

lemma users_wf_insert: "users_wf us \<or> us = RBT.empty \<Longrightarrow> users_wf (RBT.insert u True us)"
  by (auto simp: users_wf_def)

lemma users_wf_delete: "users_wf us \<Longrightarrow> RBT.delete u us \<noteq> RBT.empty \<Longrightarrow> users_wf (RBT.delete u us)"
  by (auto simp: users_wf_def)

lemma emoji_wf_insert: "emoji_wf m \<or> m = RBT.empty \<Longrightarrow> users_wf us \<Longrightarrow> emoji_wf (RBT.insert e us m)"
  by (auto simp: emoji_wf_def)

lemma emoji_wf_delete: "emoji_wf m \<Longrightarrow> RBT.delete e m \<noteq> RBT.empty \<Longrightarrow> emoji_wf (RBT.delete e m)"
  by (auto simp: emoji_wf_def)

lemma emoji_wf_users: "emoji_wf m \<Longrightarrow> RBT.lookup m e = Some us \<Longrightarrow> users_wf us"
  by (simp add: emoji_wf_def)

lemma reactions_wf_insert:
  "reactions_wf c \<Longrightarrow> emoji_wf m \<Longrightarrow> reactions_wf (c\<lparr>c_reactions := RBT.insert s m (c_reactions c)\<rparr>)"
  by (auto simp: reactions_wf_def)

lemma reactions_wf_delete: "reactions_wf c \<Longrightarrow> reactions_wf (c\<lparr>c_reactions := RBT.delete s (c_reactions c)\<rparr>)"
  by (auto simp: reactions_wf_def)

lemmas reactions_wf_intros = users_wf_insert users_wf_delete emoji_wf_insert emoji_wf_delete
  reactions_wf_insert reactions_wf_delete

lemma trackReaction_wf:
  assumes "reactions_wf c" shows "reactions_wf (snd (trackReaction c s e u remove))"
proof (cases "RBT.lookup (c_reactions c) s")
  case None
  then show ?thesis using assms
    by (auto simp: trackReaction_def Let_def intro!: reactions_wf_intros)
next
  case (Some m)
  then have m: "emoji_wf m" using assms by (simp add: reactions_wf_def)
  show ?thesis
  proof (cases "RBT.lookup m e")
    case None
    then show ?thesis using Some m assms
      by (auto simp: trackReaction_def Let_def intro!: reactions_wf_intros)
  next
    case us: (Some us)
    note us_wf = emoji_wf_users [OF m us]
    show ?thesis using Some us m us_wf assms
      by (auto simp: trackReaction_def Let_def simp del: RBT.lookup_delete RBT.lookup_insert
          intro!: reactions_wf_intros)
  qed
qed

text \<open>The snapshot that is persisted lists, per emoji somebody reacted with, the sorted ids of those who did.\<close>

lemma users_keys: "users_wf us \<Longrightarrow> set (RBT.keys us) = users_of us"
  by (fastforce simp: users_wf_def users_of_def RBT.lookup_keys [symmetric])

lemma snapshot_lists:
  assumes "reactions_wf c"
  shows "distinct (map fst (reactionSnapshot c s))"
    and "(e, ids) \<in> set (reactionSnapshot c s) \<longleftrightarrow>
         ids \<noteq> [] \<and> sorted ids \<and> distinct ids \<and> set ids = {u. (s, e, u) \<in> reacted c}"
proof -
  show "distinct (map fst (reactionSnapshot c s))"
    by (auto simp: reactionSnapshot_def comp_def split_beta RBT.distinct_entries split: option.splits)
  show "(e, ids) \<in> set (reactionSnapshot c s) \<longleftrightarrow>
         ids \<noteq> [] \<and> sorted ids \<and> distinct ids \<and> set ids = {u. (s, e, u) \<in> reacted c}"
  proof (cases "RBT.lookup (c_reactions c) s")
    case None
    then show ?thesis by (simp add: reactionSnapshot_def in_reacted)
  next
    case m: (Some m)
    then have mwf: "emoji_wf m" using assms by (simp add: reactions_wf_def)
    have "(e, ids) \<in> set (reactionSnapshot c s) \<longleftrightarrow>
        (\<exists>us. RBT.lookup m e = Some us \<and> ids = RBT.keys us)"
      using m by (force simp: reactionSnapshot_def RBT.lookup_in_tree [symmetric])
    moreover have "{u. (s, e, u) \<in> reacted c} = (case RBT.lookup m e of Some us \<Rightarrow> users_of us | None \<Rightarrow> {})"
      using m by (auto simp: in_reacted split: option.splits)
    moreover have "RBT.keys us \<noteq> [] \<and> set (RBT.keys us) = users_of us" if "RBT.lookup m e = Some us" for us
      using emoji_wf_users [OF mwf that] users_keys [of us] RBT.lookup_keys [of us] 
      by (auto simp: users_wf_def rbt_eq_empty)
    moreover have "ids = RBT.keys us \<longleftrightarrow> sorted ids \<and> distinct ids \<and> set ids = set (RBT.keys us)" for us :: reacting
      using sorted_distinct_set_unique [of ids "RBT.keys us"] by auto
    ultimately show ?thesis by (cases "RBT.lookup m e") auto
  qed
qed

section \<open>The operations preserve well-formedness\<close>

lemma setAway_wf: "names_wf c \<Longrightarrow> names_wf (snd (setAway c nick away))"
  by (auto simp: setAway_def names_wf_def)

lemma renameAway_wf: "names_wf c \<Longrightarrow> names_wf (renameAway c a b)"
  by (auto simp: renameAway_def names_wf_def Let_def split: option.splits)

lemma setPeer_wf:
  "names_wf c \<Longrightarrow> names_wf (setPeerAccount c nick account)"
  "names_wf c \<Longrightarrow> names_wf (setPeerHost c nick user host)"
  "names_wf c \<Longrightarrow> names_wf (renamePeer c a b)"
  by (auto simp: setPeerAccount_def setPeerHost_def renamePeer_def names_wf_def Let_def split: option.splits)

lemma pendingJoins_wf:
  "names_wf c \<Longrightarrow> names_wf (markPending c ch)"
  "names_wf c \<Longrightarrow> names_wf (snd (clearPending c ch))"
  by (auto simp: markPending_def clearPending_def names_wf_def Let_def)

lemma forget_wf:
  "names_wf c \<Longrightarrow> names_wf (forgetAway c nick)" "names_wf c \<Longrightarrow> names_wf (forgetPeer c nick)"
  by (auto simp: forgetAway_def forgetPeer_def names_wf_def)

section \<open>Connections as a transition system\<close>

inductive conn_step :: "conn \<Rightarrow> conn \<Rightarrow> bool" where
  ChatOpen: "conn_step c (pushChatStack (openChatBatch c ref acc) ref)"
| ChatFrame: "conn_step c (appendChatFrame c ref f)"
| ChatClose: "closeChatBatch c ref = (Some acc, c') \<Longrightarrow> conn_step c (popChatStack c' ref)"
| ChatCloseUnknown: "closeChatBatch c ref = (None, c') \<Longrightarrow> conn_step c c'"
| LineOpen: "conn_step c (openLineBatch c ref lacc)"
| LineFrame: "conn_step c (appendLineFrame c ref lf)"
| LineClose: "conn_step c (snd (closeLineBatch c ref))"
| Away: "conn_step c (snd (setAway c nick away))"
| Nick: "conn_step c (renamePeer (renameAway c old new) old new)"
| Quit: "conn_step c (forgetPeer (forgetAway c nick) nick)"
| Account: "conn_step c (setPeerAccount c nick account)"
| Host: "conn_step c (setPeerHost c nick user host)"
| JoinStart: "conn_step c (markPending c ch)"
| JoinEnd: "conn_step c (snd (clearPending c ch))"
| Register: "conn_step c (registerMsgid c mref msgid)"
| Alias: "conn_step c (registerMsgidAlias c mref msgid)"
| Sent: "conn_step c (pushPendingSend c target mref)"
| Echo: "conn_step c (snd (popPendingSend c target))"
| React: "conn_step c (snd (trackReaction c s e u remove))"

lemma conn_fields:
  assumes "c_msgidOrder c' = c_msgidOrder c" "c_snowToMsgid c' = c_snowToMsgid c" "c_aliasOrder c' = c_aliasOrder c"
    "c_pendingSend c' = c_pendingSend c" "c_reactions c' = c_reactions c"
  shows "registry_wf c' = registry_wf c" "pending_wf c' = pending_wf c" "reactions_wf c' = reactions_wf c"
  using assms by (simp_all add: registry_wf_def pending_wf_def reactions_wf_def)

lemma names_fields:
  assumes "c_away c' = c_away c" "c_peers c' = c_peers c" "c_pendingJoins c' = c_pendingJoins c"
  shows "names_wf c' = names_wf c"
  using assms by (simp add: names_wf_def)

lemma conn_wf_frame:
  assumes "conn_wf c"
  shows "conn_wf (c\<lparr>c_chatBatches := b\<rparr>)" "conn_wf (c\<lparr>c_chatStack := st\<rparr>)" "conn_wf (c\<lparr>c_lineBatches := l\<rparr>)"
  using assms by (simp_all add: conn_wf_defs)

lemma conn_wf_names:
  assumes "conn_wf c" "names_wf c \<Longrightarrow> names_wf c'"
    and "c_msgidOrder c' = c_msgidOrder c" "c_snowToMsgid c' = c_snowToMsgid c" "c_aliasOrder c' = c_aliasOrder c"
    "c_pendingSend c' = c_pendingSend c" "c_reactions c' = c_reactions c"
  shows "conn_wf c'"
  using assms conn_fields [OF assms(3-7)] by (simp add: conn_wf_def)

lemma conn_wf_others:
  assumes "conn_wf c" "registry_wf c \<Longrightarrow> registry_wf c'" "pending_wf c \<Longrightarrow> pending_wf c'"
    "reactions_wf c \<Longrightarrow> reactions_wf c'"
    "c_away c' = c_away c" "c_peers c' = c_peers c" "c_pendingJoins c' = c_pendingJoins c"
  shows "conn_wf c'"
  using assms names_fields [OF assms(5-7)] by (simp add: conn_wf_def)

lemmas conn_op_defs = pushChatStack_def openChatBatch_def appendChatFrame_def closeChatBatch_def popChatStack_def
  openLineBatch_def appendLineFrame_def closeLineBatch_def setAway_def renameAway_def forgetAway_def setPeerAccount_def
  setPeerHost_def renamePeer_def forgetPeer_def markPending_def clearPending_def registerMsgid_def
  registerMsgidAlias_def pushPendingSend_def popPendingSend_def trackReaction_def

lemma conn_step_wf: "conn_step c c' \<Longrightarrow> conn_wf c \<Longrightarrow> conn_wf c'"
proof (induction rule: conn_step.induct)
  case (Away c nick away)
  then show ?case by (rule conn_wf_names) (auto simp: setAway_wf, auto simp: conn_op_defs)
next
  case (Nick c old new)
  then show ?case
    by (rule conn_wf_names) (auto simp: setPeer_wf renameAway_wf, auto simp: conn_op_defs split: option.splits)
next
  case (Quit c nick)
  then show ?case by (rule conn_wf_names) (auto simp: forget_wf, auto simp: conn_op_defs)
next
  case (Account c nick account)
  then show ?case by (rule conn_wf_names) (auto simp: setPeer_wf, auto simp: conn_op_defs Let_def)
next
  case (Host c nick user host)
  then show ?case by (rule conn_wf_names) (auto simp: setPeer_wf, auto simp: conn_op_defs Let_def)
next
  case (JoinStart c ch)
  then show ?case by (rule conn_wf_names) (auto simp: pendingJoins_wf, auto simp: conn_op_defs)
next
  case (JoinEnd c ch)
  then show ?case by (rule conn_wf_names) (auto simp: pendingJoins_wf, auto simp: conn_op_defs Let_def)
next
  case (Register c mref msgid)
  then show ?case
    by (rule conn_wf_others)
       (auto simp: registerMsgid_wf, auto simp: pending_wf_def reactions_wf_def conn_op_defs Let_def split_beta)
next
  case (Alias c mref msgid)
  then show ?case
    by (rule conn_wf_others)
       (auto simp: registerMsgidAlias_wf, auto simp: pending_wf_def reactions_wf_def conn_op_defs Let_def split_beta)
next
  case (Sent c target mref)
  then show ?case
    by (rule conn_wf_others) (auto simp: pushPendingSend_wf, auto simp: registry_wf_def reactions_wf_def conn_op_defs Let_def)
next
  case (Echo c target)
  then show ?case
    by (rule conn_wf_others)
       (auto simp: popPendingSend_wf, auto simp: registry_wf_def reactions_wf_def conn_op_defs Let_def split: list.splits)
next
  case (React c s e u remove)
  then show ?case
    by (rule conn_wf_others)
       (auto simp: trackReaction_wf, auto simp: registry_wf_def pending_wf_def conn_op_defs Let_def split: if_splits)
qed (auto simp: conn_op_defs conn_wf_frame split: option.splits)

lemma newConn_wf: "conn_wf (newConn u n)"
  by (simp add: newConn_def conn_wf_defs)

lemma conn_reach_wf: "conn_step\<^sup>*\<^sup>* c c' \<Longrightarrow> conn_wf c \<Longrightarrow> conn_wf c'"
  by (induction rule: rtranclp_induct) (auto intro: conn_step_wf)

inductive_cases conn_stepE: "conn_step c c'"

section \<open>Properties\<close>

text \<open>C37: Every connection the program can reach by any sequence of its operations is well-formed: the registry lists
  exactly the registered messages, without repetition and at most 4096 of them, no pending queue is empty or
  longer than 64, no reaction entry is empty, and no name is recorded under the empty nick.\<close>

lemma conn_reachable_wf: "conn_step\<^sup>*\<^sup>* (newConn userID networkID) c \<Longrightarrow> conn_wf c"
  by (rule conn_reach_wf [OF _ newConn_wf])

lemma conn_reachable_wf_witness:
  "conn_wf (snd (trackReaction (pushPendingSend (newConn ''u'' ''n'') ''#a'' zero_ref) ''1'' ''x'' ''u'' False))"
proof (rule conn_reachable_wf)
  show "conn_step\<^sup>*\<^sup>* (newConn ''u'' ''n'')
      (snd (trackReaction (pushPendingSend (newConn ''u'' ''n'') ''#a'' zero_ref) ''1'' ''x'' ''u'' False))"
    by (meson React Sent r_into_rtranclp rtranclp.rtrancl_into_rtrancl)
qed

text \<open>C38: Identities of our own messages leave the queue of a target in the order in which they were sent, each at
  most once, whatever happens on other targets in between; nothing is lost as long as no more than 64 are outstanding.\<close>

lemma pending_sends_fifo:
  assumes "run_queue pushPendingSend popPendingSend c ops = (out, c')"
  shows "subseq (dequeued (\<lambda>t'. to_lower t = to_lower t') zero_ref out @ pending_queue c' t)
      (pending_queue c t @ enqueued (\<lambda>t'. to_lower t = to_lower t') ops)
    \<and> (length (pending_queue c t) + length (enqueued (\<lambda>t'. to_lower t = to_lower t') ops) \<le> 64 \<longrightarrow>
      zero_ref \<notin> set (pending_queue c t @ enqueued (\<lambda>t'. to_lower t = to_lower t') ops) \<longrightarrow>
      dequeued (\<lambda>t'. to_lower t = to_lower t') zero_ref out @ pending_queue c' t
        = pending_queue c t @ enqueued (\<lambda>t'. to_lower t = to_lower t') ops)"
  using pend.fifo_order [of t c ops] pend.fifo_lossless [of c t ops] assms
  by (simp_all add: pendingSendCap_def)

definition demo_ref :: "string \<Rightarrow> msgRef" where
  "demo_ref s = \<lparr>mr_Snowflake = s, mr_ChannelID = ''5'', mr_GuildID = ''1''\<rparr>"

lemma pending_sends_fifo_witness:
  "dequeued (\<lambda>t'. to_lower ''#A'' = to_lower t') zero_ref
      (fst (run_queue pushPendingSend popPendingSend (newConn ''u'' ''n'')
         [Enq ''#a'' (demo_ref ''7''), Enq ''bob'' (demo_ref ''8''), Deq ''#A'', Enq ''#A'' (demo_ref ''9'')]))
     @ pending_queue (snd (run_queue pushPendingSend popPendingSend (newConn ''u'' ''n'')
         [Enq ''#a'' (demo_ref ''7''), Enq ''bob'' (demo_ref ''8''), Deq ''#A'', Enq ''#A'' (demo_ref ''9'')])) ''#A''
   = [demo_ref ''7'', demo_ref ''9'']"
proof -
  let ?ops = "[Enq ''#a'' (demo_ref ''7''), Enq ''bob'' (demo_ref ''8''), Deq ''#A'', Enq ''#A'' (demo_ref ''9'')]"
  let ?same = "\<lambda>t'. to_lower ''#A'' = to_lower t'"
  have e: "pending_queue (newConn ''u'' ''n'') ''#A'' @ enqueued ?same ?ops = [demo_ref ''7'', demo_ref ''9'']"
    by code_simp
  have l: "length (pending_queue (newConn ''u'' ''n'') ''#A'') + length (enqueued ?same ?ops) \<le> 64"
    by code_simp
  have z: "zero_ref \<notin> set (pending_queue (newConn ''u'' ''n'') ''#A'' @ enqueued ?same ?ops)"
    unfolding e by (simp add: zero_ref_def demo_ref_def)
  note p = pending_sends_fifo [OF prod.collapse [symmetric], where c = "newConn ''u'' ''n''" and ops = ?ops and t = "''#A''"]
  show ?thesis by (rule trans [OF conjunct2 [OF p, rule_format, OF l z] e])
qed

text \<open>After a message id has been registered for a message, both directions resolve to it, even when the registry
  is full and forgets its oldest entry, provided no other registered message carries the same id; the registry stays
  bounded.\<close>

lemma registerMsgid_resolves:
  assumes "registry_wf c" and "\<forall>s. lookupMsgid c s = Some msgid \<longrightarrow> s = mr_Snowflake ref"
  shows "lookupMsgid (registerMsgid c ref msgid) (mr_Snowflake ref) = Some msgid
    \<and> lookupRef (registerMsgid c ref msgid) msgid = Some ref
    \<and> refBySnowflake (registerMsgid c ref msgid) (mr_Snowflake ref) = Some ref
    \<and> registry_wf (registerMsgid c ref msgid)"
proof -
  define order where "order = (if c_snowToMsgid c (mr_Snowflake ref) = None
                   then c_msgidOrder c @ [mr_Snowflake ref] else c_msgidOrder c)"
  define snow where "snow = (c_snowToMsgid c)(mr_Snowflake ref \<mapsto> msgid)"
  define refs where "refs = (c_msgidToRef c)(msgid \<mapsto> ref)"
  have o: "distinct order"
    using assms(1) by (auto simp: order_def registry_wf_def dom_def)
  have t: "mr_Snowflake ref \<notin> set (take (length order - msgidRegistryCap) order)"
    "set (take (length order - msgidRegistryCap) order) \<subseteq> dom (c_snowToMsgid c)"
    using assms(1) set_take_subset [of "length (c_msgidOrder c) + 1 - msgidRegistryCap" "c_msgidOrder c"]
    by (auto simp: order_def registry_wf_def dom_def msgidRegistryCap_def)
  then have "\<forall>s \<in> set (take (length order - msgidRegistryCap) order). snow s \<noteq> Some msgid"
    using assms(2) by (auto simp: snow_def lookupMsgid_def)
  then have "lookupRef (registerMsgid c ref msgid) msgid = Some ref"
    using evict_refs [of order msgidRegistryCap snow msgid refs]
    by (simp add: lookupRef_def registerMsgid_def Let_def order_def snow_def refs_def split_beta)
  moreover have "lookupMsgid (registerMsgid c ref msgid) (mr_Snowflake ref) = Some msgid"
    using evict_snow [OF o, of msgidRegistryCap snow refs] t(1)
    by (simp add: lookupMsgid_def registerMsgid_def Let_def order_def snow_def refs_def split_beta)
  ultimately show ?thesis
    using registerMsgid_wf [OF assms(1)] by (simp add: refBySnowflake_def lookupMsgid_def lookupRef_def)
qed

lemma registerMsgid_resolves_witness:
  "lookupRef (registerMsgid (registerMsgid (newConn ''u'' ''n'') (demo_ref ''7'') ''m7'') (demo_ref ''8'') ''m8'') ''m8''
     = Some (demo_ref ''8'')"
proof -
  define c where "c = registerMsgid (newConn ''u'' ''n'') (demo_ref ''7'') ''m7''"
  have c: "registry_wf c" unfolding c_def by (rule registerMsgid_wf) (simp add: newConn_wf [unfolded conn_wf_def])
  have "c_snowToMsgid c = [''7'' \<mapsto> ''m7'']"
    by (simp add: c_def registerMsgid_def newConn_def demo_ref_def msgidRegistryCap_def)
  then have "\<forall>s. lookupMsgid c s = Some ''m8'' \<longrightarrow> s = mr_Snowflake (demo_ref ''8'')"
    by (simp add: lookupMsgid_def)
  from registerMsgid_resolves [OF c this] show ?thesis by (simp add: c_def)
qed

text \<open>A reaction is added or removed as in the set of reactions, repeats change nothing and are reported as such,
  and the snapshot that is persisted lists exactly the emoji somebody reacted with, each with the sorted ids of those
  who did.\<close>

lemma trackReaction_set:
  assumes "reactions_wf c" and "trackReaction c s e u remove = (changed, c')"
  shows "reacted c' = (if remove then reacted c - {(s, e, u)} else insert (s, e, u) (reacted c))
    \<and> changed = (reacted c' \<noteq> reacted c)
    \<and> set (reactionSnapshot c' s) = {(e, ids). ids \<noteq> [] \<and> sorted ids \<and> distinct ids
          \<and> set ids = {u. (s, e, u) \<in> reacted c'}}"
  using trackReaction_reacted [OF assms(2)] snapshot_lists(2) [of c' _ _ s]
    trackReaction_wf [OF assms(1), of s e u remove] assms(2)
  by auto

lemma trackReaction_set_witness:
  "reacted (snd (trackReaction (newConn ''u'' ''n'') ''7'' ''x'' ''u'' False)) = {(''7'', ''x'', ''u'')}"
proof -
  have r: "reactions_wf (newConn ''u'' ''n'')" "reacted (newConn ''u'' ''n'') = {}"
    using newConn_wf by (simp_all add: conn_wf_def newConn_def reacted_def)
  show ?thesis
    using trackReaction_set [OF r(1) prod.collapse [symmetric], of "''7''" "''x''" "''u''" False] r(2) by simp
qed

end
