(* ===== verification/Utf8.thy ===== *)
theory Utf8
  imports Prelude
begin

text \<open>
  Conversions between Go strings (bytes) and rune slices: \<open>runes_of s\<close> is \<open>[]rune(s)\<close>, where an invalid byte
  becomes U+FFFD, and \<open>utf8_string rs\<close> is \<open>string(rs)\<close>. Lemmas: on ASCII text both are the identity on codes.
\<close>

abbreviation byte :: "char \<Rightarrow> nat" where
  "byte c \<equiv> of_char c"

definition cont_byte :: "nat \<Rightarrow> nat \<Rightarrow> char \<Rightarrow> bool" where
  "cont_byte lo hi c = (lo \<le> byte c \<and> byte c \<le> hi)"

definition low6 :: "char \<Rightarrow> nat" where
  "low6 c = byte c mod 64"

fun decode_rune :: "string \<Rightarrow> nat \<times> nat" where
  "decode_rune [] = (65533, 0)"
| "decode_rune (c # t) =
     (let b = byte c; bad = (65533, 1) in
      if b < 128 then (b, 1)
      else if 194 \<le> b \<and> b \<le> 223 then
        (case t of
           c1 # _ \<Rightarrow> if cont_byte 128 191 c1 then ((b - 192) * 64 + low6 c1, 2) else bad
         | [] \<Rightarrow> bad)
      else if 224 \<le> b \<and> b \<le> 239 then
        (case t of
           c1 # c2 # _ \<Rightarrow>
             if cont_byte (if b = 224 then 160 else 128) (if b = 237 then 159 else 191) c1 \<and> cont_byte 128 191 c2
             then (((b - 224) * 64 + low6 c1) * 64 + low6 c2, 3) else bad
         | _ \<Rightarrow> bad)
      else if 240 \<le> b \<and> b \<le> 244 then
        (case t of
           c1 # c2 # c3 # _ \<Rightarrow>
             if cont_byte (if b = 240 then 144 else 128) (if b = 244 then 143 else 191) c1
                \<and> cont_byte 128 191 c2 \<and> cont_byte 128 191 c3
             then ((((b - 240) * 64 + low6 c1) * 64 + low6 c2) * 64 + low6 c3, 4) else bad
         | _ \<Rightarrow> bad)
      else bad)"

lemma decode_rune_width: "0 < snd (decode_rune (c # t))"
  by (auto simp: Let_def split: list.splits)

lemma decode_rune_advances: "(r, w) = decode_rune s \<Longrightarrow> s \<noteq> [] \<Longrightarrow> 0 < w"
  using decode_rune_width [of "hd s" "tl s"] by (metis list.collapse snd_conv)

function runes_of :: "string \<Rightarrow> nat list" where
  "runes_of s =
     (if s = [] then [] else case decode_rune s of (r, w) \<Rightarrow> r # runes_of (drop w s))"
  by pat_completeness auto
termination runes_of
  by (relation "measure length") (auto dest: decode_rune_advances)

declare runes_of.simps [simp del]

definition rune_bytes :: "nat \<Rightarrow> nat list" where
  "rune_bytes r =
     (if r < 128 then [r]
      else if r < 2048 then [192 + r div 64, 128 + r mod 64]
      else if (55296 \<le> r \<and> r \<le> 57343) \<or> 1114111 < r then [239, 191, 189]
      else if r < 65536 then [224 + r div 4096, 128 + r div 64 mod 64, 128 + r mod 64]
      else [240 + r div 262144, 128 + r div 4096 mod 64, 128 + r div 64 mod 64, 128 + r mod 64])"

definition encode_rune :: "nat \<Rightarrow> string" where
  "encode_rune r = map char_of (rune_bytes r)"

definition utf8_string :: "nat list \<Rightarrow> string" where
  "utf8_string rs = concat (map encode_rune rs)"

definition ascii :: "string \<Rightarrow> bool" where
  "ascii s = list_all (\<lambda>c. byte c < 128) s"

lemma ascii_simps [simp]:
  "ascii []" "ascii (c # s) \<longleftrightarrow> byte c < 128 \<and> ascii s" "ascii (s @ t) \<longleftrightarrow> ascii s \<and> ascii t"
  by (auto simp: ascii_def)

lemma runes_of_Nil [simp]: "runes_of [] = []"
  by (subst runes_of.simps) simp

lemma runes_of_ascii: "ascii s \<Longrightarrow> runes_of s = map byte s"
proof (induction s)
  case (Cons c s)
  then show ?case by (subst runes_of.simps) simp
qed simp

lemma utf8_string_simps [simp]:
  "utf8_string [] = []" "utf8_string (r # rs) = encode_rune r @ utf8_string rs"
  by (simp_all add: utf8_string_def)

lemma encode_byte [simp]: "byte c < 128 \<Longrightarrow> encode_rune (byte c) = [c]"
  by (simp add: encode_rune_def rune_bytes_def)

lemma utf8_string_ascii: "ascii s \<Longrightarrow> utf8_string (map byte s) = s"
  by (induction s) auto

end
