(* ===== verification/Mentions.thy ===== *)
theory Mentions
  imports NetworkStore AttachmentStore ConnState Model Utf8
begin

text \<open>
  \<open>internal/irc/ircmanage/mentions.go\<close>: the rewriting of mentions between IRC (bare nicks and \<open>#channel\<close> names) and
  Discord (markers \<open><@id>\<close> and \<open><#id>\<close>). The roster of a channel and the live nicks come from the IRC client
  library and are parameters (\<open>members\<close>, \<open>live\<close>), as is \<open>uni\<close>, the classes letter and digit of package
  unicode beyond ASCII. A loop of the code that indexes out of range is the value None of \<open>ircize\<close> (a Go panic);
  the loop of \<open>MentionPayloadsFromMarkers\<close> may run forever, so it is a partial function whose value None says that
  it does not return.
\<close>

section \<open>Who and what can be mentioned\<close>

definition ircNickRune :: "(nat \<Rightarrow> bool) \<Rightarrow> nat \<Rightarrow> bool" where
  "ircNickRune uni r =
     (if r \<in> {45, 91, 93, 92, 96, 95, 94, 123, 124, 125} then True
      else if r < 128 then (65 \<le> r \<and> r \<le> 90) \<or> (97 \<le> r \<and> r \<le> 122) \<or> (48 \<le> r \<and> r \<le> 57)
      else uni r)"

record mentionUser =
  mu_nick :: string
  mu_id :: string
  mu_bio :: string
  mu_bot :: bool
  mu_bounce :: bool
  mu_mode :: string

record mentionChannel =
  mc_ircName :: string
  mc_id :: string
  mc_name :: string

definition is_channel_name :: "string \<Rightarrow> bool" where
  "is_channel_name t = (has_prefix t ''#'' \<or> has_prefix t ''&'')"

definition peer_mention :: "'d store \<Rightarrow> 'd \<Rightarrow> string \<Rightarrow> string \<Rightarrow> string \<Rightarrow> string \<Rightarrow> string \<Rightarrow> mentionUser" where
  "peer_mention B d userID networkID nick bio mode =
     \<lparr>mu_nick = nick, mu_id = IrcAuthorID (''irc:'' @ nick), mu_bio = bio,
      mu_bot = PeerBot B d userID networkID nick, mu_bounce = False, mu_mode = mode\<rparr>"

definition peer_universe ::
  "'d store \<Rightarrow> 'd \<Rightarrow> conn option \<Rightarrow> ChannelMember list \<Rightarrow> string \<Rightarrow> string \<Rightarrow> string \<Rightarrow> (string \<times> mentionUser) list" where
  "peer_universe B d c members userID networkID ircTarget =
     (if is_channel_name ircTarget then
        fold (\<lambda>cm m. if cm_Nick cm = [] then m
                     else AList.update (to_lower (cm_Nick cm))
                            (peer_mention B d userID networkID (cm_Nick cm) (BioText cm) (cm_Mode cm)) m) members []
      else if ircTarget \<noteq> [] then
        [(to_lower ircTarget, peer_mention B d userID networkID ircTarget
            (case c of Some c \<Rightarrow> peerBioText c ircTarget | None \<Rightarrow> []) [])]
      else [])"

definition member_nick :: "(string \<Rightarrow> string) \<Rightarrow> Membership \<Rightarrow> string" where
  "member_nick live mem = (if live (mem_UserID mem) \<noteq> [] then live (mem_UserID mem) else mem_Nick mem)"

definition mentionUsers ::
  "'d store \<Rightarrow> 'd \<Rightarrow> conn option \<Rightarrow> (string \<Rightarrow> string) \<Rightarrow> ChannelMember list \<Rightarrow> string \<Rightarrow> string \<Rightarrow> string \<Rightarrow> mentionUser list" where
  "mentionUsers B d c live members userID networkID ircTarget =
     (let byLower = peer_universe B d c members userID networkID ircTarget;
          byLower =
            (case ListMemberships B d networkID of
               Inr mems \<Rightarrow>
                 fold (\<lambda>mem m. if member_nick live mem = [] then m
                               else AList.update (to_lower (member_nick live mem))
                                      \<lparr>mu_nick = member_nick live mem, mu_id = mem_UserID mem, mu_bio = [],
                                       mu_bot = False, mu_bounce = True, mu_mode = []\<rparr> m) mems byLower
             | Inl _ \<Rightarrow> byLower)
      in sort_key (\<lambda>u. - int (length (mu_nick u))) (map snd byLower))"

definition mention_channel :: "Channel \<Rightarrow> mentionChannel" where
  "mention_channel ch = \<lparr>mc_ircName = ch_IRCName ch, mc_id = ch_ID ch, mc_name = ch_Name ch\<rparr>"

definition mentionChannels ::
  "'d store \<Rightarrow> 'd \<Rightarrow> 'g idgen \<Rightarrow> 'g \<Rightarrow> string \<Rightarrow> string \<Rightarrow> time \<Rightarrow> mentionChannel list \<times> 'd \<times> 'g" where
  "mentionChannels B d newID g userID networkID now =
     (case GetMembership B d networkID userID of
        Inl _ \<Rightarrow> ([], d, g)
      | Inr mem \<Rightarrow>
          (case ChannelsByIRC B d newID g networkID (mem_AutoJoin mem) now of
             (Inl _, d, g) \<Rightarrow> ([], d, g)
           | (Inr chans, d, g) \<Rightarrow>
               (sort_key (\<lambda>c. - int (length (mc_ircName c))) (map mention_channel chans), d, g)))"

definition resolveMentionUser :: "mentionUser list \<Rightarrow> string \<Rightarrow> mentionUser option" where
  "resolveMentionUser users i = List.find (\<lambda>u. mu_id u = i) users"

section \<open>Markers\<close>

definition cut_digits :: "nat \<Rightarrow> string \<Rightarrow> (string \<times> nat) option" where
  "cut_digits skipped rest =
     (case index_byte rest (CHR ''>'') of
        None \<Rightarrow> None
      | Some e \<Rightarrow>
          if e = 0 then None
          else if \<not> list_all is_digit (take e rest) then None
          else Some (take e rest, skipped + e + 1))"

definition cutUserMarker :: "string \<Rightarrow> (string \<times> nat) option" where
  "cutUserMarker s =
     (if \<not> has_prefix s ''<@'' then None
      else let rest = drop 2 s in
           if has_prefix rest ''!'' then cut_digits 3 (drop 1 rest) else cut_digits 2 rest)"

definition cutChannelMarker :: "string \<Rightarrow> (string \<times> nat) option" where
  "cutChannelMarker s = (if \<not> has_prefix s ''<#'' then None else cut_digits 2 (drop 2 s))"

lemma cut_digits_width: "cut_digits k rest = Some (i, w) \<Longrightarrow> 0 < w"
  by (auto simp: cut_digits_def split: option.splits if_splits)

lemma cutUserMarker_width: "cutUserMarker s = Some (i, w) \<Longrightarrow> 0 < w \<and> s \<noteq> []"
  by (auto simp: cutUserMarker_def has_prefix_def Let_def dest: cut_digits_width split: if_splits)

lemma cutChannelMarker_width: "cutChannelMarker s = Some (i, w) \<Longrightarrow> 0 < w \<and> s \<noteq> []"
  by (auto simp: cutChannelMarker_def has_prefix_def dest: cut_digits_width split: if_splits)

section \<open>From Discord to IRC\<close>

fun has_infix :: "string \<Rightarrow> string \<Rightarrow> bool" where
  "has_infix [] p = (p = [])"
| "has_infix (c # s) p = (has_prefix (c # s) p \<or> has_infix s p)"

definition channel_hits :: "mentionChannel list \<Rightarrow> string \<Rightarrow> string list" where
  "channel_hits chans s =
     (case cutChannelMarker s of
        Some (i, w) \<Rightarrow> map mc_ircName (filter (\<lambda>ch. mc_id ch = i) chans)
      | None \<Rightarrow> [])"

definition channel_skip :: "mentionChannel list \<Rightarrow> string \<Rightarrow> nat" where
  "channel_skip chans s =
     (case cutChannelMarker s of Some (i, w) \<Rightarrow> length (channel_hits chans s) * w | None \<Rightarrow> 0)"

text \<open>One round of the loop at the suffix \<open>s\<close>: what is written and what remains. The \<open>continue\<close> after a
  channel name has been written continues the loop over the channels, not the loop over the text, so the byte at the
  new position is copied unexamined, and is read out of range when the marker ends the text.\<close>

definition copy_byte :: "string \<Rightarrow> string \<Rightarrow> (string \<times> string) option" where
  "copy_byte out rest = (case rest of [] \<Rightarrow> None | c # rest \<Rightarrow> Some (out @ [c], rest))"

definition ircize_channel :: "mentionChannel list \<Rightarrow> string \<Rightarrow> (string \<times> string) option" where
  "ircize_channel chans s = copy_byte (concat (channel_hits chans s)) (drop (channel_skip chans s) s)"

definition ircize_step :: "mentionUser list \<Rightarrow> mentionChannel list \<Rightarrow> string \<Rightarrow> (string \<times> string) option" where
  "ircize_step users chans s =
     (if hd s = CHR ''<'' then
        (case cutUserMarker s of
           Some (i, w) \<Rightarrow>
             (case resolveMentionUser users i of
                Some u \<Rightarrow> Some (mu_nick u, drop w s)
              | None \<Rightarrow> ircize_channel chans s)
         | None \<Rightarrow> ircize_channel chans s)
      else copy_byte [] s)"

lemma copy_byte_shorter:
  assumes "copy_byte out (drop k s) = Some (out', rest)" shows "length rest < length s"
proof -
  have "Suc (length rest) = length (drop k s)"
    using assms by (auto simp: copy_byte_def simp del: length_drop split: list.splits)
  then show ?thesis by simp
qed

lemma ircize_step_shorter:
  assumes "ircize_step users chans s = Some (out, rest)" shows "length rest < length s"
proof -
  have c: "copy_byte out s = Some (out', r) \<Longrightarrow> length r < length s"
    "ircize_channel chans s = Some (out', r) \<Longrightarrow> length r < length s" for out out' r
    using copy_byte_shorter [of _ 0 s] copy_byte_shorter by (auto simp: ircize_channel_def)
  show ?thesis
  proof (cases "cutUserMarker s")
    case None
    then show ?thesis using assms c by (auto simp: ircize_step_def split: if_splits)
  next
    case (Some iw)
    then have "length (drop (snd iw) s) < length s" using cutUserMarker_width [of s "fst iw" "snd iw"] by simp
    with Some show ?thesis using assms c by (cases iw) (auto simp: ircize_step_def split: if_splits option.splits)
  qed
qed

function ircize :: "mentionUser list \<Rightarrow> mentionChannel list \<Rightarrow> string \<Rightarrow> string option" where
  "ircize users chans s =
     (if s = [] then Some []
      else case ircize_step users chans s of
             None \<Rightarrow> None
           | Some (out, rest) \<Rightarrow> map_option ((@) out) (ircize users chans rest))"
  by pat_completeness auto
termination ircize
  by (relation "measure (\<lambda>(users, chans, s). length s)") (auto dest: ircize_step_shorter)

declare ircize.simps [simp del]

definition IRCize :: "mentionUser list \<Rightarrow> mentionChannel list \<Rightarrow> string \<Rightarrow> string option" where
  "IRCize users chans msg =
     (if \<not> has_infix msg ''<@'' \<and> \<not> has_infix msg ''<#'' then Some msg
      else ircize users chans msg)"

section \<open>The mentions of a message that carries markers\<close>

definition mentionUserPayload :: "mentionUser \<Rightarrow> json" where
  "mentionUserPayload u =
     JObj ([(''id'', JStr (mu_id u)), (''username'', JStr (mu_nick u)), (''discriminator'', JStr ''0''),
            (''bot'', JBool (mu_bot u))] @ (if mu_bio u \<noteq> [] then [(''bio'', JStr (mu_bio u))] else []))"

definition mentionChannelPayload :: "mentionChannel \<Rightarrow> string \<Rightarrow> json" where
  "mentionChannelPayload c networkID =
     JObj [(''id'', JStr (mc_id c)), (''guild_id'', JStr networkID), (''name'', JStr (mc_name c)), (''type'', JNum ''0'')]"

record marker_acc =
  ma_seen :: "string list"
  ma_users :: "json list"
  ma_chans :: "json list"

definition see_user :: "mentionUser list \<Rightarrow> string \<Rightarrow> marker_acc \<Rightarrow> marker_acc" where
  "see_user users i acc =
     (if i \<in> set (ma_seen acc) then acc
      else acc\<lparr>ma_seen := i # ma_seen acc,
               ma_users := ma_users acc @
                 (case resolveMentionUser users i of Some u \<Rightarrow> [mentionUserPayload u] | None \<Rightarrow> [])\<rparr>)"

definition see_channel :: "mentionChannel list \<Rightarrow> string \<Rightarrow> string \<Rightarrow> marker_acc \<Rightarrow> marker_acc" where
  "see_channel chans networkID i acc =
     (if (CHR ''#'' # i) \<in> set (ma_seen acc) then acc
      else acc\<lparr>ma_seen := (CHR ''#'' # i) # ma_seen acc,
               ma_chans := ma_chans acc @
                 map (\<lambda>ch. mentionChannelPayload ch networkID) (filter (\<lambda>ch. mc_id ch = i) chans)\<rparr>)"

text \<open>The loop: a \<open><\<close> that starts no marker leaves the position unchanged.\<close>

partial_function (option) marker_loop ::
  "mentionUser list \<Rightarrow> mentionChannel list \<Rightarrow> string \<Rightarrow> string \<Rightarrow> marker_acc \<Rightarrow> marker_acc option" where
  "marker_loop users chans networkID s acc =
     (if s = [] then Some acc
      else if hd s \<noteq> CHR ''<'' then marker_loop users chans networkID (tl s) acc
      else
        (case cutUserMarker s of
           Some (i, w) \<Rightarrow> marker_loop users chans networkID (drop w s) (see_user users i acc)
         | None \<Rightarrow>
             (case cutChannelMarker s of
                Some (i, w) \<Rightarrow> marker_loop users chans networkID (drop w s) (see_channel chans networkID i acc)
              | None \<Rightarrow> marker_loop users chans networkID s acc)))"

definition MentionPayloadsFromMarkers ::
  "mentionUser list \<Rightarrow> mentionChannel list \<Rightarrow> string \<Rightarrow> string \<Rightarrow> (json list \<times> json list) option" where
  "MentionPayloadsFromMarkers users chans networkID msg =
     map_option (\<lambda>acc. (ma_users acc, ma_chans acc))
       (marker_loop users chans networkID msg \<lparr>ma_seen = [], ma_users = [], ma_chans = []\<rparr>)"

section \<open>From IRC to Discord\<close>

definition is_word :: "char \<Rightarrow> bool" where
  "is_word c = (let b = byte c in (48 \<le> b \<and> b \<le> 57) \<or> (65 \<le> b \<and> b \<le> 90) \<or> (97 \<le> b \<and> b \<le> 122) \<or> b = 95)"

definition url_space :: "char \<Rightarrow> bool" where
  "url_space c = (byte c \<in> {9, 10, 12, 13, 32})"

text \<open>\<open>mentionURLRe\<close>, that is \<open>(?i)\b(?:https?://|www\.)\S+\<close>: the width of the scheme at the head of the text (with
  case folding, \<open>s\<close> also matches U+017F), and of a whole match.\<close>

definition url_scheme :: "string \<Rightarrow> nat option" where
  "url_scheme s =
     (if to_lower (take 4 s) = ''http'' then
        (let t = drop 4 s;
             k = (if to_lower (take 1 t) = ''s'' then 1
                  else if map byte (take 2 t) = [197, 191] then 2 else 0)
         in if take 3 (drop k t) = ''://'' then Some (7 + k) else None)
      else if to_lower (take 4 s) = ''www.'' then Some 4
      else None)"

definition url_at :: "char option \<Rightarrow> string \<Rightarrow> nat option" where
  "url_at prev s =
     (if (case prev of Some c \<Rightarrow> is_word c | None \<Rightarrow> False) = (s \<noteq> [] \<and> is_word (hd s)) then None
      else case url_scheme s of
             None \<Rightarrow> None
           | Some k \<Rightarrow>
               (case length (takeWhile (\<lambda>c. \<not> url_space c) (drop k s)) of 0 \<Rightarrow> None | n \<Rightarrow> Some (k + n)))"

function url_spans :: "char option \<Rightarrow> nat \<Rightarrow> string \<Rightarrow> (nat \<times> nat) list" where
  "url_spans prev pos s =
     (if s = [] then []
      else case url_at prev s of
             Some n \<Rightarrow> (pos, pos + n) # url_spans (Some (last (take n s))) (pos + n) (drop (max 1 n) s)
           | None \<Rightarrow> url_spans (Some (hd s)) (pos + 1) (tl s))"
  by pat_completeness auto
termination url_spans
  by (relation "measure (\<lambda>(prev, pos, s). length s)") auto

declare url_spans.simps [simp del]

definition rune_offset :: "nat list \<Rightarrow> nat \<Rightarrow> nat" where
  "rune_offset runes i = sum_list (map (\<lambda>r. length (encode_rune r)) (take i runes))"

definition urlMask :: "nat list \<Rightarrow> bool list" where
  "urlMask runes =
     (let spans = url_spans None 0 (utf8_string runes)
      in map (\<lambda>i. list_ex (\<lambda>(lo, hi). lo \<le> rune_offset runes i \<and> rune_offset runes i < hi) spans)
           [0..<length runes])"

definition nick_here :: "(nat \<Rightarrow> bool) \<Rightarrow> nat list \<Rightarrow> nat \<Rightarrow> mentionUser \<Rightarrow> bool" where
  "nick_here uni runes i u =
     (let rest = utf8_string (drop i runes); n = length (mu_nick u) in
      \<not> (n = 0 \<or> n > length rest)
      \<and> equal_fold (take n rest) (mu_nick u)
      \<and> \<not> (length runes > i + n \<and> ircNickRune uni (runes ! (i + n)))
      \<and> \<not> (i > 0 \<and> ircNickRune uni (runes ! (i - 1)) \<and> runes ! (i - 1) \<noteq> 64))"

definition matchNickAt :: "(nat \<Rightarrow> bool) \<Rightarrow> nat list \<Rightarrow> nat \<Rightarrow> mentionUser list \<Rightarrow> (mentionUser \<times> nat) option" where
  "matchNickAt uni runes i users =
     (if i \<ge> length runes \<or> \<not> ircNickRune uni (runes ! i) then None
      else map_option (\<lambda>u. (u, length (runes_of (mu_nick u)))) (List.find (nick_here uni runes i) users))"

definition channel_here :: "(nat \<Rightarrow> bool) \<Rightarrow> nat list \<Rightarrow> nat \<Rightarrow> mentionChannel \<Rightarrow> bool" where
  "channel_here uni runes i c =
     (let rest = utf8_string (drop i runes); n = length (mc_ircName c) in
      \<not> (n = 0 \<or> n > length rest)
      \<and> equal_fold (take n rest) (mc_ircName c)
      \<and> \<not> (length runes > i + n \<and> ircNickRune uni (runes ! (i + n))))"

definition matchChannelAt :: "(nat \<Rightarrow> bool) \<Rightarrow> nat list \<Rightarrow> nat \<Rightarrow> mentionChannel list \<Rightarrow> (mentionChannel \<times> nat) option" where
  "matchChannelAt uni runes i chans =
     (if i \<ge> length runes \<or> runes ! i \<noteq> 35 then None
      else map_option (\<lambda>c. (c, length (runes_of (mc_ircName c)))) (List.find (channel_here uni runes i) chans))"

lemma runes_of_eq_Nil [simp]: "runes_of s = [] \<longleftrightarrow> s = []"
  by (cases s; subst runes_of.simps) (auto split: prod.splits)

lemma matchNickAt_width: "matchNickAt uni runes i users = Some (u, w) \<Longrightarrow> 0 < w \<and> i < length runes"
  by (auto simp: matchNickAt_def nick_here_def Let_def find_Some_iff split: if_splits)

lemma matchChannelAt_width: "matchChannelAt uni runes i chans = Some (c, w) \<Longrightarrow> 0 < w \<and> i < length runes"
  by (auto simp: matchChannelAt_def channel_here_def Let_def find_Some_iff split: if_splits)

definition note_user :: "mentionUser \<Rightarrow> mentionUser list \<Rightarrow> mentionUser list" where
  "note_user u us = (if mu_id u \<in> mu_id ` set us then us else us @ [u])"

definition note_channel :: "mentionChannel \<Rightarrow> mentionChannel list \<Rightarrow> mentionChannel list" where
  "note_channel c cs = (if mc_id c \<in> mc_id ` set cs then cs else cs @ [c])"

text \<open>One round of the scan at position \<open>i\<close>: the text written, the mention noted, the new position.\<close>

datatype discord_step = NickHit mentionUser nat | ChannelHit mentionChannel nat | Copy

definition scan_at ::
  "(nat \<Rightarrow> bool) \<Rightarrow> mentionUser list \<Rightarrow> mentionChannel list \<Rightarrow> nat list \<Rightarrow> bool list \<Rightarrow> nat \<Rightarrow> discord_step" where
  "scan_at uni users chans runes urls i =
     (let at = (if runes ! i = 64 \<and> i + 1 < length runes then i + 1 else i) in
      case (if \<not> urls ! at then matchNickAt uni runes at users else None) of
        Some (u, w) \<Rightarrow> NickHit u (at + w)
      | None \<Rightarrow>
          (case (if \<not> urls ! i then matchChannelAt uni runes i chans else None) of
             Some (c, w) \<Rightarrow> ChannelHit c (i + w)
           | None \<Rightarrow> Copy))"

lemma scan_at_advances:
  "scan_at uni users chans runes urls i = NickHit u j \<Longrightarrow> i < j"
  "scan_at uni users chans runes urls i = ChannelHit c j \<Longrightarrow> i < j"
  by (auto simp: scan_at_def Let_def dest!: matchNickAt_width matchChannelAt_width split: if_splits option.splits)

function discord_loop ::
  "(nat \<Rightarrow> bool) \<Rightarrow> mentionUser list \<Rightarrow> mentionChannel list \<Rightarrow> nat list \<Rightarrow> bool list \<Rightarrow> nat \<Rightarrow>
     string \<times> mentionUser list \<times> mentionChannel list \<Rightarrow> string \<times> mentionUser list \<times> mentionChannel list" where
  "discord_loop uni users chans runes urls i (b, us, cs) =
     (if i < length runes then
        (case scan_at uni users chans runes urls i of
           NickHit u j \<Rightarrow>
             discord_loop uni users chans runes urls j (b @ ''<@'' @ mu_id u @ ''>'', note_user u us, cs)
         | ChannelHit c j \<Rightarrow>
             discord_loop uni users chans runes urls j (b @ ''<#'' @ mc_id c @ ''>'', us, note_channel c cs)
         | Copy \<Rightarrow> discord_loop uni users chans runes urls (i + 1) (b @ encode_rune (runes ! i), us, cs))
      else (b, us, cs))"
  by pat_completeness auto
termination discord_loop
  by (relation "measure (\<lambda>(uni, users, chans, runes, urls, i, acc). length runes - i)")
     (auto dest: scan_at_advances)

declare discord_loop.simps [simp del]

definition Discordize ::
  "(nat \<Rightarrow> bool) \<Rightarrow> mentionUser list \<Rightarrow> mentionChannel list \<Rightarrow> string \<Rightarrow> string \<times> mentionUser list \<times> mentionChannel list" where
  "Discordize uni users chans msg =
     (if length users = 0 \<and> length chans = 0 then (msg, [], [])
      else let runes = runes_of msg
           in discord_loop uni users chans runes (urlMask runes) 0 ([], [], []))"

section \<open>Markers and plain text\<close>

definition marker_id :: "string \<Rightarrow> bool" where
  "marker_id i \<longleftrightarrow> i \<noteq> [] \<and> list_all is_digit i"

lemma drop_marker: "drop (length i + 3) (a # b # i @ c # s) = s"
  by (simp add: eval_nat_numeral)

lemma cut_digits_marker:
  assumes "marker_id i" shows "cut_digits k (i @ CHR ''>'' # rest) = Some (i, k + length i + 1)"
proof -
  have "CHR ''>'' \<notin> set i" using assms by (auto simp: marker_id_def list_all_iff is_digit_def)
  then show ?thesis using assms by (simp add: cut_digits_def index_byte_append marker_id_def)
qed

lemma cutUserMarker_marker:
  assumes "marker_id i" shows "cutUserMarker (''<@'' @ i @ ''>'' @ rest) = Some (i, length i + 3)"
proof -
  have "\<not> has_prefix (i @ CHR ''>'' # rest) ''!''"
    using assms by (cases i) (auto simp: has_prefix_def marker_id_def is_digit_def)
  then show ?thesis
    using cut_digits_marker [OF assms, of 2 rest] by (simp add: cutUserMarker_def has_prefix_def)
qed

lemma cutChannelMarker_marker:
  "marker_id i \<Longrightarrow> cutChannelMarker (''<#'' @ i @ ''>'' @ rest) = Some (i, length i + 3)"
  using cut_digits_marker [of i 2 rest] by (simp add: cutChannelMarker_def has_prefix_def)

lemma ircize_Nil [simp]: "ircize users chans [] = Some []"
  by (subst ircize.simps) simp

lemma ircize_copy: "c \<noteq> CHR ''<'' \<Longrightarrow> ircize users chans (c # s) = map_option ((#) c) (ircize users chans s)"
  by (subst ircize.simps) (simp add: ircize_step_def copy_byte_def, cases "ircize users chans s", simp_all)

lemma ircize_text: "CHR ''<'' \<notin> set pre \<Longrightarrow> ircize users chans (pre @ s) = map_option ((@) pre) (ircize users chans s)"
  by (induction pre; cases "ircize users chans s") (auto simp: ircize_copy)

lemma ircize_user:
  assumes "marker_id i" "resolveMentionUser users i = Some u"
  shows "ircize users chans (''<@'' @ i @ ''>'' @ s) = map_option ((@) (mu_nick u)) (ircize users chans s)"
proof -
  have "ircize_step users chans (''<@'' @ i @ ''>'' @ s) = Some (mu_nick u, s)"
    using cutUserMarker_marker [OF assms(1), of s] assms(2) by (simp add: ircize_step_def drop_marker)
  then show ?thesis by (subst ircize.simps) simp
qed

lemma cutUserMarker_other: "\<not> has_prefix s ''<@'' \<Longrightarrow> cutUserMarker s = None"
  by (simp add: cutUserMarker_def)

text \<open>A channel marker: the byte behind it is copied without being looked at.\<close>

lemma ircize_channel_marker:
  assumes "marker_id i" "filter (\<lambda>ch. mc_id ch = i) chans = [ch]"
  shows "ircize users chans (''<#'' @ i @ ''>'' @ s) =
    (case s of [] \<Rightarrow> None | c # s \<Rightarrow> map_option (\<lambda>r. mc_ircName ch @ c # r) (ircize users chans s))"
proof -
  have "cutUserMarker (''<#'' @ i @ ''>'' @ s) = None" by (simp add: cutUserMarker_other has_prefix_def)
  moreover have "channel_hits chans (''<#'' @ i @ ''>'' @ s) = [mc_ircName ch]"
    "channel_skip chans (''<#'' @ i @ ''>'' @ s) = length i + 3"
    using cutChannelMarker_marker [OF assms(1), of s] assms(2) by (simp_all add: channel_hits_def channel_skip_def)
  ultimately have "ircize_step users chans (''<#'' @ i @ ''>'' @ s) = copy_byte (mc_ircName ch) s"
    by (simp add: ircize_step_def ircize_channel_def drop_marker)
  moreover have e: "(@) (mc_ircName ch @ [a]) = (\<lambda>r. mc_ircName ch @ a # r)" for a by auto
  ultimately show ?thesis
    by (subst ircize.simps, cases s) (simp_all add: copy_byte_def e)
qed

lemma has_infix_suffix: "has_infix s p = False \<Longrightarrow> has_infix (drop k s) p = False"
proof (induction s arbitrary: k)
  case (Cons c s)
  then show ?case by (cases k) auto
qed simp

text \<open>The early return for a text without \<open><@\<close> and \<open><#\<close> gives what the loop would give.\<close>

lemma ircize_plain: "\<not> has_infix s ''<@'' \<Longrightarrow> \<not> has_infix s ''<#'' \<Longrightarrow> ircize users chans s = Some s"
proof (induction s)
  case (Cons c s)
  have "cutUserMarker (c # s) = None" "cutChannelMarker (c # s) = None"
    using Cons.prems by (simp_all add: cutUserMarker_def cutChannelMarker_def)
  then have "ircize_step users chans (c # s) = Some ([c], s)"
    by (cases "c = CHR ''<''")
       (simp_all add: ircize_step_def ircize_channel_def copy_byte_def channel_hits_def channel_skip_def)
  then show ?case using Cons by (subst ircize.simps) simp
qed simp

lemma IRCize_loop: "IRCize users chans s = ircize users chans s"
  by (simp add: IRCize_def ircize_plain)

section \<open>The markers of a text\<close>

datatype marker = UserMarker string | ChannelMarker string

text \<open>The markers that the loop meets, or None when it meets a \<open><\<close> that starts no marker.\<close>

function markers_of :: "string \<Rightarrow> marker list option" where
  "markers_of s =
     (if s = [] then Some []
      else if hd s \<noteq> CHR ''<'' then markers_of (tl s)
      else case cutUserMarker s of
             Some iw \<Rightarrow> map_option ((#) (UserMarker (fst iw))) (markers_of (drop (snd iw) s))
           | None \<Rightarrow>
               (case cutChannelMarker s of
                  Some iw \<Rightarrow> map_option ((#) (ChannelMarker (fst iw))) (markers_of (drop (snd iw) s))
                | None \<Rightarrow> None))"
  by pat_completeness auto
termination markers_of
  by (relation "measure length") (auto dest: cutUserMarker_width cutChannelMarker_width)

declare markers_of.simps [simp del]

definition see :: "mentionUser list \<Rightarrow> mentionChannel list \<Rightarrow> string \<Rightarrow> marker \<Rightarrow> marker_acc \<Rightarrow> marker_acc" where
  "see users chans networkID m =
     (case m of UserMarker i \<Rightarrow> see_user users i | ChannelMarker i \<Rightarrow> see_channel chans networkID i)"

lemma see_simps [simp]:
  "see users chans networkID (UserMarker i) = see_user users i"
  "see users chans networkID (ChannelMarker i) = see_channel chans networkID i"
  by (simp_all add: see_def)

lemma marker_loop_returns:
  "markers_of s = Some ms \<Longrightarrow>
     marker_loop users chans networkID s acc = Some (fold (see users chans networkID) ms acc)"
proof (induction s arbitrary: ms acc rule: markers_of.induct)
  case (1 s)
  show ?case
  proof (cases "s = [] \<or> hd s \<noteq> CHR ''<''")
    case True
    then show ?thesis using 1 
      by (subst marker_loop.simps) (auto simp: markers_of.simps [of s] split: if_splits)
  next
    case False
    show ?thesis
    proof (cases "cutUserMarker s")
      case (Some iw)
      then obtain ms' where "markers_of (drop (snd iw) s) = Some ms'" "ms = UserMarker (fst iw) # ms'"
        using "1.prems" False by (auto simp: markers_of.simps [of s])
      then show ?thesis using 1(3) [OF _ _ Some] False Some
        by (subst marker_loop.simps) (auto simp: split_beta)
    next
      case None
      then obtain iw where iw: "cutChannelMarker s = Some iw"
        using "1.prems" False by (auto simp: markers_of.simps [of s] split: option.splits)
      then obtain ms' where "markers_of (drop (snd iw) s) = Some ms'" "ms = ChannelMarker (fst iw) # ms'"
        using "1.prems" False None by (auto simp: markers_of.simps [of s])
      then show ?thesis using 1(2) [OF _ _ None iw] False None iw
        by (subst marker_loop.simps) (auto simp: split_beta)
    qed
  qed
qed

lemma marker_loop_defined:
  assumes "marker_loop users chans networkID s acc = Some r" shows "markers_of s \<noteq> None"
proof (rule marker_loop.raw_induct [where P = "\<lambda>users chans networkID s acc r. markers_of s \<noteq> None", OF _ assms])
  fix loop :: "mentionUser list \<Rightarrow> mentionChannel list \<Rightarrow> string \<Rightarrow> string \<Rightarrow> marker_acc \<Rightarrow> marker_acc option"
  fix users chans networkID s acc r
  assume IH: "\<And>users chans networkID s acc r. loop users chans networkID s acc = Some r \<Longrightarrow> markers_of s \<noteq> None"
    and r: "(if s = [] then Some acc
      else if hd s \<noteq> CHR ''<'' then loop users chans networkID (tl s) acc
      else
        (case cutUserMarker s of
           Some (i, w) \<Rightarrow> loop users chans networkID (drop w s) (see_user users i acc)
         | None \<Rightarrow>
             (case cutChannelMarker s of
                Some (i, w) \<Rightarrow> loop users chans networkID (drop w s) (see_channel chans networkID i acc)
              | None \<Rightarrow> loop users chans networkID s acc))) = Some r"
  show "markers_of s \<noteq> None"
    using r markers_of.simps [of s] by (auto split: if_splits option.splits dest!: IH)
qed

fun firsts :: "'a list \<Rightarrow> 'a list \<Rightarrow> 'a list" where
  "firsts seen [] = []"
| "firsts seen (x # xs) = (if x \<in> set seen then firsts seen xs else x # firsts (x # seen) xs)"

fun marker_key :: "marker \<Rightarrow> string" where
  "marker_key (UserMarker i) = i"
| "marker_key (ChannelMarker i) = CHR ''#'' # i"

fun marker_digits :: "marker \<Rightarrow> bool" where
  "marker_digits (UserMarker i) = marker_id i"
| "marker_digits (ChannelMarker i) = marker_id i"

lemma cut_digits_id: "cut_digits k rest = Some (i, w) \<Longrightarrow> marker_id i"
  by (cases rest) (auto simp: cut_digits_def marker_id_def split: option.splits if_splits)

lemma cut_marker_id:
  "cutUserMarker s = Some (i, w) \<Longrightarrow> marker_id i" "cutChannelMarker s = Some (i, w) \<Longrightarrow> marker_id i"
  by (auto simp: cutUserMarker_def cutChannelMarker_def Let_def dest: cut_digits_id split: if_splits)

lemma markers_of_digits: "markers_of s = Some ms \<Longrightarrow> list_all marker_digits ms"
proof (induction s arbitrary: ms rule: markers_of.induct)
  case (1 s)
  show ?case
    using 1(4) markers_of.simps [of s] 1(1-3)
    by (auto split: if_splits option.splits dest: cut_marker_id)
qed

lemma marker_key_inj:
  "marker_digits m \<Longrightarrow> marker_digits m' \<Longrightarrow> marker_key m = marker_key m' \<longleftrightarrow> m = m'"
  by (cases m; cases m') (auto simp: marker_id_def is_digit_def)

definition user_objects :: "mentionUser list \<Rightarrow> marker \<Rightarrow> json list" where
  "user_objects users m =
     (case m of UserMarker i \<Rightarrow> (case resolveMentionUser users i of Some u \<Rightarrow> [mentionUserPayload u] | None \<Rightarrow> [])
      | ChannelMarker i \<Rightarrow> [])"

definition channel_objects :: "mentionChannel list \<Rightarrow> string \<Rightarrow> marker \<Rightarrow> json list" where
  "channel_objects chans networkID m =
     (case m of UserMarker i \<Rightarrow> []
      | ChannelMarker i \<Rightarrow> map (\<lambda>ch. mentionChannelPayload ch networkID) (filter (\<lambda>ch. mc_id ch = i) chans))"

lemma see_eq:
  "see users chans networkID m acc =
     (if marker_key m \<in> set (ma_seen acc) then acc
      else \<lparr>ma_seen = marker_key m # ma_seen acc, ma_users = ma_users acc @ user_objects users m,
            ma_chans = ma_chans acc @ channel_objects chans networkID m\<rparr>)"
  by (cases m) (auto simp: see_user_def see_channel_def user_objects_def channel_objects_def)

lemma fold_see:
  "list_all marker_digits ms \<Longrightarrow> list_all marker_digits seen \<Longrightarrow> ma_seen acc = map marker_key seen \<Longrightarrow>
     ma_users (fold (see users chans networkID) ms acc)
       = ma_users acc @ concat (map (user_objects users) (firsts seen ms))
   \<and> ma_chans (fold (see users chans networkID) ms acc)
       = ma_chans acc @ concat (map (channel_objects chans networkID) (firsts seen ms))"
proof (induction ms arbitrary: seen acc)
  case (Cons m ms)
  have "marker_key m \<in> marker_key ` set seen \<longleftrightarrow> m \<in> set seen"
    using Cons.prems(1,2) by (auto simp: list_all_iff marker_key_inj)
  with Cons.prems Cons.IH [of seen acc]
    Cons.IH [of "m # seen" "see users chans networkID m acc"] show ?case
    by (auto simp: see_eq simp del: see_simps)
qed simp

lemma firsts_set: "set (firsts seen xs) = set xs - set seen \<and> distinct (firsts seen xs)"
  by (induction xs arbitrary: seen) auto

section \<open>The order of the candidates\<close>

definition longest_first :: "mentionUser list \<Rightarrow> bool" where
  "longest_first us = sorted_wrt (\<lambda>u v. length (mu_nick u) \<ge> length (mu_nick v)) us"

lemma find_longest:
  "longest_first us \<Longrightarrow> List.find P us = Some u \<Longrightarrow> v \<in> set us \<Longrightarrow> P v \<Longrightarrow> length (mu_nick v) \<le> length (mu_nick u)"
  by (induction us) (auto simp: longest_first_def split: if_splits)

lemma nick_here_unique:
  assumes "nick_here uni runes i u" "nick_here uni runes i v" "length (mu_nick u) = length (mu_nick v)"
  shows "to_lower (mu_nick u) = to_lower (mu_nick v)"
  using assms by (auto simp: nick_here_def Let_def equal_fold_def)

lemma find_order:
  assumes "set us = set us'" "longest_first us" "longest_first us'"
    and "inj_on (\<lambda>u. to_lower (mu_nick u)) (set us)"
  shows "List.find (nick_here uni runes i) us = List.find (nick_here uni runes i) us'"
proof (cases "List.find (nick_here uni runes i) us")
  case None
  then show ?thesis using assms(1) by (metis find_None_iff)
next
  case (Some u)
  then have u: "u \<in> set us" "nick_here uni runes i u"
    by (auto simp: find_Some_iff)
  then obtain v where v: "List.find (nick_here uni runes i) us' = Some v"
    using assms(1) by (metis find_None_iff option.exhaust)
  then have v': "v \<in> set us" "nick_here uni runes i v"
    using assms(1) by (auto simp: find_Some_iff)
  have "length (mu_nick u) = length (mu_nick v)"
    using find_longest [OF assms(2) Some v'] find_longest [OF assms(3) v _ u(2)] u(1) assms(1) by simp
  then have "u = v" using nick_here_unique [OF u(2) v'(2)] assms(4) u v' by (auto dest: inj_onD)
  with Some v show ?thesis by simp
qed

lemma discord_loop_cong:
  assumes "\<And>i. scan_at uni us chans runes urls i = scan_at uni us' chans' runes urls i"
  shows "discord_loop uni us chans runes urls i acc = discord_loop uni us' chans' runes urls i acc"
proof (induction "length runes - i" arbitrary: i acc rule: less_induct)
  case less
  obtain b mus mcs where acc: "acc = (b, mus, mcs)" by (cases acc)
  have "length runes - j < length runes - i" if "i < length runes" "i < j" for j
    using that by simp
  then show ?case
    using less scan_at_advances [of uni us chans runes urls i] unfolding acc
    by (subst (1 2) discord_loop.simps) (simp add: assms [symmetric] split: discord_step.split)
qed

lemma Discordize_order:
  assumes "set us = set us'" "longest_first us" "longest_first us'"
    and "inj_on (\<lambda>u. to_lower (mu_nick u)) (set us)"
  shows "Discordize uni us chans msg = Discordize uni us' chans msg"
proof -
  have m: "matchNickAt uni runes i us = matchNickAt uni runes i us'" for runes i
    using find_order [OF assms] by (simp add: matchNickAt_def)
  then have s: "scan_at uni us chans runes urls i = scan_at uni us' chans runes urls i" for runes urls i
    by (simp add: scan_at_def)
  have "length us = 0 \<longleftrightarrow> length us' = 0" using assms(1) by auto
  then show ?thesis using discord_loop_cong [OF s] by (simp add: Discordize_def Let_def)
qed

definition keyed :: "(string \<times> mentionUser) list \<Rightarrow> bool" where
  "keyed m \<longleftrightarrow> distinct (map fst m) \<and> (\<forall>(k, u) \<in> set m. k = to_lower (mu_nick u))"

lemma alist_update_set: "x \<in> set (AList.update k v m) \<Longrightarrow> x = (k, v) \<or> x \<in> set m"
  by (induction m) (auto split: if_splits)

lemma keyed_update:
  assumes "keyed m" shows "keyed (AList.update (to_lower (mu_nick u)) u m)"
  unfolding keyed_def
proof (intro conjI ballI)
  show "distinct (map fst (AList.update (to_lower (mu_nick u)) u m))"
    using assms by (simp add: keyed_def distinct_update)
  fix x assume "x \<in> set (AList.update (to_lower (mu_nick u)) u m)"
  from alist_update_set [OF this] show "case x of (k, v) \<Rightarrow> k = to_lower (mu_nick v)"
    using assms by (auto simp: keyed_def)
qed

lemma keyed_fold:
  "(\<And>x m. keyed m \<Longrightarrow> keyed (f x m)) \<Longrightarrow> keyed m \<Longrightarrow> keyed (fold f xs m)"
  by (induction xs arbitrary: m) auto

lemma keyed_peers: "keyed (peer_universe B d c members userID networkID t)"
proof -
  have "keyed (AList.update (to_lower n) (peer_mention B d userID networkID n bio mode) m)" if "keyed m" for n bio mode m
    using keyed_update [OF that, of "peer_mention B d userID networkID n bio mode"] by (simp add: peer_mention_def)
  then show ?thesis
    unfolding peer_universe_def
    by (auto intro!: keyed_fold [where m = "[]"] simp: keyed_def [of "[]"]) (simp add: keyed_def peer_mention_def)
qed

lemma keyed_inj:
  assumes "keyed m" shows "inj_on (\<lambda>u. to_lower (mu_nick u)) (snd ` set m)"
proof (rule inj_onI)
  fix u v assume "u \<in> snd ` set m" "v \<in> snd ` set m" "to_lower (mu_nick u) = to_lower (mu_nick v)"
  then have "(to_lower (mu_nick u), u) \<in> set m" "(to_lower (mu_nick u), v) \<in> set m"
    using assms by (auto simp: keyed_def)
  then show "u = v" using assms eq_key_imp_eq_value [of m "to_lower (mu_nick u)" u v] by (simp add: keyed_def)
qed

lemma mentionUsers_wf:
  "longest_first (mentionUsers B d c live members userID networkID t)
   \<and> inj_on (\<lambda>u. to_lower (mu_nick u)) (set (mentionUsers B d c live members userID networkID t))"
proof -
  define upd where "upd = (\<lambda>mem m. if member_nick live mem = [] then m
                               else AList.update (to_lower (member_nick live mem))
                                      \<lparr>mu_nick = member_nick live mem, mu_id = mem_UserID mem, mu_bio = [],
                                       mu_bot = False, mu_bounce = True, mu_mode = []\<rparr> m)"
  define m where "m = (case ListMemberships B d networkID of
               Inr mems \<Rightarrow> fold upd mems (peer_universe B d c members userID networkID t)
             | Inl _ \<Rightarrow> peer_universe B d c members userID networkID t)"
  have e: "mentionUsers B d c live members userID networkID t
      = sort_key (\<lambda>u. - int (length (mu_nick u))) (map snd m)"
    unfolding mentionUsers_def Let_def m_def upd_def by (rule refl)
  have "keyed (upd mem al)" if "keyed al" for mem al
  proof -
    define v where "v = \<lparr>mu_nick = member_nick live mem, mu_id = mem_UserID mem, mu_bio = [],
                                       mu_bot = False, mu_bounce = True, mu_mode = []\<rparr>"
    have "mu_nick v = member_nick live mem" by (simp add: v_def)
    then show ?thesis using keyed_update [OF that, of v] that by (simp add: upd_def v_def [symmetric])
  qed
  then have "keyed m" unfolding m_def
    by (auto intro!: keyed_fold keyed_peers split: sum.split)
  moreover have "longest_first (sort_key (\<lambda>u. - int (length (mu_nick u))) us)" for us
    using sorted_sort_key [of "\<lambda>u. - int (length (mu_nick u))" us]
    by (simp add: longest_first_def sorted_map)
  ultimately show ?thesis unfolding e by (simp add: keyed_inj)
qed

section \<open>There and back\<close>

lemma byte_at_sign: "byte c = 64 \<longleftrightarrow> c = CHR ''@''"
proof
  assume "byte c = 64"
  then have "byte c = byte (CHR ''@'')" by simp
  then show "c = CHR ''@''" by (simp only: of_char_eq_iff)
qed simp

lemma resolve_unique:
  "distinct (map mu_id users) \<Longrightarrow> u \<in> set users \<Longrightarrow> resolveMentionUser users (mu_id u) = Some u"
  unfolding resolveMentionUser_def by (induction users) force+

text \<open>A nick stands at a position of an IRC line: its letters, in either case, between characters that cannot be
  part of a nick.\<close>

definition nick_stands :: "(nat \<Rightarrow> bool) \<Rightarrow> string \<Rightarrow> nat \<Rightarrow> mentionUser \<Rightarrow> bool" where
  "nick_stands uni msg i u \<longleftrightarrow>
     (let n = length (mu_nick u); letter = (\<lambda>k. k < length msg \<and> ircNickRune uni (byte (msg ! k)))
      in 0 < n \<and> equal_fold (take n (drop i msg)) (mu_nick u)
         \<and> letter i \<and> \<not> letter (i + n) \<and> \<not> (0 < i \<and> letter (i - 1)))"

text \<open>A piece of a line is a byte that is copied, or the nick of a user. \<open>mention_pieces\<close> cuts a line from position
  \<open>i\<close> on: where nicks stand, outside links, the longest of them is a piece, and nothing else is a mention.\<close>

type_synonym piece = "string \<times> mentionUser option"

definition mention_piece :: "(nat \<Rightarrow> bool) \<Rightarrow> mentionUser list \<Rightarrow> bool list \<Rightarrow> string \<Rightarrow> nat \<Rightarrow> piece \<Rightarrow> bool" where
  "mention_piece uni users urls msg i p \<longleftrightarrow>
     (case snd p of
        None \<Rightarrow> length (fst p) = 1 \<and> (urls ! i \<or> \<not> list_ex (nick_stands uni msg i) users)
      | Some u \<Rightarrow> \<not> urls ! i \<and> u \<in> set users \<and> nick_stands uni msg i u \<and> length (fst p) = length (mu_nick u)
          \<and> list_all (\<lambda>v. nick_stands uni msg i v \<longrightarrow> length (mu_nick v) \<le> length (mu_nick u)) users)"

fun mention_pieces :: "(nat \<Rightarrow> bool) \<Rightarrow> mentionUser list \<Rightarrow> bool list \<Rightarrow> string \<Rightarrow> nat \<Rightarrow> piece list \<Rightarrow> bool" where
  "mention_pieces uni users urls msg i [] \<longleftrightarrow> i = length msg"
| "mention_pieces uni users urls msg i (p # ps) \<longleftrightarrow>
     take (length (fst p)) (drop i msg) = fst p \<and> i + length (fst p) \<le> length msg
     \<and> mention_piece uni users urls msg i p \<and> mention_pieces uni users urls msg (i + length (fst p)) ps"

definition marked :: "piece \<Rightarrow> string" where
  "marked p = (case snd p of None \<Rightarrow> fst p | Some u \<Rightarrow> ''<@'' @ mu_id u @ ''>'')"

definition spelled :: "piece \<Rightarrow> string" where
  "spelled p = (case snd p of None \<Rightarrow> fst p | Some u \<Rightarrow> mu_nick u)"

definition mentioned_in :: "piece list \<Rightarrow> mentionUser list" where
  "mentioned_in ps = concat (map (\<lambda>p. case snd p of None \<Rightarrow> [] | Some u \<Rightarrow> [u]) ps)"

lemma pieces_text: "i \<le> length msg \<Longrightarrow> mention_pieces uni users urls msg i ps \<Longrightarrow> concat (map fst ps) = drop i msg"
proof (induction ps arbitrary: i)
  case (Cons p ps)
  then have "concat (map fst ps) = drop (i + length (fst p)) msg" by simp
  moreover have "drop i msg = take (length (fst p)) (drop i msg) @ drop (i + length (fst p)) msg"
    by (metis append_take_drop_id drop_drop add.commute)
  ultimately show ?case using Cons.prems(2) by simp
qed simp

lemma nick_stands_iff:
  assumes "ascii msg" "ascii (mu_nick u)" "i < length msg"
  shows "nick_stands uni msg i u
    \<longleftrightarrow> nick_here uni (map byte msg) i u \<and> ircNickRune uni (map byte msg ! i)"
proof -
  have "ascii (drop i msg)"
    using assms(1) set_drop_subset [of i msg] by (auto simp: ascii_def list_all_iff)
  then have t: "utf8_string (drop i (map byte msg)) = drop i msg" by (simp add: drop_map utf8_string_ascii)
  define n where "n = length (mu_nick u)"
  define fits where "fits = equal_fold (take n (drop i msg)) (mu_nick u)"
  have l: "i + n \<le> length msg" if fits
  proof -
    have "length (to_lower (take n (drop i msg))) = length (to_lower (mu_nick u))"
      using that by (simp add: fits_def equal_fold_def)
    then show ?thesis using assms(3) by (simp add: to_lower_def n_def)
  qed
  have at: "\<not> ircNickRune uni 64" by (simp add: ircNickRune_def)
  have here: "nick_here uni (map byte msg) i u \<longleftrightarrow> 0 < n \<and> n \<le> length msg - i \<and> fits
      \<and> \<not> (i + n < length msg \<and> ircNickRune uni (byte (msg ! (i + n))))
      \<and> \<not> (0 < i \<and> ircNickRune uni (byte (msg ! (i - 1))))"
    unfolding nick_here_def Let_def t n_def [symmetric] fits_def
    using at assms(3) by (auto simp del: of_char_eq_iff)
  have stands: "nick_stands uni msg i u \<longleftrightarrow> 0 < n \<and> fits \<and> ircNickRune uni (byte (msg ! i))
      \<and> \<not> (i + n < length msg \<and> ircNickRune uni (byte (msg ! (i + n))))
      \<and> \<not> (0 < i \<and> ircNickRune uni (byte (msg ! (i - 1))))"
    unfolding nick_stands_def Let_def n_def [symmetric] fits_def [symmetric] using assms(3) by auto
  show ?thesis unfolding here stands using l assms(3) by auto
qed

lemma match_stands:
  assumes "ascii msg" "\<forall>u \<in> set users. ascii (mu_nick u)" "i < length msg"
  shows "matchNickAt uni (map byte msg) i users
    = map_option (\<lambda>u. (u, length (mu_nick u))) (List.find (nick_stands uni msg i) users)"
proof -
  have stands: "nick_stands uni msg i u \<longleftrightarrow> nick_here uni (map byte msg) i u \<and> ircNickRune uni (map byte msg ! i)"
    if "u \<in> set users" for u
    using nick_stands_iff [OF assms(1) _ assms(3)] assms(2) that by blast
  show ?thesis
  proof (cases "ircNickRune uni (map byte msg ! i)")
    case True
    then have e: "List.find (nick_here uni (map byte msg) i) users = List.find (nick_stands uni msg i) users"
      using stands by (intro find_cong) auto
    have m: "matchNickAt uni (map byte msg) i users
        = map_option (\<lambda>u. (u, length (runes_of (mu_nick u)))) (List.find (nick_stands uni msg i) users)"
      using True assms(3) e by (simp add: matchNickAt_def)
    show ?thesis
    proof (cases "List.find (nick_stands uni msg i) users")
      case (Some u)
      then have "u \<in> set users" by (auto simp: find_Some_iff)
      then show ?thesis using m Some assms(2) by (simp add: runes_of_ascii)
    qed (simp add: m)
  next
    case False
    then have "List.find (nick_stands uni msg i) users = None" using stands by (auto simp: find_None_iff)
    then show ?thesis using False by (simp add: matchNickAt_def)
  qed
qed

text \<open>One round of the loop is one piece.\<close>

lemma scan_piece:
  assumes "ascii msg" "CHR ''@'' \<notin> set msg" "\<forall>u \<in> set users. ascii (mu_nick u)" "longest_first users"
    and "i < length msg"
  shows "case scan_at uni users [] (map byte msg) urls i of
      NickHit u j \<Rightarrow> j = i + length (mu_nick u) \<and> j \<le> length msg
        \<and> mention_piece uni users urls msg i (take (length (mu_nick u)) (drop i msg), Some u)
    | ChannelHit c j \<Rightarrow> False
    | Copy \<Rightarrow> mention_piece uni users urls msg i ([msg ! i], None)"
proof -
  have "msg ! i \<in> set msg" by (rule nth_mem [OF assms(5)])
  then have "msg ! i \<noteq> CHR ''@''" using assms(2) by metis
  then have at: "map byte msg ! i \<noteq> 64" by (simp only: nth_map [OF assms(5)] byte_at_sign not_False_eq_True)
  have s: "scan_at uni users [] (map byte msg) urls i
      = (case (if \<not> urls ! i then matchNickAt uni (map byte msg) i users else None) of
           Some (u, w) \<Rightarrow> NickHit u (i + w) | None \<Rightarrow> Copy)"
    using at by (auto simp: scan_at_def Let_def matchChannelAt_def split: option.splits)
  show ?thesis
  proof (cases "\<not> urls ! i \<and> List.find (nick_stands uni msg i) users \<noteq> None")
    case True
    then obtain u where f: "List.find (nick_stands uni msg i) users = Some u" by auto
    then have u: "u \<in> set users" "nick_stands uni msg i u" by (auto simp: find_Some_iff)
    then have "length (to_lower (take (length (mu_nick u)) (drop i msg))) = length (to_lower (mu_nick u))"
      by (simp add: nick_stands_def Let_def equal_fold_def)
    then have n: "i + length (mu_nick u) \<le> length msg" using assms(5) by (simp add: to_lower_def)
    moreover have "scan_at uni users [] (map byte msg) urls i = NickHit u (i + length (mu_nick u))"
      using s True match_stands [OF assms(1,3,5), of uni] f by simp
    moreover have "list_all (\<lambda>v. nick_stands uni msg i v \<longrightarrow> length (mu_nick v) \<le> length (mu_nick u)) users"
      using find_longest [OF assms(4) f] by (simp add: list_all_iff)
    ultimately show ?thesis using True u by (simp add: mention_piece_def)
  next
    case False
    then have "scan_at uni users [] (map byte msg) urls i = Copy"
      using s match_stands [OF assms(1,3,5), of uni] by auto
    then show ?thesis using False by (auto simp: mention_piece_def find_None_iff list_ex_iff)
  qed
qed

lemma discord_loop_pieces:
  assumes "ascii msg" "CHR ''@'' \<notin> set msg" "\<forall>u \<in> set users. ascii (mu_nick u)" "longest_first users"
  shows "i \<le> length msg \<Longrightarrow> \<exists>ps. mention_pieces uni users urls msg i ps
    \<and> discord_loop uni users [] (map byte msg) urls i (b, us, cs)
        = (b @ concat (map marked ps), fold note_user (mentioned_in ps) us, cs)"
proof (induction "length msg - i" arbitrary: i b us rule: less_induct)
  case less
  show ?case
  proof (cases "i < length msg")
    case False
    then have "i = length msg" using less.prems by simp
    then show ?thesis by (intro exI [of _ "[]"]) (simp add: discord_loop.simps mentioned_in_def)
  next
    case True
    note p = scan_piece [OF assms True, of uni urls]
    show ?thesis
    proof (cases "scan_at uni users [] (map byte msg) urls i")
      case (NickHit u j)
      let ?w = "take (length (mu_nick u)) (drop i msg)"
      have j: "j = i + length (mu_nick u)" "j \<le> length msg" "mention_piece uni users urls msg i (?w, Some u)"
        using p NickHit by simp_all
      have "length msg - j < length msg - i" using True scan_at_advances(1) [OF NickHit] by simp
      from less.hyps [OF this j(2), of "b @ ''<@'' @ mu_id u @ ''>''" "note_user u us"]
      obtain ps where ps: "mention_pieces uni users urls msg j ps"
        "discord_loop uni users [] (map byte msg) urls j (b @ ''<@'' @ mu_id u @ ''>'', note_user u us, cs)
           = ((b @ ''<@'' @ mu_id u @ ''>'') @ concat (map marked ps), fold note_user (mentioned_in ps) (note_user u us), cs)"
        by blast
      have "discord_loop uni users [] (map byte msg) urls i (b, us, cs)
          = discord_loop uni users [] (map byte msg) urls j (b @ ''<@'' @ mu_id u @ ''>'', note_user u us, cs)"
        using True NickHit by (subst discord_loop.simps) simp
      moreover have "length ?w = length (mu_nick u)" using j by simp
      ultimately show ?thesis using j ps
        by (intro exI [of _ "(?w, Some u) # ps"]) (simp add: marked_def mentioned_in_def)
    next
      case (ChannelHit c j)
      then show ?thesis using p by simp
    next
      case Copy
      have "length msg - (i + 1) < length msg - i" "i + 1 \<le> length msg" using True by simp_all
      from less.hyps [OF this, of "b @ [msg ! i]" us] obtain ps where
        ps: "mention_pieces uni users urls msg (i + 1) ps"
          "discord_loop uni users [] (map byte msg) urls (i + 1) (b @ [msg ! i], us, cs)
             = ((b @ [msg ! i]) @ concat (map marked ps), fold note_user (mentioned_in ps) us, cs)"
        by blast
      have "byte (msg ! i) < 128"
        using nth_mem [OF True] assms(1) by (auto simp: ascii_def list_all_iff)
      then have "discord_loop uni users [] (map byte msg) urls i (b, us, cs)
          = discord_loop uni users [] (map byte msg) urls (i + 1) (b @ [msg ! i], us, cs)"
        using True Copy by (subst discord_loop.simps) simp
      moreover have "take 1 (drop i msg) = [msg ! i]"
        using True by (simp add: Cons_nth_drop_Suc [symmetric])
      ultimately show ?thesis using p Copy ps True
        by (intro exI [of _ "([msg ! i], None) # ps"]) (simp add: marked_def mentioned_in_def)
    qed
  qed
qed

lemma ircize_pieces:
  assumes "CHR ''<'' \<notin> set (concat (map fst ps))" "distinct (map mu_id users)"
    and "\<forall>u \<in> set users. marker_id (mu_id u)" "set (mentioned_in ps) \<subseteq> set users"
  shows "ircize users chans (concat (map marked ps)) = Some (concat (map spelled ps))"
  using assms(1,4)
proof (induction ps)
  case (Cons p ps)
  then have IH: "ircize users chans (concat (map marked ps)) = Some (concat (map spelled ps))"
    by (simp add: mentioned_in_def)
  show ?case
  proof (cases "snd p")
    case None
    then show ?thesis using Cons.prems(1) IH ircize_text [of "fst p" users chans "concat (map marked ps)"]
      by (simp add: marked_def [of p] spelled_def [of p])
  next
    case (Some u)
    then have "u \<in> set users" using Cons.prems(2) by (simp add: mentioned_in_def)
    then have "marker_id (mu_id u)" "resolveMentionUser users (mu_id u) = Some u"
      using assms(2,3) resolve_unique by auto
    from ircize_user [OF this, of chans "concat (map marked ps)"] show ?thesis
      using Some IH by (simp add: marked_def [of p] spelled_def [of p])
  qed
qed simp

lemma pieces_users: "mention_pieces uni users urls msg i ps \<Longrightarrow> set (mentioned_in ps) \<subseteq> set users"
  by (induction ps arbitrary: i) (auto simp: mentioned_in_def mention_piece_def split: option.splits)

section \<open>Properties\<close>

text \<open>C34: In an ASCII line without \<open><\<close> and \<open>@\<close>, the rewriting for Discord marks exactly the nicks of the candidates
  that stand in it outside links (the longest one where several do, in either case), copies everything else byte by
  byte, and reports the marked users, each once, in order. Rewriting the result back for IRC gives the line again with
  every marked nick in its own spelling. Supposed: the candidates come longest first (as \<open>mentionUsers\<close> sorts them)
  with ASCII nicks and distinct ids made of digits, and no channel names are rewritten on the way to Discord.\<close>

lemma Discordize_IRCize:
  assumes "ascii msg" "CHR ''<'' \<notin> set msg" "CHR ''@'' \<notin> set msg" "distinct (map mu_id users)"
    and "\<forall>u \<in> set users. marker_id (mu_id u) \<and> ascii (mu_nick u)" "longest_first users"
  shows "\<exists>ps. mention_pieces uni users (urlMask (map byte msg)) msg 0 ps
    \<and> concat (map fst ps) = msg
    \<and> Discordize uni users [] msg = (concat (map marked ps), fold note_user (mentioned_in ps) [], [])
    \<and> IRCize users chans (concat (map marked ps)) = Some (concat (map spelled ps))"
proof -
  have n: "\<forall>u \<in> set users. ascii (mu_nick u)" and m: "\<forall>u \<in> set users. marker_id (mu_id u)"
    using assms(5) by auto
  obtain ps where ps: "mention_pieces uni users (urlMask (map byte msg)) msg 0 ps"
    "discord_loop uni users [] (map byte msg) (urlMask (map byte msg)) 0 ([], [], [])
       = (concat (map marked ps), fold note_user (mentioned_in ps) [], [])"
    using discord_loop_pieces [OF assms(1,3) n assms(6), of 0 uni "urlMask (map byte msg)" "[]" "[]" "[]"] by auto
  have t: "concat (map fst ps) = msg" using pieces_text [OF _ ps(1)] by simp
  have "Discordize uni users [] msg = (concat (map marked ps), fold note_user (mentioned_in ps) [], [])"
  proof (cases users)
    case Nil
    then have "mentioned_in ps = []" using pieces_users [OF ps(1)] by simp
    then have "concat (map marked ps) = concat (map fst ps)"
      by (induction ps) (auto simp: mentioned_in_def marked_def split: option.splits)
    then show ?thesis using Nil t \<open>mentioned_in ps = []\<close> by (simp add: Discordize_def)
  next
    case Cons
    then show ?thesis using ps(2) by (simp add: Discordize_def runes_of_ascii [OF assms(1)] Let_def)
  qed
  moreover have "CHR ''<'' \<notin> set (concat (map fst ps))" unfolding t by (rule assms(2))
  ultimately show ?thesis
    using ps(1) t ircize_pieces [OF _ assms(4) m pieces_users [OF ps(1)], of chans]
    by (intro exI [of _ ps] conjI) (simp_all only: IRCize_loop not_False_eq_True)
qed

definition demo_users :: "mentionUser list" where
  "demo_users =
     [\<lparr>mu_nick = ''Ann2'', mu_id = ''11'', mu_bio = [], mu_bot = False, mu_bounce = True, mu_mode = []\<rparr>,
      \<lparr>mu_nick = ''ann'', mu_id = ''12'', mu_bio = [], mu_bot = False, mu_bounce = True, mu_mode = []\<rparr>]"

definition demo_chans :: "mentionChannel list" where
  "demo_chans = [\<lparr>mc_ircName = ''#go'', mc_id = ''5'', mc_name = ''go''\<rparr>]"

lemma Discordize_IRCize_witness:
  "\<exists>ps. mention_pieces (\<lambda>_. False) demo_users (urlMask (map byte ''ann2, hi ANN'')) ''ann2, hi ANN'' 0 ps
     \<and> fst (Discordize (\<lambda>_. False) demo_users [] ''ann2, hi ANN'') = concat (map marked ps)
     \<and> IRCize demo_users demo_chans (concat (map marked ps)) = Some (concat (map spelled ps))"
proof -
  have "ascii ''ann2, hi ANN''" "distinct (map mu_id demo_users)"
    "\<forall>u \<in> set demo_users. marker_id (mu_id u) \<and> ascii (mu_nick u)"
    by code_simp+
  moreover have "longest_first demo_users" by (simp add: longest_first_def demo_users_def)
  ultimately show ?thesis
    using Discordize_IRCize [of "''ann2, hi ANN''" demo_users "\<lambda>_. False" demo_chans] by fastforce
qed

text \<open>In \<open>ann2, hi ANN\<close> the nick \<open>Ann2\<close> stands at the beginning and \<open>ann\<close> only at the end.\<close>

lemma demo_nicks_stand:
  "nick_stands (\<lambda>_. False) ''ann2, hi ANN'' 0 (hd demo_users) \<and> \<not> nick_stands (\<lambda>_. False) ''ann2, hi ANN'' 0 (demo_users ! 1)
   \<and> nick_stands (\<lambda>_. False) ''ann2, hi ANN'' 9 (demo_users ! 1)"
  by code_simp

text \<open>C35: The loop of \<open>MentionPayloadsFromMarkers\<close> returns exactly when every \<open><\<close> it meets starts a marker, and
  then gives the payloads of the markers in the order of their first occurrence; on a text with a bare \<open><\<close> after plain
  text it never returns, as the position does not advance.\<close>

lemma MentionPayloads_returns:
  "MentionPayloadsFromMarkers users chans networkID msg =
     map_option (\<lambda>ms. (concat (map (user_objects users) (firsts [] ms)),
                       concat (map (channel_objects chans networkID) (firsts [] ms)))) (markers_of msg)"
proof (cases "markers_of msg")
  case None
  then have "marker_loop users chans networkID msg acc = None" for acc
    using marker_loop_defined [of users chans networkID msg acc]
    by (cases "marker_loop users chans networkID msg acc") auto
  then show ?thesis using None by (simp add: MentionPayloadsFromMarkers_def)
next
  case (Some ms)
  then show ?thesis
    using marker_loop_returns [OF Some] fold_see [OF markers_of_digits [OF Some], of "[]"]
    by (simp add: MentionPayloadsFromMarkers_def)
qed

text \<open>Sending a message with a \<open><\<close> that is followed by neither \<open>@\<close> nor \<open>#\<close> (as in \<open>I <3 you\<close>) never returns
  from the computation of its mentions.\<close>

lemma MentionPayloads_hangs:
  assumes "CHR ''<'' \<notin> set pre" "c \<noteq> CHR ''@''" "c \<noteq> CHR ''#''"
  shows "MentionPayloadsFromMarkers users chans networkID (pre @ CHR ''<'' # c # rest) = None"
proof -
  have "markers_of (CHR ''<'' # c # rest) = None"
    using assms(2,3)
    by (subst markers_of.simps) (simp add: cutUserMarker_def cutChannelMarker_def has_prefix_def)
  then have "markers_of (pre @ CHR ''<'' # c # rest) = None"
    using assms(1) by (induction pre) (simp_all, subst markers_of.simps, auto)
  then show ?thesis by (simp add: MentionPayloads_returns)
qed

lemma MentionPayloads_hangs_witness:
  "MentionPayloadsFromMarkers demo_users demo_chans ''1'' (''I '' @ CHR ''<'' # CHR ''3'' # '' you'') = None"
  by (rule MentionPayloads_hangs) simp_all

text \<open>A known channel marker at the end of an outgoing message makes the rewriting read past the end of the text
  (a panic), and a known channel marker directly followed by a user marker leaves that user marker untranslated.\<close>

lemma IRCize_channel_marker:
  assumes "CHR ''<'' \<notin> set pre" "marker_id i" "filter (\<lambda>ch. mc_id ch = i) chans = [ch]"
    and "list_all is_digit j"
  shows "IRCize users chans (pre @ ''<#'' @ i @ ''>'') = None
    \<and> IRCize users chans (pre @ ''<#'' @ i @ ''><@'' @ j @ ''>'') = Some (pre @ mc_ircName ch @ ''<@'' @ j @ ''>'')"
proof
  show "IRCize users chans (pre @ ''<#'' @ i @ ''>'') = None"
    using ircize_text [OF assms(1)] ircize_channel_marker [OF assms(2,3), of users "[]"] by (simp add: IRCize_loop)
  have "CHR ''<'' \<notin> set (CHR ''@'' # j @ ''>'')"
    using assms(4) by (auto simp: list_all_iff is_digit_def)
  from ircize_text [OF this, of users chans "[]"]
  have "ircize users chans (CHR ''@'' # j @ ''>'') = Some (CHR ''@'' # j @ ''>'')" by simp
  then show "IRCize users chans (pre @ ''<#'' @ i @ ''><@'' @ j @ ''>'') = Some (pre @ mc_ircName ch @ ''<@'' @ j @ ''>'')"
    using ircize_text [OF assms(1)] ircize_channel_marker [OF assms(2,3), of users "''<@'' @ j @ ''>''"]
    by (simp add: IRCize_loop)
qed

lemma IRCize_channel_marker_witness:
  "IRCize demo_users demo_chans (''see '' @ ''<#'' @ ''5'' @ ''>'') = None"
proof -
  have "filter (\<lambda>ch. mc_id ch = ''5'') demo_chans = [hd demo_chans]" by (simp add: demo_chans_def)
  from IRCize_channel_marker [OF _ _ this, of "''see ''" "''12''" demo_users]
  show ?thesis by (simp add: marker_id_def is_digit_def)
qed

end
