(* ===== verification/GatewayServer.thy ===== *)
theory GatewayServer
  imports Session Auth Model
begin

text \<open>
  \<open>internal/discord/gateway/server.go\<close> and \<open>opcodes.go\<close>: the table of gateway sessions and the handling of the frames of
  a connection. Sessions are shared by pointer (the two tables and the read loops), so they live in a heap, a list
  indexed by address, and the tables hold addresses. A Go map that is iterated is an association list; its order is one
  of those Go may choose. \<open>handle_frame\<close> is one round of the read loop of \<open>handleConn\<close>: None is a panic (a send on a
  closed channel), and the verdict says whether the loop goes on. A round is one step of the model: in the code \<open>attach\<close>,
  \<open>replay\<close> and each \<open>dispatch\<close> take the lock of the session on their own, so that an event of another goroutine may come
  between them; the lemmas on the single operations (here and in \<open>Session\<close>) hold for such interleavings, those on
  \<open>handle_frame\<close> for rounds that are not interrupted. The hooks installed by the other services are the
  record \<open>providers\<close>.
\<close>

definition OpHeartbeat :: int where "OpHeartbeat = 1"
definition OpIdentify :: int where "OpIdentify = 2"
definition OpPresenceUpdate :: int where "OpPresenceUpdate = 3"
definition OpVoiceStateUpdate :: int where "OpVoiceStateUpdate = 4"
definition OpResume :: int where "OpResume = 6"
definition OpRequestGuildMembers :: int where "OpRequestGuildMembers = 8"
definition OpInvalidSession :: int where "OpInvalidSession = 9"
definition OpHello :: int where "OpHello = 10"
definition OpHeartbeatACK :: int where "OpHeartbeatACK = 11"
definition OpCallConnect :: int where "OpCallConnect = 13"
definition OpGuildSubscriptions :: int where "OpGuildSubscriptions = 14"
definition OpGuildMembersApps :: int where "OpGuildMembersApps = 24"

lemmas opcode_defs = OpHeartbeat_def OpIdentify_def OpPresenceUpdate_def OpVoiceStateUpdate_def OpResume_def
  OpRequestGuildMembers_def OpInvalidSession_def OpHello_def OpHeartbeatACK_def OpCallConnect_def
  OpGuildSubscriptions_def OpGuildMembersApps_def

definition CloseDecodeError :: int where "CloseDecodeError = 4002"
definition CloseNotAuthenticated :: int where "CloseNotAuthenticated = 4003"
definition CloseAuthenticationFailed :: int where "CloseAuthenticationFailed = 4004"
definition CloseAlreadyAuthenticated :: int where "CloseAlreadyAuthenticated = 4005"

section \<open>State\<close>

type_synonym addr = nat

record ('d, 'r) Server =
  gw_heap :: "Session list"
  gw_sessions :: "(string \<times> addr) list"
  gw_byUser :: "(string \<times> (string \<times> addr) list) list"
  gw_wire :: wire
  gw_auth :: "('d, 'r) auth"

record providers =
  p_guilds :: "(string \<Rightarrow> err + json list) option"
  p_guildCreate :: "(string \<Rightarrow> json list) option"
  p_dmChannels :: "(string \<Rightarrow> json list option) option"
  p_users :: "(string \<Rightarrow> json list option) option"
  p_memberList :: "(string \<Rightarrow> string \<Rightarrow> string \<Rightarrow> json option) option"
  p_guildChannels :: "(string \<Rightarrow> string \<Rightarrow> string list) option"
  p_memberChunk :: "(string \<Rightarrow> string \<Rightarrow> string \<Rightarrow> string list \<Rightarrow> json option) option"
  p_settings :: "(string \<Rightarrow> (string \<times> json) list option) option"
  p_notes :: "(string \<Rightarrow> (string \<times> string) list option) option"
  p_readStates :: "(string \<Rightarrow> json list option) option"
  p_wsURL :: string
  p_minimal :: bool
  p_heartbeat :: int

definition sessionTTL :: int where
  "sessionTTL = 5 * 60 * 1000000000"

definition sess_at :: "('d, 'r) Server \<Rightarrow> addr \<Rightarrow> Session" where
  "sess_at sv a = gw_heap sv ! a"

definition set_sess :: "('d, 'r) Server \<Rightarrow> addr \<Rightarrow> Session \<Rightarrow> ('d, 'r) Server" where
  "set_sess sv a s = sv\<lparr>gw_heap := (gw_heap sv)[a := s]\<rparr>"

definition user_sessions :: "('d, 'r) Server \<Rightarrow> string \<Rightarrow> (string \<times> addr) list" where
  "user_sessions sv userID = (case map_of (gw_byUser sv) userID of Some us \<Rightarrow> us | None \<Rightarrow> [])"

section \<open>The session table\<close>

definition reap_entry :: "time \<Rightarrow> string \<times> addr \<Rightarrow> ('d, 'r) Server \<Rightarrow> ('d, 'r) Server" where
  "reap_entry now = (\<lambda>(i, a) sv.
     let sess = sess_at sv a in
     if \<not> stale sess sessionTTL now then sv
     else
       let us = AList.delete i (user_sessions sv (gs_UserID sess));
           sv = sv\<lparr>gw_sessions := AList.delete i (gw_sessions sv),
                   gw_byUser := (if map_of (gw_byUser sv) (gs_UserID sess) = None then gw_byUser sv
                                 else if us = [] then AList.delete (gs_UserID sess) (gw_byUser sv)
                                 else AList.update (gs_UserID sess) us (gw_byUser sv))\<rparr>
       in set_sess sv a (sess\<lparr>gs_events := [], gs_eventsBytes := 0\<rparr>))"

definition reapStaleLocked :: "time \<Rightarrow> ('d, 'r) Server \<Rightarrow> ('d, 'r) Server" where
  "reapStaleLocked now sv = fold (reap_entry now) (gw_sessions sv) sv"

definition findSession :: "('d, 'r) Server \<Rightarrow> string \<Rightarrow> addr option" where
  "findSession sv i = map_of (gw_sessions sv) i"

definition createSession ::
  "'r rand \<Rightarrow> string \<Rightarrow> string \<Rightarrow> time \<Rightarrow> ('d, 'r) Server \<Rightarrow> addr \<times> ('d, 'r) Server" where
  "createSession rnd userID clock now sv =
     (let (tok, r) = RandomToken rnd (au_rand (gw_auth sv)) 16;
          i = (case tok of Inr t \<Rightarrow> t | Inl _ \<Rightarrow> take 32 (SHA256Hex (userID @ clock)));
          sess = \<lparr>gs_ID = i, gs_UserID = userID, gs_seq = 0, gs_events = [], gs_eventsBytes = 0, gs_send = None,
                  gs_detachedAt = zeroTime, gs_memberLists = []\<rparr>;
          sv = sv\<lparr>gw_auth := (gw_auth sv)\<lparr>au_rand := r\<rparr>\<rparr>;
          sv = reapStaleLocked now sv;
          a = length (gw_heap sv);
          us = user_sessions sv userID
      in (a, sv\<lparr>gw_heap := gw_heap sv @ [sess],
                gw_sessions := AList.update i a (gw_sessions sv),
                gw_byUser := AList.update userID (AList.update i a us) (gw_byUser sv)\<rparr>))"

definition SessionStats :: "('d, 'r) Server \<Rightarrow> nat \<times> nat" where
  "SessionStats sv =
     (length (filter (\<lambda>(i, a). \<not> offline (sess_at sv a)) (gw_sessions sv)), length (gw_sessions sv))"

fun cut_nul :: "string \<Rightarrow> string \<times> string" where
  "cut_nul [] = ([], [])"
| "cut_nul (c # s) = (if c = CHR 0x00 then ([], s) else (case cut_nul s of (g, ch) \<Rightarrow> (c # g, ch)))"

definition RequestedMemberLists :: "('d, 'r) Server \<Rightarrow> string \<Rightarrow> (string \<times> string) list" where
  "RequestedMemberLists sv userID =
     map cut_nul (rev (remdups (rev (concat (map (\<lambda>(i, a). memberListSet (sess_at sv a)) (user_sessions sv userID))))))"

section \<open>Sending\<close>

definition trySend :: "wire \<Rightarrow> nat \<Rightarrow> writeRequest \<Rightarrow> wire option" where
  "trySend w ch r =
     (if wc_closed (w ch) then None else if \<not> chan_full (w ch) then Some (chan_push w ch r) else Some w)"

definition dispatch_at ::
  "addr \<Rightarrow> string \<Rightarrow> json \<Rightarrow> bool \<Rightarrow> time \<Rightarrow> ('d, 'r) Server \<Rightarrow> ((err + int) \<times> ('d, 'r) Server) option" where
  "dispatch_at a t d rec now sv =
     (case dispatch (sess_at sv a) (gw_wire sv) t d rec now of
        None \<Rightarrow> None
      | Some (r, s, w) \<Rightarrow> Some (r, (set_sess sv a s)\<lparr>gw_wire := w\<rparr>))"

fun fan_out ::
  "addr list \<Rightarrow> string \<Rightarrow> json \<Rightarrow> time \<Rightarrow> ('d, 'r) Server \<Rightarrow> ('d, 'r) Server option" where
  "fan_out [] t d now sv = Some sv"
| "fan_out (a # as) t d now sv =
     (case dispatchRaw (sess_at sv a) (gw_wire sv) t d True now of
        None \<Rightarrow> None
      | Some (_, s, w) \<Rightarrow> fan_out as t d now ((set_sess sv a s)\<lparr>gw_wire := w\<rparr>))"

definition Dispatch ::
  "string \<Rightarrow> string \<Rightarrow> json \<Rightarrow> time \<Rightarrow> ('d, 'r) Server \<Rightarrow> ('d, 'r) Server option" where
  "Dispatch userID t d now sv =
     (let sv = reapStaleLocked now sv;
          sessions = map snd (user_sessions sv userID) in
      if length sessions = 0 then Some sv
      else case marshal d of
             Inl _ \<Rightarrow> Some sv
           | Inr _ \<Rightarrow> fan_out sessions t d now sv)"

text \<open>\<open>FlushUser\<close> up to its wait: the barriers it queues, numbered from \<open>done_id\<close>.\<close>

fun flush_all :: "addr list \<Rightarrow> nat \<Rightarrow> ('d, 'r) Server \<Rightarrow> ('d, 'r) Server option" where
  "flush_all [] done_id sv = Some sv"
| "flush_all (a # as) done_id sv =
     (if offline (sess_at sv a) then flush_all as done_id sv
      else case queueFlush (sess_at sv a) (gw_wire sv) done_id of
             None \<Rightarrow> None
           | Some (_, w) \<Rightarrow> flush_all as (done_id + 1) (sv\<lparr>gw_wire := w\<rparr>))"

definition FlushUser :: "string \<Rightarrow> nat \<Rightarrow> ('d, 'r) Server \<Rightarrow> ('d, 'r) Server option" where
  "FlushUser userID done_id sv = flush_all (map snd (user_sessions sv userID)) done_id sv"

section \<open>Decoding what a client sends\<close>

text \<open>Struct fields are matched by name up to case, the last occurrence wins, \<open>null\<close> leaves the field alone and a value
  of another type is an error: None.\<close>

definition fields_of :: "json option \<Rightarrow> (string \<times> json) list option" where
  "fields_of d = (case d of Some JNull \<Rightarrow> Some [] | Some (JObj kvs) \<Rightarrow> Some kvs | _ \<Rightarrow> None)"

fun str_field :: "string \<Rightarrow> string \<Rightarrow> (string \<times> json) list \<Rightarrow> string option" where
  "str_field name v [] = Some v"
| "str_field name v ((k, j) # kvs) =
     (if equal_fold k name then
        (case j of JStr s \<Rightarrow> str_field name s kvs | JNull \<Rightarrow> str_field name v kvs | _ \<Rightarrow> None)
      else str_field name v kvs)"

fun int_field :: "string \<Rightarrow> int \<Rightarrow> (string \<times> json) list \<Rightarrow> int option" where
  "int_field name v [] = Some v"
| "int_field name v ((k, j) # kvs) =
     (if equal_fold k name then
        (case j of
           JNum s \<Rightarrow> (case parse_int64 s of Inr n \<Rightarrow> int_field name n kvs | Inl _ \<Rightarrow> None)
         | JNull \<Rightarrow> int_field name v kvs
         | _ \<Rightarrow> None)
      else int_field name v kvs)"

fun bool_field :: "string \<Rightarrow> bool \<Rightarrow> (string \<times> json) list \<Rightarrow> bool option" where
  "bool_field name v [] = Some v"
| "bool_field name v ((k, j) # kvs) =
     (if equal_fold k name then
        (case j of JBool b \<Rightarrow> bool_field name b kvs | JNull \<Rightarrow> bool_field name v kvs | _ \<Rightarrow> None)
      else bool_field name v kvs)"

fun raw_field :: "string \<Rightarrow> json option \<Rightarrow> (string \<times> json) list \<Rightarrow> json option" where
  "raw_field name v [] = v"
| "raw_field name v ((k, j) # kvs) = raw_field name (if equal_fold k name then Some j else v) kvs"

fun list_field :: "string \<Rightarrow> json list \<Rightarrow> (string \<times> json) list \<Rightarrow> json list option" where
  "list_field name v [] = Some v"
| "list_field name v ((k, j) # kvs) =
     (if equal_fold k name then
        (case j of JArr xs \<Rightarrow> list_field name xs kvs | JNull \<Rightarrow> list_field name [] kvs | _ \<Rightarrow> None)
      else list_field name v kvs)"

definition ranges_ok :: "json \<Rightarrow> bool" where
  "ranges_ok j =
     (case j of
        JNull \<Rightarrow> True
      | JArr xs \<Rightarrow> list_all (\<lambda>x. case x of
                     JNull \<Rightarrow> True
                   | JArr ys \<Rightarrow> list_all (\<lambda>y. case y of JNum _ \<Rightarrow> True | JNull \<Rightarrow> True | _ \<Rightarrow> False) ys
                   | _ \<Rightarrow> False) xs
      | _ \<Rightarrow> False)"

fun channels_field :: "string list \<Rightarrow> (string \<times> json) list \<Rightarrow> string list option" where
  "channels_field v [] = Some v"
| "channels_field v ((k, j) # kvs) =
     (if equal_fold k ''channels'' then
        (case j of
           JObj cs \<Rightarrow> if list_all (\<lambda>(_, r). ranges_ok r) cs
                      then channels_field (remdups (v @ map fst cs)) kvs else None
         | JNull \<Rightarrow> channels_field [] kvs
         | _ \<Rightarrow> None)
      else channels_field v kvs)"

definition decode_payload :: "json \<Rightarrow> (int \<times> json option) option" where
  "decode_payload j =
     Option.bind (fields_of (Some j)) (\<lambda>kvs.
     Option.bind (int_field ''op'' 0 kvs) (\<lambda>op.
     Option.bind (int_field ''s'' 0 kvs) (\<lambda>_.
     Option.bind (str_field ''t'' [] kvs) (\<lambda>_.
     Some (op, raw_field ''d'' None kvs)))))"

definition decode_identify :: "json option \<Rightarrow> string option" where
  "decode_identify d =
     Option.bind (fields_of d) (\<lambda>kvs.
     Option.bind (int_field ''intents'' 0 kvs) (\<lambda>_.
     str_field ''token'' [] kvs))"

definition decode_resume :: "json option \<Rightarrow> (string \<times> string \<times> int) option" where
  "decode_resume d =
     Option.bind (fields_of d) (\<lambda>kvs.
     Option.bind (str_field ''token'' [] kvs) (\<lambda>token.
     Option.bind (str_field ''session_id'' [] kvs) (\<lambda>sid.
     Option.bind (int_field ''seq'' 0 kvs) (\<lambda>n.
     Some (token, sid, n)))))"

fun rawIDsToStrings :: "json \<Rightarrow> string list" and raw_ids :: "json list \<Rightarrow> string list" where
  "rawIDsToStrings JNull = [[]]"
| "rawIDsToStrings (JStr s) = [s]"
| "rawIDsToStrings (JNum s) = [s]"
| "rawIDsToStrings (JArr xs) = raw_ids xs"
| "rawIDsToStrings (JBool b) = []"
| "rawIDsToStrings (JObj kvs) = []"
| "raw_ids [] = []"
| "raw_ids (x # xs) = rawIDsToStrings x @ raw_ids xs"

definition ids_of :: "json option \<Rightarrow> string list" where
  "ids_of raw = (case raw of Some j \<Rightarrow> rawIDsToStrings j | None \<Rightarrow> [])"

text \<open>op 8: the guild ids, the user ids and the nonce.\<close>

definition decode_request_members :: "json option \<Rightarrow> (string list \<times> string list \<times> string) option" where
  "decode_request_members d =
     Option.bind (fields_of d) (\<lambda>kvs.
     Option.bind (list_field ''user_ids'' [] kvs) (\<lambda>users.
     Option.bind (str_field ''query'' [] kvs) (\<lambda>_.
     Option.bind (int_field ''limit'' 0 kvs) (\<lambda>_.
     Option.bind (bool_field ''presences'' False kvs) (\<lambda>_.
     Option.bind (str_field ''nonce'' [] kvs) (\<lambda>nonce.
     Some (ids_of (raw_field ''guild_id'' None kvs), concat (map rawIDsToStrings users), nonce)))))))"

text \<open>op 14: the guild and the channels whose member lists are asked for.\<close>

definition decode_subscriptions :: "json option \<Rightarrow> (string \<times> string list) option" where
  "decode_subscriptions d =
     Option.bind (fields_of d) (\<lambda>kvs.
     Option.bind (channels_field [] kvs) (\<lambda>chans.
     Option.bind (list_field ''members'' [] kvs) (\<lambda>members.
     case ids_of (raw_field ''guild_id'' None kvs) of
       [] \<Rightarrow> None
     | gid # _ \<Rightarrow>
         Some (gid, chans @ concat (map (\<lambda>m. case rawIDsToStrings m of [] \<Rightarrow> [] | i # _ \<Rightarrow> [i]) members)))))"

definition authToken :: "string \<Rightarrow> string" where
  "authToken t =
     (let t = trim_space t in
      if has_prefix t ''Bot '' then trim_space (drop 4 t) else t)"

section \<open>READY\<close>

definition json_map :: "(string \<times> json) list \<Rightarrow> json" where
  "json_map kvs = JObj (sort_key fst kvs)"

definition userSettings :: "providers \<Rightarrow> string \<Rightarrow> (string \<times> json) list" where
  "userSettings p userID =
     (case p_settings p of
        Some f \<Rightarrow> (case f userID of Some m \<Rightarrow> m | None \<Rightarrow> DefaultUserSettings)
      | None \<Rightarrow> DefaultUserSettings)"

definition userNotes :: "providers \<Rightarrow> string \<Rightarrow> (string \<times> string) list" where
  "userNotes p userID =
     (case p_notes p of Some f \<Rightarrow> (case f userID of Some m \<Rightarrow> m | None \<Rightarrow> []) | None \<Rightarrow> [])"

definition optional_list :: "(string \<Rightarrow> json list option) option \<Rightarrow> string \<Rightarrow> json list" where
  "optional_list h userID = (case h of Some f \<Rightarrow> (case f userID of Some xs \<Rightarrow> xs | None \<Rightarrow> []) | None \<Rightarrow> [])"

definition versioned :: "json list \<Rightarrow> int \<Rightarrow> json" where
  "versioned es v = JObj [(''entries'', JArr es), (''partial'', JBool False), (''version'', JInt v)]"

definition clydeUser :: json where
  "clydeUser = json_map [(''id'', JStr ClydeID), (''username'', JStr ''Clyde''), (''discriminator'', JStr ''0''),
     (''bot'', JBool True)]"

definition buildReady :: "providers \<Rightarrow> string \<Rightarrow> User \<Rightarrow> json" where
  "buildReady p sessID user =
     (let guilds = (case p_guilds p of
                      Some f \<Rightarrow> (case f (u_ID user) of Inr raw \<Rightarrow> raw | Inl _ \<Rightarrow> [])
                    | None \<Rightarrow> []);
          full = \<not> p_minimal p;
          arr = (\<lambda>xs. if full then JArr xs else JNull);
          clydeFriend = json_map [(''id'', JStr ClydeID), (''type'', JInt 1), (''user'', clydeUser)];
          clydePresence = json_map [(''user'', json_map [(''id'', JStr ClydeID)]), (''status'', JStr ''online''),
             (''client_status'', json_map [(''web'', JStr ''online'')]), (''activities'', JArr [])]
      in JObj
       [(''v'', JInt 9), (''user'', ToUser user), (''guilds'', JArr (if full then guilds else [])),
        (''session_id'', JStr sessID), (''resume_url'', JStr (p_wsURL p)), (''resume_gateway_url'', JStr (p_wsURL p)),
        (''private_channels'', arr (optional_list (p_dmChannels p) (u_ID user))),
        (''users'', arr (clydeUser # optional_list (p_users p) (u_ID user))),
        (''presences'', arr [clydePresence]), (''relationships'', arr [clydeFriend]), (''sessions'', arr []),
        (''geo_ordered_rtc_regions'', arr []), (''session_type'', JStr ''normal''),
        (''user_settings'', if full then json_map (userSettings p (u_ID user)) else JNull),
        (''notes'', if full then json_map (map (map_prod id JStr) (userNotes p (u_ID user))) else JNull),
        (''experiments'', arr []), (''guild_experiments'', arr []),
        (''user_guild_settings'', if full then versioned [] 0 else JNull),
        (''read_state'', if full then versioned (optional_list (p_readStates p) (u_ID user)) 1 else JNull),
        (''user_settings_proto'', JStr []), (''connected_accounts'', arr []), (''guild_join_requests'', arr []),
        (''consents'', if full then JObj [] else JNull), (''analytics_token'', JStr [])])"

section \<open>The read loop of a connection\<close>

datatype verdict = Continue | CloseWS int | Stop

type_synonym ('d, 'r) round = "(verdict \<times> addr option \<times> ('d, 'r) Server) option"

definition opFrame :: "int \<Rightarrow> json \<Rightarrow> string" where
  "opFrame op d = json_encode (JObj [(''op'', JInt op), (''d'', d)])"

definition send_frame :: "nat \<Rightarrow> string \<Rightarrow> addr option \<Rightarrow> ('d, 'r) Server \<Rightarrow> ('d, 'r) round" where
  "send_frame ch frame sess sv =
     (case trySend (gw_wire sv) ch (WFrame frame) of
        None \<Rightarrow> None
      | Some w \<Rightarrow> Some (Continue, sess, sv\<lparr>gw_wire := w\<rparr>))"

definition open_conn :: "providers \<Rightarrow> nat \<Rightarrow> ('d, 'r) Server \<Rightarrow> ('d, 'r) round" where
  "open_conn p ch sv =
     send_frame ch (opFrame OpHello (JObj [(''heartbeat_interval'', JInt (p_heartbeat p)),
       (''_trace'', JArr [JStr ''voidbar''])])) None sv"

definition close_conn :: "nat \<Rightarrow> time \<Rightarrow> addr option \<Rightarrow> ('d, 'r) Server \<Rightarrow> ('d, 'r) Server" where
  "close_conn ch now sess sv =
     (case sess of None \<Rightarrow> sv | Some a \<Rightarrow> set_sess sv a (detach (sess_at sv a) ch now))"

definition attach_at :: "addr \<Rightarrow> nat \<Rightarrow> ('d, 'r) Server \<Rightarrow> ('d, 'r) Server option" where
  "attach_at a ch sv =
     (case attach (sess_at sv a) (gw_wire sv) ch of
        None \<Rightarrow> None
      | Some (_, s, w) \<Rightarrow> Some ((set_sess sv a s)\<lparr>gw_wire := w\<rparr>))"

text \<open>A run of dispatches to one session: the first list stops at an error, the second goes on.\<close>

fun dispatch_until :: "addr \<Rightarrow> string \<Rightarrow> json list \<Rightarrow> time \<Rightarrow> ('d, 'r) Server \<Rightarrow> (bool \<times> ('d, 'r) Server) option" where
  "dispatch_until a t [] now sv = Some (True, sv)"
| "dispatch_until a t (d # ds) now sv =
     (case dispatch_at a t d True now sv of
        None \<Rightarrow> None
      | Some (Inl _, sv) \<Rightarrow> Some (False, sv)
      | Some (Inr _, sv) \<Rightarrow> dispatch_until a t ds now sv)"

fun dispatch_each :: "addr \<Rightarrow> string \<Rightarrow> json option list \<Rightarrow> time \<Rightarrow> ('d, 'r) Server \<Rightarrow> ('d, 'r) Server option" where
  "dispatch_each a t [] now sv = Some sv"
| "dispatch_each a t (None # ds) now sv = dispatch_each a t ds now sv"
| "dispatch_each a t (Some d # ds) now sv =
     (case dispatch_at a t d True now sv of
        None \<Rightarrow> None
      | Some (_, sv) \<Rightarrow> dispatch_each a t ds now sv)"

definition op_identify ::
  "'d store \<Rightarrow> 'r rand \<Rightarrow> providers \<Rightarrow> nat \<Rightarrow> string \<Rightarrow> time \<Rightarrow> json option \<Rightarrow> addr option \<Rightarrow> ('d, 'r) Server \<Rightarrow> ('d, 'r) round" where
  "op_identify B rnd p ch clock now d sess sv =
     (if sess \<noteq> None then Some (CloseWS CloseAlreadyAuthenticated, sess, sv)
      else case decode_identify d of
        None \<Rightarrow> Some (CloseWS CloseDecodeError, sess, sv)
      | Some token \<Rightarrow>
        if token = [] then Some (CloseWS CloseDecodeError, sess, sv)
        else case ValidateToken B (gw_auth sv) (authToken token) now of
          (Inl _, au) \<Rightarrow> Some (CloseWS CloseAuthenticationFailed, sess, sv\<lparr>gw_auth := au\<rparr>)
        | (Inr user, au) \<Rightarrow>
          let (a, sv) = createSession rnd (u_ID user) clock now (sv\<lparr>gw_auth := au\<rparr>) in
          case attach_at a ch sv of
            None \<Rightarrow> None
          | Some sv \<Rightarrow>
            (case dispatch_at a ''READY'' (buildReady p (gs_ID (sess_at sv a)) user) True now sv of
               None \<Rightarrow> None
             | Some (Inl _, sv) \<Rightarrow> Some (Stop, Some a, sv)
             | Some (Inr _, sv) \<Rightarrow>
               (case p_guildCreate p of
                  None \<Rightarrow> Some (Continue, Some a, sv)
                | Some f \<Rightarrow>
                  (case dispatch_until a ''GUILD_CREATE'' (f (u_ID user)) now sv of
                     None \<Rightarrow> None
                   | Some (ok, sv) \<Rightarrow> Some (if ok then Continue else Stop, Some a, sv)))))"

definition op_resume ::
  "'d store \<Rightarrow> nat \<Rightarrow> time \<Rightarrow> json option \<Rightarrow> addr option \<Rightarrow> ('d, 'r) Server \<Rightarrow> ('d, 'r) round" where
  "op_resume B ch now d sess sv =
     (if sess \<noteq> None then Some (CloseWS CloseAlreadyAuthenticated, sess, sv)
      else case decode_resume d of
        None \<Rightarrow> Some (CloseWS CloseDecodeError, sess, sv)
      | Some (token, sid, since) \<Rightarrow>
        if token = [] then Some (CloseWS CloseDecodeError, sess, sv)
        else case ValidateToken B (gw_auth sv) (authToken token) now of
          (Inl _, au) \<Rightarrow> Some (CloseWS CloseAuthenticationFailed, sess, sv\<lparr>gw_auth := au\<rparr>)
        | (Inr user, au) \<Rightarrow>
          let sv = sv\<lparr>gw_auth := au\<rparr> in
          case findSession sv sid of
            None \<Rightarrow> send_frame ch (opFrame OpInvalidSession (JBool False)) sess sv
          | Some a \<Rightarrow>
            if gs_UserID (sess_at sv a) \<noteq> u_ID user
            then send_frame ch (opFrame OpInvalidSession (JBool False)) sess sv
            else case attach_at a ch sv of
              None \<Rightarrow> None
            | Some sv \<Rightarrow>
              (case replay (sess_at sv a) (gw_wire sv) since ch of
                 None \<Rightarrow> None
               | Some w \<Rightarrow>
                 (case dispatch_at a ''RESUMED'' (JObj [(''_trace'', JArr [JStr ''voidbar''])]) False now
                         (sv\<lparr>gw_wire := w\<rparr>) of
                    None \<Rightarrow> None
                  | Some (Inl _, sv) \<Rightarrow> Some (Stop, sess, sv)
                  | Some (Inr _, sv) \<Rightarrow> Some (Continue, Some a, sv))))"

definition op_members ::
  "providers \<Rightarrow> time \<Rightarrow> json option \<Rightarrow> addr \<Rightarrow> ('d, 'r) Server \<Rightarrow> ('d, 'r) round" where
  "op_members p now d a sv =
     (case (decode_request_members d, p_memberChunk p) of
        (Some (guilds, users, nonce), Some f) \<Rightarrow>
          map_option (\<lambda>sv. (Continue, Some a, sv))
            (dispatch_each a ''GUILD_MEMBERS_CHUNK''
               (map (\<lambda>g. f (gs_UserID (sess_at sv a)) g nonce users) guilds) now sv)
      | _ \<Rightarrow> Some (Continue, Some a, sv))"

definition watch :: "addr \<Rightarrow> string \<Rightarrow> string \<Rightarrow> ('d, 'r) Server \<Rightarrow> ('d, 'r) Server" where
  "watch a guild ch sv = set_sess sv a (watchMemberList (sess_at sv a) guild ch)"

fun sync_lists ::
  "(string \<Rightarrow> string \<Rightarrow> string \<Rightarrow> json option) \<Rightarrow> addr \<Rightarrow> string \<Rightarrow> string list \<Rightarrow> time \<Rightarrow> ('d, 'r) Server \<Rightarrow> ('d, 'r) Server option" where
  "sync_lists f a guild [] now sv = Some sv"
| "sync_lists f a guild (c # cs) now sv =
     (let sv = watch a guild c sv in
      case dispatch_each a ''GUILD_MEMBER_LIST_UPDATE'' [f (gs_UserID (sess_at sv a)) guild c] now sv of
        None \<Rightarrow> None
      | Some sv \<Rightarrow> sync_lists f a guild cs now sv)"

definition op_subscriptions ::
  "providers \<Rightarrow> time \<Rightarrow> json option \<Rightarrow> addr \<Rightarrow> ('d, 'r) Server \<Rightarrow> ('d, 'r) round" where
  "op_subscriptions p now d a sv =
     (case (decode_subscriptions d, p_memberList p) of
        (Some (guild, chans), Some f) \<Rightarrow>
          map_option (\<lambda>sv. (Continue, Some a, sv))
            (if chans = [] then
               (let user = gs_UserID (sess_at sv a);
                    others = (case p_guildChannels p of Some g \<Rightarrow> g user guild | None \<Rightarrow> [])
                in dispatch_each a ''GUILD_MEMBER_LIST_UPDATE'' (map (f user guild) ([] # others)) now
                     (watch a guild [] sv))
             else sync_lists f a guild chans now sv)
      | _ \<Rightarrow> Some (Continue, Some a, sv))"

definition handle_frame ::
  "'d store \<Rightarrow> 'r rand \<Rightarrow> providers \<Rightarrow> nat \<Rightarrow> string \<Rightarrow> time \<Rightarrow> json option \<Rightarrow> addr option \<Rightarrow> ('d, 'r) Server \<Rightarrow> ('d, 'r) round" where
  "handle_frame B rnd p ch clock now data sess sv =
     (case Option.bind data decode_payload of
        None \<Rightarrow> Some (CloseWS CloseDecodeError, sess, sv)
      | Some (op, d) \<Rightarrow>
        if op = OpIdentify then op_identify B rnd p ch clock now d sess sv
        else if op = OpResume then op_resume B ch now d sess sv
        else if op = OpHeartbeat then send_frame ch (opFrame OpHeartbeatACK JNull) sess sv
        else if op \<in> {OpPresenceUpdate, OpVoiceStateUpdate, OpRequestGuildMembers, OpGuildMembersApps, OpCallConnect,
                      OpGuildSubscriptions} then
          (case sess of
             None \<Rightarrow> Some (CloseWS CloseNotAuthenticated, sess, sv)
           | Some a \<Rightarrow>
             if op = OpRequestGuildMembers then op_members p now d a sv
             else if op = OpGuildSubscriptions then op_subscriptions p now d a sv
             else Some (Continue, sess, sv))
        else Some (Continue, sess, sv))"

text \<open>The socket writer, one request at a time: it blocks on an empty open queue (None), and ends when the queue is
  closed and drained. The frame goes to the socket, through the zlib stream where the client asked for one.\<close>

datatype pump_out = Written string | Released nat | PumpEnd

definition pump_step :: "nat \<Rightarrow> wire \<Rightarrow> (pump_out \<times> wire) option" where
  "pump_step ch w =
     (case wc_queue (w ch) of
        WFrame f # q \<Rightarrow> Some (Written f, w(ch := (w ch)\<lparr>wc_queue := q\<rparr>))
      | WFlush n # q \<Rightarrow> Some (Released n, w(ch := (w ch)\<lparr>wc_queue := q\<rparr>))
      | [] \<Rightarrow> if wc_closed (w ch) then Some (PumpEnd, w) else None)"

section \<open>What an operation on one session leaves alone\<close>

lemma sendFrameLocked_keeps:
  "sendFrameLocked s w f now = Some (s', w') \<Longrightarrow>
     gs_ID s' = gs_ID s \<and> gs_UserID s' = gs_UserID s \<and> (gs_send s' = gs_send s \<or> gs_send s' = None)
     \<and> gs_seq s' = gs_seq s"
  by (auto simp: sendFrameLocked_def split: option.splits if_splits)

lemma dispatchRaw_keeps:
  "dispatchRaw s w t d rec now = Some (r, s', w') \<Longrightarrow>
     gs_ID s' = gs_ID s \<and> gs_UserID s' = gs_UserID s \<and> (gs_send s' = gs_send s \<or> gs_send s' = None)"
  by (auto simp: dispatchRaw_def Let_def dest!: sendFrameLocked_keeps split: sum.splits option.splits if_splits)

lemma dispatch_keeps:
  "dispatch s w t d rec now = Some (r, s', w') \<Longrightarrow>
     gs_ID s' = gs_ID s \<and> gs_UserID s' = gs_UserID s \<and> (gs_send s' = gs_send s \<or> gs_send s' = None)"
  by (auto simp: dispatch_def dest!: dispatchRaw_keeps split: sum.splits)

lemma json_ok_payload: "json_ok (payload n t d) = json_ok d"
  by (simp add: payload_def)

lemma dispatchRaw_total:
  assumes "session_wf s w"
  shows "\<exists>r s' w'. dispatchRaw s w t d rec now = Some (r, s', w') \<and> session_wf s' w'
    \<and> (\<forall>c. gs_send s \<noteq> Some c \<longrightarrow> w' c = w c) \<and> gs_seq s' = gs_seq s + (if json_ok d then 1 else 0)"
proof (cases "json_ok d")
  case True
  show ?thesis
  proof (rule dispatchRaw_step [OF assms True, of t rec now])
    fix s' w' frame
    assume "dispatchRaw s w t d rec now = Some (Inr (gs_seq s + 1), s', w')" "session_wf s' w'"
      "gs_seq s' = gs_seq s + 1" "\<forall>c. gs_send s \<noteq> Some c \<longrightarrow> w' c = w c"
    then show ?thesis using True by (intro exI conjI) (assumption | simp)+
  qed
next
  case False
  then show ?thesis using assms by (simp add: dispatchRaw_def marshal_def json_ok_payload)
qed

lemma dispatch_total:
  assumes "session_wf s w"
  shows "\<exists>r s' w'. dispatch s w t d rec now = Some (r, s', w') \<and> session_wf s' w'
    \<and> (\<forall>c. gs_send s \<noteq> Some c \<longrightarrow> w' c = w c) \<and> gs_seq s' = gs_seq s + (if json_ok d then 1 else 0)"
proof (cases "json_ok d")
  case True
  then show ?thesis using dispatchRaw_total [OF assms, of t d rec now] by (simp add: dispatch_def marshal_def)
next
  case False
  then show ?thesis using assms by (simp add: dispatch_def marshal_def)
qed

section \<open>Invariants of the server\<close>

text \<open>The two tables agree, every session stands under its id, and no user has an empty table.\<close>

definition table_wf :: "('d, 'r) Server \<Rightarrow> bool" where
  "table_wf sv \<longleftrightarrow>
     distinct (map fst (gw_sessions sv)) \<and> distinct (map fst (gw_byUser sv))
     \<and> (\<forall>i a. map_of (gw_sessions sv) i = Some a \<longrightarrow> a < length (gw_heap sv) \<and> gs_ID (sess_at sv a) = i)
     \<and> (\<forall>u us. map_of (gw_byUser sv) u = Some us \<longrightarrow> us \<noteq> [] \<and> distinct (map fst us))
     \<and> (\<forall>u i a. map_of (user_sessions sv u) i = Some a \<longleftrightarrow>
          map_of (gw_sessions sv) i = Some a \<and> gs_UserID (sess_at sv a) = u)"

text \<open>Every session is well formed, and no two write to the same queue.\<close>

definition heap_wf :: "('d, 'r) Server \<Rightarrow> bool" where
  "heap_wf sv \<longleftrightarrow>
     (\<forall>a < length (gw_heap sv). session_wf (sess_at sv a) (gw_wire sv))
     \<and> (\<forall>a < length (gw_heap sv). \<forall>b < length (gw_heap sv). \<forall>c.
          gs_send (sess_at sv a) = Some c \<longrightarrow> gs_send (sess_at sv b) = Some c \<longrightarrow> a = b)"

definition gw_wf :: "('d, 'r) Server \<Rightarrow> bool" where
  "gw_wf sv \<longleftrightarrow> table_wf sv \<and> heap_wf sv"

text \<open>\<open>same_tables\<close>: the tables and the identities of the sessions are as before.\<close>

definition same_tables :: "('d, 'r) Server \<Rightarrow> ('d, 'r) Server \<Rightarrow> bool" where
  "same_tables sv sv' \<longleftrightarrow> gw_sessions sv' = gw_sessions sv \<and> gw_byUser sv' = gw_byUser sv
     \<and> length (gw_heap sv') = length (gw_heap sv)
     \<and> (\<forall>a < length (gw_heap sv). gs_ID (sess_at sv' a) = gs_ID (sess_at sv a)
          \<and> gs_UserID (sess_at sv' a) = gs_UserID (sess_at sv a))"

lemma same_tables_refl [simp]: "same_tables sv sv"
  by (simp add: same_tables_def)

lemma same_tables_trans: "same_tables a b \<Longrightarrow> same_tables b c \<Longrightarrow> same_tables a c"
  by (auto simp: same_tables_def)

lemma user_sessions_same: "same_tables sv sv' \<Longrightarrow> user_sessions sv' u = user_sessions sv u"
  by (simp add: same_tables_def user_sessions_def)

lemma same_tables_wf:
  assumes s: "same_tables sv sv'" and t: "table_wf sv"
  shows "table_wf sv'"
proof -
  have b: "a < length (gw_heap sv)" "gs_ID (sess_at sv' a) = gs_ID (sess_at sv a)"
      "gs_UserID (sess_at sv' a) = gs_UserID (sess_at sv a)" if "map_of (gw_sessions sv) i = Some a" for i a
  proof -
    show "a < length (gw_heap sv)" using t that unfolding table_wf_def by blast
    then show "gs_ID (sess_at sv' a) = gs_ID (sess_at sv a)" "gs_UserID (sess_at sv' a) = gs_UserID (sess_at sv a)"
      using s unfolding same_tables_def by blast+
  qed
  have e: "gw_sessions sv' = gw_sessions sv" "gw_byUser sv' = gw_byUser sv"
    "length (gw_heap sv') = length (gw_heap sv)" "user_sessions sv' = user_sessions sv"
    using s user_sessions_same [OF s] by (auto simp: same_tables_def)
  show ?thesis
    using t b unfolding table_wf_def e by (elim conjE, intro conjI allI impI iffI) (assumption | simp)+
qed

lemma sess_at_set [simp]:
  "a < length (gw_heap sv) \<Longrightarrow> sess_at (set_sess sv a s) b = (if b = a then s else sess_at sv b)"
  "length (gw_heap (set_sess sv a s)) = length (gw_heap sv)"
  "gw_wire (set_sess sv a s) = gw_wire sv" "gw_sessions (set_sess sv a s) = gw_sessions sv"
  "gw_byUser (set_sess sv a s) = gw_byUser sv" "gw_auth (set_sess sv a s) = gw_auth sv"
  by (simp_all add: sess_at_def set_sess_def)

lemma sess_at_wire [simp]:
  "sess_at (sv\<lparr>gw_wire := w\<rparr>) b = sess_at sv b" "sess_at (sv\<lparr>gw_auth := au\<rparr>) b = sess_at sv b"
  by (simp_all add: sess_at_def)

text \<open>One session and the queue it holds may change; the others do not notice.\<close>

lemma update_session:
  assumes "gw_wf sv" "a < length (gw_heap sv)" "session_wf s w"
    and "gs_ID s = gs_ID (sess_at sv a)" "gs_UserID s = gs_UserID (sess_at sv a)"
    and "gs_send s = gs_send (sess_at sv a) \<or> gs_send s = None"
    and "\<forall>c. gs_send (sess_at sv a) \<noteq> Some c \<longrightarrow> w c = gw_wire sv c"
  shows "gw_wf ((set_sess sv a s)\<lparr>gw_wire := w\<rparr>) \<and> same_tables sv ((set_sess sv a s)\<lparr>gw_wire := w\<rparr>)"
proof
  let ?sv = "(set_sess sv a s)\<lparr>gw_wire := w\<rparr>"
  show st: "same_tables sv ?sv" using assms(2,4,5) by (auto simp: same_tables_def)
  have h: "heap_wf sv" and t: "table_wf sv" using assms(1) by (simp_all add: gw_wf_def)
  have "session_wf (sess_at ?sv b) w" if b: "b < length (gw_heap sv)" for b
  proof (cases "b = a")
    case False
    have "w c = gw_wire sv c" if "gs_send (sess_at sv b) = Some c" for c
      using assms(2,7) False b that h unfolding heap_wf_def by blast
    then show ?thesis using False b h assms(2) unfolding heap_wf_def session_wf_def by simp
  qed (use assms(2,3) in simp)
  moreover have "b = b'" if "b < length (gw_heap sv)" "b' < length (gw_heap sv)"
    "gs_send (sess_at ?sv b) = Some c" "gs_send (sess_at ?sv b') = Some c" for b b' c
  proof -
    have "gs_send (sess_at sv b) = Some c" "gs_send (sess_at sv b') = Some c"
      using that(3,4) assms(2,6) by (auto split: if_splits)
    then show ?thesis using that(1,2) h unfolding heap_wf_def by blast
  qed
  ultimately have "heap_wf ?sv" by (simp add: heap_wf_def)
  then show "gw_wf ?sv" using same_tables_wf [OF st t] by (simp add: gw_wf_def)
qed

section \<open>Dispatching\<close>

lemma gw_session_wf: "gw_wf sv \<Longrightarrow> a < length (gw_heap sv) \<Longrightarrow> session_wf (sess_at sv a) (gw_wire sv)"
  by (simp add: gw_wf_def heap_wf_def)

lemma dispatch_at_safe:
  assumes "gw_wf sv" "a < length (gw_heap sv)"
  shows "\<exists>r sv'. dispatch_at a t d rec now sv = Some (r, sv') \<and> gw_wf sv' \<and> same_tables sv sv'
    \<and> (gs_send (sess_at sv' a) = gs_send (sess_at sv a) \<or> gs_send (sess_at sv' a) = None)
    \<and> (\<forall>b. b \<noteq> a \<longrightarrow> sess_at sv' b = sess_at sv b) \<and> gw_auth sv' = gw_auth sv
    \<and> (\<forall>c. gs_send (sess_at sv a) \<noteq> Some c \<longrightarrow> gw_wire sv' c = gw_wire sv c)"
proof -
  obtain r s w where d: "dispatch (sess_at sv a) (gw_wire sv) t d rec now = Some (r, s, w)" "session_wf s w"
      "\<forall>c. gs_send (sess_at sv a) \<noteq> Some c \<longrightarrow> w c = gw_wire sv c"
    using dispatch_total [OF gw_session_wf [OF assms], of t d rec now] by blast
  note k = dispatch_keeps [OF d(1)]
  have "gw_wf ((set_sess sv a s)\<lparr>gw_wire := w\<rparr>) \<and> same_tables sv ((set_sess sv a s)\<lparr>gw_wire := w\<rparr>)"
    using k by (intro update_session [OF assms d(2)]) (use d(3) in auto)
  moreover have "dispatch_at a t d rec now sv = Some (r, (set_sess sv a s)\<lparr>gw_wire := w\<rparr>)"
    by (simp add: dispatch_at_def d(1))
  ultimately show ?thesis using k d(3) assms(2)
    by (intro exI [of _ r] exI [of _ "(set_sess sv a s)\<lparr>gw_wire := w\<rparr>"]) auto
qed

lemma fan_out_safe:
  assumes "gw_wf sv" "distinct as" "\<forall>a \<in> set as. a < length (gw_heap sv)"
  shows "\<exists>sv'. fan_out as t d now sv = Some sv' \<and> gw_wf sv' \<and> same_tables sv sv'
    \<and> (\<forall>b. b \<notin> set as \<longrightarrow> sess_at sv' b = sess_at sv b)
    \<and> (\<forall>b \<in> set as. gs_seq (sess_at sv' b) = gs_seq (sess_at sv b) + (if json_ok d then 1 else 0))"
  using assms
proof (induction "as" arbitrary: sv)
  case (Cons a "as")
  then have a: "a < length (gw_heap sv)" by simp
  obtain r s w where d: "dispatchRaw (sess_at sv a) (gw_wire sv) t d True now = Some (r, s, w)" "session_wf s w"
      "\<forall>c. gs_send (sess_at sv a) \<noteq> Some c \<longrightarrow> w c = gw_wire sv c"
      "gs_seq s = gs_seq (sess_at sv a) + (if json_ok d then 1 else 0)"
    using dispatchRaw_total [OF gw_session_wf [OF Cons.prems(1) a], of t d True now] by blast
  define sv1 where "sv1 = (set_sess sv a s)\<lparr>gw_wire := w\<rparr>"
  have sv1: "gw_wf sv1" "same_tables sv sv1"
    using update_session [OF Cons.prems(1) a d(2)] dispatchRaw_keeps [OF d(1)] d(3) by (auto simp: sv1_def)
  have "length (gw_heap sv1) = length (gw_heap sv)" by (simp add: sv1_def)
  then obtain sv' where sv': "fan_out as t d now sv1 = Some sv'" "gw_wf sv'" "same_tables sv1 sv'"
      "\<forall>b. b \<notin> set as \<longrightarrow> sess_at sv' b = sess_at sv1 b"
      "\<forall>b \<in> set as. gs_seq (sess_at sv' b) = gs_seq (sess_at sv1 b) + (if json_ok d then 1 else 0)"
    using Cons.IH [OF sv1(1)] Cons.prems(2,3) by auto
  have at: "sess_at sv1 b = (if b = a then s else sess_at sv b)" for b using a by (simp add: sv1_def)
  show ?case
  proof (intro exI conjI allI ballI impI)
    show "fan_out (a # as) t d now sv = Some sv'" using d(1) sv'(1) by (simp add: sv1_def)
    show "gw_wf sv'" "same_tables sv sv'" using sv' same_tables_trans [OF sv1(2)] by auto
    show "sess_at sv' b = sess_at sv b" if "b \<notin> set (a # as)" for b using sv'(4) that at by simp
    show "gs_seq (sess_at sv' b) = gs_seq (sess_at sv b) + (if json_ok d then 1 else 0)" if "b \<in> set (a # as)" for b
      using that sv'(4,5) at d(4) Cons.prems(2) by (cases "b = a") auto
  qed
qed simp

section \<open>Reaping\<close>

lemma map_of_user: "map_of (gw_byUser sv) u = Some us \<Longrightarrow> user_sessions sv u = us"
  by (simp add: user_sessions_def)

lemma alist_delete_Nil: "AList.delete k m = [] \<longleftrightarrow> (map_of m)(k := None) = Map.empty"
  using map_of_eq_empty_iff [of "AList.delete k m"] by (simp add: delete_conv')

text \<open>Reaping one entry that stands in the table.\<close>

definition reaped :: "time \<Rightarrow> ('d, 'r) Server \<Rightarrow> ('d, 'r) Server \<Rightarrow> bool" where
  "reaped now sv sv' \<longleftrightarrow> length (gw_heap sv') = length (gw_heap sv) \<and> gw_wire sv' = gw_wire sv \<and> gw_auth sv' = gw_auth sv
     \<and> (\<forall>a. sess_at sv' a = sess_at sv a \<or> stale (sess_at sv a) sessionTTL now
          \<and> sess_at sv' a = (sess_at sv a)\<lparr>gs_events := [], gs_eventsBytes := 0\<rparr>)"

lemma reaped_refl [simp]: "reaped now sv sv" by (simp add: reaped_def)

lemma reaped_fields:
  assumes "reaped now sv sv'"
  shows "gs_ID (sess_at sv' a) = gs_ID (sess_at sv a)" "gs_UserID (sess_at sv' a) = gs_UserID (sess_at sv a)"
    "gs_send (sess_at sv' a) = gs_send (sess_at sv a)" "gs_seq (sess_at sv' a) = gs_seq (sess_at sv a)"
    "gs_detachedAt (sess_at sv' a) = gs_detachedAt (sess_at sv a)"
    "stale (sess_at sv' a) sessionTTL now = stale (sess_at sv a) sessionTTL now"
    "\<not> stale (sess_at sv a) sessionTTL now \<Longrightarrow> sess_at sv' a = sess_at sv a"
proof -
  have "sess_at sv' a = sess_at sv a \<or> stale (sess_at sv a) sessionTTL now
          \<and> sess_at sv' a = (sess_at sv a)\<lparr>gs_events := [], gs_eventsBytes := 0\<rparr>"
    using assms by (simp add: reaped_def)
  then show "gs_ID (sess_at sv' a) = gs_ID (sess_at sv a)" "gs_UserID (sess_at sv' a) = gs_UserID (sess_at sv a)"
    "gs_send (sess_at sv' a) = gs_send (sess_at sv a)" "gs_seq (sess_at sv' a) = gs_seq (sess_at sv a)"
    "gs_detachedAt (sess_at sv' a) = gs_detachedAt (sess_at sv a)"
    "stale (sess_at sv' a) sessionTTL now = stale (sess_at sv a) sessionTTL now"
    "\<not> stale (sess_at sv a) sessionTTL now \<Longrightarrow> sess_at sv' a = sess_at sv a"
    by (elim disjE conjE; simp add: stale_def)+
qed

lemma reaped_trans: "reaped now a b \<Longrightarrow> reaped now b c \<Longrightarrow> reaped now a c"
proof -
  assume ab: "reaped now a b" and bc: "reaped now b c"
  have "sess_at c x = sess_at a x \<or> stale (sess_at a x) sessionTTL now
      \<and> sess_at c x = (sess_at a x)\<lparr>gs_events := [], gs_eventsBytes := 0\<rparr>" for x
    using ab bc reaped_fields(6) [OF ab, of x] unfolding reaped_def
    by (elim conjE allE [where x = x] disjE) simp_all
  then show ?thesis using ab bc by (simp add: reaped_def)
qed

lemma reap_entry_wf:
  assumes t: "table_wf sv" and i: "map_of (gw_sessions sv) i = Some a"
  shows "table_wf (reap_entry now (i, a) sv) \<and> reaped now sv (reap_entry now (i, a) sv)
    \<and> map_of (gw_sessions (reap_entry now (i, a) sv)) =
        (if stale (sess_at sv a) sessionTTL now then (map_of (gw_sessions sv))(i := None) else map_of (gw_sessions sv))"
proof (cases "stale (sess_at sv a) sessionTTL now")
  case False
  then show ?thesis using t by (simp add: reap_entry_def)
next
  case True
  define u where "u = gs_UserID (sess_at sv a)"
  define us where "us = user_sessions sv u"
  define sv' where "sv' = reap_entry now (i, a) sv"
  have len: "a < length (gw_heap sv)" using t i unfolding table_wf_def by blast
  have ui: "map_of us i = Some a" using t i unfolding table_wf_def u_def us_def by blast
  then have us: "map_of (gw_byUser sv) u = Some us"
    unfolding us_def user_sessions_def by (auto split: option.splits)
  have sv': "gw_sessions sv' = AList.delete i (gw_sessions sv)"
    "gw_byUser sv' = (if AList.delete i us = [] then AList.delete u (gw_byUser sv)
        else AList.update u (AList.delete i us) (gw_byUser sv))"
    "sess_at sv' b = (if b = a then (sess_at sv a)\<lparr>gs_events := [], gs_eventsBytes := 0\<rparr> else sess_at sv b)"
    "length (gw_heap sv') = length (gw_heap sv)" "gw_wire sv' = gw_wire sv" "gw_auth sv' = gw_auth sv" for b
    using True us len unfolding sv'_def reap_entry_def
    by (simp_all add: Let_def u_def us_def [symmetric] set_sess_def sess_at_def)
       (simp_all add: us_def u_def sess_at_def)
  have r: "reaped now sv sv'" using True by (simp add: reaped_def sv')
  have du: "distinct (map fst us)" "distinct (map fst (gw_byUser sv))" "distinct (map fst (gw_sessions sv))"
    using t us unfolding table_wf_def by blast+
  have mu: "map_of (user_sessions sv' v) = (if v = u then (map_of us)(i := None) else map_of (user_sessions sv v))" for v
    using alist_delete_Nil [of i us]
    by (auto simp: user_sessions_def sv' delete_conv' update_conv' split: option.splits)
  have "table_wf sv'"
    unfolding table_wf_def
  proof (intro conjI allI impI)
    show "distinct (map fst (gw_sessions sv'))" using du by (simp add: sv' distinct_delete)
    show "distinct (map fst (gw_byUser sv'))" using du by (simp add: sv' distinct_delete distinct_update)
    fix j b assume "map_of (gw_sessions sv') j = Some b"
    then have "map_of (gw_sessions sv) j = Some b" by (simp add: sv' delete_conv' split: if_splits)
    then show "b < length (gw_heap sv')" "gs_ID (sess_at sv' b) = j"
      using t unfolding table_wf_def by (auto simp: sv')
  next
    fix v vs assume "map_of (gw_byUser sv') v = Some vs"
    then have "v = u \<and> vs = AList.delete i us \<and> vs \<noteq> [] \<or> map_of (gw_byUser sv) v = Some vs"
      by (auto simp: sv' delete_conv' update_conv' split: if_splits)
    then show "vs \<noteq> []" "distinct (map fst vs)"
      using t distinct_delete [OF du(1), of i] unfolding table_wf_def by blast+
  next
    fix v j b
    have o: "map_of (user_sessions sv v) j = Some b \<longleftrightarrow>
        map_of (gw_sessions sv) j = Some b \<and> gs_UserID (sess_at sv b) = v"
      using t unfolding table_wf_def by blast
    have "gs_UserID (sess_at sv' b) = gs_UserID (sess_at sv b)" by (simp add: sv')
    then show "map_of (user_sessions sv' v) j = Some b \<longleftrightarrow>
        map_of (gw_sessions sv') j = Some b \<and> gs_UserID (sess_at sv' b) = v"
      using o i by (auto simp: mu sv' delete_conv' us_def u_def)
  qed
  then show ?thesis using r True by (simp add: sv'_def [symmetric] sv'(1) delete_conv')
qed

lemma reap_fold:
  assumes "table_wf sv" "distinct (map fst es)" "\<forall>(i, a) \<in> set es. map_of (gw_sessions sv) i = Some a"
  shows "table_wf (fold (reap_entry now) es sv) \<and> reaped now sv (fold (reap_entry now) es sv)
    \<and> (\<forall>j. map_of (gw_sessions (fold (reap_entry now) es sv)) j =
        (if \<exists>a. (j, a) \<in> set es \<and> stale (sess_at sv a) sessionTTL now then None else map_of (gw_sessions sv) j))"
  using assms
proof (induction es arbitrary: sv)
  case (Cons e es)
  obtain i a where e: "e = (i, a)" by (cases e)
  define sv1 where "sv1 = reap_entry now (i, a) sv"
  have i: "map_of (gw_sessions sv) i = Some a" using Cons.prems(3) e by simp
  note s = reap_entry_wf [OF Cons.prems(1) i, of now, folded sv1_def]
  have "i \<notin> fst ` set es" using Cons.prems(2) e by simp
  then have es: "\<forall>(j, b) \<in> set es. map_of (gw_sessions sv1) j = Some b"
  proof (intro ballI, clarify)
    fix j b assume jb: "(j, b) \<in> set es"
    then have "j \<noteq> i" "map_of (gw_sessions sv) j = Some b"
      using \<open>i \<notin> fst ` set es\<close> Cons.prems(3) by force+
    then show "map_of (gw_sessions sv1) j = Some b" using s by simp
  qed
  have st: "stale (sess_at sv1 b) sessionTTL now = stale (sess_at sv b) sessionTTL now" for b
    using s reaped_fields(6) by blast
  from Cons.IH [OF conjunct1 [OF s] _ es] Cons.prems(2) s
  have "table_wf (fold (reap_entry now) es sv1)" "reaped now sv (fold (reap_entry now) es sv1)"
    "\<And>j. map_of (gw_sessions (fold (reap_entry now) es sv1)) j =
        (if \<exists>a. (j, a) \<in> set es \<and> stale (sess_at sv a) sessionTTL now then None else map_of (gw_sessions sv1) j)"
    using reaped_trans [of now sv sv1] by (auto simp: st)
  moreover have "map_of (gw_sessions sv1) j = (if j = i \<and> stale (sess_at sv a) sessionTTL now then None
      else map_of (gw_sessions sv) j)" for j using s by auto
  ultimately show ?case by (auto simp: e sv1_def [symmetric])
qed simp

lemma reapStale_props:
  assumes "table_wf sv"
  shows "table_wf (reapStaleLocked now sv)" and "reaped now sv (reapStaleLocked now sv)"
    and "map_of (gw_sessions (reapStaleLocked now sv)) i = Some a \<longleftrightarrow>
      map_of (gw_sessions sv) i = Some a \<and> \<not> stale (sess_at sv a) sessionTTL now"
proof -
  have d: "distinct (map fst (gw_sessions sv))" using assms by (simp add: table_wf_def)
  have "\<forall>(i, a) \<in> set (gw_sessions sv). map_of (gw_sessions sv) i = Some a"
    using d by auto
  note f = reap_fold [OF assms d this, of now, folded reapStaleLocked_def]
  show "table_wf (reapStaleLocked now sv)" "reaped now sv (reapStaleLocked now sv)" using f by auto
  show "map_of (gw_sessions (reapStaleLocked now sv)) i = Some a \<longleftrightarrow>
      map_of (gw_sessions sv) i = Some a \<and> \<not> stale (sess_at sv a) sessionTTL now"
    using f d eq_key_imp_eq_value [OF d, of i] by (auto split: if_splits)
qed

lemma reap_heap_wf:
  assumes "heap_wf sv" "reaped now sv sv'"
  shows "heap_wf sv'"
  unfolding heap_wf_def
proof (intro conjI allI impI)
  fix a assume a: "a < length (gw_heap sv')"
  then have s: "session_wf (sess_at sv a) (gw_wire sv)" using assms by (simp add: heap_wf_def reaped_def)
  have "sess_at sv' a = sess_at sv a \<or> sess_at sv' a = (sess_at sv a)\<lparr>gs_events := [], gs_eventsBytes := 0\<rparr>"
    "gw_wire sv' = gw_wire sv"
    using assms(2) unfolding reaped_def by auto
  then show "session_wf (sess_at sv' a) (gw_wire sv')"
    using s by (elim disjE) (simp_all add: session_wf_def)
next
  fix a b c assume "a < length (gw_heap sv')" "b < length (gw_heap sv')"
    "gs_send (sess_at sv' a) = Some c" "gs_send (sess_at sv' b) = Some c"
  then show "a = b" using assms(1) reaped_fields(3) [OF assms(2)] assms(2) unfolding heap_wf_def reaped_def by metis
qed

lemma reap_gw_wf: "gw_wf sv \<Longrightarrow> gw_wf (reapStaleLocked now sv)"
  using reapStale_props(1,2) reap_heap_wf unfolding gw_wf_def by blast

lemma user_addresses:
  assumes "table_wf sv"
  shows "distinct (map snd (user_sessions sv u))"
    and "a \<in> snd ` set (user_sessions sv u) \<longleftrightarrow>
      map_of (gw_sessions sv) (gs_ID (sess_at sv a)) = Some a \<and> gs_UserID (sess_at sv a) = u"
proof -
  have d: "distinct (map fst (user_sessions sv u))"
    using assms unfolding table_wf_def user_sessions_def by (auto split: option.splits)
  have m: "(i, a) \<in> set (user_sessions sv u) \<longleftrightarrow>
      map_of (gw_sessions sv) i = Some a \<and> gs_UserID (sess_at sv a) = u" for i a
    unfolding map_of_eq_Some_iff [OF d, symmetric] using assms unfolding table_wf_def by blast
  have i: "gs_ID (sess_at sv a) = i" if "map_of (gw_sessions sv) i = Some a" for i a
    using assms that unfolding table_wf_def by blast
  show "a \<in> snd ` set (user_sessions sv u) \<longleftrightarrow>
      map_of (gw_sessions sv) (gs_ID (sess_at sv a)) = Some a \<and> gs_UserID (sess_at sv a) = u"
    using m i by force
  have "inj_on snd (set (user_sessions sv u))"
    using m i by (intro inj_onI) (metis prod.collapse)
  then show "distinct (map snd (user_sessions sv u))"
    using d by (simp add: distinct_map distinct_map)
qed

text \<open>The effect of a dispatch on the sessions of the table.\<close>

lemma Dispatch_effect:
  assumes wf: "gw_wf sv"
  shows "\<exists>sv'. Dispatch userID t d now sv = Some sv' \<and> gw_wf sv'
    \<and> (\<forall>i a. map_of (gw_sessions sv') i = Some a \<longleftrightarrow>
          map_of (gw_sessions sv) i = Some a \<and> \<not> stale (sess_at sv a) sessionTTL now)
    \<and> (\<forall>i a. map_of (gw_sessions sv') i = Some a \<longrightarrow> gs_UserID (sess_at sv' a) = gs_UserID (sess_at sv a)
          \<and> (gs_UserID (sess_at sv a) \<noteq> userID \<longrightarrow> sess_at sv' a = sess_at sv a)
          \<and> (gs_UserID (sess_at sv a) = userID \<longrightarrow>
               gs_seq (sess_at sv' a) = gs_seq (sess_at sv a) + (if json_ok d then 1 else 0)))"
proof -
  define sv1 where "sv1 = reapStaleLocked now sv"
  have t: "table_wf sv" and w1: "gw_wf sv1" using wf reap_gw_wf by (auto simp: gw_wf_def sv1_def)
  then have t1: "table_wf sv1" by (simp add: gw_wf_def)
  have m: "map_of (gw_sessions sv1) i = Some a \<longleftrightarrow>
      map_of (gw_sessions sv) i = Some a \<and> \<not> stale (sess_at sv a) sessionTTL now" for i a
    unfolding sv1_def by (rule reapStale_props(3) [OF t])
  have s1: "sess_at sv1 a = sess_at sv a" if "map_of (gw_sessions sv1) i = Some a" for i a
    using that m reaped_fields(7) [OF reapStale_props(2) [OF t]] by (simp add: sv1_def)
  define as where "as = map snd (user_sessions sv1 userID)"
  note ad = user_addresses [OF t1, where u = userID]
  have as: "distinct as" "a \<in> set as \<longleftrightarrow>
      map_of (gw_sessions sv1) (gs_ID (sess_at sv1 a)) = Some a \<and> gs_UserID (sess_at sv1 a) = userID" for a
    using ad by (simp_all add: as_def)
  have len: "\<forall>a \<in> set as. a < length (gw_heap sv1)"
    using as(2) t1 unfolding table_wf_def by blast
  show ?thesis
  proof (cases "as = [] \<or> \<not> json_ok d")
    case True
    then have D: "Dispatch userID t d now sv = Some sv1"
      by (auto simp: Dispatch_def sv1_def [symmetric] Let_def as_def marshal_def)
    have "gs_UserID (sess_at sv a) = userID \<Longrightarrow> map_of (gw_sessions sv1) i = Some a \<Longrightarrow> \<not> json_ok d" for i a
      using True as(2) [of a] s1 [of i a] t1 unfolding table_wf_def by fastforce
    then show ?thesis using D w1 m s1 by (intro exI [of _ sv1]) auto
  next
    case False
    obtain sv' where f: "fan_out as t d now sv1 = Some sv'" "gw_wf sv'" "same_tables sv1 sv'"
      "\<forall>b. b \<notin> set as \<longrightarrow> sess_at sv' b = sess_at sv1 b"
      "\<forall>b \<in> set as. gs_seq (sess_at sv' b) = gs_seq (sess_at sv1 b) + (if json_ok d then 1 else 0)"
      using fan_out_safe [OF w1 as(1) len] by blast
    have D: "Dispatch userID t d now sv = Some sv'"
      using False f(1) by (auto simp: Dispatch_def sv1_def [symmetric] Let_def as_def marshal_def)
    have tab: "gw_sessions sv' = gw_sessions sv1" using f(3) by (simp add: same_tables_def)
    show ?thesis
    proof (intro exI [of _ sv'] conjI allI impI)
      fix i a assume "map_of (gw_sessions sv') i = Some a"
      then have i: "map_of (gw_sessions sv1) i = Some a" by (simp add: tab)
      then have la: "a < length (gw_heap sv1)" "gs_ID (sess_at sv1 a) = i"
        using t1 unfolding table_wf_def by blast+
      show "gs_UserID (sess_at sv' a) = gs_UserID (sess_at sv a)"
        using f(3) la(1) s1 [OF i] by (simp add: same_tables_def)
      show "sess_at sv' a = sess_at sv a" if "gs_UserID (sess_at sv a) \<noteq> userID"
        using that f(4) as(2) [of a] s1 [OF i] by simp
      show "gs_seq (sess_at sv' a) = gs_seq (sess_at sv a) + (if json_ok d then 1 else 0)"
        if "gs_UserID (sess_at sv a) = userID"
        using that f(5) as(2) [of a] s1 [OF i] i la(2) by simp
    qed (use D f(2) m tab in auto)
  qed
qed

section \<open>Attaching\<close>

definition unheld :: "nat \<Rightarrow> ('d, 'r) Server \<Rightarrow> bool" where
  "unheld ch sv \<longleftrightarrow> (\<forall>a < length (gw_heap sv). gs_send (sess_at sv a) \<noteq> Some ch)"

lemma attach_safe:
  assumes wf: "gw_wf sv" and a: "a < length (gw_heap sv)" and ch: "\<not> wc_closed (gw_wire sv ch)" "unheld ch sv"
  shows "\<exists>sv'. attach_at a ch sv = Some sv' \<and> gw_wf sv' \<and> same_tables sv sv' \<and> gs_send (sess_at sv' a) = Some ch
    \<and> \<not> wc_closed (gw_wire sv' ch) \<and> gw_auth sv' = gw_auth sv
    \<and> (\<forall>old. gs_send (sess_at sv a) = Some old \<longrightarrow> wc_closed (gw_wire sv' old))"
proof -
  define s where "s = (sess_at sv a)\<lparr>gs_send := Some ch, gs_detachedAt := zeroTime\<rparr>"
  define w where "w = (case gs_send (sess_at sv a) of Some old \<Rightarrow> chan_close (gw_wire sv) old | None \<Rightarrow> gw_wire sv)"
  have swf: "session_wf (sess_at sv a) (gw_wire sv)" by (rule gw_session_wf [OF wf a])
  have ne: "gs_send (sess_at sv a) \<noteq> Some ch" using ch(2) a by (simp add: unheld_def)
  have at: "attach (sess_at sv a) (gw_wire sv) ch = Some (gs_send (sess_at sv a) \<noteq> None, s, w)"
    using swf ne by (auto simp: attach_def Let_def s_def w_def session_wf_def)
  have wch: "w ch = gw_wire sv ch" "gs_send (sess_at sv a) = Some old \<Longrightarrow> wc_closed (w old)" for old
    using ne by (auto simp: w_def chan_close_def split: option.splits)
  define sv' where "sv' = (set_sess sv a s)\<lparr>gw_wire := w\<rparr>"
  have st: "same_tables sv sv'" using a by (auto simp: same_tables_def sv'_def s_def)
  have h: "heap_wf sv" using wf by (simp add: gw_wf_def)
  have "heap_wf sv'"
    unfolding heap_wf_def
  proof (intro conjI allI impI)
    fix b assume b: "b < length (gw_heap sv')"
    show "session_wf (sess_at sv' b) (gw_wire sv')"
    proof (cases "b = a")
      case True
      then show ?thesis using swf a ch(1) wch(1) by (simp add: sv'_def s_def session_wf_def)
    next
      case False
      have "w c = gw_wire sv c" if "gs_send (sess_at sv b) = Some c" for c
        using that False h a b unfolding heap_wf_def w_def sv'_def
        by (auto simp: chan_close_def split: option.splits)
      then show ?thesis using h b a False unfolding heap_wf_def session_wf_def by (simp add: sv'_def)
    qed
  next
    fix b b' c assume "b < length (gw_heap sv')" "b' < length (gw_heap sv')"
      "gs_send (sess_at sv' b) = Some c" "gs_send (sess_at sv' b') = Some c"
    then show "b = b'"
      using h a ch(2) unfolding heap_wf_def unheld_def sv'_def s_def by (auto split: if_splits)
  qed
  then have "gw_wf sv'" using same_tables_wf [OF st] wf by (simp add: gw_wf_def)
  moreover have "attach_at a ch sv = Some sv'" by (simp add: attach_at_def at sv'_def)
  ultimately show ?thesis using st wch ch(1) a
    by (intro exI [of _ sv']) (auto simp: sv'_def s_def)
qed

section \<open>Runs of operations on one session\<close>

definition on_session :: "addr \<Rightarrow> ('d, 'r) Server \<Rightarrow> ('d, 'r) Server \<Rightarrow> bool" where
  "on_session a sv sv' \<longleftrightarrow> gw_wf sv' \<and> same_tables sv sv'
     \<and> (gs_send (sess_at sv' a) = gs_send (sess_at sv a) \<or> gs_send (sess_at sv' a) = None)"

lemma on_session_refl: "gw_wf sv \<Longrightarrow> on_session a sv sv"
  by (simp add: on_session_def)

lemma on_session_trans: "on_session a sv1 sv2 \<Longrightarrow> on_session a sv2 sv3 \<Longrightarrow> on_session a sv1 sv3"
  unfolding on_session_def using same_tables_trans by metis

lemma on_session_less: "on_session a sv sv' \<Longrightarrow> a < length (gw_heap sv') \<longleftrightarrow> a < length (gw_heap sv)"
  by (simp add: on_session_def same_tables_def)

lemma dispatch_at_on:
  assumes "gw_wf sv" "a < length (gw_heap sv)"
  shows "\<exists>r sv'. dispatch_at a t d rec now sv = Some (r, sv') \<and> on_session a sv sv'"
  using dispatch_at_safe [OF assms, of t d rec now] unfolding on_session_def by blast

lemma dispatch_until_on:
  "gw_wf sv \<Longrightarrow> a < length (gw_heap sv) \<Longrightarrow> \<exists>ok sv'. dispatch_until a t ds now sv = Some (ok, sv') \<and> on_session a sv sv'"
proof (induction ds arbitrary: sv)
  case (Cons d ds)
  obtain r sv1 where d: "dispatch_at a t d True now sv = Some (r, sv1)" "on_session a sv sv1"
    using dispatch_at_on [OF Cons.prems] by blast
  then have "gw_wf sv1" "a < length (gw_heap sv1)" using Cons.prems on_session_less by (auto simp: on_session_def)
  from Cons.IH [OF this] show ?case using d on_session_trans [OF d(2)] by (cases r) auto
qed (auto simp: on_session_refl)

lemma dispatch_each_on:
  "gw_wf sv \<Longrightarrow> a < length (gw_heap sv) \<Longrightarrow> \<exists>sv'. dispatch_each a t ds now sv = Some sv' \<and> on_session a sv sv'"
proof (induction ds arbitrary: sv)
  case (Cons d ds)
  show ?case
  proof (cases d)
    case None
    then show ?thesis using Cons by simp
  next
    case (Some j)
    obtain r sv1 where d: "dispatch_at a t j True now sv = Some (r, sv1)" "on_session a sv sv1"
      using dispatch_at_on [OF Cons.prems] by blast
    then have "gw_wf sv1" "a < length (gw_heap sv1)" using Cons.prems on_session_less by (auto simp: on_session_def)
    from Cons.IH [OF this] show ?thesis using Some d on_session_trans [OF d(2)] by auto
  qed
qed (simp add: on_session_refl)

lemma watch_on:
  assumes "gw_wf sv" "a < length (gw_heap sv)" shows "on_session a sv (watch a g c sv)"
proof -
  let ?s = "watchMemberList (sess_at sv a) g c"
  have s: "session_wf ?s (gw_wire sv)" "gs_ID ?s = gs_ID (sess_at sv a)" "gs_UserID ?s = gs_UserID (sess_at sv a)"
    "gs_send ?s = gs_send (sess_at sv a)"
    using gw_session_wf [OF assms] by (simp_all add: watchMemberList_def session_wf_def)
  have e: "(set_sess sv a ?s)\<lparr>gw_wire := gw_wire sv\<rparr> = watch a g c sv" by (simp add: watch_def set_sess_def)
  have "gs_send (sess_at (watch a g c sv) a) = gs_send (sess_at sv a)" using assms(2) s(4) by (simp add: watch_def)
  then show ?thesis using update_session [OF assms s(1-3)] s(4) unfolding on_session_def e by simp
qed

lemma sync_lists_on:
  "gw_wf sv \<Longrightarrow> a < length (gw_heap sv) \<Longrightarrow> \<exists>sv'. sync_lists f a g cs now sv = Some sv' \<and> on_session a sv sv'"
proof (induction cs arbitrary: sv)
  case (Cons c cs)
  note w = watch_on [OF Cons.prems, of g c]
  then have w': "gw_wf (watch a g c sv)" "a < length (gw_heap (watch a g c sv))"
    using Cons.prems on_session_less by (auto simp: on_session_def)
  obtain sv1 where d: "dispatch_each a ''GUILD_MEMBER_LIST_UPDATE''
      [f (gs_UserID (sess_at (watch a g c sv) a)) g c] now (watch a g c sv) = Some sv1" "on_session a (watch a g c sv) sv1"
    using dispatch_each_on [OF w'] by blast
  note o = on_session_trans [OF w d(2)]
  then have "gw_wf sv1" "a < length (gw_heap sv1)" using Cons.prems on_session_less by (auto simp: on_session_def)
  from Cons.IH [OF this] show ?case using d(1) on_session_trans [OF o] by (auto simp: Let_def)
qed (simp add: on_session_refl)

section \<open>Creating a session\<close>

definition next_session_id :: "'r rand \<Rightarrow> string \<Rightarrow> string \<Rightarrow> 'r \<Rightarrow> string" where
  "next_session_id rnd userID clock r =
     (case fst (RandomToken rnd r 16) of Inr t \<Rightarrow> t | Inl _ \<Rightarrow> take 32 (SHA256Hex (userID @ clock)))"

lemma gw_wf_auth [simp]: "gw_wf (sv\<lparr>gw_auth := au\<rparr>) = gw_wf sv"
  by (simp add: gw_wf_def table_wf_def heap_wf_def user_sessions_def sess_at_def)

lemma unheld_auth [simp]: "unheld ch (sv\<lparr>gw_auth := au\<rparr>) = unheld ch sv"
  by (simp add: unheld_def)

lemma createSession_wf:
  assumes wf: "gw_wf sv" and fresh: "map_of (gw_sessions sv) (next_session_id rnd u clock (au_rand (gw_auth sv))) = None"
    and c: "createSession rnd u clock now sv = (a, sv')"
  shows "gw_wf sv' \<and> a < length (gw_heap sv') \<and> gs_UserID (sess_at sv' a) = u \<and> gs_send (sess_at sv' a) = None
    \<and> (unheld ch sv \<longrightarrow> unheld ch sv') \<and> gw_wire sv' = gw_wire sv
    \<and> map_of (gw_sessions sv') (gs_ID (sess_at sv' a)) = Some a"
proof -
  define i where "i = next_session_id rnd u clock (au_rand (gw_auth sv))"
  define sess where "sess = \<lparr>gs_ID = i, gs_UserID = u, gs_seq = 0, gs_events = [], gs_eventsBytes = 0, gs_send = None,
                  gs_detachedAt = zeroTime, gs_memberLists = []\<rparr>"
  define r where "r = snd (RandomToken rnd (au_rand (gw_auth sv)) 16)"
  define sv0 where "sv0 = sv\<lparr>gw_auth := (gw_auth sv)\<lparr>au_rand := r\<rparr>\<rparr>"
  define sv1 where "sv1 = reapStaleLocked now sv0"
  define us where "us = user_sessions sv1 u"
  have sv': "sv' = sv1\<lparr>gw_heap := gw_heap sv1 @ [sess], gw_sessions := AList.update i a (gw_sessions sv1),
        gw_byUser := AList.update u (AList.update i a us) (gw_byUser sv1)\<rparr>" and a: "a = length (gw_heap sv1)"
    using c unfolding createSession_def
    by (auto simp: Let_def i_def sess_def r_def sv0_def sv1_def us_def next_session_id_def split: prod.splits)
  have w0: "gw_wf sv0" using wf by (simp add: sv0_def)
  then have w1: "gw_wf sv1" and rp: "reaped now sv0 sv1"
    using reap_gw_wf reapStale_props(2) by (auto simp: sv1_def gw_wf_def)
  have t1: "table_wf sv1" and h1: "heap_wf sv1" using w1 by (simp_all add: gw_wf_def)
  have "map_of (gw_sessions sv0) i = None" using fresh by (simp add: i_def sv0_def)
  then have fi: "map_of (gw_sessions sv1) i = None"
    using reapStale_props(3) [of sv0 now i] w0 by (cases "map_of (gw_sessions sv1) i") (auto simp: sv1_def gw_wf_def)
  have at: "sess_at sv' b = (if b < a then sess_at sv1 b else if b = a then sess else sess_at sv' b)" for b
    by (simp add: sv' a sess_at_def nth_append)
  have at': "sess_at sv' b = sess_at sv1 b" if "b < a" for b using at [of b] that by simp
  have ata: "sess_at sv' a = sess" using at [of a] by simp
  have len: "length (gw_heap sv') = Suc a" by (simp add: sv' a)
  have bound: "b < a" if "map_of (gw_sessions sv1) j = Some b" for j b
    using t1 that unfolding table_wf_def a by blast
  have us_fresh: "map_of us i = None"
    using t1 fi unfolding table_wf_def us_def by (cases "map_of (user_sessions sv1 u) i") (fastforce simp: us_def)+
  have ut: "map_of (user_sessions sv' v) j = (if v = u then (map_of us)(i \<mapsto> a) else map_of (user_sessions sv1 v)) j" for v j
    by (auto simp: user_sessions_def sv' update_conv' us_def)
  have d: "distinct (map fst us)"
    using t1 unfolding table_wf_def us_def user_sessions_def by (auto split: option.splits)
  have "table_wf sv'"
    unfolding table_wf_def
  proof (intro conjI allI impI)
    show "distinct (map fst (gw_sessions sv'))" "distinct (map fst (gw_byUser sv'))"
      using t1 by (simp_all add: sv' table_wf_def distinct_update)
    fix j b assume "map_of (gw_sessions sv') j = Some b"
    then have "j = i \<and> b = a \<or> map_of (gw_sessions sv1) j = Some b"
      by (auto simp: sv' update_conv' split: if_splits)
    then have "b < length (gw_heap sv') \<and> gs_ID (sess_at sv' b) = j"
    proof
      assume "map_of (gw_sessions sv1) j = Some b"
      then have "b < a" "gs_ID (sess_at sv1 b) = j" using bound t1 unfolding table_wf_def by blast+
      then show ?thesis using at' len by auto
    qed (use ata len in \<open>auto simp: sess_def\<close>)
    then show "b < length (gw_heap sv')" "gs_ID (sess_at sv' b) = j" by auto
  next
    fix v vs assume "map_of (gw_byUser sv') v = Some vs"
    then have "v = u \<and> vs = AList.update i a us \<or> map_of (gw_byUser sv1) v = Some vs"
      by (auto simp: sv' update_conv' split: if_splits)
    moreover have "AList.update i a us \<noteq> []" by (cases us) auto
    moreover have "vs \<noteq> [] \<and> distinct (map fst vs)" if "map_of (gw_byUser sv1) v = Some vs"
      using t1 that unfolding table_wf_def by blast
    ultimately show "vs \<noteq> []" "distinct (map fst vs)"
      using distinct_update [OF d, of i a] by metis+
  next
    fix v j b
    have o: "map_of (user_sessions sv1 v) j = Some b \<longleftrightarrow> map_of (gw_sessions sv1) j = Some b \<and> gs_UserID (sess_at sv1 b) = v"
      using t1 unfolding table_wf_def by blast
    show "map_of (user_sessions sv' v) j = Some b \<longleftrightarrow> map_of (gw_sessions sv') j = Some b \<and> gs_UserID (sess_at sv' b) = v"
    proof (cases "j = i")
      case True
      have "map_of (user_sessions sv1 v) i \<noteq> Some b" if "v \<noteq> u" using o True fi by simp
      then show ?thesis using True ut ata by (auto simp: sv' update_conv' sess_def)
    next
      case False
      then have "map_of (user_sessions sv' v) j = map_of (user_sessions sv1 v) j" using ut us_def by auto
      moreover have "map_of (gw_sessions sv') j = map_of (gw_sessions sv1) j" using False by (simp add: sv' update_conv')
      ultimately show ?thesis using o bound at' by metis
    qed
  qed
  moreover have "heap_wf sv'"
    unfolding heap_wf_def
  proof (intro conjI allI impI)
    fix b assume "b < length (gw_heap sv')"
    then consider "b < a" | "b = a" using len by linarith
    then show "session_wf (sess_at sv' b) (gw_wire sv')"
      using h1 at' ata a unfolding heap_wf_def by cases (auto simp: sv' sess_def session_wf_def replayLimit_def)
  next
    fix b b' c assume "b < length (gw_heap sv')" "b' < length (gw_heap sv')"
      "gs_send (sess_at sv' b) = Some c" "gs_send (sess_at sv' b') = Some c"
    then have "b < a" "b' < a" using len ata by (auto simp: sess_def less_Suc_eq)
    then show "b = b'" using h1 at' a \<open>gs_send (sess_at sv' b) = Some c\<close> \<open>gs_send (sess_at sv' b') = Some c\<close>
      unfolding heap_wf_def by auto
  qed
  moreover have "gs_send (sess_at sv1 b) = gs_send (sess_at sv b)" for b
    using reaped_fields(3) [OF rp] by (simp add: sv0_def)
  moreover have "length (gw_heap sv1) = length (gw_heap sv)" "gw_wire sv1 = gw_wire sv"
    using rp by (simp_all add: reaped_def sv0_def)
  ultimately show ?thesis
    using ata len at' a by (auto simp: gw_wf_def sess_def unheld_def sv' update_conv' less_Suc_eq)
qed

section \<open>One round of the read loop\<close>

text \<open>\<open>live\<close>: the connection's queue is open, and its session, if it has one, writes to it. \<open>settled\<close>: as live, or the
  session has given the queue up.\<close>

definition live :: "nat \<Rightarrow> addr option \<Rightarrow> ('d, 'r) Server \<Rightarrow> bool" where
  "live ch sess sv \<longleftrightarrow>
     (case sess of
        None \<Rightarrow> \<not> wc_closed (gw_wire sv ch) \<and> unheld ch sv
      | Some a \<Rightarrow> a < length (gw_heap sv) \<and> gs_send (sess_at sv a) = Some ch)"

definition settled :: "nat \<Rightarrow> addr option \<Rightarrow> ('d, 'r) Server \<Rightarrow> bool" where
  "settled ch sess sv \<longleftrightarrow>
     live ch sess sv \<or> (\<exists>a. sess = Some a \<and> a < length (gw_heap sv) \<and> gs_send (sess_at sv a) = None)"

lemma live_open: "gw_wf sv \<Longrightarrow> live ch sess sv \<Longrightarrow> \<not> wc_closed (gw_wire sv ch)"
  by (auto simp: live_def gw_wf_def heap_wf_def session_wf_def split: option.splits)

lemma live_auth [simp]: "live ch sess (sv\<lparr>gw_auth := au\<rparr>) = live ch sess sv"
  by (simp add: live_def unheld_def split: option.splits)

lemma on_session_settled:
  assumes "on_session a sv sv'" "a < length (gw_heap sv)" "gs_send (sess_at sv a) = Some ch"
  shows "gw_wf sv' \<and> settled ch (Some a) sv'"
  using assms on_session_less [OF assms(1)] by (auto simp: on_session_def settled_def live_def)

definition safe_round :: "nat \<Rightarrow> ('d, 'r) round \<Rightarrow> bool" where
  "safe_round ch r \<longleftrightarrow> (\<exists>v sess sv. r = Some (v, sess, sv) \<and> gw_wf sv \<and> settled ch sess sv)"

lemma safe_roundI: "gw_wf sv \<Longrightarrow> live ch sess sv \<Longrightarrow> safe_round ch (Some (v, sess, sv))"
  by (auto simp: safe_round_def settled_def)

lemma safe_round_if: "safe_round ch x \<Longrightarrow> safe_round ch y \<Longrightarrow> safe_round ch (if b then x else y)"
  by simp

lemma safe_round_on:
  "on_session a sv sv' \<Longrightarrow> a < length (gw_heap sv) \<Longrightarrow> gs_send (sess_at sv a) = Some ch \<Longrightarrow>
     safe_round ch (Some (v, Some a, sv'))"
  using on_session_settled unfolding safe_round_def by blast

lemma closed_push [simp]: "wc_closed (chan_push w ch r c) = wc_closed (w c)"
  by (simp add: chan_push_def)

lemma wire_push_wf:
  assumes "gw_wf sv" "w = chan_push (gw_wire sv) ch r \<or> w = gw_wire sv"
  shows "gw_wf (sv\<lparr>gw_wire := w\<rparr>)" "live ch sess (sv\<lparr>gw_wire := w\<rparr>) = live ch sess sv"
proof -
  have c: "wc_closed (w c) = wc_closed (gw_wire sv c)" for c using assms(2) by auto
  then show "live ch sess (sv\<lparr>gw_wire := w\<rparr>) = live ch sess sv"
    by (simp add: live_def unheld_def split: option.splits)
  have "session_wf s w = session_wf s (gw_wire sv)" for s using c by (simp add: session_wf_def)
  then show "gw_wf (sv\<lparr>gw_wire := w\<rparr>)"
    using assms(1) by (simp add: gw_wf_def table_wf_def heap_wf_def user_sessions_def)
qed

lemma send_frame_safe:
  assumes "gw_wf sv" "live ch sess sv" shows "safe_round ch (send_frame ch f sess sv)"
proof -
  obtain w where w: "trySend (gw_wire sv) ch (WFrame f) = Some w"
      "w = chan_push (gw_wire sv) ch (WFrame f) \<or> w = gw_wire sv"
    using live_open [OF assms] by (cases "chan_full (gw_wire sv ch)") (auto simp: trySend_def)
  then show ?thesis using wire_push_wf [OF assms(1) w(2)] assms(2)
    by (auto simp: send_frame_def intro: safe_roundI)
qed

lemma ValidateToken_rand: "ValidateToken B au token now = (r, au') \<Longrightarrow> au_rand au' = au_rand au"
  by (auto simp: ValidateToken_def Let_def split: sum.splits prod.splits)

lemma op_identify_safe:
  assumes wf: "gw_wf sv" and l: "live ch sess sv"
    and fresh: "\<forall>u. map_of (gw_sessions sv) (next_session_id rnd u clock (au_rand (gw_auth sv))) = None"
  shows "safe_round ch (op_identify B rnd p ch clock now d sess sv)"
proof (cases "sess = None")
  case False
  then show ?thesis using assms by (simp add: op_identify_def safe_roundI)
next
  case None: True
  show ?thesis
  proof (cases "decode_identify d")
    case None
    then show ?thesis using \<open>sess = None\<close> assms by (simp add: op_identify_def safe_roundI)
  next
    case (Some token)
    obtain r au where v: "ValidateToken B (gw_auth sv) (authToken token) now = (r, au)"
      by (cases "ValidateToken B (gw_auth sv) (authToken token) now")
    show ?thesis
    proof (cases "token = [] \<or> isl r")
      case True
      then show ?thesis using \<open>sess = None\<close> Some v assms
        by (auto simp: op_identify_def isl_def intro!: safe_roundI)
    next
      case False
      then obtain user where user: "r = Inr user" by (cases r) auto
      define sv0 where "sv0 = sv\<lparr>gw_auth := au\<rparr>"
      obtain a sv1 where c: "createSession rnd (u_ID user) clock now sv0 = (a, sv1)"
        by (cases "createSession rnd (u_ID user) clock now sv0")
      have w0: "gw_wf sv0" "unheld ch sv0" "\<not> wc_closed (gw_wire sv0 ch)"
        using wf l \<open>sess = None\<close> by (simp_all add: sv0_def live_def)
      have "map_of (gw_sessions sv0) (next_session_id rnd (u_ID user) clock (au_rand (gw_auth sv0))) = None"
        using fresh ValidateToken_rand [OF v] by (simp add: sv0_def)
      note c' = createSession_wf [OF w0(1) this c, of ch]
      then have w1: "gw_wf sv1" "a < length (gw_heap sv1)" "\<not> wc_closed (gw_wire sv1 ch)" "unheld ch sv1"
        using w0 by auto
      from attach_safe [OF w1]
      obtain sv2 where a2: "attach_at a ch sv1 = Some sv2" "gw_wf sv2" "same_tables sv1 sv2"
        "gs_send (sess_at sv2 a) = Some ch" by blast
      then have l2: "a < length (gw_heap sv2)" using w1(2) by (simp add: same_tables_def)
      obtain r3 sv3 where d3: "dispatch_at a ''READY'' (buildReady p (gs_ID (sess_at sv2 a)) user) True now sv2
          = Some (r3, sv3)" "on_session a sv2 sv3"
        using dispatch_at_on [OF a2(2) l2] by blast
      then have w3: "gw_wf sv3" "a < length (gw_heap sv3)" using l2 on_session_less by (auto simp: on_session_def)
      have R: "op_identify B rnd p ch clock now d sess sv =
         (case r3 of
            Inl _ \<Rightarrow> Some (Stop, Some a, sv3)
          | Inr _ \<Rightarrow>
            (case p_guildCreate p of
               None \<Rightarrow> Some (Continue, Some a, sv3)
             | Some f \<Rightarrow>
               (case dispatch_until a ''GUILD_CREATE'' (f (u_ID user)) now sv3 of
                  None \<Rightarrow> None
                | Some (ok, sv) \<Rightarrow> Some (if ok then Continue else Stop, Some a, sv))))"
        using False user \<open>sess = None\<close> Some v c a2(1) d3(1) by (simp add: op_identify_def sv0_def split: sum.splits)
      show ?thesis
      proof (cases "isl r3 \<or> p_guildCreate p = None")
        case True
        then show ?thesis unfolding R using safe_round_on [OF d3(2) l2 a2(4)] by (cases r3) auto
      next
        case False
        then obtain q f where qf: "r3 = Inr q" "p_guildCreate p = Some f" by (cases r3) auto
        obtain ok sv4 where "dispatch_until a ''GUILD_CREATE'' (f (u_ID user)) now sv3 = Some (ok, sv4)"
            "on_session a sv3 sv4"
          using dispatch_until_on [OF w3] by blast
        then show ?thesis unfolding R qf
          using safe_round_on [OF on_session_trans [OF d3(2)] l2 a2(4)] by simp
      qed
    qed
  qed
qed

lemma replay_safe:
  "\<not> wc_closed (w ch) \<Longrightarrow>
     \<exists>w'. replay_events w evs since ch = Some w' \<and> (\<forall>c. wc_closed (w' c) = wc_closed (w c))"
proof (induction evs arbitrary: w)
  case (Cons e evs)
  then show ?case
    using Cons.IH [of w] Cons.IH [of "chan_push w ch (WFrame (ev_frame e))"] by auto
qed simp

lemma gw_wf_wire:
  assumes "gw_wf sv" "\<forall>c. wc_closed (w c) = wc_closed (gw_wire sv c)" shows "gw_wf (sv\<lparr>gw_wire := w\<rparr>)"
proof -
  have "session_wf s w = session_wf s (gw_wire sv)" for s using assms(2) by (simp add: session_wf_def)
  then show ?thesis using assms(1) by (simp add: gw_wf_def table_wf_def heap_wf_def user_sessions_def)
qed


lemma op_resume_safe:
  assumes wf: "gw_wf sv" and l: "live ch sess sv"
  shows "safe_round ch (op_resume B ch now d sess sv)"
proof (cases "sess = None")
  case False
  then show ?thesis using assms by (simp add: op_resume_def safe_roundI)
next
  case sess: True
  show ?thesis
  proof (cases "decode_resume d")
    case None
    then show ?thesis using sess assms by (simp add: op_resume_def safe_roundI)
  next
    case (Some x)
    then obtain token sid since where x: "decode_resume d = Some (token, sid, since)" by (cases x) auto
    obtain r au where v: "ValidateToken B (gw_auth sv) (authToken token) now = (r, au)"
      by (cases "ValidateToken B (gw_auth sv) (authToken token) now")
    show ?thesis
    proof (cases "token = [] \<or> isl r")
      case True
      then show ?thesis using sess x v assms by (auto simp: op_resume_def isl_def intro!: safe_roundI)
    next
      case False
      then obtain user where user: "r = Inr user" by (cases r) auto
      define sv0 where "sv0 = sv\<lparr>gw_auth := au\<rparr>"
      have w0: "gw_wf sv0" "live ch None sv0" using wf l sess by (simp_all add: sv0_def)
      show ?thesis
      proof (cases "\<exists>a. findSession sv0 sid = Some a \<and> gs_UserID (sess_at sv0 a) = u_ID user")
        case False
        then have "op_resume B ch now d sess sv = send_frame ch (opFrame OpInvalidSession (JBool False)) None sv0"
          using \<open>\<not> (token = [] \<or> isl r)\<close> sess x v user
          by (auto simp: op_resume_def Let_def sv0_def split: option.splits)
        then show ?thesis using send_frame_safe [OF w0] by simp
      next
        case True
        then obtain a where a: "findSession sv0 sid = Some a" "gs_UserID (sess_at sv0 a) = u_ID user" by blast
        have la: "a < length (gw_heap sv0)"
          using w0(1) a(1) unfolding gw_wf_def table_wf_def findSession_def by blast
        have op: "\<not> wc_closed (gw_wire sv0 ch)" "unheld ch sv0" using w0(2) by (simp_all add: live_def)
        obtain sv1 where s1: "attach_at a ch sv0 = Some sv1" "gw_wf sv1" "same_tables sv0 sv1"
            "gs_send (sess_at sv1 a) = Some ch" "\<not> wc_closed (gw_wire sv1 ch)"
          using attach_safe [OF w0(1) la op] by blast
        obtain w where w: "replay (sess_at sv1 a) (gw_wire sv1) since ch = Some w"
            "\<forall>c. wc_closed (w c) = wc_closed (gw_wire sv1 c)"
          using replay_safe [where w = "gw_wire sv1" and ch = ch, OF s1(5)] unfolding replay_def by blast
        define sv2 where "sv2 = sv1\<lparr>gw_wire := w\<rparr>"
        have w2: "gw_wf sv2" "a < length (gw_heap sv2)" "gs_send (sess_at sv2 a) = Some ch"
          using gw_wf_wire [OF s1(2) w(2)] la s1(3,4) by (simp_all add: sv2_def same_tables_def)
        obtain q sv3 where d3: "dispatch_at a ''RESUMED'' (JObj [(''_trace'', JArr [JStr ''voidbar''])]) False now sv2
            = Some (q, sv3)" "on_session a sv2 sv3"
          using dispatch_at_on [OF w2(1,2)] by blast
        obtain n where q: "q = Inr n"
        proof -
          have "json_ok (JObj [(''_trace'', JArr [JStr ''voidbar''])])" by simp
          from dispatch_safe [OF gw_session_wf [OF w2(1,2)] this, of "''RESUMED''" False now]
          show thesis using that d3(1) by (auto simp: dispatch_at_def)
        qed
        have "op_resume B ch now d sess sv = Some (Continue, Some a, sv3)"
          using \<open>\<not> (token = [] \<or> isl r)\<close> sess x v user a s1(1) w(1) d3(1) q
          by (simp add: op_resume_def Let_def sv0_def sv2_def)
        then show ?thesis using safe_round_on [OF d3(2) w2(2,3)] by simp
      qed
    qed
  qed
qed

lemma op_members_safe:
  assumes "gw_wf sv" "live ch (Some a) sv" shows "safe_round ch (op_members p now d a sv)"
proof -
  have a: "a < length (gw_heap sv)" "gs_send (sess_at sv a) = Some ch" using assms(2) by (simp_all add: live_def)
  show ?thesis
  proof (cases "\<exists>gs us n f. decode_request_members d = Some (gs, us, n) \<and> p_memberChunk p = Some f")
    case True
    then obtain gs us n f where g: "decode_request_members d = Some (gs, us, n)" "p_memberChunk p = Some f" by blast
    obtain sv' where "dispatch_each a ''GUILD_MEMBERS_CHUNK''
        (map (\<lambda>g. f (gs_UserID (sess_at sv a)) g n us) gs) now sv = Some sv'" "on_session a sv sv'"
      using dispatch_each_on [OF assms(1) a(1)] by blast
    then show ?thesis using g safe_round_on [OF _ a] by (simp add: op_members_def)
  next
    case False
    then have "op_members p now d a sv = Some (Continue, Some a, sv)"
      by (auto simp: op_members_def split: option.splits prod.splits)
    then show ?thesis using safe_roundI [OF assms] by simp
  qed
qed

lemma op_subscriptions_safe:
  assumes "gw_wf sv" "live ch (Some a) sv" shows "safe_round ch (op_subscriptions p now d a sv)"
proof -
  have a: "a < length (gw_heap sv)" "gs_send (sess_at sv a) = Some ch" using assms(2) by (simp_all add: live_def)
  show ?thesis
  proof (cases "decode_subscriptions d")
    case None
    then show ?thesis using safe_roundI [OF assms] by (simp add: op_subscriptions_def)
  next
    case (Some gc)
    then obtain g cs where g: "decode_subscriptions d = Some (g, cs)" by (cases gc) auto
    show ?thesis
    proof (cases "p_memberList p")
      case None
      then show ?thesis using safe_roundI [OF assms] g by (simp add: op_subscriptions_def)
    next
      case f: (Some f)
      note w = watch_on [OF assms(1) a(1), of g "[]"]
      then have w': "gw_wf (watch a g [] sv)" "a < length (gw_heap (watch a g [] sv))"
        using a on_session_less [OF w] by (auto simp: on_session_def)
      obtain sv1 where "dispatch_each a ''GUILD_MEMBER_LIST_UPDATE'' (map (f (gs_UserID (sess_at sv a)) g)
            ([] # (case p_guildChannels p of Some gc \<Rightarrow> gc (gs_UserID (sess_at sv a)) g | None \<Rightarrow> []))) now
            (watch a g [] sv) = Some sv1" "on_session a (watch a g [] sv) sv1"
        using dispatch_each_on [OF w'] by blast
      moreover obtain sv2 where "sync_lists f a g cs now sv = Some sv2" "on_session a sv sv2"
        using sync_lists_on [OF assms(1) a(1)] by blast
      ultimately show ?thesis using g f safe_round_on [OF on_session_trans [OF w] a] safe_round_on [OF _ a]
        by (cases "cs = []") (auto simp: op_subscriptions_def Let_def)
    qed
  qed
qed

section \<open>Whose session a connection gets\<close>

lemma set_sess_user:
  "gs_UserID s = gs_UserID (sess_at sv a) \<Longrightarrow> gs_UserID (sess_at (set_sess sv a s) b) = gs_UserID (sess_at sv b)"
  by (cases "a < length (gw_heap sv)") (auto simp: sess_at_def set_sess_def nth_list_update list_update_beyond)

lemma dispatch_at_user:
  "dispatch_at a t d rec now sv = Some (r, sv') \<Longrightarrow> gs_UserID (sess_at sv' b) = gs_UserID (sess_at sv b)"
  by (auto simp: dispatch_at_def set_sess_user dest!: dispatch_keeps split: option.splits)

lemma dispatch_until_user:
  "dispatch_until a t ds now sv = Some (ok, sv') \<Longrightarrow> gs_UserID (sess_at sv' b) = gs_UserID (sess_at sv b)"
  by (induction ds arbitrary: sv) (auto dest!: dispatch_at_user [where b = b] split: option.splits sum.splits)

lemma attach_at_user:
  "attach_at a ch sv = Some sv' \<Longrightarrow> gs_UserID (sess_at sv' b) = gs_UserID (sess_at sv b)"
  by (auto simp: attach_at_def attach_def Let_def set_sess_user split: option.splits if_splits prod.splits)

lemma createSession_user:
  "createSession rnd u clock now sv = (a, sv') \<Longrightarrow> gs_UserID (sess_at sv' a) = u"
  by (auto simp: createSession_def Let_def sess_at_def nth_append split: prod.splits)

lemma reap_heap_length: "length (gw_heap (reapStaleLocked now sv)) = length (gw_heap sv)"
proof -
  have l: "length (gw_heap (reap_entry now x sv)) = length (gw_heap sv)" for x and sv :: "('d, 'r) Server"
    by (cases x) (simp add: reap_entry_def set_sess_def Let_def)
  have "length (gw_heap (fold (reap_entry now) xs sv)) = length (gw_heap sv)" for xs and sv :: "('d, 'r) Server"
    by (induction xs arbitrary: sv) (simp_all add: l)
  then show ?thesis by (simp add: reapStaleLocked_def)
qed

lemma createSession_new:
  assumes "createSession rnd u clock now sv = (a, sv')"
  shows "gs_UserID (sess_at sv' a) = u \<and> a = length (gw_heap sv)"
  using createSession_user [OF assms] assms
  by (auto simp: createSession_def Let_def reap_heap_length split: prod.splits)

lemma op_identify_user:
  assumes "op_identify B rnd p ch clock now d None sv = Some (v, Some a, sv')"
  shows "\<exists>token user au. decode_identify d = Some token \<and> token \<noteq> []
    \<and> ValidateToken B (gw_auth sv) (authToken token) now = (Inr user, au)
    \<and> gs_UserID (sess_at sv' a) = u_ID user \<and> a = length (gw_heap sv)"
  using assms
  by (auto simp: op_identify_def Let_def
      dest!: dispatch_at_user [where b = a] dispatch_until_user [where b = a] attach_at_user [where b = a]
        createSession_new
      split: option.splits sum.splits prod.splits if_splits)

lemma op_resume_user:
  assumes "op_resume B ch now d None sv = Some (v, Some a, sv')"
  shows "\<exists>token sid since user au. decode_resume d = Some (token, sid, since) \<and> token \<noteq> []
    \<and> ValidateToken B (gw_auth sv) (authToken token) now = (Inr user, au)
    \<and> gs_UserID (sess_at sv' a) = u_ID user \<and> findSession sv sid = Some a \<and> gs_UserID (sess_at sv a) = u_ID user"
  using assms
  by (auto simp: op_resume_def send_frame_def Let_def findSession_def sess_at_def
      dest!: dispatch_at_user [where b = a] attach_at_user [where b = a]
      split: option.splits sum.splits prod.splits if_splits)

section \<open>Properties\<close>

text \<open>C30: A dispatch never panics on a well-formed server: it drops exactly the sessions that have been offline for longer
  than the resume window, gives every remaining session of the user the next sequence number when the event can be
  marshalled, and leaves the sessions of other users untouched.\<close>

lemma Dispatch_reaches:
  assumes "gw_wf sv"
  shows "\<exists>sv'. Dispatch userID t d now sv = Some sv' \<and> gw_wf sv'
    \<and> (\<forall>i a. findSession sv' i = Some a \<longleftrightarrow> findSession sv i = Some a \<and> \<not> stale (sess_at sv a) sessionTTL now)
    \<and> (\<forall>i a. findSession sv' i = Some a \<longrightarrow>
          (gs_UserID (sess_at sv a) \<noteq> userID \<longrightarrow> sess_at sv' a = sess_at sv a)
          \<and> (gs_UserID (sess_at sv a) = userID \<longrightarrow>
               gs_seq (sess_at sv' a) = gs_seq (sess_at sv a) + (if json_ok d then 1 else 0)))"
  using Dispatch_effect [OF assms, of userID t d now] unfolding findSession_def by metis

definition demo_server :: "((string, dbval) rbt, nat) Server" where
  "demo_server = \<lparr>gw_heap = [demo_session], gw_sessions = [(''s'', 0)], gw_byUser = [(''u'', [(''s'', 0)])],
     gw_wire = demo_wire, gw_auth = demo_auth\<rparr>"

lemma demo_server_wf: "gw_wf demo_server"
  using demo_session_wf
  by (auto simp: gw_wf_def table_wf_def heap_wf_def demo_server_def user_sessions_def sess_at_def demo_session_def
      split: if_splits)

lemma Dispatch_reaches_witness:
  "\<exists>sv'. Dispatch ''u'' ''TYPING_START'' (JStr ''x'') 6 demo_server = Some sv' \<and> gs_seq (sess_at sv' 0) = 1"
proof -
  have s: "sess_at demo_server 0 = demo_session" by (simp add: demo_server_def sess_at_def)
  have f: "findSession demo_server ''s'' = Some 0" by (simp add: demo_server_def findSession_def)
  have "\<not> stale demo_session sessionTTL 6" by (simp add: stale_def demo_session_def sessionTTL_def)
  then show ?thesis
    using Dispatch_reaches [OF demo_server_wf, of "''u''" "''TYPING_START''" "JStr ''x''" 6] s f
    by (fastforce simp: demo_session_def)
qed

text \<open>C31: Whatever a client sends on a connection whose queue is open, one round of the read loop does not panic: the
  tables and sessions stay well formed, and the connection keeps its queue unless its session has given it up.
  A new session id is assumed not to be in use.\<close>

lemma handle_frame_safe:
  assumes "gw_wf sv" "live ch sess sv"
    and "\<forall>u. findSession sv (next_session_id rnd u clock (au_rand (gw_auth sv))) = None"
  shows "\<exists>v sess' sv'. handle_frame B rnd p ch clock now data sess sv = Some (v, sess', sv')
    \<and> gw_wf sv' \<and> settled ch sess' sv'"
proof (cases "Option.bind data decode_payload")
  case None
  then show ?thesis using assms by (simp add: handle_frame_def settled_def)
next
  case (Some opd)
  then obtain op d where od: "Option.bind data decode_payload = Some (op, d)" by (cases opd) auto
  have m: "safe_round ch (op_members p now d a sv)" "safe_round ch (op_subscriptions p now d a sv)" if "sess = Some a" for a
    using op_members_safe op_subscriptions_safe assms(1,2) that by auto
  have "safe_round ch (handle_frame B rnd p ch clock now data sess sv)"
    unfolding handle_frame_def od option.case prod.case
  proof (intro safe_round_if)
    show "safe_round ch (op_identify B rnd p ch clock now d sess sv)"
      using op_identify_safe [OF assms(1,2)] assms(3) by (simp add: findSession_def)
    show "safe_round ch (case sess of None \<Rightarrow> Some (CloseWS CloseNotAuthenticated, sess, sv)
        | Some a \<Rightarrow> if op = OpRequestGuildMembers then op_members p now d a sv
            else if op = OpGuildSubscriptions then op_subscriptions p now d a sv
            else Some (Continue, sess, sv))"
      using m safe_roundI [OF assms(1,2)] by (cases sess) (auto intro!: safe_round_if)
  qed (use op_resume_safe [OF assms(1,2)] send_frame_safe [OF assms(1,2)] safe_roundI [OF assms(1,2)] in blast)+
  then show ?thesis by (simp add: safe_round_def)
qed

definition demo_providers :: providers where
  "demo_providers = \<lparr>p_guilds = None, p_guildCreate = None, p_dmChannels = None, p_users = None, p_memberList = None,
     p_guildChannels = None, p_memberChunk = None, p_settings = None, p_notes = None, p_readStates = None,
     p_wsURL = ''ws://h/gateway'', p_minimal = False, p_heartbeat = 41250\<rparr>"

lemma handle_frame_safe_witness:
  "\<exists>v sess sv. handle_frame mem_kv demo_rand demo_providers 3 ''t'' 9 (Some (JObj [(''op'', JNum ''1'')])) None demo_server
      = Some (v, sess, sv) \<and> gw_wf sv \<and> settled 3 sess sv"
proof (rule handle_frame_safe [OF demo_server_wf])
  show "live 3 None demo_server"
    by (simp add: live_def unheld_def demo_server_def demo_wire_def sess_at_def demo_session_def)
  have "length (hex_encode (replicate 16 (CHR ''r''))) \<noteq> length ''s''" by code_simp
  then have "next_session_id demo_rand u ''t'' 0 \<noteq> ''s''" for u
    unfolding next_session_id_def RandomToken_def demo_rand_def by auto
  then show "\<forall>u. findSession demo_server (next_session_id demo_rand u ''t'' (au_rand (gw_auth demo_server))) = None"
    by (simp add: demo_server_def demo_auth_def findSession_def)
qed

text \<open>C32: A connection that is not authenticated gets a session only by an IDENTIFY or a RESUME frame whose own
  token field, without a \<open>Bot\<close> prefix, is not empty and validates. IDENTIFY gives it a new session of the token's
  user, RESUME the session that the frame names, which has to be one of that user already.\<close>

lemma handle_frame_authenticates:
  "case handle_frame B rnd p ch clock now data None sv of
     Some (v, Some a, sv') \<Rightarrow> \<exists>op d token user au. Option.bind data decode_payload = Some (op, d)
        \<and> token \<noteq> [] \<and> ValidateToken B (gw_auth sv) (authToken token) now = (Inr user, au)
        \<and> gs_UserID (sess_at sv' a) = u_ID user
        \<and> (op = OpIdentify \<and> decode_identify d = Some token \<and> a = length (gw_heap sv)
           \<or> op = OpResume \<and> (\<exists>sid since. decode_resume d = Some (token, sid, since)
                \<and> findSession sv sid = Some a \<and> gs_UserID (sess_at sv a) = u_ID user))
   | _ \<Rightarrow> True"
proof (cases "handle_frame B rnd p ch clock now data None sv")
  case (Some r)
  obtain v x sv' where r: "r = (v, x, sv')" by (cases r) auto
  show ?thesis
  proof (cases x)
    case (Some a)
    have hf: "handle_frame B rnd p ch clock now data None sv = Some (v, Some a, sv')"
      using \<open>handle_frame B rnd p ch clock now data None sv = Some r\<close> Some unfolding r by simp
    obtain op d where o: "Option.bind data decode_payload = Some (op, d)"
      and h: "(if op = OpIdentify then op_identify B rnd p ch clock now d None sv
               else if op = OpResume then op_resume B ch now d None sv else None) = Some (v, Some a, sv')"
      using hf
      by (auto simp: handle_frame_def send_frame_def split: option.splits prod.splits if_splits)
    then consider "op = OpIdentify" "op_identify B rnd p ch clock now d None sv = Some (v, Some a, sv')"
      | "op = OpResume" "op_resume B ch now d None sv = Some (v, Some a, sv')"
      by (auto split: if_splits)
    then show ?thesis
    proof cases
      case 1
      from op_identify_user [OF this(2)] o 1(1) show ?thesis by (simp add: hf) blast
    next
      case 2
      from op_resume_user [OF this(2)] o 2(1) show ?thesis by (simp add: hf) blast
    qed
  qed (simp add: Some r)
qed simp

text \<open>C33: A RESUME on a second connection closes the queue of the connection that held the session; a heartbeat that the
  first connection still reads then sends on a closed channel, which panics.\<close>

lemma takeover_panics:
  assumes "gw_wf sv" "live ch2 None sv" "findSession sv sid = Some a" "gs_send (sess_at sv a) = Some ch1"
    and "decode_resume d = Some (token, sid, since)" "token \<noteq> []"
    and "ValidateToken B (gw_auth sv) (authToken token) now = (Inr user, au)" "gs_UserID (sess_at sv a) = u_ID user"
    and "decode_payload beat = Some (OpHeartbeat, x)"
  shows "\<exists>sv'. op_resume B ch2 now d None sv = Some (Continue, Some a, sv') \<and> gw_wf sv'
    \<and> handle_frame B rnd p ch1 clock later (Some beat) (Some a) sv' = None"
proof -
  define sv0 where "sv0 = sv\<lparr>gw_auth := au\<rparr>"
  have w0: "gw_wf sv0" "\<not> wc_closed (gw_wire sv0 ch2)" "unheld ch2 sv0"
    using assms(1,2) by (simp_all add: sv0_def live_def)
  have la: "a < length (gw_heap sv0)"
    using assms(1,3) unfolding gw_wf_def table_wf_def findSession_def sv0_def by auto
  have ne: "ch1 \<noteq> ch2" using w0(3) la assms(4) by (auto simp: unheld_def sv0_def)
  obtain sv1 where s1: "attach_at a ch2 sv0 = Some sv1" "gw_wf sv1" "same_tables sv0 sv1"
      "gs_send (sess_at sv1 a) = Some ch2" "\<not> wc_closed (gw_wire sv1 ch2)" "wc_closed (gw_wire sv1 ch1)"
    using attach_safe [OF w0(1) la w0(2,3)] assms(4) by (auto simp: sv0_def)
  obtain w where w: "replay (sess_at sv1 a) (gw_wire sv1) since ch2 = Some w"
      "\<forall>c. wc_closed (w c) = wc_closed (gw_wire sv1 c)"
    using replay_safe [where w = "gw_wire sv1" and ch = ch2, OF s1(5)] unfolding replay_def by blast
  define sv2 where "sv2 = sv1\<lparr>gw_wire := w\<rparr>"
  have w2: "gw_wf sv2" "a < length (gw_heap sv2)" "gs_send (sess_at sv2 a) = Some ch2"
    using gw_wf_wire [OF s1(2) w(2)] la s1(3,4) by (simp_all add: sv2_def same_tables_def)
  let ?resumed = "JObj [(''_trace'', JArr [JStr ''voidbar''])]"
  obtain q sv3 where d3: "dispatch_at a ''RESUMED'' ?resumed False now sv2 = Some (q, sv3)" "gw_wf sv3"
      "\<forall>c. gs_send (sess_at sv2 a) \<noteq> Some c \<longrightarrow> gw_wire sv3 c = gw_wire sv2 c"
    using dispatch_at_safe [OF w2(1,2)] by blast
  have "\<exists>n. q = Inr n"
    using dispatch_safe [OF gw_session_wf [OF w2(1,2)], of ?resumed "''RESUMED''" False now] d3(1)
    by (auto simp: dispatch_at_def)
  then have R: "op_resume B ch2 now d None sv = Some (Continue, Some a, sv3)"
    using assms(3,5-8) s1(1) w(1) d3(1) by (auto simp: op_resume_def Let_def sv0_def sv2_def findSession_def)
  have "gw_wire sv3 ch1 = w ch1" using d3(3) w2(3) ne by (simp add: sv2_def)
  then have "wc_closed (gw_wire sv3 ch1)" using w(2) s1(6) by simp
  then have "handle_frame B rnd p ch1 clock later (Some beat) (Some a) sv3 = None"
    using assms(9) by (simp add: handle_frame_def send_frame_def trySend_def opcode_defs)
  with R d3(2) show ?thesis by blast
qed

text \<open>A registered account with a known token.\<close>

lemma demo_login:
  "\<exists>u token (au :: ((string, dbval) rbt, nat) auth). authToken token = token \<and> token \<noteq> []
    \<and> (\<exists>au'. ValidateToken mem_kv au token 9 = (Inr u, au'))"
proof -
  obtain u token au where R: "Register mem_kv demo_argon demo_rand demo_auth ''alice'' ''alice@example.org'' ''correct horse'' 0
      = (Inr (u, token), au)"
    using demo_register by blast
  have fresh: "content mem_kv (au_db demo_auth) (userKey (fst (New (au_sf demo_auth) (0 div 1000000)))) = None"
    by (rule demo_auth(3))
  note s = mem_store.Register_state [OF demo_auth(1) fresh R]
  obtain au0 uid where "newSession mem_kv demo_rand au0 uid 0 = (Inr token, au)"
    by (rule Register_Inr [OF R]) blast
  then have t: "token = hex_encode (replicate 32 (CHR ''r''))"
    by (auto simp: newSession_def RandomToken_def demo_rand_def split: sum.splits prod.splits)
  have e: "authToken (hex_encode (replicate 32 (CHR ''r''))) = hex_encode (replicate 32 (CHR ''r''))"
    "hex_encode (replicate 32 (CHR ''r'')) \<noteq> []"
    by code_simp+
  have "user_row mem_kv (au_db au) u" using s(2) by simp
  then obtain au' where "ValidateToken mem_kv au token 9 = (Inr u, au')"
    using mem_store.ValidateToken_session [OF s(1) _ s(3)] by auto
  with e show ?thesis unfolding t by blast
qed

definition held_server :: "((string, dbval) rbt, nat) auth \<Rightarrow> string \<Rightarrow> ((string, dbval) rbt, nat) Server" where
  "held_server au uid = \<lparr>gw_heap = [demo_session\<lparr>gs_UserID := uid, gs_send := Some 1\<rparr>], gw_sessions = [(''s'', 0)],
     gw_byUser = [(uid, [(''s'', 0)])], gw_wire = demo_wire, gw_auth = au\<rparr>"

lemma held_server_wf: "gw_wf (held_server au uid)"
  using demo_session_wf
  by (auto simp: gw_wf_def table_wf_def heap_wf_def held_server_def user_sessions_def sess_at_def demo_session_def
      session_wf_def demo_wire_def split: if_splits)

lemma takeover_panics_witness:
  "\<exists>sv d sv'. gw_wf sv \<and> op_resume mem_kv 2 9 d None sv = Some (Continue, Some 0, sv')
    \<and> handle_frame mem_kv demo_rand demo_providers 1 ''t'' 9 (Some (JObj [(''op'', JNum ''1'')])) (Some 0) sv' = None"
proof -
  obtain u token au' and au :: "((string, dbval) rbt, nat) auth" where L: "authToken token = token" "token \<noteq> []"
    "ValidateToken mem_kv au token 9 = (Inr u, au')"
    using demo_login by blast
  let ?sv = "held_server au (u_ID u)"
  let ?d = "Some (JObj [(''token'', JStr token), (''session_id'', JStr ''s''), (''seq'', JNum ''0'')])"
  have n: "parse_int64 ''0'' = Inr 0" "parse_int64 ''1'' = Inr 1" by code_simp+
  have "equal_fold ''token'' ''session_id'' = False" "equal_fold ''token'' ''seq'' = False"
    "equal_fold ''session_id'' ''token'' = False" "equal_fold ''session_id'' ''seq'' = False"
    "equal_fold ''seq'' ''token'' = False" "equal_fold ''seq'' ''session_id'' = False"
    "equal_fold ''op'' ''s'' = False" "equal_fold ''op'' ''t'' = False" "equal_fold ''op'' ''d'' = False"
    by code_simp+
  then have d: "decode_resume ?d = Some (token, ''s'', 0)"
      "decode_payload (JObj [(''op'', JNum ''1'')]) = Some (OpHeartbeat, None)"
    using n by (simp_all add: decode_resume_def decode_payload_def fields_of_def OpHeartbeat_def)
  have "live 2 None ?sv"
    by (simp add: live_def unheld_def held_server_def demo_wire_def sess_at_def demo_session_def)
  from takeover_panics [OF held_server_wf this _ _ d(1) L(2) _ _ d(2)]
  show ?thesis using L held_server_wf
    by (fastforce simp: findSession_def held_server_def sess_at_def demo_session_def)
qed

text \<open>A frame that does not decode ends the connection without detaching its session: the session is kept by every
  later sweep, however much later, whereas after a read error it is dropped once the resume window is over.\<close>

lemma closed_session_stays:
  assumes "gw_wf sv" "live ch (Some a) sv" "findSession sv i = Some a" "now \<noteq> zeroTime"
  shows "handle_frame B rnd p ch clock now None (Some a) sv = Some (CloseWS CloseDecodeError, Some a, sv)
    \<and> findSession (reapStaleLocked later sv) i = Some a
    \<and> (later > now + sessionTTL \<longrightarrow> findSession (reapStaleLocked later (close_conn ch now (Some a) sv)) i = None)"
proof (intro conjI impI)
  have t: "table_wf sv" using assms(1) by (simp add: gw_wf_def)
  have a: "a < length (gw_heap sv)" "gs_send (sess_at sv a) = Some ch" using assms(2) by (simp_all add: live_def)
  show "handle_frame B rnd p ch clock now None (Some a) sv = Some (CloseWS CloseDecodeError, Some a, sv)"
    by (simp add: handle_frame_def)
  show "findSession (reapStaleLocked later sv) i = Some a"
    using reapStale_props(3) [OF t] assms(3) a(2) by (simp add: findSession_def stale_def)
  assume "later > now + sessionTTL"
  define sv' where "sv' = close_conn ch now (Some a) sv"
  have s: "same_tables sv sv'" using a by (auto simp: sv'_def close_conn_def same_tables_def detach_def)
  have t': "table_wf sv'" by (rule same_tables_wf [OF s t])
  have "stale (sess_at sv' a) sessionTTL later"
    using a assms(4) \<open>later > now + sessionTTL\<close> by (simp add: sv'_def close_conn_def detach_def stale_def)
  moreover have "map_of (gw_sessions sv') i = Some a"
    using s assms(3) by (simp add: same_tables_def findSession_def)
  ultimately show "findSession (reapStaleLocked later (close_conn ch now (Some a) sv)) i = None"
    using reapStale_props(3) [OF t', of later i]
    by (cases "findSession (reapStaleLocked later sv') i") (auto simp: findSession_def sv'_def [symmetric])
qed

lemma closed_session_stays_witness:
  "findSession (reapStaleLocked (10 ^ 30) (held_server demo_auth ''u'')) ''s'' = Some 0"
proof -
  have "live 1 (Some 0) (held_server demo_auth ''u'')"
    by (simp add: live_def held_server_def sess_at_def)
  moreover have "findSession (held_server demo_auth ''u'') ''s'' = Some 0"
    by (simp add: findSession_def held_server_def)
  moreover have "(7 :: int) \<noteq> zeroTime" by (simp add: zeroTime_def)
  ultimately show ?thesis using closed_session_stays [OF held_server_wf] by blast
qed

end
