(* ===== verification/Regex.thy ===== *)
theory Regex
  imports Prelude
begin

text \<open>
  The regular expressions of \<open>regexp\<close> that the code compiles: classes of characters with a repetition (greedy or lazy),
  sequences, alternatives, numbered groups and the start of a line. \<open>re_matches\<close> lists the matches at a position in the order
  of preference of a backtracking search, which is the order that Go documents; the first one counts. The classes are
  sets of bytes: the characters of the patterns are ASCII, so a rune is never split between two parts of a match.
  Lemmas: a match is a part of the text, the search finds the leftmost position, repeated searches terminate.
\<close>

datatype re =
    Chars "char \<Rightarrow> bool" nat "nat option" bool
  | Seq re re
  | Alt re re
  | Group nat re
  | Bol

type_synonym re_state = "char option \<times> string \<times> (nat \<times> string) list"

fun re_advance :: "nat \<Rightarrow> re_state \<Rightarrow> re_state" where
  "re_advance 0 st = st"
| "re_advance (Suc n) (prev, [], caps) = (prev, [], caps)"
| "re_advance (Suc n) (prev, c # s, caps) = re_advance n (Some c, s, caps)"

definition run_len :: "(char \<Rightarrow> bool) \<Rightarrow> nat option \<Rightarrow> string \<Rightarrow> nat" where
  "run_len p hi s = (let n = length (takeWhile p s) in case hi of Some h \<Rightarrow> min n h | None \<Rightarrow> n)"

primrec re_matches :: "re \<Rightarrow> re_state \<Rightarrow> re_state list" where
  "re_matches (Chars p lo hi greedy) st =
     (let ks = [lo..<Suc (run_len p hi (fst (snd st)))]
      in map (\<lambda>k. re_advance k st) (if greedy then rev ks else ks))"
| "re_matches (Seq a b) st = concat (map (re_matches b) (re_matches a st))"
| "re_matches (Alt a b) st = re_matches a st @ re_matches b st"
| "re_matches (Group i a) st =
     map (\<lambda>(prev, s, caps). (prev, s, (i, take (length (fst (snd st)) - length s) (fst (snd st))) # caps)) (re_matches a st)"
| "re_matches Bol st = (if fst st = None \<or> fst st = Some (CHR 0x0A) then [st] else [])"

text \<open>The leftmost match: its offset and the state after it.\<close>

fun find_re :: "re \<Rightarrow> char option \<Rightarrow> string \<Rightarrow> (nat \<times> re_state) option" where
  "find_re r prev s =
     (case re_matches r (prev, s, []) of
        st # _ \<Rightarrow> Some (0, st)
      | [] \<Rightarrow> (case s of [] \<Rightarrow> None | c # t \<Rightarrow> map_option (\<lambda>(i, st). (Suc i, st)) (find_re r (Some c) t)))"

declare find_re.simps [simp del]

definition found_text :: "string \<Rightarrow> nat \<times> re_state \<Rightarrow> string" where
  "found_text s = (\<lambda>(i, _, rest, _). take (length s - i - length rest) (drop i s))"

definition re_group :: "nat \<Rightarrow> (nat \<times> string) list \<Rightarrow> string" where
  "re_group i caps = (case map_of caps i of Some g \<Rightarrow> g | None \<Rightarrow> [])"

definition FindString :: "re \<Rightarrow> string \<Rightarrow> string" where
  "FindString r s = (case find_re r None s of Some f \<Rightarrow> found_text s f | None \<Rightarrow> [])"

text \<open>Group 1 of the leftmost match.\<close>

definition FindSubmatch :: "re \<Rightarrow> string \<Rightarrow> string option" where
  "FindSubmatch r s = map_option (\<lambda>(_, _, _, caps). re_group 1 caps) (find_re r None s)"

section \<open>Matches are parts of the text\<close>

lemma advance_drop: "fst (snd (re_advance n (prev, s, caps))) = drop n s" "snd (snd (re_advance n (prev, s, caps))) = caps"
  by (induction n "(prev, s, caps)" arbitrary: prev s rule: re_advance.induct) simp_all

lemma run_len_le: "run_len p hi s \<le> length s"
  using length_takeWhile_le [of p s] by (auto simp: run_len_def Let_def split: option.split)

lemma run_len_class: "c \<in> set (take (run_len p hi s) s) \<Longrightarrow> p c"
proof -
  have "run_len p hi s \<le> length (takeWhile p s)" by (simp add: run_len_def Let_def split: option.split)
  then have "take (run_len p hi s) s = take (run_len p hi s) (takeWhile p s)"
    using take_append [of "run_len p hi s" "takeWhile p s" "dropWhile p s"] by simp
  then show "c \<in> set (take (run_len p hi s) s) \<Longrightarrow> p c" by (metis in_set_takeD set_takeWhileD)
qed

lemma matches_suffix:
  assumes "st' \<in> set (re_matches r st)" shows "\<exists>u. fst (snd st) = u @ fst (snd st')"
  using assms
proof (induction r arbitrary: st st')
  case (Chars p lo hi greedy)
  then obtain k where "st' = re_advance k st" by (auto simp: Let_def split: if_splits)
  then show ?case using advance_drop(1) [of k "fst st" "fst (snd st)" "snd (snd st)"] by (metis append_take_drop_id prod.collapse)
next
  case (Seq a b)
  then show ?case by (fastforce dest: Seq.IH)
next
  case (Group i a)
  then show ?case by (fastforce dest: Group.IH)
next
  case (Alt a b)
  then have "st' \<in> set (re_matches a st) \<or> st' \<in> set (re_matches b st)" by simp
  then show ?case using Alt.IH by blast
qed (auto split: if_splits)

lemma find_re_split:
  assumes "find_re r prev s = Some (i, prev', rest, caps)"
  shows "\<exists>u. s = take i s @ u @ rest \<and> i \<le> length s"
  using assms
proof (induction s arbitrary: i prev)
  case Nil
  then show ?case using matches_suffix [of _ r "(prev, [], [])"]
    by (subst (asm) find_re.simps) (fastforce split: list.splits)
next
  case (Cons c t)
  show ?case
  proof (cases "re_matches r (prev, c # t, [])")
    case Nil
    then obtain j where "find_re r (Some c) t = Some (j, prev', rest, caps)" "i = Suc j"
      using Cons.prems by (subst (asm) find_re.simps) auto
    then show ?thesis using Cons.IH by auto
  next
    case (Cons st sts)
    then show ?thesis using Cons.prems matches_suffix [of st r "(prev, c # t, [])"]
      by (subst (asm) find_re.simps) auto
  qed
qed

lemma find_re_rest: "find_re r prev s = Some (i, prev', rest, caps) \<Longrightarrow> length rest \<le> length s"
  using find_re_split by (metis append.assoc le_add2 length_append)

text \<open>All matches, one after the other, as their groups; an empty match, which no pattern of the code has, ends
  the search.\<close>

function FindAllSubmatch :: "re \<Rightarrow> char option \<Rightarrow> string \<Rightarrow> (nat \<times> string) list list" where
  "FindAllSubmatch r prev s =
     (case find_re r prev s of
        None \<Rightarrow> []
      | Some (_, prev', rest, caps) \<Rightarrow> caps # (if length rest < length s then FindAllSubmatch r prev' rest else []))"
  by pat_completeness auto
termination by (relation "measure (\<lambda>(_, _, s). length s)") auto

declare FindAllSubmatch.simps [simp del]

definition FindAll :: "re \<Rightarrow> string \<Rightarrow> string list" where
  "FindAll r s = map (re_group 1) (FindAllSubmatch r None s)"

text \<open>\<open>ReplaceAll\<close>, with the replacement as a function of the groups.\<close>

function ReplaceAll :: "re \<Rightarrow> ((nat \<times> string) list \<Rightarrow> string) \<Rightarrow> char option \<Rightarrow> string \<Rightarrow> string" where
  "ReplaceAll r f prev s =
     (case find_re r prev s of
        None \<Rightarrow> s
      | Some (i, prev', rest, caps) \<Rightarrow>
        take i s @ f caps @ (if length rest < length s then ReplaceAll r f prev' rest else rest))"
  by pat_completeness auto
termination by (relation "measure (\<lambda>(_, _, _, s). length s)") auto

declare ReplaceAll.simps [simp del]

section \<open>Building blocks\<close>

abbreviation re1 :: "(char \<Rightarrow> bool) \<Rightarrow> re" where "re1 p \<equiv> Chars p 1 (Some 1) True"

fun re_lit :: "string \<Rightarrow> re" where
  "re_lit [] = Chars (\<lambda>_. False) 0 None True"
| "re_lit [c] = re1 ((=) c)"
| "re_lit (c # s) = Seq (re1 ((=) c)) (re_lit s)"

fun re_seqs :: "re list \<Rightarrow> re" where
  "re_seqs [] = re_lit []"
| "re_seqs [r] = r"
| "re_seqs (r # rs) = Seq r (re_seqs rs)"

fun re_alts :: "re list \<Rightarrow> re" where
  "re_alts [] = Chars (\<lambda>_. False) 1 None True"
| "re_alts [r] = r"
| "re_alts (r # rs) = Alt r (re_alts rs)"

text \<open>A letter under the flag \<open>i\<close>: besides its two cases, \<open>s\<close> also stands for U+017F and \<open>k\<close> for U+212A.\<close>

definition fold_char :: "char \<Rightarrow> re" where
  "fold_char c =
     (let same = re1 (\<lambda>d. lower_char d = lower_char c) in
      if lower_char c = CHR ''s'' then Alt same (re_lit [char_of (197::nat), char_of (191::nat)])
      else if lower_char c = CHR ''k'' then Alt same (re_lit [char_of (226::nat), char_of (132::nat), char_of (170::nat)])
      else same)"

definition re_ilit :: "string \<Rightarrow> re" where
  "re_ilit s = re_seqs (map fold_char s)"

definition re_blank :: "char \<Rightarrow> bool" where
  "re_blank c = (c \<in> {CHR '' '', CHR 0x09, CHR 0x0A, CHR 0x0C, CHR 0x0D})"

abbreviation re_star :: "(char \<Rightarrow> bool) \<Rightarrow> re" where "re_star p \<equiv> Chars p 0 None True"
abbreviation re_plus :: "(char \<Rightarrow> bool) \<Rightarrow> re" where "re_plus p \<equiv> Chars p 1 None True"
abbreviation re_lazy :: "(char \<Rightarrow> bool) \<Rightarrow> re" where "re_lazy p \<equiv> Chars p 0 None False"

lemma find_re_none: "find_re r prev s = None \<Longrightarrow> re_matches r (prev, s, []) = []"
  by (subst (asm) find_re.simps) (auto split: list.splits)

text \<open>The search finds the leftmost match: nothing matches at a smaller offset.\<close>

lemma find_re_leftmost:
  assumes "find_re r prev s = Some (i, st)" "j < i"
  shows "re_matches r (fst (re_advance j (prev, s, [])), drop j s, []) = []"
  using assms
proof (induction j arbitrary: i prev s)
  case 0
  then show ?case by (subst (asm) find_re.simps) (auto split: list.splits)
next
  case (Suc j)
  then have "re_matches r (prev, s, []) = []" by (subst (asm) find_re.simps) (auto split: list.splits)
  then obtain c t k where "s = c # t" "find_re r (Some c) t = Some (k, st)" "i = Suc k"
    using Suc.prems by (subst (asm) find_re.simps) (auto split: list.splits)
  then show ?case using Suc.IH Suc.prems(2) by simp
qed

section \<open>Characters of a match\<close>

text \<open>When every class of a pattern lies in \<open>P\<close>, so does what it matches, and what its groups hold.\<close>

primrec re_within :: "(char \<Rightarrow> bool) \<Rightarrow> re \<Rightarrow> bool" where
  "re_within P (Chars p lo hi greedy) = (\<forall>c. p c \<longrightarrow> P c)"
| "re_within P (Seq a b) = (re_within P a \<and> re_within P b)"
| "re_within P (Alt a b) = (re_within P a \<and> re_within P b)"
| "re_within P (Group i a) = re_within P a"
| "re_within P Bol = True"

lemma matches_within:
  assumes "st' \<in> set (re_matches r st)" "re_within P r"
  shows "\<exists>u. fst (snd st) = u @ fst (snd st') \<and> list_all P u"
  using assms
proof (induction r arbitrary: st st')
  case (Chars p lo hi greedy)
  then obtain k where k: "st' = re_advance k st" "k \<le> run_len p hi (fst (snd st))" by (auto simp: Let_def split: if_splits)
  then have "fst (snd st') = drop k (fst (snd st))"
    using advance_drop(1) [of k "fst st" "fst (snd st)" "snd (snd st)"] by simp
  moreover have "list_all P (take k (fst (snd st)))"
    unfolding list_all_iff
  proof
    fix c assume "c \<in> set (take k (fst (snd st)))"
    then have "c \<in> set (take (run_len p hi (fst (snd st))) (fst (snd st)))" using set_take_subset_set_take [OF k(2), of "fst (snd st)"] by (meson subsetD)
    then have "p c" by (rule run_len_class)
    then show "P c" using Chars.prems(2) by simp
  qed
  ultimately show ?case by (intro exI [of _ "take k (fst (snd st))"]) simp
next
  case (Seq a b)
  from Seq.prems(1) obtain s1 where "s1 \<in> set (re_matches a st)" "st' \<in> set (re_matches b s1)" by auto
  with Seq.IH Seq.prems(2) obtain u v where "fst (snd st) = u @ fst (snd s1)" "list_all P u" "fst (snd s1) = v @ fst (snd st')" "list_all P v"
    by (metis re_within.simps(2))
  then show ?case by (intro exI [of _ "u @ v"]) simp
next
  case (Alt a b)
  then have "st' \<in> set (re_matches a st) \<or> st' \<in> set (re_matches b st)" by simp
  then show ?case using Alt by (metis re_within.simps(3))
next
  case (Group i a)
  then obtain st1 where "st1 \<in> set (re_matches a st)" "fst (snd st') = fst (snd st1)" by (auto simp: image_iff)
  then show ?case using Group.IH Group.prems(2) by simp
qed (auto split: if_splits)

text \<open>The groups of a pattern hold text in \<open>P\<close> when their own patterns do.\<close>

primrec groups_within :: "(char \<Rightarrow> bool) \<Rightarrow> re \<Rightarrow> bool" where
  "groups_within P (Chars p lo hi greedy) = True"
| "groups_within P (Seq a b) = (groups_within P a \<and> groups_within P b)"
| "groups_within P (Alt a b) = (groups_within P a \<and> groups_within P b)"
| "groups_within P (Group i a) = (re_within P a \<and> groups_within P a)"
| "groups_within P Bol = True"

lemma matches_groups:
  assumes "(prev', s', caps') \<in> set (re_matches r (prev, s, caps))" "groups_within P r" "list_all (\<lambda>(_, g). list_all P g) caps"
  shows "list_all (\<lambda>(_, g). list_all P g) caps'"
  using assms
proof (induction r arbitrary: prev s caps prev' s' caps')
  case (Chars p lo hi greedy)
  then obtain k where "(prev', s', caps') = re_advance k (prev, s, caps)" by (auto simp: Let_def split: if_splits)
  then have "caps' = caps" using advance_drop(2) [of k prev s caps] by (metis snd_conv)
  then show ?case using Chars.prems(3) by simp
next
  case (Seq a b)
  from Seq.prems(1) obtain p1 s1 c1 where "(p1, s1, c1) \<in> set (re_matches a (prev, s, caps))"
    "(prev', s', caps') \<in> set (re_matches b (p1, s1, c1))" by auto
  then show ?case using Seq.IH(1) [of p1 s1 c1] Seq.IH(2) [of prev' s' caps' p1 s1 c1] Seq.prems(2,3) by auto
next
  case (Alt a b)
  then have "(prev', s', caps') \<in> set (re_matches a (prev, s, caps)) \<or> (prev', s', caps') \<in> set (re_matches b (prev, s, caps))" by simp
  then show ?case using Alt.IH Alt.prems(2,3) by (metis groups_within.simps(3))
next
  case (Group i a)
  then obtain c where c: "(prev', s', c) \<in> set (re_matches a (prev, s, caps))" "caps' = (i, take (length s - length s') s) # c" by auto
  then have "list_all (\<lambda>(_, g). list_all P g) c" using Group.IH Group.prems(2,3) by auto
  moreover obtain u where "s = u @ s'" "list_all P u" using matches_within [OF c(1)] Group.prems(2) by auto
  ultimately show ?case using c(2) by simp
qed (auto split: if_splits)

lemma find_re_matches:
  assumes "find_re r prev s = Some (i, prev', rest, caps)"
  shows "\<exists>p t. (prev', rest, caps) \<in> set (re_matches r (p, t, []))"
  using assms
proof (induction s arbitrary: prev i)
  case Nil
  then have "hd (re_matches r (prev, [], [])) = (prev', rest, caps) \<and> re_matches r (prev, [], []) \<noteq> []"
    by (subst (asm) find_re.simps) (auto split: list.splits)
  then show ?case by (metis hd_in_set)
next
  case (Cons c s)
  show ?case
  proof (cases "re_matches r (prev, c # s, [])")
    case Nil
    then obtain j where "find_re r (Some c) s = Some (j, prev', rest, caps)"
      using Cons.prems by (subst (asm) find_re.simps) auto
    then show ?thesis by (rule Cons.IH)
  next
    case (Cons st sts)
    then have "st = (prev', rest, caps)" using Cons.prems by (subst (asm) find_re.simps) auto
    then show ?thesis using Cons by (metis list.set_intros(1))
  qed
qed

lemma FindAllSubmatch_groups:
  assumes "groups_within P r" "caps \<in> set (FindAllSubmatch r prev s)"
  shows "list_all (\<lambda>(_, g). list_all P g) caps"
  using assms
proof (induction r prev s rule: FindAllSubmatch.induct)
  case (1 r prev s)
  show ?case
  proof (cases "find_re r prev s")
    case None
    then show ?thesis using 1(3) FindAllSubmatch.simps [of r prev s] by simp
  next
    case (Some f)
    obtain i p rest c0 where f: "f = (i, p, rest, c0)" by (cases f)
    obtain q t where "(p, rest, c0) \<in> set (re_matches r (q, t, []))" using find_re_matches Some f by blast
    then have c0: "list_all (\<lambda>(_, g). list_all P g) c0" using matches_groups [of p rest c0 r q t "[]"] 1(2) by simp
    have "caps = c0 \<or> (length rest < length s \<and> caps \<in> set (FindAllSubmatch r p rest))"
      using 1(3) Some f FindAllSubmatch.simps [of r prev s] by (auto split: if_splits)
    then show ?thesis using 1(1) [OF Some f [symmetric] refl refl] 1(2) c0 by blast
  qed
qed

lemma FindAll_within: "groups_within P r \<Longrightarrow> g \<in> set (FindAll r s) \<Longrightarrow> list_all P g"
  using FindAllSubmatch_groups [of P r _ None s]
  by (fastforce simp: FindAll_def re_group_def list_all_iff dest: map_of_SomeD split: option.splits)
end
