(* ===== verification/Paths.thy ===== *)
theory Paths
  imports Prelude
begin

text \<open>
  Slash-separated paths (\<open>path/filepath\<close> of Go on Unix) and the files of a directory tree: \<open>path_clean\<close> is \<open>Clean\<close>,
  \<open>path_join\<close> joins two elements, \<open>disk\<close> maps the cleaned path of a file to its bytes. Lemmas: a plain name joined to a
  directory is an entry of that directory.
\<close>

fun clean_step :: "bool \<Rightarrow> string \<Rightarrow> string list \<Rightarrow> string list" where
  "clean_step rooted e up =
     (if e = [] \<or> e = ''.'' then up
      else if e = ''..'' then
        (case up of
           [] \<Rightarrow> if rooted then [] else [e]
         | x # xs \<Rightarrow> if x = ''..'' then e # up else xs)
      else e # up)"

text \<open>The elements of a cleaned path, the last one first.\<close>

definition path_elems :: "string \<Rightarrow> string list" where
  "path_elems p = fold (clean_step (has_prefix p ''/'')) (split_on (CHR ''/'') p) []"

definition path_clean :: "string \<Rightarrow> string" where
  "path_clean p =
     (let es = rev (path_elems p) in
      if has_prefix p ''/'' then ''/'' @ join ''/'' es else if es = [] then ''.'' else join ''/'' es)"

definition path_join :: "string \<Rightarrow> string \<Rightarrow> string" where
  "path_join a b = (if a \<noteq> [] then path_clean (a @ ''/'' @ b) else if b \<noteq> [] then path_clean b else [])"

definition path_dir :: "string \<Rightarrow> string" where
  "path_dir p = path_clean (rev (dropWhile (\<lambda>c. c \<noteq> CHR ''/'') (rev p)))"

text \<open>\<open>Base\<close>.\<close>

definition path_base :: "string \<Rightarrow> string" where
  "path_base p =
     (if p = [] then ''.''
      else
        let q = rev (dropWhile (\<lambda>c. c = CHR ''/'') (rev p)); b = rev (takeWhile (\<lambda>c. c \<noteq> CHR ''/'') (rev q))
        in if b = [] then ''/'' else b)"

text \<open>The files of the machine. An operation on a path in \<open>dk_fault\<close> fails with an I/O error; a write to a path of
  \<open>dk_torn\<close> fails after the file was opened, and leaves the bytes that the function gives for those to be written.\<close>

record disk =
  dk_files :: "string \<Rightarrow> string option"
  dk_fault :: "string \<Rightarrow> bool"
  dk_torn :: "string \<Rightarrow> (string \<Rightarrow> string) option"

datatype 'a read_result = Content 'a | NotExist | ReadFault

definition read_file :: "disk \<Rightarrow> string \<Rightarrow> string read_result" where
  "read_file k p =
     (if dk_fault k p then ReadFault else case dk_files k p of Some b \<Rightarrow> Content b | None \<Rightarrow> NotExist)"

text \<open>\<open>Stat\<close> without an error.\<close>

definition file_exists :: "disk \<Rightarrow> string \<Rightarrow> bool" where
  "file_exists k p = (\<not> dk_fault k p \<and> dk_files k p \<noteq> None)"

text \<open>\<open>os.WriteFile\<close>: without an error, and what is there afterwards.\<close>

definition write_file :: "string \<Rightarrow> string \<Rightarrow> disk \<Rightarrow> bool \<times> disk" where
  "write_file p b k =
     (if dk_fault k p then (False, k)
      else case dk_torn k p of
        None \<Rightarrow> (True, k\<lparr>dk_files := (dk_files k)(p \<mapsto> b)\<rparr>)
      | Some left \<Rightarrow> (False, k\<lparr>dk_files := (dk_files k)(p \<mapsto> left b)\<rparr>))"

section \<open>Names\<close>

definition plain_name :: "string \<Rightarrow> bool" where
  "plain_name n = (n \<noteq> [] \<and> n \<noteq> ''.'' \<and> n \<noteq> ''..'' \<and> CHR ''/'' \<notin> set n)"

lemma split_on_sep: "split_on c (a @ c # b) = split_on c a @ split_on c b"
proof (induction a)
  case (Cons x a)
  then show ?case by (cases "split_on c a") auto
qed simp

lemma split_on_plain: "c \<notin> set n \<Longrightarrow> split_on c n = [n]"
  by (induction n) auto

lemma path_elems_join:
  assumes "d \<noteq> []" "plain_name n"
  shows "path_elems (d @ ''/'' @ n) = n # path_elems d" "has_prefix (d @ ''/'' @ n) ''/'' = has_prefix d ''/''"
proof -
  show p: "has_prefix (d @ ''/'' @ n) ''/'' = has_prefix d ''/''" using assms(1) by (cases d) (simp_all add: has_prefix_iff)
  have "split_on (CHR ''/'') (d @ ''/'' @ n) = split_on (CHR ''/'') d @ [n]"
    using assms(2) split_on_sep [of "CHR ''/''" d n] split_on_plain [of "CHR ''/''" n] by (simp add: plain_name_def)
  then show "path_elems (d @ ''/'' @ n) = n # path_elems d"
    using assms(2) p by (simp add: path_elems_def plain_name_def)
qed

lemma path_join_plain:
  assumes "d \<noteq> []" "plain_name n" "path_elems d \<noteq> []"
  shows "path_join d n = path_clean d @ ''/'' @ n"
proof -
  have "join ''/'' (es @ [n]) = join ''/'' es @ ''/'' @ n" if "es \<noteq> []" for es
    using that by (induction es rule: join.induct [of _ "''/''"]) auto
  then show ?thesis
    using path_elems_join [OF assms(1,2)] assms by (simp add: path_join_def path_clean_def Let_def)
qed

text \<open>\<open>filepath.Base\<close> leaves a name alone just when it is plain, a dot or two.\<close>

lemma path_base_plain: "CHR ''/'' \<notin> set n \<Longrightarrow> n \<noteq> [] \<Longrightarrow> path_base n = n"
proof -
  assume n: "CHR ''/'' \<notin> set n" "n \<noteq> []"
  then have "dropWhile (\<lambda>c. c = CHR ''/'') (rev n) = rev n"
    by (cases "rev n") (auto simp: dropWhile_eq_self_iff)
  moreover have "takeWhile (\<lambda>c. c \<noteq> CHR ''/'') (rev n) = rev n"
    unfolding takeWhile_eq_all_conv using n(1) by auto
  ultimately show ?thesis using n(2) by (simp add: path_base_def Let_def del: takeWhile_eq_all_conv)
qed

lemma path_base_no_slash:
  assumes "path_base n = n" "n \<noteq> ''/''" shows "CHR ''/'' \<notin> set n"
proof -
  let ?b = "rev (takeWhile (\<lambda>c. c \<noteq> CHR ''/'') (rev (rev (dropWhile (\<lambda>c. c = CHR ''/'') (rev n)))))"
  have "CHR ''/'' \<notin> set ?b" by (auto dest: set_takeWhileD)
  moreover have "n = (if n = [] then ''.'' else if ?b = [] then ''/'' else ?b)"
    using assms(1) unfolding path_base_def Let_def by metis
  ultimately show ?thesis using assms(2) by (metis empty_iff empty_set)
qed

end
