(* ===== verification/ConnStr.thy ===== *)
theory ConnStr
  imports Mentions
begin

text \<open>
  Connection strings (\<open>internal/irc/connstr/connstr.go\<close>): the invite that defines a network. \<open>url_parse\<close> is
  \<open>url.Parse\<close> of Go 1.25.0, which the module names, on what the parser reads of it: scheme, password, host, path,
  query and fragment. An opaque URL (no \<open>//\<close> after the scheme) has none of them but the query and the fragment.
\<close>

section \<open>net/url\<close>

definition hex_val :: "char \<Rightarrow> nat option" where
  "hex_val c =
     (let n = of_char c :: nat in
      if 48 \<le> n \<and> n \<le> 57 then Some (n - 48)
      else if 97 \<le> n \<and> n \<le> 102 then Some (n - 87)
      else if 65 \<le> n \<and> n \<le> 70 then Some (n - 55)
      else None)"

text \<open>\<open>unescape\<close>: the bytes that an escape may stand for and the bytes that may stand for themselves depend on the
  part of the URL.\<close>

fun unescape :: "(nat \<Rightarrow> bool) \<Rightarrow> (char \<Rightarrow> bool) \<Rightarrow> string \<Rightarrow> string option" where
  "unescape esc raw [] = Some []"
| "unescape esc raw (c # s) =
     (if c = CHR ''%'' then
        (case s of
           a # b # r \<Rightarrow>
             (case (hex_val a, hex_val b) of
                (Some h, Some l) \<Rightarrow>
                  if esc (16 * h + l) then map_option ((#) (char_of (16 * h + l))) (unescape esc raw r) else None
              | _ \<Rightarrow> None)
         | _ \<Rightarrow> None)
      else if raw c then map_option ((#) c) (unescape esc raw s) else None)"

definition pct_decode :: "string \<Rightarrow> string option" where
  "pct_decode = unescape (\<lambda>_. True) (\<lambda>_. True)"

definition is_alpha :: "char \<Rightarrow> bool" where
  "is_alpha c = (let n = of_char c :: nat in (97 \<le> n \<and> n \<le> 122) \<or> (65 \<le> n \<and> n \<le> 90))"

definition host_char :: "char \<Rightarrow> bool" where
  "host_char c = (is_alpha c \<or> is_digit c \<or> (of_char c :: nat) \<ge> 128 \<or> c \<in> set ''!$&()*+,;=:[]<>-_.~'' \<or> c = CHR 0x22 \<or> c = CHR 0x27)"

definition host_decode :: "string \<Rightarrow> string option" where
  "host_decode = unescape (\<lambda>n. n \<ge> 128 \<or> n = 37) host_char"

definition zone_decode :: "string \<Rightarrow> string option" where
  "zone_decode = unescape (\<lambda>n. n = 37 \<or> n = 32 \<or> (n < 128 \<and> host_char (char_of n))) host_char"

fun scheme_len :: "nat \<Rightarrow> string \<Rightarrow> nat option" where
  "scheme_len i [] = None"
| "scheme_len i (c # s) =
     (if is_alpha c then scheme_len (i + 1) s
      else if is_digit c \<or> c \<in> set ''+-.'' then (if i = 0 then None else scheme_len (i + 1) s)
      else if c = CHR '':'' then Some i else None)"

text \<open>\<open>getScheme\<close>: None when the scheme is missing before a colon.\<close>

definition get_scheme :: "string \<Rightarrow> (string \<times> string) option" where
  "get_scheme s =
     (case scheme_len 0 s of
        None \<Rightarrow> Some ([], s)
      | Some i \<Rightarrow> if i = 0 then None else Some (take i s, drop (i + 1) s))"

definition valid_port :: "string \<Rightarrow> bool" where
  "valid_port p = (case p of [] \<Rightarrow> True | c # ds \<Rightarrow> c = CHR '':'' \<and> list_all is_digit ds)"

text \<open>\<open>LastIndex\<close> of a byte.\<close>

definition last_index_byte :: "string \<Rightarrow> char \<Rightarrow> nat option" where
  "last_index_byte s c = map_option (\<lambda>i. length s - 1 - i) (index_byte (rev s) c)"

definition cut_byte :: "string \<Rightarrow> char \<Rightarrow> string \<times> string" where
  "cut_byte s c = (case index_byte s c of Some i \<Rightarrow> (take i s, drop (i + 1) s) | None \<Rightarrow> (s, []))"

fun find_sub :: "string \<Rightarrow> string \<Rightarrow> nat option" where
  "find_sub [] p = (if p = [] then Some 0 else None)"
| "find_sub (c # s) p = (if has_prefix (c # s) p then Some 0 else map_option Suc (find_sub s p))"

definition parse_host :: "string \<Rightarrow> string option" where
  "parse_host host =
     (if has_prefix host ''['' then
        (case last_index_byte host (CHR '']'') of
           None \<Rightarrow> None
         | Some i \<Rightarrow>
           if \<not> valid_port (drop (i + 1) host) then None
           else case find_sub (take i host) ''%25'' of
             Some z \<Rightarrow>
               (case (host_decode (take z host), zone_decode (drop z (take i host)), host_decode (drop i host)) of
                  (Some a, Some b, Some e) \<Rightarrow> Some (a @ b @ e)
                | _ \<Rightarrow> None)
           | None \<Rightarrow> host_decode host)
      else
        (case last_index_byte host (CHR '':'') of
           Some i \<Rightarrow> if valid_port (drop i host) then host_decode host else None
         | None \<Rightarrow> host_decode host))"

definition userinfo_char :: "char \<Rightarrow> bool" where
  "userinfo_char c = (is_alpha c \<or> is_digit c \<or> c \<in> set ''-._:~!$&()*+,;=%@'' \<or> c = CHR 0x27)"

text \<open>\<open>parseAuthority\<close>: the password, when the user information has one, and the host with its port.\<close>

definition parse_authority :: "string \<Rightarrow> (string option \<times> string) option" where
  "parse_authority a =
     (case last_index_byte a (CHR ''@'') of
        None \<Rightarrow> map_option (Pair None) (parse_host a)
      | Some i \<Rightarrow>
        (case parse_host (drop (i + 1) a) of
           None \<Rightarrow> None
         | Some host \<Rightarrow>
           let info = take i a in
           if \<not> list_all userinfo_char info then None
           else if index_byte info (CHR '':'') = None then map_option (\<lambda>_. (None, host)) (pct_decode info)
           else
             let (user, pass) = cut_byte info (CHR '':'') in
             (case (pct_decode user, pct_decode pass) of
                (Some _, Some pw) \<Rightarrow> Some (Some pw, host)
              | _ \<Rightarrow> None)))"

record URL =
  url_Scheme :: string
  url_Password :: "string option"
  url_Host :: string
  url_Path :: string
  url_RawQuery :: string
  url_Fragment :: string

definition no_query :: "string \<Rightarrow> string \<times> string" where
  "no_query rest =
     (if has_suffix rest ''?'' \<and> length (filter (\<lambda>c. c = CHR ''?'') rest) = 1 then (butlast rest, [])
      else cut_byte rest (CHR ''?''))"

definition url_body :: "string \<Rightarrow> URL option" where
  "url_body s =
     (if list_ex (\<lambda>c. (of_char c :: nat) < 32 \<or> (of_char c :: nat) = 127) s then None
      else if s = ''*'' then
        Some \<lparr>url_Scheme = [], url_Password = None, url_Host = [], url_Path = ''*'', url_RawQuery = [], url_Fragment = []\<rparr>
      else case get_scheme s of
        None \<Rightarrow> None
      | Some (scheme, rest) \<Rightarrow>
        let scheme = to_lower scheme; (rest, query) = no_query rest;
            u = \<lparr>url_Scheme = scheme, url_Password = None, url_Host = [], url_Path = [], url_RawQuery = query, url_Fragment = []\<rparr>
        in if \<not> has_prefix rest ''/'' \<and> scheme \<noteq> [] then Some u
           else if \<not> has_prefix rest ''/'' \<and> CHR '':'' \<in> set (fst (cut_byte rest (CHR ''/''))) then None
           else if (scheme \<noteq> [] \<or> \<not> has_prefix rest ''///'') \<and> has_prefix rest ''//'' then
             (let authority = drop 2 rest;
                  (authority, path) = (case index_byte authority (CHR ''/'') of
                     Some i \<Rightarrow> (take i authority, drop i authority) | None \<Rightarrow> (authority, []))
              in case (parse_authority authority, pct_decode path) of
                   (Some (pw, host), Some p) \<Rightarrow> Some (u\<lparr>url_Password := pw, url_Host := host, url_Path := p\<rparr>)
                 | _ \<Rightarrow> None)
           else map_option (\<lambda>p. u\<lparr>url_Path := p\<rparr>) (pct_decode rest))"

definition url_parse :: "string \<Rightarrow> URL option" where
  "url_parse s =
     (let (body, frag) = cut_byte s (CHR ''#'') in
      case url_body body of
        None \<Rightarrow> None
      | Some u \<Rightarrow> if frag = [] then Some u else map_option (\<lambda>f. u\<lparr>url_Fragment := f\<rparr>) (pct_decode frag))"

text \<open>\<open>Hostname\<close> and \<open>Port\<close>.\<close>

definition split_host_port :: "string \<Rightarrow> string \<times> string" where
  "split_host_port hp =
     (let (host, port) = (case last_index_byte hp (CHR '':'') of
            Some i \<Rightarrow> if valid_port (drop i hp) then (take i hp, drop (i + 1) hp) else (hp, [])
          | None \<Rightarrow> (hp, []))
      in (if has_prefix host ''['' \<and> has_suffix host '']'' then butlast (tl host) else host, port))"

section \<open>Connection strings\<close>

datatype cs_err = ErrInvalid | ErrNoHost | ErrBadPort | ErrBadChannel | ErrBadNick

record Conn =
  cs_Host :: string
  cs_Port :: int
  cs_TLS :: bool
  cs_Name :: string
  cs_Password :: string
  cs_Channels :: "string list"
  cs_Nick :: string
  cs_ChannelKeys :: "(string \<times> string) list"
  cs_SASLUser :: string
  cs_SASLPass :: string

definition nickRe :: "string \<Rightarrow> bool" where
  "nickRe s =
     (list_all (\<lambda>c. is_alpha c \<or> is_digit c \<or> c \<in> set ''_-[]^{}|'' \<or> c = CHR 0x5C \<or> c = CHR 0x60) s
      \<and> 1 \<le> length s \<and> length s \<le> 32)"

definition unescapeLoose :: "string \<Rightarrow> string" where
  "unescapeLoose s = (case pct_decode s of Some u \<Rightarrow> u | None \<Rightarrow> s)"

definition knownQueryKeys :: "string list" where
  "knownQueryKeys = [''name'', ''nick'', ''tls'', ''port'', ''sasl'']"

definition query_seg :: "string \<Rightarrow> string \<times> (string \<times> string) list \<Rightarrow> string \<times> (string \<times> string) list" where
  "query_seg seg = (\<lambda>(lastKey, out).
     let (k, v) = cut_byte seg (CHR ''='') in
     if CHR ''='' \<in> set seg \<and> to_lower k \<in> set knownQueryKeys
     then (to_lower k, AList.update (to_lower k) (unescapeLoose v) out)
     else if lastKey \<noteq> [] then
       (lastKey, AList.update lastKey
          ((case map_of out lastKey of Some x \<Rightarrow> x | None \<Rightarrow> []) @ ''&'' @ unescapeLoose seg) out)
     else (lastKey, out))"

definition parseQueryTolerant :: "string \<Rightarrow> (string \<times> string) list" where
  "parseQueryTolerant raw = snd (fold query_seg (split_on (CHR ''&'') raw) ([], []))"

text \<open>A hash sign behind an open query belongs to the last value, unless a query of its own follows it.\<close>

definition fold_hash :: "string \<Rightarrow> string" where
  "fold_hash raw =
     (case index_byte raw (CHR ''?'') of
        None \<Rightarrow> raw
      | Some q \<Rightarrow>
        (case index_byte (drop (q + 1) raw) (CHR ''#'') of
           None \<Rightarrow> raw
         | Some h0 \<Rightarrow>
           let h = h0 + q + 1 in
           if CHR ''?'' \<in> set (drop (h + 1) raw) then raw
           else take h raw @ concat (map (\<lambda>c. if c = CHR ''#'' then ''%23'' else [c]) (drop h raw))))"

definition atoi_port :: "string \<Rightarrow> cs_err + int" where
  "atoi_port p =
     (case parse_int64 p of
        Inl _ \<Rightarrow> Inl ErrBadPort
      | Inr port \<Rightarrow> if port < 1 \<or> port > 65535 then Inl ErrBadPort else Inr port)"

definition url_conn :: "URL \<Rightarrow> cs_err + Conn" where
  "url_conn u =
     (let (hostname, p) = split_host_port (url_Host u); tls = (url_Scheme u = ''ircs'') in
      if url_Scheme u \<noteq> ''irc'' \<and> url_Scheme u \<noteq> ''ircs'' then Inl ErrInvalid
      else if hostname = [] then Inl ErrNoHost
      else
        tryb (if p \<noteq> [] then atoi_port p else Inr (if tls then 6697 else 6667)) (\<lambda>port.
        Inr \<lparr>cs_Host = hostname, cs_Port = port, cs_TLS = tls, cs_Name = [],
              cs_Password = (case url_Password u of Some pw \<Rightarrow> pw | None \<Rightarrow> []), cs_Channels = [], cs_Nick = [],
              cs_ChannelKeys = [], cs_SASLUser = [], cs_SASLPass = []\<rparr>))"

text \<open>The channel list and the query that trails it in the fragment.\<close>

definition channel_source :: "URL \<Rightarrow> string \<times> string" where
  "channel_source u =
     (if url_Fragment u \<noteq> [] then
        (let (frag, params) = cut_byte (url_Fragment u) (CHR ''?'') in (''#'' @ frag, params))
      else (trim_prefix (url_Path u) ''/'', []))"

fun add_channels :: "string list \<Rightarrow> Conn \<Rightarrow> cs_err + Conn" where
  "add_channels [] c = Inr c"
| "add_channels (ch # chs) c =
     (let ch = trim_space ch in
      if ch = [] then add_channels chs c
      else
        let (ch, key) = cut_byte ch (CHR '':'') in
        if \<not> has_prefix ch ''#'' \<and> \<not> has_prefix ch ''&'' then Inl ErrBadChannel
        else
          let c = c\<lparr>cs_Channels := cs_Channels c @ [ch]\<rparr>;
              c = (if key \<noteq> [] then c\<lparr>cs_ChannelKeys := AList.update (to_lower ch) key (cs_ChannelKeys c)\<rparr> else c)
          in add_channels chs c)"

definition query_of :: "(string \<times> string) list \<Rightarrow> string \<Rightarrow> string" where
  "query_of q k = (case map_of q k of Some v \<Rightarrow> v | None \<Rightarrow> [])"

text \<open>The parameters of the query, where those of the fragment fill in what the URL's own query leaves out.\<close>

definition conn_params :: "(string \<Rightarrow> string) \<Rightarrow> Conn \<Rightarrow> cs_err + Conn" where
  "conn_params q c =
     (let c = (if q ''name'' \<noteq> [] then c\<lparr>cs_Name := q ''name''\<rparr> else c) in
      if q ''nick'' \<noteq> [] \<and> \<not> nickRe (q ''nick'') then Inl ErrBadNick
      else
        let c = (if q ''nick'' \<noteq> [] then c\<lparr>cs_Nick := q ''nick''\<rparr> else c);
            c = (if q ''tls'' = ''1'' \<or> q ''tls'' = ''true'' then c\<lparr>cs_TLS := True\<rparr> else c) in
        tryb (if q ''port'' \<noteq> [] then atoi_port (q ''port'') else Inr (cs_Port c)) (\<lambda>port.
        let c = c\<lparr>cs_Port := port\<rparr>; sasl = q ''sasl'' in
        if sasl = [] then Inr c
        else case index_byte sasl (CHR '':'') of
          Some i \<Rightarrow> if i > 0 then Inr (c\<lparr>cs_SASLUser := take i sasl, cs_SASLPass := drop (i + 1) sasl\<rparr>) else Inl ErrInvalid
        | None \<Rightarrow> Inl ErrInvalid))"

definition Parse :: "string \<Rightarrow> cs_err + Conn" where
  "Parse raw =
     (let raw = trim_space raw in
      if raw = [] then Inl ErrInvalid
      else
        let raw = (if has_infix raw ''://'' then raw else ''irc://'' @ raw) in
        case url_parse (fold_hash raw) of
          None \<Rightarrow> Inl ErrInvalid
        | Some u \<Rightarrow>
          tryb (url_conn u) (\<lambda>c.
          let (source, fragParams) = channel_source u in
          tryb (add_channels (split_on (CHR '','') source) c) (\<lambda>c.
          let q = parseQueryTolerant (url_RawQuery u);
              fq = (if fragParams \<noteq> [] then parseQueryTolerant fragParams else [])
          in conn_params (query_of (q @ fq)) c)))"

definition conn_ID :: "Conn \<Rightarrow> string" where
  "conn_ID c = (if cs_TLS c then ''ircs'' else ''irc'') @ ''://'' @ cs_Host c @ '':'' @ format_int (cs_Port c)"

definition DisplayName :: "Conn \<Rightarrow> string" where
  "DisplayName c = (if cs_Name c \<noteq> [] then cs_Name c else cs_Host c)"

end
