(* ===== verification/Unfurl.thy ===== *)
theory Unfurl
  imports Regex Paths ConnStr Utf8
begin

text \<open>
  The pages and images that a message links (\<open>linkpreview.go\<close>, \<open>embeds.go\<close>): \<open>fetchPage\<close> and \<open>fetchImage\<close> decide on an
  answer of the HTTP client, \<open>parsePreview\<close> reads title, description and image of a page. A slice out of range, which is a
  panic of the goroutine, is None. Lemmas: an ASCII page is always read and only its head counts; a page whose head holds
  enough bytes that are not UTF-8 makes \<open>parsePreview\<close> panic.
\<close>

text \<open>What the bouncer asks of the world: the lower case of a rune beyond ASCII and whether it is a letter or a digit, an
  HTTP GET (status, content type, the bytes that arrive within the read budget), content sniffing, the size of an image,
  the resolution of HTML entities and of relative URLs.\<close>

record env =
  e_uni :: "nat \<Rightarrow> bool"
  e_lower :: "nat \<Rightarrow> nat"
  e_get :: "string \<Rightarrow> (int \<times> string \<times> string) option"
  e_sniff :: "string \<Rightarrow> string"
  e_dims :: "string \<Rightarrow> (int \<times> int) option"
  e_unescape :: "string \<Rightarrow> string"
  e_resolve :: "string \<Rightarrow> string \<Rightarrow> string option"

section \<open>Fetching\<close>

definition maxPreviewPage :: nat where "maxPreviewPage = 2 ^ 20"
definition maxMirrorBytes :: nat where "maxMirrorBytes = 10 * 2 ^ 20"

definition fetchPage :: "env \<Rightarrow> string \<Rightarrow> string" where
  "fetchPage e u =
     (case e_get e u of
        None \<Rightarrow> []
      | Some (status, ct, body) \<Rightarrow>
        if status \<noteq> 200 then []
        else if ct \<noteq> [] \<and> \<not> has_infix ct ''html'' \<and> \<not> has_infix ct ''xml'' \<and> \<not> has_infix ct ''text/plain'' then []
        else take (maxPreviewPage + 1) body)"

definition fetchImage :: "env \<Rightarrow> string \<Rightarrow> (string \<times> string \<times> int \<times> int) option" where
  "fetchImage e u =
     (case e_get e u of
        None \<Rightarrow> None
      | Some (status, ct, body) \<Rightarrow>
        let data = take (maxMirrorBytes + 1) body; ct = (if ct = [] then e_sniff e data else ct) in
        if status \<noteq> 200 \<or> data = [] \<or> length data > maxMirrorBytes \<or> \<not> has_prefix ct ''image/'' then None
        else case e_dims e data of Some (w, h) \<Rightarrow> Some (data, ct, w, h) | None \<Rightarrow> Some (data, ct, 0, 0))"

definition hostOf :: "string \<Rightarrow> string" where
  "hostOf u = (case url_parse u of Some p \<Rightarrow> url_Host p | None \<Rightarrow> [])"

section \<open>Reading a page\<close>

definition is_quote :: "char \<Rightarrow> bool" where
  "is_quote c = (c = CHR 0x22 \<or> c = CHR 0x27)"

abbreviation not_gt :: "char \<Rightarrow> bool" where "not_gt \<equiv> \<lambda>c. c \<noteq> CHR ''>''"

definition contentRe :: re where
  "contentRe = re_seqs [re_ilit ''content'', re_star re_blank, re_lit ''='', re_star re_blank, re1 is_quote,
     Group 1 (re_star (\<lambda>c. \<not> is_quote c)), re1 is_quote]"

definition titleRe :: re where
  "titleRe = re_seqs [re_ilit ''<title'', re_star not_gt, re_lit ''>'', Group 1 (re_lazy (\<lambda>_. True)), re_ilit ''</title>'']"

definition metaTagRe :: "string \<Rightarrow> re" where
  "metaTagRe key = re_seqs [re_ilit ''<meta'', re_plus not_gt, Alt (re_ilit ''property'') (re_ilit ''name''), re_star re_blank, re_lit ''='',
     re_star re_blank, re1 is_quote, re_ilit key, re1 is_quote, re_star not_gt, re_lit ''>'']"

definition titleMax :: nat where "titleMax = 500"
definition snippetMax :: nat where "snippetMax = 500"

text \<open>\<open>strings.ToLower\<close>: ASCII text byte by byte, any other text rune by rune, where an invalid byte turns into U+FFFD.\<close>

definition go_lower :: "env \<Rightarrow> string \<Rightarrow> string" where
  "go_lower e s =
     (if ascii s then to_lower s
      else utf8_string (map (\<lambda>r. if r < 128 then byte (lower_char (char_of r)) else e_lower e r) (runes_of s)))"

text \<open>The text before the closing tag of the head, whose offset is looked up in the lower-case text.\<close>

definition head_of :: "env \<Rightarrow> string \<Rightarrow> string option" where
  "head_of e page =
     (case find_sub (go_lower e page) ''</head>'' of
        Some i \<Rightarrow> if i = 0 then Some page else if i \<le> length page then Some (take i page) else None
      | None \<Rightarrow> Some page)"

definition clean_text :: "env \<Rightarrow> string \<Rightarrow> string" where
  "clean_text e s = trim_space (e_unescape e s)"

definition meta_of :: "env \<Rightarrow> string \<Rightarrow> string \<Rightarrow> string" where
  "meta_of e head key =
     (let m = FindString (metaTagRe key) head in
      if m = [] then [] else case FindSubmatch contentRe m of Some v \<Rightarrow> clean_text e v | None \<Rightarrow> [])"

definition page_title :: "env \<Rightarrow> string \<Rightarrow> string" where
  "page_title e head =
     (let title = meta_of e head ''og:title'' in
      if title \<noteq> [] then title
      else case FindSubmatch titleRe head of Some t \<Rightarrow> clean_text e t | None \<Rightarrow> [])"

definition page_description :: "env \<Rightarrow> string \<Rightarrow> string" where
  "page_description e head =
     (let d = meta_of e head ''og:description'' in if d \<noteq> [] then d else meta_of e head ''description'')"

definition page_image :: "env \<Rightarrow> string \<Rightarrow> string \<Rightarrow> string" where
  "page_image e head pageURL =
     (let image = meta_of e head ''og:image'' in
      if image = [] then [] else case e_resolve e pageURL image of Some u \<Rightarrow> u | None \<Rightarrow> image)"

definition parsePreview :: "env \<Rightarrow> string \<Rightarrow> string \<Rightarrow> (string \<times> string \<times> string) option option" where
  "parsePreview e page pageURL =
     (if page = [] then Some None
      else
        map_option (\<lambda>head.
          let title = page_title e head; descr = page_description e head in
          if title = [] \<and> descr = [] then None
          else Some (take titleMax title, take snippetMax descr, page_image e head pageURL))
        (head_of e page))"

section \<open>What is read\<close>

lemma has_prefix_length: "has_prefix s p \<Longrightarrow> length p \<le> length s"
  by (auto simp: has_prefix_iff)

lemma find_sub_le: "find_sub s p = Some i \<Longrightarrow> i + length p \<le> length s"
proof (induction s p arbitrary: i rule: find_sub.induct)
  case (2 c s p)
  then show ?case using has_prefix_length [of "c # s" p] by (auto split: if_splits)
qed (auto split: if_splits)

lemma find_sub_at: "find_sub s p = Some i \<Longrightarrow> has_prefix (drop i s) p"
  by (induction s p arbitrary: i rule: find_sub.induct) (auto simp: has_prefix_iff split: if_splits)

lemma find_sub_first: "find_sub s p = Some i \<Longrightarrow> j < i \<Longrightarrow> \<not> has_prefix (drop j s) p"
proof (induction s p arbitrary: i j rule: find_sub.induct)
  case (2 c s p)
  then show ?case by (cases j) (auto split: if_splits)
qed (auto split: if_splits)

lemma find_sub_none: "find_sub s p = None \<Longrightarrow> \<not> has_prefix (drop j s) p"
proof (induction s p arbitrary: j rule: find_sub.induct)
  case (2 c s p)
  then show ?case by (cases j) (auto split: if_splits)
qed (auto split: if_splits simp: has_prefix_iff)

text \<open>The head of an ASCII page ends at the first closing tag, unless the page starts with it.\<close>

lemma head_of_ascii:
  assumes "ascii page"
  obtains i where "i \<le> length page" "head_of e page = Some (take i page)"
    "\<not> has_prefix (to_lower page) ''</head>'' \<Longrightarrow> j < i \<Longrightarrow> \<not> has_prefix (to_lower (drop j page)) ''</head>''"
proof -
  have low: "to_lower (drop j page) = drop j (to_lower page)" for j by (simp add: to_lower_def drop_map)
  show thesis
  proof (cases "find_sub (to_lower page) ''</head>''")
    case None
    show thesis
      by (rule that [of "length page"]) (use None assms find_sub_none [OF None] in \<open>simp_all add: head_of_def go_lower_def low\<close>)
  next
    case (Some i)
    have le: "i \<le> length page" using find_sub_le [OF Some] by simp
    show thesis
    proof (cases "i = 0")
      case True
      then have "has_prefix (to_lower page) ''</head>''" using find_sub_at [OF Some] by simp
      then show thesis
        by (intro that [of "length page"]) (use Some True assms in \<open>simp_all add: head_of_def go_lower_def\<close>)
    next
      case False
      show thesis
        by (rule that [of i]) (use Some False le assms find_sub_first [OF Some] in \<open>simp_all add: head_of_def go_lower_def low\<close>)
    qed
  qed
qed

lemma parsePreview_ascii: "ascii page \<Longrightarrow> parsePreview e page u \<noteq> None"
  using head_of_ascii [of page e thesis for thesis] by (auto simp: parsePreview_def)

section \<open>A page that makes the bouncer panic\<close>

abbreviation bad_byte :: char where "bad_byte \<equiv> char_of (255 :: nat)"

lemma runes_of_bad: "runes_of (replicate n bad_byte @ s) = replicate n 65533 @ runes_of s"
proof (induction n)
  case (Suc n)
  have "decode_rune (bad_byte # t) = (65533, 1)" for t by simp
  then show ?case using Suc by (subst runes_of.simps) simp
qed simp

lemma find_sub_skip:
  "list_all (\<lambda>c. c \<noteq> d) u \<Longrightarrow> find_sub (u @ s) (d # p) = map_option (\<lambda>i. i + length u) (find_sub s (d # p))"
proof (induction u)
  case (Cons c u)
  then show ?case by (simp add: has_prefix_iff option.map_comp comp_def)
qed (simp add: option.map_ident)

lemma ascii_to_lower: "ascii s \<Longrightarrow> map (\<lambda>r. if r < 128 then byte (lower_char (char_of r)) else f r) (map byte s) = map byte (to_lower s)"
  by (induction s) (simp_all add: to_lower_def)

lemma ascii_lower [simp]: "ascii s \<Longrightarrow> ascii (to_lower s)"
  by (induction s) (auto simp: to_lower_def of_char_lower_char)

text \<open>An invalid byte grows to the three bytes of U+FFFD in the lower-case text, so the offset found there is larger than the
  offset in the page.\<close>

lemma go_lower_bad:
  assumes "e_lower e 65533 = 65533" "ascii s" "0 < n"
  shows "go_lower e (replicate n bad_byte @ s) = concat (replicate n (encode_rune 65533)) @ to_lower s"
proof -
  have "\<not> ascii (replicate n bad_byte @ s)" using assms(3) by (cases n) auto
  then have "go_lower e (replicate n bad_byte @ s) =
      utf8_string (replicate n 65533 @ map byte (to_lower s))"
    using ascii_to_lower [OF assms(2), of "e_lower e"] assms(1,2)
    by (simp add: go_lower_def runes_of_bad runes_of_ascii)
  also have "\<dots> = concat (replicate n (encode_rune 65533)) @ utf8_string (map byte (to_lower s))"
    by (simp add: utf8_string_def)
  finally show ?thesis using assms(2) by (simp add: utf8_string_ascii)
qed

text \<open>The reading of a fetched page panics when enough bytes of the head are not UTF-8 and little follows the head: the
  offset of the end of the head is looked up in the lower-case text, where such a byte takes three bytes, and is used to
  slice the page itself. A page of ASCII text never does.\<close>

lemma parsePreview_panics:
  assumes "e_lower e 65533 = 65533" "ascii rest" "length rest + 7 < 2 * n"
  shows "parsePreview e (replicate n bad_byte @ ''</head>'' @ rest) u = None
    \<and> (ascii page \<longrightarrow> parsePreview e page u \<noteq> None)"
proof -
  have low: "go_lower e (replicate n bad_byte @ ''</head>'' @ rest) =
      concat (replicate n (encode_rune 65533)) @ ''</head>'' @ to_lower rest"
    using go_lower_bad [OF assms(1), of "''</head>'' @ rest" n] assms(2,3) by (simp add: to_lower_def lower_char_def)
  let ?u = "concat (replicate n (encode_rune 65533))"
  have enc: "encode_rune 65533 = map char_of [239::nat, 191, 189]" by (simp add: encode_rune_def rune_bytes_def)
  have "list_all (\<lambda>c. byte c \<noteq> byte (CHR ''<'')) ?u" by (simp add: enc list_all_iff)
  then have "list_all (\<lambda>c. c \<noteq> CHR ''<'') ?u" by (rule list.pred_mono_strong) blast
  moreover have "length ?u = 3 * n" by (simp add: enc length_concat sum_list_replicate)
  moreover have "find_sub (''</head>'' @ to_lower rest) ''</head>'' = Some 0" by (simp add: has_prefix_iff)
  ultimately have "find_sub (?u @ ''</head>'' @ to_lower rest) ''</head>'' = Some (3 * n)"
    using find_sub_skip [of "CHR ''<''" ?u "''</head>'' @ to_lower rest" "''/head>''"] by simp
  then show ?thesis using low assms(3) parsePreview_ascii by (simp add: parsePreview_def head_of_def)
qed

end
