(* ===== verification/Rfc3339.thy ===== *)
theory Rfc3339
  imports StoreTypes
begin

text \<open>
  The layouts of Go's package \<open>time\<close> that the code uses, for times in UTC given in nanoseconds since 1970: \<open>RFC3339\<close>,
  \<open>RFC3339Nano\<close> and the millisecond layout of the chathistory selectors, and the parser of \<open>RFC3339Nano\<close>. Dates
  are proleptic Gregorian, counted from 0000-03-01 so that a leap day ends its year. The round trip between printing
  and parsing is \<open>parse_format_nano\<close>.
\<close>

section \<open>Dates\<close>

definition year_days :: "int \<Rightarrow> int" where
  "year_days y = 365 * y + y div 4 - y div 100 + y div 400"

text \<open>Years since 0000-03-01 and the day in that year, by cycles of 400, 100, 4 and 1 years.\<close>

definition civil_year :: "int \<Rightarrow> int \<times> int" where
  "civil_year z =
     (let era = z div 146097; doe = z mod 146097;
          n100 = min 3 (doe div 36524); doc = doe - 36524 * n100;
          n4 = doc div 1461; dof = doc mod 1461;
          n1 = min 3 (dof div 365)
      in (400 * era + 100 * n100 + 4 * n4 + n1, dof - 365 * n1))"

definition civil_of_days :: "int \<Rightarrow> int \<times> int \<times> int" where
  "civil_of_days days =
     (let (y, doy) = civil_year (days + 719468);
          mp = (5 * doy + 2) div 153;
          d = doy - (153 * mp + 2) div 5 + 1;
          m = (if mp < 10 then mp + 3 else mp - 9)
      in (if m \<le> 2 then y + 1 else y, m, d))"

definition days_of_civil :: "int \<Rightarrow> int \<Rightarrow> int \<Rightarrow> int" where
  "days_of_civil y m d =
     (let y = (if m \<le> 2 then y - 1 else y);
          mp = (if m > 2 then m - 3 else m + 9)
      in year_days y + (153 * mp + 2) div 5 + d - 1 - 719468)"

definition is_leap :: "int \<Rightarrow> bool" where
  "is_leap y = (y mod 4 = 0 \<and> (y mod 100 \<noteq> 0 \<or> y mod 400 = 0))"

definition days_in :: "int \<Rightarrow> int \<Rightarrow> int" where
  "days_in m y =
     (if m = 2 then (if is_leap y then 29 else 28) else if m \<in> {4, 6, 9, 11} then 30 else 31)"

section \<open>Printing\<close>

definition pad4 :: "int \<Rightarrow> string" where
  "pad4 y = (if y < 0 then ''-'' else []) @
     (if \<bar>y\<bar> < 10000 then pad_dec 4 (nat \<bar>y\<bar>) else format_nat (nat \<bar>y\<bar>))"

definition date_time :: "time \<Rightarrow> string" where
  "date_time t =
     (let sec = t div 1000000000; (y, m, d) = civil_of_days (sec div 86400); s = sec mod 86400
      in pad4 y @ ''-'' @ pad_dec 2 (nat m) @ ''-'' @ pad_dec 2 (nat d) @ ''T'' @ pad_dec 2 (nat (s div 3600)) @ '':''
         @ pad_dec 2 (nat (s div 60 mod 60)) @ '':'' @ pad_dec 2 (nat (s mod 60)))"

definition rfc3339 :: "time \<Rightarrow> string" where
  "rfc3339 t = date_time t @ ''Z''"

definition strip_zeros :: "string \<Rightarrow> string" where
  "strip_zeros s = rev (dropWhile (\<lambda>c. c = CHR ''0'') (rev s))"

definition rfc3339_nano :: "time \<Rightarrow> string" where
  "rfc3339_nano t =
     (let frac = strip_zeros (pad_dec 9 (nat (t mod 1000000000)))
      in date_time t @ (if frac = [] then [] else ''.'' @ frac) @ ''Z'')"

definition rfc3339_milli :: "time \<Rightarrow> string" where
  "rfc3339_milli t = date_time t @ ''.'' @ pad_dec 3 (nat (t mod 1000000000 div 1000000)) @ ''Z''"

section \<open>Parsing\<close>

text \<open>A number of fixed width in a range, and a literal byte.\<close>

definition take_num :: "nat \<Rightarrow> nat \<Rightarrow> nat \<Rightarrow> string \<Rightarrow> (int \<times> string) option" where
  "take_num w lo hi s =
     (let p = take w s; n = dec_val 0 p in
      if length p = w \<and> list_all is_digit p \<and> lo \<le> n \<and> n \<le> hi then Some (int n, drop w s) else None)"

definition take_lit :: "char \<Rightarrow> string \<Rightarrow> string option" where
  "take_lit c s = (case s of d # r \<Rightarrow> if d = c then Some r else None | [] \<Rightarrow> None)"

text \<open>The hour may have a single digit.\<close>

definition take_hour :: "string \<Rightarrow> (int \<times> string) option" where
  "take_hour s =
     (case s of
        a # b # _ \<Rightarrow> if is_digit b then take_num 2 0 23 s else take_num 1 0 9 s
      | _ \<Rightarrow> take_num 1 0 9 s)"

text \<open>The fraction, as nanoseconds: its digits beyond the ninth are dropped.\<close>

definition take_frac :: "string \<Rightarrow> int \<times> string" where
  "take_frac s =
     (case s of
        c # d # _ \<Rightarrow>
          if (c = CHR ''.'' \<or> c = CHR '','') \<and> is_digit d then
            (let ds = takeWhile is_digit (tl s); k = take 9 ds
             in (int (dec_val 0 k * 10 ^ (9 - length k)), drop (length ds) (tl s)))
          else (0, s)
      | _ \<Rightarrow> (0, s))"

text \<open>The zone, as seconds east of UTC.\<close>

definition take_zone :: "string \<Rightarrow> (int \<times> string) option" where
  "take_zone s =
     (case s of
        [] \<Rightarrow> None
      | c # r \<Rightarrow>
        if c = CHR ''Z'' then Some (0, r)
        else
          Option.bind (take_num 2 0 24 r) (\<lambda>(h, r).
          Option.bind (take_lit (CHR '':'') r) (\<lambda>r.
          Option.bind (take_num 2 0 60 r) (\<lambda>(m, r).
          if c = CHR ''+'' then Some (h * 3600 + m * 60, r)
          else if c = CHR ''-'' then Some (- (h * 3600 + m * 60), r)
          else None))))"

definition parse_rfc3339_nano :: "string \<Rightarrow> time option" where
  "parse_rfc3339_nano s =
     Option.bind (take_num 4 0 9999 s) (\<lambda>(y, s).
     Option.bind (take_lit (CHR ''-'') s) (\<lambda>s.
     Option.bind (take_num 2 1 12 s) (\<lambda>(mo, s).
     Option.bind (take_lit (CHR ''-'') s) (\<lambda>s.
     Option.bind (take_num 2 1 31 s) (\<lambda>(d, s).
     Option.bind (take_lit (CHR ''T'') s) (\<lambda>s.
     Option.bind (take_hour s) (\<lambda>(h, s).
     Option.bind (take_lit (CHR '':'') s) (\<lambda>s.
     Option.bind (take_num 2 0 59 s) (\<lambda>(mi, s).
     Option.bind (take_lit (CHR '':'') s) (\<lambda>s.
     Option.bind (take_num 2 0 59 s) (\<lambda>(sec, s).
     (let (ns, s) = take_frac s in
      Option.bind (take_zone s) (\<lambda>(off, s).
      if s \<noteq> [] \<or> d > days_in mo y then None
      else Some (((days_of_civil y mo d * 86400 + h * 3600 + mi * 60 + sec) - off) * 1000000000 + ns))))))))))))))"

section \<open>Printing and parsing\<close>

lemma civil_year_bounds:
  assumes "civil_year z = (y, doy)"
  shows "year_days y + doy = z" "0 \<le> doy" "doy \<le> 365" "doy = 365 \<Longrightarrow> is_leap (y + 1)"
proof -
  define doe where "doe = z mod 146097"
  define n100 where "n100 = min 3 (doe div 36524)"
  define doc where "doc = doe - 36524 * n100"
  define n4 where "n4 = doc div 1461"
  define dof where "dof = doc mod 1461"
  define n1 where "n1 = min 3 (dof div 365)"
  have y: "y = 400 * (z div 146097) + (100 * n100 + 4 * n4 + n1)" and doy: "doy = dof - 365 * n1"
    using assms by (auto simp: civil_year_def Let_def doe_def n100_def doc_def n4_def dof_def n1_def)
  have doe: "0 \<le> doe" "doe < 146097" by (simp_all add: doe_def)
  have n100: "0 \<le> n100" "n100 \<le> 3" "0 \<le> doc" "doc \<le> 36524" "n100 < 3 \<Longrightarrow> doc < 36524"
    using doe by (auto simp: n100_def doc_def min_def)
  have n4: "0 \<le> n4" "n4 \<le> 24" "0 \<le> dof" "dof < 1461" "doc = 1461 * n4 + dof"
    using n100 by (auto simp: n4_def dof_def)
  have n1: "0 \<le> n1" "n1 \<le> 3" using n4 by (auto simp: n1_def min_def)
  show d: "0 \<le> doy" "doy \<le> 365" using n4 by (auto simp: doy n1_def min_def)
  define r where "r = 100 * n100 + 4 * n4 + n1"
  have r4: "r div 4 = 25 * n100 + n4" and r100: "r div 100 = n100" and r400: "r div 400 = 0"
  proof -
    define q where "q = 4 * n4 + n1"
    have q: "0 \<le> q" "q < 100" "q div 4 = n4" using n1 n4 by (simp_all add: q_def)
    have r: "r = 100 * n100 + q" by (simp add: r_def q_def)
    show "r div 4 = 25 * n100 + n4" unfolding r using q(3) by presburger
    show "r div 100 = n100" unfolding r using q(1,2) by simp
    show "r div 400 = 0" unfolding r using q(1,2) n100(1,2) by (intro div_pos_pos_trivial) auto
  qed
  have q: "(400 * e + r) div 4 = 100 * e + r div 4" "(400 * e + r) div 100 = 4 * e + r div 100"
    "(400 * e + r) div 400 = e + r div 400" for e :: int
    by simp_all
  have "year_days y = 146097 * (z div 146097) + 36524 * n100 + 1461 * n4 + 365 * n1"
    unfolding year_days_def y r_def [symmetric] q r4 r100 r400 by (simp add: r_def)
  then show "year_days y + doy = z"
    using n4(5) by (simp add: doy doc_def doe_def minus_mult_div_eq_mod [symmetric])
  assume l: "doy = 365"
  then have "n1 = 3" "dof = 1460" using n4 by (auto simp: doy n1_def min_def split: if_splits)
  then have s: "n4 < 24 \<or> n100 = 3" using n100 n4 by linarith
  define e where "e = z div 146097"
  have y1: "y + 1 = 4 * (n4 + 1) + (4 * e + n100) * 100" "y + 1 = (100 * e + 25 * n100 + n4 + 1) * 4"
    "y + 1 = (100 * n100 + 4 * (n4 + 1)) + e * 400"
    using \<open>n1 = 3\<close> y by (simp_all add: e_def)
  have m: "(y + 1) mod 4 = 0" unfolding y1(2) by (rule mod_mult_self2_is_0)
  moreover have "(y + 1) mod 100 = 4 * (n4 + 1) mod 100" unfolding y1(1) by (rule mod_mult_self1)
  moreover have "(y + 1) mod 400 = (100 * n100 + 4 * (n4 + 1)) mod 400" unfolding y1(3) by (rule mod_mult_self1)
  ultimately have m: "(y + 1) mod 4 = 0" "(y + 1) mod 100 = 4 * (n4 + 1) mod 100"
      "(y + 1) mod 400 = (100 * n100 + 4 * (n4 + 1)) mod 400"
    by blast+
  show "is_leap (y + 1)"
  proof (cases "n4 = 24")
    case True
    with s have "(y + 1) mod 400 = 0" using m(3) by simp
    then show ?thesis using m(1) by (simp add: is_leap_def)
  next
    case False
    then have "n4 \<le> 23" using n4(2) by simp
    then have "4 * (n4 + 1) mod 100 \<noteq> 0" using n4(1) by simp
    then show ?thesis using m(1,2) by (simp add: is_leap_def)
  qed
qed

lemma civil_of_days_inverse:
  assumes "civil_of_days z = (y, m, d)"
  shows "days_of_civil y m d = z" "1 \<le> m" "m \<le> 12" "1 \<le> d" "d \<le> days_in m y"
proof -
  obtain y0 doy where c: "civil_year (z + 719468) = (y0, doy)" by fastforce
  note b = civil_year_bounds [OF c]
  define mp where "mp = (5 * doy + 2) div 153"
  have mp: "0 \<le> mp" "mp \<le> 11" using b(2,3) by (auto simp: mp_def)
  have d: "d = doy - (153 * mp + 2) div 5 + 1" and m: "m = (if mp < 10 then mp + 3 else mp - 9)"
    and y: "y = (if m \<le> 2 then y0 + 1 else y0)"
    using assms c by (auto simp: civil_of_days_def mp_def Let_def split: if_splits)
  show "1 \<le> m" "m \<le> 12" using mp m by auto
  have m2: "(if m > 2 then m - 3 else m + 9) = mp" using m mp by auto
  have "(if m \<le> 2 then y - 1 else y) = y0" using y by simp
  then show "days_of_civil y m d = z"
    using b(1) by (simp add: days_of_civil_def Let_def m2 d)
  have "mp = 0 \<or> mp = 1 \<or> mp = 2 \<or> mp = 3 \<or> mp = 4 \<or> mp = 5 \<or> mp = 6 \<or> mp = 7 \<or> mp = 8 \<or> mp = 9 \<or> mp = 10 \<or> mp = 11"
    using mp by presburger
  moreover have lo: "153 * mp \<le> 5 * doy + 2" and hi: "5 * doy + 2 < 153 * mp + 153"
    unfolding mp_def by presburger+
  moreover have "doy = 365 \<or> doy \<le> 364" using b(3) by presburger
  ultimately show "1 \<le> d" "d \<le> days_in m y"
    using b(3,4) y m d by (auto simp: days_in_def)
qed

lemma dec_val_pad_dec: "n < 10 ^ w \<Longrightarrow> dec_val 0 (pad_dec w n) = n"
proof (induction w arbitrary: n)
  case (Suc w)
  then have "n div 10 < 10 ^ w" by (simp add: less_mult_imp_div_less mult.commute)
  with Suc.IH show ?case by (simp add: dec_val_append)
qed simp

lemma take_num_pad:
  "n < 10 ^ w \<Longrightarrow> lo \<le> n \<Longrightarrow> n \<le> hi \<Longrightarrow> take_num w lo hi (pad_dec w n @ s) = Some (int n, s)"
  by (simp add: take_num_def Let_def dec_val_pad_dec)

lemma dec_val_zeros: "dec_val a (replicate k (CHR ''0'')) = a * 10 ^ k"
  by (induction k arbitrary: a) (simp_all add: digit_val_char [of 0, unfolded digit_char_0])

lemma strip_zeros_split: "\<exists>k. s = strip_zeros s @ replicate k (CHR ''0'')"
proof -
  have "rev s = takeWhile (\<lambda>c. c = CHR ''0'') (rev s) @ rev (strip_zeros s)" by (simp add: strip_zeros_def)
  then have "s = strip_zeros s @ rev (takeWhile (\<lambda>c. c = CHR ''0'') (rev s))" by (metis rev_append rev_rev_ident)
  moreover have "takeWhile (\<lambda>c. c = CHR ''0'') xs = replicate (length (takeWhile (\<lambda>c. c = CHR ''0'') xs)) (CHR ''0'')"
    for xs :: string
    by (rule replicate_length_same [symmetric]) (auto dest: set_takeWhileD)
  ultimately show ?thesis by (metis rev_replicate)
qed

lemma take_frac_strip:
  assumes "n < 10 ^ 9" "frac = strip_zeros (pad_dec 9 n)" "c \<noteq> CHR ''.''" "c \<noteq> CHR '',''" "\<not> is_digit c"
  shows "take_frac ((if frac = [] then [] else ''.'' @ frac) @ c # s) = (int n, c # s)"
proof -
  obtain k where k: "pad_dec 9 n = frac @ replicate k (CHR ''0'')" using strip_zeros_split assms(2) by blast
  then have len: "length frac + k = 9" by (metis length_append length_pad_dec length_replicate)
  then have k9: "9 - length frac = k" by simp
  have v: "dec_val 0 frac * 10 ^ k = n"
    using dec_val_pad_dec [OF assms(1)] by (simp add: k dec_val_append dec_val_zeros)
  have dig: "list_all is_digit frac" using list_all_pad_dec [of 9 n] by (simp add: k)
  show ?thesis
  proof (cases frac)
    case Nil
    then show ?thesis using v assms(3,4) by (simp add: take_frac_def split: list.splits)
  next
    case (Cons a r)
    have tw: "takeWhile is_digit (frac @ c # s) = frac"
      using dig assms(5) by (simp add: list_all_iff takeWhile_append2)
    have "take_frac (CHR ''.'' # frac @ c # s) = (int (dec_val 0 frac * 10 ^ k), c # s)"
      using dig len tw k9 Cons by (simp add: take_frac_def Let_def del: dec_val.simps)
    moreover have "(if frac = [] then [] else ''.'' @ frac) @ c # s = CHR ''.'' # frac @ c # s" using Cons by simp
    ultimately show ?thesis unfolding v by simp
  qed
qed

lemma take_lit_same [simp]: "take_lit c (c # s) = Some s"
  by (simp add: take_lit_def)

lemma pad_dec_2: "pad_dec 2 n = [digit_char (n div 10 mod 10), digit_char (n mod 10)]"
  unfolding numeral_2_eq_2 by simp

lemma take_hour_pad: "n \<le> 23 \<Longrightarrow> take_hour (pad_dec 2 n @ s) = Some (int n, s)"
  using take_num_pad [of n 2 0 23 s] by (simp add: take_hour_def pad_dec_2)

lemma parse_format_nano:
  assumes "civil_of_days (t div 1000000000 div 86400) = (y, m, d)" "0 \<le> y" "y \<le> 9999"
  shows "parse_rfc3339_nano (rfc3339_nano t) = Some t"
proof -
  define sec where "sec = t div 1000000000"
  define sd where "sd = sec mod 86400"
  note c = civil_of_days_inverse [OF assms(1)]
  have d: "d \<le> 31" using c(5) by (auto simp: days_in_def split: if_splits)
  have sd: "0 \<le> sd" "sd < 86400" by (simp_all add: sd_def)
  have p4: "pad4 y = pad_dec 4 (nat y)" using assms(2,3) by (simp add: pad4_def)
  have n: "nat (t mod 1000000000) < 10 ^ 9" by simp
  have num: "take_num w lo hi (pad_dec w (nat v) @ s) = Some (v, s)"
    if "int lo \<le> v" "v \<le> int hi" "hi < 10 ^ w" for w lo hi v s
  proof -
    have "nat v < 10 ^ w" using that by linarith
    then show ?thesis using that take_num_pad [of "nat v" w lo hi s] by (simp add: nat_le_iff le_nat_iff)
  qed
  have y4: "take_num 4 0 9999 (pad_dec 4 (nat y) @ s) = Some (y, s)" for s using assms(2,3) by (intro num) auto
  have m2: "take_num 2 1 12 (pad_dec 2 (nat m) @ s) = Some (m, s)" for s using c(2,3) by (intro num) auto
  have d2: "take_num 2 1 31 (pad_dec 2 (nat d) @ s) = Some (d, s)" for s using c(4) d by (intro num) auto
  have mi2: "take_num 2 0 59 (pad_dec 2 (nat (sd div 60 mod 60)) @ s) = Some (sd div 60 mod 60, s)" for s
    by (intro num) (auto simp: pos_mod_sign intro: zless_imp_add1_zle [of _ "60 :: int", simplified])
  have s2: "take_num 2 0 59 (pad_dec 2 (nat (sd mod 60)) @ s) = Some (sd mod 60, s)" for s
    by (intro num) (auto simp: pos_mod_sign intro: zless_imp_add1_zle [of _ "60 :: int", simplified])
  have h23: "0 \<le> sd div 3600" "sd div 3600 \<le> 23" using sd by auto
  have h2: "take_hour (pad_dec 2 (nat (sd div 3600)) @ s) = Some (sd div 3600, s)" for s
    using h23 take_hour_pad [of "nat (sd div 3600)" s] by (simp add: nat_le_iff)
  note nums = y4 m2 d2 h2 mi2 s2
  have fr: "take_frac ((let f = strip_zeros (pad_dec 9 (nat (t mod 1000000000))) in if f = [] then [] else ''.'' @ f) @ ''Z'')
      = (t mod 1000000000, ''Z'')"
    using take_frac_strip [OF n refl, of "CHR ''Z''" "[]"] by (simp add: Let_def is_digit_def)
  have sum: "(((days_of_civil y m d * 86400 + sd div 3600 * 3600 + sd div 60 mod 60 * 60 + sd mod 60) - 0) * 1000000000
      + t mod 1000000000) = t"
  proof -
    have h: "sd div 3600 = sd div 60 div 60" using zdiv_zmult2_eq [of 60 sd 60] by simp
    have "sd div 60 div 60 * 60 + sd div 60 mod 60 = sd div 60" "sd div 60 * 60 + sd mod 60 = sd"
      by (rule div_mult_mod_eq)+
    then have "sd div 3600 * 3600 + sd div 60 mod 60 * 60 + sd mod 60 = sd" unfolding h by linarith
    moreover have "days_of_civil y m d * 86400 + sd = sec"
      unfolding c(1) sd_def sec_def [symmetric] by (rule div_mult_mod_eq)
    ultimately have "days_of_civil y m d * 86400 + sd div 3600 * 3600 + sd div 60 mod 60 * 60 + sd mod 60 = sec" by linarith
    then show ?thesis by (simp add: sec_def)
  qed
  define fr where "fr = (let f = strip_zeros (pad_dec 9 (nat (t mod 1000000000))) in if f = [] then [] else ''.'' @ f) @ ''Z''"
  have str: "rfc3339_nano t = pad_dec 4 (nat y) @ CHR ''-'' # pad_dec 2 (nat m) @ CHR ''-'' # pad_dec 2 (nat d) @ CHR ''T''
      # pad_dec 2 (nat (sd div 3600)) @ CHR '':'' # pad_dec 2 (nat (sd div 60 mod 60)) @ CHR '':''
      # pad_dec 2 (nat (sd mod 60)) @ fr"
    unfolding rfc3339_nano_def date_time_def sec_def [symmetric] fr_def p4 [symmetric] sd_def
    by (simp only: Let_def assms(1) [folded sec_def] prod.case append_assoc append.simps)
  have zone: "take_zone ''Z'' = Some (0, [])" by (simp add: take_zone_def)
  show ?thesis
    unfolding parse_rfc3339_nano_def str
    using c(5) by (simp only: nums take_lit_same bind.simps prod.case Let_def fr [folded fr_def] zone sum simp_thms not_less [symmetric] if_False)
qed

end
