(* ===== verification/Manager.thy ===== *)
theory Manager
  imports Mentions Unfurl GatewayServer Format Rfc3339 "HOL-Library.Monad_Syntax"
begin

text \<open>
  The state of the connection manager of \<open>internal/irc/ircmanage\<close> and what its handlers share: lookups of connections
  and peers, the payloads of messages and channels, the anchors of replies, the notices of Clyde and of a network. The
  manager shares the database and the id generator with the gateway, so both are found in the gateway's state. A
  pointer to a connection is the pair of its user and its network. The IRC client of a connection is third-party:
  what the code reads of it is the record \<open>girc\<close>, and what the code sends is appended to \<open>m_sent\<close>. What comes
  from the web and from the Unicode tables is the record \<open>env\<close>. A function that dispatches a gateway event is
  None when the dispatch panics.
\<close>

section \<open>State\<close>

record girc_perms =
  gp_owner :: bool
  gp_admin :: bool
  gp_op :: bool
  gp_halfop :: bool
  gp_voice :: bool

record girc_user =
  gu_nick :: string
  gu_perms :: "string \<Rightarrow> girc_perms option"

record girc =
  g_nick :: string
  g_cap :: "string \<Rightarrow> bool"
  g_option :: "string \<Rightarrow> string option"
  g_channel :: "string \<Rightarrow> (string \<times> girc_user list) option"

record linkPreview =
  lp_title :: string
  lp_description :: string
  lp_imageURL :: string
  lp_mirrorURL :: string
  lp_at :: time

type_synonym cid = "string \<times> string"

record ('d, 'r) Manager =
  m_gw :: "('d, 'r) Server"
  m_conns :: "(string \<times> conn) list"
  m_clients :: "string \<Rightarrow> girc option"
  m_sent :: "(string \<times> ircAction) list"
  m_batchSeq :: nat
  m_publicURL :: string
  m_previews :: "(string \<times> linkPreview) list"
  m_previewJobs :: "(string \<times> string \<times> string \<times> string) list"

definition m_db :: "('d, 'r) Manager \<Rightarrow> 'd" where
  "m_db m = au_db (gw_auth (m_gw m))"

definition m_sf :: "('d, 'r) Manager \<Rightarrow> Snowflake" where
  "m_sf m = au_sf (gw_auth (m_gw m))"

definition set_store :: "'d \<Rightarrow> Snowflake \<Rightarrow> ('d, 'r) Manager \<Rightarrow> ('d, 'r) Manager" where
  "set_store d s m = m\<lparr>m_gw := (m_gw m)\<lparr>gw_auth := (gw_auth (m_gw m))\<lparr>au_db := d, au_sf := s\<rparr>\<rparr>\<rparr>"

text \<open>An operation of the store, with and without ids from the generator.\<close>

definition on_db :: "('d \<Rightarrow> 'a \<times> 'd) \<Rightarrow> ('d, 'r) Manager \<Rightarrow> 'a \<times> ('d, 'r) Manager" where
  "on_db f m = (let (x, d) = f (m_db m) in (x, set_store d (m_sf m) m))"

definition on_ids :: "('d \<Rightarrow> Snowflake \<Rightarrow> 'a \<times> 'd \<times> Snowflake) \<Rightarrow> ('d, 'r) Manager \<Rightarrow> 'a \<times> ('d, 'r) Manager" where
  "on_ids f m = (let (x, d, s) = f (m_db m) (m_sf m) in (x, set_store d s m))"

definition new_id :: "time \<Rightarrow> Snowflake idgen" where
  "new_id now = (\<lambda>s. New s (now div 1000000))"

definition mint_new :: "time \<Rightarrow> ('d, 'r) Manager \<Rightarrow> string \<times> ('d, 'r) Manager" where
  "mint_new now m = (let (i, s) = new_id now (m_sf m) in (i, set_store (m_db m) s m))"

definition conn_at :: "('d, 'r) Manager \<Rightarrow> string \<Rightarrow> string \<Rightarrow> conn option" where
  "conn_at m userID networkID = map_of (m_conns m) (conn_key userID networkID)"

definition client_at :: "('d, 'r) Manager \<Rightarrow> string \<Rightarrow> string \<Rightarrow> girc option" where
  "client_at m userID networkID =
     (case conn_at m userID networkID of
        None \<Rightarrow> None
      | Some _ \<Rightarrow> m_clients m (conn_key userID networkID))"

definition the_conn :: "('d, 'r) Manager \<Rightarrow> cid \<Rightarrow> conn" where
  "the_conn m c = (case conn_at m (fst c) (snd c) of Some k \<Rightarrow> k | None \<Rightarrow> newConn (fst c) (snd c))"

definition put_conn :: "cid \<Rightarrow> conn \<Rightarrow> ('d, 'r) Manager \<Rightarrow> ('d, 'r) Manager" where
  "put_conn c k m = m\<lparr>m_conns := AList.update (conn_key (fst c) (snd c)) k (m_conns m)\<rparr>"

definition on_conn :: "cid \<Rightarrow> (conn \<Rightarrow> 'a \<times> conn) \<Rightarrow> ('d, 'r) Manager \<Rightarrow> 'a \<times> ('d, 'r) Manager" where
  "on_conn c f m = (let (x, k) = f (the_conn m c) in (x, put_conn c k m))"

definition send :: "cid \<Rightarrow> ircAction \<Rightarrow> ('d, 'r) Manager \<Rightarrow> ('d, 'r) Manager" where
  "send c a m = m\<lparr>m_sent := m_sent m @ [(conn_key (fst c) (snd c), a)]\<rparr>"

definition event :: "string \<Rightarrow> string list \<Rightarrow> ircAction" where
  "event command params = SendEvent \<lparr>ie_tags = [], ie_command = command, ie_params = params\<rparr>"

definition gw_dispatch :: "string \<Rightarrow> string \<Rightarrow> json \<Rightarrow> time \<Rightarrow> ('d, 'r) Manager \<Rightarrow> ('d, 'r) Manager option" where
  "gw_dispatch userID t d now m = map_option (\<lambda>g. m\<lparr>m_gw := g\<rparr>) (Dispatch userID t d now (m_gw m))"

section \<open>Peers and rosters\<close>

definition perms_mode :: "girc_perms option \<Rightarrow> string" where
  "perms_mode p =
     (case p of
        None \<Rightarrow> []
      | Some p \<Rightarrow>
        if gp_owner p then ''q'' else if gp_admin p then ''a'' else if gp_op p then ''o''
        else if gp_halfop p then ''h'' else if gp_voice p then ''v'' else [])"

definition channel_roster :: "conn \<Rightarrow> girc \<Rightarrow> string \<Rightarrow> (string \<times> girc_user list) option" where
  "channel_roster c g ircName =
     (let ch = g_channel g ircName in
      if (case ch of None \<Rightarrow> True | Some (_, users) \<Rightarrow> length users = 0) then
        (case c_renames c (to_lower ircName) of
           Some old \<Rightarrow> (case g_channel g old of Some legacy \<Rightarrow> Some legacy | None \<Rightarrow> ch)
         | None \<Rightarrow> ch)
      else ch)"

definition roster_member :: "conn \<Rightarrow> string \<Rightarrow> girc_user \<Rightarrow> ChannelMember" where
  "roster_member c chan u =
     (let f = peerFactFor c (gu_nick u) in
      \<lparr>cm_Nick = gu_nick u, cm_Mode = perms_mode (gu_perms u chan), cm_Away = isAway c (gu_nick u),
       cm_Account = pf_Account f,
       cm_Host = (if pf_User f \<noteq> [] \<and> pf_Host f \<noteq> [] then pf_User f @ ''@'' @ pf_Host f else [])\<rparr>)"

definition ChannelMembersDetailed :: "('d, 'r) Manager \<Rightarrow> string \<Rightarrow> string \<Rightarrow> string \<Rightarrow> ChannelMember list" where
  "ChannelMembersDetailed m userID networkID ircName =
     (case (conn_at m userID networkID, client_at m userID networkID) of
        (Some c, Some g) \<Rightarrow>
          (case channel_roster c g ircName of
             None \<Rightarrow> []
           | Some (name, users) \<Rightarrow>
               sort_key (\<lambda>cm. to_lower (cm_Nick cm)) (map (roster_member c name) users))
      | _ \<Rightarrow> [])"

definition ChannelMembers :: "('d, 'r) Manager \<Rightarrow> string \<Rightarrow> string \<Rightarrow> string \<Rightarrow> string list" where
  "ChannelMembers m userID networkID ircName = map cm_Nick (ChannelMembersDetailed m userID networkID ircName)"

definition LiveNick :: "('d, 'r) Manager \<Rightarrow> string \<Rightarrow> string \<Rightarrow> string" where
  "LiveNick m userID networkID = (case client_at m userID networkID of None \<Rightarrow> [] | Some g \<Rightarrow> g_nick g)"

definition LinkUp :: "('d, 'r) Manager \<Rightarrow> string \<Rightarrow> string \<Rightarrow> bool" where
  "LinkUp m userID networkID = (case conn_at m userID networkID of None \<Rightarrow> False | Some c \<Rightarrow> c_linkUp c)"

definition PeerBioText :: "('d, 'r) Manager \<Rightarrow> string \<Rightarrow> string \<Rightarrow> string \<Rightarrow> string" where
  "PeerBioText m userID networkID nick =
     (case conn_at m userID networkID of None \<Rightarrow> [] | Some c \<Rightarrow> peerBioText c nick)"

text \<open>The connections of a user, over all networks.\<close>

definition user_conns :: "('d, 'r) Manager \<Rightarrow> string \<Rightarrow> (string \<times> conn) list" where
  "user_conns m userID = filter (\<lambda>(k, _). has_prefix k (userID @ [NUL])) (m_conns m)"

definition peerBioForUser :: "('d, 'r) Manager \<Rightarrow> string \<Rightarrow> string \<Rightarrow> string" where
  "peerBioForUser m userID nick =
     (case List.find (\<lambda>bio. bio \<noteq> []) (map (\<lambda>(_, c). peerBioText c nick) (user_conns m userID)) of
        Some bio \<Rightarrow> bio
      | None \<Rightarrow> [])"

definition peerBotForUser :: "'d store \<Rightarrow> ('d, 'r) Manager \<Rightarrow> string \<Rightarrow> string \<Rightarrow> string \<Rightarrow> bool" where
  "peerBotForUser B m userID networkID nick = PeerBot B (m_db m) userID networkID nick"

definition peerColorForUser :: "'d store \<Rightarrow> ('d, 'r) Manager \<Rightarrow> string \<Rightarrow> string \<Rightarrow> string \<Rightarrow> string" where
  "peerColorForUser B m userID networkID nick = PeerColor B (m_db m) userID networkID nick"

definition peerAvatarForUser :: "'d store \<Rightarrow> ('d, 'r) Manager \<Rightarrow> string \<Rightarrow> string \<Rightarrow> string \<Rightarrow> json option" where
  "peerAvatarForUser B m userID networkID nick =
     (let h = PeerAvatar B (m_db m) userID networkID nick in if h \<noteq> [] then Some (JStr h) else None)"

definition SelfPresence :: "('d, 'r) Manager \<Rightarrow> string \<Rightarrow> string \<Rightarrow> string option" where
  "SelfPresence m userID networkID =
     (case (conn_at m userID networkID, client_at m userID networkID) of
        (Some c, Some g) \<Rightarrow> Some (selfWireStatus c (isAway c (g_nick g)))
      | _ \<Rightarrow> None)"

text \<open>The candidates of a mention and the translations of \<open>mentions.go\<close> on the manager's state.\<close>

definition mention_users :: "'d store \<Rightarrow> ('d, 'r) Manager \<Rightarrow> string \<Rightarrow> string \<Rightarrow> string \<Rightarrow> mentionUser list" where
  "mention_users B m userID networkID ircTarget =
     mentionUsers B (m_db m) (conn_at m userID networkID) (\<lambda>u. LiveNick m u networkID)
       (ChannelMembersDetailed m userID networkID ircTarget) userID networkID ircTarget"

definition mention_chans ::
  "'d store \<Rightarrow> time \<Rightarrow> string \<Rightarrow> string \<Rightarrow> ('d, 'r) Manager \<Rightarrow> mentionChannel list \<times> ('d, 'r) Manager" where
  "mention_chans B now userID networkID m =
     on_ids (\<lambda>d s. mentionChannels B d (new_id now) s userID networkID now) m"

definition discordize ::
  "'d store \<Rightarrow> env \<Rightarrow> time \<Rightarrow> string \<Rightarrow> string \<Rightarrow> string \<Rightarrow> string \<Rightarrow> ('d, 'r) Manager \<Rightarrow>
     (string \<times> mentionUser list \<times> mentionChannel list) \<times> ('d, 'r) Manager" where
  "discordize B e now userID networkID ircTarget body m =
     (let users = mention_users B m userID networkID ircTarget;
          (chans, m) = mention_chans B now userID networkID m
      in (Discordize (e_uni e) users chans body, m))"

end
