(* ===== verification/Payloads.thy ===== *)
theory Payloads
  imports Manager AttachmentStore
begin

text \<open>
  What the manager puts on the wire: message objects (\<open>chathistory.go\<close>, \<open>linkpreview.go\<close>), reply references and
  channel objects (\<open>manager.go\<close>), mirrored images (\<open>embeds.go\<close>) and link previews (\<open>linkpreview.go\<close>). A payload
  under construction is the association list of its entries; \<open>json_map\<close> makes it an object. Fetching an image or
  a page, parsing HTML and \<open>net/url\<close> are in \<open>env\<close>.
\<close>

type_synonym payload = "(string \<times> json) list"

definition message_base :: "string \<Rightarrow> string \<Rightarrow> string \<Rightarrow> string \<Rightarrow> json \<Rightarrow> json \<Rightarrow> payload" where
  "message_base msgID channelID body ts nonce author =
     [(''id'', JStr msgID), (''channel_id'', JStr channelID), (''content'', JStr body), (''timestamp'', JStr ts),
      (''edited_timestamp'', JNull), (''tts'', JBool False), (''mention_everyone'', JBool False), (''mentions'', JArr []),
      (''mention_roles'', JArr []), (''mention_channels'', JArr []), (''attachments'', JArr []), (''embeds'', JArr []),
      (''reactions'', JArr []), (''nonce'', nonce), (''pinned'', JBool False), (''type'', JInt 0), (''flags'', JInt 0),
      (''author'', author)]"

definition author_object :: "string \<Rightarrow> string \<Rightarrow> bool \<Rightarrow> string \<Rightarrow> json option \<Rightarrow> payload" where
  "author_object i name isBot bio avatar =
     [(''id'', JStr i), (''username'', JStr name), (''discriminator'', JStr ''0''), (''bot'', JBool isBot)]
     @ (if bio \<noteq> [] then [(''bio'', JStr bio)] else [])
     @ (case avatar of Some a \<Rightarrow> [(''avatar'', a)] | None \<Rightarrow> [])"

definition buildMessagePayload ::
  "string \<Rightarrow> string \<Rightarrow> string \<Rightarrow> string \<Rightarrow> string \<Rightarrow> string \<Rightarrow> json option \<Rightarrow> bool \<Rightarrow> payload" where
  "buildMessagePayload msgID channelID author body ts bio avatar isBot =
     message_base msgID channelID body ts JNull
       (json_map (author_object (IrcAuthorID (''irc:'' @ author)) author isBot bio avatar))"

section \<open>Messages from the buffer\<close>

definition row_author :: "BufferedMessage \<Rightarrow> payload" where
  "row_author row =
     (if has_prefix (bm_AuthorID row) ''irc:''
      then author_object (IrcAuthorID (bm_AuthorID row)) (trim_prefix (bm_AuthorID row) ''irc:'') False [] None
      else author_object (bm_AuthorID row) (bm_AuthorName row) False [] None)"

definition buildMessagePayloadFromRow :: "BufferedMessage \<Rightarrow> payload" where
  "buildMessagePayloadFromRow row =
     message_base (bm_ID row) (bm_ChannelID row) (bm_Content row) (bm_Timestamp row) (bm_Nonce row) (json_map (row_author row))"

definition reactionsPayload :: "(string \<times> string list) list \<Rightarrow> string \<Rightarrow> json list" where
  "reactionsPayload byEmoji userID =
     map (\<lambda>(emoji, uids). json_map [(''count'', JInt (int (length uids))), (''me'', JBool (userID \<in> set uids)),
            (''emoji'', json_map [(''id'', JNull), (''name'', JStr emoji)])])
       (sort_key fst byEmoji)"

definition channelNetworkID :: "'d store \<Rightarrow> ('d, 'r) Manager \<Rightarrow> string \<Rightarrow> string" where
  "channelNetworkID B m channelID =
     (case GetChannel B (m_db m) channelID of
        Inr ch \<Rightarrow> ch_NetworkID ch
      | Inl _ \<Rightarrow> (case GetDMChannel B (m_db m) channelID of Inr dm \<Rightarrow> dm_NetworkID dm | Inl _ \<Rightarrow> []))"

text \<open>\<open>enrichAuthor\<close> patches the author of a payload made by \<open>buildMessagePayloadFromRow\<close>.\<close>

definition enrichAuthor :: "'d store \<Rightarrow> ('d, 'r) Manager \<Rightarrow> string \<Rightarrow> payload \<Rightarrow> BufferedMessage \<Rightarrow> payload" where
  "enrichAuthor B m userID pl row =
     AList.update ''author''
       (json_map
         (if \<not> has_prefix (bm_AuthorID row) ''irc:'' then
            (case GetUserByID B (m_db m) (bm_AuthorID row) of
               Inr u \<Rightarrow> if u_Avatar u \<noteq> [] then AList.update ''avatar'' (JStr (u_Avatar u)) (row_author row) else row_author row
             | Inl _ \<Rightarrow> row_author row)
          else
            let nick = trim_prefix (bm_AuthorID row) ''irc:'';
                au = row_author row;
                bio = peerBioForUser m userID nick;
                au = (if bio \<noteq> [] then AList.update ''bio'' (JStr bio) au else au);
                netID = channelNetworkID B m (bm_ChannelID row);
                au = (if peerBotForUser B m userID netID nick then AList.update ''bot'' (JBool True) au else au)
            in (case peerAvatarForUser B m userID netID nick of
                  Some a \<Rightarrow> AList.update ''avatar'' a au
                | None \<Rightarrow> au)))
       pl"

definition buildReferencedPayload :: "'d store \<Rightarrow> ('d, 'r) Manager \<Rightarrow> string \<Rightarrow> BufferedMessage \<Rightarrow> payload" where
  "buildReferencedPayload B m userID row =
     enrichAuthor B m userID (AList.update ''mention_everyone'' (JBool False) (buildMessagePayloadFromRow row)) row"

section \<open>Replies\<close>

definition stored_ref :: "'d store \<Rightarrow> ('d, 'r) Manager \<Rightarrow> cid \<Rightarrow> string \<Rightarrow> msgRef option" where
  "stored_ref B m c msgid =
     (case LookupMessageByMsgID B (m_db m) (snd c) msgid of
        Some (chID, snow) \<Rightarrow>
          if snow \<noteq> [] then Some \<lparr>mr_Snowflake = snow, mr_ChannelID = chID, mr_GuildID = snd c\<rparr> else None
      | None \<Rightarrow> None)"

definition resolveReplyRef :: "'d store \<Rightarrow> ('d, 'r) Manager \<Rightarrow> cid \<Rightarrow> string \<Rightarrow> msgRef option" where
  "resolveReplyRef B m c msgid =
     (case lookupRef (the_conn m c) msgid of
        Some ref \<Rightarrow> if mr_Snowflake ref \<noteq> [] then Some ref else stored_ref B m c msgid
      | None \<Rightarrow> stored_ref B m c msgid)"

definition replyRefSnowflake :: "'d store \<Rightarrow> ('d, 'r) Manager \<Rightarrow> cid \<Rightarrow> string \<Rightarrow> string" where
  "replyRefSnowflake B m c replyMsgid =
     (if replyMsgid = [] then []
      else case resolveReplyRef B m c replyMsgid of Some ref \<Rightarrow> mr_Snowflake ref | None \<Rightarrow> [])"

definition resolveRef :: "'d store \<Rightarrow> cid \<Rightarrow> string \<Rightarrow> ('d, 'r) Manager \<Rightarrow> msgRef option \<times> ('d, 'r) Manager" where
  "resolveRef B c msgid m =
     (case lookupRef (the_conn m c) msgid of
        Some ref \<Rightarrow> (Some ref, m)
      | None \<Rightarrow>
          (case LookupMessageByMsgID B (m_db m) (snd c) msgid of
             None \<Rightarrow> (None, m)
           | Some (channelID, messageID) \<Rightarrow>
               let ref = \<lparr>mr_Snowflake = messageID, mr_ChannelID = channelID, mr_GuildID = snd c\<rparr>
               in (Some ref, put_conn c (registerMsgid (the_conn m c) ref msgid) m)))"

definition ReplyTargetMsgid :: "'d store \<Rightarrow> ('d, 'r) Manager \<Rightarrow> string \<Rightarrow> string \<Rightarrow> string \<Rightarrow> string \<Rightarrow> string" where
  "ReplyTargetMsgid B m userID networkID channelID snowflake =
     (let live = (case conn_at m userID networkID of
                    Some c \<Rightarrow> (case lookupMsgid c snowflake of Some msgid \<Rightarrow> msgid | None \<Rightarrow> [])
                  | None \<Rightarrow> [])
      in if live \<noteq> [] then live
         else if channelID \<noteq> [] then
           (case MessageByID B (m_db m) channelID snowflake of Some row \<Rightarrow> bm_MsgID row | None \<Rightarrow> [])
         else [])"

definition attachReplyReference ::
  "'d store \<Rightarrow> ('d, 'r) Manager \<Rightarrow> payload \<Rightarrow> msgRef \<Rightarrow> string \<Rightarrow> payload" where
  "attachReplyReference B m pl ref userID =
     (let p = AList.update ''type'' (JInt 19) pl;
          p = AList.update ''message_reference''
                (json_map ([(''type'', JInt 0), (''message_id'', JStr (mr_Snowflake ref)),
                            (''channel_id'', JStr (mr_ChannelID ref))]
                           @ (if mr_GuildID ref \<noteq> [] then [(''guild_id'', JStr (mr_GuildID ref))] else []))) p
      in case MessageByID B (m_db m) (mr_ChannelID ref) (mr_Snowflake ref) of
           Some row \<Rightarrow> AList.update ''referenced_message'' (json_map (buildReferencedPayload B m userID row)) p
         | None \<Rightarrow> p)"

text \<open>The reply decoration as the relays apply it.\<close>

definition with_reply :: "'d store \<Rightarrow> ('d, 'r) Manager \<Rightarrow> cid \<Rightarrow> string \<Rightarrow> payload \<Rightarrow> payload" where
  "with_reply B m c replyMsgid pl =
     (case resolveReplyRef B m c replyMsgid of
        Some ref \<Rightarrow> if mr_Snowflake ref \<noteq> [] then attachReplyReference B m pl ref (fst c) else pl
      | None \<Rightarrow> pl)"

section \<open>Channels\<close>

definition dmLastMessageID :: "'d store \<Rightarrow> ('d, 'r) Manager \<Rightarrow> string \<Rightarrow> json" where
  "dmLastMessageID B m dmID =
     (case ChannelMessages B (m_db m) dmID [] [] 1 of [] \<Rightarrow> JNull | row # _ \<Rightarrow> JStr (bm_ID row))"

definition object_fields :: "json \<Rightarrow> payload" where
  "object_fields j = (case j of JObj kvs \<Rightarrow> kvs | _ \<Rightarrow> [])"

definition dm_object :: "'d store \<Rightarrow> ('d, 'r) Manager \<Rightarrow> DMChannel \<Rightarrow> payload \<Rightarrow> json" where
  "dm_object B m dm peer =
     json_map [(''id'', JStr (dm_ID dm)), (''type'', JInt 1), (''flags'', JInt 0),
       (''last_message_id'', dmLastMessageID B m (dm_ID dm)), (''recipients'', JArr [json_map peer]),
       (''recipient_ids'', JArr [case map_of peer ''id'' of Some (JStr i) \<Rightarrow> JStr i | _ \<Rightarrow> JStr []]),
       (''is_message_request'', JBool False), (''is_spam'', JBool False)]"

definition dm_peer :: "'d store \<Rightarrow> ('d, 'r) Manager \<Rightarrow> string \<Rightarrow> string \<Rightarrow> string \<Rightarrow> string \<Rightarrow> payload" where
  "dm_peer B m userID networkID nick bio =
     (let peer = object_fields (DMPeer nick);
          peer = (if bio \<noteq> [] then AList.update ''bio'' (JStr bio) peer else peer);
          peer = (case peerAvatarForUser B m userID networkID nick of
                    Some a \<Rightarrow> AList.update ''avatar'' a peer | None \<Rightarrow> peer)
      in if peerBotForUser B m userID networkID nick then AList.update ''bot'' (JBool True) peer else peer)"

definition dmChannelPayloadFor :: "'d store \<Rightarrow> ('d, 'r) Manager \<Rightarrow> string \<Rightarrow> DMChannel \<Rightarrow> json" where
  "dmChannelPayloadFor B m userID dm =
     dm_object B m dm (dm_peer B m userID (dm_NetworkID dm) (dm_Nick dm)
       (if dm_NetworkID dm \<noteq> [] then PeerBioText m userID (dm_NetworkID dm) (dm_Nick dm) else []))"

definition dmChannelPayload :: "'d store \<Rightarrow> ('d, 'r) Manager \<Rightarrow> cid \<Rightarrow> DMChannel \<Rightarrow> json" where
  "dmChannelPayload B m c dm =
     dm_object B m dm (dm_peer B m (fst c) (snd c) (dm_Nick dm) (PeerBioText m (fst c) (dm_NetworkID dm) (dm_Nick dm)))"

definition TopicValue :: "string \<Rightarrow> json" where
  "TopicValue topic = (if topic = [] then JNull else JStr topic)"

fun fold_position :: "string \<Rightarrow> string list \<Rightarrow> nat option" where
  "fold_position ircName [] = None"
| "fold_position ircName (name # names) =
     (if equal_fold name ircName then Some 0 else map_option Suc (fold_position ircName names))"

definition channelUpdatePayload :: "'d store \<Rightarrow> ('d, 'r) Manager \<Rightarrow> cid \<Rightarrow> Channel \<Rightarrow> json" where
  "channelUpdatePayload B m c ch =
     (let position =
        (case GetMembership B (m_db m) (snd c) (fst c) of
           Inr mem \<Rightarrow> (case fold_position (ch_IRCName ch) (mem_AutoJoin mem) of Some i \<Rightarrow> i | None \<Rightarrow> 0)
         | Inl _ \<Rightarrow> 0)
      in json_map [(''id'', JStr (ch_ID ch)), (''guild_id'', JStr (snd c)), (''name'', JStr (ch_Name ch)),
           (''type'', JInt 0), (''position'', JInt (int position)), (''topic'', TopicValue (ch_Topic ch)),
           (''last_message_id'', JStr ''0''), (''permission_overwrites'', JArr []), (''rate_limit_per_user'', JInt 0),
           (''nsfw'', JBool False), (''flags'', JInt 0), (''parent_id'', JNull),
           (''member_list_id'', JStr (MemberListID (snd c) (ch_ID ch)))])"

end
