(* ===== verification/Relay.thy ===== *)
theory Relay
  imports Payloads
begin

text \<open>
  The relays of \<open>manager.go\<close> from IRC to Discord: notices of Clyde and of a network, channel messages and queries,
  with the peers they mention (\<open>mentions.go\<close>), the images they link (\<open>embeds.go\<close>) and the link previews that follow
  (\<open>linkpreview.go\<close>). The hooks that the network service installs are the record \<open>hooks\<close>; a hook that is not
  installed is None. A goroutine that the code starts is an operation of its own.
\<close>

record ('d, 'r) hooks =
  h_occupancy :: "(string \<Rightarrow> string \<Rightarrow> string \<Rightarrow> ('d, 'r) Manager \<Rightarrow> ('d, 'r) Manager option) option"
  h_linkChange :: "(string \<Rightarrow> string \<Rightarrow> bool \<Rightarrow> ('d, 'r) Manager \<Rightarrow> ('d, 'r) Manager option) option"
  h_memberChange :: "(string \<Rightarrow> string \<Rightarrow> string \<Rightarrow> ('d, 'r) Manager \<Rightarrow> ('d, 'r) Manager option) option"
  h_iconChange :: "(string \<Rightarrow> string \<Rightarrow> string \<Rightarrow> ('d, 'r) Manager \<Rightarrow> (bool \<times> ('d, 'r) Manager) option) option"
  h_mentionRelay :: "(string \<Rightarrow> string \<Rightarrow> ('d, 'r) Manager \<Rightarrow> ('d, 'r) Manager option) option"
  h_peerAvatar :: "(string \<Rightarrow> string \<Rightarrow> string \<Rightarrow> ('d, 'r) Manager \<Rightarrow> ('d, 'r) Manager option) option"
  h_peerFacts :: "(string \<Rightarrow> string \<Rightarrow> string \<Rightarrow> ('d, 'r) Manager \<Rightarrow> ('d, 'r) Manager option) option"
  h_avatarFail :: "(string \<Rightarrow> string \<Rightarrow> string \<Rightarrow> bool \<Rightarrow> ('d, 'r) Manager \<Rightarrow> ('d, 'r) Manager option) option"

definition NowTimestamp :: "time \<Rightarrow> string" where
  "NowTimestamp now = rfc3339 (ceilSecond now)"

section \<open>Notices\<close>

definition best_fork :: "DMChannel list \<Rightarrow> DMChannel option" where
  "best_fork forks =
     fold (\<lambda>f best. case best of
              None \<Rightarrow> Some f
            | Some b \<Rightarrow> if dm_LastMsgAt f > dm_LastMsgAt b then Some f else best) forks None"

fun drop_forks :: "'d store \<Rightarrow> string \<Rightarrow> DMChannel list \<Rightarrow> ('d, 'r) Manager \<Rightarrow> ('d, 'r) Manager" where
  "drop_forks B keep [] m = m"
| "drop_forks B keep (f # fs) m =
     drop_forks B keep fs (if dm_ID f = keep then m else snd (on_db (\<lambda>d. DeleteDMChannel B d (dm_ID f)) m))"

definition clydeDM :: "'d store \<Rightarrow> time \<Rightarrow> string \<Rightarrow> ('d, 'r) Manager \<Rightarrow> DMChannel option \<times> ('d, 'r) Manager" where
  "clydeDM B now userID m =
     (let dms = filter (\<lambda>dm. dm_Nick dm = ''Clyde'') (ListDMChannels B (m_db m) userID);
          own = filter (\<lambda>dm. dm_NetworkID dm = ClydeNetID) dms;
          forks = filter (\<lambda>dm. dm_NetworkID dm \<noteq> ClydeNetID) dms in
      if own \<noteq> [] then (Some (last own), drop_forks B (dm_ID (last own)) forks m)
      else
        case best_fork forks of
          Some f \<Rightarrow>
            (case on_db (\<lambda>d. SetDMNetwork B d (dm_ID f) ClydeNetID) m of
               (Inl _, m) \<Rightarrow> (Some f, m)
             | (Inr _, m) \<Rightarrow> (Some (f\<lparr>dm_NetworkID := ClydeNetID\<rparr>), drop_forks B (dm_ID f) forks m))
        | None \<Rightarrow>
            (case on_ids (\<lambda>d s. EnsureDMChannel B d (new_id now) s userID ClydeNetID ''Clyde'' now) m of
               (Inl _, m) \<Rightarrow> (None, m)
             | (Inr dm, m) \<Rightarrow> (Some dm, m)))"

text \<open>The message of a notice and its row, shared by the notices of Clyde and of a network.\<close>

definition notice_row :: "string \<Rightarrow> string \<Rightarrow> string \<Rightarrow> string \<Rightarrow> BufferedMessage" where
  "notice_row msgID channelID text ts =
     \<lparr>bm_ID = msgID, bm_ChannelID = channelID, bm_AuthorID = ''irc:Clyde'', bm_AuthorName = ''Clyde'', bm_Content = text,
      bm_Nonce = JNull, bm_Timestamp = ts, bm_Type = 0, bm_MsgID = [], bm_ReplyTo = [], bm_Reactions = [],
      bm_Attachments = [], bm_Embeds = [], bm_Mentions = []\<rparr>"

definition say :: "'d store \<Rightarrow> time \<Rightarrow> string \<Rightarrow> string \<Rightarrow> string \<Rightarrow> ('d, 'r) Manager \<Rightarrow> ('d, 'r) Manager option" where
  "say B now userID channelID text m =
     (let (msgID, m) = mint_new now m; ts = NowTimestamp now in
      do {
        m \<leftarrow> gw_dispatch userID ''MESSAGE_CREATE''
               (json_map (message_base msgID channelID text ts JNull (json_map (object_fields (DMPeer ''Clyde''))))) now m;
        Some (snd (on_db (\<lambda>d. AppendMessage B d (notice_row msgID channelID text ts)) m))
      })"

definition clydeSay :: "'d store \<Rightarrow> time \<Rightarrow> string \<Rightarrow> string \<Rightarrow> ('d, 'r) Manager \<Rightarrow> ('d, 'r) Manager option" where
  "clydeSay B now userID text m =
     (case clydeDM B now userID m of
        (None, m) \<Rightarrow> Some m
      | (Some dm, m) \<Rightarrow>
        do {
          m \<leftarrow> (if now - dm_CreatedAt dm < 3000000000
                then gw_dispatch userID ''CHANNEL_CREATE'' (dmChannelPayloadFor B m userID dm) now m else Some m);
          m \<leftarrow> say B now userID (dm_ID dm) text m;
          Some (snd (on_db (\<lambda>d. TouchDMChannel B d (dm_ID dm) now) m))
        })"

definition systemSay ::
  "'d store \<Rightarrow> time \<Rightarrow> string \<Rightarrow> string \<Rightarrow> string \<Rightarrow> ('d, 'r) Manager \<Rightarrow> ('d, 'r) Manager option" where
  "systemSay B now userID networkID text m =
     (case on_ids (\<lambda>d s. EnsureSystemChannel B d (new_id now) s networkID now) m of
        (Inl _, m) \<Rightarrow> Some m
      | (Inr ch, m) \<Rightarrow> say B now userID (ch_ID ch) text m)"

definition certMark :: string where
  "certMark = ''x509: certificate is valid for ''"

fun after_infix :: "string \<Rightarrow> string \<Rightarrow> string option" where
  "after_infix [] p = (if p = [] then Some [] else None)"
| "after_infix (c # s) p = (if has_prefix (c # s) p then Some (drop (length p) (c # s)) else after_infix s p)"

definition linkFailureNotice :: "Network \<Rightarrow> string \<Rightarrow> string" where
  "linkFailureNotice n msg =
     (let scheme = (if n_TLS n then ''ircs://'' else ''irc://'');
          addr = (if n_Port n \<noteq> 0 then n_Host n @ '':'' @ format_int (n_Port n) else n_Host n);
          text = ''Connection to '' @ scheme @ addr @ '' failed: '' @ msg
      in case after_infix msg certMark of
           None \<Rightarrow> text
         | Some rest \<Rightarrow>
           (case index_byte rest (CHR '','') of
              None \<Rightarrow> text
            | Some comma \<Rightarrow>
              if comma = 0 then text
              else
                let cname = trim_space (take comma rest)
                in text @ CHR 0x0A # ''That certificate belongs to '' @ cname @ '' - connect as '' @ scheme @ cname
                   @ '' instead, or have the hostname added to the certificate.''))"

section \<open>Linked images\<close>

fun words_from :: "string \<Rightarrow> string \<Rightarrow> string list" where
  "words_from w [] = (if w = [] then [] else [w])"
| "words_from w (c # s) =
     (if is_space c then (if w = [] then words_from [] s else w # words_from [] s) else words_from (w @ [c]) s)"

definition words :: "string \<Rightarrow> string list" where
  "words s = words_from [] s"

definition trim_set :: "string \<Rightarrow> string \<Rightarrow> string" where
  "trim_set cutset s =
     rev (dropWhile (\<lambda>c. c \<in> set cutset) (rev (dropWhile (\<lambda>c. c \<in> set cutset) s)))"

definition is_web :: "string \<Rightarrow> bool" where
  "is_web tok = (has_prefix tok ''http://'' \<or> has_prefix tok ''https://'')"

definition path_part :: "string \<Rightarrow> string" where
  "path_part u = takeWhile (\<lambda>c. c \<noteq> CHR ''?'' \<and> c \<noteq> CHR ''#'') u"

definition imageExtensions :: "string list" where
  "imageExtensions = [''.png'', ''.apng'', ''.jpg'', ''.jpeg'', ''.gif'', ''.webp'', ''.bmp'']"

definition is_image_path :: "string \<Rightarrow> bool" where
  "is_image_path p =
     (let lower = to_lower p
      in case last_index (CHR ''.'') lower of
           None \<Rightarrow> False
         | Some dot \<Rightarrow> drop dot lower \<in> set imageExtensions)"

definition image_trim :: string where
  "image_trim = [CHR ''<'', CHR ''>'', CHR ''('', CHR '')'', CHR ''['', CHR '']'', CHR 0x22, CHR 0x27, CHR '','']"

definition note_target :: "string \<Rightarrow> string list \<Rightarrow> string list" where
  "note_target tok targets =
     (let u = trim_set image_trim tok in
      if length targets \<ge> 4 \<or> \<not> is_web tok \<or> \<not> is_image_path (path_part u) \<or> u \<in> set targets then targets
      else targets @ [u])"

definition image_targets :: "string \<Rightarrow> string list" where
  "image_targets body = fold note_target (words body) []"

definition mirrorFilename :: "string \<Rightarrow> string \<Rightarrow> string" where
  "mirrorFilename u contentType =
     (let base = path_base u in
      if base = ''.'' \<or> base = ''/'' \<or> CHR 0x5C \<in> set base then
        ''image'' @
        (case index_byte contentType (CHR ''/'') of
           Some i \<Rightarrow>
             if i > 0 \<and> drop (i + 1) contentType \<noteq> [] then ''.'' @ drop (i + 1) contentType
             else ''.png''
         | None \<Rightarrow> ''.png'')
      else base)"

definition attachment_url :: "('d, 'r) Manager \<Rightarrow> Attachment \<Rightarrow> string" where
  "attachment_url m att = m_publicURL m @ ''/attachments/'' @ at_ID att @ ''/'' @ at_Filename att"

text \<open>One fetched image is stored under a new id; None when the store fails.\<close>

definition mirror ::
  "'d store \<Rightarrow> time \<Rightarrow> string \<Rightarrow> string \<times> string \<times> int \<times> int \<Rightarrow> ('d, 'r) Manager \<Rightarrow> Attachment option \<times> ('d, 'r) Manager" where
  "mirror B now path = (\<lambda>(body, contentType, w, h) m.
     let (i, m) = mint_new now m;
         att = \<lparr>at_ID = i, at_Filename = mirrorFilename path contentType, at_ContentType = contentType,
                at_Size = int (length body), at_Width = w, at_Height = h, at_UploadedAt = now div 1000000000\<rparr>
     in case on_db (\<lambda>d. PutAttachment B d att body) m of
          (Inl _, m) \<Rightarrow> (None, m)
        | (Inr _, m) \<Rightarrow> (Some att, m))"

fun mirror_all ::
  "'d store \<Rightarrow> env \<Rightarrow> time \<Rightarrow> string list \<Rightarrow> ('d, 'r) Manager \<Rightarrow> json list \<times> ('d, 'r) Manager" where
  "mirror_all B e now [] m = ([], m)"
| "mirror_all B e now (u # us) m =
     (case fetchImage e u of
        None \<Rightarrow> mirror_all B e now us m
      | Some img \<Rightarrow>
        (case mirror B now (path_part u) img m of
           (None, m) \<Rightarrow> mirror_all B e now us m
         | (Some att, m) \<Rightarrow>
           let row = json_map [(''id'', JStr (at_ID att)), (''filename'', JStr (at_Filename att)),
                       (''size'', JInt (at_Size att)), (''url'', JStr (attachment_url m att)),
                       (''proxy_url'', JStr (attachment_url m att)), (''content_type'', JStr (at_ContentType att)),
                       (''width'', JInt (at_Width att)), (''height'', JInt (at_Height att))];
               (rows, m) = mirror_all B e now us m
           in (row # rows, m)))"

definition imageAttachments ::
  "'d store \<Rightarrow> env \<Rightarrow> time \<Rightarrow> string \<Rightarrow> ('d, 'r) Manager \<Rightarrow> json list \<times> ('d, 'r) Manager" where
  "imageAttachments B e now body m =
     (if m_publicURL m = [] then ([], m) else mirror_all B e now (image_targets body) m)"

section \<open>Link previews\<close>

definition preview_trim :: string where
  "preview_trim = [CHR ''<'', CHR ''>'', CHR ''*'', CHR ''_'', CHR ''~'', CHR 0x60]"

definition link_trim :: string where
  "link_trim = [CHR ''('', CHR '')'', CHR ''['', CHR '']'', CHR 0x22, CHR 0x27, CHR '','']"

definition previewable :: "string \<Rightarrow> string option" where
  "previewable word =
     (let tok = trim_set preview_trim word; u = trim_set link_trim tok in
      if \<not> is_web tok \<or> is_image_path (path_part u) \<or> length u > 2048 then None else Some u)"

definition previewableLink :: "string \<Rightarrow> string" where
  "previewableLink body = (case List.map_filter previewable (words body) of [] \<Rightarrow> [] | u # _ \<Rightarrow> u)"

definition previewCacheTTL :: int where "previewCacheTTL = 30 * 60 * 1000000000"
definition previewCacheCap :: nat where "previewCacheCap = 256"

definition fresh_preview ::
  "'d store \<Rightarrow> env \<Rightarrow> time \<Rightarrow> string \<Rightarrow> ('d, 'r) Manager \<Rightarrow> (linkPreview \<times> ('d, 'r) Manager) option" where
  "fresh_preview B e now u m =
     map_option (\<lambda>parsed.
       let (title, descr, image) = (case parsed of Some p \<Rightarrow> p | None \<Rightarrow> ([], [], []));
           p = \<lparr>lp_title = title, lp_description = descr, lp_imageURL = image, lp_mirrorURL = [], lp_at = now\<rparr>
       in if image \<noteq> [] \<and> m_publicURL m \<noteq> [] then
            (case fetchImage e image of
               None \<Rightarrow> (p, m)
             | Some img \<Rightarrow>
               (case mirror B now image img m of
                  (None, m) \<Rightarrow> (p, m)
                | (Some att, m) \<Rightarrow> (p\<lparr>lp_mirrorURL := attachment_url m att\<rparr>, m)))
          else (p, m))
     (parsePreview e (fetchPage e u) u)"

definition previewFor ::
  "'d store \<Rightarrow> env \<Rightarrow> time \<Rightarrow> string \<Rightarrow> ('d, 'r) Manager \<Rightarrow> (linkPreview \<times> ('d, 'r) Manager) option" where
  "previewFor B e now u m =
     (case (case map_of (m_previews m) u of
              Some p \<Rightarrow> if now - lp_at p < previewCacheTTL then Some p else None
            | None \<Rightarrow> None) of
        Some p \<Rightarrow> Some (p, m)
      | None \<Rightarrow>
        map_option (\<lambda>(p, m).
          let cache = AList.update u p (m_previews m);
              cache = (if length cache > previewCacheCap
                       then filter (\<lambda>(_, q). \<not> (now - lp_at q \<ge> previewCacheTTL)) cache else cache)
          in (p, m\<lparr>m_previews := cache\<rparr>))
        (fresh_preview B e now u m))"

definition previewEmbed :: "linkPreview \<Rightarrow> string \<Rightarrow> json" where
  "previewEmbed p pageURL =
     json_map ([(''type'', JStr ''link''), (''url'', JStr pageURL)]
       @ (if lp_title p \<noteq> [] then [(''title'', JStr (lp_title p))] else [])
       @ (if lp_description p \<noteq> [] then [(''description'', JStr (lp_description p))] else [])
       @ (if hostOf pageURL \<noteq> [] then [(''provider'', json_map [(''name'', JStr (hostOf pageURL))])] else [])
       @ (if lp_mirrorURL p \<noteq> []
          then [(''thumbnail'', json_map [(''url'', JStr (lp_mirrorURL p)), (''proxy_url'', JStr (lp_mirrorURL p))])]
          else []))"

definition messageUpdatePayload :: "'d store \<Rightarrow> ('d, 'r) Manager \<Rightarrow> string \<Rightarrow> BufferedMessage \<Rightarrow> payload" where
  "messageUpdatePayload B m userID row =
     (let p = buildMessagePayloadFromRow row;
          p = (if bm_Attachments row \<noteq> [] then AList.update ''attachments'' (JArr (bm_Attachments row)) p else p);
          p = (if bm_ReplyTo row \<noteq> [] then
                 (let netID = (case GetChannel B (m_db m) (bm_ChannelID row) of Inr ch \<Rightarrow> ch_NetworkID ch | Inl _ \<Rightarrow> [])
                  in attachReplyReference B m p
                       \<lparr>mr_Snowflake = bm_ReplyTo row, mr_ChannelID = bm_ChannelID row, mr_GuildID = netID\<rparr> userID)
               else p);
          p = (if bm_Mentions row \<noteq> [] then
                 AList.update ''mentions''
                   (JArr (map (\<lambda>mu. json_map (author_object (mr_ID mu) (mr_Nick mu) False [] None)) (bm_Mentions row))) p
               else p);
          p = (if bm_Reactions row \<noteq> []
               then AList.update ''reactions'' (JArr (reactionsPayload (bm_Reactions row) userID)) p else p)
      in enrichAuthor B m userID p row)"

text \<open>\<open>sendLinkPreview\<close> starts a goroutine: a job is queued, and \<open>run_preview\<close> is what the goroutine does.\<close>

definition sendLinkPreview :: "string \<Rightarrow> string \<Rightarrow> string \<Rightarrow> string \<Rightarrow> ('d, 'r) Manager \<Rightarrow> ('d, 'r) Manager" where
  "sendLinkPreview userID channelID msgID body m =
     (let link = previewableLink body in
      if link = [] then m else m\<lparr>m_previewJobs := m_previewJobs m @ [(userID, channelID, msgID, link)]\<rparr>)"

definition run_preview ::
  "'d store \<Rightarrow> env \<Rightarrow> time \<Rightarrow> string \<times> string \<times> string \<times> string \<Rightarrow> ('d, 'r) Manager \<Rightarrow> ('d, 'r) Manager option" where
  "run_preview B e now = (\<lambda>(userID, channelID, msgID, link) m.
     case previewFor B e now link m of
       None \<Rightarrow> None
     | Some (p, m) \<Rightarrow>
       if lp_title p = [] \<and> lp_description p = [] then Some m
       else
       let embeds = [previewEmbed p link] in
       (case on_db (\<lambda>d. SetMessageEmbeds B d channelID msgID embeds) m of
          (Inl _, m) \<Rightarrow> Some m
        | (Inr row, m) \<Rightarrow>
          gw_dispatch userID ''MESSAGE_UPDATE''
            (json_map (AList.update ''embeds'' (JArr embeds) (messageUpdatePayload B m userID row))) now m))"

section \<open>Peers of the mentions\<close>

definition bioIfSet :: "string \<Rightarrow> json" where
  "bioIfSet bio = (if bio = [] then JNull else JStr bio)"

definition dispatchPeerMember ::
  "'d store \<Rightarrow> time \<Rightarrow> cid \<Rightarrow> string \<Rightarrow> string \<Rightarrow> string \<Rightarrow> ('d, 'r) Manager \<Rightarrow> ('d, 'r) Manager option" where
  "dispatchPeerMember B now c nick mode joinedAt m =
     (let color = peerColorForUser B m (fst c) (snd c) nick;
          roles = (if mode \<noteq> [] then [JStr (IrcRoleID mode)] else [])
                  @ (if color \<noteq> [] then [JStr (IrcColorRoleID color)] else []);
          bio = peerBioText (the_conn m c) nick
      in gw_dispatch (fst c) ''GUILD_MEMBER_UPDATE''
           (json_map [(''guild_id'', JStr (snd c)),
              (''user'', json_map (author_object (IrcAuthorID (''irc:'' @ nick)) nick
                 (peerBotForUser B m (fst c) (snd c) nick) bio (peerAvatarForUser B m (fst c) (snd c) nick))),
              (''bio'', bioIfSet bio), (''nick'', JNull), (''roles'', JArr roles), (''joined_at'', JStr joinedAt)]) now m)"

definition upsertPeerMember ::
  "'d store \<Rightarrow> time \<Rightarrow> cid \<Rightarrow> string \<Rightarrow> string \<Rightarrow> string \<Rightarrow> ('d, 'r) Manager \<Rightarrow> ('d, 'r) Manager option" where
  "upsertPeerMember B now c nick mode joinedAt m =
     (if joinedAt = [] then
        (case GetMembership B (m_db m) (snd c) (fst c) of
           Inl _ \<Rightarrow> Some m
         | Inr mem \<Rightarrow> dispatchPeerMember B now c nick mode (rfc3339 (mem_JoinedAt mem)) m)
      else dispatchPeerMember B now c nick mode joinedAt m)"

fun upsert_each ::
  "'d store \<Rightarrow> time \<Rightarrow> cid \<Rightarrow> string \<Rightarrow> (string \<times> string) list \<Rightarrow> ('d, 'r) Manager \<Rightarrow> ('d, 'r) Manager option" where
  "upsert_each B now c joinedAt [] m = Some m"
| "upsert_each B now c joinedAt ((nick, mode) # ps) m =
     Option.bind (dispatchPeerMember B now c nick mode joinedAt m) (upsert_each B now c joinedAt ps)"

definition upsertMentionedPeers ::
  "'d store \<Rightarrow> time \<Rightarrow> cid \<Rightarrow> mentionUser list \<Rightarrow> ('d, 'r) Manager \<Rightarrow> ('d, 'r) Manager option" where
  "upsertMentionedPeers B now c users m =
     (if length users = 0 then Some m
      else case GetMembership B (m_db m) (snd c) (fst c) of
        Inl _ \<Rightarrow> Some m
      | Inr mem \<Rightarrow>
        upsert_each B now c (rfc3339 (mem_JoinedAt mem))
          (map (\<lambda>u. (mu_nick u, mu_mode u)) (filter (\<lambda>u. \<not> mu_bounce u) users)) m)"

definition UpsertPeersByNick ::
  "'d store \<Rightarrow> time \<Rightarrow> string \<Rightarrow> string \<Rightarrow> string list \<Rightarrow> ('d, 'r) Manager \<Rightarrow> ('d, 'r) Manager option" where
  "UpsertPeersByNick B now userID networkID nicks m =
     (case conn_at m userID networkID of
        None \<Rightarrow> Some m
      | Some _ \<Rightarrow>
        (case GetMembership B (m_db m) networkID userID of
           Inl _ \<Rightarrow> Some m
         | Inr mem \<Rightarrow>
           upsert_each B now (userID, networkID) (rfc3339 (mem_JoinedAt mem))
             (map (\<lambda>n. (n, [])) (filter (\<lambda>n. n \<noteq> []) nicks)) m))"

text \<open>What \<open>sweepPeerMembers\<close> announces once the roster has settled.\<close>

definition bouncer_nicks :: "'d store \<Rightarrow> ('d, 'r) Manager \<Rightarrow> string \<Rightarrow> string list" where
  "bouncer_nicks B m networkID =
     (case ListMemberships B (m_db m) networkID of
        Inl _ \<Rightarrow> []
      | Inr mems \<Rightarrow>
        map to_lower (filter (\<lambda>n. n \<noteq> []) (map (member_nick (\<lambda>u. LiveNick m u networkID)) mems)))"

definition swept_peers :: "'d store \<Rightarrow> ('d, 'r) Manager \<Rightarrow> cid \<Rightarrow> string list \<Rightarrow> (string \<times> string) list" where
  "swept_peers B m c autoJoin =
     (let bouncers = bouncer_nicks B m (snd c);
          cms = concat (map (ChannelMembersDetailed m (fst c) (snd c)) autoJoin)
      in fold (\<lambda>cm seen. if cm_Nick cm = [] \<or> to_lower (cm_Nick cm) \<in> set bouncers \<or> cm_Nick cm \<in> fst ` set seen
                         then seen else seen @ [(cm_Nick cm, cm_Mode cm)]) cms [])"

fun sweep_each ::
  "'d store \<Rightarrow> time \<Rightarrow> cid \<Rightarrow> (string \<times> string) list \<Rightarrow> ('d, 'r) Manager \<Rightarrow> ('d, 'r) Manager option" where
  "sweep_each B now c [] m = Some m"
| "sweep_each B now c ((nick, mode) # ps) m =
     Option.bind (upsertPeerMember B now c nick mode [] m) (sweep_each B now c ps)"

definition sweepPeerMembers ::
  "'d store \<Rightarrow> time \<Rightarrow> cid \<Rightarrow> string list \<Rightarrow> ('d, 'r) Manager \<Rightarrow> ('d, 'r) Manager option" where
  "sweepPeerMembers B now c autoJoin m = sweep_each B now c (swept_peers B m c autoJoin) m"

section \<open>Messages and queries\<close>

definition in_row ::
  "string \<Rightarrow> string \<Rightarrow> string \<Rightarrow> string \<Rightarrow> string \<Rightarrow> string \<Rightarrow> string \<Rightarrow> json list \<Rightarrow> mentionUser list \<Rightarrow> BufferedMessage" where
  "in_row msgID channelID author body ts msgid replyTo atts mentioned =
     \<lparr>bm_ID = msgID, bm_ChannelID = channelID, bm_AuthorID = ''irc:'' @ author, bm_AuthorName = author, bm_Content = body,
      bm_Nonce = JNull, bm_Timestamp = ts, bm_Type = 0, bm_MsgID = msgid, bm_ReplyTo = replyTo, bm_Reactions = [],
      bm_Attachments = atts, bm_Embeds = [],
      bm_Mentions = map (\<lambda>u. \<lparr>mr_Nick = mu_nick u, mr_ID = mu_id u\<rparr>) mentioned\<rparr>"

text \<open>The tail of both relays: the row is appended, and only then previewed and indexed by its msgid.\<close>

definition buffer_row :: "'d store \<Rightarrow> cid \<Rightarrow> BufferedMessage \<Rightarrow> ('d, 'r) Manager \<Rightarrow> ('d, 'r) Manager" where
  "buffer_row B c row m =
     (case on_db (\<lambda>d. AppendMessage B d row) m of
        (Inl _, m) \<Rightarrow> m
      | (Inr _, m) \<Rightarrow>
        let m = sendLinkPreview (fst c) (bm_ChannelID row) (bm_ID row) (bm_Content row) m
        in if bm_MsgID row \<noteq> []
           then snd (on_db (\<lambda>d. SetMessageMsgID B d (snd c) (bm_ChannelID row) (bm_ID row) (bm_MsgID row)) m)
           else m)"

definition register_live :: "cid \<Rightarrow> msgRef \<Rightarrow> string \<Rightarrow> ('d, 'r) Manager \<Rightarrow> ('d, 'r) Manager" where
  "register_live c ref msgid m =
     (if msgid \<noteq> [] then put_conn c (registerMsgid (the_conn m c) ref msgid) m else m)"

definition mention_self ::
  "('d, 'r) hooks \<Rightarrow> cid \<Rightarrow> string \<Rightarrow> mentionUser list \<Rightarrow> ('d, 'r) Manager \<Rightarrow> ('d, 'r) Manager option" where
  "mention_self h c channelID mentioned m =
     (case h_mentionRelay h of
        Some f \<Rightarrow> if fst c \<in> mu_id ` set mentioned then f (fst c) channelID m else Some m
      | None \<Rightarrow> Some m)"

definition with_atts :: "json list \<Rightarrow> payload \<Rightarrow> payload" where
  "with_atts atts p = (if atts \<noteq> [] then AList.update ''attachments'' (JArr atts) p else p)"

definition with_mentions :: "string \<Rightarrow> mentionUser list \<Rightarrow> mentionChannel list \<Rightarrow> payload \<Rightarrow> payload" where
  "with_mentions networkID mentioned mchans p =
     (let p = (if mentioned \<noteq> [] then AList.update ''mentions'' (JArr (map mentionUserPayload mentioned)) p else p)
      in if mchans \<noteq> []
         then AList.update ''mention_channels'' (JArr (map (\<lambda>ch. mentionChannelPayload ch networkID) mchans)) p else p)"

definition dispatchQuery ::
  "'d store \<Rightarrow> env \<Rightarrow> time \<Rightarrow> cid \<Rightarrow> string \<Rightarrow> string \<Rightarrow> string \<Rightarrow> string \<Rightarrow> string \<Rightarrow> ('d, 'r) Manager \<Rightarrow> ('d, 'r) Manager option" where
  "dispatchQuery B e now c author body ts msgid replyMsgid m =
     (case on_ids (\<lambda>d s. EnsureDMChannel B d (new_id now) s (fst c) (snd c) author now) m of
        (Inl _, m) \<Rightarrow> Some m
      | (Inr dm, m) \<Rightarrow>
        do {
          m \<leftarrow> (if now - dm_CreatedAt dm < 3000000000
                then gw_dispatch (fst c) ''CHANNEL_CREATE'' (dmChannelPayload B m c dm) now m else Some m);
          let (msgID, m) = mint_new now m;
          let body = FormatIRC body;
          let p = with_reply B m c replyMsgid
                    (buildMessagePayload msgID (dm_ID dm) author body ts (peerBioText (the_conn m c) author)
                       (peerAvatarForUser B m (fst c) (snd c) author) (peerBotForUser B m (fst c) (snd c) author));
          let m = register_live c \<lparr>mr_Snowflake = msgID, mr_ChannelID = dm_ID dm, mr_GuildID = []\<rparr> msgid m;
          let (atts, m) = imageAttachments B e now body m;
          m \<leftarrow> gw_dispatch (fst c) ''MESSAGE_CREATE'' (json_map (with_atts atts p)) now m;
          let m = buffer_row B c
                    (in_row msgID (dm_ID dm) author body ts msgid (replyRefSnowflake B m c replyMsgid) atts []) m;
          Some (snd (on_db (\<lambda>d. TouchDMChannel B d (dm_ID dm) now) m))
        })"

definition dispatchMessage ::
  "'d store \<Rightarrow> env \<Rightarrow> ('d, 'r) hooks \<Rightarrow> time \<Rightarrow> cid \<Rightarrow> string \<Rightarrow> string \<Rightarrow> string \<Rightarrow> string \<Rightarrow> string \<Rightarrow> string \<Rightarrow>
     ('d, 'r) Manager \<Rightarrow> ('d, 'r) Manager option" where
  "dispatchMessage B e h now c target author body ts msgid replyMsgid m =
     (if equal_fold author ''HistServ'' then Some m
      else if \<not> is_channel_name target then dispatchQuery B e now c author body ts msgid replyMsgid m
      else case on_ids (\<lambda>d s. EnsureChannel B d (new_id now) s (snd c) target now) m of
        (Inl _, m) \<Rightarrow> Some m
      | (Inr ch, m) \<Rightarrow>
        do {
          let (msgID, m) = mint_new now m;
          let ((body, mentioned, mchans), m) = discordize B e now (fst c) (snd c) target (FormatIRC body) m;
          let p = with_reply B m c replyMsgid
                    (buildMessagePayload msgID (ch_ID ch) author body ts (peerBioText (the_conn m c) author)
                       (peerAvatarForUser B m (fst c) (snd c) author) (peerBotForUser B m (fst c) (snd c) author));
          m \<leftarrow> upsertMentionedPeers B now c mentioned m;
          m \<leftarrow> mention_self h c (ch_ID ch) mentioned m;
          let (atts, m) = imageAttachments B e now body m;
          let m = register_live c \<lparr>mr_Snowflake = msgID, mr_ChannelID = ch_ID ch, mr_GuildID = snd c\<rparr> msgid m;
          m \<leftarrow> gw_dispatch (fst c) ''MESSAGE_CREATE''
                 (json_map (with_atts atts (with_mentions (snd c) mentioned mchans p))) now m;
          Some (buffer_row B c
                  (in_row msgID (ch_ID ch) author body ts msgid (replyRefSnowflake B m c replyMsgid) atts mentioned) m)
        })"

end
