(* ===== verification/Bridge.thy ===== *)
theory Bridge
  imports Relay
begin

text \<open>
  The two-way bridges of \<open>manager.go\<close>: reactions, redactions, topics, nicks, presence, renames, typing, and what is
  sent upstream through the send worker of a connection (\<open>multiline.go\<close>). A request that comes from the Discord side
  returns an error of \<open>mgr_err\<close> or none; what a request sends upstream is only confirmed by the event the server
  broadcasts.
\<close>

datatype mgr_err = NotConnected string | LinkDown string | ReadOnlyChannel | ErrUnknownMessage | ErrNotOwner

text \<open>The guard of every request: the connection exists and has a client.\<close>

definition upstream :: "('d, 'r) Manager \<Rightarrow> string \<Rightarrow> string \<Rightarrow> mgr_err + girc" where
  "upstream m userID networkID =
     (case conn_at m userID networkID of
        None \<Rightarrow> Inl (NotConnected networkID)
      | Some _ \<Rightarrow>
        (case client_at m userID networkID of None \<Rightarrow> Inl (LinkDown networkID) | Some g \<Rightarrow> Inr g))"

definition request ::
  "string \<Rightarrow> string \<Rightarrow> ircAction \<Rightarrow> ('d, 'r) Manager \<Rightarrow> mgr_err option \<times> ('d, 'r) Manager" where
  "request userID networkID a m =
     (case upstream m userID networkID of Inl e \<Rightarrow> (Some e, m) | Inr _ \<Rightarrow> (None, send (userID, networkID) a m))"

section \<open>Reactions\<close>

definition ReactionsSupported :: "('d, 'r) Manager \<Rightarrow> string \<Rightarrow> string \<Rightarrow> bool" where
  "ReactionsSupported m userID networkID =
     (case client_at m userID networkID of
        None \<Rightarrow> False
      | Some g \<Rightarrow>
        list_ex (\<lambda>t. trim_space t = ''msgid'')
          (split_on (CHR '','') (case g_option g ''MSGREFTYPES'' of Some v \<Rightarrow> v | None \<Rightarrow> [])))"

definition persistReactions :: "'d store \<Rightarrow> cid \<Rightarrow> msgRef \<Rightarrow> ('d, 'r) Manager \<Rightarrow> ('d, 'r) Manager" where
  "persistReactions B c ref m =
     snd (on_db (\<lambda>d. UpdateMessageReactions B d (mr_ChannelID ref) (mr_Snowflake ref)
                       (reactionSnapshot (the_conn m c) (mr_Snowflake ref))) m)"

definition dispatchReaction ::
  "time \<Rightarrow> cid \<Rightarrow> msgRef \<Rightarrow> string \<Rightarrow> string \<Rightarrow> bool \<Rightarrow> ('d, 'r) Manager \<Rightarrow> ('d, 'r) Manager option" where
  "dispatchReaction now c ref userID emoji remove m =
     gw_dispatch (fst c) (if remove then ''MESSAGE_REACTION_REMOVE'' else ''MESSAGE_REACTION_ADD'')
       (json_map ([(''user_id'', JStr userID), (''channel_id'', JStr (mr_ChannelID ref)),
                   (''message_id'', JStr (mr_Snowflake ref)),
                   (''emoji'', json_map [(''id'', JNull), (''name'', JStr emoji)])]
          @ (if mr_GuildID ref \<noteq> [] then [(''guild_id'', JStr (mr_GuildID ref))] else []))) now m"

text \<open>The state change shared by both directions.\<close>

definition react ::
  "'d store \<Rightarrow> time \<Rightarrow> cid \<Rightarrow> msgRef \<Rightarrow> string \<Rightarrow> string \<Rightarrow> string \<Rightarrow> bool \<Rightarrow> ('d, 'r) Manager \<Rightarrow> ('d, 'r) Manager option" where
  "react B now c ref snowflake emoji userID remove m =
     (let (changed, m) = on_conn c (\<lambda>k. trackReaction k snowflake emoji userID remove) m in
      if \<not> changed then Some m
      else dispatchReaction now c ref userID emoji remove (persistReactions B c ref m))"

definition applyReaction ::
  "'d store \<Rightarrow> time \<Rightarrow> cid \<Rightarrow> string \<Rightarrow> string \<Rightarrow> string \<Rightarrow> bool \<Rightarrow> ('d, 'r) Manager \<Rightarrow> ('d, 'r) Manager option" where
  "applyReaction B now c nick msgid emoji remove m =
     (case resolveRef B c msgid m of
        (None, m) \<Rightarrow> Some m
      | (Some ref, m) \<Rightarrow> react B now c ref (mr_Snowflake ref) emoji (IrcAuthorID (''irc:'' @ nick)) remove m)"

definition reaction_ref ::
  "'d store \<Rightarrow> time \<Rightarrow> string \<Rightarrow> string \<Rightarrow> string \<Rightarrow> string \<Rightarrow> ('d, 'r) Manager \<Rightarrow> msgRef \<times> ('d, 'r) Manager" where
  "reaction_ref B now userID networkID target messageID m =
     (case refBySnowflake (the_conn m (userID, networkID)) messageID of
        Some ref \<Rightarrow> (ref, m)
      | None \<Rightarrow>
        (case GetChannelByIRC B (m_db m) networkID target of
           Inr ch \<Rightarrow> (\<lparr>mr_Snowflake = messageID, mr_ChannelID = ch_ID ch, mr_GuildID = networkID\<rparr>, m)
         | Inl _ \<Rightarrow>
           (case on_ids (\<lambda>d s. EnsureDMChannel B d (new_id now) s userID networkID target now) m of
              (Inr dm, m) \<Rightarrow> (\<lparr>mr_Snowflake = messageID, mr_ChannelID = dm_ID dm, mr_GuildID = []\<rparr>, m)
            | (Inl _, m) \<Rightarrow> (\<lparr>mr_Snowflake = messageID, mr_ChannelID = target, mr_GuildID = []\<rparr>, m))))"

definition SendReaction ::
  "'d store \<Rightarrow> time \<Rightarrow> string \<Rightarrow> string \<Rightarrow> string \<Rightarrow> string \<Rightarrow> string \<Rightarrow> string \<Rightarrow> bool \<Rightarrow> ('d, 'r) Manager \<Rightarrow>
     (mgr_err option \<times> ('d, 'r) Manager) option" where
  "SendReaction B now userID networkID target messageID channelID emoji remove m =
     (if target = SystemIRCName then Some (Some ReadOnlyChannel, m)
      else case upstream m userID networkID of
        Inl e \<Rightarrow> Some (Some e, m)
      | Inr g \<Rightarrow>
        let c = (userID, networkID);
            live = (case lookupMsgid (the_conn m c) messageID of Some i \<Rightarrow> i | None \<Rightarrow> []);
            msgid = (if live = [] \<and> channelID \<noteq> [] then MessageMsgID B (m_db m) channelID messageID else live);
            m = (if g_cap g ''message-tags'' \<and> msgid \<noteq> [] then
                   send c (SendEvent \<lparr>ie_tags = [(''+reply'', msgid), (''+draft/reply'', msgid),
                       (if remove then ''+draft/unreact'' else ''+draft/react'', emoji)],
                     ie_command = ''TAGMSG'', ie_params = [target]\<rparr>) m
                 else m);
            (ref, m) = reaction_ref B now userID networkID target messageID m
        in map_option (Pair None) (react B now c ref messageID emoji userID remove m))"

section \<open>Redactions\<close>

definition dispatchDelete :: "time \<Rightarrow> cid \<Rightarrow> msgRef \<Rightarrow> ('d, 'r) Manager \<Rightarrow> ('d, 'r) Manager option" where
  "dispatchDelete now c ref m =
     gw_dispatch (fst c) ''MESSAGE_DELETE''
       (json_map ([(''id'', JStr (mr_Snowflake ref)), (''channel_id'', JStr (mr_ChannelID ref))]
          @ (if mr_GuildID ref \<noteq> [] then [(''guild_id'', JStr (mr_GuildID ref))] else []))) now m"

definition applyRedaction :: "'d store \<Rightarrow> time \<Rightarrow> cid \<Rightarrow> string \<Rightarrow> ('d, 'r) Manager \<Rightarrow> ('d, 'r) Manager option" where
  "applyRedaction B now c msgid m =
     (case resolveRef B c msgid m of
        (None, m) \<Rightarrow> Some m
      | (Some ref, m) \<Rightarrow>
        dispatchDelete now c ref
          (snd (on_db (\<lambda>d. MessageStore.DeleteMessage B d (snd c) (mr_ChannelID ref) (mr_Snowflake ref)) m)))"

definition DeleteMessage ::
  "'d store \<Rightarrow> time \<Rightarrow> string \<Rightarrow> string \<Rightarrow> string \<Rightarrow> string \<Rightarrow> string \<Rightarrow> ('d, 'r) Manager \<Rightarrow>
     (mgr_err option \<times> ('d, 'r) Manager) option" where
  "DeleteMessage B now userID networkID target messageID channelID m =
     (case upstream m userID networkID of
        Inl e \<Rightarrow> Some (Some e, m)
      | Inr g \<Rightarrow>
        (case MessageByID B (m_db m) channelID messageID of
           None \<Rightarrow> Some (Some ErrUnknownMessage, m)
         | Some msg \<Rightarrow>
           if bm_AuthorID msg \<noteq> userID then Some (Some ErrNotOwner, m)
           else
             let c = (userID, networkID);
                 live = (case lookupMsgid (the_conn m c) messageID of Some i \<Rightarrow> i | None \<Rightarrow> []);
                 msgid = (if live = [] then bm_MsgID msg else live);
                 m = (if msgid \<noteq> [] \<and> g_cap g ''draft/message-redaction''
                      then send c (event ''REDACT'' [target, msgid, ''deleted'']) m else m);
                 m = snd (on_db (\<lambda>d. MessageStore.DeleteMessage B d networkID channelID messageID) m);
                 ref = (case refBySnowflake (the_conn m c) messageID of
                          Some ref \<Rightarrow> ref
                        | None \<Rightarrow> \<lparr>mr_Snowflake = messageID, mr_ChannelID = channelID, mr_GuildID = networkID\<rparr>)
             in map_option (Pair None) (dispatchDelete now c ref m)))"

section \<open>Topics, nicks and renames\<close>

definition applyTopic ::
  "'d store \<Rightarrow> time \<Rightarrow> cid \<Rightarrow> string \<Rightarrow> string \<Rightarrow> ('d, 'r) Manager \<Rightarrow> ('d, 'r) Manager option" where
  "applyTopic B now c ircChannel topic m =
     (case on_ids (\<lambda>d s. EnsureChannel B d (new_id now) s (snd c) ircChannel now) m of
        (Inl _, m) \<Rightarrow> Some m
      | (Inr ch, m) \<Rightarrow>
        if ch_Topic ch = topic then Some m
        else case on_db (\<lambda>d. SetChannelTopic B d (ch_ID ch) topic) m of
          (Inl _, m) \<Rightarrow> Some m
        | (Inr _, m) \<Rightarrow>
          gw_dispatch (fst c) ''CHANNEL_UPDATE'' (channelUpdatePayload B m c (ch\<lparr>ch_Topic := topic\<rparr>)) now m)"

definition SetTopic ::
  "string \<Rightarrow> string \<Rightarrow> string \<Rightarrow> string \<Rightarrow> ('d, 'r) Manager \<Rightarrow> mgr_err option \<times> ('d, 'r) Manager" where
  "SetTopic userID networkID ircChannel topic m = request userID networkID (event ''TOPIC'' [ircChannel, topic]) m"

definition applyOwnNick ::
  "'d store \<Rightarrow> ('d, 'r) hooks \<Rightarrow> cid \<Rightarrow> string \<Rightarrow> ('d, 'r) Manager \<Rightarrow> ('d, 'r) Manager option" where
  "applyOwnNick B h c nick m =
     (case GetMembership B (m_db m) (snd c) (fst c) of
        Inl _ \<Rightarrow> Some m
      | Inr mem \<Rightarrow>
        if mem_Nick mem = nick then Some m
        else case on_db (\<lambda>d. UpsertMembership B d (mem\<lparr>mem_Nick := nick\<rparr>)) m of
          (Inl _, m) \<Rightarrow> Some m
        | (Inr _, m) \<Rightarrow> (case h_memberChange h of None \<Rightarrow> Some m | Some f \<Rightarrow> f (fst c) (snd c) nick m))"

definition SetNick :: "string \<Rightarrow> string \<Rightarrow> string \<Rightarrow> ('d, 'r) Manager \<Rightarrow> mgr_err option \<times> ('d, 'r) Manager" where
  "SetNick userID networkID nick m = request userID networkID (event ''NICK'' [nick]) m"

definition notifyOccupancy ::
  "('d, 'r) hooks \<Rightarrow> cid \<Rightarrow> string \<Rightarrow> ('d, 'r) Manager \<Rightarrow> ('d, 'r) Manager option" where
  "notifyOccupancy h c ircChannel m =
     (case h_occupancy h of None \<Rightarrow> Some m | Some f \<Rightarrow> f (fst c) (snd c) ircChannel m)"

definition fireLinkChange :: "('d, 'r) hooks \<Rightarrow> cid \<Rightarrow> bool \<Rightarrow> ('d, 'r) Manager \<Rightarrow> ('d, 'r) Manager option" where
  "fireLinkChange h c up m =
     (case h_linkChange h of None \<Rightarrow> Some m | Some f \<Rightarrow> f (fst c) (snd c) up m)"

definition stored_spelling :: "'d store \<Rightarrow> ('d, 'r) Manager \<Rightarrow> cid \<Rightarrow> string \<Rightarrow> string" where
  "stored_spelling B m c oldIRC =
     (case GetChannelByIRC B (m_db m) (snd c) oldIRC of
        Inr _ \<Rightarrow> oldIRC
      | Inl _ \<Rightarrow>
        (case GetMembership B (m_db m) (snd c) (fst c) of
           Inl _ \<Rightarrow> oldIRC
         | Inr mem \<Rightarrow>
           (case List.find (\<lambda>ch. equal_fold ch oldIRC) (mem_AutoJoin mem) of Some ch \<Rightarrow> ch | None \<Rightarrow> oldIRC)))"

fun rename_members :: "'d store \<Rightarrow> string \<Rightarrow> string \<Rightarrow> Membership list \<Rightarrow> ('d, 'r) Manager \<Rightarrow> ('d, 'r) Manager" where
  "rename_members B stored newIRC [] m = m"
| "rename_members B stored newIRC (mem # mems) m =
     rename_members B stored newIRC mems
       (if list_ex (\<lambda>ch. equal_fold ch stored) (mem_AutoJoin mem) then
          snd (on_db (\<lambda>d. UpsertMembership B d
                 (mem\<lparr>mem_AutoJoin := map (\<lambda>ch. if equal_fold ch stored then newIRC else ch) (mem_AutoJoin mem)\<rparr>)) m)
        else m)"

definition applyRename ::
  "'d store \<Rightarrow> ('d, 'r) hooks \<Rightarrow> time \<Rightarrow> cid \<Rightarrow> string \<Rightarrow> string \<Rightarrow> ('d, 'r) Manager \<Rightarrow> ('d, 'r) Manager option" where
  "applyRename B h now c oldIRC newIRC m =
     (let stored = stored_spelling B m c oldIRC in
      case on_db (\<lambda>d. NetworkStore.RenameChannel B d (snd c) stored newIRC) m of
        (Inl _, m) \<Rightarrow> Some m
      | (Inr _, m) \<Rightarrow>
        do {
          let m = (case ListMemberships B (m_db m) (snd c) of
                     Inr mems \<Rightarrow> rename_members B stored newIRC mems m
                   | Inl _ \<Rightarrow> m);
          m \<leftarrow> (case GetChannelByIRC B (m_db m) (snd c) newIRC of
                  Inr ch \<Rightarrow> gw_dispatch (fst c) ''CHANNEL_UPDATE'' (channelUpdatePayload B m c ch) now m
                | Inl _ \<Rightarrow> Some m);
          let k = the_conn m c;
          let m = put_conn c (k\<lparr>c_renames := (c_renames k)(to_lower newIRC \<mapsto> stored)\<rparr>) m;
          notifyOccupancy h c newIRC m
        })"

definition RenameChannel ::
  "string \<Rightarrow> string \<Rightarrow> string \<Rightarrow> string \<Rightarrow> ('d, 'r) Manager \<Rightarrow> mgr_err option \<times> ('d, 'r) Manager" where
  "RenameChannel userID networkID oldIRC newIRC m = request userID networkID (event ''RENAME'' [oldIRC, newIRC]) m"

section \<open>Presence and typing\<close>

definition applyStatus :: "cid \<Rightarrow> string \<Rightarrow> ('d, 'r) Manager \<Rightarrow> ('d, 'r) Manager" where
  "applyStatus c status m =
     (case client_at m (fst c) (snd c) of
        None \<Rightarrow> m
      | Some _ \<Rightarrow>
        let m = put_conn c ((the_conn m c)\<lparr>c_ownStatus := status\<rparr>) m in
        if status = ''online'' then send c (event ''AWAY'' []) m
        else if status = ''idle'' then send c (event ''AWAY'' [''away'']) m
        else if status = ''dnd'' then send c (event ''AWAY'' [''do not disturb'']) m
        else m)"

definition SetStatus :: "string \<Rightarrow> string \<Rightarrow> ('d, 'r) Manager \<Rightarrow> ('d, 'r) Manager" where
  "SetStatus userID status m =
     fold (\<lambda>(_, k) m. applyStatus (c_userID k, c_networkID k) status m) (user_conns m userID) m"

definition dispatchSelfPresence :: "time \<Rightarrow> cid \<Rightarrow> string \<Rightarrow> ('d, 'r) Manager \<Rightarrow> ('d, 'r) Manager option" where
  "dispatchSelfPresence now c status m =
     gw_dispatch (fst c) ''PRESENCE_UPDATE''
       (json_map [(''user'', json_map [(''id'', JStr (fst c))]), (''status'', JStr status), (''activities'', JArr []),
          (''client_status'', JObj [])]) now m"

definition typingAllowed :: "girc \<Rightarrow> bool" where
  "typingAllowed g =
     (if \<not> g_cap g ''message-tags'' then False
      else
        let deny = (case g_option g ''CLIENTTAGDENY'' of Some v \<Rightarrow> v | None \<Rightarrow> [])
        in deny = [] \<or> list_all (\<lambda>item. trim_space item \<noteq> ''*'' \<and> trim_space item \<noteq> ''draft/typing'')
             (split_on (CHR '','') deny))"

definition sendTypingTag :: "string \<Rightarrow> string \<Rightarrow> ircAction" where
  "sendTypingTag target state =
     SendEvent \<lparr>ie_tags = [(''+typing'', state)], ie_command = ''TAGMSG'', ie_params = [target]\<rparr>"

definition SendTyping :: "string \<Rightarrow> string \<Rightarrow> string \<Rightarrow> ('d, 'r) Manager \<Rightarrow> mgr_err option \<times> ('d, 'r) Manager" where
  "SendTyping userID networkID target m =
     (if target = SystemIRCName then (None, m)
      else case upstream m userID networkID of
        Inl e \<Rightarrow> (Some e, m)
      | Inr g \<Rightarrow>
        if \<not> typingAllowed g then (None, m)
        else (None, send (userID, networkID) (sendTypingTag target ''active'') m))"

text \<open>The channel of a typing notice: a known channel, or the thread of a query to our own nick.\<close>

definition typing_target ::
  "'d store \<Rightarrow> time \<Rightarrow> cid \<Rightarrow> string \<Rightarrow> string \<Rightarrow> ('d, 'r) Manager \<Rightarrow> (string \<times> string) option \<times> ('d, 'r) Manager" where
  "typing_target B now c nick target m =
     (case GetChannelByIRC B (m_db m) (snd c) target of
        Inr ch \<Rightarrow> (Some (ch_ID ch, snd c), m)
      | Inl _ \<Rightarrow>
        (case GetMembership B (m_db m) (snd c) (fst c) of
           Inl _ \<Rightarrow> (None, m)
         | Inr mem \<Rightarrow>
           if \<not> equal_fold target (mem_Nick mem) then (None, m)
           else case on_ids (\<lambda>d s. EnsureDMChannel B d (new_id now) s (fst c) (snd c) nick now) m of
             (Inl _, m) \<Rightarrow> (None, m)
           | (Inr dm, m) \<Rightarrow> (Some (dm_ID dm, []), m)))"

definition typing_key :: "string \<Rightarrow> string \<Rightarrow> string" where
  "typing_key nick target = to_lower nick @ NUL # to_lower target"

definition dispatchTyping ::
  "'d store \<Rightarrow> time \<Rightarrow> cid \<Rightarrow> string \<Rightarrow> string \<Rightarrow> ('d, 'r) Manager \<Rightarrow> ('d, 'r) Manager option" where
  "dispatchTyping B now c nick target m =
     (let k = the_conn m c; t = (case c_typingLast k (typing_key nick target) of Some t \<Rightarrow> t | None \<Rightarrow> zeroTime) in
      if now - t < 3000000000 then Some m
      else
        let m = put_conn c (k\<lparr>c_typingLast := (c_typingLast k)(typing_key nick target \<mapsto> now)\<rparr>) m in
        (case typing_target B now c nick target m of
           (None, m) \<Rightarrow> Some m
         | (Some (channelID, guildID), m) \<Rightarrow>
           gw_dispatch (fst c) ''TYPING_START''
             (json_map ([(''type'', JInt 1), (''channel_id'', JStr channelID),
                (''user_id'', JStr (IrcAuthorID (''irc:'' @ nick))), (''timestamp'', JInt (now div 1000000000))]
                @ (if guildID \<noteq> [] then [(''guild_id'', JStr guildID)] else []))) now m))"

section \<open>Joining, parting and sending\<close>

definition channelKey :: "'d store \<Rightarrow> ('d, 'r) Manager \<Rightarrow> string \<Rightarrow> string \<Rightarrow> string" where
  "channelKey B m networkID channel =
     (case GetNetwork B (m_db m) networkID of
        Inl _ \<Rightarrow> []
      | Inr net \<Rightarrow> (case map_of (n_ChannelKeys net) (to_lower channel) of Some k \<Rightarrow> k | None \<Rightarrow> []))"

text \<open>\<open>Cmd.Join\<close>, \<open>Cmd.JoinKey\<close> and \<open>Cmd.Part\<close> of the IRC client send these lines.\<close>

definition join_action :: "'d store \<Rightarrow> ('d, 'r) Manager \<Rightarrow> string \<Rightarrow> string \<Rightarrow> ircAction" where
  "join_action B m networkID channel =
     (let key = channelKey B m networkID channel
      in event ''JOIN'' (if key \<noteq> [] then [channel, key] else [channel]))"

definition JoinChannel :: "'d store \<Rightarrow> string \<Rightarrow> string \<Rightarrow> string \<Rightarrow> ('d, 'r) Manager \<Rightarrow> ('d, 'r) Manager" where
  "JoinChannel B userID networkID channel m =
     (case upstream m userID networkID of
        Inl _ \<Rightarrow> m
      | Inr _ \<Rightarrow>
        let c = (userID, networkID)
        in send c (join_action B m networkID channel) (put_conn c (markPending (the_conn m c) channel) m))"

definition PartChannel :: "string \<Rightarrow> string \<Rightarrow> string \<Rightarrow> ('d, 'r) Manager \<Rightarrow> ('d, 'r) Manager" where
  "PartChannel userID networkID channel m =
     (case upstream m userID networkID of
        Inl _ \<Rightarrow> m
      | Inr _ \<Rightarrow>
        let c = (userID, networkID)
        in send c (event ''PART'' [channel]) (put_conn c (snd (clearPending (the_conn m c) channel)) m))"

text \<open>The queueing shared by \<open>SendChannel\<close> and \<open>SendQuery\<close>.\<close>

definition queue_send ::
  "cid \<Rightarrow> string \<Rightarrow> string \<Rightarrow> bool \<Rightarrow> string \<Rightarrow> msgRef \<Rightarrow> ('d, 'r) Manager \<Rightarrow> ('d, 'r) Manager" where
  "queue_send c target body query replyMsgid ref m =
     (let k = the_conn m c;
          k = (if mr_Snowflake ref \<noteq> [] then pushPendingSend k target ref else k)
      in put_conn c (enqueueSend k target body query replyMsgid) m)"

definition SendQuery ::
  "string \<Rightarrow> string \<Rightarrow> string \<Rightarrow> string \<Rightarrow> string \<Rightarrow> string \<Rightarrow> string \<Rightarrow> ('d, 'r) Manager \<Rightarrow>
     mgr_err option \<times> ('d, 'r) Manager" where
  "SendQuery userID networkID nick body msgID channelID replyMsgid m =
     (case upstream m userID networkID of
        Inl e \<Rightarrow> (Some e, m)
      | Inr _ \<Rightarrow>
        (None, queue_send (userID, networkID) nick body True replyMsgid
           \<lparr>mr_Snowflake = msgID, mr_ChannelID = channelID, mr_GuildID = []\<rparr> m))"

definition SendChannel ::
  "string \<Rightarrow> string \<Rightarrow> string \<Rightarrow> string \<Rightarrow> string \<Rightarrow> string \<Rightarrow> string \<Rightarrow> ('d, 'r) Manager \<Rightarrow>
     mgr_err option \<times> ('d, 'r) Manager" where
  "SendChannel userID networkID channel body msgID channelID replyMsgid m =
     (if channel = SystemIRCName then (Some ReadOnlyChannel, m)
      else case upstream m userID networkID of
        Inl e \<Rightarrow> (Some e, m)
      | Inr _ \<Rightarrow>
        (None, queue_send (userID, networkID) channel body False replyMsgid
           \<lparr>mr_Snowflake = msgID, mr_ChannelID = channelID, mr_GuildID = networkID\<rparr> m))"

text \<open>One job of \<open>runSendWorker\<close>: None when the queue is empty (the worker waits). A job taken while the link is
  down is dropped.\<close>

definition send_all :: "cid \<Rightarrow> ircAction list \<Rightarrow> ('d, 'r) Manager \<Rightarrow> ('d, 'r) Manager" where
  "send_all c as m = fold (send c) as m"

definition send_worker_step :: "cid \<Rightarrow> ('d, 'r) Manager \<Rightarrow> ('d, 'r) Manager option" where
  "send_worker_step c m =
     (case c_sendJobs (the_conn m c) of
        [] \<Rightarrow> None
      | job # jobs \<Rightarrow>
        let m = put_conn c ((the_conn m c)\<lparr>c_sendJobs := jobs\<rparr>) m in
        (case client_at m (fst c) (snd c) of
           None \<Rightarrow> Some m
         | Some g \<Rightarrow>
           let m = (if typingAllowed g then send c (sendTypingTag (sj_target job) ''done'') m else m);
               k = the_conn m c;
               (acts, n) = sendLines (m_batchSeq m) (c_multilineCapUp k) (multilineLimits k) (sj_target job)
                             (sj_content job) (sj_replyMsgid job)
           in Some ((send_all c acts m)\<lparr>m_batchSeq := n\<rparr>)))"

text \<open>The echo of our own message completes the mapping of its msgid.\<close>

definition own_echo :: "'d store \<Rightarrow> cid \<Rightarrow> string \<Rightarrow> string \<Rightarrow> ('d, 'r) Manager \<Rightarrow> ('d, 'r) Manager" where
  "own_echo B c target msgid m =
     (if msgid = [] then m
      else
        let (ref, m) = on_conn c (\<lambda>k. popPendingSend k target) m in
        if mr_Snowflake ref = [] then m
        else
          let m = put_conn c (registerMsgid (the_conn m c) ref msgid) m
          in snd (on_db (\<lambda>d. SetMessageMsgID B d (snd c) (mr_ChannelID ref) (mr_Snowflake ref) msgid) m))"

end
