(* ===== verification/History.thy ===== *)
theory History
  imports Bridge
begin

text \<open>
  Batches of incoming frames: the draft/multiline batches of \<open>multiline.go\<close>, joined into one message when they close,
  and the draft/chathistory batches of \<open>chathistory.go\<close>, which fill the buffer of a channel that was just joined or
  that a client scrolls up. \<open>FetchOlder\<close> waits for the answer of the server: what it does before the wait is
  \<open>fetch_ask\<close> and what it does with the answer is \<open>fetch_take\<close>; a timeout leaves the waiter registered.
\<close>

record source =
  src_name :: string
  src_ident :: string
  src_host :: string

record girc_event =
  ev_command :: string
  ev_params :: "string list"
  ev_tags :: "(string \<times> string) list"
  ev_source :: "source option"
  ev_echo :: bool

text \<open>The reads of Go: \<open>xs[i]\<close> and \<open>xs[1:]\<close> panic out of range, which is the value None.\<close>

definition read_at :: "'a list \<Rightarrow> nat \<Rightarrow> 'a option" where
  "read_at xs i = (if i < length xs then Some (xs ! i) else None)"

definition read_from1 :: "'a list \<Rightarrow> 'a list option" where
  "read_from1 xs = (if xs = [] then None else Some (tl xs))"

definition ev_last :: "girc_event \<Rightarrow> string" where
  "ev_last ev = (if ev_params ev = [] then [] else last (ev_params ev))"

definition tag :: "girc_event \<Rightarrow> string \<Rightarrow> string" where
  "tag ev name = (case map_of (ev_tags ev) name of Some v \<Rightarrow> v | None \<Rightarrow> [])"

text \<open>The reply tag under its current name, or else under its draft name.\<close>

definition reply_tag :: "girc_event \<Rightarrow> string" where
  "reply_tag ev = (if tag ev ''+reply'' = [] then tag ev ''+draft/reply'' else tag ev ''+reply'')"

definition parseChatTime :: "string \<Rightarrow> time" where
  "parseChatTime s = (case parse_rfc3339_nano s of Some t \<Rightarrow> t | None \<Rightarrow> zeroTime)"

section \<open>Chathistory batches\<close>

definition isChatSubcommand :: "string \<Rightarrow> bool" where
  "isChatSubcommand s = (s \<in> {''LATEST'', ''BEFORE'', ''AFTER'', ''BETWEEN'', ''AROUND'', ''TARGETS''})"

definition maybeChatPrefill :: "'d store \<Rightarrow> cid \<Rightarrow> string \<Rightarrow> ('d, 'r) Manager \<Rightarrow> ('d, 'r) Manager" where
  "maybeChatPrefill B c ircChannel m =
     (if \<not> is_channel_name ircChannel then m
      else if \<not> c_histCapUp (the_conn m c) then m
      else if ChatPrefillDone B (m_db m) (snd c) ircChannel then m
      else send c (event ''CHATHISTORY'' [''LATEST'', ircChannel, ''*'', ''50'']) m)"

definition chatBatchFrame :: "time \<Rightarrow> cid \<Rightarrow> girc_event \<Rightarrow> string \<Rightarrow> ('d, 'r) Manager \<Rightarrow> ('d, 'r) Manager option" where
  "chatBatchFrame now c ev ref m =
     (if length (ev_params ev) = 0 \<or> ev_source ev = None then Some m
      else
        let t = (if tag ev ''time'' = [] then zeroTime else parseChatTime (tag ev ''time''));
            at = (if t = zeroTime then now else t) in
        do {
          target \<leftarrow> read_at (ev_params ev) 0;
          src \<leftarrow> ev_source ev;
          Some (put_conn c (appendChatFrame (the_conn m c) ref
                  \<lparr>cf_target = target, cf_author = src_name src, cf_content = ev_last ev, cf_at = at,
                   cf_msgid = tag ev ''msgid'', cf_extraMsgids = [], cf_reply = reply_tag ev\<rparr>) m)
        })"

definition inChatBatch :: "('d, 'r) Manager \<Rightarrow> cid \<Rightarrow> girc_event \<Rightarrow> bool" where
  "inChatBatch m c ev = (tag ev ''batch'' \<noteq> [] \<and> chatBatchActive (the_conn m c) (tag ev ''batch''))"

text \<open>The exchange sort of \<open>flushChatBatch\<close>: one round carries the smallest time to the front.\<close>

fun exchange :: "chatFrame \<Rightarrow> chatFrame list \<Rightarrow> chatFrame \<times> chatFrame list" where
  "exchange x [] = (x, [])"
| "exchange x (y # ys) =
     (if cf_at y < cf_at x then (case exchange y ys of (z, zs) \<Rightarrow> (z, x # zs))
      else (case exchange x ys of (z, zs) \<Rightarrow> (z, y # zs)))"

lemma length_exchange: "length (snd (exchange x ys)) = length ys"
  by (induction ys arbitrary: x) (simp_all add: split_beta)

function sort_frames :: "chatFrame list \<Rightarrow> chatFrame list" where
  "sort_frames [] = []"
| "sort_frames (x # xs) = (let (z, zs) = exchange x xs in z # sort_frames zs)"
  by pat_completeness auto
termination sort_frames
  by (relation "measure length") (auto dest: arg_cong [where f = "\<lambda>p. length (snd p)"] simp: length_exchange)

definition frame_time :: "time \<Rightarrow> time \<Rightarrow> time" where
  "frame_time now at =
     (let ts = (if at = zeroTime \<or> at > now then now else at) in ts - (ts - zeroTime) mod 1000000)"

definition frame_id :: "bool \<Rightarrow> string \<Rightarrow> time \<Rightarrow> ('d, 'r) Manager \<Rightarrow> string \<times> ('d, 'r) Manager" where
  "frame_id isLive ceiling ts m =
     (let (i, s) = (if isLive \<or> ceiling = [] then NewAt (m_sf m) (ts div 1000000)
                    else NewBelow (m_sf m) (ts div 1000000) ceiling)
      in (i, set_store (m_db m) s m))"

fun index_aliases ::
  "'d store \<Rightarrow> cid \<Rightarrow> msgRef \<Rightarrow> string list \<Rightarrow> ('d, 'r) Manager \<Rightarrow> ('d, 'r) Manager" where
  "index_aliases B c ref [] m = m"
| "index_aliases B c ref (i # is) m =
     (let m = put_conn c (registerMsgidAlias (the_conn m c) ref i) m
      in index_aliases B c ref is
           (snd (on_db (\<lambda>d. IndexMessageMsgID B d (snd c) i (mr_ChannelID ref) (mr_Snowflake ref)) m)))"

definition index_frame :: "'d store \<Rightarrow> cid \<Rightarrow> msgRef \<Rightarrow> string \<Rightarrow> string list \<Rightarrow> ('d, 'r) Manager \<Rightarrow> ('d, 'r) Manager" where
  "index_frame B c ref msgid extras m =
     (if msgid = [] then m
      else
        let m = put_conn c (registerMsgid (the_conn m c) ref msgid) m;
            m = snd (on_db (\<lambda>d. SetMessageMsgID B d (snd c) (mr_ChannelID ref) (mr_Snowflake ref) msgid) m)
        in index_aliases B c ref extras m)"

definition known_msgid :: "'d store \<Rightarrow> ('d, 'r) Manager \<Rightarrow> cid \<Rightarrow> string \<Rightarrow> bool" where
  "known_msgid B m c msgid = (msgid \<noteq> [] \<and> LookupMessageByMsgID B (m_db m) (snd c) msgid \<noteq> None)"

text \<open>One frame: whether it was inserted.\<close>

definition flush_frame ::
  "'d store \<Rightarrow> env \<Rightarrow> ('d, 'r) hooks \<Rightarrow> time \<Rightarrow> cid \<Rightarrow> bool \<Rightarrow> string \<Rightarrow> chatFrame \<Rightarrow> ('d, 'r) Manager \<Rightarrow>
     (bool \<times> ('d, 'r) Manager) option" where
  "flush_frame B e h now c isLive ceiling f m =
     (if \<not> is_channel_name (cf_target f) then Some (False, m)
      else if known_msgid B m c (cf_msgid f) then Some (False, m)
      else
        let ts = frame_time now (cf_at f) in
        case on_ids (\<lambda>d s. EnsureChannel B d (new_id now) s (snd c) (cf_target f) now) m of
          (Inl _, m) \<Rightarrow> Some (False, m)
        | (Inr ch, m) \<Rightarrow>
          do {
            let (msgID, m) = frame_id isLive ceiling ts m;
            let ((body, mentioned, mchans), m) =
                  discordize B e now (fst c) (snd c) (cf_target f) (FormatIRC (cf_content f)) m;
            m \<leftarrow> mention_self h c (ch_ID ch) mentioned m;
            let (atts, m) = imageAttachments B e now body m;
            let row = in_row msgID (ch_ID ch) (cf_author f) body (rfc3339_nano ts) (cf_msgid f)
                        (replyRefSnowflake B m c (cf_reply f)) atts [];
            (case on_db (\<lambda>d. AppendMessage B d row) m of
               (Inl _, m) \<Rightarrow> Some (False, m)
             | (Inr _, m) \<Rightarrow>
               do {
                 let m = index_frame B c \<lparr>mr_Snowflake = msgID, mr_ChannelID = ch_ID ch, mr_GuildID = snd c\<rparr>
                           (cf_msgid f) (cf_extraMsgids f) m;
                 m \<leftarrow> (if \<not> isLive then Some m
                       else
                         do {
                           m \<leftarrow> upsertMentionedPeers B now c mentioned m;
                           let p = buildMessagePayload msgID (ch_ID ch) (cf_author f) body (rfc3339_nano ts)
                                     (peerBioText (the_conn m c) (cf_author f))
                                     (peerAvatarForUser B m (fst c) (snd c) (cf_author f))
                                     (peerBotForUser B m (fst c) (snd c) (cf_author f));
                           gw_dispatch (fst c) ''MESSAGE_CREATE''
                             (json_map (with_reply B m c (cf_reply f)
                                (with_atts atts (with_mentions (snd c) mentioned mchans p)))) now m
                         });
                 Some (True, m)
               })
          })"

fun flush_frames ::
  "'d store \<Rightarrow> env \<Rightarrow> ('d, 'r) hooks \<Rightarrow> time \<Rightarrow> cid \<Rightarrow> bool \<Rightarrow> string \<Rightarrow> chatFrame list \<Rightarrow> ('d, 'r) Manager \<Rightarrow>
     (nat \<times> ('d, 'r) Manager) option" where
  "flush_frames B e h now c isLive ceiling [] m = Some (0, m)"
| "flush_frames B e h now c isLive ceiling (f # fs) m =
     (case flush_frame B e h now c isLive ceiling f m of
        None \<Rightarrow> None
      | Some (new, m) \<Rightarrow>
        (case flush_frames B e h now c isLive ceiling fs m of
           None \<Rightarrow> None
         | Some (n, m) \<Rightarrow> Some (if new then n + 1 else n, m)))"

definition flushChatBatch ::
  "'d store \<Rightarrow> env \<Rightarrow> ('d, 'r) hooks \<Rightarrow> time \<Rightarrow> cid \<Rightarrow> chatBatch \<Rightarrow> bool \<Rightarrow> string \<Rightarrow> ('d, 'r) Manager \<Rightarrow>
     (nat \<times> ('d, 'r) Manager) option" where
  "flushChatBatch B e h now c acc isLive ceiling m =
     (let m = (if isLive \<and> cb_target acc \<noteq> [] then snd (on_db (\<lambda>d. MarkChatPrefill B d (snd c) (cb_target acc) now) m) else m)
      in flush_frames B e h now c isLive ceiling (sort_frames (cb_frames acc)) m)"

definition batch_target :: "string list \<Rightarrow> string option" where
  "batch_target params =
     do {
       sub \<leftarrow> (if length params > 3 then map_option isChatSubcommand (read_at params 2) else Some False);
       if sub then read_at params 3 else if length params > 2 then read_at params 2 else Some []
     }"

definition chatBatchControl ::
  "'d store \<Rightarrow> env \<Rightarrow> ('d, 'r) hooks \<Rightarrow> time \<Rightarrow> cid \<Rightarrow> girc_event \<Rightarrow> ('d, 'r) Manager \<Rightarrow> ('d, 'r) Manager option" where
  "chatBatchControl B e h now c ev m =
     (let ps = ev_params ev in
      if length ps < 1 then Some m
      else
        do {
          ref \<leftarrow> read_at ps 0;
          if has_prefix ref ''+'' then
            (if length ps < 2 then Some m
             else
               do {
                 batchType \<leftarrow> read_at ps 1;
                 if batchType \<noteq> ''draft/chathistory'' \<and> batchType \<noteq> ''chathistory'' then Some m
                 else
                   do {
                     target \<leftarrow> batch_target ps;
                     name \<leftarrow> read_from1 ref;
                     let k = openChatBatch (the_conn m c) name \<lparr>cb_target = target, cb_frames = []\<rparr>;
                     Some (put_conn c (pushChatStack k name) m)
                   }
               })
          else if has_prefix ref ''-'' then
            do {
              name \<leftarrow> read_from1 ref;
              (case closeChatBatch (the_conn m c) name of
                 (None, k) \<Rightarrow> Some (put_conn c k m)
               | (Some acc, k) \<Rightarrow>
                 let k = popChatStack k name in
                 if c_pageWaiting k \<and> cb_target acc \<noteq> [] \<and> equal_fold (cb_target acc) (c_pageTarget k) then
                   Some (put_conn c (k\<lparr>c_pageBatch := Some acc, c_pageWaiting := False\<rparr>) m)
                 else map_option snd (flushChatBatch B e h now c acc True [] (put_conn c k m)))
            }
          else Some m
        })"

section \<open>Scrolling up\<close>

definition older_selector :: "time \<Rightarrow> string \<Rightarrow> time \<Rightarrow> string" where
  "older_selector now anchorMsgID anchor =
     (if anchorMsgID \<noteq> [] then ''msgid='' @ anchorMsgID
      else if anchor \<noteq> zeroTime \<and> \<not> anchor > now then ''timestamp='' @ rfc3339_milli anchor
      else [])"

definition fetch_ask ::
  "time \<Rightarrow> string \<Rightarrow> string \<Rightarrow> string \<Rightarrow> string \<Rightarrow> string \<Rightarrow> time \<Rightarrow> int \<Rightarrow> ('d, 'r) Manager \<Rightarrow> bool \<times> ('d, 'r) Manager" where
  "fetch_ask now userID networkID ircChannel anchorMsgID ceilingID anchor limit m =
     (case (conn_at m userID networkID, client_at m userID networkID) of
        (Some k, Some _) \<Rightarrow>
          (let selector = older_selector now anchorMsgID anchor; limit = (if limit > 100 then 100 else limit) in
           if \<not> c_linkUp k \<or> \<not> c_histCapUp k \<or> c_histSelectorBroken k \<or> \<not> is_channel_name ircChannel
              \<or> selector = [] \<or> limit \<le> 0 \<or> (c_pageWaiting k \<and> now - c_pageIssued k < 10000000000)
           then (False, m)
           else
             (True, send (userID, networkID) (event ''CHATHISTORY'' [''BEFORE'', ircChannel, selector, format_int limit])
                (put_conn (userID, networkID)
                   (k\<lparr>c_pageWaiting := True, c_pageTarget := ircChannel, c_pageBatch := None,
                      c_pageCeiling := ceilingID, c_pageIssued := now\<rparr>) m)))
      | _ \<Rightarrow> (False, m))"

definition fetch_take ::
  "'d store \<Rightarrow> env \<Rightarrow> ('d, 'r) hooks \<Rightarrow> time \<Rightarrow> cid \<Rightarrow> ('d, 'r) Manager \<Rightarrow> (nat \<times> ('d, 'r) Manager) option" where
  "fetch_take B e h now c m =
     (let k = the_conn m c;
          m = put_conn c (k\<lparr>c_pageBatch := None, c_pageCeiling := [], c_pageTarget := []\<rparr>) m in
      case c_pageBatch k of
        None \<Rightarrow> Some (0, m)
      | Some acc \<Rightarrow> flushChatBatch B e h now c acc False (c_pageCeiling k) m)"

section \<open>Multiline batches\<close>

definition multilineBatch_open :: "conn \<Rightarrow> girc_event \<Rightarrow> lineBatch option" where
  "multilineBatch_open k ev =
     map_option
       (\<lambda>target. \<lparr>lb_target = target, lb_chatRef = (case peekChatStack k of Some r \<Rightarrow> r | None \<Rightarrow> []),
          lb_openMsgid = tag ev ''msgid'', lb_frames = []\<rparr>)
       (read_at (ev_params ev) (length (ev_params ev) - 1))"

definition lineBatchFrame :: "cid \<Rightarrow> girc_event \<Rightarrow> string \<Rightarrow> ('d, 'r) Manager \<Rightarrow> ('d, 'r) Manager option" where
  "lineBatchFrame c ev ref m =
     (if length (ev_params ev) = 0 \<or> ev_source ev = None then Some m
      else
        let at = (if tag ev ''time'' = [] then zeroTime else parseChatTime (tag ev ''time'')) in
        do {
          src \<leftarrow> ev_source ev;
          Some (put_conn c (appendLineFrame (the_conn m c) ref
                  \<lparr>lf_line = ev_last ev, lf_at = (if at = zeroTime then None else Some at), lf_msgid = tag ev ''msgid'',
                   lf_reply = reply_tag ev, lf_echo = ev_echo ev, lf_source = src_name src,
                   lf_concat = (map_of (ev_tags ev) ''draft/multiline-concat'' \<noteq> None)\<rparr>) m)
        })"

definition flushLineBatch ::
  "'d store \<Rightarrow> env \<Rightarrow> ('d, 'r) hooks \<Rightarrow> time \<Rightarrow> cid \<Rightarrow> lineBatch \<Rightarrow> ('d, 'r) Manager \<Rightarrow> ('d, 'r) Manager option" where
  "flushLineBatch B e h now c acc m =
     (case lb_frames acc of
        [] \<Rightarrow> Some m
      | first # _ \<Rightarrow>
        let at = (case lf_at first of Some t \<Rightarrow> t | None \<Rightarrow> now);
            anchor = batchAnchorMsgid acc;
            extras = batchExtraMsgids acc;
            body = join [CHR 0x0A] (accLines acc) in
        if lb_chatRef acc \<noteq> [] then
          Some (put_conn c (appendChatFrame (the_conn m c) (lb_chatRef acc)
                  \<lparr>cf_target = lb_target acc, cf_author = lf_source first, cf_content = body, cf_at = at,
                   cf_msgid = anchor, cf_extraMsgids = extras, cf_reply = lf_reply first\<rparr>) m)
        else if lf_echo first then
          Some (if anchor = [] then m
                else
                  let (ref, m) = on_conn c (\<lambda>k. popPendingSend k (lb_target acc)) m
                  in if mr_Snowflake ref = [] then m else index_frame B c ref anchor extras m)
        else
          do {
            m \<leftarrow> dispatchMessage B e h now c (lb_target acc) (lf_source first) body (rfc3339_nano at) anchor (lf_reply first) m;
            Some (if extras = [] \<or> anchor = [] then m
                  else case LookupMessageByMsgID B (m_db m) (snd c) anchor of
                    None \<Rightarrow> m
                  | Some (chID, snow) \<Rightarrow>
                    index_aliases B c \<lparr>mr_Snowflake = snow, mr_ChannelID = chID, mr_GuildID = snd c\<rparr> extras m)
          })"

text \<open>Whether the BATCH line was consumed, and the state after it.\<close>

definition multilineBatchControl ::
  "'d store \<Rightarrow> env \<Rightarrow> ('d, 'r) hooks \<Rightarrow> time \<Rightarrow> cid \<Rightarrow> girc_event \<Rightarrow> ('d, 'r) Manager \<Rightarrow>
     (bool \<times> ('d, 'r) Manager) option" where
  "multilineBatchControl B e h now c ev m =
     (let ps = ev_params ev in
      if length ps < 1 then Some (False, m)
      else
        do {
          ref \<leftarrow> read_at ps 0;
          if has_prefix ref ''+'' then
            do {
              opens \<leftarrow> (if length ps < 2 then Some False else map_option isMultilineType (read_at ps 1));
              if \<not> opens then Some (False, m)
              else
                do {
                  acc \<leftarrow> multilineBatch_open (the_conn m c) ev;
                  name \<leftarrow> read_from1 ref;
                  Some (True, put_conn c (openLineBatch (the_conn m c) name acc) m)
                }
            }
          else if has_prefix ref ''-'' then
            do {
              name \<leftarrow> read_from1 ref;
              (case closeLineBatch (the_conn m c) name of
                 (None, k) \<Rightarrow> Some (False, put_conn c k m)
               | (Some acc, k) \<Rightarrow> map_option (Pair True) (flushLineBatch B e h now c acc (put_conn c k m)))
            }
          else Some (False, m)
        })"

end
