(* ===== verification/Metadata.thy ===== *)
theory Metadata
  imports History
begin

text \<open>
  \<open>internal/irc/ircmanage/metadata.go\<close>: avatars, bot flags and colours of peers (draft/metadata-2), and the account's
  own avatar. Fetching an avatar image runs in a goroutine: \<open>applyPeerAvatar\<close> marks the nick as being fetched and
  \<open>peer_avatar_fetched\<close> is what the goroutine does with the answer; the retry of a postponed synchronisation is
  \<open>metadata_sync_fire\<close>, run when its timer expires.
\<close>

definition isMetadataCap :: "string \<Rightarrow> bool" where
  "isMetadataCap cap = (cap = ''draft/metadata-2'' \<or> cap = ''metadata-2'')"

definition metadataAvatarKey :: string where "metadataAvatarKey = ''avatar''"
definition metadataBotKey :: string where "metadataBotKey = ''bot''"
definition metadataColorKey :: string where "metadataColorKey = ''color''"

definition sendMetadataSet :: "cid \<Rightarrow> string \<Rightarrow> string \<Rightarrow> bool \<Rightarrow> ('d, 'r) Manager \<Rightarrow> ('d, 'r) Manager" where
  "sendMetadataSet c url prevHash global m =
     (if \<not> c_metadataCapUp (the_conn m c) then m
      else case client_at m (fst c) (snd c) of
        None \<Rightarrow> m
      | Some _ \<Rightarrow>
        send c (event ''METADATA'' ([''*'', ''SET'', metadataAvatarKey] @ (if url \<noteq> [] then [url] else [])))
          (put_conn c ((the_conn m c)\<lparr>c_avatarSetPending := True, c_avatarSetPrevHash := prevHash,
                         c_avatarSetGlobal := global\<rparr>) m))"

definition SetAvatar :: "string \<Rightarrow> string \<Rightarrow> string \<Rightarrow> string \<Rightarrow> ('d, 'r) Manager \<Rightarrow> ('d, 'r) Manager" where
  "SetAvatar userID networkID url prevHash m =
     (case conn_at m userID networkID of
        None \<Rightarrow> m
      | Some _ \<Rightarrow> sendMetadataSet (userID, networkID) url prevHash False m)"

definition SetAvatarAll :: "string \<Rightarrow> string \<Rightarrow> string \<Rightarrow> ('d, 'r) Manager \<Rightarrow> ('d, 'r) Manager" where
  "SetAvatarAll userID url prevHash m =
     fold (\<lambda>(_, k) m. sendMetadataSet (c_userID k, c_networkID k) url prevHash True m) (user_conns m userID) m"

definition network_label :: "'d store \<Rightarrow> ('d, 'r) Manager \<Rightarrow> string \<Rightarrow> string" where
  "network_label B m networkID =
     (case GetNetwork B (m_db m) networkID of
        Inr net \<Rightarrow> if n_Name net \<noteq> [] then n_Name net else networkID
      | Inl _ \<Rightarrow> networkID)"

definition avatarSetRejected ::
  "'d store \<Rightarrow> ('d, 'r) hooks \<Rightarrow> time \<Rightarrow> cid \<Rightarrow> string \<Rightarrow> string \<Rightarrow> ('d, 'r) Manager \<Rightarrow> ('d, 'r) Manager option" where
  "avatarSetRejected B h now c code descr m =
     (let k = the_conn m c; global = c_avatarSetGlobal k;
          m = put_conn c (k\<lparr>c_avatarSetPending := False\<rparr>) m in
      if \<not> c_avatarSetPending k then Some m
      else
        let name = network_label B m (snd c);
            hint = (if code = ''KEY_NO_PERMISSION''
                    then '' The server requires a registered account - reconnect with SASL (?sasl=user:pass in the connection string).''
                    else []) in
        do {
          m \<leftarrow> (case h_avatarFail h of
                  None \<Rightarrow> Some m
                | Some f \<Rightarrow> f (fst c) (snd c) (c_avatarSetPrevHash k) global m);
          clydeSay B now (fst c)
            (if global then name @ '' rejected your avatar ('' @ code @ '': '' @ descr @ ''), so it'' @ CHR 0x27 # ''s hidden there.'' @ hint
             else ''Your avatar was rejected by '' @ name @ '' ('' @ code @ '': '' @ descr @ ''), so I reverted it locally.'' @ hint) m
        })"

definition metadataSubscribe :: "cid \<Rightarrow> ('d, 'r) Manager \<Rightarrow> ('d, 'r) Manager" where
  "metadataSubscribe c m =
     (if \<not> c_metadataCapUp (the_conn m c) then m
      else send c (event ''METADATA'' [''*'', ''SUB'', metadataAvatarKey, metadataBotKey, metadataColorKey]) m)"

definition metadataSyncChannel :: "cid \<Rightarrow> string \<Rightarrow> ('d, 'r) Manager \<Rightarrow> ('d, 'r) Manager" where
  "metadataSyncChannel c ircChannel m =
     (if \<not> c_metadataCapUp (the_conn m c) then m
      else case client_at m (fst c) (snd c) of
        None \<Rightarrow> m
      | Some _ \<Rightarrow> send c (event ''METADATA'' [ircChannel, ''SYNC'']) m)"

text \<open>Whether the retry timer is armed: at most three times for each target.\<close>

definition metadataSyncRetry :: "cid \<Rightarrow> string \<Rightarrow> ('d, 'r) Manager \<Rightarrow> bool \<times> ('d, 'r) Manager" where
  "metadataSyncRetry c target m =
     (let k = the_conn m c; n = (case c_metaRetries k target of Some n \<Rightarrow> n | None \<Rightarrow> 0) + 1
      in (n \<le> 3, put_conn c (k\<lparr>c_metaRetries := (c_metaRetries k)(target \<mapsto> n)\<rparr>) m))"

definition metadata_sync_fire :: "cid \<Rightarrow> string \<Rightarrow> ('d, 'r) Manager \<Rightarrow> ('d, 'r) Manager" where
  "metadata_sync_fire c target m =
     (case client_at m (fst c) (snd c) of
        None \<Rightarrow> m
      | Some _ \<Rightarrow>
        if \<not> c_metadataCapUp (the_conn m c) then m else send c (event ''METADATA'' [target, ''SYNC'']) m)"

section \<open>Facts of peers\<close>

definition firePeerAvatar :: "('d, 'r) hooks \<Rightarrow> cid \<Rightarrow> string \<Rightarrow> ('d, 'r) Manager \<Rightarrow> ('d, 'r) Manager option" where
  "firePeerAvatar h c nick m =
     (case h_peerAvatar h of None \<Rightarrow> Some m | Some f \<Rightarrow> f (fst c) (snd c) nick m)"

definition firePeerFacts :: "('d, 'r) hooks \<Rightarrow> cid \<Rightarrow> string \<Rightarrow> ('d, 'r) Manager \<Rightarrow> ('d, 'r) Manager option" where
  "firePeerFacts h c nick m =
     (case h_peerFacts h of None \<Rightarrow> Some m | Some f \<Rightarrow> f (fst c) (snd c) nick m)"

definition store_fact ::
  "('d, 'r) hooks \<Rightarrow> cid \<Rightarrow> string \<Rightarrow> ('d \<Rightarrow> (err + unit) \<times> 'd) \<Rightarrow> ('d, 'r) Manager \<Rightarrow> ('d, 'r) Manager option" where
  "store_fact h c nick f m =
     (case on_db f m of (Inl _, m) \<Rightarrow> Some m | (Inr _, m) \<Rightarrow> firePeerFacts h c nick m)"

definition applyPeerBot ::
  "'d store \<Rightarrow> ('d, 'r) hooks \<Rightarrow> cid \<Rightarrow> string \<Rightarrow> string \<Rightarrow> ('d, 'r) Manager \<Rightarrow> ('d, 'r) Manager option" where
  "applyPeerBot B h c nick v m =
     (if nick = [] then Some m
      else store_fact h c nick (\<lambda>d. PutPeerBot B d (fst c) (snd c) nick (trim_space v \<noteq> [])) m)"

definition applyPeerColor ::
  "'d store \<Rightarrow> ('d, 'r) hooks \<Rightarrow> cid \<Rightarrow> string \<Rightarrow> string \<Rightarrow> ('d, 'r) Manager \<Rightarrow> ('d, 'r) Manager option" where
  "applyPeerColor B h c nick v m =
     (if nick = [] then Some m
      else case (if v = [] then Some [] else ParseIrcColor v) of
        None \<Rightarrow> Some m
      | Some color \<Rightarrow> store_fact h c nick (\<lambda>d. PutPeerColor B d (fst c) (snd c) nick color) m)"

definition applyPeerAvatar ::
  "'d store \<Rightarrow> ('d, 'r) hooks \<Rightarrow> cid \<Rightarrow> girc \<Rightarrow> string \<Rightarrow> string \<Rightarrow> ('d, 'r) Manager \<Rightarrow> ('d, 'r) Manager option" where
  "applyPeerAvatar B h c g nick url m =
     (if nick = [] \<or> equal_fold nick (g_nick g) then Some m
      else if url = [] then
        firePeerAvatar h c nick (snd (on_db (\<lambda>d. PutPeerAvatar B d (fst c) (snd c) nick []) m))
      else if \<not> is_web url then Some m
      else
        let k = the_conn m c in
        if c_peerFetching k (to_lower nick) = Some True then Some m
        else Some (put_conn c (k\<lparr>c_peerFetching := (c_peerFetching k)(to_lower nick \<mapsto> True)\<rparr>) m))"

text \<open>The goroutine: \<open>img\<close> is the body and the content type of the fetched image, None when the fetch failed.\<close>

definition peer_avatar_fetched ::
  "'d store \<Rightarrow> ('d, 'r) hooks \<Rightarrow> time \<Rightarrow> cid \<Rightarrow> string \<Rightarrow> (string \<times> string) option \<Rightarrow> ('d, 'r) Manager \<Rightarrow>
     ('d, 'r) Manager option" where
  "peer_avatar_fetched B h now c nick img m =
     map_option
       (\<lambda>m. put_conn c ((the_conn m c)\<lparr>c_peerFetching := (c_peerFetching (the_conn m c))(to_lower nick := None)\<rparr>) m)
       (case img of
          None \<Rightarrow> Some m
        | Some (body, contentType) \<Rightarrow>
          (case on_db (\<lambda>d. PutAvatar B d (take (MaxAvatarBytes + 1) body) contentType (now div 1000000000)) m of
             (Inl _, m) \<Rightarrow> Some m
           | (Inr hash, m) \<Rightarrow>
             (case on_db (\<lambda>d. PutPeerAvatar B d (fst c) (snd c) nick hash) m of
                (Inl _, m) \<Rightarrow> Some m
              | (Inr _, m) \<Rightarrow> firePeerAvatar h c nick m)))"

definition applyPeerMeta ::
  "'d store \<Rightarrow> ('d, 'r) hooks \<Rightarrow> cid \<Rightarrow> girc \<Rightarrow> string \<Rightarrow> string \<Rightarrow> string \<Rightarrow> ('d, 'r) Manager \<Rightarrow>
     ('d, 'r) Manager option" where
  "applyPeerMeta B h c g nick metaKey v m =
     (if metaKey = metadataAvatarKey then applyPeerAvatar B h c g nick v m
      else if metaKey = metadataBotKey then applyPeerBot B h c nick v m
      else if metaKey = metadataColorKey then applyPeerColor B h c nick v m
      else Some m)"

definition handleMetadataEvent ::
  "'d store \<Rightarrow> ('d, 'r) hooks \<Rightarrow> cid \<Rightarrow> girc \<Rightarrow> string list \<Rightarrow> ('d, 'r) Manager \<Rightarrow> ('d, 'r) Manager option" where
  "handleMetadataEvent B h c g params m =
     (if length params < 3 then Some m
      else
        do {
          v \<leftarrow> (if length params > 3 then read_at params 3 else Some []);
          nick \<leftarrow> read_at params 0;
          metaKey \<leftarrow> read_at params 1;
          applyPeerMeta B h c g nick metaKey v m
        })"

definition handleMetadataKeyValue ::
  "'d store \<Rightarrow> ('d, 'r) hooks \<Rightarrow> cid \<Rightarrow> girc \<Rightarrow> string list \<Rightarrow> ('d, 'r) Manager \<Rightarrow> ('d, 'r) Manager option" where
  "handleMetadataKeyValue B h c g params m =
     (if length params < 4 then Some m
      else
        do {
          target \<leftarrow> read_at params 1;
          if target = ''*'' \<or> equal_fold target (g_nick g)
          then Some (put_conn c ((the_conn m c)\<lparr>c_avatarSetPending := False\<rparr>) m)
          else
            do {
              v \<leftarrow> (if length params > 4 then read_at params 4 else Some []);
              metaKey \<leftarrow> read_at params 2;
              applyPeerMeta B h c g target metaKey v m
            }
        })"

definition handleMetadataNotSet ::
  "'d store \<Rightarrow> ('d, 'r) hooks \<Rightarrow> cid \<Rightarrow> girc \<Rightarrow> string list \<Rightarrow> ('d, 'r) Manager \<Rightarrow> ('d, 'r) Manager option" where
  "handleMetadataNotSet B h c g params m =
     (if length params < 3 then Some m
      else do { nick \<leftarrow> read_at params 1; metaKey \<leftarrow> read_at params 2; applyPeerMeta B h c g nick metaKey [] m })"

definition handleMetadataSyncLater :: "cid \<Rightarrow> string list \<Rightarrow> ('d, 'r) Manager \<Rightarrow> ('d, 'r) Manager option" where
  "handleMetadataSyncLater c params m =
     (if length params < 2 then Some m
      else
        do {
          retry \<leftarrow> (if length params > 2 then read_at params 2 else Some []);
          target \<leftarrow> read_at params 1;
          Some (snd (metadataSyncRetry c target m))
        })"

text \<open>\<open>BOTMODE\<close> is taken to be an ASCII letter.\<close>

definition applyWhoBotFlag ::
  "'d store \<Rightarrow> ('d, 'r) hooks \<Rightarrow> cid \<Rightarrow> girc \<Rightarrow> string \<Rightarrow> string \<Rightarrow> ('d, 'r) Manager \<Rightarrow> ('d, 'r) Manager option" where
  "applyWhoBotFlag B h c g nick flags m =
     (if nick = [] \<or> equal_fold nick (g_nick g) then Some m
      else
        let (botMark, authoritative) =
              (case g_option g ''BOTMODE'' of Some [b] \<Rightarrow> (upper_char b, True) | _ \<Rightarrow> (CHR ''B'', False));
            mark = (botMark \<in> set flags) in
        if \<not> mark \<and> \<not> authoritative then Some m
        else if mark = PeerBot B (m_db m) (fst c) (snd c) nick then Some m
        else store_fact h c nick (\<lambda>d. PutPeerBot B d (fst c) (snd c) nick mark) m)"

end
