(* ===== verification/Handlers.thy ===== *)
theory Handlers
  imports Metadata MiscStore
begin

text \<open>
  The event loop of a connection: the handlers that \<open>registerHandlers\<close> of \<open>manager.go\<close> installs, one definition each,
  and \<open>handle_event\<close>, which runs them the way the IRC client does: first the handler of all events, then, unless the
  event is an echo of our own, those of its command. None is a panic: a dispatch to a closed queue, a
  parameter that is read beyond the end (\<open>read_at\<close>, \<open>read_from1\<close>), a source that is nil. The guards are those of the code.
\<close>

type_synonym ('d, 'r) handler = "('d, 'r) Manager \<Rightarrow> ('d, 'r) Manager option"

definition own_nick :: "girc \<Rightarrow> string \<Rightarrow> bool" where
  "own_nick g nick = equal_fold nick (g_nick g)"

definition in_line_batch :: "('d, 'r) Manager \<Rightarrow> cid \<Rightarrow> girc_event \<Rightarrow> bool" where
  "in_line_batch m c ev = (tag ev ''batch'' \<noteq> [] \<and> lineBatchActive (the_conn m c) (tag ev ''batch''))"

section \<open>Messages\<close>

definition on_privmsg :: "'d store \<Rightarrow> env \<Rightarrow> ('d, 'r) hooks \<Rightarrow> time \<Rightarrow> cid \<Rightarrow> girc_event \<Rightarrow> ('d, 'r) handler" where
  "on_privmsg B e h now c ev m =
     (if inChatBatch m c ev \<or> in_line_batch m c ev then Some m
      else
        do {
          target \<leftarrow> read_at (ev_params ev) 0;
          src \<leftarrow> ev_source ev;
          dispatchMessage B e h now c target (src_name src) (ev_last ev) (NowTimestamp now) (tag ev ''msgid'') (reply_tag ev) m
        })"

definition on_notice :: "'d store \<Rightarrow> env \<Rightarrow> ('d, 'r) hooks \<Rightarrow> time \<Rightarrow> cid \<Rightarrow> girc_event \<Rightarrow> ('d, 'r) handler" where
  "on_notice B e h now c ev m =
     (if inChatBatch m c ev \<or> in_line_batch m c ev then Some m
      else if ev_source ev = None \<or> length (ev_params ev) = 0 then Some m
      else
        do {
          src \<leftarrow> ev_source ev;
          target \<leftarrow> read_at (ev_params ev) 0;
          if CHR ''!'' \<notin> set (src_name src) \<and> \<not> is_channel_name target then
            systemSay B now (fst c) (snd c) (''['' @ src_name src @ ''] '' @ ev_last ev) m
          else
            dispatchMessage B e h now c target (src_name src) (ev_last ev) (NowTimestamp now) (tag ev ''msgid'') (reply_tag ev) m
        })"

section \<open>All events\<close>

text \<open>\<open>strings.Cut\<close> at an equals sign.\<close>

definition cut_eq :: "string \<Rightarrow> (string \<times> string) option" where
  "cut_eq s = (case index_byte s (CHR ''='') of Some i \<Rightarrow> Some (take i s, drop (i + 1) s) | None \<Rightarrow> None)"

definition budget_item :: "string \<Rightarrow> conn \<Rightarrow> conn" where
  "budget_item item k =
     (case cut_eq item of
        None \<Rightarrow> k
      | Some (name, v) \<Rightarrow>
        (case parse_int64 v of
           Inl _ \<Rightarrow> k
         | Inr n \<Rightarrow>
           if n \<le> 0 then k
           else if name = ''max-bytes'' then k\<lparr>c_multilineBytes := n\<rparr>
           else if name = ''max-lines'' then k\<lparr>c_multilineLines := n\<rparr>
           else k))"

definition cap_ls_token :: "string \<Rightarrow> conn \<Rightarrow> conn" where
  "cap_ls_token tok k =
     (case cut_eq tok of
        None \<Rightarrow> k
      | Some (name, v) \<Rightarrow> if isMultilineCap name then fold budget_item (split_on (CHR '','') v) k else k)"

definition cap_ack_token :: "string \<Rightarrow> conn \<Rightarrow> conn" where
  "cap_ack_token tok k =
     (let cap = trim_prefix tok '':'';
          k = (if cap = ''draft/chathistory'' \<or> cap = ''chathistory'' then k\<lparr>c_histCapUp := True\<rparr> else k);
          k = (if isMultilineCap cap then k\<lparr>c_multilineCapUp := True\<rparr> else k)
      in if isMetadataCap cap then k\<lparr>c_metadataCapUp := True\<rparr> else k)"

text \<open>\<open>len(e.Params) >= 3 && e.Params[1] == sub\<close>.\<close>

definition cap_line :: "string \<Rightarrow> string list \<Rightarrow> bool option" where
  "cap_line sub ps = (if length ps \<ge> 3 then map_option (\<lambda>p. p = sub) (read_at ps 1) else Some False)"

definition on_cap :: "girc_event \<Rightarrow> conn \<Rightarrow> conn option" where
  "on_cap ev k =
     do {
       let ps = ev_params ev;
       ls \<leftarrow> cap_line ''LS'' ps;
       k \<leftarrow> (if ls then map_option (\<lambda>caps. fold cap_ls_token (words caps) k) (read_at ps 2) else Some k);
       ack \<leftarrow> cap_line ''ACK'' ps;
       if ack then map_option (\<lambda>caps. fold cap_ack_token (words caps) k) (read_at ps 2) else Some k
     }"

definition on_own_nick :: "'d store \<Rightarrow> ('d, 'r) hooks \<Rightarrow> cid \<Rightarrow> girc \<Rightarrow> string \<Rightarrow> string \<Rightarrow> ('d, 'r) handler" where
  "on_own_nick B h c g old new m =
     (if own_nick g old \<or> own_nick g new
      then applyOwnNick B h c new (put_conn c (renameAway (the_conn m c) old new) m) else Some m)"

text \<open>A frame of an open batch, or nothing to do.\<close>

definition batched_frame :: "time \<Rightarrow> cid \<Rightarrow> girc_event \<Rightarrow> ('d, 'r) Manager \<Rightarrow> ('d, 'r) Manager option option" where
  "batched_frame now c ev m =
     (if in_line_batch m c ev then Some (lineBatchFrame c ev (tag ev ''batch'') m)
      else if inChatBatch m c ev then Some (chatBatchFrame now c ev (tag ev ''batch'') m)
      else None)"

text \<open>The branches of the handler of all events, in the order of the code.\<close>

definition on_message_echo :: "'d store \<Rightarrow> time \<Rightarrow> cid \<Rightarrow> girc_event \<Rightarrow> ('d, 'r) handler" where
  "on_message_echo B now c ev m =
     (let message = (ev_command ev = ''PRIVMSG'' \<or> ev_command ev = ''NOTICE'') in
      case (if message then batched_frame now c ev m else None) of
        Some r \<Rightarrow> r
      | None \<Rightarrow>
        if \<not> ev_echo ev \<or> \<not> message \<or> length (ev_params ev) = 0 then Some m
        else map_option (\<lambda>target. own_echo B c target (tag ev ''msgid'') m) (read_at (ev_params ev) 0))"

definition on_batch :: "'d store \<Rightarrow> env \<Rightarrow> ('d, 'r) hooks \<Rightarrow> time \<Rightarrow> cid \<Rightarrow> girc_event \<Rightarrow> ('d, 'r) handler" where
  "on_batch B e h now c ev m =
     (case multilineBatchControl B e h now c ev m of
        None \<Rightarrow> None
      | Some (consumed, m) \<Rightarrow> if consumed then Some m else chatBatchControl B e h now c ev m)"

definition on_away :: "('d, 'r) hooks \<Rightarrow> cid \<Rightarrow> string \<Rightarrow> bool \<Rightarrow> ('d, 'r) handler" where
  "on_away h c nick away m =
     (case on_conn c (\<lambda>k. setAway k nick away) m of
        (changed, m) \<Rightarrow> if changed then notifyOccupancy h c [] m else Some m)"

definition on_all_events ::
  "'d store \<Rightarrow> env \<Rightarrow> ('d, 'r) hooks \<Rightarrow> time \<Rightarrow> cid \<Rightarrow> girc \<Rightarrow> girc_event \<Rightarrow> ('d, 'r) handler" where
  "on_all_events B e h now c g ev m =
     do {
       let cmd = ev_command ev;
       let ps = ev_params ev;
       m \<leftarrow> (if cmd = ''CAP'' then map_option (\<lambda>k. put_conn c k m) (on_cap ev (the_conn m c)) else Some m);
       if cmd = ''BATCH'' then on_batch B e h now c ev m
       else if cmd = ''METADATA'' \<and> ev_source ev \<noteq> None then handleMetadataEvent B h c g ps m
       else if cmd = ''761'' then handleMetadataKeyValue B h c g ps m
       else if cmd = ''766'' then handleMetadataNotSet B h c g ps m
       else if cmd = ''774'' then handleMetadataSyncLater c ps m
       else if cmd = ''TOPIC'' \<and> length ps > 0 then
         do { ch \<leftarrow> read_at ps 0; applyTopic B now c ch (ev_last ev) m }
       else if cmd = ''AWAY'' \<and> ev_source ev \<noteq> None then
         do { src \<leftarrow> ev_source ev; on_away h c (src_name src) (ev_last ev \<noteq> []) m }
       else if cmd = ''332'' \<and> length ps \<ge> 2 then
         do { ch \<leftarrow> read_at ps 1; applyTopic B now c ch (ev_last ev) m }
       else if cmd = ''RENAME'' \<and> length ps \<ge> 2 then
         do { old \<leftarrow> read_at ps 0; new \<leftarrow> read_at ps 1; applyRename B h now c old new m }
       else if cmd = ''NICK'' \<and> ev_source ev \<noteq> None \<and> length ps > 0 then
         do { src \<leftarrow> ev_source ev; new \<leftarrow> read_at ps 0; on_own_nick B h c g (src_name src) new m }
       else on_message_echo B now c ev m
     }"

section \<open>The link\<close>

definition on_isupport :: "('d, 'r) hooks \<Rightarrow> cid \<Rightarrow> girc_event \<Rightarrow> ('d, 'r) handler" where
  "on_isupport h c ev m =
     (case List.find (\<lambda>p. has_prefix p ''draft/ICON='') (ev_params ev) of
        None \<Rightarrow> Some m
      | Some p \<Rightarrow>
        let url = trim_prefix p ''draft/ICON=''; k = the_conn m c in
        if url = [] \<or> url = c_iconSeen k then Some m
        else
          let m = put_conn c (k\<lparr>c_iconSeen := url\<rparr>) m in
          (case h_iconChange h of
             None \<Rightarrow> Some m
           | Some f \<Rightarrow>
             (case f (fst c) (snd c) url m of
                None \<Rightarrow> None
              | Some (ok, m) \<Rightarrow> Some (if ok then m else put_conn c ((the_conn m c)\<lparr>c_iconSeen := []\<rparr>) m))))"

fun join_all :: "'d store \<Rightarrow> cid \<Rightarrow> string list \<Rightarrow> ('d, 'r) Manager \<Rightarrow> ('d, 'r) Manager" where
  "join_all B c [] m = m"
| "join_all B c (ch # chs) m =
     join_all B c chs (send c (join_action B m (snd c) ch) (put_conn c (markPending (the_conn m c) ch) m))"

definition saved_status :: "'d store \<Rightarrow> ('d, 'r) Manager \<Rightarrow> string \<Rightarrow> string" where
  "saved_status B m userID =
     (case map_of (UserSettings B (m_db m) userID) ''status'' of Some (JStr s) \<Rightarrow> s | _ \<Rightarrow> [])"

definition on_connected :: "'d store \<Rightarrow> ('d, 'r) hooks \<Rightarrow> cid \<Rightarrow> girc \<Rightarrow> ('d, 'r) handler" where
  "on_connected B h c g m =
     do {
       let k = the_conn m c;
       let m = put_conn c (k\<lparr>c_linkUp := True\<rparr>) m;
       m \<leftarrow> (if c_linkUp k then Some m
             else fireLinkChange h c True m);
       let m = put_conn c ((the_conn m c)\<lparr>c_lastLinkErr := []\<rparr>) m;
       let m = (case GetMembership B (m_db m) (snd c) (fst c) of
                  Inl _ \<Rightarrow> m
                | Inr mem \<Rightarrow>
                  let m = (if g_nick g \<noteq> mem_Nick mem
                           then snd (on_db (\<lambda>d. UpsertMembership B d (mem\<lparr>mem_Nick := g_nick g\<rparr>)) m) else m);
                      m = join_all B c (mem_AutoJoin mem) m
                  in send_all c (map (\<lambda>ch. event ''WHO'' [ch]) (mem_AutoJoin mem)) m);
       let m = (let status = saved_status B m (fst c) in if status \<noteq> [] then applyStatus c status m else m);
       Some (metadataSubscribe c m)
     }"

section \<open>Members\<close>

definition on_nick :: "'d store \<Rightarrow> ('d, 'r) hooks \<Rightarrow> cid \<Rightarrow> girc \<Rightarrow> girc_event \<Rightarrow> ('d, 'r) handler" where
  "on_nick B h c g ev m =
     (if ev_source ev = None \<or> length (ev_params ev) = 0 then Some m
      else
        do {
          src \<leftarrow> ev_source ev;
          new \<leftarrow> read_at (ev_params ev) 0;
          let m = put_conn c (renamePeer (renameAway (the_conn m c) (src_name src) new) (src_name src) new) m;
          if own_nick g new then applyOwnNick B h c new m else Some m
        })"

definition note_joiner :: "cid \<Rightarrow> girc_event \<Rightarrow> ('d, 'r) handler" where
  "note_joiner c ev m =
     (if ev_source ev = None then Some m
      else
        do {
          src \<leftarrow> ev_source ev;
          let k = setPeerHost (the_conn m c) (src_name src) (src_ident src) (src_host src);
          k \<leftarrow> (if length (ev_params ev) \<ge> 2 then map_option (setPeerAccount k (src_name src)) (read_at (ev_params ev) 1)
                else Some k);
          Some (put_conn c k m)
        })"

definition own_source :: "girc \<Rightarrow> girc_event \<Rightarrow> bool option" where
  "own_source g ev = (if ev_source ev = None then Some False else map_option (own_nick g \<circ> src_name) (ev_source ev))"

definition on_join :: "'d store \<Rightarrow> ('d, 'r) hooks \<Rightarrow> time \<Rightarrow> cid \<Rightarrow> girc \<Rightarrow> girc_event \<Rightarrow> ('d, 'r) handler" where
  "on_join B h now c g ev m =
     do {
       m \<leftarrow> note_joiner c ev m;
       own \<leftarrow> own_source g ev;
       m \<leftarrow> (if own \<and> length (ev_params ev) > 0 then
               do {
                 ch \<leftarrow> read_at (ev_params ev) 0;
                 let m = put_conn c (snd (clearPending (the_conn m c) ch)) m;
                 let m = snd (on_db (\<lambda>d. MembershipAddChannel B d (snd c) (fst c) ch) m);
                 Some (metadataSyncChannel c ch (maybeChatPrefill B c ch m))
               }
             else if ev_source ev \<noteq> None then
               do { src \<leftarrow> ev_source ev; upsertPeerMember B now c (src_name src) [] [] m }
             else Some m);
       if length (ev_params ev) > 0 then do { ch \<leftarrow> read_at (ev_params ev) 0; notifyOccupancy h c ch m } else Some m
     }"

definition left_channel :: "'d store \<Rightarrow> cid \<Rightarrow> string \<Rightarrow> ('d, 'r) Manager \<Rightarrow> ('d, 'r) Manager" where
  "left_channel B c ch m = snd (on_db (\<lambda>d. MembershipRemoveChannel B d (snd c) (fst c) ch) m)"

definition on_part :: "'d store \<Rightarrow> ('d, 'r) hooks \<Rightarrow> cid \<Rightarrow> girc \<Rightarrow> girc_event \<Rightarrow> ('d, 'r) handler" where
  "on_part B h c g ev m =
     do {
       own \<leftarrow> own_source g ev;
       m \<leftarrow> (if own \<and> length (ev_params ev) > 0 then map_option (\<lambda>ch. left_channel B c ch m) (read_at (ev_params ev) 0) else Some m);
       if length (ev_params ev) > 0 then do { ch \<leftarrow> read_at (ev_params ev) 0; notifyOccupancy h c ch m } else Some m
     }"

definition on_kick :: "'d store \<Rightarrow> ('d, 'r) hooks \<Rightarrow> cid \<Rightarrow> girc \<Rightarrow> girc_event \<Rightarrow> ('d, 'r) handler" where
  "on_kick B h c g ev m =
     do {
       let ps = ev_params ev;
       own \<leftarrow> (if length ps \<ge> 2 then map_option (own_nick g) (read_at ps 1) else Some False);
       m \<leftarrow> (if own then map_option (\<lambda>ch. left_channel B c ch m) (read_at ps 0) else Some m);
       if length ps > 0 then do { ch \<leftarrow> read_at ps 0; notifyOccupancy h c ch m } else Some m
     }"

definition on_quit :: "('d, 'r) hooks \<Rightarrow> cid \<Rightarrow> girc_event \<Rightarrow> ('d, 'r) handler" where
  "on_quit h c ev m =
     do {
       m \<leftarrow> (if ev_source ev = None then Some m
             else map_option (\<lambda>src. put_conn c (forgetPeer (forgetAway (the_conn m c) (src_name src)) (src_name src)) m)
                    (ev_source ev));
       notifyOccupancy h c [] m
     }"

definition on_account :: "cid \<Rightarrow> girc_event \<Rightarrow> ('d, 'r) handler" where
  "on_account c ev m =
     (if ev_source ev = None \<or> length (ev_params ev) = 0 then Some m
      else
        do {
          src \<leftarrow> ev_source ev;
          account \<leftarrow> read_at (ev_params ev) 0;
          Some (put_conn c (setPeerAccount (the_conn m c) (src_name src) account) m)
        })"

definition on_chghost :: "cid \<Rightarrow> girc_event \<Rightarrow> ('d, 'r) handler" where
  "on_chghost c ev m =
     (if ev_source ev = None \<or> length (ev_params ev) < 2 then Some m
      else
        do {
          src \<leftarrow> ev_source ev;
          user \<leftarrow> read_at (ev_params ev) 0;
          host \<leftarrow> read_at (ev_params ev) 1;
          Some (put_conn c (setPeerHost (the_conn m c) (src_name src) user host) m)
        })"

definition on_invite :: "'d store \<Rightarrow> env \<Rightarrow> ('d, 'r) hooks \<Rightarrow> time \<Rightarrow> cid \<Rightarrow> girc \<Rightarrow> girc_event \<Rightarrow> ('d, 'r) handler" where
  "on_invite B e h now c g ev m =
     (if ev_source ev = None \<or> length (ev_params ev) < 2 then Some m
      else
        do {
          target \<leftarrow> read_at (ev_params ev) 0;
          channel \<leftarrow> read_at (ev_params ev) 1;
          src \<leftarrow> ev_source ev;
          if g_channel g channel \<noteq> None then
            dispatchMessage B e h now c channel (src_name src) (''invited '' @ target @ '' to the channel'')
              (NowTimestamp now) [] [] m
          else if own_nick g target then
            dispatchQuery B e now c (src_name src) (''invited you to '' @ channel) (NowTimestamp now) [] [] m
          else Some m
        })"

text \<open>The rejection of an own avatar: \<open>FAIL METADATA code target avatar\<close>.\<close>

definition avatar_refused :: "girc \<Rightarrow> girc_event \<Rightarrow> bool option" where
  "avatar_refused g ev =
     (let ps = ev_params ev in
      if \<not> (ev_command ev = ''FAIL'' \<and> length ps \<ge> 4) then Some False
      else
        do {
          what \<leftarrow> read_at ps 0;
          metaKey \<leftarrow> read_at ps 3;
          target \<leftarrow> read_at ps 2;
          Some (what = ''METADATA'' \<and> metaKey = ''avatar'' \<and> (target = ''*'' \<or> own_nick g target))
        })"

definition middle_params :: "string list \<Rightarrow> string list option" where
  "middle_params ps = (if length ps < 3 then None else Some (butlast (drop 2 ps)))"

definition on_standard_reply ::
  "'d store \<Rightarrow> env \<Rightarrow> ('d, 'r) hooks \<Rightarrow> time \<Rightarrow> cid \<Rightarrow> girc \<Rightarrow> girc_event \<Rightarrow> ('d, 'r) handler" where
  "on_standard_reply B e h now c g ev m =
     (let ps = ev_params ev in
      if length ps < 3 then Some m
      else
        do {
          refused \<leftarrow> avatar_refused g ev;
          code \<leftarrow> read_at ps 1;
          if refused then avatarSetRejected B h now c code (ev_last ev) m
          else
            do {
              ctxt \<leftarrow> middle_params ps;
              (case List.find (\<lambda>p. has_prefix p ''#'' \<and> g_channel g p \<noteq> None) ctxt of
                 None \<Rightarrow> Some m
               | Some p \<Rightarrow>
                 dispatchMessage B e h now c p ''server'' (ev_command ev @ '' '' @ code @ '': '' @ ev_last ev)
                   (NowTimestamp now) [] [] m)
            }
        })"

definition on_own_away :: "('d, 'r) hooks \<Rightarrow> time \<Rightarrow> cid \<Rightarrow> girc \<Rightarrow> bool \<Rightarrow> ('d, 'r) handler" where
  "on_own_away h now c g away m =
     (case on_conn c (\<lambda>k. setAway k (g_nick g) away) m of
        (changed, m) \<Rightarrow>
          if \<not> changed then Some m
          else Option.bind (notifyOccupancy h c [] m)
            (\<lambda>m. dispatchSelfPresence now c (if away then selfWireStatus (the_conn m c) True else ''online'') m))"

definition on_who_reply :: "'d store \<Rightarrow> ('d, 'r) hooks \<Rightarrow> cid \<Rightarrow> girc \<Rightarrow> girc_event \<Rightarrow> ('d, 'r) handler" where
  "on_who_reply B h c g ev m =
     (let ps = ev_params ev in
      if length ps < 7 then Some m
      else
        do {
          flags \<leftarrow> read_at ps 6;
          if flags = [] then Some m
          else
            do {
              nick \<leftarrow> read_at ps 5;
              flag \<leftarrow> read_at flags 0;
              let k = snd (setAway (the_conn m c) nick (flag = CHR ''G''));
              user \<leftarrow> read_at ps 2;
              host \<leftarrow> read_at ps 3;
              more \<leftarrow> read_from1 flags;
              applyWhoBotFlag B h c g nick more (put_conn c (setPeerHost k nick user host) m)
            }
        })"

definition on_tagmsg :: "'d store \<Rightarrow> time \<Rightarrow> cid \<Rightarrow> girc \<Rightarrow> girc_event \<Rightarrow> ('d, 'r) handler" where
  "on_tagmsg B now c g ev m =
     (if ev_source ev = None \<or> length (ev_params ev) = 0 then Some m
      else if inChatBatch m c ev then Some m
      else
        do {
          src \<leftarrow> ev_source ev;
          if own_nick g (src_name src) then Some m
          else if tag ev ''+typing'' = ''active'' then
            do { target \<leftarrow> read_at (ev_params ev) 0; dispatchTyping B now c (src_name src) target m }
          else if reply_tag ev = [] then Some m
          else if tag ev ''+draft/react'' \<noteq> []
            then applyReaction B now c (src_name src) (reply_tag ev) (tag ev ''+draft/react'') False m
          else if tag ev ''+draft/unreact'' \<noteq> []
            then applyReaction B now c (src_name src) (reply_tag ev) (tag ev ''+draft/unreact'') True m
          else Some m
        })"

definition on_redact :: "'d store \<Rightarrow> time \<Rightarrow> cid \<Rightarrow> girc \<Rightarrow> girc_event \<Rightarrow> ('d, 'r) handler" where
  "on_redact B now c g ev m =
     (if ev_source ev = None \<or> length (ev_params ev) < 2 then Some m
      else
        do {
          src \<leftarrow> ev_source ev;
          if own_nick g (src_name src) then Some m
          else do { msgid \<leftarrow> read_at (ev_params ev) 1; applyRedaction B now c msgid m }
        })"

section \<open>Refused joins\<close>

definition joinErrorReasons :: "(string \<times> string) list" where
  "joinErrorReasons =
     [(''403'', ''the channel does not exist on this server''), (''471'', ''the channel is full (+l)''),
      (''473'', ''the channel is invite-only (+i)''), (''474'', ''you are banned from that channel (+b)''),
      (''475'', ''the channel requires a key (+k) - add it with the channel name as '' @ CHR 0x22 # ''name:key'' @ CHR 0x22 #
         '' (or inline in the connection string)''),
      (''476'', ''that is not a valid channel name for this server''),
      (''477'', ''the channel requires a registered account (+R)'')]"

definition rollbackJoin :: "'d store \<Rightarrow> time \<Rightarrow> cid \<Rightarrow> string \<Rightarrow> string \<Rightarrow> ('d, 'r) handler" where
  "rollbackJoin B now c ircName reason m =
     (case on_conn c (\<lambda>k. clearPending k ircName) m of
        (pending, m) \<Rightarrow>
          if \<not> pending then Some m
          else
            do {
              let m = left_channel B c ircName m;
              m \<leftarrow> (case GetChannelByIRC B (m_db m) (snd c) ircName of
                      Inr ch \<Rightarrow>
                        gw_dispatch (fst c) ''CHANNEL_DELETE''
                          (json_map [(''id'', JStr (ch_ID ch)), (''guild_id'', JStr (snd c))]) now m
                    | Inl _ \<Rightarrow> Some m);
              clydeSay B now (fst c) (''Could not join **'' @ ircName @ ''**: '' @ reason @ ''.'') m
            })"

definition on_join_error :: "'d store \<Rightarrow> time \<Rightarrow> cid \<Rightarrow> girc_event \<Rightarrow> ('d, 'r) handler" where
  "on_join_error B now c ev m =
     (case map_of joinErrorReasons (ev_command ev) of
        None \<Rightarrow> Some m
      | Some reason \<Rightarrow>
        if length (ev_params ev) < 2 then Some m
        else do { ch \<leftarrow> read_at (ev_params ev) 1; rollbackJoin B now c ch reason m })"

section \<open>One event\<close>

text \<open>\<open>girc.IsValidChannel\<close> is a parameter.\<close>

definition on_mode :: "('d, 'r) hooks \<Rightarrow> (string \<Rightarrow> bool) \<Rightarrow> cid \<Rightarrow> string list \<Rightarrow> ('d, 'r) handler" where
  "on_mode h valid c ps m =
     (if length ps > 0 then
        do { ch \<leftarrow> read_at ps 0; if valid ch then notifyOccupancy h c ch m else Some m }
      else Some m)"

definition on_command ::
  "'d store \<Rightarrow> env \<Rightarrow> ('d, 'r) hooks \<Rightarrow> (string \<Rightarrow> bool) \<Rightarrow> time \<Rightarrow> cid \<Rightarrow> girc \<Rightarrow> girc_event \<Rightarrow> ('d, 'r) handler" where
  "on_command B e h valid now c g ev m =
     (let cmd = ev_command ev; ps = ev_params ev in
      if cmd = ''PRIVMSG'' then on_privmsg B e h now c ev m
      else if cmd = ''NOTICE'' then on_notice B e h now c ev m
      else if cmd = ''005'' then on_isupport h c ev m
      else if cmd = ''CLIENT_CONNECTED'' then on_connected B h c g m
      else if cmd = ''NICK'' then Option.bind (on_nick B h c g ev m) (notifyOccupancy h c [])
      else if cmd = ''JOIN'' then on_join B h now c g ev m
      else if cmd = ''PART'' then on_part B h c g ev m
      else if cmd = ''KICK'' then on_kick B h c g ev m
      else if cmd = ''MODE'' then on_mode h valid c ps m
      else if cmd = ''QUIT'' then on_quit h c ev m
      else if cmd = ''ACCOUNT'' then on_account c ev m
      else if cmd = ''CHGHOST'' then on_chghost c ev m
      else if cmd = ''INVITE'' then on_invite B e h now c g ev m
      else if cmd \<in> {''FAIL'', ''WARN'', ''NOTE''} then on_standard_reply B e h now c g ev m
      else if cmd = ''305'' then on_own_away h now c g False m
      else if cmd = ''306'' then on_own_away h now c g True m
      else if cmd = ''352'' then on_who_reply B h c g ev m
      else if cmd = ''315'' then (if length ps > 1 then Option.bind (read_at ps 1) (\<lambda>ch. notifyOccupancy h c ch m) else Some m)
      else if cmd = ''TAGMSG'' then on_tagmsg B now c g ev m
      else if cmd = ''REDACT'' then on_redact B now c g ev m
      else on_join_error B now c ev m)"

definition handle_event ::
  "'d store \<Rightarrow> env \<Rightarrow> ('d, 'r) hooks \<Rightarrow> (string \<Rightarrow> bool) \<Rightarrow> time \<Rightarrow> cid \<Rightarrow> girc \<Rightarrow> girc_event \<Rightarrow> ('d, 'r) handler" where
  "handle_event B e h valid now c g ev m =
     Option.bind (on_all_events B e h now c g ev m)
       (\<lambda>m. if ev_echo ev then Some m else on_command B e h valid now c g ev m)"

end
