(* ===== verification/Supervisor.thy ===== *)
theory Supervisor
  imports Handlers
begin

text \<open>
  The supervisor of a connection, from \<open>EnsureConn\<close>, \<open>RestartConn\<close>, \<open>Drop\<close>, \<open>EnsureAll\<close> and \<open>pollAwayOnce\<close> of
  \<open>manager.go\<close>. Its goroutine is a loop of attempts: \<open>attempt_begin\<close> installs the client of an attempt, \<open>attempt_end\<close>
  is what follows the return of \<open>Connect\<close>, up to the wait before the next attempt. The error of \<open>Connect\<close>, how long the
  attempt lived and whether the connection was dropped meanwhile are arguments. A dropped connection leaves the table when
  its last attempt has ended, so that its own goroutines still find it. Durations are in nanoseconds.
\<close>

section \<open>Configuration of a link\<close>

record girc_config =
  cfg_Server :: string
  cfg_Port :: int
  cfg_SSL :: bool
  cfg_Nick :: string
  cfg_User :: string
  cfg_Name :: string
  cfg_SupportedCaps :: "string list"
  cfg_DisableSTS :: bool
  cfg_PingDelay :: int
  cfg_PingTimeout :: int
  cfg_ServerPass :: string
  cfg_SASL :: "(string \<times> string) option"

definition supported_caps :: "string list" where
  "supported_caps =
     [''draft/typing'', ''echo-message'', ''draft/message-redaction'', ''server-time'', ''batch'', ''draft/chathistory'',
      ''message-tags'', ''draft/multiline'', ''multiline'', ''away-notify'', ''draft/channel-rename'', ''draft/reply'',
      ''standard-replies'', ''draft/metadata-2'']"

definition conn_config :: "Network \<Rightarrow> Membership \<Rightarrow> girc_config" where
  "conn_config net mem =
     \<lparr>cfg_Server = n_Host net, cfg_Port = n_Port net, cfg_SSL = n_TLS net, cfg_Nick = mem_Nick mem,
      cfg_User = mem_Username mem, cfg_Name = mem_Realname mem, cfg_SupportedCaps = supported_caps,
      cfg_DisableSTS = True, cfg_PingDelay = 60 * 1000000000, cfg_PingTimeout = 180 * 1000000000,
      cfg_ServerPass = n_Password net,
      cfg_SASL = (if n_SASLUser net \<noteq> [] then Some (n_SASLUser net, n_SASLPass net) else None)\<rparr>"

text \<open>The configuration of the link that is opened, None when there is none to open.\<close>

definition EnsureConn ::
  "'d store \<Rightarrow> string \<Rightarrow> string \<Rightarrow> ('d, 'r) Manager \<Rightarrow> girc_config option \<times> ('d, 'r) Manager" where
  "EnsureConn B userID networkID m =
     (if conn_at m userID networkID \<noteq> None then (None, m)
      else case GetNetwork B (m_db m) networkID of
        Inl _ \<Rightarrow> (None, m)
      | Inr net \<Rightarrow>
        (case GetMembership B (m_db m) networkID userID of
           Inl _ \<Rightarrow> (None, m)
         | Inr mem \<Rightarrow>
           (Some (conn_config net mem),
            (put_conn (userID, networkID) (newConn userID networkID) m)
              \<lparr>m_clients := (m_clients m)(conn_key userID networkID := None)\<rparr>)))"

definition drop_conn :: "string \<Rightarrow> string \<Rightarrow> ('d, 'r) Manager \<Rightarrow> ('d, 'r) Manager" where
  "drop_conn userID networkID m = m\<lparr>m_conns := AList.delete (conn_key userID networkID) (m_conns m)\<rparr>"

definition Drop :: "string \<Rightarrow> string \<Rightarrow> ('d, 'r) Manager \<Rightarrow> ('d, 'r) Manager" where
  "Drop userID networkID m = (if conn_at m userID networkID = None then m else drop_conn userID networkID m)"

definition RestartConn ::
  "'d store \<Rightarrow> string \<Rightarrow> string \<Rightarrow> ('d, 'r) Manager \<Rightarrow> girc_config option \<times> ('d, 'r) Manager" where
  "RestartConn B userID networkID m =
     (if conn_at m userID networkID = None then (None, m)
      else EnsureConn B userID networkID (drop_conn userID networkID m))"

fun ensure_each :: "'d store \<Rightarrow> (string \<times> string) list \<Rightarrow> ('d, 'r) Manager \<Rightarrow> ('d, 'r) Manager" where
  "ensure_each B [] m = m"
| "ensure_each B ((userID, networkID) # rest) m = ensure_each B rest (snd (EnsureConn B userID networkID m))"

definition EnsureAll :: "'d store \<Rightarrow> ('d, 'r) Manager \<Rightarrow> ('d, 'r) Manager" where
  "EnsureAll B m =
     (case ListNetworks B (m_db m) of
        Inl _ \<Rightarrow> m
      | Inr nets \<Rightarrow>
        ensure_each B
          (concat (map (\<lambda>net. case ListMemberships B (m_db m) (n_ID net) of
                                Inl _ \<Rightarrow> []
                              | Inr mems \<Rightarrow> map (\<lambda>mem. (mem_UserID mem, n_ID net)) mems) nets)) m)"

section \<open>Attempts\<close>

definition reconnectBackoffInitial :: int where "reconnectBackoffInitial = 5 * 1000000000"
definition reconnectBackoffMax :: int where "reconnectBackoffMax = 60 * 1000000000"
definition reconnectHealthyAfter :: int where "reconnectHealthyAfter = 30 * 1000000000"

definition next_backoff :: "bool \<Rightarrow> int \<Rightarrow> int \<Rightarrow> int" where
  "next_backoff failed lived backoff =
     (if \<not> failed \<and> lived \<ge> reconnectHealthyAfter then reconnectBackoffInitial
      else if backoff * 2 > reconnectBackoffMax then reconnectBackoffMax
      else backoff * 2)"

definition attempt_begin :: "cid \<Rightarrow> girc \<Rightarrow> ('d, 'r) Manager \<Rightarrow> ('d, 'r) Manager" where
  "attempt_begin c g m = m\<lparr>m_clients := (m_clients m)(conn_key (fst c) (snd c) \<mapsto> g)\<rparr>"

definition link_lost :: "('d, 'r) hooks \<Rightarrow> cid \<Rightarrow> ('d, 'r) handler" where
  "link_lost h c m =
     (let k = the_conn m c in
      if c_linkUp k then fireLinkChange h c False (put_conn c (k\<lparr>c_linkUp := False\<rparr>) m) else Some m)"

definition break_selector :: "time \<Rightarrow> cid \<Rightarrow> ('d, 'r) Manager \<Rightarrow> ('d, 'r) Manager" where
  "break_selector now c m =
     (let k = the_conn m c in
      if c_pageWaiting k \<and> now - c_pageIssued k < 10000000000
      then put_conn c (k\<lparr>c_histSelectorBroken := True\<rparr>) m else m)"

definition report_failure :: "'d store \<Rightarrow> time \<Rightarrow> cid \<Rightarrow> Network \<Rightarrow> string \<Rightarrow> ('d, 'r) handler" where
  "report_failure B now c net msg m =
     (let k = the_conn m c in
      if msg = c_lastLinkErr k then Some m
      else systemSay B now (fst c) (snd c) (linkFailureNotice net msg) (put_conn c (k\<lparr>c_lastLinkErr := msg\<rparr>) m))"

text \<open>The wait before the next attempt with the state, or no wait when the connection was dropped. The backoff that
  follows is \<open>next_backoff\<close>.\<close>

definition attempt_end ::
  "'d store \<Rightarrow> ('d, 'r) hooks \<Rightarrow> time \<Rightarrow> cid \<Rightarrow> Network \<Rightarrow> bool \<Rightarrow> string option \<Rightarrow> int \<Rightarrow> ('d, 'r) Manager \<Rightarrow>
     (int option \<times> ('d, 'r) Manager) option" where
  "attempt_end B h now c net cancelled cErr backoff m =
     do {
       m \<leftarrow> link_lost h c m;
       if cancelled then Some (None, m)
       else
         do {
           let m = break_selector now c m;
           m \<leftarrow> (case cErr of Some msg \<Rightarrow> report_failure B now c net msg m | None \<Rightarrow> Some m);
           Some (Some backoff, m)
         }
     }"

text \<open>The loop over the outcomes of the attempts: error, lifetime, time of the end, dropped meanwhile. It returns the
  waits it made.\<close>

type_synonym outcome = "girc \<times> string option \<times> int \<times> time \<times> bool"

fun supervise ::
  "'d store \<Rightarrow> ('d, 'r) hooks \<Rightarrow> cid \<Rightarrow> Network \<Rightarrow> int \<Rightarrow> outcome list \<Rightarrow> ('d, 'r) Manager \<Rightarrow>
     (int list \<times> ('d, 'r) Manager) option" where
  "supervise B h c net backoff [] m = Some ([], m)"
| "supervise B h c net backoff ((g, cErr, lived, now, cancelled) # os) m =
     (case attempt_end B h now c net cancelled cErr backoff (attempt_begin c g m) of
        None \<Rightarrow> None
      | Some (None, m) \<Rightarrow> Some ([], m)
      | Some (Some w, m) \<Rightarrow>
        (case supervise B h c net (next_backoff (cErr \<noteq> None) lived backoff) os m of
           None \<Rightarrow> None
         | Some (ws, m) \<Rightarrow> Some (w # ws, m)))"

section \<open>Polling the away state\<close>

text \<open>The channels whose member lists the clients of the user look at.\<close>

definition polled_channels :: "'d store \<Rightarrow> ('d, 'r) Manager \<Rightarrow> cid \<Rightarrow> Membership \<Rightarrow> string list" where
  "polled_channels B m c mem =
     concat (map (\<lambda>(guild, channel).
       if guild \<noteq> snd c then []
       else if channel = [] then mem_AutoJoin mem
       else case GetChannel B (m_db m) channel of
         Inr ch \<Rightarrow> if ch_IRCName ch \<noteq> SystemIRCName then [ch_IRCName ch] else []
       | Inl _ \<Rightarrow> []) (RequestedMemberLists (m_gw m) (fst c)))"

definition pollAwayOnce ::
  "'d store \<Rightarrow> cid \<Rightarrow> girc \<Rightarrow> nat \<Rightarrow> ('d, 'r) Manager \<Rightarrow> nat \<times> ('d, 'r) Manager" where
  "pollAwayOnce B c g next m =
     (if g_cap g ''away-notify'' then (next, m)
      else case GetMembership B (m_db m) (snd c) (fst c) of
        Inl _ \<Rightarrow> (next, m)
      | Inr mem \<Rightarrow>
        let channels = polled_channels B m c mem; n = (if next \<ge> length channels then 0 else next) in
        if channels = [] then (next, m) else (n + 1, send c (event ''WHO'' [channels ! n]) m))"

end
