(* ===== verification/EventSafety.thy ===== *)
theory EventSafety
  imports Supervisor
begin

text \<open>
  No event of an IRC server brings the bouncer down. \<open>mgr_wf\<close> says that the session table of the gateway and every
  connection are well formed; \<open>stays\<close> says of a handler's result that it is not a panic and keeps that invariant.
  Every operation of the manager is shown to keep it, and so is the handling of an event: what remains are the hooks,
  which the network service provides, and the PRIVMSG handler, which reads the first parameter and the source of an
  event unguarded.
\<close>

section \<open>The invariant\<close>

definition mgr_wf :: "('d, 'r) Manager \<Rightarrow> bool" where
  "mgr_wf m \<longleftrightarrow> gw_wf (m_gw m) \<and> (\<forall>k \<in> snd ` set (m_conns m). conn_wf k)"

definition stays :: "('d, 'r) Manager option \<Rightarrow> bool" where
  "stays r \<longleftrightarrow> (case r of Some m \<Rightarrow> mgr_wf m | None \<Rightarrow> False)"

text \<open>The same for a step that also returns a value.\<close>

definition stays2 :: "('a \<times> ('d, 'r) Manager) option \<Rightarrow> bool" where
  "stays2 r \<longleftrightarrow> (case r of Some (_, m) \<Rightarrow> mgr_wf m | None \<Rightarrow> False)"

definition hooks_wf :: "('d, 'r) hooks \<Rightarrow> bool" where
  "hooks_wf h \<longleftrightarrow>
     (\<forall>f u n x m. h_occupancy h = Some f \<longrightarrow> mgr_wf m \<longrightarrow> stays (f u n x m))
     \<and> (\<forall>f u n x m. h_linkChange h = Some f \<longrightarrow> mgr_wf m \<longrightarrow> stays (f u n x m))
     \<and> (\<forall>f u n x m. h_memberChange h = Some f \<longrightarrow> mgr_wf m \<longrightarrow> stays (f u n x m))
     \<and> (\<forall>f u n x m. h_iconChange h = Some f \<longrightarrow> mgr_wf m \<longrightarrow> stays2 (f u n x m))
     \<and> (\<forall>f u x m. h_mentionRelay h = Some f \<longrightarrow> mgr_wf m \<longrightarrow> stays (f u x m))
     \<and> (\<forall>f u n x m. h_peerAvatar h = Some f \<longrightarrow> mgr_wf m \<longrightarrow> stays (f u n x m))
     \<and> (\<forall>f u n x m. h_peerFacts h = Some f \<longrightarrow> mgr_wf m \<longrightarrow> stays (f u n x m))
     \<and> (\<forall>f u n x b m. h_avatarFail h = Some f \<longrightarrow> mgr_wf m \<longrightarrow> stays (f u n x b m))"

named_theorems keeps

section \<open>State access\<close>

lemma read_at_in [simp]: "i < length xs \<Longrightarrow> read_at xs i = Some (xs ! i)"
  by (simp add: read_at_def)

lemma read_from1_in [simp]: "xs \<noteq> [] \<Longrightarrow> read_from1 xs = Some (tl xs)"
  by (simp add: read_from1_def)

lemma read_from1_prefix [simp]: "has_prefix xs (c # p) \<Longrightarrow> read_from1 xs = Some (tl xs)"
  by (cases xs) (simp_all add: read_from1_def has_prefix_iff)

lemma stays_Some [simp]: "stays (Some m) = mgr_wf m" "stays None = False"
  by (simp_all add: stays_def)

lemma stays2_Some [simp]: "stays2 (Some (x, m)) = mgr_wf m" "stays2 None = False"
  by (simp_all add: stays2_def)

lemma stays_bind [keeps]: "stays r \<Longrightarrow> (\<And>m. r = Some m \<Longrightarrow> mgr_wf m \<Longrightarrow> stays (f m)) \<Longrightarrow> stays (Option.bind r f)"
  by (cases r) (simp_all add: stays_def)

lemma stays2_bind [keeps]: "stays r \<Longrightarrow> (\<And>m. r = Some m \<Longrightarrow> mgr_wf m \<Longrightarrow> stays2 (f m)) \<Longrightarrow> stays2 (Option.bind r f)"
  by (cases r) (simp_all add: stays_def)

lemma read_stays [keeps]:
  "i < length xs \<Longrightarrow> stays (f (xs ! i)) \<Longrightarrow> stays (Option.bind (read_at xs i) f)"
  "i < length xs \<Longrightarrow> stays2 (g (xs ! i)) \<Longrightarrow> stays2 (Option.bind (read_at xs i) g)"
  by simp_all

lemma stays_map [keeps]: "stays r \<Longrightarrow> (\<And>m. mgr_wf m \<Longrightarrow> mgr_wf (f m)) \<Longrightarrow> stays (map_option f r)"
  by (cases r) (simp_all add: stays_def)

lemma stays2_map [keeps]: "stays2 r \<Longrightarrow> stays (map_option snd r)"
  by (cases r) (auto simp: stays_def stays2_def)

lemma stays_pair [keeps]: "stays r \<Longrightarrow> stays2 (map_option (Pair x) r)"
  by (cases r) (auto simp: stays_def stays2_def)

lemma mgr_wf_sent [simp]:
  "mgr_wf (m\<lparr>m_sent := x\<rparr>) = mgr_wf m" "mgr_wf (m\<lparr>m_clients := y\<rparr>) = mgr_wf m"
  "mgr_wf (m\<lparr>m_batchSeq := n\<rparr>) = mgr_wf m" "mgr_wf (m\<lparr>m_previews := p\<rparr>) = mgr_wf m"
  "mgr_wf (m\<lparr>m_previewJobs := j\<rparr>) = mgr_wf m" "mgr_wf (send c a m) = mgr_wf m" "mgr_wf (set_store d s m) = mgr_wf m"
  by (simp_all add: mgr_wf_def send_def set_store_def)

lemma mgr_wf_send_all [simp]: "mgr_wf (send_all c as m) = mgr_wf m"
proof (induction as arbitrary: m)
  case (Cons a as)
  then show ?case by (simp add: send_all_def)
qed (simp add: send_all_def)

lemma conn_at_wf: "mgr_wf m \<Longrightarrow> conn_at m u n = Some k \<Longrightarrow> conn_wf k"
  by (auto simp: mgr_wf_def conn_at_def dest!: map_of_SomeD)

lemma the_conn_wf [keeps]: "mgr_wf m \<Longrightarrow> conn_wf (the_conn m c)"
  by (auto simp: mgr_wf_def the_conn_def conn_at_def newConn_wf split: option.split dest!: map_of_SomeD)

lemma set_alist_update: "set (AList.update k v al) \<subseteq> insert (k, v) (set al)"
  by (induction al) auto

lemma put_conn_wf [keeps]: "mgr_wf m \<Longrightarrow> conn_wf k \<Longrightarrow> mgr_wf (put_conn c k m)"
  using set_alist_update [of "conn_key (fst c) (snd c)" k "m_conns m"]
  by (auto simp: mgr_wf_def put_conn_def)

lemma on_conn_wf [keeps]: "mgr_wf m \<Longrightarrow> (\<And>k. conn_wf k \<Longrightarrow> conn_wf (snd (f k))) \<Longrightarrow> mgr_wf (snd (on_conn c f m))"
  by (auto simp: on_conn_def split_beta keeps)

lemma on_db_wf [simp]: "mgr_wf (snd (on_db f m)) = mgr_wf m"
  by (simp add: on_db_def split_beta)

lemma on_ids_wf [simp]: "mgr_wf (snd (on_ids f m)) = mgr_wf m"
  by (simp add: on_ids_def split_beta)

lemma mint_new_wf [simp]: "mgr_wf (snd (mint_new now m)) = mgr_wf m"
  by (auto simp: mint_new_def split_beta)

lemma gw_dispatch_stays [keeps]: "mgr_wf m \<Longrightarrow> stays (gw_dispatch u t d now m)"
  using Dispatch_effect [of "m_gw m" u t d now] by (auto simp: gw_dispatch_def mgr_wf_def)

section \<open>Operations of a connection\<close>

lemma conn_wf_field [simp]:
  "conn_wf (k\<lparr>c_sendJobs := a1\<rparr>) = conn_wf k" "conn_wf (k\<lparr>c_linkUp := b1\<rparr>) = conn_wf k"
  "conn_wf (k\<lparr>c_histCapUp := b2\<rparr>) = conn_wf k" "conn_wf (k\<lparr>c_multilineCapUp := b3\<rparr>) = conn_wf k"
  "conn_wf (k\<lparr>c_metadataCapUp := b4\<rparr>) = conn_wf k" "conn_wf (k\<lparr>c_iconSeen := s1\<rparr>) = conn_wf k"
  "conn_wf (k\<lparr>c_ownStatus := s2\<rparr>) = conn_wf k" "conn_wf (k\<lparr>c_typingLast := t1\<rparr>) = conn_wf k"
  "conn_wf (k\<lparr>c_renames := r1\<rparr>) = conn_wf k" "conn_wf (k\<lparr>c_pageWaiting := b5\<rparr>) = conn_wf k"
  "conn_wf (k\<lparr>c_pageTarget := s3\<rparr>) = conn_wf k" "conn_wf (k\<lparr>c_pageBatch := p1\<rparr>) = conn_wf k"
  "conn_wf (k\<lparr>c_pageCeiling := s4\<rparr>) = conn_wf k" "conn_wf (k\<lparr>c_pageIssued := t2\<rparr>) = conn_wf k"
  "conn_wf (k\<lparr>c_histSelectorBroken := b6\<rparr>) = conn_wf k" "conn_wf (k\<lparr>c_peerFetching := f1\<rparr>) = conn_wf k"
  "conn_wf (k\<lparr>c_metaRetries := f2\<rparr>) = conn_wf k" "conn_wf (k\<lparr>c_avatarSetPending := b7\<rparr>) = conn_wf k"
  "conn_wf (k\<lparr>c_avatarSetPrevHash := s5\<rparr>) = conn_wf k" "conn_wf (k\<lparr>c_avatarSetGlobal := b8\<rparr>) = conn_wf k"
  "conn_wf (k\<lparr>c_lastLinkErr := s6\<rparr>) = conn_wf k" "conn_wf (k\<lparr>c_multilineBytes := i1\<rparr>) = conn_wf k"
  "conn_wf (k\<lparr>c_multilineLines := i2\<rparr>) = conn_wf k"
  by (simp_all add: conn_wf_defs)

lemma conn_name_op_wf:
  assumes "conn_wf k" "k' \<in> {renameAway k old new, renamePeer k old new, forgetAway k nick, forgetPeer k nick}"
  shows "conn_wf k'"
proof (rule conn_wf_names [OF assms(1)])
  show "names_wf k \<Longrightarrow> names_wf k'" using assms(2) by (auto simp: setPeer_wf renameAway_wf forget_wf)
qed (use assms(2) in \<open>auto simp: conn_op_defs split: option.splits\<close>)

lemma conn_op_wf [keeps]:
  assumes "conn_wf k"
  shows "conn_wf (appendChatFrame k ref f)" "conn_wf (openChatBatch k ref acc)" "conn_wf (pushChatStack k ref)"
    "conn_wf (popChatStack k ref)" "conn_wf (snd (closeChatBatch k ref))" "conn_wf (openLineBatch k ref lacc)"
    "conn_wf (appendLineFrame k ref lf)" "conn_wf (snd (closeLineBatch k ref))" "conn_wf (snd (setAway k nick away))"
    "conn_wf (renameAway k old new)" "conn_wf (renamePeer k old new)" "conn_wf (forgetAway k nick)"
    "conn_wf (forgetPeer k nick)" "conn_wf (setPeerAccount k nick account)" "conn_wf (setPeerHost k nick user host)"
    "conn_wf (markPending k ch)" "conn_wf (snd (clearPending k ch))" "conn_wf (registerMsgid k mref msgid)"
    "conn_wf (registerMsgidAlias k mref msgid)" "conn_wf (pushPendingSend k target mref)"
    "conn_wf (snd (popPendingSend k target))" "conn_wf (snd (trackReaction k s e u remove))"
    "conn_wf (enqueueSend k target body query replyMsgid)"
proof -
  show "conn_wf (renameAway k old new)" "conn_wf (renamePeer k old new)" "conn_wf (forgetAway k nick)" "conn_wf (forgetPeer k nick)"
    by - (rule conn_name_op_wf [OF assms, of _ old new nick], simp)+
  show "conn_wf (openChatBatch k ref acc)" "conn_wf (pushChatStack k ref)" "conn_wf (popChatStack k ref)"
    "conn_wf (snd (closeChatBatch k ref))" "conn_wf (enqueueSend k target body query replyMsgid)"
    using assms by (auto simp: conn_op_defs enqueueSend_def conn_wf_frame Let_def split_beta split: option.splits)
qed (rule conn_step_wf [OF _ assms], rule conn_step.intros)+

section \<open>Relays\<close>

lemma notifyOccupancy_stays [keeps]: "hooks_wf h \<Longrightarrow> mgr_wf m \<Longrightarrow> stays (notifyOccupancy h c ch m)"
  by (auto simp: notifyOccupancy_def hooks_wf_def split: option.split)

lemma fireLinkChange_stays [keeps]: "hooks_wf h \<Longrightarrow> mgr_wf m \<Longrightarrow> stays (fireLinkChange h c up m)"
  by (auto simp: fireLinkChange_def hooks_wf_def split: option.split)

lemma mention_self_stays [keeps]: "hooks_wf h \<Longrightarrow> mgr_wf m \<Longrightarrow> stays (mention_self h c ch us m)"
  by (auto simp: mention_self_def hooks_wf_def split: option.split)

lemma drop_forks_wf [simp]: "mgr_wf (drop_forks B keep fs m) = mgr_wf m"
  by (induction B keep fs m rule: drop_forks.induct) simp_all

lemma clydeDM_wf [simp]: "mgr_wf (snd (clydeDM B now u m)) = mgr_wf m"
  by (auto simp: clydeDM_def Let_def split_beta split: if_splits option.splits sum.splits)

lemma say_stays [keeps]: "mgr_wf m \<Longrightarrow> stays (say B now u ch text m)"
  by (auto simp: say_def Let_def split_beta intro!: keeps split: sum.split)

lemma clydeSay_stays [keeps]: "mgr_wf m \<Longrightarrow> stays (clydeSay B now u text m)"
  by (auto simp: clydeSay_def Let_def split_beta intro!: keeps split: option.split)

lemma systemSay_stays [keeps]: "mgr_wf m \<Longrightarrow> stays (systemSay B now u n text m)"
  by (auto simp: systemSay_def Let_def split_beta intro!: keeps split: sum.split)

lemma mirror_wf [simp]: "mgr_wf (snd (mirror B now p img m)) = mgr_wf m"
  by (auto simp: mirror_def Let_def split_beta split: sum.splits)

lemma mirror_all_wf [simp]: "mgr_wf (snd (mirror_all B e now us m)) = mgr_wf m"
  by (induction us arbitrary: m) (auto simp: Let_def split_beta split: option.splits)

lemma imageAttachments_wf [simp]: "mgr_wf (snd (imageAttachments B e now body m)) = mgr_wf m"
  by (simp add: imageAttachments_def)

lemma discordize_wf [simp]: "mgr_wf (snd (discordize B e now u n t body m)) = mgr_wf m"
  by (auto simp: discordize_def mention_chans_def Let_def split_beta split: sum.split)

lemma sendLinkPreview_wf [simp]: "mgr_wf (sendLinkPreview u ch i body m) = mgr_wf m"
  by (simp add: sendLinkPreview_def Let_def)

lemma fresh_preview_wf: "fresh_preview B e now u m = Some (p, m') \<Longrightarrow> mgr_wf m' = mgr_wf m"
  using mirror_wf by (fastforce simp: fresh_preview_def Let_def split_beta split: if_splits option.splits prod.splits)

lemma previewFor_wf: "previewFor B e now u m = Some (p, m') \<Longrightarrow> mgr_wf m' = mgr_wf m"
  using fresh_preview_wf by (fastforce simp: previewFor_def Let_def split: option.splits if_splits)

text \<open>The job of a link preview panics only when it reads the page.\<close>

lemma run_preview_stays:
  assumes "mgr_wf m" "previewFor B e now link m \<noteq> None" shows "stays (run_preview B e now (u, ch, i, link) m)"
proof -
  obtain p m' where p: "previewFor B e now link m = Some (p, m')" using assms(2) by auto
  then have "mgr_wf m'" using previewFor_wf assms(1) by blast
  then show ?thesis using p by (auto simp: run_preview_def Let_def split_beta intro!: keeps split: sum.split)
qed

lemma run_preview_wf: "mgr_wf m \<Longrightarrow> run_preview B e now job m = Some m' \<Longrightarrow> mgr_wf m'"
  using run_preview_stays [of m B e now "snd (snd (snd job))" "fst job" "fst (snd job)" "fst (snd (snd job))"]
  by (cases job) (fastforce simp: stays_def run_preview_def split: option.splits)

lemma dispatchPeerMember_stays [keeps]: "mgr_wf m \<Longrightarrow> stays (dispatchPeerMember B now c nick mode at m)"
  by (simp add: dispatchPeerMember_def Let_def keeps)

lemma upsertPeerMember_stays [keeps]: "mgr_wf m \<Longrightarrow> stays (upsertPeerMember B now c nick mode at m)"
  by (simp add: upsertPeerMember_def keeps split: sum.split)

lemma upsert_each_stays [keeps]: "mgr_wf m \<Longrightarrow> stays (upsert_each B now c at ps m)"
  by (induction B now c at ps m rule: upsert_each.induct) (simp_all add: keeps)

lemma upsertMentionedPeers_stays [keeps]: "mgr_wf m \<Longrightarrow> stays (upsertMentionedPeers B now c us m)"
  by (simp add: upsertMentionedPeers_def keeps split: sum.split)

lemma sweep_each_stays [keeps]: "mgr_wf m \<Longrightarrow> stays (sweep_each B now c ps m)"
  by (induction B now c ps m rule: sweep_each.induct) (simp_all add: keeps)

lemma sweepPeerMembers_stays [keeps]: "mgr_wf m \<Longrightarrow> stays (sweepPeerMembers B now c ch m)"
  by (simp add: sweepPeerMembers_def keeps)

lemma buffer_row_wf [simp]: "mgr_wf (buffer_row B c row m) = mgr_wf m"
  by (auto simp: buffer_row_def Let_def split_beta split: sum.split)

lemma register_live_wf [keeps]: "mgr_wf m \<Longrightarrow> mgr_wf (register_live c ref msgid m)"
  by (simp add: register_live_def keeps)

lemma dispatchQuery_stays [keeps]: "mgr_wf m \<Longrightarrow> stays (dispatchQuery B e now c author body ts msgid reply m)"
  by (auto simp: dispatchQuery_def Let_def split_beta intro!: keeps split: sum.split)

lemma dispatchMessage_stays [keeps]:
  "hooks_wf h \<Longrightarrow> mgr_wf m \<Longrightarrow> stays (dispatchMessage B e h now c target author body ts msgid reply m)"
  by (auto simp: dispatchMessage_def Let_def split_beta intro!: keeps split: sum.split)

section \<open>Bridges\<close>

lemma resolveRef_wf [keeps]: "mgr_wf m \<Longrightarrow> mgr_wf (snd (resolveRef B c msgid m))"
  by (auto simp: resolveRef_def Let_def keeps split: option.split)

lemma react_stays [keeps]: "mgr_wf m \<Longrightarrow> stays (react B now c ref i emoji u remove m)"
  by (auto simp: react_def dispatchReaction_def persistReactions_def Let_def split_beta intro!: keeps)

lemma applyReaction_stays [keeps]: "mgr_wf m \<Longrightarrow> stays (applyReaction B now c nick msgid emoji remove m)"
  by (auto simp: applyReaction_def split_beta intro!: keeps split: option.split)

lemma dispatchDelete_stays [keeps]: "mgr_wf m \<Longrightarrow> stays (dispatchDelete now c ref m)"
  by (simp add: dispatchDelete_def keeps)

lemma applyRedaction_stays [keeps]: "mgr_wf m \<Longrightarrow> stays (applyRedaction B now c msgid m)"
  by (auto simp: applyRedaction_def split_beta intro!: keeps split: option.split)

lemma applyTopic_stays [keeps]: "mgr_wf m \<Longrightarrow> stays (applyTopic B now c ch topic m)"
  by (auto simp: applyTopic_def split_beta intro!: keeps split: sum.split)

lemma applyOwnNick_stays [keeps]: "hooks_wf h \<Longrightarrow> mgr_wf m \<Longrightarrow> stays (applyOwnNick B h c nick m)"
  by (auto simp: applyOwnNick_def hooks_wf_def split_beta split: sum.split option.split)

lemma rename_members_wf [simp]: "mgr_wf (rename_members B stored new mems m) = mgr_wf m"
  by (induction mems arbitrary: m) simp_all

lemma applyRename_stays [keeps]: "hooks_wf h \<Longrightarrow> mgr_wf m \<Longrightarrow> stays (applyRename B h now c old new m)"
  by (auto simp: applyRename_def Let_def split_beta intro!: keeps split: sum.split)

lemma applyStatus_wf [keeps]: "mgr_wf m \<Longrightarrow> mgr_wf (applyStatus c status m)"
  by (auto simp: applyStatus_def Let_def intro!: keeps split: option.split)

lemma dispatchSelfPresence_stays [keeps]: "mgr_wf m \<Longrightarrow> stays (dispatchSelfPresence now c status m)"
  by (simp add: dispatchSelfPresence_def keeps)

lemma typing_target_wf [keeps]: "mgr_wf m \<Longrightarrow> mgr_wf (snd (typing_target B now c nick target m))"
  by (auto simp: typing_target_def split_beta split: sum.split)

lemma dispatchTyping_stays [keeps]: "mgr_wf m \<Longrightarrow> stays (dispatchTyping B now c nick target m)"
  by (auto simp: dispatchTyping_def Let_def split_beta intro!: keeps split: option.split)

lemma own_echo_wf [keeps]: "mgr_wf m \<Longrightarrow> mgr_wf (own_echo B c target msgid m)"
  by (auto simp: own_echo_def Let_def split_beta intro!: keeps)

section \<open>Batches\<close>

lemma index_aliases_wf [keeps]: "mgr_wf m \<Longrightarrow> mgr_wf (index_aliases B c ref is m)"
proof (induction "is" arbitrary: m)
  case (Cons i "is")
  then show ?case by (simp add: Let_def put_conn_wf the_conn_wf conn_op_wf)
qed simp

lemma index_frame_wf [keeps]: "mgr_wf m \<Longrightarrow> mgr_wf (index_frame B c ref msgid extras m)"
  by (auto simp: index_frame_def Let_def intro!: keeps)

lemma frame_id_wf [simp]: "mgr_wf (snd (frame_id isLive ceiling ts m)) = mgr_wf m"
  by (simp add: frame_id_def Let_def split_beta)

lemma maybeChatPrefill_wf [simp]: "mgr_wf (maybeChatPrefill B c ch m) = mgr_wf m"
  by (simp add: maybeChatPrefill_def)

lemma chatBatchFrame_stays [keeps]: "mgr_wf m \<Longrightarrow> stays (chatBatchFrame now c ev ref m)"
  by (auto simp: chatBatchFrame_def Let_def intro!: keeps)

lemma lineBatchFrame_stays [keeps]: "mgr_wf m \<Longrightarrow> stays (lineBatchFrame c ev ref m)"
  by (auto simp: lineBatchFrame_def Let_def intro!: keeps)

lemma flush_frame_stays [keeps]: "hooks_wf h \<Longrightarrow> mgr_wf m \<Longrightarrow> stays2 (flush_frame B e h now c isLive ceiling f m)"
  by (auto simp: flush_frame_def Let_def split_beta intro!: keeps split: sum.split)

lemma flush_frames_stays [keeps]: "hooks_wf h \<Longrightarrow> mgr_wf m \<Longrightarrow> stays2 (flush_frames B e h now c isLive ceiling fs m)"
proof (induction fs arbitrary: m)
  case (Cons f fs)
  then show ?case
    using flush_frame_stays [OF Cons.prems, of B e now c isLive ceiling f]
    by (force simp: stays2_def split: option.splits prod.splits)
qed simp

lemma flushChatBatch_stays [keeps]: "hooks_wf h \<Longrightarrow> mgr_wf m \<Longrightarrow> stays2 (flushChatBatch B e h now c acc isLive ceiling m)"
  by (auto simp: flushChatBatch_def Let_def intro!: keeps)

lemma batch_target_read: "\<exists>t. batch_target ps = Some t"
  by (simp add: batch_target_def)

lemma chatBatchControl_stays [keeps]: "hooks_wf h \<Longrightarrow> mgr_wf m \<Longrightarrow> stays (chatBatchControl B e h now c ev m)"
  using batch_target_read [of "ev_params ev"] by (auto simp: chatBatchControl_def Let_def split_beta intro!: keeps split: option.split)

lemma flushLineBatch_stays [keeps]: "hooks_wf h \<Longrightarrow> mgr_wf m \<Longrightarrow> stays (flushLineBatch B e h now c acc m)"
  by (auto simp: flushLineBatch_def Let_def split_beta intro!: keeps split: list.split option.split)

lemma multilineBatchControl_stays [keeps]:
  "hooks_wf h \<Longrightarrow> mgr_wf m \<Longrightarrow> stays2 (multilineBatchControl B e h now c ev m)"
  by (auto simp: multilineBatchControl_def multilineBatch_open_def Let_def split_beta intro!: keeps split: option.split)

section \<open>Metadata\<close>

lemma metadata_wf [simp]:
  "mgr_wf (metadataSubscribe c m) = mgr_wf m" "mgr_wf (metadataSyncChannel c ch m) = mgr_wf m"
  by (simp_all add: metadataSubscribe_def metadataSyncChannel_def split: option.split)

lemma handleMetadataSyncLater_stays [keeps]: "mgr_wf m \<Longrightarrow> stays (handleMetadataSyncLater c ps m)"
  by (auto simp: handleMetadataSyncLater_def metadataSyncRetry_def Let_def intro!: keeps)

lemma avatarFail_stays [keeps]:
  "hooks_wf h \<Longrightarrow> mgr_wf m \<Longrightarrow> stays (case h_avatarFail h of None \<Rightarrow> Some m | Some f \<Rightarrow> f u n x b m)"
  by (auto simp: hooks_wf_def split: option.split)

lemma avatarSetRejected_stays [keeps]: "hooks_wf h \<Longrightarrow> mgr_wf m \<Longrightarrow> stays (avatarSetRejected B h now c code descr m)"
  unfolding avatarSetRejected_def Let_def by (auto intro!: keeps)

lemma store_fact_stays [keeps]: "hooks_wf h \<Longrightarrow> mgr_wf m \<Longrightarrow> stays (store_fact h c nick f m)"
  by (auto simp: store_fact_def firePeerFacts_def hooks_wf_def split_beta split: sum.split option.split)

lemma firePeerAvatar_stays [keeps]: "hooks_wf h \<Longrightarrow> mgr_wf m \<Longrightarrow> stays (firePeerAvatar h c nick m)"
  by (auto simp: firePeerAvatar_def hooks_wf_def split: option.split)

lemma peer_avatar_fetched_stays [keeps]:
  "hooks_wf h \<Longrightarrow> mgr_wf m \<Longrightarrow> stays (peer_avatar_fetched B h now c nick img m)"
  by (auto simp: peer_avatar_fetched_def split_beta intro!: keeps split: option.split sum.split)

lemma applyPeerMeta_stays [keeps]: "hooks_wf h \<Longrightarrow> mgr_wf m \<Longrightarrow> stays (applyPeerMeta B h c g nick mk v m)"
  by (auto simp: applyPeerMeta_def applyPeerAvatar_def applyPeerBot_def applyPeerColor_def Let_def
      intro!: keeps split: option.split)

lemma handleMetadata_stays [keeps]:
  assumes "hooks_wf h" "mgr_wf m"
  shows "stays (handleMetadataEvent B h c g ps m)" "stays (handleMetadataKeyValue B h c g ps m)"
    "stays (handleMetadataNotSet B h c g ps m)"
  using assms by (auto simp: handleMetadataEvent_def handleMetadataKeyValue_def handleMetadataNotSet_def intro!: keeps)

lemma applyWhoBotFlag_stays [keeps]: "hooks_wf h \<Longrightarrow> mgr_wf m \<Longrightarrow> stays (applyWhoBotFlag B h c g nick flags m)"
  by (auto simp: applyWhoBotFlag_def Let_def split_beta intro!: keeps)

section \<open>Handlers\<close>

text \<open>The events that the PRIVMSG handler can read.\<close>

definition readable :: "girc_event \<Rightarrow> bool" where
  "readable ev \<longleftrightarrow> (ev_command ev = ''PRIVMSG'' \<longrightarrow> ev_params ev \<noteq> [] \<and> ev_source ev \<noteq> None)"

lemma on_privmsg_stays [keeps]:
  "hooks_wf h \<Longrightarrow> mgr_wf m \<Longrightarrow> ev_params ev \<noteq> [] \<Longrightarrow> ev_source ev \<noteq> None \<Longrightarrow> stays (on_privmsg B e h now c ev m)"
  by (auto simp: on_privmsg_def intro!: keeps)

lemma on_notice_stays [keeps]: "hooks_wf h \<Longrightarrow> mgr_wf m \<Longrightarrow> stays (on_notice B e h now c ev m)"
  by (auto simp: on_notice_def intro!: keeps)

lemma budget_item_wf [simp]: "conn_wf (budget_item x k) = conn_wf k"
  by (simp add: budget_item_def split: option.split sum.split)

lemma fold_wf: "(\<And>x k. conn_wf (f x k) = conn_wf k) \<Longrightarrow> conn_wf (fold f xs k) = conn_wf k"
  by (induction xs arbitrary: k) simp_all

lemma cap_token_wf [simp]: "conn_wf (cap_ls_token tok k) = conn_wf k" "conn_wf (cap_ack_token tok k) = conn_wf k"
  by (simp_all add: cap_ls_token_def cap_ack_token_def Let_def fold_wf split: option.split)

lemma on_cap_wf: "\<exists>k'. on_cap ev k = Some k' \<and> conn_wf k' = conn_wf k"
  by (simp add: on_cap_def cap_line_def Let_def fold_wf)

lemma on_message_echo_stays [keeps]: "mgr_wf m \<Longrightarrow> stays (on_message_echo B now c ev m)"
  by (auto simp: on_message_echo_def batched_frame_def Let_def intro!: keeps)

lemma on_batch_stays [keeps]: "hooks_wf h \<Longrightarrow> mgr_wf m \<Longrightarrow> stays (on_batch B e h now c ev m)"
  using multilineBatchControl_stays [of h m B e now c ev]
  by (auto simp: on_batch_def stays2_def intro!: keeps split: option.splits)

lemma on_away_stays [keeps]: "hooks_wf h \<Longrightarrow> mgr_wf m \<Longrightarrow> stays (on_away h c nick away m)"
  by (auto simp: on_away_def split_beta intro!: keeps)

lemma on_own_nick_stays [keeps]: "hooks_wf h \<Longrightarrow> mgr_wf m \<Longrightarrow> stays (on_own_nick B h c g old new m)"
  by (auto simp: on_own_nick_def intro!: keeps)

lemma on_all_events_stays [keeps]: "hooks_wf h \<Longrightarrow> mgr_wf m \<Longrightarrow> stays (on_all_events B e h now c g ev m)"
  using on_cap_wf [of ev "the_conn m c"] unfolding on_all_events_def Let_def by (auto intro!: keeps)

lemma on_isupport_stays [keeps]: "hooks_wf h \<Longrightarrow> mgr_wf m \<Longrightarrow> stays (on_isupport h c ev m)"
proof (cases "h_iconChange h")
  case (Some f)
  assume "hooks_wf h" and m: "mgr_wf m"
  then have f: "stays2 (f u n x m)" if "mgr_wf m" for u n x m using Some that by (simp add: hooks_wf_def)
  have ok: "\<exists>b m'. f (fst c) (snd c) url (put_conn c ((the_conn m c)\<lparr>c_iconSeen := url\<rparr>) m) = Some (b, m') \<and> mgr_wf m'" for url
    using f [of "put_conn c ((the_conn m c)\<lparr>c_iconSeen := url\<rparr>) m" "fst c" "snd c" url] m
    by (auto simp: stays2_def put_conn_wf the_conn_wf split: option.splits)
  show ?thesis
  proof (cases "List.find (\<lambda>p. has_prefix p ''draft/ICON='') (ev_params ev)")
    case (Some p)
    then show ?thesis
      using ok [of "trim_prefix p ''draft/ICON=''"] \<open>h_iconChange h = Some f\<close> m
      by (auto simp: on_isupport_def Let_def intro!: keeps)
  qed (simp add: on_isupport_def m)
qed (auto simp: on_isupport_def Let_def intro!: keeps split: option.split)

lemma join_all_wf [keeps]: "mgr_wf m \<Longrightarrow> mgr_wf (join_all B c chs m)"
  by (induction chs arbitrary: m) (simp_all add: put_conn_wf the_conn_wf conn_op_wf)

lemma on_connected_stays [keeps]: "hooks_wf h \<Longrightarrow> mgr_wf m \<Longrightarrow> stays (on_connected B h c g m)"
  by (auto simp: on_connected_def Let_def intro!: keeps split: sum.split)

lemma on_nick_stays [keeps]: "hooks_wf h \<Longrightarrow> mgr_wf m \<Longrightarrow> stays (on_nick B h c g ev m)"
  by (auto simp: on_nick_def Let_def intro!: keeps)

lemma note_joiner_stays [keeps]: "mgr_wf m \<Longrightarrow> stays (note_joiner c ev m)"
  by (auto simp: note_joiner_def Let_def intro!: keeps)

lemma own_source_read: "\<exists>b. own_source g ev = Some b"
  by (auto simp: own_source_def)

lemma on_join_stays [keeps]: "hooks_wf h \<Longrightarrow> mgr_wf m \<Longrightarrow> stays (on_join B h now c g ev m)"
  using own_source_read [of g ev] by (auto simp: on_join_def Let_def intro!: keeps)

lemma left_channel_wf [simp]: "mgr_wf (left_channel B c ch m) = mgr_wf m"
  by (simp add: left_channel_def)

lemma on_leave_stays [keeps]:
  assumes "hooks_wf h" "mgr_wf m"
  shows "stays (on_part B h c g ev m)" "stays (on_kick B h c g ev m)" "stays (on_quit h c ev m)"
  using assms own_source_read [of g ev] by (auto simp: on_part_def on_kick_def on_quit_def Let_def intro!: keeps)

lemma on_account_stays [keeps]: "mgr_wf m \<Longrightarrow> stays (on_account c ev m)" "mgr_wf m \<Longrightarrow> stays (on_chghost c ev m)"
  by (auto simp: on_account_def on_chghost_def intro!: keeps)

lemma on_mode_stays [keeps]: "hooks_wf h \<Longrightarrow> mgr_wf m \<Longrightarrow> stays (on_mode h valid c ps m)"
  by (auto simp: on_mode_def intro!: keeps)

lemma on_invite_stays [keeps]: "hooks_wf h \<Longrightarrow> mgr_wf m \<Longrightarrow> stays (on_invite B e h now c g ev m)"
  by (auto simp: on_invite_def intro!: keeps)

lemma avatar_refused_read: "\<exists>b. avatar_refused g ev = Some b"
  by (cases "ev_params ev") (auto simp: avatar_refused_def Let_def)

lemma on_standard_reply_stays [keeps]: "hooks_wf h \<Longrightarrow> mgr_wf m \<Longrightarrow> stays (on_standard_reply B e h now c g ev m)"
  using avatar_refused_read [of g ev]
  by (auto simp: on_standard_reply_def middle_params_def Let_def intro!: keeps split: option.split)

lemma on_own_away_stays [keeps]: "hooks_wf h \<Longrightarrow> mgr_wf m \<Longrightarrow> stays (on_own_away h now c g away m)"
  by (auto simp: on_own_away_def split_beta intro!: keeps)

lemma on_who_reply_stays [keeps]: "hooks_wf h \<Longrightarrow> mgr_wf m \<Longrightarrow> stays (on_who_reply B h c g ev m)"
  by (auto simp: on_who_reply_def Let_def intro!: keeps)

lemma on_tagmsg_stays [keeps]: "mgr_wf m \<Longrightarrow> stays (on_tagmsg B now c g ev m)"
  by (auto simp: on_tagmsg_def intro!: keeps)

lemma on_redact_stays [keeps]: "mgr_wf m \<Longrightarrow> stays (on_redact B now c g ev m)"
  by (auto simp: on_redact_def intro!: keeps)

lemma on_join_error_stays [keeps]: "mgr_wf m \<Longrightarrow> stays (on_join_error B now c ev m)"
  by (auto simp: on_join_error_def rollbackJoin_def Let_def split_beta intro!: keeps split: list.split option.split sum.split)

lemma on_command_stays [keeps]:
  assumes "hooks_wf h" "mgr_wf m" "readable ev"
  shows "stays (on_command B e h isChan now c g ev m)"
  using assms unfolding on_command_def Let_def by (auto simp: readable_def intro!: keeps)

section \<open>Requests and goroutines\<close>

lemma request_wf [keeps]: "mgr_wf m \<Longrightarrow> mgr_wf (snd (request u n a m))"
  by (simp add: request_def split: sum.split)

lemma send_wf [keeps]:
  assumes "mgr_wf m"
  shows "mgr_wf (snd (SendChannel u n ch body i chID reply m))" "mgr_wf (snd (SendQuery u n nick body i chID reply m))"
    "mgr_wf (JoinChannel B u n ch m)" "mgr_wf (PartChannel u n ch m)" "mgr_wf (snd (SendTyping u n ch m))"
  using assms
  by (auto simp: SendChannel_def SendQuery_def JoinChannel_def PartChannel_def SendTyping_def queue_send_def Let_def
      intro!: keeps split: sum.split)

lemma SetStatus_wf [keeps]: "mgr_wf m \<Longrightarrow> mgr_wf (SetStatus u status m)"
proof -
  have "mgr_wf m \<Longrightarrow> mgr_wf (fold (\<lambda>(_, k) m. applyStatus (c_userID k, c_networkID k) status m) ks m)" for ks m
    by (induction ks arbitrary: m) (auto simp: applyStatus_wf)
  then show "mgr_wf m \<Longrightarrow> mgr_wf (SetStatus u status m)" by (simp add: SetStatus_def)
qed

lemma reaction_ref_wf [keeps]: "mgr_wf m \<Longrightarrow> mgr_wf (snd (reaction_ref B now u n target i m))"
  by (auto simp: reaction_ref_def split_beta split: option.split sum.split)

lemma SendReaction_stays [keeps]: "mgr_wf m \<Longrightarrow> stays2 (SendReaction B now u n target i chID emoji remove m)"
  by (auto simp: SendReaction_def Let_def split_beta intro!: keeps split: sum.split)

lemma DeleteMessage_stays [keeps]: "mgr_wf m \<Longrightarrow> stays2 (DeleteMessage B now u n target i chID m)"
  by (cases "upstream m u n"; cases "MessageByID B (m_db m) chID i") (simp_all add: DeleteMessage_def Let_def keeps)

lemma send_worker_wf: "mgr_wf m \<Longrightarrow> send_worker_step c m = Some m' \<Longrightarrow> mgr_wf m'"
  by (auto simp: send_worker_step_def Let_def split_beta intro!: keeps split: list.splits option.splits)

lemma metadata_sync_fire_wf [simp]: "mgr_wf (metadata_sync_fire c target m) = mgr_wf m"
  by (simp add: metadata_sync_fire_def split: option.split)

lemma sendMetadataSet_wf [keeps]: "mgr_wf m \<Longrightarrow> mgr_wf (sendMetadataSet c url prev global m)"
  by (auto simp: sendMetadataSet_def intro!: keeps split: option.split)

lemma SetAvatarAll_wf [keeps]: "mgr_wf m \<Longrightarrow> mgr_wf (SetAvatarAll u url prev m)"
proof -
  have "mgr_wf m \<Longrightarrow> mgr_wf (fold (\<lambda>(_, k) m. sendMetadataSet (c_userID k, c_networkID k) url prev True m) ks m)" for ks m
    by (induction ks arbitrary: m) (auto simp: sendMetadataSet_wf)
  then show "mgr_wf m \<Longrightarrow> mgr_wf (SetAvatarAll u url prev m)" by (simp add: SetAvatarAll_def)
qed

lemma fetch_ask_wf [keeps]: "mgr_wf m \<Longrightarrow> mgr_wf (snd (fetch_ask now u n ch anchorID ceiling anchor limit m))"
  by (auto simp: fetch_ask_def Let_def intro!: put_conn_wf intro: conn_at_wf split: option.splits)

lemma fetch_take_stays [keeps]: "hooks_wf h \<Longrightarrow> mgr_wf m \<Longrightarrow> stays2 (fetch_take B e h now c m)"
  by (auto simp: fetch_take_def Let_def intro!: keeps split: option.split)

lemma EnsureConn_wf [keeps]: "mgr_wf m \<Longrightarrow> mgr_wf (snd (EnsureConn B u n m))"
  by (auto simp: EnsureConn_def newConn_wf intro!: keeps split: sum.split)

lemma drop_conn_wf [keeps]: "mgr_wf m \<Longrightarrow> mgr_wf (drop_conn u n m)"
  by (auto simp: mgr_wf_def drop_conn_def AList.delete_eq)

lemma link_lost_stays [keeps]: "hooks_wf h \<Longrightarrow> mgr_wf m \<Longrightarrow> stays (link_lost h c m)"
  by (auto simp: link_lost_def Let_def intro!: keeps)

lemma report_failure_stays [keeps]: "mgr_wf m \<Longrightarrow> stays (report_failure B now c net msg m)"
  by (auto simp: report_failure_def Let_def intro!: keeps)

lemma break_selector_wf [keeps]: "mgr_wf m \<Longrightarrow> mgr_wf (break_selector now c m)"
  by (auto simp: break_selector_def Let_def intro!: keeps)

lemma attempt_begin_wf [simp]: "mgr_wf (attempt_begin c g m) = mgr_wf m"
  by (simp add: attempt_begin_def)

lemma attempt_end_stays [keeps]:
  "hooks_wf h \<Longrightarrow> mgr_wf m \<Longrightarrow> stays2 (attempt_end B h now c net cancelled cErr backoff m)"
  by (auto simp: attempt_end_def Let_def intro!: keeps split: option.split)

lemma pollAwayOnce_wf [simp]: "mgr_wf (snd (pollAwayOnce B c g next m)) = mgr_wf m"
  by (simp add: pollAwayOnce_def Let_def split: sum.split)

lemma handle_event_stays [keeps]:
  "hooks_wf h \<Longrightarrow> mgr_wf m \<Longrightarrow> readable ev \<Longrightarrow> stays (handle_event B e h isChan now c g ev m)"
  by (auto simp: handle_event_def intro!: keeps)

lemma stays_result: "stays r \<Longrightarrow> r = Some m \<Longrightarrow> mgr_wf m" "stays2 r' \<Longrightarrow> r' = Some (x, m) \<Longrightarrow> mgr_wf m"
  by auto

section \<open>Runs of the manager\<close>

text \<open>What can happen to the manager: an event from a server, a request from the Discord side, a step of a goroutine, a
  dispatch by another part of the bouncer, a change of the database by it.\<close>

inductive mgr_step :: "'d store \<Rightarrow> env \<Rightarrow> ('d, 'r) hooks \<Rightarrow> ('d, 'r) Manager \<Rightarrow> ('d, 'r) Manager \<Rightarrow> bool"
  for B :: "'d store" and e :: env and h :: "('d, 'r) hooks"
where
  Event: "readable ev \<Longrightarrow> handle_event B e h isChan now c g ev m = Some m' \<Longrightarrow> mgr_step B e h m m'"
| Worker: "send_worker_step c m = Some m' \<Longrightarrow> mgr_step B e h m m'"
| Preview: "run_preview B e now job m = Some m' \<Longrightarrow> mgr_step B e h m m'"
| Sweep: "sweepPeerMembers B now c chs m = Some m' \<Longrightarrow> mgr_step B e h m m'"
| Upsert: "upsert_each B now c joined ps m = Some m' \<Longrightarrow> mgr_step B e h m m'"
| SyncTimer: "mgr_step B e h m (metadata_sync_fire c target m)"
| AvatarFetched: "peer_avatar_fetched B h now c nick img m = Some m' \<Longrightarrow> mgr_step B e h m m'"
| Connect: "mgr_step B e h m (snd (EnsureConn B u n m))"
| Disconnect: "mgr_step B e h m (drop_conn u n m)"
| Attempt: "mgr_step B e h m (attempt_begin c g m)"
| AttemptEnd: "attempt_end B h now c net cancelled cErr backoff m = Some (w, m') \<Longrightarrow> mgr_step B e h m m'"
| Poll: "mgr_step B e h m (snd (pollAwayOnce B c g next m))"
| Channel: "mgr_step B e h m (snd (SendChannel u n ch body i chID reply m))"
| Query: "mgr_step B e h m (snd (SendQuery u n nick body i chID reply m))"
| Join: "mgr_step B e h m (JoinChannel B u n ch m)"
| Part: "mgr_step B e h m (PartChannel u n ch m)"
| Typing: "mgr_step B e h m (snd (SendTyping u n ch m))"
| Request: "mgr_step B e h m (snd (request u n a m))"
| Status: "mgr_step B e h m (SetStatus u status m)"
| Avatar: "mgr_step B e h m (SetAvatarAll u url prev m)"
| Reaction: "SendReaction B now u n target i chID emoji remove m = Some (r, m') \<Longrightarrow> mgr_step B e h m m'"
| Delete: "DeleteMessage B now u n target i chID m = Some (r, m') \<Longrightarrow> mgr_step B e h m m'"
| FetchAsk: "mgr_step B e h m (snd (fetch_ask now u n ch anchorID ceiling anchor limit m))"
| FetchTake: "fetch_take B e h now c m = Some (k, m') \<Longrightarrow> mgr_step B e h m m'"
| Dispatched: "gw_dispatch u t d now m = Some m' \<Longrightarrow> mgr_step B e h m m'"
| Stored: "mgr_step B e h m (set_store d s m)"

lemma mgr_step_wf: "mgr_step B e h m m' \<Longrightarrow> hooks_wf h \<Longrightarrow> mgr_wf m \<Longrightarrow> mgr_wf m'"
proof (induction rule: mgr_step.induct)
  case Preview
  then show ?case using run_preview_wf by blast
qed (simp_all add: keeps send_worker_wf, ((erule stays_result(1) [rotated] stays_result(2) [rotated]; simp add: keeps)+)?)

section \<open>Properties\<close>

definition no_hooks :: "('d, 'r) hooks" where
  "no_hooks = \<lparr>h_occupancy = None, h_linkChange = None, h_memberChange = None, h_iconChange = None, h_mentionRelay = None,
     h_peerAvatar = None, h_peerFacts = None, h_avatarFail = None\<rparr>"

definition demo_env :: env where
  "demo_env = \<lparr>e_uni = (\<lambda>_. False), e_lower = id, e_get = (\<lambda>_. None), e_sniff = (\<lambda>_. []), e_dims = (\<lambda>_. None),
     e_unescape = id, e_resolve = (\<lambda>_. Some)\<rparr>"

definition demo_girc :: girc where
  "demo_girc = \<lparr>g_nick = ''me'', g_cap = (\<lambda>_. True), g_option = (\<lambda>_. None), g_channel = (\<lambda>_. None)\<rparr>"

definition demo_manager :: "((string, dbval) rbt, nat) Manager" where
  "demo_manager = \<lparr>m_gw = demo_server, m_conns = [], m_clients = Map.empty, m_sent = [], m_batchSeq = 0, m_publicURL = [],
     m_previews = [], m_previewJobs = []\<rparr>"

definition demo_event :: "string \<Rightarrow> string list \<Rightarrow> girc_event" where
  "demo_event command params =
     \<lparr>ev_command = command, ev_params = params, ev_tags = [(''msgid'', ''abc'')],
      ev_source = Some \<lparr>src_name = ''bob'', src_ident = ''b'', src_host = ''h''\<rparr>, ev_echo = False\<rparr>"

lemma no_hooks_wf: "hooks_wf no_hooks"
  by (simp add: hooks_wf_def no_hooks_def)

lemma demo_manager_wf: "mgr_wf demo_manager"
  by (simp add: mgr_wf_def demo_manager_def demo_server_wf)



text \<open>A PRIVMSG of another user without a parameter or without a source panics the event loop: its handler reads both
  unguarded, which the NOTICE handler does not.\<close>

lemma privmsg_unguarded:
  assumes "ev_command ev = ''PRIVMSG''" "ev_params ev = [] \<or> ev_source ev = None" "tag ev ''batch'' = []" "\<not> ev_echo ev"
  shows "handle_event B e h isChan now c g ev m = None
    \<and> handle_event B e h isChan now c g (ev\<lparr>ev_command := ''NOTICE''\<rparr>) m = Some m"
  using assms
  by (auto simp: handle_event_def on_all_events_def on_message_echo_def batched_frame_def in_line_batch_def inChatBatch_def
      on_command_def on_privmsg_def on_notice_def tag_def read_at_def Let_def)

lemma privmsg_unguarded_witness:
  "handle_event mem_kv demo_env no_hooks (\<lambda>_. True) 7 (''u'', ''n'') demo_girc (demo_event ''PRIVMSG'' []) demo_manager = None"
  using privmsg_unguarded [of "demo_event ''PRIVMSG'' []" mem_kv demo_env no_hooks "\<lambda>_. True" 7 "(''u'', ''n'')" demo_girc
      demo_manager]
  by (simp add: demo_event_def tag_def)

text \<open>Every manager that is reached from one without connections, by events of IRC servers, requests of clients, steps
  of goroutines and dispatches and writes of the rest of the bouncer in any order, has well-formed connections and a
  well-formed session table.\<close>

lemma mgr_reachable_wf:
  assumes "(mgr_step B e h)\<^sup>*\<^sup>* m m'" "hooks_wf h" "m_conns m = []" "gw_wf (m_gw m)"
  shows "gw_wf (m_gw m') \<and> (\<forall>u n k. conn_at m' u n = Some k \<longrightarrow> conn_wf k)"
proof -
  have "mgr_wf m" using assms(3,4) by (simp add: mgr_wf_def)
  with assms(1) have "mgr_wf m'" by (induction rule: rtranclp_induct) (auto intro: mgr_step_wf assms(2))
  then show ?thesis using conn_at_wf by (auto simp: mgr_wf_def)
qed

lemma mgr_reachable_wf_witness:
  "gw_wf (m_gw (JoinChannel mem_kv ''u'' ''n'' ''#a'' (attempt_begin (''u'', ''n'') demo_girc demo_manager)))"
proof -
  have "(mgr_step mem_kv demo_env no_hooks)\<^sup>*\<^sup>* demo_manager
      (JoinChannel mem_kv ''u'' ''n'' ''#a'' (attempt_begin (''u'', ''n'') demo_girc demo_manager))"
    by (meson Attempt Join rtranclp.rtrancl_into_rtrancl rtranclp.rtrancl_refl)
  moreover have "m_conns demo_manager = []" "gw_wf (m_gw demo_manager)" by (simp_all add: demo_manager_def demo_server_wf)
  ultimately show ?thesis using mgr_reachable_wf no_hooks_wf by blast
qed

text \<open>C8: A link to a page brings the bouncer down when the page is not UTF-8: the preview of a link that is not cached
  panics, in a goroutine that nothing recovers, when the head of the fetched page holds n invalid bytes and fewer than 2n
  bytes follow it with its closing tag. The preview of an ASCII page never panics and keeps the state well formed.\<close>

lemma run_preview_panics:
  assumes "e_lower e 65533 = 65533" "map_of (m_previews m) u = None" "mgr_wf m"
  shows "(fetchPage e u = replicate n bad_byte @ ''</head>'' @ rest \<and> ascii rest \<and> length rest + 7 < 2 * n \<longrightarrow>
      run_preview B e now (user, ch, i, u) m = None)
    \<and> (ascii (fetchPage e u) \<longrightarrow> (\<exists>m'. run_preview B e now (user, ch, i, u) m = Some m' \<and> mgr_wf m'))"
proof (intro conjI impI)
  assume "fetchPage e u = replicate n bad_byte @ ''</head>'' @ rest \<and> ascii rest \<and> length rest + 7 < 2 * n"
  then have "parsePreview e (fetchPage e u) u = None" using parsePreview_panics [OF assms(1)] by metis
  then show "run_preview B e now (user, ch, i, u) m = None"
    using assms(2) by (simp add: run_preview_def previewFor_def fresh_preview_def)
next
  assume "ascii (fetchPage e u)"
  then have "parsePreview e (fetchPage e u) u \<noteq> None" using parsePreview_ascii by blast
  then have "previewFor B e now u m \<noteq> None" using assms(2) by (simp add: previewFor_def fresh_preview_def)
  then show "\<exists>m'. run_preview B e now (user, ch, i, u) m = Some m' \<and> mgr_wf m'"
    using run_preview_stays [OF assms(3)] by (fastforce simp: stays_def split: option.splits)
qed

definition latin1_env :: env where
  "latin1_env = demo_env\<lparr>e_get := (\<lambda>_. Some (200, ''text/html'', replicate 4 bad_byte @ ''</head>''))\<rparr>"

lemma run_preview_panics_witness:
  "run_preview mem_kv latin1_env 7 (''u'', ''5'', ''9'', ''http://h/'') demo_manager = None"
proof -
  have "has_infix ''text/html'' ''html''" by code_simp
  then have "fetchPage latin1_env ''http://h/'' = replicate 4 bad_byte @ ''</head>''"
    by (simp add: fetchPage_def latin1_env_def maxPreviewPage_def)
  then show ?thesis
    using run_preview_panics [of latin1_env demo_manager "''http://h/''" 4 "[]" mem_kv 7 "''u''" "''5''" "''9''"] demo_manager_wf
    by (simp add: latin1_env_def demo_env_def demo_manager_def)
qed

end
