(* ===== verification/Relayed.thy ===== *)
theory Relayed
  imports EventSafety
begin

text \<open>
  What the relays leave in the database. \<open>quiet\<close> says that no stored message has changed: everything a relay does before
  its last step is quiet, and the last step appends the row of the message to the ring of its channel and indexes it by
  the id that the server gave it.
\<close>

definition quiet :: "'d store \<Rightarrow> 'd \<Rightarrow> 'd \<Rightarrow> bool" where
  "quiet B d d' \<longleftrightarrow> (\<forall>k ch. has_prefix k (msgPrefix ch) \<longrightarrow> content B d' k = content B d k)"

lemma quiet_refl [simp]: "quiet B d d"
  by (simp add: quiet_def)

lemma quiet_trans: "quiet B a b \<Longrightarrow> quiet B b c \<Longrightarrow> quiet B a c"
  by (simp add: quiet_def)

lemma no_msg_prefix [simp]:
  "\<not> has_prefix (attKey i) (msgPrefix ch)" "\<not> has_prefix (attDataKey i) (msgPrefix ch)"
  "\<not> has_prefix (dmKey i) (msgPrefix ch)" "\<not> has_prefix (dmOwnerKey o' n i) (msgPrefix ch)"
  "\<not> has_prefix (memberKey n u) (msgPrefix ch)" "\<not> has_prefix (msgidKey n i) (msgPrefix ch)"
  by (simp_all add: attKey_def attDataKey_def dmKey_def dmOwnerKey_def memberKey_def msgidKey_def msgPrefix_def)

context store
begin

lemma quiet_set: "txn_set B d k v = Inr d' \<Longrightarrow> (\<And>ch. \<not> has_prefix k (msgPrefix ch)) \<Longrightarrow> quiet B d d'"
  by (auto simp: quiet_def content_set)

lemma quiet_rings: "quiet B d d' \<Longrightarrow> ring_wf B d' ch = ring_wf B d ch" "quiet B d d' \<Longrightarrow> ring B d' ch = ring B d ch"
  using ring_cong [of ch d' d] by (auto simp: quiet_def)

lemma EnsureChannel_quiet: "quiet B d (fst (snd (EnsureChannel B d newID g net irc now)))"
  by (auto simp: EnsureChannel_def db_update_ids_def update_live Let_def split_beta finish_def tryb_def
      quiet_def dest!: content_set split: sum.split)

lemma EnsureDMChannel_quiet: "quiet B d (fst (snd (EnsureDMChannel B d newID g owner net nick now)))"
  by (auto simp: EnsureDMChannel_def db_update_ids_def update_live Let_def split_beta finish_def tryb_def
      quiet_def dest!: content_set split: sum.split)

lemma TouchDMChannel_quiet: "quiet B d (snd (TouchDMChannel B d i now))"
  by (auto simp: TouchDMChannel_def update_live finish_def tryb_def quiet_def dest!: content_set split: sum.split)

lemma PutAttachment_quiet: "quiet B d (snd (PutAttachment B d att data))"
  by (auto simp: PutAttachment_def update_live finish_def tryb_def quiet_def dest!: content_set split: sum.split)

lemma ChannelsByIRC_quiet: "quiet B d (fst (snd (ChannelsByIRC B d newID g net names now)))"
proof (induction names arbitrary: d g)
  case (Cons name names)
  show ?case
    using Cons.IH EnsureChannel_quiet [of d newID g net name now]
    by (auto simp: split_beta intro: quiet_trans split: sum.split)
qed simp

lemma mentionChannels_quiet: "quiet B d (fst (snd (mentionChannels B d newID g u net now)))"
  using ChannelsByIRC_quiet by (auto simp: mentionChannels_def split_beta split: sum.split)

end

text \<open>The state in which a relay mints the id of its row: the channel is registered. The text of the row: formatting
  and mentions translated, with the people and channels that the state knows then.\<close>

definition with_channel :: "'d store \<Rightarrow> time \<Rightarrow> cid \<Rightarrow> string \<Rightarrow> ('d, 'r) Manager \<Rightarrow> ('d, 'r) Manager" where
  "with_channel B now c target m = snd (on_ids (\<lambda>d s. EnsureChannel B d (new_id now) s (snd c) target now) m)"

definition translated :: "'d store \<Rightarrow> env \<Rightarrow> time \<Rightarrow> cid \<Rightarrow> string \<Rightarrow> string \<Rightarrow> ('d, 'r) Manager \<Rightarrow> string" where
  "translated B e now c target body m =
     fst (Discordize (e_uni e) (mention_users B m (fst c) (snd c) target) (fst (mention_chans B now (fst c) (snd c) m))
            (FormatIRC body))"

lemma discordize_text: "fst (fst (discordize B e now (fst c) (snd c) target (FormatIRC body) m)) = translated B e now c target body m"
  by (simp add: discordize_def translated_def Let_def split_beta)

section \<open>The database under the steps of a relay\<close>

lemma m_db_simps [simp]:
  "m_db (put_conn c k m) = m_db m" "m_db (send c a m) = m_db m" "m_db (set_store d s m) = d"
  "m_db (m\<lparr>m_previewJobs := j\<rparr>) = m_db m" "m_db (snd (on_db f m)) = snd (f (m_db m))"
  "m_db (snd (on_ids g m)) = fst (snd (g (m_db m) (m_sf m)))" "m_db (snd (mint_new now m)) = m_db m"
  "m_db (register_live c ref msgid m) = m_db m" "m_db (sendLinkPreview u ch i body m) = m_db m"
  "m_db (snd (frame_id isLive ceiling t m)) = m_db m"
  by (simp_all add: m_db_def put_conn_def send_def set_store_def on_db_def on_ids_def mint_new_def register_live_def
      sendLinkPreview_def frame_id_def Let_def split_beta)

lemma fan_out_auth: "fan_out as t d now sv = Some sv' \<Longrightarrow> gw_auth sv' = gw_auth sv"
proof (induction as arbitrary: sv)
  case (Cons a as)
  then show ?case by (auto simp: set_sess_def split: option.splits)
qed simp

lemma reap_fold_auth: "gw_auth (fold (reap_entry now) es sv) = gw_auth sv"
  by (induction es arbitrary: sv) (auto simp: reap_entry_def Let_def set_sess_def split: prod.split)

lemma gw_dispatch_db: "gw_dispatch u t d now m = Some m' \<Longrightarrow> m_db m' = m_db m"
  by (auto simp: gw_dispatch_def m_db_def Dispatch_def reapStaleLocked_def Let_def reap_fold_auth
      dest!: fan_out_auth split: option.splits if_splits sum.splits)

lemma upsert_each_db: "upsert_each B now c at ps m = Some m' \<Longrightarrow> m_db m' = m_db m"
proof (induction ps arbitrary: m)
  case (Cons p ps)
  then show ?case
    by (cases p) (auto simp: dispatchPeerMember_def Let_def bind_eq_Some_conv dest!: gw_dispatch_db)
qed simp

lemma upsertMentionedPeers_db: "upsertMentionedPeers B now c us m = Some m' \<Longrightarrow> m_db m' = m_db m"
  by (auto simp: upsertMentionedPeers_def upsert_each_db split: if_splits sum.splits)

text \<open>The mention hook may write, but no message.\<close>

definition quiet_hook :: "'d store \<Rightarrow> ('d, 'r) hooks \<Rightarrow> bool" where
  "quiet_hook B h \<longleftrightarrow>
     (\<forall>f u ch m m'. h_mentionRelay h = Some f \<longrightarrow> f u ch m = Some m' \<longrightarrow> quiet B (m_db m) (m_db m'))"

lemma mention_self_quiet: "quiet_hook B h \<Longrightarrow> mention_self h c ch us m = Some m' \<Longrightarrow> quiet B (m_db m) (m_db m')"
  unfolding quiet_hook_def mention_self_def by (auto split: option.splits if_splits)

context store
begin

lemma mirror_quiet: "quiet B (m_db m) (m_db (snd (mirror B now p img m)))"
  using PutAttachment_quiet by (auto simp: mirror_def Let_def split_beta split: sum.split)

lemma mirror_all_quiet: "quiet B (m_db m) (m_db (snd (mirror_all B e now us m)))"
proof (induction us arbitrary: m)
  case (Cons u us)
  then show ?case
    by (auto simp: Let_def split_beta intro: quiet_trans [OF mirror_quiet Cons.IH] split: option.split)
qed simp

lemma imageAttachments_quiet: "quiet B (m_db m) (m_db (snd (imageAttachments B e now body m)))"
  by (simp add: imageAttachments_def mirror_all_quiet)

lemma discordize_quiet: "quiet B (m_db m) (m_db (snd (discordize B e now u n t body m)))"
  using mentionChannels_quiet by (simp add: discordize_def mention_chans_def Let_def split_beta)

text \<open>What the last step of a relay does to a channel with room in its ring.\<close>

lemma AppendMessage_get:
  assumes wf: "ring_wf B d (bm_ChannelID row)" and app: "AppendMessage B d row = (r, d')"
  shows "r = Inr () \<and> ring_wf B d' (bm_ChannelID row)
    \<and> ring B d' (bm_ChannelID row) = newest MsgBufferCap (insert_row row (ring B d (bm_ChannelID row)))
    \<and> (\<forall>ch. ring_wf B d ch \<longrightarrow> ch \<noteq> bm_ChannelID row \<longrightarrow> plain ch \<longrightarrow> plain (bm_ChannelID row) \<longrightarrow> ring B d' ch = ring B d ch)"
proof -
  obtain d1 where d1: "AppendMessage B d row = (Inr (), d1)" "ring_wf B d1 (bm_ChannelID row)"
    "ring B d1 (bm_ChannelID row) = newest MsgBufferCap (insert_row row (ring B d (bm_ChannelID row)))"
    "\<forall>k. \<not> has_prefix k (msgPrefix (bm_ChannelID row)) \<longrightarrow> content B d1 k = content B d k"
    using AppendMessage_ring [OF wf refl] by blast
  have "ring B d1 ch = ring B d ch" if "ch \<noteq> bm_ChannelID row" "plain ch" "plain (bm_ChannelID row)" for ch
    using ring_cong(2) [of ch d1 d] d1(4) msgPrefix_plain that by metis
  with d1 app show ?thesis by auto
qed

lemma AppendMessage_key:
  assumes wf: "ring_wf B d (bm_ChannelID row)" and app: "AppendMessage B d row = (Inr (), d')"
    and key: "content B d' (msgKey (bm_ChannelID row) (bm_ID row)) = Some v"
  shows "v = VMsg row"
proof -
  note A = AppendMessage_get [OF wf app]
  then have wf': "ring_wf B d' (bm_ChannelID row)" by blast
  then have "\<exists>r. v = VMsg r \<and> bm_ChannelID r = bm_ChannelID row \<and> msgKey (bm_ChannelID row) (bm_ID row) = msgKey (bm_ChannelID row) (bm_ID r)"
    using key has_prefix_msgKey [of "bm_ChannelID row" "bm_ID row"] unfolding ring_wf_def by blast
  then obtain r where r: "v = VMsg r" "bm_ChannelID r = bm_ChannelID row" "padID (bm_ID r) = padID (bm_ID row)"
    "msgKey (bm_ChannelID row) (bm_ID row) = msgKey (bm_ChannelID row) (bm_ID r)"
    using msgKey_eq by auto
  then have "r \<in> set (ring B d' (bm_ChannelID row))" using set_ring [OF wf', of r] key by simp
  then have "r \<in> set (insert_row row (ring B d (bm_ChannelID row)))" using A by (auto simp: newest_def dest: in_set_dropD)
  then show ?thesis using r set_insert_row [OF sorted_ring [OF wf]] by auto
qed

lemma append_index:
  assumes wf: "ring_wf B d (bm_ChannelID row)" and app: "AppendMessage B d row = (Inr (), d1)"
    and set_id: "SetMessageMsgID B d1 net (bm_ChannelID row) (bm_ID row) (bm_MsgID row) = (r, d2)"
  shows "quiet B d1 d2"
    and "row \<in> set (ring B d1 (bm_ChannelID row)) \<Longrightarrow> bm_ChannelID row \<noteq> [] \<Longrightarrow> NUL \<notin> set (bm_ChannelID row) \<Longrightarrow>
      LookupMessageByMsgID B d2 net (bm_MsgID row) = Some (bm_ChannelID row, bm_ID row)"
proof -
  show "quiet B d1 d2"
  proof (cases "content B d1 (msgKey (bm_ChannelID row) (bm_ID row))")
    case (Some v)
    then have "content B d1 (msgKey (bm_ChannelID row) (bm_ID row)) = Some (VMsg row)"
      using AppendMessage_key [OF wf app] by simp
    then have "content B d2 = (content B d1)(msgidKey net (bm_MsgID row) \<mapsto> VBytes (bm_ChannelID row @ [NUL] @ bm_ID row))"
      using SetMessageMsgID_content [of d1 "bm_ChannelID row" "bm_ID row" row net "bm_MsgID row"] set_id by auto
    then show ?thesis by (auto simp: quiet_def)
  next
    case None
    then have "txn_get B d1 (msgKey (bm_ChannelID row) (bm_ID row)) = Inl KeyNotFound" by (simp add: get_missing)
    then show ?thesis using set_id by (auto simp: SetMessageMsgID_def update_live get_as_def)
  qed
  assume "row \<in> set (ring B d1 (bm_ChannelID row))" and ch: "bm_ChannelID row \<noteq> []" "NUL \<notin> set (bm_ChannelID row)"
  then have "content B d1 (msgKey (bm_ChannelID row) (bm_ID row)) = Some (VMsg row)"
    using AppendMessage_get [OF wf app] set_ring [of d1 "bm_ChannelID row" row] by blast
  then have "content B d2 (msgidKey net (bm_MsgID row)) = Some (VBytes (bm_ChannelID row @ [NUL] @ bm_ID row))"
    using SetMessageMsgID_content [of d1 "bm_ChannelID row" "bm_ID row" row net "bm_MsgID row"] set_id by auto
  then show "LookupMessageByMsgID B d2 net (bm_MsgID row) = Some (bm_ChannelID row, bm_ID row)"
    using ch by (rule LookupMessage_bytes)
qed

lemma row_kept:
  assumes "ring_wf B d (bm_ChannelID row)" "length (ring B d (bm_ChannelID row)) < MsgBufferCap"
  shows "row \<in> set (newest MsgBufferCap (insert_row row (ring B d (bm_ChannelID row))))"
proof -
  have "length (insert_row row rs) \<le> Suc (length rs)" for rs by (induction rs) auto
  then have "length (insert_row row (ring B d (bm_ChannelID row))) \<le> MsgBufferCap"
    using assms(2) by (metis Suc_leI le_trans)
  then show ?thesis using set_insert_row [OF sorted_ring [OF assms(1)]] by (simp add: newest_all)
qed

lemma buffer_row_ring:
  assumes wf: "ring_wf B (m_db m) (bm_ChannelID row)"
  shows "ring B (m_db (buffer_row B c row m)) (bm_ChannelID row)
      = newest MsgBufferCap (insert_row row (ring B (m_db m) (bm_ChannelID row)))"
    and "length (ring B (m_db m) (bm_ChannelID row)) < MsgBufferCap \<Longrightarrow> bm_MsgID row \<noteq> [] \<Longrightarrow>
      bm_ChannelID row \<noteq> [] \<Longrightarrow> NUL \<notin> set (bm_ChannelID row) \<Longrightarrow>
      LookupMessageByMsgID B (m_db (buffer_row B c row m)) (snd c) (bm_MsgID row) = Some (bm_ChannelID row, bm_ID row)"
proof -
  obtain d1 where d1: "AppendMessage B (m_db m) row = (Inr (), d1)"
    using AppendMessage_ring [OF wf refl] by blast
  obtain r d2 where d2: "SetMessageMsgID B d1 (snd c) (bm_ChannelID row) (bm_ID row) (bm_MsgID row) = (r, d2)"
    by fastforce
  have m: "m_db (buffer_row B c row m) = (if bm_MsgID row = [] then d1 else d2)"
    using d1 d2 by (simp add: buffer_row_def on_db_def Let_def split_beta)
  note A = AppendMessage_get [OF wf d1] and I = append_index [OF wf d1 d2]
  show "ring B (m_db (buffer_row B c row m)) (bm_ChannelID row)
      = newest MsgBufferCap (insert_row row (ring B (m_db m) (bm_ChannelID row)))"
    using A quiet_rings(2) [OF I(1)] by (simp add: m)
  show "LookupMessageByMsgID B (m_db (buffer_row B c row m)) (snd c) (bm_MsgID row) = Some (bm_ChannelID row, bm_ID row)"
    if "length (ring B (m_db m) (bm_ChannelID row)) < MsgBufferCap" "bm_MsgID row \<noteq> []" "bm_ChannelID row \<noteq> []"
      "NUL \<notin> set (bm_ChannelID row)"
    using A I(2) row_kept [OF wf that(1)] that by (simp add: m)
qed

text \<open>A relay to a channel is quiet up to its last step.\<close>

lemma dispatchMessage_steps:
  assumes relay: "dispatchMessage B e h now c target author body ts msgid reply m = Some m'"
    and target: "is_channel_name target" "\<not> equal_fold author ''HistServ''" and hook: "quiet_hook B h"
    and ch: "fst (EnsureChannel B (m_db m) (new_id now) (m_sf m) (snd c) target now) = Inr ch"
    and start: "mint_new now (with_channel B now c target m) = (msgID, m2)"
  shows "\<exists>mk refID atts us.
    quiet B (m_db m) (m_db mk)
    \<and> m' = buffer_row B c (in_row msgID (ch_ID ch) author (translated B e now c target body m2) ts msgid refID atts us) mk"
proof -
  define m1 where "m1 = snd (on_ids (\<lambda>d s. EnsureChannel B d (new_id now) s (snd c) target now) m)"
  have ch1: "on_ids (\<lambda>d s. EnsureChannel B d (new_id now) s (snd c) target now) m = (Inr ch, m1)"
    using ch by (simp add: m1_def on_ids_def split_beta)
  have q1: "quiet B (m_db m) (m_db m1)" by (simp add: m1_def EnsureChannel_quiet)
  have m2: "mint_new now m1 = (msgID, m2)" using start by (simp add: m1_def with_channel_def)
  obtain body' us mchans m3 where m3: "discordize B e now (fst c) (snd c) target (FormatIRC body) m2 = ((body', us, mchans), m3)"
    by (metis prod.exhaust)
  have b: "body' = translated B e now c target body m2"
    using discordize_text [of B e now c target body m2] m3 by simp
  have q3: "quiet B (m_db m1) (m_db m3)"
    using discordize_quiet [of m2 e now "fst c" "snd c" target "FormatIRC body"] m3 m_db_simps(7) [of now m1] m2 by simp
  from relay obtain m4 where m4: "upsertMentionedPeers B now c us m3 = Some m4"
    by (auto simp: dispatchMessage_def target ch1 m2 m3 bind_eq_Some_conv Let_def)
  then have db4: "m_db m4 = m_db m3" by (rule upsertMentionedPeers_db)
  from relay obtain m4' where m4': "mention_self h c (ch_ID ch) us m4 = Some m4'"
    by (auto simp: dispatchMessage_def target ch1 m2 m3 m4 bind_eq_Some_conv Let_def)
  then have q4: "quiet B (m_db m4) (m_db m4')" by (rule mention_self_quiet [OF hook])
  obtain atts m5 where m5: "imageAttachments B e now body' m4' = (atts, m5)" by fastforce
  then have q5: "quiet B (m_db m4') (m_db m5)" using imageAttachments_quiet [of m4' e now body'] by simp
  from relay obtain mk where m': "m' = buffer_row B c (in_row msgID (ch_ID ch) author body' ts msgid
      (replyRefSnowflake B mk c reply) atts us) mk" and dbk: "m_db mk = m_db m5"
    by (auto simp: dispatchMessage_def target ch1 m2 m3 m4 m4' m5 bind_eq_Some_conv Let_def
        dest!: gw_dispatch_db)
  have "quiet B (m_db m) (m_db mk)"
    using q1 q3 q4 q5 unfolding dbk db4 by (blast intro: quiet_trans)
  then show ?thesis using m' b by blast
qed

end

section \<open>History frames and redactions\<close>

lemma the_conn_put [simp]: "the_conn (put_conn c k m) c = k"
  by (simp add: the_conn_def conn_at_def put_conn_def update_conv')

context store
begin

lemma LookupMessage_cong:
  "content B d' (msgidKey net i) = content B d (msgidKey net i) \<Longrightarrow>
     LookupMessageByMsgID B d' net i = LookupMessageByMsgID B d net i"
  by (simp add: LookupMessageByMsgID_def get_as_cong [of d' "msgidKey net i" d])

lemma IndexMessage_known:
  assumes "LookupMessageByMsgID B d net msgid \<noteq> None" "ch \<noteq> []" "NUL \<notin> set ch"
  shows "LookupMessageByMsgID B (snd (IndexMessageMsgID B d net i ch snow)) net msgid \<noteq> None"
proof (cases "i = []")
  case False
  obtain d' where d': "txn_set B d (msgidKey net i) (VBytes (ch @ [NUL] @ snow)) = Inr d'" using set_total by blast
  then have I: "snd (IndexMessageMsgID B d net i ch snow) = d'" using False by (simp add: IndexMessageMsgID_def update_live)
  show ?thesis
  proof (cases "msgidKey net msgid = msgidKey net i")
    case True
    then have "content B d' (msgidKey net msgid) = Some (VBytes (ch @ [NUL] @ snow))" using content_set [OF d'] by simp
    then show ?thesis using LookupMessage_bytes assms(2,3) I by simp
  next
    case False
    then have "content B d' (msgidKey net msgid) = content B d (msgidKey net msgid)" using content_set [OF d'] by simp
    then show ?thesis using LookupMessage_cong assms(1) I by metis
  qed
qed (use assms in \<open>simp add: IndexMessageMsgID_def\<close>)

lemma index_aliases_known:
  "LookupMessageByMsgID B (m_db m) (snd c) msgid \<noteq> None \<Longrightarrow> mr_ChannelID ref \<noteq> [] \<Longrightarrow> NUL \<notin> set (mr_ChannelID ref) \<Longrightarrow>
     LookupMessageByMsgID B (m_db (index_aliases B c ref is m)) (snd c) msgid \<noteq> None"
proof (induction "is" arbitrary: m)
  case (Cons i "is")
  let ?m = "snd (on_db (\<lambda>d. IndexMessageMsgID B d (snd c) i (mr_ChannelID ref) (mr_Snowflake ref))
      (put_conn c (registerMsgidAlias (the_conn m c) ref i) m))"
  have "LookupMessageByMsgID B (m_db ?m) (snd c) msgid \<noteq> None"
    unfolding m_db_simps using Cons.prems by (rule IndexMessage_known)
  then have "LookupMessageByMsgID B (m_db (index_aliases B c ref is ?m)) (snd c) msgid \<noteq> None"
    using Cons.prems(2,3) by (rule Cons.IH)
  then show ?case unfolding index_aliases.simps Let_def .
qed simp

lemma index_frame_known:
  assumes "i \<noteq> []" "mr_ChannelID ref \<noteq> []" "NUL \<notin> set (mr_ChannelID ref)"
    and "LookupMessageByMsgID B (snd (SetMessageMsgID B (m_db m) (snd c) (mr_ChannelID ref) (mr_Snowflake ref) i)) (snd c) i \<noteq> None"
  shows "LookupMessageByMsgID B (m_db (index_frame B c ref i extras m)) (snd c) i \<noteq> None"
proof -
  let ?m = "snd (on_db (\<lambda>d. SetMessageMsgID B d (snd c) (mr_ChannelID ref) (mr_Snowflake ref) i)
      (put_conn c (registerMsgid (the_conn m c) ref i) m))"
  have "LookupMessageByMsgID B (m_db ?m) (snd c) i \<noteq> None" unfolding m_db_simps by (rule assms(4))
  then have "LookupMessageByMsgID B (m_db (index_aliases B c ref extras ?m)) (snd c) i \<noteq> None"
    using assms(2,3) by (rule index_aliases_known)
  then show ?thesis unfolding index_frame_def Let_def if_not_P [OF assms(1)] .
qed

lemma IndexMessage_quiet: "quiet B d (snd (IndexMessageMsgID B d net i ch snow))"
proof -
  obtain d' where "txn_set B d (msgidKey net i) (VBytes (ch @ [NUL] @ snow)) = Inr d'" using set_total by blast
  then show ?thesis using quiet_set [of d "msgidKey net i"] by (simp add: IndexMessageMsgID_def update_live)
qed

lemma index_aliases_quiet: "quiet B (m_db m) (m_db (index_aliases B c ref is m))"
proof (induction "is" arbitrary: m)
  case (Cons i "is")
  show ?case unfolding index_aliases.simps Let_def
    by (rule quiet_trans [OF _ Cons.IH]) (simp add: IndexMessage_quiet)
qed simp

lemma index_frame_quiet:
  assumes "quiet B (m_db m) (snd (SetMessageMsgID B (m_db m) (snd c) (mr_ChannelID ref) (mr_Snowflake ref) i))"
  shows "quiet B (m_db m) (m_db (index_frame B c ref i extras m))"
proof (cases "i = []")
  case False
  show ?thesis unfolding index_frame_def Let_def if_not_P [OF False]
    by (rule quiet_trans [OF _ index_aliases_quiet]) (simp add: assms)
qed (simp add: index_frame_def)

lemma flush_frame_inserts:
  assumes flush: "flush_frame B e h now c isLive ceiling f m = Some (b, m')"
    and guards: "is_channel_name (cf_target f)" "\<not> known_msgid B m c (cf_msgid f)"
    and hook: "quiet_hook B h" and msgid: "cf_msgid f \<noteq> []"
    and ch: "fst (EnsureChannel B (m_db m) (new_id now) (m_sf m) (snd c) (cf_target f) now) = Inr ch"
      "ch_ID ch \<noteq> []" "NUL \<notin> set (ch_ID ch)"
    and room: "ring_wf B (m_db m) (ch_ID ch)"
    and start: "frame_id isLive ceiling (frame_time now (cf_at f)) (with_channel B now c (cf_target f) m) = (msgID, m2)"
  shows "b
    \<and> (\<exists>row. bm_ChannelID row = ch_ID ch \<and> bm_ID row = msgID \<and> bm_AuthorID row = ''irc:'' @ cf_author f
          \<and> bm_Content row = translated B e now c (cf_target f) (cf_content f) m2 \<and> bm_MsgID row = cf_msgid f
          \<and> bm_Timestamp row = rfc3339_nano (frame_time now (cf_at f))
          \<and> ring B (m_db m') (ch_ID ch) = newest MsgBufferCap (insert_row row (ring B (m_db m) (ch_ID ch)))
          \<and> (row \<in> set (ring B (m_db m') (ch_ID ch)) \<longrightarrow> known_msgid B m' c (cf_msgid f)))"
proof -
  define m1 where "m1 = snd (on_ids (\<lambda>d s. EnsureChannel B d (new_id now) s (snd c) (cf_target f) now) m)"
  have ch1: "on_ids (\<lambda>d s. EnsureChannel B d (new_id now) s (snd c) (cf_target f) now) m = (Inr ch, m1)"
    using ch(1) by (simp add: m1_def on_ids_def split_beta)
  have q1: "quiet B (m_db m) (m_db m1)" by (simp add: m1_def EnsureChannel_quiet)
  define ts where "ts = frame_time now (cf_at f)"
  have m2: "frame_id isLive ceiling ts m1 = (msgID, m2)" using start by (simp add: m1_def ts_def with_channel_def)
  obtain body us mchans m3
    where m3: "discordize B e now (fst c) (snd c) (cf_target f) (FormatIRC (cf_content f)) m2 = ((body, us, mchans), m3)"
    by (metis prod.exhaust)
  have q3: "quiet B (m_db m1) (m_db m3)"
    using discordize_quiet [of m2 e now "fst c" "snd c" "cf_target f" "FormatIRC (cf_content f)"] m3
      m_db_simps(10) [of isLive ceiling ts m1] m2 by simp
  from flush obtain m4 where m4: "mention_self h c (ch_ID ch) us m3 = Some m4"
    by (auto simp: flush_frame_def guards ch1 m2 m3 ts_def [symmetric] bind_eq_Some_conv Let_def)
  then have q4: "quiet B (m_db m3) (m_db m4)" by (rule mention_self_quiet [OF hook])
  obtain atts m5 where m5: "imageAttachments B e now body m4 = (atts, m5)" by fastforce
  then have q5: "quiet B (m_db m4) (m_db m5)" using imageAttachments_quiet [of m4 e now body] by simp
  let ?row = "in_row msgID (ch_ID ch) (cf_author f) body (rfc3339_nano ts) (cf_msgid f) (replyRefSnowflake B m5 c (cf_reply f)) atts []"
  let ?ref = "\<lparr>mr_Snowflake = msgID, mr_ChannelID = ch_ID ch, mr_GuildID = snd c\<rparr>"
  have q: "quiet B (m_db m) (m_db m5)" using q1 q3 q4 q5 by (blast intro: quiet_trans)
  have row: "bm_ChannelID ?row = ch_ID ch" "bm_ID ?row = msgID" "bm_MsgID ?row = cf_msgid f" by (simp_all add: in_row_def)
  then have wf: "ring_wf B (m_db m5) (bm_ChannelID ?row)" using quiet_rings [OF q] room by simp
  obtain d1 where d1: "AppendMessage B (m_db m5) ?row = (Inr (), d1)" using AppendMessage_ring [OF wf refl] by blast
  define m6 where "m6 = snd (on_db (\<lambda>d. AppendMessage B d ?row) m5)"
  have app: "on_db (\<lambda>d. AppendMessage B d ?row) m5 = (Inr (), m6)" "m_db m6 = d1"
    using d1 by (simp_all add: m6_def on_db_def split_beta)
  obtain r d2 where d2: "SetMessageMsgID B d1 (snd c) (bm_ChannelID ?row) (bm_ID ?row) (bm_MsgID ?row) = (r, d2)" by fastforce
  note A = AppendMessage_get [OF wf d1] and I = append_index [OF wf d1 d2]
  have set_id: "SetMessageMsgID B (m_db m6) (snd c) (mr_ChannelID ?ref) (mr_Snowflake ?ref) (cf_msgid f) = (r, d2)"
    unfolding app(2) msgRef.select_convs using d2 row by simp
  let ?m7 = "index_frame B c ?ref (cf_msgid f) (cf_extraMsgids f) m6"
  have "LookupMessageByMsgID B d2 (snd c) (cf_msgid f) \<noteq> None" if "?row \<in> set (ring B d1 (bm_ChannelID ?row))"
    using I(2) row ch that by simp
  then have known: "LookupMessageByMsgID B (m_db ?m7) (snd c) (cf_msgid f) \<noteq> None"
    if "?row \<in> set (ring B d1 (bm_ChannelID ?row))"
    using msgid ch(2,3) set_id that by (intro index_frame_known) simp_all
  have "quiet B (m_db m6) (m_db ?m7)" by (rule index_frame_quiet) (use I(1) app(2) set_id in simp)
  then have ring: "ring B (m_db ?m7) (ch_ID ch) = newest MsgBufferCap (insert_row ?row (ring B (m_db m) (ch_ID ch)))"
    "ring B d1 (bm_ChannelID ?row) = ring B (m_db ?m7) (ch_ID ch)"
    using A quiet_rings(2) [OF q] quiet_rings(2) [of d1 "m_db ?m7"] app(2) row(1) by simp_all
  from flush have "b \<and> m_db m' = m_db ?m7"
    unfolding flush_frame_def
    by (auto simp: guards ch1 m2 m3 m4 m5 ts_def [symmetric] app bind_eq_Some_conv
        Let_def dest!: gw_dispatch_db upsertMentionedPeers_db split: if_splits)
  moreover have "bm_AuthorID ?row = ''irc:'' @ cf_author f" "bm_Timestamp ?row = rfc3339_nano (frame_time now (cf_at f))"
    by (simp_all add: in_row_def ts_def)
  moreover have "bm_Content ?row = translated B e now c (cf_target f) (cf_content f) m2"
    using discordize_text [of B e now c "cf_target f" "cf_content f" m2] m3 by (simp add: in_row_def)
  ultimately show ?thesis using known msgid ring row by (intro conjI exI [of _ ?row]) (simp_all add: known_msgid_def)
qed

end

section \<open>Properties\<close>

text \<open>C2: A relayed channel message becomes one new row of the channel's ring, which keeps the newest 500 rows: the id is the
  one that the generator mints once the channel is registered, the author's nick, the time and the server's message id are as
  given, and the text is the one that the translation of formatting and mentions makes of it with the people of the channel
  and the channels of the network known then. When the minted id is above those of the ring, no row is replaced: the new row
  comes last. While there is room in the ring, the server's message id leads back to the row. Messages of \<open>HistServ\<close> are not
  relayed, and those to nicks go to direct threads; the hook for own mentions must not write messages.\<close>

lemma dispatchMessage_stored:
  assumes "store B" "dispatchMessage B e h now c target author body ts msgid reply m = Some m'"
    and "is_channel_name target" "\<not> equal_fold author ''HistServ''" "quiet_hook B h"
    and "fst (EnsureChannel B (m_db m) (new_id now) (m_sf m) (snd c) target now) = Inr ch"
    and "ring_wf B (m_db m) (ch_ID ch)" "ch_ID ch \<noteq> []" "NUL \<notin> set (ch_ID ch)"
    and "mint_new now (with_channel B now c target m) = (i, m2)"
  shows "\<exists>row.
    ring B (m_db m') (ch_ID ch) = newest 500 (insert_row row (ring B (m_db m) (ch_ID ch)))
    \<and> bm_ID row = i \<and> bm_ChannelID row = ch_ID ch \<and> bm_AuthorID row = ''irc:'' @ author \<and> bm_Timestamp row = ts
    \<and> bm_MsgID row = msgid
    \<and> bm_Content row =
        fst (Discordize (e_uni e) (mention_users B m2 (fst c) (snd c) target) (fst (mention_chans B now (fst c) (snd c) m2))
               (FormatIRC body))
    \<and> ((\<forall>r \<in> set (ring B (m_db m) (ch_ID ch)). padID (bm_ID r) < padID i) \<longrightarrow>
         ring B (m_db m') (ch_ID ch) = newest 500 (ring B (m_db m) (ch_ID ch) @ [row]))
    \<and> (length (ring B (m_db m) (ch_ID ch)) < 500 \<and> msgid \<noteq> [] \<longrightarrow>
         LookupMessageByMsgID B (m_db m') (snd c) msgid = Some (ch_ID ch, i))"
proof -
  obtain mk refID atts us where q: "quiet B (m_db m) (m_db mk)"
    and m': "m' = buffer_row B c (in_row i (ch_ID ch) author (translated B e now c target body m2) ts msgid refID atts us) mk"
    using store.dispatchMessage_steps [OF assms(1-6,10)] by blast
  let ?row = "in_row i (ch_ID ch) author (translated B e now c target body m2) ts msgid refID atts us"
  have sel: "bm_ChannelID ?row = ch_ID ch" "bm_ID ?row = i" "bm_MsgID ?row = msgid" "bm_AuthorID ?row = ''irc:'' @ author"
    "bm_Timestamp ?row = ts" "bm_Content ?row = translated B e now c target body m2"
    by (simp_all add: in_row_def)
  have r: "ring_wf B (m_db mk) (bm_ChannelID ?row)" "ring B (m_db mk) (ch_ID ch) = ring B (m_db m) (ch_ID ch)"
    using store.quiet_rings [OF assms(1) q] assms(7) sel(1) by simp_all
  note b = store.buffer_row_ring [OF assms(1) r(1), of c]
  have ring: "ring B (m_db m') (ch_ID ch) = newest 500 (insert_row ?row (ring B (m_db m) (ch_ID ch)))"
    using b(1) m' sel(1) r(2) by (simp add: MsgBufferCap_def)
  moreover have "insert_row ?row (ring B (m_db m) (ch_ID ch)) = ring B (m_db m) (ch_ID ch) @ [?row]"
    if "\<forall>r \<in> set (ring B (m_db m) (ch_ID ch)). padID (bm_ID r) < padID i"
    using that sel(2) by (intro insert_row_above) (simp add: row_less_def)
  moreover have "LookupMessageByMsgID B (m_db m') (snd c) msgid = Some (ch_ID ch, i)"
    if "length (ring B (m_db m) (ch_ID ch)) < 500" "msgid \<noteq> []"
    using b(2) m' sel r(2) that assms(8,9) by (simp add: MsgBufferCap_def)
  ultimately show ?thesis using sel by (intro exI [of _ ?row]) (simp add: translated_def)
qed

text \<open>C3: Replaying a history frame is safe. The first time a frame with a server id is flushed, its message becomes one row
  of the channel's ring of the newest 500, with the id drawn for the time of the frame, its author, its translated text and
  that time. If the row is kept there, which it is unless the ring is full of newer rows, then every later flush of the
  frame, live or not, with any ceiling and in any state in which the index of the server's id is as this flush left it,
  changes nothing, so that overlapping history replies do not duplicate messages. A row that is older than a full ring is
  dropped at once and not remembered.\<close>

lemma flush_frame_once:
  assumes "store B" "flush_frame B e h now c isLive ceiling f m = Some (b, m')"
    and "is_channel_name (cf_target f)" "\<not> known_msgid B m c (cf_msgid f)" "quiet_hook B h" "cf_msgid f \<noteq> []"
    and "fst (EnsureChannel B (m_db m) (new_id now) (m_sf m) (snd c) (cf_target f) now) = Inr ch"
    and "ch_ID ch \<noteq> []" "NUL \<notin> set (ch_ID ch)" "ring_wf B (m_db m) (ch_ID ch)"
    and "frame_id isLive ceiling (frame_time now (cf_at f)) (with_channel B now c (cf_target f) m) = (i, m2)"
  shows "b
    \<and> (\<exists>row. bm_ChannelID row = ch_ID ch \<and> bm_ID row = i \<and> bm_AuthorID row = ''irc:'' @ cf_author f
          \<and> bm_Content row = translated B e now c (cf_target f) (cf_content f) m2 \<and> bm_MsgID row = cf_msgid f
          \<and> bm_Timestamp row = rfc3339_nano (frame_time now (cf_at f))
          \<and> ring B (m_db m') (ch_ID ch) = newest 500 (insert_row row (ring B (m_db m) (ch_ID ch)))
          \<and> (length (ring B (m_db m) (ch_ID ch)) < 500 \<longrightarrow> row \<in> set (ring B (m_db m') (ch_ID ch)))
          \<and> (row \<in> set (ring B (m_db m') (ch_ID ch)) \<longrightarrow>
              (\<forall>later now' isLive' ceiling'.
                 content B (m_db later) (msgidKey (snd c) (cf_msgid f)) = content B (m_db m') (msgidKey (snd c) (cf_msgid f)) \<longrightarrow>
                 flush_frame B e h now' c isLive' ceiling' f later = Some (False, later))))"
proof -
  obtain row where row: "bm_ChannelID row = ch_ID ch" "bm_ID row = i" "bm_AuthorID row = ''irc:'' @ cf_author f"
      "bm_Content row = translated B e now c (cf_target f) (cf_content f) m2" "bm_MsgID row = cf_msgid f"
      "bm_Timestamp row = rfc3339_nano (frame_time now (cf_at f))"
    and ring: "ring B (m_db m') (ch_ID ch) = newest MsgBufferCap (insert_row row (ring B (m_db m) (ch_ID ch)))"
    and known: "row \<in> set (ring B (m_db m') (ch_ID ch)) \<longrightarrow> known_msgid B m' c (cf_msgid f)" and b: b
    using store.flush_frame_inserts [OF assms] by blast
  have "flush_frame B e h now' c isLive' ceiling' f later = Some (False, later)"
    if "row \<in> set (ring B (m_db m') (ch_ID ch))"
      "content B (m_db later) (msgidKey (snd c) (cf_msgid f)) = content B (m_db m') (msgidKey (snd c) (cf_msgid f))"
    for later now' isLive' ceiling'
  proof -
    have "known_msgid B later c (cf_msgid f)"
      using known that store.LookupMessage_cong [OF assms(1) that(2)] by (simp add: known_msgid_def)
    then show ?thesis by (simp add: flush_frame_def assms(3))
  qed
  moreover have "length (ring B (m_db m) (ch_ID ch)) < 500 \<longrightarrow> row \<in> set (ring B (m_db m') (ch_ID ch))"
    using store.row_kept [OF assms(1), of "m_db m" row] assms(10) row(1) ring by (simp add: MsgBufferCap_def)
  ultimately show ?thesis using b row ring by (intro conjI exI [of _ row]) (simp_all add: MsgBufferCap_def)
qed

lemma no_hooks_quiet: "quiet_hook B no_hooks"
  by (simp add: quiet_hook_def no_hooks_def)

lemma plain_int: "plain (format_int n)" "NUL \<notin> set (format_int n)" "format_int n \<noteq> []"
  using format_nat_digits [of "nat n"] format_nat_digits [of "nat (- n)"]
  by (auto simp: format_int_def plain_def list_all_iff is_digit_def)

lemma demo_channel:
  assumes "new_id now (m_sf demo_manager) = (i, g)" "plain i" "plain net"
  shows "fst (EnsureChannel mem_kv (m_db demo_manager) (new_id now) (m_sf demo_manager) net irc now) = Inr (new_channel i net irc now)"
proof -
  have db: "m_db demo_manager = empty_db" by (simp add: demo_manager_def demo_server_def demo_auth_def m_db_def)
  have "content mem_kv empty_db (chanKey i) = None" using demo_auth(3) by (simp add: demo_auth_def)
  then obtain d where "EnsureChannel mem_kv empty_db (new_id now) (m_sf demo_manager) net irc now
      = (Inr (new_channel i net irc now), d, g)"
    using mem_store.EnsureChannel_new [where newID = "new_id now" and now = now and irc = irc,
        OF reg_wf_empty(1) assms(3) reg_wf_empty(2) assms(1,2)] by blast
  then show ?thesis by (simp add: db)
qed

lemma dispatchMessage_stored_witness:
  "\<exists>m' row ch. dispatchMessage mem_kv demo_env no_hooks 7 (''u'', ''1'') ''#a'' ''bob'' ''hi'' ''ts'' ''abc'' [] demo_manager = Some m'
    \<and> ring mem_kv (m_db m') ch = [row] \<and> bm_AuthorID row = ''irc:bob''
    \<and> LookupMessageByMsgID mem_kv (m_db m') ''1'' ''abc'' = Some (ch, bm_ID row)"
proof -
  let ?relay = "dispatchMessage mem_kv demo_env no_hooks 7 (''u'', ''1'') ''#a'' ''bob'' ''hi'' ''ts'' ''abc'' [] demo_manager"
  have db: "m_db demo_manager = empty_db" by (simp add: demo_manager_def demo_server_def demo_auth_def m_db_def)
  obtain n g where n: "new_id 7 (m_sf demo_manager) = (format_int n, g)"
    by (auto simp: new_id_def New_def Let_def split_beta)
  have "plain ''1''" by (simp add: plain_def)
  note ch = demo_channel [OF n plain_int(1) this, of "''#a''"]
  have "stays ?relay" by (rule dispatchMessage_stays [OF no_hooks_wf demo_manager_wf])
  then obtain m' where m': "?relay = Some m'" by (auto simp: stays_def split: option.splits)
  have "equal_fold ''bob'' ''HistServ'' = False" by code_simp
  moreover obtain i m2 where "mint_new 7 (with_channel mem_kv 7 (''u'', ''1'') ''#a'' demo_manager) = (i, m2)" by fastforce
  ultimately obtain row where "ring mem_kv (m_db m') (format_int n) = newest 500 [row]" "bm_AuthorID row = ''irc:bob''"
    "LookupMessageByMsgID mem_kv (m_db m') ''1'' ''abc'' = Some (format_int n, bm_ID row)"
    using dispatchMessage_stored [OF mem_store.store_axioms m', of "new_channel (format_int n) ''1'' ''#a'' 7" i m2] ch
    by (auto simp: db plain_int is_channel_name_def no_hooks_quiet)
  then show ?thesis using m' by (auto simp: newest_all)
qed

lemma empty_unknown: "LookupMessageByMsgID mem_kv empty_db net i = None"
proof -
  have "content mem_kv empty_db (msgidKey net i) = None" by simp
  then show ?thesis by (simp add: LookupMessageByMsgID_def mem_store.get_as_missing)
qed

lemma flush_frame_once_witness:
  "\<exists>m' row ch. flush_frame mem_kv demo_env no_hooks 7 (''u'', ''1'') False []
       \<lparr>cf_target = ''#a'', cf_author = ''bob'', cf_content = ''hi'', cf_at = 5, cf_msgid = ''abc'', cf_extraMsgids = [], cf_reply = []\<rparr>
       demo_manager = Some (True, m')
    \<and> ring mem_kv (m_db m') ch = [row] \<and> bm_AuthorID row = ''irc:bob''
    \<and> flush_frame mem_kv demo_env no_hooks 9 (''u'', ''1'') True []
       \<lparr>cf_target = ''#a'', cf_author = ''bob'', cf_content = ''hi'', cf_at = 5, cf_msgid = ''abc'', cf_extraMsgids = [], cf_reply = []\<rparr>
       m' = Some (False, m')"
proof -
  let ?f = "\<lparr>cf_target = ''#a'', cf_author = ''bob'', cf_content = ''hi'', cf_at = 5, cf_msgid = ''abc'', cf_extraMsgids = [], cf_reply = []\<rparr>"
  let ?flush = "flush_frame mem_kv demo_env no_hooks 7 (''u'', ''1'') False [] ?f demo_manager"
  have db: "m_db demo_manager = empty_db" by (simp add: demo_manager_def demo_server_def demo_auth_def m_db_def)
  obtain n g where n: "new_id 7 (m_sf demo_manager) = (format_int n, g)"
    by (auto simp: new_id_def New_def Let_def split_beta)
  have "plain ''1''" by (simp add: plain_def)
  note ch = demo_channel [OF n plain_int(1) this, of "''#a''"]
  have "stays2 ?flush" by (rule flush_frame_stays [OF no_hooks_wf demo_manager_wf])
  then obtain b m' where m': "?flush = Some (b, m')" by (auto simp: stays2_def split: option.splits)
  obtain i m2 where i: "frame_id False [] (frame_time 7 (cf_at ?f)) (with_channel mem_kv 7 (''u'', ''1'') (cf_target ?f) demo_manager) = (i, m2)"
    by fastforce
  have "b \<and> (\<exists>row. bm_AuthorID row = ''irc:bob'' \<and> ring mem_kv (m_db m') (format_int n) = newest 500 [row])
    \<and> flush_frame mem_kv demo_env no_hooks 9 (''u'', ''1'') True [] ?f m' = Some (False, m')"
    using flush_frame_once [OF mem_store.store_axioms m', of "new_channel (format_int n) ''1'' ''#a'' 7" i m2] ch i
    by (auto simp: db plain_int is_channel_name_def no_hooks_quiet known_msgid_def empty_unknown)
  then show ?thesis using m' by (auto simp: newest_all)
qed

end
