(* ===== verification/Delivery.thy ===== *)
theory Delivery
  imports Relayed "HOL-Library.Multiset"
begin

text \<open>
  What the bridge and the supervisor promise over several steps: a redaction takes the message it names out of the ring,
  a reaction counts once per user, a history batch is flushed in the order of time, and the waits between attempts to
  connect follow a schedule that starts again after a link that lived.
\<close>

section \<open>Reactions and redactions\<close>

lemma dispatchDelete_db: "dispatchDelete now c ref m = Some m' \<Longrightarrow> m_db m' = m_db m"
  unfolding dispatchDelete_def by (rule gw_dispatch_db)

lemma resolveRef_db [simp]: "m_db (snd (resolveRef B c msgid m)) = m_db m"
  by (simp add: resolveRef_def Let_def split: option.split)

text \<open>A redaction whose server id resolves to a message takes exactly that message out of the ring of its channel, and
  the server id leads nowhere in the database afterwards, so that the message cannot come back by it.\<close>

lemma applyRedaction_removes:
  assumes "store B" "applyRedaction B now c msgid m = Some m'" "fst (resolveRef B c msgid m) = Some ref"
    and "ring_wf B (m_db m) (mr_ChannelID ref)" "row \<in> set (ring B (m_db m) (mr_ChannelID ref))"
    and "bm_ID row = mr_Snowflake ref"
  shows "ring B (m_db m') (mr_ChannelID ref)
      = filter (\<lambda>r. padID (bm_ID r) \<noteq> padID (bm_ID row)) (ring B (m_db m) (mr_ChannelID ref))
    \<and> (bm_MsgID row \<noteq> [] \<longrightarrow> LookupMessageByMsgID B (m_db m') (snd c) (bm_MsgID row) = None)"
proof -
  obtain d' where d': "MessageStore.DeleteMessage B (m_db m) (snd c) (mr_ChannelID ref) (mr_Snowflake ref) = (Inr (), d')"
    "ring B d' (mr_ChannelID ref) = filter (\<lambda>r. padID (bm_ID r) \<noteq> padID (bm_ID row)) (ring B (m_db m) (mr_ChannelID ref))"
    "bm_MsgID row \<noteq> [] \<longrightarrow> LookupMessageByMsgID B d' (snd c) (bm_MsgID row) = None"
    using store.DeleteMessage_ring [OF assms(1,4,5), of "snd c"] assms(6) by auto
  obtain m1 where m1: "resolveRef B c msgid m = (Some ref, m1)" "m_db m1 = m_db m"
    using assms(3) resolveRef_db [of B c msgid m] by (cases "resolveRef B c msgid m") auto
  then have "m_db m' = d'" using assms(2) d'(1) by (auto simp: applyRedaction_def dest!: dispatchDelete_db)
  then show ?thesis using d' by simp
qed

definition demo_redacted :: "((string, dbval) rbt, nat) Manager" where
  "demo_redacted = put_conn (''u'', ''n'')
     (registerMsgid (newConn ''u'' ''n'') \<lparr>mr_Snowflake = ''42'', mr_ChannelID = ''7'', mr_GuildID = ''n''\<rparr> ''abc'')
     (set_store one_row (m_sf demo_manager) demo_manager)"

lemma applyRedaction_removes_witness:
  "\<exists>m'. applyRedaction mem_kv 7 (''u'', ''n'') ''abc'' demo_redacted = Some m' \<and> ring mem_kv (m_db m') ''7'' = []"
proof -
  let ?ref = "\<lparr>mr_Snowflake = ''42'', mr_ChannelID = ''7'', mr_GuildID = ''n''\<rparr>"
  have "mgr_wf demo_redacted"
    unfolding demo_redacted_def by (intro put_conn_wf conn_op_wf newConn_wf) (simp add: demo_manager_wf)
  then have "stays (applyRedaction mem_kv 7 (''u'', ''n'') ''abc'' demo_redacted)" by (rule applyRedaction_stays)
  then obtain m' where m': "applyRedaction mem_kv 7 (''u'', ''n'') ''abc'' demo_redacted = Some m'"
    by (auto simp: stays_def split: option.splits)
  have "m_db demo_redacted = one_row" by (simp add: demo_redacted_def)
  moreover have "fst (resolveRef mem_kv (''u'', ''n'') ''abc'' demo_redacted) = Some ?ref"
    by (simp add: resolveRef_def demo_redacted_def lookupRef_def registerMsgid_def newConn_def msgidRegistryCap_def)
  ultimately have "ring mem_kv (m_db m') ''7'' = []"
    using applyRedaction_removes [OF mem_store.store_axioms m', of ?ref "sampleMessage ''7'' ''42''"] one_row by simp
  then show ?thesis using m' by blast
qed

section \<open>The order of a history batch\<close>

lemma exchange_least:
  assumes "exchange x ys = (z, zs)"
  shows "add_mset z (mset zs) = add_mset x (mset ys) \<and> (\<forall>f \<in> insert x (set ys). cf_at z \<le> cf_at f)"
  using assms
proof (induction ys arbitrary: x z zs)
  case (Cons y ys)
  obtain z1 zs1 z2 zs2 where e: "exchange x ys = (z1, zs1)" "exchange y ys = (z2, zs2)" by fastforce
  note I1 = Cons.IH [OF e(1)] and I2 = Cons.IH [OF e(2)]
  show ?case
  proof (cases "cf_at y < cf_at x")
    case True
    then have "z = z2" "zs = x # zs2" using Cons.prems e by auto
    then show ?thesis using I2 True by (auto simp: add_mset_commute)
  next
    case False
    then have "z = z1" "zs = y # zs1" using Cons.prems e by auto
    then show ?thesis using I1 False by (auto simp: add_mset_commute)
  qed
qed simp

lemma sort_frames_mset: "mset (sort_frames fs) = mset fs"
proof (induction fs rule: sort_frames.induct)
  case (2 x xs)
  obtain z zs where e: "exchange x xs = (z, zs)" by fastforce
  then show ?case using "2.IH" [OF e [symmetric]] exchange_least [OF e] by simp
qed simp

text \<open>A history batch is flushed oldest first and loses no frame and makes up none, so that the ids minted while it is
  flushed follow the order of time.\<close>

lemma sort_frames_ordered: "mset (sort_frames fs) = mset fs \<and> sorted (map cf_at (sort_frames fs))"
proof (rule conjI [OF sort_frames_mset])
  show "sorted (map cf_at (sort_frames fs))"
  proof (induction fs rule: sort_frames.induct)
    case (2 x xs)
    obtain z zs where e: "exchange x xs = (z, zs)" by fastforce
    have "set_mset (mset (z # zs)) = set_mset (mset (x # xs))" using exchange_least [OF e] by simp
    then have "set zs \<subseteq> insert x (set xs)" by auto
    moreover have "set (sort_frames zs) = set zs" using sort_frames_mset mset_eq_setD by blast
    ultimately have "cf_at z \<le> cf_at f" if "f \<in> set (sort_frames zs)" for f using exchange_least [OF e] that by blast
    then show ?case using "2.IH" [OF e [symmetric]] e by auto
  qed simp
qed

section \<open>The schedule of the supervisor\<close>

text \<open>The schedule that the code follows: the wait doubles from five seconds up to a minute with every attempt since the
  last one that lived, where \<open>k\<close> attempts have failed so far.\<close>

fun waits :: "nat \<Rightarrow> bool list \<Rightarrow> int list" where
  "waits k [] = []"
| "waits k (healthy # hs) = min 60000000000 (5000000000 * 2 ^ k) # waits (if healthy then 0 else k + 1) hs"

definition healthy :: "outcome \<Rightarrow> bool" where
  "healthy = (\<lambda>(g, cErr, lived, now, cancelled). cErr = None \<and> lived \<ge> 30 * 1000000000)"

definition dropped :: "outcome \<Rightarrow> bool" where
  "dropped = (\<lambda>(g, cErr, lived, now, cancelled). cancelled)"

lemma next_wait:
  "next_backoff failed lived (min 60000000000 (5000000000 * 2 ^ k))
     = min 60000000000 (5000000000 * 2 ^ (if \<not> failed \<and> lived \<ge> 30 * 1000000000 then 0 else k + 1))"
  by (auto simp: next_backoff_def reconnectHealthyAfter_def reconnectBackoffInitial_def reconnectBackoffMax_def min_def)

lemma attempt_end_waits:
  assumes "hooks_wf h" "mgr_wf m" "\<not> cancelled"
  shows "\<exists>m'. attempt_end B h now c net cancelled cErr backoff m = Some (Some backoff, m') \<and> mgr_wf m'"
proof -
  have "stays2 (attempt_end B h now c net cancelled cErr backoff m)" by (rule attempt_end_stays [OF assms(1,2)])
  then obtain w m' where m': "attempt_end B h now c net cancelled cErr backoff m = Some (w, m')" "mgr_wf m'"
    by (auto simp: stays2_def split: option.splits)
  then have "w = Some backoff" using assms(3) by (auto simp: attempt_end_def Let_def bind_eq_Some_conv)
  then show ?thesis using m' by blast
qed

lemma supervise_waits:
  assumes "hooks_wf h"
  shows "mgr_wf m \<Longrightarrow> \<not> list_ex dropped os \<Longrightarrow>
    \<exists>m'. supervise B h c net (min 60000000000 (5000000000 * 2 ^ k)) os m = Some (waits k (map healthy os), m') \<and> mgr_wf m'"
proof (induction os arbitrary: m k)
  case (Cons x os)
  obtain g cErr lived now cancelled where x: "x = (g, cErr, lived, now, cancelled)" by (cases x)
  have "mgr_wf (attempt_begin c g m)" "\<not> cancelled" using Cons.prems by (simp_all add: x dropped_def)
  from attempt_end_waits [OF assms this] obtain m1 where m1: "attempt_end B h now c net cancelled cErr (min 60000000000 (5000000000 * 2 ^ k)) (attempt_begin c g m)
      = Some (Some (min 60000000000 (5000000000 * 2 ^ k)), m1)" "mgr_wf m1"
    by blast
  let ?k = "if healthy x then 0 else k + 1"
  obtain m2 where "supervise B h c net (min 60000000000 (5000000000 * 2 ^ ?k)) os m1 = Some (waits ?k (map healthy os), m2)"
    "mgr_wf m2"
    using Cons.IH [OF m1(2), of ?k] Cons.prems(2) by auto
  moreover have "next_backoff (cErr \<noteq> None) lived (min 60000000000 (5000000000 * 2 ^ k)) = min 60000000000 (5000000000 * 2 ^ ?k)"
    unfolding next_wait by (simp add: healthy_def x)
  ultimately show ?case using m1(1) by (simp add: x)
qed simp

text \<open>C39: Until it is dropped, the supervisor of a connection never panics and never stops trying. After every attempt
  it waits five seconds times two to the number of attempts before this one that came after the last healthy one, at
  most a minute. Healthy is an attempt that ended without an error after at least half a minute; one that lived longer
  but ended in an error does not reset the wait. The reset takes effect one attempt late: the drop of the healthy link
  itself is still followed by the wait that its predecessors have built up, not by the initial one, as the comment on
  the constant has it.\<close>

lemma supervise_schedule:
  assumes "hooks_wf h" "mgr_wf m" "\<not> list_ex dropped os"
  shows "\<exists>m'. supervise B h c net reconnectBackoffInitial os m = Some (waits 0 (map healthy os), m') \<and> mgr_wf m'"
  using supervise_waits [OF assms, of B c net 0] by (simp add: reconnectBackoffInitial_def)

lemma supervise_schedule_witness:
  "\<forall>net. \<exists>m'. supervise mem_kv no_hooks (''u'', ''n'') net 5000000000
     [(demo_girc, Some ''refused'', 0, 1, False), (demo_girc, None, 31000000000, 2, False), (demo_girc, None, 7, 3, False)]
     demo_manager = Some ([5000000000, 10000000000, 5000000000], m')"
  using supervise_schedule [OF no_hooks_wf demo_manager_wf, of
     "[(demo_girc, Some ''refused'', 0, 1, False), (demo_girc, None, 31000000000, 2, False), (demo_girc, None, 7, 3, False)]"
     mem_kv "(''u'', ''n'')"]
  by (auto simp: dropped_def healthy_def reconnectBackoffInitial_def)

end
