(* ===== verification/ServiceBase.thy ===== *)
theory ServiceBase
  imports Supervisor MiscStore ConnStr
begin

text \<open>
  The network service (\<open>internal/core/network\<close>), first part: how its operations are composed, the avatars and nicks
  of members and peers, and the read positions. The service works on the state of the connection manager, which holds
  the gateway and the database; the three pointers are taken to be set, as they are in \<open>cmd/voidbar\<close>. An operation is
  a function of type \<open>svc\<close>: it panics (None), or returns an error or a value with the new state. Operations that only
  pass their arguments on to the store are the store's.
\<close>

section \<open>Operations\<close>

type_synonym ('d, 'r, 'a) svc = "('d, 'r) Manager \<Rightarrow> ((err + 'a) \<times> ('d, 'r) Manager) option"

definition give :: "'a \<Rightarrow> ('d, 'r, 'a) svc" where
  "give x m = Some (Inr x, m)"

definition refuse :: "err \<Rightarrow> ('d, 'r, 'a) svc" where
  "refuse e m = Some (Inl e, m)"

definition andthen :: "('d, 'r, 'a) svc \<Rightarrow> ('a \<Rightarrow> ('d, 'r, 'b) svc) \<Rightarrow> ('d, 'r, 'b) svc" where
  "andthen f g m =
     (case f m of
        None \<Rightarrow> None
      | Some (Inl e, m) \<Rightarrow> Some (Inl e, m)
      | Some (Inr x, m) \<Rightarrow> g x m)"

text \<open>An operation whose error the code looks at or drops.\<close>

definition attempt :: "('d, 'r, 'a) svc \<Rightarrow> ('d, 'r, err + 'a) svc" where
  "attempt f m = map_option (\<lambda>(r, m). (Inr r, m)) (f m)"

definition look :: "(('d, 'r) Manager \<Rightarrow> 'a) \<Rightarrow> ('d, 'r, 'a) svc" where
  "look f m = Some (Inr (f m), m)"

definition store_get :: "('d \<Rightarrow> err + 'a) \<Rightarrow> ('d, 'r, 'a) svc" where
  "store_get f m = Some (f (m_db m), m)"

definition store_do :: "('d \<Rightarrow> (err + 'a) \<times> 'd) \<Rightarrow> ('d, 'r, 'a) svc" where
  "store_do f m = Some (on_db f m)"

definition store_mint :: "('d \<Rightarrow> Snowflake \<Rightarrow> (err + 'a) \<times> 'd \<times> Snowflake) \<Rightarrow> ('d, 'r, 'a) svc" where
  "store_mint f m = Some (on_ids f m)"

definition mint_id :: "time \<Rightarrow> ('d, 'r, string) svc" where
  "mint_id now m = (case mint_new now m of (i, m) \<Rightarrow> Some (Inr i, m))"

definition manager_do :: "(('d, 'r) Manager \<Rightarrow> ('d, 'r) Manager) \<Rightarrow> ('d, 'r, unit) svc" where
  "manager_do f m = Some (Inr (), f m)"

definition push_event :: "string \<Rightarrow> string \<Rightarrow> (('d, 'r) Manager \<Rightarrow> json) \<Rightarrow> time \<Rightarrow> ('d, 'r, unit) svc" where
  "push_event userID t pl now m = map_option (\<lambda>m. (Inr (), m)) (gw_dispatch userID t (pl m) now m)"

fun each :: "('a \<Rightarrow> ('d, 'r, unit) svc) \<Rightarrow> 'a list \<Rightarrow> ('d, 'r, unit) svc" where
  "each f [] = give ()"
| "each f (x # xs) = andthen (f x) (\<lambda>_. each f xs)"

section \<open>Avatars and nicks\<close>

text \<open>\<open>base64.StdEncoding\<close>, which skips line breaks and asks for padding.\<close>

definition std_decode :: "string \<Rightarrow> err + string" where
  "std_decode s =
     (let s = filter (\<lambda>c. c \<noteq> CHR 0x0A \<and> c \<noteq> CHR 0x0D) s in
      if length s mod 4 \<noteq> 0 then Inl ErrBase64
      else if has_suffix s ''=='' then raw_decode (take (length s - 2) s)
      else if has_suffix s ''='' then raw_decode (take (length s - 1) s)
      else raw_decode s)"

definition decodeAvatarDataURI :: "string \<Rightarrow> err + string \<times> string" where
  "decodeAvatarDataURI uri =
     (if \<not> has_prefix uri ''data:'' then Inl ErrBadAvatarDataURI
      else
        let rest = trim_prefix uri ''data:''; (meta, b64) = cut_byte rest (CHR '','') in
        if CHR '','' \<notin> set rest \<or> \<not> has_infix meta ''base64'' then Inl ErrBadAvatarDataURI
        else case std_decode b64 of
          Inl _ \<Rightarrow> Inl ErrBadAvatarDataURI
        | Inr data \<Rightarrow> Inr (fst (cut_byte meta (CHR '';'')), data))"

definition avatarURL :: "string \<Rightarrow> string \<Rightarrow> string \<Rightarrow> string" where
  "avatarURL publicURL userID hash =
     (if hash = [] \<or> publicURL = [] then []
      else trim_suffix publicURL ''/'' @ ''/avatars/'' @ userID @ ''/'' @ hash @ ''.png'')"

definition json_or_null :: "string \<Rightarrow> json" where
  "json_or_null s = (if s = [] then JNull else JStr s)"

definition globalAvatarValue :: "'d store \<Rightarrow> ('d, 'r) Manager \<Rightarrow> string \<Rightarrow> json" where
  "globalAvatarValue B m userID =
     (case GetUserByID B (m_db m) userID of Inr u \<Rightarrow> json_or_null (u_Avatar u) | Inl _ \<Rightarrow> JNull)"

definition MemberAvatarFor :: "'d store \<Rightarrow> ('d, 'r) Manager \<Rightarrow> string \<Rightarrow> string \<Rightarrow> json" where
  "MemberAvatarFor B m userID guildID =
     (case GetMembership B (m_db m) guildID userID of
        Inr mem \<Rightarrow>
          if mem_Avatar mem \<noteq> [] then JStr (mem_Avatar mem)
          else if mem_AvatarRejected mem then JNull
          else globalAvatarValue B m userID
      | Inl _ \<Rightarrow> globalAvatarValue B m userID)"

definition avatarRejectedFor :: "'d store \<Rightarrow> ('d, 'r) Manager \<Rightarrow> string \<Rightarrow> string \<Rightarrow> bool" where
  "avatarRejectedFor B m userID networkID =
     (case GetMembership B (m_db m) networkID userID of Inr mem \<Rightarrow> mem_AvatarRejected mem | Inl _ \<Rightarrow> False)"

definition SelfAvatarFor :: "'d store \<Rightarrow> ('d, 'r) Manager \<Rightarrow> string \<Rightarrow> string \<Rightarrow> json" where
  "SelfAvatarFor B m userID networkID =
     (if avatarRejectedFor B m userID networkID then JNull else globalAvatarValue B m userID)"

definition peerAvatarValue :: "'d store \<Rightarrow> ('d, 'r) Manager \<Rightarrow> string \<Rightarrow> string \<Rightarrow> string \<Rightarrow> json" where
  "peerAvatarValue B m userID networkID nick = json_or_null (PeerAvatar B (m_db m) userID networkID nick)"

definition AuthorAvatar :: "'d store \<Rightarrow> ('d, 'r) Manager \<Rightarrow> string \<Rightarrow> string \<Rightarrow> string \<Rightarrow> json" where
  "AuthorAvatar B m userID channelID rawAuthorID =
     (if \<not> has_prefix rawAuthorID ''irc:'' then
        (case GetChannel B (m_db m) channelID of
           Inr ch \<Rightarrow> SelfAvatarFor B m rawAuthorID (ch_NetworkID ch)
         | Inl _ \<Rightarrow> globalAvatarValue B m rawAuthorID)
      else peerAvatarValue B m userID (channelNetworkID B m channelID) (trim_prefix rawAuthorID ''irc:''))"

definition userNetworkIDs :: "'d store \<Rightarrow> ('d, 'r) Manager \<Rightarrow> string \<Rightarrow> string list" where
  "userNetworkIDs B m userID =
     (case ListMembershipsForUser B (m_db m) userID of Inr mems \<Rightarrow> map mem_NetworkID mems | Inl _ \<Rightarrow> [])"

definition PeerAvatarFor :: "'d store \<Rightarrow> ('d, 'r) Manager \<Rightarrow> string \<Rightarrow> string \<Rightarrow> string \<Rightarrow> string" where
  "PeerAvatarFor B m userID networkID nick =
     (let own = PeerAvatar B (m_db m) userID networkID nick in
      if networkID \<noteq> [] \<and> own \<noteq> [] then own
      else case List.find (\<lambda>h. h \<noteq> []) (map (\<lambda>netID. PeerAvatar B (m_db m) userID netID nick) (userNetworkIDs B m userID)) of
        Some h \<Rightarrow> h
      | None \<Rightarrow> [])"

definition PeerBotFor :: "'d store \<Rightarrow> ('d, 'r) Manager \<Rightarrow> string \<Rightarrow> string \<Rightarrow> string \<Rightarrow> bool" where
  "PeerBotFor B m userID networkID nick =
     ((networkID \<noteq> [] \<and> PeerBot B (m_db m) userID networkID nick)
      \<or> list_ex (\<lambda>netID. PeerBot B (m_db m) userID netID nick) (userNetworkIDs B m userID))"

definition liveNickFor :: "('d, 'r) Manager \<Rightarrow> string \<Rightarrow> string \<Rightarrow> string \<Rightarrow> string" where
  "liveNickFor m userID networkID fallback =
     (let nick = LiveNick m userID networkID in if nick \<noteq> [] then nick else fallback)"

definition ChannelNetworkID :: "'d store \<Rightarrow> ('d, 'r) Manager \<Rightarrow> string \<Rightarrow> string" where
  "ChannelNetworkID B m channelID = (case GetChannel B (m_db m) channelID of Inr ch \<Rightarrow> ch_NetworkID ch | Inl _ \<Rightarrow> [])"

definition AuthorBio :: "'d store \<Rightarrow> ('d, 'r) Manager \<Rightarrow> string \<Rightarrow> string \<Rightarrow> string \<Rightarrow> string" where
  "AuthorBio B m userID channelID rawAuthorID =
     (if \<not> has_prefix rawAuthorID ''irc:'' then []
      else PeerBioText m userID (ChannelNetworkID B m channelID) (trim_prefix rawAuthorID ''irc:''))"

section \<open>Read positions\<close>

definition snowflakeGreater :: "string \<Rightarrow> string \<Rightarrow> bool" where
  "snowflakeGreater a b = (if length a \<noteq> length b then length a > length b else a > b)"

text \<open>The position that is reported, and the database after the attempt to store it.\<close>

definition MarkChannelRead ::
  "'d store \<Rightarrow> string \<Rightarrow> string \<Rightarrow> string \<Rightarrow> 'd \<Rightarrow> (ReadState \<times> err option) \<times> 'd" where
  "MarkChannelRead B userID channelID messageID d =
     (let (rs, _) = GetReadState B d userID channelID in
      if snowflakeGreater (rs_LastMessageID rs) messageID then ((rs, None), d)
      else
        let rs = rs\<lparr>rs_ChannelID := channelID, rs_LastMessageID := messageID, rs_MentionCount := 0\<rparr> in
        case PutReadState B d userID rs of
          (Inl e, d) \<Rightarrow> ((rs, Some e), d)
        | (Inr _, d) \<Rightarrow> ((rs, None), d))"

fun ack_each :: "'d store \<Rightarrow> string \<Rightarrow> Channel list \<Rightarrow> 'd \<Rightarrow> ReadState list \<times> 'd" where
  "ack_each B userID [] d = ([], d)"
| "ack_each B userID (ch # chs) d =
     (let (rs, _) = GetReadState B d userID (ch_ID ch);
          rs = rs\<lparr>rs_ChannelID := ch_ID ch\<rparr>;
          rs = (case ChannelMessages B d (ch_ID ch) [] [] 1 of
                  [] \<Rightarrow> rs
                | row # _ \<Rightarrow> if snowflakeGreater (rs_LastMessageID rs) (bm_ID row) then rs else rs\<lparr>rs_LastMessageID := bm_ID row\<rparr>);
          rs = rs\<lparr>rs_MentionCount := 0\<rparr>;
          (r, d) = PutReadState B d userID rs;
          (out, d) = ack_each B userID chs d
      in (case r of Inr _ \<Rightarrow> rs # out | Inl _ \<Rightarrow> out, d))"

definition AckGuild :: "'d store \<Rightarrow> string \<Rightarrow> string \<Rightarrow> 'd \<Rightarrow> ReadState list \<times> 'd" where
  "AckGuild B userID guildID d = ack_each B userID (ListChannelsByNetwork B d guildID) d"

definition OnMentionRelayed :: "'d store \<Rightarrow> string \<Rightarrow> string \<Rightarrow> 'd \<Rightarrow> 'd" where
  "OnMentionRelayed B userID channelID d =
     (let (rs, _) = GetReadState B d userID channelID
      in snd (PutReadState B d userID (rs\<lparr>rs_ChannelID := channelID, rs_MentionCount := rs_MentionCount rs + 1\<rparr>)))"

definition read_entry :: "(string \<times> ReadState) list \<Rightarrow> string \<Rightarrow> json" where
  "read_entry byChannel channelID =
     (let rs = (case map_of byChannel channelID of Some rs \<Rightarrow> rs | None \<Rightarrow> emptyReadState) in
      json_map [(''id'', JStr channelID), (''last_message_id'', json_or_null (rs_LastMessageID rs)),
                (''mention_count'', JInt (rs_MentionCount rs)), (''version'', JInt 1)])"

definition ReadStateEntries :: "'d store \<Rightarrow> 'd \<Rightarrow> string \<Rightarrow> json list" where
  "ReadStateEntries B d userID =
     (let rows = (case ReadStates B d userID of Inr rows \<Rightarrow> rows | Inl _ \<Rightarrow> []);
          byChannel = fold (\<lambda>rs out. AList.update (rs_ChannelID rs) rs out) rows [];
          nets = (case ListMembershipsForUser B d userID of Inr mems \<Rightarrow> map mem_NetworkID mems | Inl _ \<Rightarrow> []);
          ids = map dm_ID (ListDMChannels B d userID)
                @ concat (map (\<lambda>netID. map ch_ID (ListChannelsByNetwork B d netID)) nets);
          emitted = fold (\<lambda>i out. if i = [] \<or> i \<in> set out then out else out @ [i]) ids []
      in map (read_entry byChannel) emitted)"

end
