(* ===== verification/Guilds.thy ===== *)
theory Guilds
  imports ServiceBase
begin

text \<open>
  The network service, second part: what it shows of networks, channels, members and DM threads. A network is a guild,
  its bouncer members are shown under their own ids and live nicks, everybody else under a hashed id. Go iterates over
  a map of bouncer members in no particular order; the model takes the order of the membership rows.
\<close>

section \<open>Members and roles\<close>

definition presencePayload :: "string \<Rightarrow> string \<Rightarrow> json" where
  "presencePayload userID status =
     json_map [(''user'', json_map [(''id'', JStr userID)]), (''status'', JStr status), (''activities'', JArr []),
               (''client_status'', json_map [])]"

definition presenceStatus :: "bool \<Rightarrow> string" where
  "presenceStatus away = (if away then ''idle'' else ''online'')"

definition ircRoleIDsFor :: "string \<Rightarrow> json list" where
  "ircRoleIDsFor mode = (if IrcModeRank mode = 0 then [] else [JStr (IrcRoleID mode)])"

definition memberRoleIDs :: "'d store \<Rightarrow> ('d, 'r) Manager \<Rightarrow> string \<Rightarrow> string \<Rightarrow> string \<Rightarrow> string \<Rightarrow> json list" where
  "memberRoleIDs B m userID networkID mode nick =
     (let color = PeerColor B (m_db m) userID networkID nick
      in ircRoleIDsFor mode @ (if color \<noteq> [] then [JStr (IrcColorRoleID color)] else []))"

text \<open>One person in several channels: the highest mode, away in any, and the first facts that say something.\<close>

definition best_mode :: "ChannelMember list \<Rightarrow> string \<Rightarrow> string" where
  "best_mode cms n =
     fold (\<lambda>cm b. if cm_Nick cm = n \<and> IrcModeRank (cm_Mode cm) > IrcModeRank b then cm_Mode cm else b) cms []"

definition first_facts :: "ChannelMember list \<Rightarrow> string \<Rightarrow> ChannelMember option" where
  "first_facts cms n = List.find (\<lambda>cm. cm_Nick cm = n \<and> (cm_Account cm \<noteq> [] \<or> cm_Host cm \<noteq> [])) cms"

definition occupant :: "ChannelMember list \<Rightarrow> string \<Rightarrow> ChannelMember" where
  "occupant cms n =
     \<lparr>cm_Nick = n, cm_Mode = best_mode cms n, cm_Away = list_ex (\<lambda>cm. cm_Nick cm = n \<and> cm_Away cm) cms,
      cm_Account = (case first_facts cms n of Some f \<Rightarrow> cm_Account f | None \<Rightarrow> []),
      cm_Host = (case first_facts cms n of Some f \<Rightarrow> cm_Host f | None \<Rightarrow> [])\<rparr>"

definition ircOccupants :: "('d, 'r) Manager \<Rightarrow> string \<Rightarrow> string \<Rightarrow> string list \<Rightarrow> ChannelMember list" where
  "ircOccupants m userID networkID ircNames =
     (let cms = concat (map (ChannelMembersDetailed m userID networkID) ircNames);
          nicks = rev (remdups (rev (map cm_Nick cms)))
      in map (occupant cms) (sort_key to_lower nicks))"

definition all_members :: "'d store \<Rightarrow> ('d, 'r) Manager \<Rightarrow> string \<Rightarrow> Membership list" where
  "all_members B m networkID = (case ListMemberships B (m_db m) networkID of Inr mems \<Rightarrow> mems | Inl _ \<Rightarrow> [])"

definition member_live_nick :: "('d, 'r) Manager \<Rightarrow> string \<Rightarrow> Membership \<Rightarrow> string" where
  "member_live_nick m networkID mem = liveNickFor m (mem_UserID mem) networkID (mem_Nick mem)"

text \<open>The nicks of the bouncer members by their lower case, with the id of the user.\<close>

definition bouncerMembers :: "'d store \<Rightarrow> ('d, 'r) Manager \<Rightarrow> string \<Rightarrow> (string \<times> string \<times> string) list" where
  "bouncerMembers B m networkID =
     fold (\<lambda>mem out.
         let nick = member_live_nick m networkID mem
         in if nick = [] then out else AList.update (to_lower nick) (nick, mem_UserID mem) out)
       (all_members B m networkID) []"

definition networkColorRoles :: "'d store \<Rightarrow> ('d, 'r) Manager \<Rightarrow> string \<Rightarrow> string \<Rightarrow> json list" where
  "networkColorRoles B m userID guildID =
     (case GetMembership B (m_db m) guildID userID of
        Inl _ \<Rightarrow> []
      | Inr mem \<Rightarrow>
        let nicks = map cm_Nick (ircOccupants m userID guildID (mem_AutoJoin mem))
                    @ map (member_live_nick m guildID) (all_members B m guildID);
            colors = filter (\<lambda>c. c \<noteq> []) (map (PeerColor B (m_db m) userID guildID) nicks)
        in List.map_filter IrcColorRolePayload (rev (remdups (rev colors))))"

definition guild_roles :: "'d store \<Rightarrow> ('d, 'r) Manager \<Rightarrow> string \<Rightarrow> string \<Rightarrow> json list" where
  "guild_roles B m userID netID =
     EveryoneRolePayload netID (ReactionsSupported m userID netID) # IrcRolePayloads @ networkColorRoles B m userID netID"

section \<open>Member lists\<close>

text \<open>A row of a member list: the member and the id of the bouncer user, empty for a peer.\<close>

definition list_rows ::
  "(string \<times> string \<times> string) list \<Rightarrow> ChannelMember list \<Rightarrow> (ChannelMember \<times> string) list" where
  "list_rows bouncers cms =
     (let modes = fold (\<lambda>cm out. AList.update (to_lower (cm_Nick cm)) cm out) cms []
      in map (\<lambda>(lower, nick, uid).
            (\<lparr>cm_Nick = nick, cm_Mode = (case map_of modes lower of Some cm \<Rightarrow> cm_Mode cm | None \<Rightarrow> []),
              cm_Away = (case map_of modes lower of Some cm \<Rightarrow> cm_Away cm | None \<Rightarrow> False), cm_Account = [], cm_Host = []\<rparr>, uid))
          bouncers
         @ map (\<lambda>cm. (cm, [])) (filter (\<lambda>cm. map_of bouncers (to_lower (cm_Nick cm)) = None) cms))"

definition member_user ::
  "'d store \<Rightarrow> ('d, 'r) Manager \<Rightarrow> string \<Rightarrow> string \<Rightarrow> ChannelMember \<Rightarrow> string \<Rightarrow> json \<Rightarrow> json" where
  "member_user B m userID guildID cm uid avatar =
     json_map [(''id'', JStr uid), (''username'', JStr (cm_Nick cm)), (''discriminator'', JStr ''0''),
       (''bot'', JBool (PeerBot B (m_db m) userID guildID (cm_Nick cm))), (''avatar'', avatar),
       (''bio'', json_or_null (BioText cm))]"

definition memberListItem ::
  "'d store \<Rightarrow> ('d, 'r) Manager \<Rightarrow> string \<Rightarrow> string \<Rightarrow> ChannelMember \<Rightarrow> string \<Rightarrow> string \<Rightarrow> string \<Rightarrow> json" where
  "memberListItem B m userID guildID cm uid joinedAt mode =
     (let uid = (if uid = [] then IrcAuthorID (''irc:'' @ cm_Nick cm) else uid);
          own = (case GetUserByID B (m_db m) uid of Inr _ \<Rightarrow> MemberAvatarFor B m uid guildID | Inl _ \<Rightarrow> JNull);
          avatar = (if own = JNull then peerAvatarValue B m userID guildID (cm_Nick cm) else own)
      in json_map [(''member'', json_map
           [(''id'', JStr uid), (''user'', member_user B m userID guildID cm uid avatar),
            (''bio'', json_or_null (BioText cm)), (''roles'', JArr (memberRoleIDs B m userID guildID mode (cm_Nick cm))),
            (''joined_at'', JStr joinedAt), (''presence'', presencePayload uid (presenceStatus (cm_Away cm)))])])"

definition section_head :: "string \<Rightarrow> nat \<Rightarrow> json" where
  "section_head i n = json_map [(''id'', JStr i), (''count'', JInt (int n))]"

text \<open>One section of the list: its header and the rows of its mode. Empty sections are not sent.\<close>

definition list_section ::
  "'d store \<Rightarrow> ('d, 'r) Manager \<Rightarrow> string \<Rightarrow> string \<Rightarrow> string \<Rightarrow> (ChannelMember \<times> string) list \<Rightarrow> string \<Rightarrow> string \<Rightarrow>
     json list \<times> json list" where
  "list_section B m userID guildID joinedAt rows mode i =
     (let sect = filter (\<lambda>(cm, _). cm_Mode cm = mode) rows in
      if sect = [] then ([], [])
      else ([section_head i (length sect)],
            json_map [(''group'', section_head i (length sect))]
            # map (\<lambda>(cm, uid). memberListItem B m userID guildID cm uid joinedAt mode) sect))"

definition MemberListPayload :: "'d store \<Rightarrow> ('d, 'r) Manager \<Rightarrow> string \<Rightarrow> string \<Rightarrow> string \<Rightarrow> json option" where
  "MemberListPayload B m userID guildID channelID =
     (case GetMembership B (m_db m) guildID userID of
        Inl _ \<Rightarrow> None
      | Inr mem \<Rightarrow>
        if \<not> LinkUp m userID guildID then None
        else case (if channelID = [] then Inr [] else map_sum id ch_IRCName (GetChannel B (m_db m) channelID)) of
          Inl _ \<Rightarrow> None
        | Inr ircName \<Rightarrow>
          let cms = (if ircName \<noteq> [] then ChannelMembersDetailed m userID guildID ircName
                     else ircOccupants m userID guildID (mem_AutoJoin mem));
              rows = take 99 (list_rows (bouncerMembers B m guildID) cms);
              joinedAt = rfc3339 (mem_JoinedAt mem);
              sects = map (\<lambda>mode. list_section B m userID guildID joinedAt rows mode (IrcRoleID mode)) IrcRoleModes
                      @ [list_section B m userID guildID joinedAt rows [] ''online'']
          in Some (json_map [(''id'', JStr (MemberListID guildID channelID)), (''guild_id'', JStr guildID),
               (''groups'', JArr (concat (map fst sects))), (''member_count'', JInt (int (length rows))),
               (''online_count'', JInt (int (length rows))),
               (''ops'', JArr [json_map [(''op'', JStr ''SYNC''), (''range'', JArr [JInt 0, JInt 99]),
                  (''items'', JArr (concat (map snd sects)))]])]))"

definition chunk_member ::
  "'d store \<Rightarrow> ('d, 'r) Manager \<Rightarrow> string \<Rightarrow> string \<Rightarrow> string \<Rightarrow> ChannelMember \<Rightarrow> string \<Rightarrow> json" where
  "chunk_member B m userID guildID joinedAt cm uid =
     (let avatar = (if uid \<noteq> [] then MemberAvatarFor B m uid guildID else peerAvatarValue B m userID guildID (cm_Nick cm));
          i = (if uid = [] then IrcAuthorID (''irc:'' @ cm_Nick cm) else uid)
      in json_map [(''user'', member_user B m userID guildID cm i avatar), (''bio'', json_or_null (BioText cm)),
           (''roles'', JArr (memberRoleIDs B m userID guildID (cm_Mode cm) (cm_Nick cm))), (''joined_at'', JStr joinedAt)])"

definition MemberChunkPayload ::
  "'d store \<Rightarrow> ('d, 'r) Manager \<Rightarrow> string \<Rightarrow> string \<Rightarrow> string \<Rightarrow> string list \<Rightarrow> json option" where
  "MemberChunkPayload B m userID guildID nonce userIDs =
     (case GetMembership B (m_db m) guildID userID of
        Inl _ \<Rightarrow> None
      | Inr mem \<Rightarrow>
        if \<not> LinkUp m userID guildID then None
        else
          let rows = list_rows (bouncerMembers B m guildID) (ircOccupants m userID guildID (mem_AutoJoin mem));
              uid_of = (\<lambda>(cm, uid). if uid = [] then IrcAuthorID (''irc:'' @ cm_Nick cm) else uid);
              rows = filter (\<lambda>r. userIDs = [] \<or> uid_of r \<in> set userIDs) rows;
              members = map (\<lambda>(cm, uid). chunk_member B m userID guildID (rfc3339 (mem_JoinedAt mem)) cm uid) rows;
              presences = map (\<lambda>r. presencePayload (uid_of r) (presenceStatus (cm_Away (fst r)))) rows
          in Some (json_map ([(''guild_id'', JStr guildID), (''members'', JArr members), (''chunk_index'', JInt 0),
               (''chunk_count'', JInt 1)]
             @ (if presences \<noteq> [] then [(''presences'', JArr presences)] else [])
             @ (if nonce \<noteq> [] then [(''nonce'', JStr nonce)] else []))))"

definition MemberPayload :: "'d store \<Rightarrow> ('d, 'r) Manager \<Rightarrow> string \<Rightarrow> string \<Rightarrow> string \<Rightarrow> json option" where
  "MemberPayload B m userID guildID nick =
     (case GetMembership B (m_db m) guildID userID of
        Inl _ \<Rightarrow> None
      | Inr mem \<Rightarrow>
        let mode = (case List.find (\<lambda>cm. equal_fold (cm_Nick cm) nick) (ircOccupants m userID guildID (mem_AutoJoin mem)) of
                      Some cm \<Rightarrow> cm_Mode cm | None \<Rightarrow> [])
        in Some (json_map [(''guild_id'', JStr guildID),
             (''user'', json_map [(''id'', JStr (mem_UserID mem)), (''username'', JStr nick), (''discriminator'', JStr ''0''),
                (''bot'', JBool False), (''avatar'', MemberAvatarFor B m userID guildID)]),
             (''nick'', JStr nick), (''roles'', JArr (ircRoleIDsFor mode)), (''joined_at'', JStr (rfc3339 (mem_JoinedAt mem)))]))"

section \<open>Channels and guilds\<close>

definition parentValue :: "string \<Rightarrow> json" where
  "parentValue parentID = json_or_null parentID"

definition lastMessageIDOf :: "'d store \<Rightarrow> ('d, 'r) Manager \<Rightarrow> string \<Rightarrow> json" where
  "lastMessageIDOf B m channelID =
     (case ChannelMessages B (m_db m) channelID [] [] 1 of [] \<Rightarrow> JNull | row # _ \<Rightarrow> JStr (bm_ID row))"

definition channelPayload :: "'d store \<Rightarrow> ('d, 'r) Manager \<Rightarrow> string \<Rightarrow> Channel \<Rightarrow> int \<Rightarrow> payload" where
  "channelPayload B m guildID ch position =
     [(''id'', JStr (ch_ID ch)), (''guild_id'', JStr guildID), (''name'', JStr (ch_Name ch)), (''type'', JInt 0),
      (''position'', JInt position), (''topic'', TopicValue (ch_Topic ch)), (''last_message_id'', lastMessageIDOf B m (ch_ID ch)),
      (''permission_overwrites'', JArr []), (''rate_limit_per_user'', JInt 0), (''nsfw'', JBool False), (''flags'', JInt 0),
      (''parent_id'', parentValue (ch_ParentID ch)), (''member_list_id'', JStr (MemberListID guildID (ch_ID ch)))]"

definition categoryPayload :: "string \<Rightarrow> Category \<Rightarrow> json" where
  "categoryPayload guildID cat =
     json_map [(''id'', JStr (cat_ID cat)), (''guild_id'', JStr guildID), (''name'', JStr (cat_Name cat)), (''type'', JInt 4),
       (''position'', JInt (cat_Position cat)), (''permission_overwrites'', JArr []), (''flags'', JInt 0)]"

fun number_channels :: "'d store \<Rightarrow> ('d, 'r) Manager \<Rightarrow> string \<Rightarrow> int \<Rightarrow> Channel list \<Rightarrow> json list" where
  "number_channels B m guildID i [] = []"
| "number_channels B m guildID i (ch # chs) =
     json_map (channelPayload B m guildID ch i) # number_channels B m guildID (i + 1) chs"

definition GuildChannelsPayload :: "'d store \<Rightarrow> time \<Rightarrow> string \<Rightarrow> string list \<Rightarrow> ('d, 'r, json list) svc" where
  "GuildChannelsPayload B now guildID autoJoin =
     andthen (store_mint (\<lambda>d s. ChannelsByIRC B d (new_id now) s guildID autoJoin now)) (\<lambda>chans.
     look (\<lambda>m. number_channels B m guildID 0 chans
             @ (case GetNetwork B (m_db m) guildID of
                  Inr net \<Rightarrow> map (categoryPayload guildID) (n_Categories net) | Inl _ \<Rightarrow> [])))"

definition GuildChannelsFor :: "'d store \<Rightarrow> ('d, 'r) Manager \<Rightarrow> string \<Rightarrow> string list" where
  "GuildChannelsFor B m guildID =
     map ch_ID (filter (\<lambda>ch. ch_IRCName ch \<noteq> SystemIRCName) (ListChannelsByNetwork B (m_db m) guildID))"

definition GuildIconValue :: "Network \<Rightarrow> json" where
  "GuildIconValue net = json_or_null (n_IconHash net)"

definition guildProperties :: "Network \<Rightarrow> json" where
  "guildProperties net =
     json_map [(''id'', JStr (n_ID net)), (''name'', JStr (n_Name net)), (''description'', JNull), (''icon'', GuildIconValue net),
       (''splash'', JNull), (''banner'', JNull), (''home_header'', JNull), (''features'', JArr []),
       (''preferred_locale'', JStr ''en-US''), (''owner_id'', JStr ClydeID), (''application_id'', JNull),
       (''afk_channel_id'', JNull), (''afk_timeout'', JInt 300), (''system_channel_id'', JNull), (''rules_channel_id'', JNull),
       (''safety_alerts_channel_id'', JNull), (''public_updates_channel_id'', JNull), (''verification_level'', JInt 0),
       (''explicit_content_filter'', JInt 0), (''default_message_notifications'', JInt 0), (''mfa_level'', JInt 0),
       (''vanity_url_code'', JNull), (''premium_tier'', JInt 0), (''premium_progress_bar_enabled'', JBool False),
       (''system_channel_flags'', JInt 0), (''discovery_splash'', JNull), (''max_stage_video_channel_users'', JInt (- 1)),
       (''max_video_channel_users'', JInt (- 1)), (''max_members'', JInt (- 1)), (''nsfw_level'', JInt 0), (''hub_type'', JNull),
       (''latest_onboarding_question_id'', JNull), (''inventory_settings'', JNull)]"

text \<open>The entries that a guild and its updates share.\<close>

definition guild_flat :: "'d store \<Rightarrow> ('d, 'r) Manager \<Rightarrow> Membership \<Rightarrow> Network \<Rightarrow> payload" where
  "guild_flat B m mem net =
     [(''id'', JStr (n_ID net)), (''name'', JStr (n_Name net)), (''icon'', GuildIconValue net), (''owner_id'', JStr ClydeID),
      (''joined_at'', JStr (rfc3339 (mem_JoinedAt mem))), (''large'', JBool False),
      (''roles'', JArr (guild_roles B m (mem_UserID mem) (n_ID net))), (''features'', JArr []), (''premium_tier'', JInt 0),
      (''nsfw'', JBool False), (''verification_level'', JInt 0), (''default_message_notifications'', JInt 0),
      (''explicit_content_filter'', JInt 0), (''mfa_level'', JInt 0), (''system_channel_id'', JNull),
      (''rules_channel_id'', JNull), (''public_updates_channel_id'', JNull), (''afk_channel_id'', JNull),
      (''afk_timeout'', JInt 300), (''preferred_locale'', JStr ''en-US''),
      (''guild_hashes'', json_map [(''version'', JInt 0), (''hashes'', json_map []), (''guild_id'', JStr (n_ID net))]),
      (''unavailable'', JBool (\<not> LinkUp m (mem_UserID mem) (n_ID net))), (''properties'', guildProperties net)]"

definition guildUpdatePayload :: "'d store \<Rightarrow> ('d, 'r) Manager \<Rightarrow> Membership \<Rightarrow> Network \<Rightarrow> json" where
  "guildUpdatePayload B m mem net =
     json_map ((''member_count'', JInt (1 + int (length (all_members B m (n_ID net))))) # guild_flat B m mem net)"

definition bouncer_row :: "'d store \<Rightarrow> ('d, 'r) Manager \<Rightarrow> string \<Rightarrow> ChannelMember list \<Rightarrow> Membership \<Rightarrow> json" where
  "bouncer_row B m netID occupants mem =
     (let nick = member_live_nick m netID mem;
          mode = (case List.find (\<lambda>cm. to_lower (cm_Nick cm) = to_lower nick) (rev occupants) of
                    Some cm \<Rightarrow> cm_Mode cm | None \<Rightarrow> [])
      in json_map [(''user'', json_map [(''id'', JStr (mem_UserID mem)), (''username'', JStr nick),
             (''discriminator'', JStr ''0''), (''bot'', JBool False), (''avatar'', MemberAvatarFor B m (mem_UserID mem) netID)]),
           (''nick'', JStr nick), (''roles'', JArr (ircRoleIDsFor mode)), (''joined_at'', JStr (rfc3339 (mem_JoinedAt mem)))])"

definition peer_row :: "'d store \<Rightarrow> ('d, 'r) Manager \<Rightarrow> Membership \<Rightarrow> string \<Rightarrow> ChannelMember \<Rightarrow> json" where
  "peer_row B m mem netID cm =
     json_map [(''user'', member_user B m (mem_UserID mem) netID cm (IrcAuthorID (''irc:'' @ cm_Nick cm))
                  (peerAvatarValue B m (mem_UserID mem) netID (cm_Nick cm))),
       (''bio'', json_or_null (BioText cm)), (''roles'', JArr (memberRoleIDs B m (mem_UserID mem) netID (cm_Mode cm) (cm_Nick cm))),
       (''joined_at'', JStr (rfc3339 (mem_JoinedAt mem)))]"

definition guild_object ::
  "'d store \<Rightarrow> Membership \<Rightarrow> Network \<Rightarrow> json list \<Rightarrow> ('d, 'r) Manager \<Rightarrow> json" where
  "guild_object B mem net channels m =
     (let everybody = all_members B m (n_ID net);
          occupants = ircOccupants m (mem_UserID mem) (n_ID net) (mem_AutoJoin mem);
          nicks = map (\<lambda>o'. to_lower (member_live_nick m (n_ID net) o')) everybody;
          peers = filter (\<lambda>cm. to_lower (cm_Nick cm) \<notin> set nicks) occupants;
          members = map (bouncer_row B m (n_ID net) occupants) everybody @ [ClydeMember (rfc3339 (n_CreatedAt net))]
                    @ map (peer_row B m mem (n_ID net)) peers;
          presences = List.map_filter (\<lambda>o'. map_option (presencePayload (mem_UserID o')) (SelfPresence m (mem_UserID o') (n_ID net)))
                        everybody
                      @ map (\<lambda>cm. presencePayload (IrcAuthorID (''irc:'' @ cm_Nick cm)) (presenceStatus (cm_Away cm))) peers
      in json_map ([(''channels'', JArr channels), (''members'', JArr members), (''member_count'', JInt (int (length members))),
           (''presences'', JArr presences), (''voice_states'', JArr []), (''threads'', JArr []), (''emojis'', JArr []),
           (''stickers'', JArr []), (''stage_instances'', JArr []), (''guild_scheduled_events'', JArr []),
           (''embedded_activities'', JArr [])] @ guild_flat B m mem net))"

definition buildGuild :: "'d store \<Rightarrow> time \<Rightarrow> Membership \<Rightarrow> Network \<Rightarrow> ('d, 'r, json) svc" where
  "buildGuild B now mem net =
     andthen (attempt (store_mint (\<lambda>d s. ChannelsByIRC B d (new_id now) s (n_ID net) (mem_AutoJoin mem) now))) (\<lambda>chans.
     andthen (attempt (store_mint (\<lambda>d s. EnsureSystemChannel B d (new_id now) s (n_ID net) now))) (\<lambda>sys.
     look (\<lambda>m. guild_object B mem net
       ((case sys of Inr ch \<Rightarrow> [json_map (channelPayload B m (n_ID net) ch 0)] | Inl _ \<Rightarrow> [])
        @ number_channels B m (n_ID net) 1 (case chans of Inr chs \<Rightarrow> chs | Inl _ \<Rightarrow> [])
        @ map (categoryPayload (n_ID net)) (n_Categories net)) m)))"

fun guild_create_each :: "'d store \<Rightarrow> time \<Rightarrow> Membership list \<Rightarrow> ('d, 'r, json list) svc" where
  "guild_create_each B now [] = give []"
| "guild_create_each B now (mem # mems) =
     andthen (attempt (store_get (\<lambda>d. GetNetwork B d (mem_NetworkID mem)))) (\<lambda>r.
     case r of
       Inl _ \<Rightarrow> guild_create_each B now mems
     | Inr net \<Rightarrow>
       andthen (buildGuild B now mem net) (\<lambda>g.
       andthen (guild_create_each B now mems) (\<lambda>gs. give (g # gs))))"

definition GuildCreatePayloads :: "'d store \<Rightarrow> time \<Rightarrow> string \<Rightarrow> ('d, 'r, json list) svc" where
  "GuildCreatePayloads B now userID =
     andthen (attempt (store_get (\<lambda>d. ListMembershipsForUser B d userID))) (\<lambda>r.
     case r of Inl _ \<Rightarrow> give [] | Inr mems \<Rightarrow> guild_create_each B now mems)"

text \<open>The networks of a user with the rows they hold.\<close>

definition joined_networks :: "'d store \<Rightarrow> 'd \<Rightarrow> string \<Rightarrow> err + (Membership \<times> Network) list" where
  "joined_networks B d userID =
     tryb (ListMembershipsForUser B d userID) (\<lambda>mems.
     Inr (List.map_filter (\<lambda>mem. case GetNetwork B d (mem_NetworkID mem) of Inr net \<Rightarrow> Some (mem, net) | Inl _ \<Rightarrow> None) mems))"

definition GuildsForUser :: "'d store \<Rightarrow> ('d, 'r) Manager \<Rightarrow> string \<Rightarrow> err + json list" where
  "GuildsForUser B m userID =
     tryb (joined_networks B (m_db m) userID) (\<lambda>rows.
     Inr (map (\<lambda>(mem, net). json_map [(''id'', JStr (n_ID net)), (''name'', JStr (n_Name net)), (''icon'', GuildIconValue net),
            (''unavailable'', JBool (\<not> LinkUp m (mem_UserID mem) (n_ID net))), (''joined_at'', JStr (rfc3339 (mem_JoinedAt mem)))]) rows))"

record UserNetworkSummary =
  us_Host :: string
  us_Name :: string
  us_Up :: bool

definition UserNetworks :: "'d store \<Rightarrow> ('d, 'r) Manager \<Rightarrow> string \<Rightarrow> UserNetworkSummary list" where
  "UserNetworks B m userID =
     (case joined_networks B (m_db m) userID of
        Inl _ \<Rightarrow> []
      | Inr rows \<Rightarrow> map (\<lambda>(mem, net).
          \<lparr>us_Host = (if n_Port net \<noteq> 0 then n_Host net @ '':'' @ format_int (n_Port net) else n_Host net),
           us_Name = n_Name net, us_Up = LinkUp m (mem_UserID mem) (n_ID net)\<rparr>) rows)"

definition FindByHost :: "'d store \<Rightarrow> 'd \<Rightarrow> string \<Rightarrow> string \<Rightarrow> err + Network \<times> Membership" where
  "FindByHost B d userID host =
     tryb (joined_networks B d userID) (\<lambda>rows.
     case List.find (\<lambda>(mem, net). equal_fold (n_Host net) host) rows of
       Some (mem, net) \<Rightarrow> Inr (net, mem)
     | None \<Rightarrow> Inl ErrNotFound)"

definition FindByChannelName :: "'d store \<Rightarrow> 'd \<Rightarrow> string \<Rightarrow> string \<Rightarrow> err + Network \<times> Membership" where
  "FindByChannelName B d userID ircName =
     tryb (joined_networks B d userID) (\<lambda>rows.
     case List.find (\<lambda>(mem, net). list_ex (\<lambda>ch. equal_fold ch ircName) (mem_AutoJoin mem)) rows of
       Some (mem, net) \<Rightarrow> Inr (net, mem)
     | None \<Rightarrow> Inl ErrNotFound)"

definition CategoryByID :: "'d store \<Rightarrow> 'd \<Rightarrow> string \<Rightarrow> string \<Rightarrow> err + Network \<times> Category" where
  "CategoryByID B d userID catID =
     tryb (joined_networks B d userID) (\<lambda>rows.
     case List.find (\<lambda>(net, cat). cat_ID cat = catID) (concat (map (\<lambda>(mem, net). map (Pair net) (n_Categories net)) rows)) of
       Some r \<Rightarrow> Inr r
     | None \<Rightarrow> Inl ErrNotFound)"

section \<open>DM threads\<close>

definition with_avatar :: "json \<Rightarrow> payload \<Rightarrow> payload" where
  "with_avatar h peer = (if h \<noteq> JNull then AList.update ''avatar'' h peer else peer)"

definition dmPeerFor :: "'d store \<Rightarrow> ('d, 'r) Manager \<Rightarrow> string \<Rightarrow> string \<Rightarrow> string \<Rightarrow> payload" where
  "dmPeerFor B m userID netID nick =
     (case List.find (\<lambda>o'. equal_fold (member_live_nick m netID o') nick) (all_members B m netID) of
        Some o' \<Rightarrow> with_avatar (MemberAvatarFor B m (mem_UserID o') netID) (object_fields (DMPeerID nick (mem_UserID o')))
      | None \<Rightarrow>
        let peer = with_avatar (peerAvatarValue B m userID netID nick) (object_fields (DMPeer nick))
        in if PeerBot B (m_db m) userID netID nick then AList.update ''bot'' (JBool True) peer else peer)"

definition peer_id :: "payload \<Rightarrow> string" where
  "peer_id peer = (case map_of peer ''id'' of Some (JStr i) \<Rightarrow> i | _ \<Rightarrow> [])"

definition dm_channel :: "'d store \<Rightarrow> ('d, 'r) Manager \<Rightarrow> string \<Rightarrow> payload \<Rightarrow> json" where
  "dm_channel B m dmID peer =
     json_map [(''id'', JStr dmID), (''type'', JInt 1), (''flags'', JInt 0), (''last_message_id'', lastMessageIDOf B m dmID),
       (''last_message_timestamp'', JNull), (''recipients'', JArr [json_map peer]), (''recipient_ids'', JArr [JStr (peer_id peer)]),
       (''is_message_request'', JBool False), (''is_message_request_timestamp'', JNull), (''is_spam'', JBool False)]"

definition DMChannelPayloads :: "'d store \<Rightarrow> ('d, 'r) Manager \<Rightarrow> string \<Rightarrow> json list" where
  "DMChannelPayloads B m userID =
     map (\<lambda>dm.
         let peer = dmPeerFor B m userID (dm_NetworkID dm) (dm_Nick dm);
             bio = PeerBioText m userID (dm_NetworkID dm) (dm_Nick dm)
         in dm_channel B m (dm_ID dm) (if bio \<noteq> [] then AList.update ''bio'' (JStr bio) peer else peer))
       (ListDMChannels B (m_db m) userID)"

definition UsersFor :: "'d store \<Rightarrow> ('d, 'r) Manager \<Rightarrow> string \<Rightarrow> json list" where
  "UsersFor B m userID =
     map (\<lambda>(i, peer). json_map peer)
       (fold (\<lambda>dm out.
           let peer = dmPeerFor B m userID (dm_NetworkID dm) (dm_Nick dm); i = peer_id peer
           in if i = [] \<or> map_of out i \<noteq> None then out else out @ [(i, peer)])
         (ListDMChannels B (m_db m) userID) [])"

definition dmPayloadFor :: "'d store \<Rightarrow> time \<Rightarrow> string \<Rightarrow> string \<Rightarrow> string \<Rightarrow> ('d, 'r, json) svc" where
  "dmPayloadFor B now userID netID nick =
     andthen (store_mint (\<lambda>d s. EnsureDMChannel B d (new_id now) s userID netID nick now)) (\<lambda>dm.
     look (\<lambda>m. dm_channel B m (dm_ID dm) (dmPeerFor B m userID netID (dm_Nick dm))))"

text \<open>The nick behind a recipient on one network: a fellow bouncer member, or an occupant with that hashed id.\<close>

definition recipient_nick :: "'d store \<Rightarrow> ('d, 'r) Manager \<Rightarrow> string \<Rightarrow> string \<Rightarrow> Membership \<Rightarrow> string option" where
  "recipient_nick B m userID recipientID mem =
     (case List.find (\<lambda>o'. mem_UserID o' = recipientID \<and> mem_UserID o' \<noteq> userID) (all_members B m (mem_NetworkID mem)) of
        Some o' \<Rightarrow> Some (member_live_nick m (mem_NetworkID mem) o')
      | None \<Rightarrow>
        map_option cm_Nick
          (List.find (\<lambda>cm. IrcAuthorID (''irc:'' @ cm_Nick cm) = recipientID)
             (ircOccupants m userID (mem_NetworkID mem) (mem_AutoJoin mem))))"

fun find_recipient :: "'d store \<Rightarrow> ('d, 'r) Manager \<Rightarrow> string \<Rightarrow> string \<Rightarrow> Membership list \<Rightarrow> (string \<times> string) option" where
  "find_recipient B m userID recipientID [] = None"
| "find_recipient B m userID recipientID (mem # mems) =
     (case recipient_nick B m userID recipientID mem of
        Some nick \<Rightarrow> Some (mem_NetworkID mem, nick)
      | None \<Rightarrow> find_recipient B m userID recipientID mems)"

definition CreateDMChannel :: "'d store \<Rightarrow> time \<Rightarrow> string \<Rightarrow> string \<Rightarrow> ('d, 'r, json) svc" where
  "CreateDMChannel B now userID recipientID =
     (if recipientID = ClydeID then dmPayloadFor B now userID ClydeNetID ''Clyde''
      else
        andthen (store_get (\<lambda>d. ListMembershipsForUser B d userID)) (\<lambda>mems.
        andthen (look (\<lambda>m. find_recipient B m userID recipientID mems)) (\<lambda>r.
        case r of
          Some (netID, nick) \<Rightarrow> dmPayloadFor B now userID netID nick
        | None \<Rightarrow> refuse ErrUnknownRecipient)))"

section \<open>Mentions of a user\<close>

definition mentions_in :: "'d store \<Rightarrow> 'd \<Rightarrow> string \<Rightarrow> string \<Rightarrow> string \<Rightarrow> BufferedMessage list" where
  "mentions_in B d userID before channelID =
     filter (\<lambda>row. bm_AuthorID row \<noteq> userID
                   \<and> \<not> (before \<noteq> [] \<and> (snowflakeGreater (bm_ID row) before \<or> bm_ID row = before))
                   \<and> list_ex (\<lambda>ref. mr_ID ref = userID) (bm_Mentions row))
       (ChannelMessages B d channelID [] [] 200)"

definition MentionedMessages ::
  "'d store \<Rightarrow> 'd \<Rightarrow> string \<Rightarrow> nat \<Rightarrow> string \<Rightarrow> string \<Rightarrow> BufferedMessage list" where
  "MentionedMessages B d userID limit before guildID =
     (case ListMembershipsForUser B d userID of
        Inl _ \<Rightarrow> []
      | Inr mems \<Rightarrow>
        let nets = filter (\<lambda>n. guildID = [] \<or> guildID = ''0'' \<or> n = guildID) (map mem_NetworkID mems);
            chans = concat (map (\<lambda>n. map ch_ID (ListChannelsByNetwork B d n)) nets);
            hits = concat (map (mentions_in B d userID before) chans)
        in take limit (rev (sort_key (\<lambda>row. length (bm_ID row)) (sort_key bm_ID hits))))"

end
