(* ===== verification/Service.thy ===== *)
theory Service
  imports Guilds
begin

text \<open>
  The network service, third part: the operations that change something. Joining and leaving networks, channels and
  categories, pins and notes, avatars, and what the service does when the connection manager calls it back. The
  operations take the time, which the code reads from the clock as it goes, as one argument.
\<close>

section \<open>Joining and leaving\<close>

text \<open>The folded names that are in the list, and the list.\<close>

definition add_channel :: "string \<Rightarrow> string list \<Rightarrow> string list" where
  "add_channel ch out = (if to_lower ch \<in> set (map to_lower out) then out else out @ [ch])"

definition mergeChannels :: "string list \<Rightarrow> string list \<Rightarrow> string list \<times> bool" where
  "mergeChannels existing add =
     (let out = fold add_channel existing []; merged = fold add_channel add out
      in (merged, length merged > length out))"

definition fresh_network :: "Conn \<Rightarrow> string \<Rightarrow> string \<Rightarrow> time \<Rightarrow> Network" where
  "fresh_network conn i userID now =
     \<lparr>n_ID = i, n_ConnID = conn_ID conn, n_Name = DisplayName conn, n_Host = cs_Host conn, n_Port = cs_Port conn,
      n_TLS = cs_TLS conn, n_Password = cs_Password conn, n_SASLUser = cs_SASLUser conn, n_SASLPass = cs_SASLPass conn,
      n_ChannelKeys = cs_ChannelKeys conn, n_IconHash = [], n_IconURL = [], n_Categories = [], n_CreatedBy = userID,
      n_CreatedAt = now\<rparr>"

text \<open>What a new string changes on a known network, whether anything, and whether a credential.\<close>

definition rotate_network :: "Conn \<Rightarrow> Network \<Rightarrow> Network \<times> bool \<times> bool" where
  "rotate_network conn net =
     (let keys = fold (\<lambda>(ch, key) ks. if map_of ks ch = Some key then ks else AList.update ch key ks)
                   (cs_ChannelKeys conn) (n_ChannelKeys net);
          key_changed = list_ex (\<lambda>(ch, key). map_of (n_ChannelKeys net) ch \<noteq> Some key) (cs_ChannelKeys conn);
          net = net\<lparr>n_ChannelKeys := keys\<rparr>;
          pw = (cs_Password conn \<noteq> [] \<and> cs_Password conn \<noteq> n_Password net);
          net = (if pw then net\<lparr>n_Password := cs_Password conn\<rparr> else net);
          sasl = (cs_SASLUser conn \<noteq> [] \<and> (cs_SASLUser conn \<noteq> n_SASLUser net \<or> cs_SASLPass conn \<noteq> n_SASLPass net));
          net = (if sasl then net\<lparr>n_SASLUser := cs_SASLUser conn, n_SASLPass := cs_SASLPass conn\<rparr> else net)
      in (net, key_changed \<or> pw \<or> sasl, pw \<or> sasl))"

text \<open>The network of a connection string, with whether its credentials were rotated.\<close>

definition join_network :: "'d store \<Rightarrow> time \<Rightarrow> string \<Rightarrow> Conn \<Rightarrow> ('d, 'r, Network \<times> bool) svc" where
  "join_network B now userID conn =
     andthen (attempt (store_get (\<lambda>d. NetworkByConnID B d (conn_ID conn)))) (\<lambda>r.
     case r of
       Inl e \<Rightarrow>
         if e \<noteq> ErrNotFound then refuse e
         else
           andthen (mint_id now) (\<lambda>i.
           let net = fresh_network conn i userID now in
           andthen (store_do (\<lambda>d. UpsertNetwork B d net)) (\<lambda>_. give (net, False)))
     | Inr net \<Rightarrow>
         let (net, changed, rotated) = rotate_network conn net in
         andthen (if changed then store_do (\<lambda>d. UpsertNetwork B d net) else give ()) (\<lambda>_. give (net, rotated)))"

definition username :: "string \<Rightarrow> string" where
  "username userID = ''vb_'' @ take 9 (SHA256Hex userID)"

definition join_nick :: "'d store \<Rightarrow> ('d, 'r) Manager \<Rightarrow> string \<Rightarrow> Conn \<Rightarrow> string" where
  "join_nick B m userID conn =
     (if cs_Nick conn \<noteq> [] then cs_Nick conn
      else case GetUserByID B (m_db m) userID of
        Inr u \<Rightarrow> if u_Username u \<noteq> [] then u_Username u else username userID
      | Inl _ \<Rightarrow> username userID)"

definition join_membership :: "'d store \<Rightarrow> time \<Rightarrow> string \<Rightarrow> string \<Rightarrow> Conn \<Rightarrow> ('d, 'r, unit) svc" where
  "join_membership B now userID netID conn =
     andthen (look (\<lambda>m. join_nick B m userID conn)) (\<lambda>nick.
     andthen (attempt (store_get (\<lambda>d. GetMembership B d netID userID))) (\<lambda>r.
     case r of
       Inl e \<Rightarrow>
         if e \<noteq> ErrNotFound then refuse e
         else store_do (\<lambda>d. UpsertMembership B d
                \<lparr>mem_UserID = userID, mem_NetworkID = netID, mem_Nick = nick, mem_Username = nick, mem_Realname = nick,
                 mem_Avatar = [], mem_AvatarRejected = False, mem_AutoJoin = cs_Channels conn, mem_JoinedAt = now\<rparr>)
     | Inr mem \<Rightarrow>
         let (merged, changed) = mergeChannels (mem_AutoJoin mem) (cs_Channels conn) in
         if \<not> changed then give ()
         else
           andthen (store_do (\<lambda>d. UpsertMembership B d (mem\<lparr>mem_AutoJoin := merged\<rparr>))) (\<lambda>_.
           manager_do (fold (\<lambda>ch. JoinChannel B userID netID ch) (cs_Channels conn)))))"

definition Join :: "'d store \<Rightarrow> time \<Rightarrow> string \<Rightarrow> string \<Rightarrow> ('d, 'r, Network) svc" where
  "Join B now userID raw =
     (case Parse raw of
        Inl _ \<Rightarrow> refuse ErrBadConnString
      | Inr conn \<Rightarrow>
        andthen (join_network B now userID conn) (\<lambda>(net, rotated).
        andthen (join_membership B now userID (n_ID net) conn) (\<lambda>_.
        andthen (manager_do (\<lambda>m. if rotated then snd (RestartConn B userID (n_ID net) m)
                                 else snd (EnsureConn B userID (n_ID net) m))) (\<lambda>_.
        give net))))"

definition Leave :: "'d store \<Rightarrow> string \<Rightarrow> string \<Rightarrow> ('d, 'r, unit) svc" where
  "Leave B userID guildID =
     andthen (store_get (\<lambda>d. GetMembership B d guildID userID)) (\<lambda>_.
     andthen (store_do (\<lambda>d. DeleteMembership B d guildID userID)) (\<lambda>_.
     andthen (manager_do (Drop userID guildID)) (\<lambda>_.
     andthen (attempt (store_get (\<lambda>d. ListMemberships B d guildID))) (\<lambda>r.
     case r of
       Inr [] \<Rightarrow> store_do (\<lambda>d. DeleteNetworkCascade B d guildID)
     | _ \<Rightarrow> give ()))))"

definition RenameNetworkFor :: "'d store \<Rightarrow> time \<Rightarrow> string \<Rightarrow> string \<Rightarrow> string \<Rightarrow> ('d, 'r, Network) svc" where
  "RenameNetworkFor B now userID guildID name =
     andthen (store_get (\<lambda>d. GetMembership B d guildID userID)) (\<lambda>mem.
     andthen (store_get (\<lambda>d. GetNetwork B d guildID)) (\<lambda>net.
     let net = net\<lparr>n_Name := name\<rparr> in
     andthen (store_do (\<lambda>d. UpsertNetwork B d net)) (\<lambda>_.
     andthen (push_event userID ''GUILD_UPDATE'' (\<lambda>m. guildUpdatePayload B m mem net) now) (\<lambda>_.
     give net))))"

section \<open>Channels and categories\<close>

definition ValidateChannelName :: "string \<Rightarrow> string" where
  "ValidateChannelName raw =
     (let name = trim_space raw in
      if name = [] \<or> length name > 64 then []
      else
        let name = (if hd name \<noteq> CHR ''#'' \<and> hd name \<noteq> CHR ''&'' then ''#'' @ name else name) in
        if contains_any name [CHR '' '', CHR '','', NUL, CHR 0x0D, CHR 0x0A, CHR 0x07] then []
        else if list_ex (\<lambda>c. (of_char c :: nat) < 32 \<or> (of_char c :: nat) = 127) name then []
        else name)"

definition put_channel_key :: "'d store \<Rightarrow> string \<Rightarrow> string \<Rightarrow> string \<Rightarrow> ('d, 'r, unit) svc" where
  "put_channel_key B guildID ircName key =
     andthen (store_get (\<lambda>d. GetNetwork B d guildID)) (\<lambda>net.
     store_do (\<lambda>d. UpsertNetwork B d (net\<lparr>n_ChannelKeys := AList.update (to_lower ircName) key (n_ChannelKeys net)\<rparr>)))"

definition CreateChannel :: "'d store \<Rightarrow> time \<Rightarrow> string \<Rightarrow> string \<Rightarrow> string \<Rightarrow> ('d, 'r, json) svc" where
  "CreateChannel B now userID guildID rawName =
     andthen (store_get (\<lambda>d. GetMembership B d guildID userID)) (\<lambda>_.
     let (rawName, key) = cut_byte rawName (CHR '':''); ircName = ValidateChannelName rawName in
     if ircName = [] then refuse ErrBadChannelName
     else
       andthen (if key \<noteq> [] then put_channel_key B guildID ircName key else give ()) (\<lambda>_.
       andthen (store_do (\<lambda>d. MembershipAddChannel B d guildID userID ircName)) (\<lambda>_.
       andthen (store_mint (\<lambda>d s. EnsureChannel B d (new_id now) s guildID ircName now)) (\<lambda>ch.
       andthen (manager_do (JoinChannel B userID guildID ircName)) (\<lambda>_.
       andthen (look (\<lambda>m. json_map (channelPayload B m guildID ch 0))) (\<lambda>pl.
       andthen (push_event userID ''CHANNEL_CREATE'' (\<lambda>_. pl) now) (\<lambda>_. give pl)))))))"

definition RemoveChannel :: "'d store \<Rightarrow> time \<Rightarrow> string \<Rightarrow> string \<Rightarrow> ('d, 'r, unit) svc" where
  "RemoveChannel B now userID channelID =
     andthen (store_get (\<lambda>d. GetChannel B d channelID)) (\<lambda>ch.
     andthen (store_get (\<lambda>d. GetMembership B d (ch_NetworkID ch) userID)) (\<lambda>_.
     andthen (store_do (\<lambda>d. MembershipRemoveChannel B d (ch_NetworkID ch) userID (ch_IRCName ch))) (\<lambda>_.
     andthen (manager_do (PartChannel userID (ch_NetworkID ch) (ch_IRCName ch))) (\<lambda>_.
     push_event userID ''CHANNEL_DELETE''
       (\<lambda>_. json_map [(''id'', JStr channelID), (''guild_id'', JStr (ch_NetworkID ch))]) now))))"

definition category_name :: "string \<Rightarrow> string option" where
  "category_name name =
     (let name = trim_space name in
      if name = [] \<or> length name > 100 \<or> contains_any name [CHR 0x0D, CHR 0x0A, CHR 0x07] then None else Some name)"

definition CreateCategory :: "'d store \<Rightarrow> time \<Rightarrow> string \<Rightarrow> string \<Rightarrow> string \<Rightarrow> ('d, 'r, json) svc" where
  "CreateCategory B now userID guildID name =
     andthen (store_get (\<lambda>d. GetMembership B d guildID userID)) (\<lambda>_.
     case category_name name of
       None \<Rightarrow> refuse ErrBadChannelName
     | Some name \<Rightarrow>
       andthen (store_get (\<lambda>d. GetNetwork B d guildID)) (\<lambda>net.
       andthen (mint_id now) (\<lambda>i.
       let cat = \<lparr>cat_ID = i, cat_Name = name, cat_Position = int (length (n_Categories net))\<rparr>;
           pl = categoryPayload guildID cat in
       andthen (store_do (\<lambda>d. UpsertNetwork B d (net\<lparr>n_Categories := n_Categories net @ [cat]\<rparr>))) (\<lambda>_.
       andthen (push_event userID ''CHANNEL_CREATE'' (\<lambda>_. pl) now) (\<lambda>_. give pl)))))"

text \<open>A change to one category, which the code makes through a pointer into the network: the first with the id.\<close>

fun map_category :: "string \<Rightarrow> (Category \<Rightarrow> Category) \<Rightarrow> Category list \<Rightarrow> Category list" where
  "map_category catID f [] = []"
| "map_category catID f (c # cs) = (if cat_ID c = catID then f c # cs else c # map_category catID f cs)"

definition edit_category ::
  "'d store \<Rightarrow> time \<Rightarrow> string \<Rightarrow> string \<Rightarrow> (Category \<Rightarrow> Category) \<Rightarrow> ('d, 'r, unit) svc" where
  "edit_category B now userID catID f =
     andthen (store_get (\<lambda>d. CategoryByID B d userID catID)) (\<lambda>(net, cat).
     andthen (store_do (\<lambda>d. UpsertNetwork B d (net\<lparr>n_Categories := map_category catID f (n_Categories net)\<rparr>))) (\<lambda>_.
     push_event userID ''CHANNEL_UPDATE'' (\<lambda>_. categoryPayload (n_ID net) (f cat)) now))"

definition RenameCategory :: "'d store \<Rightarrow> time \<Rightarrow> string \<Rightarrow> string \<Rightarrow> string \<Rightarrow> ('d, 'r, unit) svc" where
  "RenameCategory B now userID catID name =
     (case category_name name of
        None \<Rightarrow> refuse ErrBadChannelName
      | Some name \<Rightarrow> edit_category B now userID catID (cat_Name_update (\<lambda>_. name)))"

definition SetCategoryPosition :: "'d store \<Rightarrow> time \<Rightarrow> string \<Rightarrow> string \<Rightarrow> int \<Rightarrow> ('d, 'r, unit) svc" where
  "SetCategoryPosition B now userID catID position =
     edit_category B now userID catID (cat_Position_update (\<lambda>_. position))"

definition auto_position :: "'d store \<Rightarrow> ('d, 'r) Manager \<Rightarrow> string \<Rightarrow> string \<Rightarrow> string \<Rightarrow> int" where
  "auto_position B m netID userID ircName =
     (case GetMembership B (m_db m) netID userID of
        Inr mem \<Rightarrow> (case fold_position ircName (mem_AutoJoin mem) of Some i \<Rightarrow> int i | None \<Rightarrow> 0)
      | Inl _ \<Rightarrow> 0)"

definition MoveChannel ::
  "'d store \<Rightarrow> time \<Rightarrow> string \<Rightarrow> string \<Rightarrow> string \<Rightarrow> int \<Rightarrow> bool \<Rightarrow> ('d, 'r, unit) svc" where
  "MoveChannel B now userID channelID parentID position setPosition =
     andthen (store_get (\<lambda>d. GetChannel B d channelID)) (\<lambda>ch.
     andthen (store_get (\<lambda>d. GetMembership B d (ch_NetworkID ch) userID)) (\<lambda>_.
     andthen (attempt (store_get (\<lambda>d. CategoryByID B d userID parentID))) (\<lambda>cat.
     if parentID \<noteq> [] \<and> (case cat of Inl _ \<Rightarrow> True | Inr (net, _) \<Rightarrow> n_ID net \<noteq> ch_NetworkID ch) then refuse ErrBadChannelName
     else
       andthen (store_do (\<lambda>d. SetChannelGrouping B d channelID parentID position setPosition)) (\<lambda>_.
       andthen (attempt (store_get (\<lambda>d. GetChannel B d channelID))) (\<lambda>r.
       case r of
         Inl _ \<Rightarrow> give ()
       | Inr updated \<Rightarrow>
         push_event userID ''CHANNEL_UPDATE''
           (\<lambda>m. json_map (channelPayload B m (ch_NetworkID ch) updated
                  (if setPosition then position else auto_position B m (ch_NetworkID ch) userID (ch_IRCName ch)))) now)))))"

text \<open>The update of a child carries the channel as it was listed, before it was ungrouped.\<close>

definition ungroup_child :: "'d store \<Rightarrow> time \<Rightarrow> string \<Rightarrow> string \<Rightarrow> string \<Rightarrow> Channel \<Rightarrow> ('d, 'r, unit) svc" where
  "ungroup_child B now userID netID catID ch =
     (if ch_ParentID ch \<noteq> catID then give ()
      else
        andthen (store_do (\<lambda>d. SetChannelGrouping B d (ch_ID ch) [] 0 False)) (\<lambda>_.
        push_event userID ''CHANNEL_UPDATE''
          (\<lambda>m. json_map (channelPayload B m netID ch (auto_position B m netID userID (ch_IRCName ch)))) now))"

definition RemoveCategory :: "'d store \<Rightarrow> time \<Rightarrow> string \<Rightarrow> string \<Rightarrow> ('d, 'r, unit) svc" where
  "RemoveCategory B now userID catID =
     andthen (store_get (\<lambda>d. CategoryByID B d userID catID)) (\<lambda>(net, _).
     andthen (store_get (\<lambda>d. GetMembership B d (n_ID net) userID)) (\<lambda>_.
     andthen (look (\<lambda>m. ListChannelsByNetwork B (m_db m) (n_ID net))) (\<lambda>children.
     andthen (each (ungroup_child B now userID (n_ID net) catID) children) (\<lambda>_.
     andthen (store_do (\<lambda>d. UpsertNetwork B d
                (net\<lparr>n_Categories := filter (\<lambda>c. cat_ID c \<noteq> catID) (n_Categories net)\<rparr>))) (\<lambda>_.
     push_event userID ''CHANNEL_DELETE''
       (\<lambda>_. json_map [(''id'', JStr catID), (''guild_id'', JStr (n_ID net)), (''type'', JInt 4)]) now)))))"

definition StartTyping ::
  "'d store \<Rightarrow> string \<Rightarrow> string \<Rightarrow> ('d, 'r) Manager \<Rightarrow> (err + mgr_err option) \<times> ('d, 'r) Manager" where
  "StartTyping B userID channelID m =
     (case GetChannel B (m_db m) channelID of
        Inr ch \<Rightarrow> (case SendTyping userID (ch_NetworkID ch) (ch_IRCName ch) m of (r, m) \<Rightarrow> (Inr r, m))
      | Inl _ \<Rightarrow>
        (case GetDMChannel B (m_db m) channelID of
           Inr dm \<Rightarrow> (case SendTyping userID (dm_NetworkID dm) (dm_Nick dm) m of (r, m) \<Rightarrow> (Inr r, m))
         | Inl _ \<Rightarrow> (Inl ErrUnknownRecipient, m)))"

text \<open>The anchor that \<open>FetchOlderMessages\<close> takes for a round: the deepest message it knows.\<close>

definition older_anchor :: "'d store \<Rightarrow> 'd \<Rightarrow> string \<Rightarrow> time \<Rightarrow> string \<times> string \<times> time" where
  "older_anchor B d channelID cursor =
     (case ChannelMessages B d channelID [] [] MsgBufferCap of
        [] \<Rightarrow> ([], [], cursor)
      | row # rows \<Rightarrow>
        let f = last (row # rows)
        in (bm_MsgID f, bm_ID f,
            case parse_rfc3339_nano (bm_Timestamp f) of Some t \<Rightarrow> if t < cursor then t else cursor | None \<Rightarrow> cursor))"

section \<open>Pins and notes\<close>

definition SetUserNote :: "'d store \<Rightarrow> time \<Rightarrow> string \<Rightarrow> string \<Rightarrow> string \<Rightarrow> ('d, 'r, unit) svc" where
  "SetUserNote B now userID targetID note =
     andthen (store_do (\<lambda>d. PutUserNote B d userID targetID note)) (\<lambda>_.
     push_event userID ''USER_NOTE_UPDATE'' (\<lambda>_. json_map [(''id'', JStr targetID), (''note'', JStr note)]) now)"

definition ChannelPins :: "'d store \<Rightarrow> ('d, 'r) Manager \<Rightarrow> string \<Rightarrow> PinnedMessage list" where
  "ChannelPins B m channelID = (case ListPins B (m_db m) channelID of Inr pins \<Rightarrow> pins | Inl _ \<Rightarrow> [])"

definition PinCount :: "'d store \<Rightarrow> ('d, 'r) Manager \<Rightarrow> string \<Rightarrow> nat" where
  "PinCount B m channelID = length (ChannelPins B m channelID)"

definition reply_bar :: "BufferedMessage \<Rightarrow> payload option \<Rightarrow> payload \<Rightarrow> payload" where
  "reply_bar row inner pl =
     (if bm_ReplyTo row = [] then pl
      else
        let pl = AList.update ''message_reference'' (json_map [(''type'', JInt 0), (''message_id'', JStr (bm_ReplyTo row)),
                   (''channel_id'', JStr (bm_ChannelID row))]) (AList.update ''type'' (JInt 19) pl)
        in (case inner of Some p \<Rightarrow> AList.update ''referenced_message'' (json_map p) pl | None \<Rightarrow> pl))"

definition row_extras :: "string \<Rightarrow> BufferedMessage \<Rightarrow> payload \<Rightarrow> payload" where
  "row_extras userID row pl =
     (let pl = (if bm_Type row \<noteq> 0 then AList.update ''type'' (JInt (bm_Type row)) pl else pl);
          pl = (if bm_Mentions row \<noteq> [] then
                  AList.update ''mentions'' (JArr (map (\<lambda>mu. json_map [(''id'', JStr (mr_ID mu)), (''username'', JStr (mr_Nick mu)),
                     (''discriminator'', JStr ''0''), (''bot'', JBool False)]) (bm_Mentions row))) pl
                else pl);
          pl = (if bm_Reactions row \<noteq> [] then AList.update ''reactions'' (JArr (reactionsPayload (bm_Reactions row) userID)) pl else pl);
          pl = (if bm_Attachments row \<noteq> [] then AList.update ''attachments'' (JArr (bm_Attachments row)) pl else pl)
      in (if bm_Embeds row \<noteq> [] then AList.update ''embeds'' (JArr (bm_Embeds row)) pl else pl))"

definition message_update :: "'d store \<Rightarrow> ('d, 'r) Manager \<Rightarrow> string \<Rightarrow> BufferedMessage \<Rightarrow> bool \<Rightarrow> payload option \<Rightarrow> payload" where
  "message_update B m userID row pinned inner =
     (let bio = AuthorBio B m userID (bm_ChannelID row) (bm_AuthorID row);
          author = [(''id'', JStr (IrcAuthorID (bm_AuthorID row))), (''username'', JStr (bm_AuthorName row)),
                    (''discriminator'', JStr ''0''), (''bot'', JBool False),
                    (''avatar'', AuthorAvatar B m userID (bm_ChannelID row) (bm_AuthorID row))]
                   @ (if bio \<noteq> [] then [(''bio'', JStr bio)] else []);
          pl = AList.update ''pinned'' (JBool pinned)
                 (message_base (bm_ID row) (bm_ChannelID row) (bm_Content row) (bm_Timestamp row) (bm_Nonce row) (json_map author))
      in row_extras userID row (reply_bar row inner pl))"

definition messageUpdateFromRow :: "'d store \<Rightarrow> ('d, 'r) Manager \<Rightarrow> string \<Rightarrow> BufferedMessage \<Rightarrow> bool \<Rightarrow> json" where
  "messageUpdateFromRow B m userID row pinned =
     json_map (message_update B m userID row pinned
       (case MessageByID B (m_db m) (bm_ChannelID row) (bm_ReplyTo row) of
          Some ref \<Rightarrow>
            Some (AList.delete ''message_reference''
                    (AList.delete ''referenced_message'' (message_update B m userID ref False None)))
        | None \<Rightarrow> None))"

definition dispatchPinSystemMessage :: "'d store \<Rightarrow> time \<Rightarrow> string \<Rightarrow> string \<Rightarrow> string \<Rightarrow> ('d, 'r, unit) svc" where
  "dispatchPinSystemMessage B now userID channelID messageID =
     andthen (look (\<lambda>m. case GetUserByID B (m_db m) userID of Inr u \<Rightarrow> u_Username u | Inl _ \<Rightarrow> userID)) (\<lambda>name.
     andthen (mint_id now) (\<lambda>rowID.
     andthen (attempt (store_do (\<lambda>d. AppendMessage B d
        \<lparr>bm_ID = rowID, bm_ChannelID = channelID, bm_AuthorID = userID, bm_AuthorName = name, bm_Content = [],
         bm_Nonce = JNull, bm_Timestamp = rfc3339 now, bm_Type = 6, bm_MsgID = [], bm_ReplyTo = [], bm_Reactions = [],
         bm_Attachments = [], bm_Embeds = [], bm_Mentions = []\<rparr>))) (\<lambda>_.
     push_event userID ''MESSAGE_CREATE'' (\<lambda>m. json_map
       (AList.update ''message_reference'' (json_map [(''type'', JInt 0), (''message_id'', JStr messageID),
             (''channel_id'', JStr channelID)])
         (AList.update ''type'' (JInt 6)
           (message_base rowID channelID [] (rfc3339 now) JNull
             (json_map [(''id'', JStr userID), (''username'', JStr name), (''discriminator'', JStr ''0''),
                (''bot'', JBool False), (''avatar'', globalAvatarValue B m userID)]))))) now)))"

definition pin_update :: "'d store \<Rightarrow> ('d, 'r) Manager \<Rightarrow> string \<Rightarrow> string \<Rightarrow> string \<Rightarrow> bool \<Rightarrow> json" where
  "pin_update B m userID channelID messageID pinned =
     (case MessageByID B (m_db m) channelID messageID of
        Some row \<Rightarrow> messageUpdateFromRow B m userID row pinned
      | None \<Rightarrow> json_map [(''id'', JStr messageID), (''channel_id'', JStr channelID), (''pinned'', JBool pinned)])"

definition pins_badge :: "'d store \<Rightarrow> ('d, 'r) Manager \<Rightarrow> string \<Rightarrow> json" where
  "pins_badge B m channelID =
     json_map [(''channel_id'', JStr channelID), (''guild_id'', JStr (ChannelNetworkID B m channelID)),
       (''last_pin_timestamp'', case ChannelPins B m channelID of [] \<Rightarrow> JNull | p # ps \<Rightarrow> JStr (rfc3339 (pin_At (last (p # ps)))))]"

definition SetChannelPin :: "'d store \<Rightarrow> time \<Rightarrow> string \<Rightarrow> string \<Rightarrow> string \<Rightarrow> bool \<Rightarrow> ('d, 'r, unit) svc" where
  "SetChannelPin B now userID channelID messageID pinned =
     andthen (look (\<lambda>m. list_ex (\<lambda>p. pin_ID p = messageID) (ChannelPins B m channelID))) (\<lambda>already.
     if pinned \<and> already then give ()
     else
       andthen (store_do (\<lambda>d. if pinned then PutPin B d channelID messageID now else DeletePin B d channelID messageID)) (\<lambda>_.
       andthen (push_event userID ''MESSAGE_UPDATE'' (\<lambda>m. pin_update B m userID channelID messageID pinned) now) (\<lambda>_.
       andthen (push_event userID ''CHANNEL_PINS_UPDATE'' (\<lambda>m. pins_badge B m channelID) now) (\<lambda>_.
       if pinned then dispatchPinSystemMessage B now userID channelID messageID else give ()))))"

section \<open>Avatars and icons\<close>

definition push_member :: "'d store \<Rightarrow> time \<Rightarrow> string \<Rightarrow> string \<Rightarrow> (('d, 'r) Manager \<Rightarrow> string) \<Rightarrow> ('d, 'r, unit) svc" where
  "push_member B now userID networkID nick =
     andthen (look (\<lambda>m. MemberPayload B m userID networkID (nick m))) (\<lambda>r.
     case r of
       None \<Rightarrow> give ()
     | Some pl \<Rightarrow> push_event userID ''GUILD_MEMBER_UPDATE'' (\<lambda>_. pl) now)"

definition RefreshMember :: "'d store \<Rightarrow> time \<Rightarrow> string \<Rightarrow> string \<Rightarrow> string \<Rightarrow> ('d, 'r, unit) svc" where
  "RefreshMember B now userID guildID nick = push_member B now userID guildID (\<lambda>_. nick)"

text \<open>The hash of an uploaded avatar, empty when it is cleared.\<close>

definition store_avatar :: "'d store \<Rightarrow> time \<Rightarrow> string \<Rightarrow> ('d, 'r, string) svc" where
  "store_avatar B now dataURI =
     (if dataURI = [] then give []
      else case decodeAvatarDataURI dataURI of
        Inl e \<Rightarrow> refuse e
      | Inr (ct, data) \<Rightarrow> store_do (\<lambda>d. PutAvatar B d data ct (now div 1000000000)))"

definition user_memberships :: "'d store \<Rightarrow> string \<Rightarrow> ('d, 'r, Membership list) svc" where
  "user_memberships B userID =
     look (\<lambda>m. case ListMembershipsForUser B (m_db m) userID of Inr mems \<Rightarrow> mems | Inl _ \<Rightarrow> [])"

definition SetGlobalAvatar :: "'d store \<Rightarrow> string \<Rightarrow> time \<Rightarrow> string \<Rightarrow> string \<Rightarrow> ('d, 'r, User) svc" where
  "SetGlobalAvatar B publicURL now userID dataURI =
     andthen (look (\<lambda>m. case GetUserByID B (m_db m) userID of Inr u \<Rightarrow> u_Avatar u | Inl _ \<Rightarrow> [])) (\<lambda>prev.
     andthen (store_avatar B now dataURI) (\<lambda>hash.
     andthen (store_do (\<lambda>d. SetUserAvatar B d userID hash)) (\<lambda>_.
     andthen (store_get (\<lambda>d. GetUserByID B d userID)) (\<lambda>u.
     andthen (push_event userID ''USER_UPDATE'' (\<lambda>_. ToUser u) now) (\<lambda>_.
     andthen (user_memberships B userID) (\<lambda>mems.
     andthen (each (\<lambda>mem. push_member B now userID (mem_NetworkID mem)
                      (\<lambda>m. liveNickFor m userID (mem_NetworkID mem) (mem_Nick mem))) mems) (\<lambda>_.
     andthen (user_memberships B userID) (\<lambda>mems.
     andthen (each (\<lambda>mem. andthen (attempt (store_do (\<lambda>d.
                 if mem_AvatarRejected mem then SetMembershipAvatarRejected B d (mem_NetworkID mem) userID False
                 else (Inr (), d)))) (\<lambda>_. give ())) mems) (\<lambda>_.
     andthen (manager_do (SetAvatarAll userID (avatarURL publicURL userID hash) prev)) (\<lambda>_.
     give u))))))))))"

definition MarkAvatarRejected :: "'d store \<Rightarrow> time \<Rightarrow> string \<Rightarrow> string \<Rightarrow> ('d, 'r, unit) svc" where
  "MarkAvatarRejected B now userID networkID =
     andthen (attempt (store_do (\<lambda>d. SetMembershipAvatarRejected B d networkID userID True))) (\<lambda>r.
     case r of
       Inl _ \<Rightarrow> give ()
     | Inr _ \<Rightarrow>
       andthen (attempt (store_get (\<lambda>d. GetMembership B d networkID userID))) (\<lambda>r.
       case r of
         Inl _ \<Rightarrow> give ()
       | Inr mem \<Rightarrow> push_member B now userID networkID (\<lambda>m. liveNickFor m userID networkID (mem_Nick mem))))"

definition RevertNetworkAvatar :: "'d store \<Rightarrow> time \<Rightarrow> string \<Rightarrow> string \<Rightarrow> string \<Rightarrow> ('d, 'r, unit) svc" where
  "RevertNetworkAvatar B now userID networkID prevHash =
     andthen (attempt (store_do (\<lambda>d. SetMembershipAvatar B d networkID userID prevHash))) (\<lambda>r.
     case r of
       Inl _ \<Rightarrow> give ()
     | Inr _ \<Rightarrow> push_member B now userID networkID (\<lambda>m. liveNickFor m userID networkID []))"

definition SetNetworkAvatar :: "'d store \<Rightarrow> string \<Rightarrow> time \<Rightarrow> string \<Rightarrow> string \<Rightarrow> string \<Rightarrow> ('d, 'r, unit) svc" where
  "SetNetworkAvatar B publicURL now userID guildID dataURI =
     andthen (store_get (\<lambda>d. GetMembership B d guildID userID)) (\<lambda>mem.
     andthen (store_avatar B now dataURI) (\<lambda>hash.
     andthen (store_do (\<lambda>d. SetMembershipAvatar B d (mem_NetworkID mem) userID hash)) (\<lambda>_.
     andthen (look (\<lambda>m. liveNickFor m userID (mem_NetworkID mem) (mem_Nick mem))) (\<lambda>nick.
     andthen (manager_do (SetAvatar userID (mem_NetworkID mem) (avatarURL publicURL userID hash) (mem_Avatar mem))) (\<lambda>_.
     push_member B now userID guildID (\<lambda>_. nick))))))"

definition RefreshPeerAvatar :: "'d store \<Rightarrow> time \<Rightarrow> string \<Rightarrow> string \<Rightarrow> string \<Rightarrow> ('d, 'r, unit) svc" where
  "RefreshPeerAvatar B now userID networkID nick =
     andthen (attempt (store_get (\<lambda>d. GetMembership B d networkID userID))) (\<lambda>r.
     case r of
       Inl _ \<Rightarrow> give ()
     | Inr mem \<Rightarrow>
       push_event userID ''GUILD_MEMBER_UPDATE'' (\<lambda>m.
         let mode = (case List.find (\<lambda>cm. equal_fold (cm_Nick cm) nick) (ircOccupants m userID networkID (mem_AutoJoin mem)) of
                       Some cm \<Rightarrow> cm_Mode cm | None \<Rightarrow> [])
         in json_map [(''guild_id'', JStr networkID),
              (''user'', json_map [(''id'', JStr (IrcAuthorID (''irc:'' @ nick))), (''username'', JStr nick),
                 (''discriminator'', JStr ''0''), (''bot'', JBool (PeerBot B (m_db m) userID networkID nick)),
                 (''avatar'', peerAvatarValue B m userID networkID nick)]),
              (''roles'', JArr (memberRoleIDs B m userID networkID mode nick)), (''joined_at'', JStr (rfc3339 (mem_JoinedAt mem)))]) now)"

fun sized_url :: "string \<Rightarrow> string" where
  "sized_url [] = []"
| "sized_url (c # s) =
     (if has_prefix (c # s) ''{size}'' then ''128'' @ sized_url (drop 5 s) else c # sized_url s)"

text \<open>The icon of a network: \<open>fetch\<close> is the web, which answers with a content type and at most 4 MB of data or not at
  all. The result says whether the icon is mirrored.\<close>

definition mirror_icon ::
  "'d store \<Rightarrow> time \<Rightarrow> string \<Rightarrow> string \<Rightarrow> Network \<Rightarrow> string \<Rightarrow> string \<Rightarrow> string \<Rightarrow> ('d, 'r, unit) svc" where
  "mirror_icon B now userID networkID net iconURL ct data =
     (let ct = (if ct = [] \<or> has_prefix ct ''text/'' then ''image/png'' else ct) in
      andthen (store_do (\<lambda>d. PutAvatar B d data ct (now div 1000000000))) (\<lambda>hash.
      andthen (store_do (\<lambda>d. SetNetworkIcon B d networkID hash iconURL)) (\<lambda>_.
      andthen (look (\<lambda>m. case GetNetwork B (m_db m) networkID of
                 Inr n \<Rightarrow> n | Inl _ \<Rightarrow> net\<lparr>n_IconHash := hash, n_IconURL := iconURL\<rparr>)) (\<lambda>updated.
      andthen (attempt (store_get (\<lambda>d. GetMembership B d networkID userID))) (\<lambda>r.
      case r of
        Inl _ \<Rightarrow> give ()
      | Inr mem \<Rightarrow> push_event userID ''GUILD_UPDATE'' (\<lambda>m. guildUpdatePayload B m mem updated) now)))))"

definition OnNetworkIcon ::
  "'d store \<Rightarrow> (string \<Rightarrow> (string \<times> string) option) \<Rightarrow> time \<Rightarrow> string \<Rightarrow> string \<Rightarrow> string \<Rightarrow>
     ('d, 'r) Manager \<Rightarrow> (bool \<times> ('d, 'r) Manager) option" where
  "OnNetworkIcon B fetch now userID networkID iconURL m =
     (case GetNetwork B (m_db m) networkID of
        Inl _ \<Rightarrow> Some (False, m)
      | Inr net \<Rightarrow>
        if n_IconURL net = iconURL \<and> n_IconHash net \<noteq> [] then Some (True, m)
        else case fetch (sized_url iconURL) of
          None \<Rightarrow> Some (False, m)
        | Some (ct, data) \<Rightarrow>
          map_option (\<lambda>(r, m). (case r of Inr _ \<Rightarrow> True | Inl _ \<Rightarrow> False, m))
            (mirror_icon B now userID networkID net iconURL ct data m))"

section \<open>Callbacks of the connection manager\<close>

definition OnLinkChange :: "'d store \<Rightarrow> time \<Rightarrow> string \<Rightarrow> string \<Rightarrow> bool \<Rightarrow> ('d, 'r, unit) svc" where
  "OnLinkChange B now userID networkID up =
     (if up then
        andthen (attempt (store_get (\<lambda>d. tryb (GetMembership B d networkID userID) (\<lambda>mem.
                   tryb (GetNetwork B d networkID) (\<lambda>net. Inr (mem, net)))))) (\<lambda>r.
        case r of
          Inl _ \<Rightarrow> give ()
        | Inr (mem, net) \<Rightarrow>
          andthen (buildGuild B now mem net) (\<lambda>g. push_event userID ''GUILD_CREATE'' (\<lambda>_. g) now))
      else
        push_event userID ''GUILD_UNAVAILABLE''
          (\<lambda>_. json_map [(''guild_id'', JStr networkID), (''unavailable'', JBool True)]) now)"

text \<open>The pending refreshes of member lists, by user and network. A timer runs for every entry.\<close>

record occPending =
  occ_all :: bool
  occ_chans :: "string list"

definition RefreshOccupancy ::
  "string \<Rightarrow> string \<Rightarrow> string \<Rightarrow> (string \<times> occPending) list \<Rightarrow> (string \<times> occPending) list" where
  "RefreshOccupancy userID guildID ircChannel occ =
     (let k = userID @ NUL # guildID;
          p = (case map_of occ k of Some p \<Rightarrow> p | None \<Rightarrow> \<lparr>occ_all = False, occ_chans = []\<rparr>);
          p = (if ircChannel = [] then p\<lparr>occ_all := True\<rparr>
               else if \<not> occ_all p then p\<lparr>occ_chans := to_lower ircChannel # occ_chans p\<rparr> else p)
      in AList.update k p occ)"

definition spec_dirty :: "'d store \<Rightarrow> ('d, 'r) Manager \<Rightarrow> occPending \<Rightarrow> string \<Rightarrow> bool" where
  "spec_dirty B m p channelID =
     (occ_all p \<or> channelID = []
      \<or> (case GetChannel B (m_db m) channelID of Inr ch \<Rightarrow> to_lower (ch_IRCName ch) \<in> set (occ_chans p) | Inl _ \<Rightarrow> False))"

definition flush_spec :: "'d store \<Rightarrow> time \<Rightarrow> string \<Rightarrow> string \<Rightarrow> occPending \<Rightarrow> string \<times> string \<Rightarrow> ('d, 'r, unit) svc" where
  "flush_spec B now userID guildID p = (\<lambda>(guild, channelID).
     if guild \<noteq> guildID then give ()
     else
       andthen (look (\<lambda>m. if spec_dirty B m p channelID then MemberListPayload B m userID guildID channelID else None)) (\<lambda>r.
       case r of
         None \<Rightarrow> give ()
       | Some pl \<Rightarrow> push_event userID ''GUILD_MEMBER_LIST_UPDATE'' (\<lambda>_. pl) now))"

definition flushOccupancy ::
  "'d store \<Rightarrow> time \<Rightarrow> string \<Rightarrow> string \<Rightarrow> (string \<times> occPending) list \<Rightarrow> ('d, 'r, (string \<times> occPending) list) svc" where
  "flushOccupancy B now userID guildID occ =
     (let k = userID @ NUL # guildID in
      case map_of occ k of
        None \<Rightarrow> give occ
      | Some p \<Rightarrow>
        andthen (look (\<lambda>m. RequestedMemberLists (m_gw m) userID)) (\<lambda>specs.
        andthen (each (flush_spec B now userID guildID p) specs) (\<lambda>_. give (AList.delete k occ))))"

text \<open>The callbacks as \<open>cmd/voidbar\<close> installs them. \<open>RefreshOccupancy\<close> only marks its own table, so it does nothing to the
  state of the manager; the timer that it starts is \<open>flushOccupancy\<close>.\<close>

definition service_hooks :: "'d store \<Rightarrow> (string \<Rightarrow> (string \<times> string) option) \<Rightarrow> time \<Rightarrow> ('d, 'r) hooks" where
  "service_hooks B fetch now =
     \<lparr>h_occupancy = Some (\<lambda>u n ch m. Some m),
      h_linkChange = Some (\<lambda>u n up m. map_option snd (OnLinkChange B now u n up m)),
      h_memberChange = Some (\<lambda>u n nick m. map_option snd (RefreshMember B now u n nick m)),
      h_iconChange = Some (\<lambda>u n url m. OnNetworkIcon B fetch now u n url m),
      h_mentionRelay = Some (\<lambda>u ch m. Some (snd (on_db (\<lambda>d. ((), OnMentionRelayed B u ch d)) m))),
      h_peerAvatar = Some (\<lambda>u n nick m. map_option snd (RefreshPeerAvatar B now u n nick m)),
      h_peerFacts = Some (\<lambda>u n nick m. map_option snd (RefreshPeerAvatar B now u n nick m)),
      h_avatarFail = Some (\<lambda>u n prev global m. map_option snd
        (if global then MarkAvatarRejected B now u n m else RevertNetworkAvatar B now u n prev m))\<rparr>"

end
