(* ===== verification/ServiceSafety.thy ===== *)
theory ServiceSafety
  imports Service Relayed
begin

text \<open>
  The network service brings nothing down either: every operation, on a well-formed state, returns and keeps the state
  well formed. So the callbacks that the service installs are hooks that the handling of events may call, and the
  bouncer as \<open>cmd/voidbar\<close> wires it survives every event.
\<close>

definition sound :: "('d, 'r, 'a) svc \<Rightarrow> bool" where
  "sound f \<longleftrightarrow> (\<forall>m. mgr_wf m \<longrightarrow> stays2 (f m))"

named_theorems sounds

lemma soundI: "(\<And>m. mgr_wf m \<Longrightarrow> stays2 (f m)) \<Longrightarrow> sound f"
  by (simp add: sound_def)

lemma sound_give [sounds]: "sound (give x)"
  and sound_refuse [sounds]: "sound (refuse e)"
  and sound_look [sounds]: "sound (look g)"
  and sound_store_get [sounds]: "sound (store_get q)"
  by (simp_all add: sound_def give_def refuse_def look_def store_get_def)

lemma sound_store_do [sounds]: "sound (store_do q)"
  and sound_store_mint [sounds]: "sound (store_mint p)"
  by (auto simp: sound_def stays2_def store_do_def store_mint_def split_beta)

lemma sound_mint_id [sounds]: "sound (mint_id now)"
  by (auto simp: sound_def stays2_def mint_id_def split_beta)

lemma sound_manager_do [sounds]: "(\<And>m. mgr_wf m \<Longrightarrow> mgr_wf (f m)) \<Longrightarrow> sound (manager_do f)"
  by (simp add: sound_def manager_do_def)

lemma sound_push_event [sounds]:
  fixes pl :: "('d, 'r) Manager \<Rightarrow> json"
  shows "sound (push_event u t pl now)"
proof (rule soundI)
  fix m :: "('d, 'r) Manager"
  assume "mgr_wf m"
  then have "stays (gw_dispatch u t (pl m) now m)" by (rule gw_dispatch_stays)
  then show "stays2 (push_event u t pl now m)" by (cases "gw_dispatch u t (pl m) now m") (auto simp: push_event_def stays_def)
qed

lemma sound_andthen [sounds]:
  fixes f :: "('d, 'r, 'a) svc"
  assumes "sound f" "\<And>x. sound (g x)"
  shows "sound (andthen f g)"
proof (rule soundI)
  fix m :: "('d, 'r) Manager"
  assume "mgr_wf m"
  then have "stays2 (f m)" using assms(1) by (simp add: sound_def)
  then obtain r m' where "f m = Some (r, m')" "mgr_wf m'" by (auto simp: stays2_def split: option.splits)
  then show "stays2 (andthen f g m)" using assms(2) by (cases r) (auto simp: andthen_def sound_def)
qed

lemma sound_attempt [sounds]: "sound f \<Longrightarrow> sound (attempt f)"
  by (fastforce simp: sound_def attempt_def stays2_def split: option.splits)

lemma sound_each [sounds]: "(\<And>x. sound (f x)) \<Longrightarrow> sound (each f xs)"
  by (induction xs) (auto intro!: sounds)

section \<open>The operations\<close>

lemma fold_JoinChannel_wf: "mgr_wf m \<Longrightarrow> mgr_wf (fold (\<lambda>ch. JoinChannel B u n ch) chs m)"
  by (induction chs arbitrary: m) (auto simp: keeps)


lemma sound_buildGuild [sounds]: "sound (buildGuild B now mem net)"
  unfolding buildGuild_def by (intro sounds)

lemma sound_guild_create [sounds]: "sound (guild_create_each B now mems)"
  by (induction mems) (auto intro!: sounds split: sum.split)

lemma sound_dmPayloadFor [sounds]: "sound (dmPayloadFor B now u n nick)"
  unfolding dmPayloadFor_def by (intro sounds)

lemma sound_payloads [sounds]:
  "sound (GuildCreatePayloads B now u)" "sound (GuildChannelsPayload B now g autoJoin)" "sound (CreateDMChannel B now u r)"
  unfolding GuildCreatePayloads_def GuildChannelsPayload_def CreateDMChannel_def
  by (auto intro!: sounds split: sum.split option.split)

lemma sound_join_network [sounds]: "sound (join_network B now u conn)"
  unfolding join_network_def by (auto intro!: sounds simp: Let_def split: sum.split prod.split)

lemma sound_join_membership [sounds]: "sound (join_membership B now u n conn)"
  unfolding join_membership_def by (auto intro!: sounds fold_JoinChannel_wf split: sum.split prod.split)

lemma restart_wf: "mgr_wf m \<Longrightarrow> mgr_wf (snd (RestartConn B u n m))" "mgr_wf m \<Longrightarrow> mgr_wf (Drop u n m)"
  by (auto simp: RestartConn_def Drop_def intro!: keeps)

lemma sound_networks [sounds]:
  "sound (Join B now u raw)" "sound (Leave B u g)" "sound (RenameNetworkFor B now u g name)"
  unfolding Join_def Leave_def RenameNetworkFor_def
  by (auto intro!: sounds keeps restart_wf simp: Let_def split: sum.split prod.split list.split)

lemma sound_put_channel_key [sounds]: "sound (put_channel_key B g irc key)"
  unfolding put_channel_key_def by (intro sounds)

lemma sound_channels [sounds]:
  "sound (CreateChannel B now u g raw)" "sound (RemoveChannel B now u ch)" "sound (MoveChannel B now u ch parent pos setPos)"
  unfolding CreateChannel_def RemoveChannel_def MoveChannel_def
  by (auto intro!: sounds keeps simp: Let_def split: sum.split prod.split)

lemma sound_edit_category [sounds]: "sound (edit_category B now u cat f)"
  unfolding edit_category_def by (auto intro!: sounds)

lemma sound_ungroup_child [sounds]: "sound (ungroup_child B now u n cat ch)"
  unfolding ungroup_child_def by (auto intro!: sounds)

lemma sound_categories [sounds]:
  "sound (CreateCategory B now u g name)" "sound (RenameCategory B now u cat name)"
  "sound (SetCategoryPosition B now u cat pos)" "sound (RemoveCategory B now u cat)"
  unfolding CreateCategory_def RenameCategory_def SetCategoryPosition_def RemoveCategory_def
  by (auto intro!: sounds simp: Let_def split: option.split prod.split)

lemma sound_pin_message [sounds]: "sound (dispatchPinSystemMessage B now u ch i)"
  unfolding dispatchPinSystemMessage_def by (intro sounds)

lemma sound_notes [sounds]: "sound (SetUserNote B now u t note)" "sound (SetChannelPin B now u ch i pinned)"
  unfolding SetUserNote_def SetChannelPin_def by (auto intro!: sounds)

lemma sound_push_member [sounds]: "sound (push_member B now u n nick)"
  unfolding push_member_def by (auto intro!: sounds split: option.split)

lemma sound_store_avatar [sounds]: "sound (store_avatar B now uri)"
  unfolding store_avatar_def by (auto intro!: sounds split: sum.split)

lemma sound_user_memberships [sounds]: "sound (user_memberships B u)"
  unfolding user_memberships_def by (rule sounds)

lemma SetAvatar_wf [keeps]: "mgr_wf m \<Longrightarrow> mgr_wf (SetAvatar u n url prev m)"
  by (auto simp: SetAvatar_def sendMetadataSet_wf split: option.split)

lemma sound_avatars [sounds]:
  "sound (SetGlobalAvatar B url now u uri)" "sound (SetNetworkAvatar B url now u g uri)"
  "sound (MarkAvatarRejected B now u n)" "sound (RevertNetworkAvatar B now u n prev)" "sound (RefreshPeerAvatar B now u n nick)"
  "sound (RefreshMember B now u n nick)"
  unfolding SetGlobalAvatar_def SetNetworkAvatar_def MarkAvatarRejected_def RevertNetworkAvatar_def RefreshPeerAvatar_def
    RefreshMember_def
  by (auto intro!: sounds keeps split: sum.split)

lemma sound_mirror_icon [sounds]: "sound (mirror_icon B now u n net url ct data)"
  unfolding mirror_icon_def by (auto intro!: sounds simp: Let_def split: sum.split)

lemma OnNetworkIcon_stays: "mgr_wf m \<Longrightarrow> stays2 (OnNetworkIcon B fetch now u n url m)"
proof -
  assume wf: "mgr_wf m"
  have "stays2 (map_option (\<lambda>(r, m). (q r, m)) (mirror_icon B now u n net url ct data m))" for q :: "err + unit \<Rightarrow> bool" and net ct data
    using sound_mirror_icon [of B now u n net url ct data] wf
    by (cases "mirror_icon B now u n net url ct data m") (auto simp: sound_def stays2_def)
  then show ?thesis using wf by (simp add: OnNetworkIcon_def split: sum.split option.split)
qed

lemma sound_OnLinkChange [sounds]: "sound (OnLinkChange B now u n up)"
  unfolding OnLinkChange_def by (auto intro!: sounds split: sum.split)

lemma sound_flush_spec [sounds]: "sound (flush_spec B now u g p spec)"
  unfolding flush_spec_def by (auto intro!: sounds split: prod.split option.split)

lemma sound_flushOccupancy [sounds]: "sound (flushOccupancy B now u g occ)"
  unfolding flushOccupancy_def by (auto intro!: sounds simp: Let_def split: option.split)

section \<open>The bouncer as it is wired\<close>

lemma sound_stays: "sound f \<Longrightarrow> mgr_wf m \<Longrightarrow> stays (map_option snd (f m))"
  by (simp add: sound_def stays2_map)

lemma service_hooks_wf: "hooks_wf (service_hooks B fetch now)"
  by (auto simp: hooks_wf_def service_hooks_def intro!: sound_stays sounds OnNetworkIcon_stays)

text \<open>What can happen to the bouncer: a step of the connection manager with the service's callbacks at any time, or a
  request that the service answers.\<close>

inductive bouncer_step ::
  "'d store \<Rightarrow> env \<Rightarrow> (string \<Rightarrow> (string \<times> string) option) \<Rightarrow> ('d, 'r) Manager \<Rightarrow> ('d, 'r) Manager \<Rightarrow> bool"
  for B :: "'d store" and e :: env and fetch
where
  Managed: "mgr_step B e (service_hooks B fetch now) m m' \<Longrightarrow> bouncer_step B e fetch m m'"
| Joined: "Join B now u raw m = Some (r, m') \<Longrightarrow> bouncer_step B e fetch m m'"
| Left: "Leave B u g m = Some (r, m') \<Longrightarrow> bouncer_step B e fetch m m'"
| Renamed: "RenameNetworkFor B now u g name m = Some (r, m') \<Longrightarrow> bouncer_step B e fetch m m'"
| Created: "CreateChannel B now u g raw m = Some (r, m') \<Longrightarrow> bouncer_step B e fetch m m'"
| Removed: "RemoveChannel B now u ch m = Some (r, m') \<Longrightarrow> bouncer_step B e fetch m m'"
| Moved: "MoveChannel B now u ch parent pos setPos m = Some (r, m') \<Longrightarrow> bouncer_step B e fetch m m'"
| CategoryCreated: "CreateCategory B now u g name m = Some (r, m') \<Longrightarrow> bouncer_step B e fetch m m'"
| CategoryRenamed: "RenameCategory B now u cat name m = Some (r, m') \<Longrightarrow> bouncer_step B e fetch m m'"
| CategoryMoved: "SetCategoryPosition B now u cat pos m = Some (r, m') \<Longrightarrow> bouncer_step B e fetch m m'"
| CategoryRemoved: "RemoveCategory B now u cat m = Some (r, m') \<Longrightarrow> bouncer_step B e fetch m m'"
| Noted: "SetUserNote B now u t note m = Some (r, m') \<Longrightarrow> bouncer_step B e fetch m m'"
| Pinned: "SetChannelPin B now u ch i pinned m = Some (r, m') \<Longrightarrow> bouncer_step B e fetch m m'"
| GlobalAvatar: "SetGlobalAvatar B url now u uri m = Some (r, m') \<Longrightarrow> bouncer_step B e fetch m m'"
| NetworkAvatar: "SetNetworkAvatar B url now u g uri m = Some (r, m') \<Longrightarrow> bouncer_step B e fetch m m'"
| Guilds: "GuildCreatePayloads B now u m = Some (r, m') \<Longrightarrow> bouncer_step B e fetch m m'"
| Channels: "GuildChannelsPayload B now g autoJoin m = Some (r, m') \<Longrightarrow> bouncer_step B e fetch m m'"
| Direct: "CreateDMChannel B now u recipient m = Some (r, m') \<Longrightarrow> bouncer_step B e fetch m m'"
| Occupancy: "flushOccupancy B now u g occ m = Some (r, m') \<Longrightarrow> bouncer_step B e fetch m m'"

lemma sound_result: "f m = Some (r, m') \<Longrightarrow> sound f \<Longrightarrow> mgr_wf m \<Longrightarrow> mgr_wf m'"
  by (force simp: sound_def stays2_def)

lemma bouncer_step_wf: "bouncer_step B e fetch m m' \<Longrightarrow> mgr_wf m \<Longrightarrow> mgr_wf m'"
  by (induction rule: bouncer_step.induct) (auto intro: mgr_step_wf service_hooks_wf, (erule sound_result; simp add: sounds)+)

lemma bouncer_reach_wf: "(bouncer_step B e fetch)\<^sup>*\<^sup>* m m' \<Longrightarrow> mgr_wf m \<Longrightarrow> mgr_wf m'"
  by (induction rule: rtranclp_induct) (auto intro: bouncer_step_wf)



end
