(* ===== verification/NetworkLife.thy ===== *)
theory NetworkLife
  imports ServiceSafety
begin

text \<open>
  What joining and leaving a network leaves behind: the network under its connection string, the membership with its
  channels, and the upstream connection of the user; and what the service tells the clients when it changes read
  positions and categories.
\<close>

section \<open>Rows of networks and memberships\<close>

definition nets_wf :: "'d store \<Rightarrow> 'd \<Rightarrow> bool" where
  "nets_wf B d \<longleftrightarrow>
     (\<forall>i v. content B d (networkKey i) = Some v \<longrightarrow> (\<exists>n. v = VNet n \<and> n_ID n = i))
     \<and> (\<forall>c v. content B d (netConnKey c) = Some v \<longrightarrow> (\<exists>i. v = VBytes i))
     \<and> (\<forall>n u v. content B d (memberKey n u) = Some v \<longrightarrow> (\<exists>mem. v = VMem mem \<and> mem_NetworkID mem = n \<and> mem_UserID mem = u))"

lemma net_keys [simp]:
  "netConnKey c = netConnKey c' \<longleftrightarrow> c = c'" "networkKey i = networkKey j \<longleftrightarrow> i = j"
  "networkKey i \<noteq> netConnKey c" "networkKey i \<noteq> memberKey n u" "netConnKey c \<noteq> memberKey n u" "memberKey n u \<noteq> netConnKey c"
  by (simp_all add: netConnKey_def networkKey_def memberKey_def)

context store
begin

lemma GetNetwork_row: "GetNetwork B d i = Inr n \<longleftrightarrow> content B d (networkKey i) = Some (VNet n)"
  by (auto simp: GetNetwork_def get_as_content as_Inr)

lemma GetMembership_row: "GetMembership B d n u = Inr mem \<longleftrightarrow> content B d (memberKey n u) = Some (VMem mem)"
  by (auto simp: GetMembership_def get_as_content as_Inr)

lemma GetMembership_missing: "content B d (memberKey n u) = None \<Longrightarrow> GetMembership B d n u = Inl ErrNotFound"
  by (simp add: GetMembership_def get_as_missing)

lemma NetworkByConnID_row:
  "NetworkByConnID B d c = Inr net \<longleftrightarrow>
     (\<exists>i. content B d (netConnKey c) = Some (VBytes i) \<and> content B d (networkKey i) = Some (VNet net))"
  by (auto simp: NetworkByConnID_def tryb_eq_Inr get_as_content as_Inr GetNetwork_row)

lemma NetworkByConnID_cases:
  assumes "nets_wf B d"
  shows "NetworkByConnID B d c = Inl ErrNotFound
    \<or> (\<exists>net. NetworkByConnID B d c = Inr net \<and> content B d (netConnKey c) = Some (VBytes (n_ID net))
          \<and> content B d (networkKey (n_ID net)) = Some (VNet net))"
proof (cases "content B d (netConnKey c)")
  case None
  then show ?thesis by (simp add: NetworkByConnID_def get_as_missing)
next
  case (Some v)
  then obtain i where i: "content B d (netConnKey c) = Some (VBytes i)" using assms unfolding nets_wf_def by blast
  then have g: "get_as B as_bytes d (netConnKey c) = Inr i" by (simp add: get_as_content as_Inr)
  show ?thesis
  proof (cases "content B d (networkKey i)")
    case None
    then show ?thesis using g by (simp add: NetworkByConnID_def GetNetwork_def get_as_missing)
  next
    case (Some v)
    then obtain n where "content B d (networkKey i) = Some (VNet n)" "n_ID n = i" using assms unfolding nets_wf_def by blast
    then show ?thesis using i NetworkByConnID_row by blast
  qed
qed

lemma UpsertNetwork_content:
  "\<exists>d'. UpsertNetwork B d n = (Inr (), d')
     \<and> content B d' = (content B d)(networkKey (n_ID n) \<mapsto> VNet n, netConnKey (n_ConnID n) \<mapsto> VBytes (n_ID n))"
proof -
  obtain d1 where d1: "txn_set B d (networkKey (n_ID n)) (VNet n) = Inr d1" using set_total by blast
  obtain d2 where d2: "txn_set B d1 (netConnKey (n_ConnID n)) (VBytes (n_ID n)) = Inr d2" using set_total by blast
  show ?thesis using content_set [OF d1] content_set [OF d2] d1 d2 by (simp add: UpsertNetwork_def update_live)
qed

lemma UpsertMembership_content:
  "\<exists>d'. UpsertMembership B d mem = (Inr (), d')
     \<and> content B d' = (content B d)(memberKey (mem_NetworkID mem) (mem_UserID mem) \<mapsto> VMem mem)"
proof -
  obtain d1 where d1: "txn_set B d (memberKey (mem_NetworkID mem) (mem_UserID mem)) (VMem mem) = Inr d1" using set_total by blast
  show ?thesis using content_set [OF d1] d1 by (simp add: UpsertMembership_def update_live)
qed

end

section \<open>Joining\<close>

definition rotates :: "'d store \<Rightarrow> ('d, 'r) Manager \<Rightarrow> Conn \<Rightarrow> bool" where
  "rotates B m conn =
     (case NetworkByConnID B (m_db m) (conn_ID conn) of Inr net \<Rightarrow> snd (snd (rotate_network conn net)) | Inl _ \<Rightarrow> False)"

lemma fold_keys_same:
  "\<not> list_ex (\<lambda>(ch, key). map_of ks ch \<noteq> Some key) es \<Longrightarrow>
     fold (\<lambda>(ch, key) ks. if map_of ks ch = Some key then ks else AList.update ch key ks) es ks = ks"
  by (induction es) auto

lemma rotate_network_same: "rotate_network conn net = (net', False, r) \<Longrightarrow> net' = net \<and> \<not> r"
  using fold_keys_same [of "n_ChannelKeys net" "cs_ChannelKeys conn"]
  by (auto simp: rotate_network_def Let_def split: if_splits)

lemma rotate_network_id: "rotate_network conn net = (net', changed, r) \<Longrightarrow> n_ID net' = n_ID net"
  by (auto simp: rotate_network_def Let_def split: if_splits)

lemma on_db_conns [simp]: "m_conns (snd (on_db f m)) = m_conns m" "m_conns (snd (mint_new now m)) = m_conns m"
  by (simp_all add: on_db_def set_store_def mint_new_def split_beta)

lemma store_do_result: "f (m_db m) = (Inr x, d') \<Longrightarrow> \<exists>m'. store_do f m = Some (Inr x, m') \<and> m_db m' = d' \<and> m_conns m' = m_conns m"
  using m_db_simps(5) [of f m] on_db_conns(1) [of f m] by (auto simp: store_do_def on_db_def split_beta set_store_def)

lemma mint_result: "\<exists>i m'. mint_id now m = Some (Inr i, m') \<and> m_db m' = m_db m \<and> m_conns m' = m_conns m"
  using m_db_simps(7) [of now m] on_db_conns(2) [of now m] by (auto simp: mint_id_def split_beta)

lemmas svc_run = andthen_def give_def store_get_def look_def attempt_def manager_do_def refuse_def

context store
begin

lemma join_network_result:
  assumes "nets_wf B (m_db m)"
  shows "\<exists>net m1. join_network B now u conn m = Some (Inr (net, rotates B m conn), m1)
    \<and> content B (m_db m1) (networkKey (n_ID net)) = Some (VNet net)
    \<and> content B (m_db m1) (netConnKey (conn_ID conn)) = Some (VBytes (n_ID net))
    \<and> (\<forall>n u. content B (m_db m1) (memberKey n u) = content B (m_db m) (memberKey n u)) \<and> m_conns m1 = m_conns m"
  using NetworkByConnID_cases [OF assms, of "conn_ID conn"]
proof (elim disjE exE conjE)
  assume new: "NetworkByConnID B (m_db m) (conn_ID conn) = Inl ErrNotFound"
  obtain i m0 where m0: "mint_id now m = Some (Inr i, m0)" "m_db m0 = m_db m" "m_conns m0 = m_conns m" using mint_result by blast
  let ?net = "fresh_network conn i u now"
  obtain d' where d': "UpsertNetwork B (m_db m0) ?net = (Inr (), d')"
    "content B d' = (content B (m_db m0))(networkKey i \<mapsto> VNet ?net, netConnKey (conn_ID conn) \<mapsto> VBytes i)"
    using UpsertNetwork_content [of "m_db m0" ?net] by (auto simp: fresh_network_def)
  obtain m1 where "store_do (\<lambda>d. UpsertNetwork B d ?net) m0 = Some (Inr (), m1)" "m_db m1 = d'" "m_conns m1 = m_conns m0"
    using store_do_result [of "\<lambda>d. UpsertNetwork B d ?net", OF d'(1)] by blast
  then show ?thesis using m0 d'(2) new
    by (intro exI [of _ ?net] exI [of _ m1]) (simp add: join_network_def svc_run rotates_def Let_def fresh_network_def)
next
  fix net assume net: "NetworkByConnID B (m_db m) (conn_ID conn) = Inr net"
    "content B (m_db m) (netConnKey (conn_ID conn)) = Some (VBytes (n_ID net))"
    "content B (m_db m) (networkKey (n_ID net)) = Some (VNet net)"
  obtain net' changed r where rot: "rotate_network conn net = (net', changed, r)" by (cases "rotate_network conn net")
  show ?thesis
  proof (cases changed)
    case True
    obtain d' where d': "UpsertNetwork B (m_db m) net' = (Inr (), d')"
      "content B d' = (content B (m_db m))(networkKey (n_ID net') \<mapsto> VNet net', netConnKey (n_ConnID net') \<mapsto> VBytes (n_ID net'))"
      using UpsertNetwork_content by blast
    obtain m1 where "store_do (\<lambda>d. UpsertNetwork B d net') m = Some (Inr (), m1)" "m_db m1 = d'" "m_conns m1 = m_conns m"
      using store_do_result [of "\<lambda>d. UpsertNetwork B d net'", OF d'(1)] by blast
    then show ?thesis using net rot True d'(2) rotate_network_id [OF rot]
      by (intro exI [of _ net'] exI [of _ m1]) (simp add: join_network_def svc_run rotates_def Let_def)
  next
    case False
    then have "net' = net" "\<not> r" using rotate_network_same [of conn net net' r] rot by simp_all
    then show ?thesis using net rot False
      by (intro exI [of _ net] exI [of _ m]) (simp add: join_network_def svc_run rotates_def Let_def)
  qed
qed

end

lemma set_add_channels: "set (map to_lower (fold add_channel add out)) = set (map to_lower out) \<union> set (map to_lower add)"
  by (induction add arbitrary: out) (auto simp: add_channel_def)

lemma length_add_channels: "length out \<le> length (fold add_channel add out)"
proof (induction add arbitrary: out)
  case (Cons ch add)
  have "length out \<le> length (add_channel ch out)" by (simp add: add_channel_def)
  then show ?case using Cons.IH [of "add_channel ch out"] by simp
qed simp

lemma add_channels_same: "length (fold add_channel add out) \<le> length out \<Longrightarrow> set (map to_lower add) \<subseteq> set (map to_lower out)"
proof (induction add arbitrary: out)
  case (Cons ch add)
  have "length (add_channel ch out) \<le> length out"
    using Cons.prems length_add_channels [of "add_channel ch out" add] by simp
  then have "add_channel ch out = out" by (simp add: add_channel_def split: if_splits)
  moreover from this have "to_lower ch \<in> set (map to_lower out)" by (auto simp: add_channel_def split: if_splits)
  ultimately show ?case using Cons by simp
qed simp

text \<open>What \<open>mergeChannels\<close> reports.\<close>

lemma mergeChannels_covers:
  assumes "mergeChannels existing add = (merged, changed)"
  shows "set (map to_lower add) \<subseteq> set (map to_lower (if changed then merged else existing))"
proof (cases changed)
  case True
  then show ?thesis using assms set_add_channels [of add "fold add_channel existing []"] by (auto simp: mergeChannels_def Let_def)
next
  case False
  then have "set (map to_lower add) \<subseteq> set (map to_lower (fold add_channel existing []))"
    using assms add_channels_same [of add "fold add_channel existing []"]
    by (auto simp: mergeChannels_def Let_def simp del: set_map)
  also have "\<dots> = set (map to_lower existing)" using set_add_channels [of existing "[]"] by (simp del: set_map)
  finally show ?thesis using False by simp
qed

lemma conn_at_put: "conn_at (put_conn (u, n) k m) u n = Some k"
  by (simp add: conn_at_def put_conn_def update_conv')

lemma conn_at_send [simp]: "conn_at (send c a m) u n = conn_at m u n"
  by (simp add: conn_at_def send_def)

lemma JoinChannel_frame:
  "m_db (JoinChannel B u n ch m) = m_db m \<and> (conn_at (JoinChannel B u n ch m) u n = None) = (conn_at m u n = None)"
  by (auto simp: JoinChannel_def upstream_def Let_def conn_at_put split: sum.split option.splits)

lemma fold_JoinChannel_frame:
  "m_db (fold (\<lambda>ch. JoinChannel B u n ch) chs m) = m_db m
    \<and> (conn_at (fold (\<lambda>ch. JoinChannel B u n ch) chs m) u n = None) = (conn_at m u n = None)"
  by (induction chs arbitrary: m) (simp_all add: JoinChannel_frame)

context store
begin

lemma join_membership_result:
  assumes row: "\<forall>v. content B (m_db m) (memberKey n u) = Some v \<longrightarrow>
      (\<exists>mem. v = VMem mem \<and> mem_NetworkID mem = n \<and> mem_UserID mem = u)"
  shows "\<exists>m2 mem. join_membership B now u n conn m = Some (Inr (), m2)
    \<and> content B (m_db m2) (memberKey n u) = Some (VMem mem)
    \<and> set (map to_lower (cs_Channels conn)) \<subseteq> set (map to_lower (mem_AutoJoin mem))
    \<and> (\<forall>k. k \<noteq> memberKey n u \<longrightarrow> content B (m_db m2) k = content B (m_db m) k)
    \<and> (conn_at m2 u n = None) = (conn_at m u n = None)"
proof (cases "content B (m_db m) (memberKey n u)")
  case None
  let ?nick = "join_nick B m u conn"
  let ?mem = "\<lparr>mem_UserID = u, mem_NetworkID = n, mem_Nick = ?nick, mem_Username = ?nick, mem_Realname = ?nick,
                 mem_Avatar = [], mem_AvatarRejected = False, mem_AutoJoin = cs_Channels conn, mem_JoinedAt = now\<rparr>"
  obtain d' where d': "UpsertMembership B (m_db m) ?mem = (Inr (), d')" "content B d' = (content B (m_db m))(memberKey n u \<mapsto> VMem ?mem)"
    using UpsertMembership_content [of "m_db m" ?mem] by auto
  obtain m2 where "store_do (\<lambda>d. UpsertMembership B d ?mem) m = Some (Inr (), m2)" "m_db m2 = d'" "m_conns m2 = m_conns m"
    using store_do_result [of "\<lambda>d. UpsertMembership B d ?mem", OF d'(1)] by blast
  then show ?thesis using d'(2) GetMembership_missing [OF None]
    by (intro exI [of _ m2] exI [of _ ?mem]) (simp add: join_membership_def svc_run conn_at_def)
next
  case (Some v)
  then obtain mem where mem: "content B (m_db m) (memberKey n u) = Some (VMem mem)" "mem_NetworkID mem = n" "mem_UserID mem = u"
    using row by blast
  then have get: "GetMembership B (m_db m) n u = Inr mem" by (simp add: GetMembership_row)
  obtain merged changed where merge: "mergeChannels (mem_AutoJoin mem) (cs_Channels conn) = (merged, changed)" by fastforce
  note covers = mergeChannels_covers [OF merge]
  show ?thesis
  proof (cases changed)
    case False
    then show ?thesis using get merge mem covers
      by (intro exI [of _ m] exI [of _ mem]) (simp add: join_membership_def svc_run)
  next
    case True
    let ?mem = "mem\<lparr>mem_AutoJoin := merged\<rparr>"
    obtain d' where d': "UpsertMembership B (m_db m) ?mem = (Inr (), d')" "content B d' = (content B (m_db m))(memberKey n u \<mapsto> VMem ?mem)"
      using UpsertMembership_content [of "m_db m" ?mem] mem by auto
    obtain m1 where m1: "store_do (\<lambda>d. UpsertMembership B d ?mem) m = Some (Inr (), m1)" "m_db m1 = d'" "m_conns m1 = m_conns m"
      using store_do_result [of "\<lambda>d. UpsertMembership B d ?mem", OF d'(1)] by blast
    let ?m2 = "fold (\<lambda>ch. JoinChannel B u n ch) (cs_Channels conn) m1"
    have "join_membership B now u n conn m = Some (Inr (), ?m2)"
      using get merge True m1(1) by (simp add: join_membership_def svc_run)
    moreover have "m_db ?m2 = d'" "(conn_at ?m2 u n = None) = (conn_at m u n = None)"
      using fold_JoinChannel_frame [of B u n "cs_Channels conn" m1] m1 by (auto simp: conn_at_def)
    ultimately show ?thesis using d'(2) covers True by (intro exI [of _ ?m2] exI [of _ ?mem]) simp
  qed
qed

lemma EnsureConn_result:
  assumes "content B (m_db m) (networkKey n) = Some (VNet net)" "content B (m_db m) (memberKey n u) = Some (VMem mem)"
  shows "conn_at (snd (EnsureConn B u n m)) u n \<noteq> None \<and> m_db (snd (EnsureConn B u n m)) = m_db m"
proof -
  have "GetNetwork B (m_db m) n = Inr net" "GetMembership B (m_db m) n u = Inr mem"
    using assms by (simp_all add: GetNetwork_row GetMembership_row)
  then show ?thesis
    using m_db_simps(1) [of "(u, n)" "newConn u n" m] conn_at_put [of u n "newConn u n" m]
    by (auto simp: EnsureConn_def conn_at_def m_db_def)
qed

lemma RestartConn_result:
  assumes "content B (m_db m) (networkKey n) = Some (VNet net)" "content B (m_db m) (memberKey n u) = Some (VMem mem)"
  shows "(conn_at (snd (RestartConn B u n m)) u n \<noteq> None) = (conn_at m u n \<noteq> None) \<and> m_db (snd (RestartConn B u n m)) = m_db m"
proof -
  have "m_db (drop_conn u n m) = m_db m" by (simp add: drop_conn_def m_db_def)
  then show ?thesis using EnsureConn_result [of "drop_conn u n m" n net u mem] assms by (simp add: RestartConn_def)
qed

end

text \<open>C11: Joining by a valid connection string always succeeds on a healthy database. Afterwards the string leads to the
  network, and the user is a member who joins every channel of the string. The user has an upstream connection, unless
  the string rotated the network's credentials and the user had no connection before: then the code restarts nothing and
  opens nothing, so that a new member with a newer password is left without a connection.\<close>

lemma Join_connects:
  assumes "store B" "nets_wf B (m_db m)" "Parse raw = Inr conn"
  shows "\<exists>net m' mem. Join B now u raw m = Some (Inr net, m')
    \<and> NetworkByConnID B (m_db m') (conn_ID conn) = Inr net
    \<and> GetMembership B (m_db m') (n_ID net) u = Inr mem
    \<and> set (map to_lower (cs_Channels conn)) \<subseteq> set (map to_lower (mem_AutoJoin mem))
    \<and> (conn_at m' u (n_ID net) \<noteq> None) = (\<not> rotates B m conn \<or> conn_at m u (n_ID net) \<noteq> None)"
proof -
  obtain net m1 where m1: "join_network B now u conn m = Some (Inr (net, rotates B m conn), m1)"
    "content B (m_db m1) (networkKey (n_ID net)) = Some (VNet net)"
    "content B (m_db m1) (netConnKey (conn_ID conn)) = Some (VBytes (n_ID net))"
    "\<forall>n u. content B (m_db m1) (memberKey n u) = content B (m_db m) (memberKey n u)" "m_conns m1 = m_conns m"
    using store.join_network_result [OF assms(1,2)] by blast
  let ?n = "n_ID net"
  have "\<forall>v. content B (m_db m1) (memberKey ?n u) = Some v \<longrightarrow> (\<exists>mem. v = VMem mem \<and> mem_NetworkID mem = ?n \<and> mem_UserID mem = u)"
    using m1(4) assms(2) by (simp add: nets_wf_def)
  from store.join_membership_result [OF assms(1) this, of now conn]
  obtain m2 mem where m2: "join_membership B now u ?n conn m1 = Some (Inr (), m2)"
    "content B (m_db m2) (memberKey ?n u) = Some (VMem mem)"
    "set (map to_lower (cs_Channels conn)) \<subseteq> set (map to_lower (mem_AutoJoin mem))"
    "\<forall>k. k \<noteq> memberKey ?n u \<longrightarrow> content B (m_db m2) k = content B (m_db m1) k"
    "(conn_at m2 u ?n = None) = (conn_at m1 u ?n = None)"
    by (elim exE conjE) (rule that)
  have net: "content B (m_db m2) (networkKey ?n) = Some (VNet net)" "content B (m_db m2) (netConnKey (conn_ID conn)) = Some (VBytes ?n)"
    using m1(2,3) m2(4) by simp_all
  have same: "conn_at m1 u ?n = conn_at m u ?n" using m1(5) by (simp add: conn_at_def)
  define m3 where "m3 = (if rotates B m conn then snd (RestartConn B u ?n m2) else snd (EnsureConn B u ?n m2))"
  have "Join B now u raw m = Some (Inr net, m3)"
    using assms(3) m1(1) m2(1) by (simp add: Join_def svc_run m3_def)
  moreover have "m_db m3 = m_db m2 \<and> (conn_at m3 u ?n \<noteq> None) = (\<not> rotates B m conn \<or> conn_at m u ?n \<noteq> None)"
    using store.RestartConn_result [OF assms(1) net(1) m2(2)] store.EnsureConn_result [OF assms(1) net(1) m2(2)] m2(5) same
    by (cases "rotates B m conn") (simp_all add: m3_def)
  ultimately show ?thesis
    using net m2(2,3) store.NetworkByConnID_row [OF assms(1)] store.GetMembership_row [OF assms(1)] by auto
qed

lemma Join_connects_witness:
  "\<exists>conn net m'. Parse ''irc://irc.example.org/#go'' = Inr conn
     \<and> Join mem_kv 5 ''u'' ''irc://irc.example.org/#go'' demo_manager = Some (Inr net, m')
     \<and> conn_at m' ''u'' (n_ID net) \<noteq> None"
proof -
  have "isl (Parse ''irc://irc.example.org/#go'') = False" by code_simp
  then obtain conn where conn: "Parse ''irc://irc.example.org/#go'' = Inr conn" by (cases "Parse ''irc://irc.example.org/#go''") auto
  have db: "content mem_kv (m_db demo_manager) k = None" for k
    using demo_auth(3) by (simp add: demo_manager_def demo_server_def m_db_def)
  have wf: "nets_wf mem_kv (m_db demo_manager)" unfolding nets_wf_def by (simp only: db) simp
  have "NetworkByConnID mem_kv (m_db demo_manager) c \<noteq> Inr n" for c n
    using mem_store.NetworkByConnID_row [of "m_db demo_manager" c n, unfolded db] by simp
  then have "\<not> rotates mem_kv demo_manager conn" by (simp add: rotates_def split: sum.splits)
  then show ?thesis using Join_connects [OF mem_store.store_axioms wf conn] conn by blast
qed

end
