(* ===== verification/JsonParse.thy ===== *)
theory JsonParse
  imports Json Utf8 ConnStr
begin

text \<open>
  \<open>encoding/json\<close> as the HTTP handlers use it to read a request: the first JSON value of a text (\<open>Decoder.Decode\<close>) or a
  whole text (\<open>json.Unmarshal\<close>). A parser takes the text and returns the value with what follows it. The recursion of
  \<open>parse_value\<close> is bounded by fuel, one unit for each level of nesting and each element; the length of the text is enough,
  as the round trip at the end shows. Bytes above 127 are copied, as in \<open>Json\<close>, and the depth limit of 10000 is left out.
\<close>

section \<open>White space, numbers and strings\<close>

definition json_ws :: "char \<Rightarrow> bool" where
  "json_ws c = (c = CHR '' '' \<or> c = CHR 0x09 \<or> c = CHR 0x0D \<or> c = CHR 0x0A)"

definition skip_ws :: "string \<Rightarrow> string" where
  "skip_ws s = dropWhile json_ws s"

definition take_digits :: "string \<Rightarrow> string \<times> string" where
  "take_digits s = (takeWhile is_digit s, dropWhile is_digit s)"

text \<open>The parts of a number: sign, integer, fraction, exponent. None is a syntax error.\<close>

definition int_part :: "string \<Rightarrow> (string \<times> string) option" where
  "int_part s =
     (case s of
        [] \<Rightarrow> None
      | c # r \<Rightarrow> if c = CHR ''0'' then Some ([c], r) else if is_digit c then Some (take_digits s) else None)"

definition frac_part :: "string \<Rightarrow> (string \<times> string) option" where
  "frac_part s =
     (case s of
        [] \<Rightarrow> Some ([], [])
      | c # r \<Rightarrow>
        if c = CHR ''.'' then
          (case take_digits r of (ds, r) \<Rightarrow> if ds = [] then None else Some (c # ds, r))
        else Some ([], s))"

definition exp_sign :: "string \<Rightarrow> string \<times> string" where
  "exp_sign s = (case s of c # r \<Rightarrow> if c = CHR ''+'' \<or> c = CHR ''-'' then ([c], r) else ([], s) | [] \<Rightarrow> ([], []))"

definition exp_part :: "string \<Rightarrow> (string \<times> string) option" where
  "exp_part s =
     (case s of
        [] \<Rightarrow> Some ([], [])
      | c # r \<Rightarrow>
        if c = CHR ''e'' \<or> c = CHR ''E'' then
          (case exp_sign r of (sg, r) \<Rightarrow>
           case take_digits r of (ds, r) \<Rightarrow> if ds = [] then None else Some (c # sg @ ds, r))
        else Some ([], s))"

definition parse_number :: "string \<Rightarrow> (string \<times> string) option" where
  "parse_number s =
     (let (sg, s) = (if has_prefix s ''-'' then (''-'', tl s) else ([], s)) in
      case int_part s of
        None \<Rightarrow> None
      | Some (i, s) \<Rightarrow>
        (case frac_part s of
           None \<Rightarrow> None
         | Some (f, s) \<Rightarrow>
           (case exp_part s of None \<Rightarrow> None | Some (e, s) \<Rightarrow> Some (sg @ i @ f @ e, s))))"

definition hex4 :: "string \<Rightarrow> nat option" where
  "hex4 s =
     (case map hex_val s of
        [Some a, Some b, Some c, Some d] \<Rightarrow> Some (4096 * a + 256 * b + 16 * c + d)
      | _ \<Rightarrow> None)"

definition escape_char :: "char \<Rightarrow> char option" where
  "escape_char e =
     (if e = CHR 0x22 \<or> e = CHR 0x5C \<or> e = CHR ''/'' then Some e
      else if e = CHR ''b'' then Some (char_of (8 :: nat))
      else if e = CHR ''f'' then Some (char_of (12 :: nat))
      else if e = CHR ''n'' then Some (char_of (10 :: nat))
      else if e = CHR ''r'' then Some (char_of (13 :: nat))
      else if e = CHR ''t'' then Some (char_of (9 :: nat))
      else None)"

text \<open>The second half of a surrogate pair, if the text goes on with one.\<close>

definition low_surrogate :: "string \<Rightarrow> nat option" where
  "low_surrogate s =
     (case s of
        b # u # r \<Rightarrow>
          if b = CHR 0x5C \<and> u = CHR ''u'' then
            (case hex4 (take 4 r) of Some n \<Rightarrow> if 56320 \<le> n \<and> n < 57344 then Some n else None | None \<Rightarrow> None)
          else None
      | _ \<Rightarrow> None)"

definition cons_text :: "string \<Rightarrow> (string \<times> string) option \<Rightarrow> (string \<times> string) option" where
  "cons_text t r = map_option (\<lambda>(s, rest). (t @ s, rest)) r"

text \<open>What follows the opening quote: the text of the string, and what is after the closing quote.\<close>

function parse_string :: "string \<Rightarrow> (string \<times> string) option" where
  "parse_string s =
     (case s of
        [] \<Rightarrow> None
      | c # s \<Rightarrow>
        if c = CHR 0x22 then Some ([], s)
        else if c = CHR 0x5C then
          (case s of
             [] \<Rightarrow> None
           | e # s \<Rightarrow>
             if e = CHR ''u'' then
               (case hex4 (take 4 s) of
                  None \<Rightarrow> None
                | Some n \<Rightarrow>
                  if 55296 \<le> n \<and> n < 56320 \<and> low_surrogate (drop 4 s) \<noteq> None then
                    cons_text (encode_rune (65536 + (n - 55296) * 1024 + (the (low_surrogate (drop 4 s)) - 56320)))
                      (parse_string (drop 10 s))
                  else cons_text (encode_rune n) (parse_string (drop 4 s)))
             else case escape_char e of None \<Rightarrow> None | Some d \<Rightarrow> cons_text [d] (parse_string s))
        else if (of_char c :: nat) < 32 then None
        else cons_text [c] (parse_string s))"
  by pat_completeness auto
termination by (relation "measure length") auto

declare parse_string.simps [simp del]

section \<open>Values\<close>

definition parse_literal :: "string \<Rightarrow> json \<Rightarrow> string \<Rightarrow> (json \<times> string) option" where
  "parse_literal lit j s = (if has_prefix s lit then Some (j, drop (length lit) s) else None)"

fun parse_value :: "nat \<Rightarrow> string \<Rightarrow> (json \<times> string) option"
  and parse_items :: "nat \<Rightarrow> string \<Rightarrow> (json list \<times> string) option"
  and parse_members :: "nat \<Rightarrow> string \<Rightarrow> ((string \<times> json) list \<times> string) option" where
  "parse_value 0 s = None"
| "parse_value (Suc n) s =
     (case skip_ws s of
        [] \<Rightarrow> None
      | c # r \<Rightarrow>
        if c = CHR 0x22 then map_option (\<lambda>(t, r). (JStr t, r)) (parse_string r)
        else if c = CHR ''['' then
          (if has_prefix (skip_ws r) '']'' then Some (JArr [], tl (skip_ws r))
           else map_option (\<lambda>(xs, r). (JArr xs, r)) (parse_items n r))
        else if c = CHR ''{'' then
          (if has_prefix (skip_ws r) ''}'' then Some (JObj [], tl (skip_ws r))
           else map_option (\<lambda>(fs, r). (JObj fs, r)) (parse_members n r))
        else if c = CHR ''t'' then parse_literal ''true'' (JBool True) (c # r)
        else if c = CHR ''f'' then parse_literal ''false'' (JBool False) (c # r)
        else if c = CHR ''n'' then parse_literal ''null'' JNull (c # r)
        else map_option (\<lambda>(t, r). (JNum t, r)) (parse_number (c # r)))"
| "parse_items 0 s = None"
| "parse_items (Suc n) s =
     (case parse_value n s of
        None \<Rightarrow> None
      | Some (x, r) \<Rightarrow>
        (case skip_ws r of
           [] \<Rightarrow> None
         | c # r \<Rightarrow>
           if c = CHR '']'' then Some ([x], r)
           else if c = CHR '','' then map_option (\<lambda>(xs, r). (x # xs, r)) (parse_items n r)
           else None))"
| "parse_members 0 s = None"
| "parse_members (Suc n) s =
     (case skip_ws s of
        [] \<Rightarrow> None
      | q # r \<Rightarrow>
        if q \<noteq> CHR 0x22 then None
        else case parse_string r of
          None \<Rightarrow> None
        | Some (k, r) \<Rightarrow>
          (if \<not> has_prefix (skip_ws r) '':'' then None
           else case parse_value n (tl (skip_ws r)) of
             None \<Rightarrow> None
           | Some (x, r) \<Rightarrow>
             (case skip_ws r of
                [] \<Rightarrow> None
              | c # r \<Rightarrow>
                if c = CHR ''}'' then Some ([(k, x)], r)
                else if c = CHR '','' then map_option (\<lambda>(fs, r). ((k, x) # fs, r)) (parse_members n r)
                else None)))"

declare parse_value.simps [simp del] parse_items.simps [simp del] parse_members.simps [simp del]

definition parse_json :: "string \<Rightarrow> (json \<times> string) option" where
  "parse_json s = parse_value (2 * length s + 2) s"

text \<open>\<open>Decoder.Decode\<close> reads the first value and reports a text without one as \<open>io.EOF\<close>; \<open>json.Unmarshal\<close> takes the
  whole text.\<close>

datatype decoded = AtEOF | Malformed | Decoded json

definition decode_json :: "string \<Rightarrow> decoded" where
  "decode_json s =
     (if skip_ws s = [] then AtEOF
      else case parse_json s of None \<Rightarrow> Malformed | Some (j, _) \<Rightarrow> Decoded j)"

definition unmarshal :: "string \<Rightarrow> json option" where
  "unmarshal s = (case parse_json s of Some (j, r) \<Rightarrow> if skip_ws r = [] then Some j else None | None \<Rightarrow> None)"

section \<open>Printed values are read back\<close>

lemma cons_text_Some [simp]: "cons_text t (Some (s, r)) = Some (t @ s, r)"
  by (simp add: cons_text_def)

lemma of_char_hex_digit: "n < 16 \<Longrightarrow> (of_char (hex_digit n) :: nat) = (if n < 10 then 48 + n else 87 + n)"
  by (simp add: hex_digit_def)

lemma hex_val_digit [simp]: "n < 16 \<Longrightarrow> hex_val (hex_digit n) = Some n"
  by (simp add: hex_val_def of_char_hex_digit Let_def)

lemma hex_val_0 [simp]: "hex_val (CHR ''0'') = Some 0"
  by (simp add: hex_val_def)

lemma hex4_low: "n < 256 \<Longrightarrow> hex4 [CHR ''0'', CHR ''0'', hex_digit (n div 16), hex_digit (n mod 16)] = Some n"
  by (simp add: hex4_def)

lemma encode_low: "n < 128 \<Longrightarrow> encode_rune n = [char_of n]"
  by (simp add: encode_rune_def rune_bytes_def)

lemma parse_plain:
  "c \<noteq> CHR 0x22 \<Longrightarrow> c \<noteq> CHR 0x5C \<Longrightarrow> 32 \<le> (of_char c :: nat) \<Longrightarrow> parse_string (c # s) = cons_text [c] (parse_string s)"
  by (subst parse_string.simps) simp

lemma parse_quote: "parse_string (CHR 0x22 # s) = Some ([], s)"
  by (subst parse_string.simps) simp

lemma parse_escape:
  "e \<noteq> CHR ''u'' \<Longrightarrow> escape_char e = Some d \<Longrightarrow> parse_string (CHR 0x5C # e # s) = cons_text [d] (parse_string s)"
  by (subst parse_string.simps) simp

lemma parse_unicode:
  "n < 128 \<Longrightarrow> parse_string (CHR 0x5C # CHR ''u'' # CHR ''0'' # CHR ''0'' # hex_digit (n div 16) # hex_digit (n mod 16) # s)
     = cons_text [char_of n] (parse_string s)"
  using hex4_low [of n] by (subst parse_string.simps) (simp add: encode_low)

lemma parse_escaped: "parse_string (json_escape_char c @ s) = cons_text [c] (parse_string s)"
proof -
  let ?n = "of_char c :: nat"
  have c: "c = char_of ?n" by simp
  consider "c = CHR 0x22" | "c = CHR 0x5C" | "?n \<in> {8, 12, 10, 13, 9}"
    | "c \<noteq> CHR 0x22" "c \<noteq> CHR 0x5C" "?n \<notin> {8, 12, 10, 13, 9}" "?n < 32 \<or> c = CHR ''<'' \<or> c = CHR ''>'' \<or> c = CHR ''&''"
    | "c \<noteq> CHR 0x22" "c \<noteq> CHR 0x5C" "32 \<le> ?n" "c \<noteq> CHR ''<''" "c \<noteq> CHR ''>''" "c \<noteq> CHR ''&''"
    by linarith
  then show ?thesis
  proof cases
    case 3
    have *: "?n = k \<Longrightarrow> c = char_of k" for k using c by simp
    from 3 consider "?n = 8" | "?n = 12" | "?n = 10" | "?n = 13" | "?n = 9" by auto
    then show ?thesis
      by cases (auto dest: * simp: json_escape_char_def parse_escape escape_char_def)
  next
    case 4
    then have n: "?n < 128" by auto
    with 4 have "json_escape_char c = CHR 0x5C # ''u00'' @ [hex_digit (?n div 16), hex_digit (?n mod 16)]"
      by (auto simp: json_escape_char_def Let_def)
    then show ?thesis using parse_unicode [OF n, of s] by simp
  next
    case 5
    then show ?thesis by (auto simp: json_escape_char_def Let_def parse_plain)
  qed (simp_all add: json_escape_char_def parse_escape escape_char_def)
qed

lemma parse_string_text: "parse_string (concat (map json_escape_char s) @ CHR 0x22 # r) = Some (s, r)"
  by (induction s) (simp_all add: parse_quote parse_escaped)

text \<open>What may follow a number: a character that is not part of one.\<close>

definition ends_number :: "string \<Rightarrow> bool" where
  "ends_number r =
     (case r of [] \<Rightarrow> True | c # _ \<Rightarrow> \<not> is_digit c \<and> c \<noteq> CHR ''.'' \<and> c \<noteq> CHR ''e'' \<and> c \<noteq> CHR ''E'')"

lemma take_digits_append:
  "list_all is_digit ds \<Longrightarrow> (case r of [] \<Rightarrow> True | c # _ \<Rightarrow> \<not> is_digit c) \<Longrightarrow> take_digits (ds @ r) = (ds, r)"
  by (induction ds) (auto simp: take_digits_def split: list.splits)

lemma take_digits_drop:
  "ends_number x \<Longrightarrow> take_digits (r @ x) = (takeWhile is_digit r, drop_digits r @ x)"
  by (induction r) (auto simp: take_digits_def drop_digits_def ends_number_def split: list.splits)

lemma take_drop_digits: "takeWhile is_digit r @ drop_digits r = r"
  by (simp add: drop_digits_def)

lemma int_part_app:
  assumes "ends_number x" "is_digit c" "t = (if c = CHR ''0'' then r else drop_digits r)"
  shows "\<exists>i. c # r = i @ t \<and> int_part (c # r @ x) = Some (i, t @ x)"
  using assms take_digits_drop [OF assms(1), of "c # r"] take_drop_digits [of r]
  by (cases "c = CHR ''0''") (auto simp: int_part_def drop_digits_def)

lemma frac_part_app:
  assumes "ends_number x" "frac = (case s of d # t \<Rightarrow> d = CHR ''.'' | [] \<Rightarrow> False)"
    "t = (if frac then drop_digits (tl s) else s)" "frac \<longrightarrow> tl s \<noteq> [] \<and> is_digit (hd (tl s))"
  shows "\<exists>f. s = f @ t \<and> frac_part (s @ x) = Some (f, t @ x)"
proof (cases s)
  case Nil
  then show ?thesis using assms by (cases x) (auto simp: frac_part_def ends_number_def)
next
  case (Cons d r)
  show ?thesis
  proof (cases "d = CHR ''.''")
    case True
    then have "takeWhile is_digit r \<noteq> []" using assms(2,4) Cons by (cases r) auto
    then show ?thesis using True Cons assms take_digits_drop [OF assms(1), of r] take_drop_digits [of r]
      by (auto simp: frac_part_def)
  qed (use Cons assms in \<open>auto simp: frac_part_def\<close>)
qed

lemma exp_part_app:
  assumes "ends_number x"
    "case s of [] \<Rightarrow> True
     | e # t \<Rightarrow> (e = CHR ''e'' \<or> e = CHR ''E'') \<and>
         (let t = (if t \<noteq> [] \<and> (hd t = CHR ''+'' \<or> hd t = CHR ''-'') then tl t else t)
          in t \<noteq> [] \<and> list_all is_digit t)"
  shows "exp_part (s @ x) = Some (s, x)"
proof (cases s)
  case Nil
  then show ?thesis using assms(1) by (cases x) (auto simp: exp_part_def ends_number_def)
next
  case (Cons e t)
  obtain sg u where u: "exp_sign t = (sg, u)" "t = sg @ u" "exp_sign (t @ x) = (sg, u @ x)" "u \<noteq> []" "list_all is_digit u"
  proof (cases t)
    case (Cons a b)
    show ?thesis
    proof (cases "a = CHR ''+'' \<or> a = CHR ''-''")
      case True
      then show ?thesis using that [of "[a]" b] \<open>s = e # t\<close> Cons assms(2) by (auto simp: exp_sign_def)
    next
      case False
      then show ?thesis using that [of "[]" t] \<open>s = e # t\<close> Cons assms(2) by (auto simp: exp_sign_def)
    qed
  qed (use assms(2) Cons in auto)
  have "take_digits (u @ x) = (u, x)"
    using take_digits_append [OF u(5), of x] assms(1) by (cases x) (auto simp: ends_number_def)
  then show ?thesis using Cons u assms(2) by (auto simp: exp_part_def)
qed

lemma parse_number_text:
  assumes "valid_number s" "ends_number x"
  shows "parse_number (s @ x) = Some (s, x)"
proof -
  obtain sg s' where sg: "s = sg @ s'" "(if has_prefix (s @ x) ''-'' then (''-'', tl (s @ x)) else ([], s @ x)) = (sg, s' @ x)"
     "(if has_prefix s ''-'' then tl s else s) = s'"
  proof (cases "has_prefix s ''-''")
    case True
    then show ?thesis using that [of "''-''" "tl s"] by (cases s) auto
  next
    case False
    then show ?thesis using that [of "[]" s] assms(1) by (cases s) (auto simp: valid_number_def)
  qed
  obtain c r where c: "s' = c # r" "is_digit c" using assms(1) sg(3) by (cases s') (auto simp: valid_number_def Let_def)
  let ?t = "if c = CHR ''0'' then r else drop_digits r"
  let ?frac = "case ?t of d # t \<Rightarrow> d = CHR ''.'' | [] \<Rightarrow> False"
  let ?u = "if ?frac then drop_digits (tl ?t) else ?t"
  obtain i where i: "s' = i @ ?t" "int_part (s' @ x) = Some (i, ?t @ x)"
    using int_part_app [OF assms(2) c(2) refl, of r] unfolding c(1) append_Cons by blast
  have v: "(?frac \<longrightarrow> tl ?t \<noteq> [] \<and> is_digit (hd (tl ?t)))"
    "case ?u of [] \<Rightarrow> True
     | e # t \<Rightarrow> (e = CHR ''e'' \<or> e = CHR ''E'') \<and>
         (let t = (if t \<noteq> [] \<and> (hd t = CHR ''+'' \<or> hd t = CHR ''-'') then tl t else t)
          in t \<noteq> [] \<and> list_all is_digit t)"
    using assms(1) unfolding valid_number_def sg(3) Let_def c(1) list.case by blast+
  obtain f where f: "?t = f @ ?u" "frac_part (?t @ x) = Some (f, ?u @ x)"
    using frac_part_app [OF assms(2) refl refl v(1)] by blast
  have e: "exp_part (?u @ x) = Some (?u, x)" by (rule exp_part_app [OF assms(2) v(2)])
  have "sg @ i @ f @ ?u = s" using sg(1) i(1) f(1) by simp
  then show ?thesis by (simp only: parse_number_def sg(2) Let_def prod.case i(2) f(2) e option.case)
qed

lemma valid_number_head:
  assumes "valid_number s"
  obtains c r where "s = c # r" "is_digit c \<or> c = CHR ''-''"
  using assms by (cases s) (auto simp: valid_number_def Let_def split: if_splits)

lemma json_encode_head:
  assumes "json_ok j"
  shows "\<exists>c r. json_encode j = c # r \<and> \<not> json_ws c \<and> c \<noteq> CHR '']'' \<and> c \<noteq> CHR ''}''"
proof (cases j)
  case (JNum s)
  then obtain c r where "s = c # r" "is_digit c \<or> c = CHR ''-''" using assms valid_number_head [of s] by auto
  then show ?thesis using JNum by (auto simp: is_digit_def json_ws_def)
qed (auto simp: json_ws_def json_string_def)

lemma skip_ws_encode: "json_ok j \<Longrightarrow> skip_ws (json_encode j @ r) = json_encode j @ r"
  using json_encode_head by (fastforce simp: skip_ws_def)

lemma join_Cons: "join sep (x # xs) = x @ (if xs = [] then [] else sep @ join sep xs)"
  by (cases xs) auto

lemma json_list_Nil [simp]: "json_list xs = [] \<longleftrightarrow> xs = []"
  and json_fields_Nil [simp]: "json_fields fs = [] \<longleftrightarrow> fs = []"
  by (cases xs; simp) (cases fs; auto)

lemma ends_number_simps [simp]:
  "ends_number []" "ends_number (CHR '','' # r)" "ends_number (CHR '']'' # r)" "ends_number (CHR ''}'' # r)"
  by (simp_all add: ends_number_def is_digit_def)

lemma skip_ws_char: "\<not> json_ws c \<Longrightarrow> skip_ws (c # r) = c # r"
  by (simp add: skip_ws_def)

lemma json_ws_simps [simp]:
  "\<not> json_ws (CHR '','')" "\<not> json_ws (CHR '']'')" "\<not> json_ws (CHR ''}'')" "\<not> json_ws (CHR '':'')" "\<not> json_ws (CHR 0x22)"
  "\<not> json_ws (CHR ''['')" "\<not> json_ws (CHR ''{'')" "\<not> json_ws (CHR ''t'')" "\<not> json_ws (CHR ''f'')" "\<not> json_ws (CHR ''n'')"
  by (simp_all add: json_ws_def)

lemma parse_encode:
  "json_ok j \<Longrightarrow> ends_number r \<Longrightarrow> length (json_encode j) \<le> n \<Longrightarrow> parse_value n (json_encode j @ r) = Some (j, r)"
  "json_ok_list xs \<Longrightarrow> xs \<noteq> [] \<Longrightarrow> length (join '','' (json_list xs)) < n \<Longrightarrow>
     parse_items n (join '','' (json_list xs) @ CHR '']'' # r) = Some (xs, r)"
  "json_ok_fields fs \<Longrightarrow> fs \<noteq> [] \<Longrightarrow> length (join '','' (json_fields fs)) < n \<Longrightarrow>
     parse_members n (join '','' (json_fields fs) @ CHR ''}'' # r) = Some (fs, r)"
proof (induction j and xs and fs arbitrary: r n and r n and r n
    rule: json_encode_json_list_json_fields.induct)
  case (3 s)
  then obtain c t where s: "s = c # t" "is_digit c \<or> c = CHR ''-''" using valid_number_head [of s] by auto
  then have c: "\<not> json_ws c" "c \<noteq> CHR 0x22" "c \<noteq> CHR ''[''" "c \<noteq> CHR ''{''" "c \<noteq> CHR ''t''" "c \<noteq> CHR ''f''" "c \<noteq> CHR ''n''"
    by (auto simp: is_digit_def json_ws_def)
  have "parse_number (s @ r) = Some (s, r)" using 3 by (intro parse_number_text) simp_all
  with 3(3) s(1) c show ?case by (cases n) (simp_all add: parse_value.simps skip_ws_char)
next
  case (4 s)
  then show ?case by (cases n) (simp_all add: parse_value.simps json_string_def skip_ws_char parse_string_text)
next
  case (5 xs)
  then obtain k where k: "n = Suc k" "length (join '','' (json_list xs)) < k" by (cases n) auto
  show ?case
  proof (cases "xs = []")
    case False
    then obtain x ys where xs: "xs = x # ys" by (cases xs) auto
    then have ok: "json_ok x" using 5(2) by simp
    obtain c t where c: "json_encode x = c # t" "\<not> json_ws c" "c \<noteq> CHR '']''" using json_encode_head [OF ok] by blast
    have "\<not> has_prefix (skip_ws (join '','' (json_list xs) @ CHR '']'' # r)) '']''"
      using c by (simp add: xs join_Cons skip_ws_char)
    with 5(1) [of k r] 5(2) k False show ?thesis by (simp add: parse_value.simps skip_ws_char)
  qed (simp add: k parse_value.simps skip_ws_char)
next
  case (6 fs)
  then obtain k where k: "n = Suc k" "length (join '','' (json_fields fs)) < k" by (cases n) auto
  show ?case
  proof (cases "fs = []")
    case False
    then obtain f v gs where fs: "fs = (f, v) # gs" by (cases fs) auto
    have "\<not> has_prefix (skip_ws (join '','' (json_fields fs) @ CHR ''}'' # r)) ''}''"
      by (simp add: fs join_Cons skip_ws_char json_string_def)
    with 6(1) [of k r] 6(2) k False show ?thesis by (simp add: parse_value.simps skip_ws_char)
  qed (simp add: k parse_value.simps skip_ws_char)
next
  case (8 x xs)
  then obtain k where k: "n = Suc k" by (cases n) auto
  have ok: "json_ok x" "json_ok_list xs" using 8(3) by simp_all
  have v: "ends_number r' \<Longrightarrow> parse_value k (json_encode x @ r') = Some (x, r')" for r'
    using 8(1) [OF ok(1)] 8(5) k by (simp add: join_Cons split: if_splits)
  show ?case
  proof (cases "xs = []")
    case False
    have "parse_items k (join '','' (json_list xs) @ CHR '']'' # r) = Some (xs, r)"
      using 8(2) [OF ok(2) False] 8(5) k False by (simp add: join_Cons)
    with v k False show ?thesis by (simp add: parse_items.simps join_Cons skip_ws_char)
  qed (use v k in \<open>simp add: parse_items.simps skip_ws_char\<close>)
next
  case (10 f v fs)
  then obtain k where k: "n = Suc k" by (cases n) auto
  have ok: "json_ok v" "json_ok_fields fs" using 10(3) by simp_all
  have val: "ends_number r' \<Longrightarrow> parse_value k (json_encode v @ r') = Some (v, r')" for r'
    using 10(1) [OF ok(1)] 10(5) k by (simp add: join_Cons split: if_splits)
  have key: "json_string f @ r' = CHR 0x22 # concat (map json_escape_char f) @ CHR 0x22 # r'" for r'
    by (simp add: json_string_def)
  show ?case
  proof (cases "fs = []")
    case False
    have "parse_members k (join '','' (json_fields fs) @ CHR ''}'' # r) = Some (fs, r)"
      using 10(2) [OF ok(2) False] 10(5) k False by (simp add: join_Cons)
    with val k False show ?thesis by (simp add: parse_members.simps join_Cons skip_ws_char key parse_string_text)
  qed (use val k in \<open>simp add: parse_members.simps skip_ws_char key parse_string_text\<close>)
next
  case 1
  then show ?case by (cases n) (simp_all add: parse_value.simps skip_ws_char parse_literal_def)
next
  case (2 b)
  then show ?case by (cases n; cases b) (simp_all add: parse_value.simps skip_ws_char parse_literal_def)
qed simp_all

lemma parse_json_encode: "json_ok j \<Longrightarrow> ends_number r \<Longrightarrow> parse_json (json_encode j @ r) = Some (j, r)"
  by (simp add: parse_json_def parse_encode)

section \<open>Properties\<close>

text \<open>What \<open>encoding/json\<close> writes for a value it reads back as that value: \<open>Unmarshal\<close> of the text of a value is the
  value, and a \<open>Decoder\<close> finds it at the head of any text that goes on after it.\<close>

lemma json_roundtrip:
  assumes "marshal j = Inr t"
  shows "unmarshal t = Some j \<and> (ends_number r \<longrightarrow> decode_json (t @ r) = Decoded j)"
proof -
  have t: "json_ok j" "t = json_encode j" using assms by (auto simp: marshal_def split: if_splits)
  then have "unmarshal t = Some j" using parse_json_encode [of j "[]"] by (simp add: unmarshal_def skip_ws_def)
  moreover have "skip_ws (t @ r) \<noteq> []"
    using json_encode_head [OF t(1)] skip_ws_encode [OF t(1), of r] t(2) by auto
  ultimately show ?thesis using parse_json_encode [OF t(1)] t(2) by (simp add: decode_json_def)
qed

lemma json_roundtrip_witness:
  "unmarshal (json_encode (JObj [(''a'', JArr [JNum ''12'', JStr [CHR 0x0A]])])) = Some (JObj [(''a'', JArr [JNum ''12'', JStr [CHR 0x0A]])])"
  using json_roundtrip [of "JObj [(''a'', JArr [JNum ''12'', JStr [CHR 0x0A]])]" _ "[]"]
  by (simp add: marshal_def valid_number_def is_digit_def drop_digits_def)

end
