(* ===== verification/Config.thy ===== *)
theory Config
  imports Paths Crypto
begin

text \<open>
  The configuration (\<open>internal/config/config.go\<close>) and the keys of an instance (\<open>internal/util/crypto.go\<close>). The TOML decoder
  is third-party and a parameter, which updates the defaults; the environment maps a variable to its value. The cipher
  AES-GCM is the pair \<open>seal\<close>, \<open>open\<close>. Lemmas: a loaded configuration is valid and follows environment, file, defaults in
  this order; the master key stays the same; what is encrypted decrypts.
\<close>

section \<open>Configuration\<close>

record SrvConf =
  sv_Listen :: string
  sv_PublicURL :: string

record AuthConf =
  av_Registration :: string
  av_MasterKeyPath :: string

record Config =
  cf_Server :: SrvConf
  cf_StoragePath :: string
  cf_Auth :: AuthConf

datatype cfg_err =
    ConfigFile                 \<comment> \<open>config file: it cannot be found\<close>
  | DecodeConfig               \<comment> \<open>decode config\<close>
  | BadRegistration string
  | EmptyListen | BadPublicURL | EmptyStoragePath
  | KeyLength nat | KeyFault | KeyRandom err

definition Default :: Config where
  "Default = \<lparr>cf_Server = \<lparr>sv_Listen = ''127.0.0.1:8080'', sv_PublicURL = ''http://127.0.0.1:8080''\<rparr>,
     cf_StoragePath = ''./data'', cf_Auth = \<lparr>av_Registration = ''closed'', av_MasterKeyPath = []\<rparr>\<rparr>"

definition set_env :: "(string \<Rightarrow> string option) \<Rightarrow> string \<Rightarrow> string \<Rightarrow> string" where
  "set_env env name v = (case env name of Some w \<Rightarrow> if w \<noteq> [] then w else v | None \<Rightarrow> v)"

definition applyEnv :: "(string \<Rightarrow> string option) \<Rightarrow> Config \<Rightarrow> Config" where
  "applyEnv env cfg =
     \<lparr>cf_Server = \<lparr>sv_Listen = set_env env ''VOIDBAR_SERVER_LISTEN'' (sv_Listen (cf_Server cfg)),
                   sv_PublicURL = set_env env ''VOIDBAR_SERVER_PUBLIC_URL'' (sv_PublicURL (cf_Server cfg))\<rparr>,
      cf_StoragePath = set_env env ''VOIDBAR_STORAGE_PATH'' (cf_StoragePath cfg),
      cf_Auth = \<lparr>av_Registration = set_env env ''VOIDBAR_AUTH_REGISTRATION'' (av_Registration (cf_Auth cfg)),
                 av_MasterKeyPath = set_env env ''VOIDBAR_AUTH_MASTER_KEY_PATH'' (av_MasterKeyPath (cf_Auth cfg))\<rparr>\<rparr>"

definition Validate :: "Config \<Rightarrow> cfg_err option" where
  "Validate c =
     (if av_Registration (cf_Auth c) \<notin> {''open'', ''closed''} then Some (BadRegistration (av_Registration (cf_Auth c)))
      else if sv_Listen (cf_Server c) = [] then Some EmptyListen
      else if \<not> has_prefix (sv_PublicURL (cf_Server c)) ''http://'' \<and> \<not> has_prefix (sv_PublicURL (cf_Server c)) ''https://''
      then Some BadPublicURL
      else if cf_StoragePath c = [] then Some EmptyStoragePath
      else None)"

definition Load ::
  "(string \<Rightarrow> Config \<Rightarrow> Config option) \<Rightarrow> (string \<Rightarrow> string option) \<Rightarrow> disk \<Rightarrow> string \<Rightarrow> cfg_err + Config" where
  "Load toml env k path =
     (case (if path = [] then Inr Default
            else case read_file k path of
              Content text \<Rightarrow> (case toml text Default of None \<Rightarrow> Inl DecodeConfig | Some cfg \<Rightarrow> Inr cfg)
            | _ \<Rightarrow> Inl ConfigFile) of
        Inl e \<Rightarrow> Inl e
      | Inr cfg \<Rightarrow>
        let cfg = applyEnv env cfg in
        case Validate cfg of Some e \<Rightarrow> Inl e | None \<Rightarrow> Inr cfg)"

definition MasterKeyPath :: "Config \<Rightarrow> string" where
  "MasterKeyPath c =
     (if av_MasterKeyPath (cf_Auth c) \<noteq> [] then av_MasterKeyPath (cf_Auth c)
      else path_join (cf_StoragePath c) ''master.key'')"

definition GatewayWSURL :: "string \<Rightarrow> string" where
  "GatewayWSURL publicURL =
     (if has_prefix publicURL ''https://'' then ''wss://'' @ trim_prefix publicURL ''https://'' @ ''/gateway''
      else if has_prefix publicURL ''http://'' then ''ws://'' @ trim_prefix publicURL ''http://'' @ ''/gateway''
      else publicURL @ ''/gateway'')"

text \<open>What a variable of the environment, the file and the defaults say of a setting.\<close>

definition setting :: "(string \<Rightarrow> string option) \<Rightarrow> string \<Rightarrow> string \<Rightarrow> string \<Rightarrow> bool" where
  "setting env name v w \<longleftrightarrow> (if env name = None \<or> env name = Some [] then w = v else env name = Some w)"

lemma set_env_setting: "setting env name v (set_env env name v)"
  by (auto simp: setting_def set_env_def split: option.split)

text \<open>C27: A configuration that loads is valid: registration is open or closed, the listener and the storage path are not
  empty, the public URL is http or https, so that clients are sent to a websocket URL with the same host, ws for http and
  wss for https. Each setting is the value of its environment variable, unless that is unset or empty, and otherwise that of
  the file, or the default without a file.\<close>

lemma Load_valid:
  assumes "Load toml env k path = Inr cfg"
  shows "(\<exists>base. (if path = [] then base = Default
            else \<exists>text. read_file k path = Content text \<and> toml text Default = Some base)
      \<and> setting env ''VOIDBAR_SERVER_LISTEN'' (sv_Listen (cf_Server base)) (sv_Listen (cf_Server cfg))
      \<and> setting env ''VOIDBAR_SERVER_PUBLIC_URL'' (sv_PublicURL (cf_Server base)) (sv_PublicURL (cf_Server cfg))
      \<and> setting env ''VOIDBAR_STORAGE_PATH'' (cf_StoragePath base) (cf_StoragePath cfg)
      \<and> setting env ''VOIDBAR_AUTH_REGISTRATION'' (av_Registration (cf_Auth base)) (av_Registration (cf_Auth cfg))
      \<and> setting env ''VOIDBAR_AUTH_MASTER_KEY_PATH'' (av_MasterKeyPath (cf_Auth base)) (av_MasterKeyPath (cf_Auth cfg)))
    \<and> av_Registration (cf_Auth cfg) \<in> {''open'', ''closed''} \<and> sv_Listen (cf_Server cfg) \<noteq> [] \<and> cf_StoragePath cfg \<noteq> []
    \<and> (\<exists>host. (sv_PublicURL (cf_Server cfg) = ''http://'' @ host \<and> GatewayWSURL (sv_PublicURL (cf_Server cfg)) = ''ws://'' @ host @ ''/gateway'')
        \<or> (sv_PublicURL (cf_Server cfg) = ''https://'' @ host \<and> GatewayWSURL (sv_PublicURL (cf_Server cfg)) = ''wss://'' @ host @ ''/gateway''))"
proof -
  obtain base where base: "if path = [] then base = Default
      else \<exists>text. read_file k path = Content text \<and> toml text Default = Some base"
    and cfg: "cfg = applyEnv env base" and v: "Validate cfg = None"
    using assms by (auto simp: Load_def Let_def split: if_splits sum.splits option.splits read_result.splits)
  let ?u = "sv_PublicURL (cf_Server cfg)"
  have "has_prefix ?u ''http://'' \<or> has_prefix ?u ''https://''" using v by (auto simp: Validate_def split: if_splits)
  then have "\<exists>host. (?u = ''http://'' @ host \<and> GatewayWSURL ?u = ''ws://'' @ host @ ''/gateway'')
      \<or> (?u = ''https://'' @ host \<and> GatewayWSURL ?u = ''wss://'' @ host @ ''/gateway'')"
    by (auto simp: has_prefix_iff GatewayWSURL_def trim_prefix_def)
  moreover have "av_Registration (cf_Auth cfg) \<in> {''open'', ''closed''} \<and> sv_Listen (cf_Server cfg) \<noteq> [] \<and> cf_StoragePath cfg \<noteq> []"
    using v by (auto simp: Validate_def split: if_splits)
  ultimately show ?thesis using base
    by (intro conjI exI [of _ base]) (simp_all add: cfg applyEnv_def set_env_setting)
qed

lemma Load_valid_witness:
  "\<exists>cfg. Load (\<lambda>_. Some) (Map.empty(''VOIDBAR_STORAGE_PATH'' \<mapsto> ''/srv'')) \<lparr>dk_files = Map.empty, dk_fault = (\<lambda>_. False), dk_torn = Map.empty\<rparr> [] = Inr cfg
    \<and> cf_StoragePath cfg = ''/srv'' \<and> av_Registration (cf_Auth cfg) = ''closed''"
proof -
  let ?env = "Map.empty(''VOIDBAR_STORAGE_PATH'' \<mapsto> ''/srv'')" and ?k = "\<lparr>dk_files = Map.empty, dk_fault = (\<lambda>_. False), dk_torn = Map.empty\<rparr>"
  have "Load (\<lambda>_. Some) ?env ?k [] = Inr (applyEnv ?env Default)"
    by (simp add: Load_def applyEnv_def set_env_def Default_def Validate_def has_prefix_iff)
  then obtain cfg where cfg: "Load (\<lambda>_. Some) ?env ?k [] = Inr cfg" by blast
  then show ?thesis using Load_valid [OF cfg] by (auto simp: setting_def Default_def)
qed

section \<open>Keys\<close>

definition LoadOrCreateMasterKey :: "'r rand \<Rightarrow> 'r \<Rightarrow> disk \<Rightarrow> string \<Rightarrow> (cfg_err + string) \<times> 'r \<times> disk" where
  "LoadOrCreateMasterKey rnd r k path =
     (case read_file k path of
        Content b \<Rightarrow> (if length b \<noteq> 32 then Inl (KeyLength (length b)) else Inr b, r, k)
      | ReadFault \<Rightarrow> (Inl KeyFault, r, k)
      | NotExist \<Rightarrow>
        (case rnd 32 r of
           (Inl e, r) \<Rightarrow> (Inl (KeyRandom e), r, k)
         | (Inr key, r) \<Rightarrow>
           if dk_fault k (path_dir path) then (Inl KeyFault, r, k)
           else case write_file path key k of (written, k) \<Rightarrow> (if written then Inr key else Inl KeyFault, r, k)))"

text \<open>The cipher: \<open>seal\<close> and \<open>open\<close> of AES-GCM take the key, the nonce and the text; a key has 16, 24 or 32 bytes.\<close>

definition aes_key :: "string \<Rightarrow> bool" where
  "aes_key key = (length key \<in> {16, 24, 32})"

definition gcmNonceSize :: nat where "gcmNonceSize = 12"

definition Encrypt ::
  "(string \<Rightarrow> string \<Rightarrow> string \<Rightarrow> string) \<Rightarrow> 'r rand \<Rightarrow> 'r \<Rightarrow> string \<Rightarrow> string \<Rightarrow> string option \<times> 'r" where
  "Encrypt seal rnd r key plain =
     (if \<not> aes_key key then (None, r)
      else case rnd gcmNonceSize r of
        (Inl _, r) \<Rightarrow> (None, r)
      | (Inr nonce, r) \<Rightarrow> (Some (nonce @ seal key nonce plain), r))"

definition Decrypt :: "(string \<Rightarrow> string \<Rightarrow> string \<Rightarrow> string option) \<Rightarrow> string \<Rightarrow> string \<Rightarrow> string option" where
  "Decrypt openf key data =
     (if \<not> aes_key key \<or> length data < gcmNonceSize then None
      else openf key (take gcmNonceSize data) (drop gcmNonceSize data))"

text \<open>C26: The master key of an instance is created once: whatever happens to be there, a key that is loaded has 32 bytes, and
  from then on the same key is loaded and neither the files nor the random source are touched. A file of another length is
  never taken or overwritten. An error leaves the files as they were, except that a write of a new key that breaks off leaves
  what it has written.\<close>

lemma LoadOrCreateMasterKey_stable:
  assumes "\<And>n r b r'. rnd n r = (Inr b, r') \<Longrightarrow> length b = n"
  shows "case LoadOrCreateMasterKey rnd r k path of
      (Inr key, r', k') \<Rightarrow> length key = 32 \<and> (\<forall>q. LoadOrCreateMasterKey rnd q k' path = (Inr key, q, k'))
        \<and> dk_files k' = (dk_files k)(path \<mapsto> key) \<and> (dk_files k path = None \<or> dk_files k path = Some key)
    | (Inl _, _, k') \<Rightarrow> k' = k
        \<or> (\<exists>key left. dk_files k path = None \<and> dk_torn k path = Some left \<and> length key = 32
             \<and> k' = k\<lparr>dk_files := (dk_files k)(path \<mapsto> left key)\<rparr>)"
proof (cases "read_file k path")
  case (Content b)
  then show ?thesis by (auto simp: LoadOrCreateMasterKey_def read_file_def split: if_splits option.splits)
next
  case ReadFault
  then show ?thesis by (simp add: LoadOrCreateMasterKey_def)
next
  case NotExist
  then have ok: "\<not> dk_fault k path" "dk_files k path = None" by (auto simp: read_file_def split: if_splits option.splits)
  obtain x r' where x: "rnd 32 r = (x, r')" by fastforce
  show ?thesis
  proof (cases x)
    case (Inr key)
    then have "length key = 32" using assms x by blast
    then show ?thesis using NotExist ok x Inr
      by (auto simp: LoadOrCreateMasterKey_def write_file_def read_file_def split: option.split)
  qed (use NotExist x in \<open>simp add: LoadOrCreateMasterKey_def\<close>)
qed

text \<open>A key file that a broken-off write has left is refused by every later start, although no key was ever in use.\<close>

lemma torn_key_refused:
  assumes "\<And>n r b r'. rnd n r = (Inr b, r') \<Longrightarrow> length b = n"
    and "dk_files k path = None" "\<not> dk_fault k path" "\<not> dk_fault k (path_dir path)"
    and "dk_torn k path = Some left" "\<And>b. length (left b) \<noteq> 32" "rnd 32 r = (Inr b, r')"
  shows "\<exists>k'. LoadOrCreateMasterKey rnd r k path = (Inl KeyFault, r', k')
    \<and> (\<forall>q. LoadOrCreateMasterKey rnd q k' path = (Inl (KeyLength (length (left b))), q, k'))"
  using assms(2-7) by (simp add: LoadOrCreateMasterKey_def read_file_def write_file_def)

lemma LoadOrCreateMasterKey_stable_witness:
  "\<exists>key k. LoadOrCreateMasterKey (\<lambda>n r. (Inr (replicate n (CHR ''k'')), r)) (0::nat) \<lparr>dk_files = Map.empty, dk_fault = (\<lambda>_. False), dk_torn = Map.empty\<rparr> ''/srv/master.key''
      = (Inr key, 0, k) \<and> length key = 32
    \<and> LoadOrCreateMasterKey (\<lambda>n r. (Inr (replicate n (CHR ''k'')), r)) (5::nat) k ''/srv/master.key'' = (Inr key, 5, k)"
proof -
  let ?rnd = "\<lambda>n r :: nat. (Inr (replicate n (CHR ''k'')), r)" and ?k = "\<lparr>dk_files = Map.empty, dk_fault = (\<lambda>_. False), dk_torn = Map.empty\<rparr>"
  obtain key k where "LoadOrCreateMasterKey ?rnd 0 ?k ''/srv/master.key'' = (Inr key, 0, k)"
    by (simp add: LoadOrCreateMasterKey_def read_file_def write_file_def)
  then show ?thesis using LoadOrCreateMasterKey_stable [where rnd = ?rnd and r = 0 and k = ?k and path = "''/srv/master.key''"] by auto
qed

lemma Decrypt_Encrypt:
  assumes "\<And>key nonce t. openf key nonce (seal key nonce t) = Some t"
    and "\<And>n r b r'. rnd n r = (Inr b, r') \<Longrightarrow> length b = n"
    and "Encrypt seal rnd r key t = (Some c, r')"
  shows "Decrypt openf key c = Some t"
  using assms(1,3) assms(2) [of gcmNonceSize] by (auto simp: Encrypt_def Decrypt_def split: if_splits prod.splits sum.splits)

end
