(* ===== verification/RestBase.thy ===== *)
theory RestBase
  imports Service ProtoMerge JsonParse Config
begin

text \<open>
  The HTTP API (\<open>internal/discord/rest\<close>), first part: requests, replies and how a handler runs; tokens; the handlers of
  \<open>server.go\<close> and \<open>admin.go\<close>. A handler takes the state of the connection manager, which holds the gateway, the accounts
  and the database, and gives its reply with the new state; it is None when the Go code panics or never returns. The
  services are taken to be set, as in \<open>cmd/voidbar\<close>. The clock of a request is one reading. Routing and the parsing of HTTP
  are \<open>net/http\<close>: a request is its method, headers, query, path values and body.
\<close>

section \<open>Requests and replies\<close>

text \<open>The parts of a multipart body: form values and files, in order.\<close>

type_synonym form = "(string \<times> string) list \<times> (string \<times> (string \<times> string option) list) list"

record request =
  rq_method :: string
  rq_path :: "string list"
  rq_header :: "string \<Rightarrow> string"
  rq_query :: "(string \<times> string) list"
  rq_value :: "string \<Rightarrow> string"
  rq_body :: string
  rq_form :: "form option"
  rq_host :: string
  rq_tls :: bool

text \<open>A JSON reply, a bare status, a file with its headers, and \<open>http.NotFound\<close>.\<close>

datatype reply = Reply int json | Status int | File "(string \<times> string) list" string | NotFoundPage

definition jerror :: "int \<Rightarrow> string \<Rightarrow> reply" where
  "jerror status msg = Reply status (json_map [(''message'', JStr msg)])"

definition query_get :: "request \<Rightarrow> string \<Rightarrow> string" where
  "query_get r k = (case map_of (rq_query r) k of Some v \<Rightarrow> v | None \<Rightarrow> [])"

definition query_all :: "request \<Rightarrow> string \<Rightarrow> string list" where
  "query_all r k = map snd (filter (\<lambda>(n, _). n = k) (rq_query r))"

text \<open>\<open>strconv.Atoi\<close> on a query parameter.\<close>

definition query_int :: "request \<Rightarrow> string \<Rightarrow> int option" where
  "query_int r k = (case parse_int64 (query_get r k) of Inr n \<Rightarrow> Some n | Inl _ \<Rightarrow> None)"

text \<open>What the handlers use of the world: the configuration, the random source and key derivation, rendering and reading of
  images, content types, the text of a float64 and of an error, the order of a map of peers, and the reply to a websocket
  handshake.\<close>

record 'r rest_env =
  re_publicURL :: string
  re_argon :: argon
  re_rand :: "'r rand"
  re_goroutines :: int
  re_clock :: string
  re_disc :: "nat \<times> nat \<times> nat \<Rightarrow> string option"
  re_dims :: "string \<Rightarrow> (int \<times> int) option"
  re_mime :: "string \<Rightarrow> string"
  re_sniff :: "string \<Rightarrow> string"
  re_float :: "string \<Rightarrow> string option"
  re_errtext :: "err \<Rightarrow> string"
  re_badconn :: "string \<Rightarrow> string"
  re_barrier :: nat
  re_peers :: "conn \<Rightarrow> string list"
  re_upgrade :: "request \<Rightarrow> reply"

section \<open>How a handler runs\<close>

type_synonym ('d, 'r, 'a) act = "('d, 'r) Manager \<Rightarrow> ('a \<times> ('d, 'r) Manager) option"

definition answer :: "'a \<Rightarrow> ('d, 'r, 'a) act" where
  "answer x m = Some (x, m)"

definition thendo :: "('d, 'r, 'a) act \<Rightarrow> ('a \<Rightarrow> ('d, 'r, 'b) act) \<Rightarrow> ('d, 'r, 'b) act" where
  "thendo f g m = (case f m of None \<Rightarrow> None | Some (x, m) \<Rightarrow> g x m)"

definition reads :: "(('d, 'r) Manager \<Rightarrow> 'a) \<Rightarrow> ('d, 'r, 'a) act" where
  "reads f m = Some (f m, m)"

definition does :: "(('d, 'r) Manager \<Rightarrow> 'a \<times> ('d, 'r) Manager) \<Rightarrow> ('d, 'r, 'a) act" where
  "does f m = Some (f m)"

definition fires :: "string \<Rightarrow> string \<Rightarrow> json \<Rightarrow> time \<Rightarrow> ('d, 'r, unit) act" where
  "fires userID t pl now m = map_option (Pair ()) (gw_dispatch userID t pl now m)"

fun for_each :: "('a \<Rightarrow> ('d, 'r, unit) act) \<Rightarrow> 'a list \<Rightarrow> ('d, 'r, unit) act" where
  "for_each f [] = answer ()"
| "for_each f (x # xs) = thendo (f x) (\<lambda>_. for_each f xs)"

text \<open>An operation on the accounts, which live in the gateway's state.\<close>

definition with_auth :: "(('d, 'r) auth \<Rightarrow> 'a \<times> ('d, 'r) auth) \<Rightarrow> ('d, 'r, 'a) act" where
  "with_auth f m = (let (x, a) = f (gw_auth (m_gw m)) in Some (x, m\<lparr>m_gw := (m_gw m)\<lparr>gw_auth := a\<rparr>\<rparr>))"

text \<open>An operation of the service whose errors the handler answers.\<close>

definition trying :: "('d, 'r, 'a) svc \<Rightarrow> (err \<Rightarrow> ('d, 'r, 'b) act) \<Rightarrow> ('a \<Rightarrow> ('d, 'r, 'b) act) \<Rightarrow> ('d, 'r, 'b) act" where
  "trying f bad good = thendo f (\<lambda>r. case r of Inl e \<Rightarrow> bad e | Inr x \<Rightarrow> good x)"

section \<open>Reading a body\<close>

text \<open>A struct field of pointer type: absent and \<open>null\<close> are nil. None is a type error.\<close>

fun ptr_field :: "(json \<Rightarrow> 'a option) \<Rightarrow> string \<Rightarrow> 'a option \<Rightarrow> (string \<times> json) list \<Rightarrow> 'a option option" where
  "ptr_field dec name v [] = Some v"
| "ptr_field dec name v ((k, j) # kvs) =
     (if equal_fold k name then
        (case j of
           JNull \<Rightarrow> ptr_field dec name None kvs
         | _ \<Rightarrow> (case dec j of Some x \<Rightarrow> ptr_field dec name (Some x) kvs | None \<Rightarrow> None))
      else ptr_field dec name v kvs)"

definition dec_str :: "json \<Rightarrow> string option" where
  "dec_str j = (case j of JStr s \<Rightarrow> Some s | _ \<Rightarrow> None)"

definition dec_int :: "json \<Rightarrow> int option" where
  "dec_int j = (case j of JNum s \<Rightarrow> (case parse_int64 s of Inr n \<Rightarrow> Some n | Inl _ \<Rightarrow> None) | _ \<Rightarrow> None)"

definition struct_of :: "json \<Rightarrow> (string \<times> json) list option" where
  "struct_of j = GatewayServer.fields_of (Some j)"

text \<open>\<open>Decoder.Decode\<close> into a struct: None is any error, the end of the body included.\<close>

definition body_struct :: "request \<Rightarrow> (string \<times> json) list option" where
  "body_struct r = (case decode_json (rq_body r) of Decoded j \<Rightarrow> struct_of j | _ \<Rightarrow> None)"

definition limited :: "nat \<Rightarrow> request \<Rightarrow> request" where
  "limited n r = r\<lparr>rq_body := take n (rq_body r)\<rparr>"

text \<open>A value decoded into an interface: the last of equal keys wins, and a number goes through \<open>num\<close>.\<close>

fun go_any :: "(string \<Rightarrow> string option) \<Rightarrow> json \<Rightarrow> json option"
  and go_list :: "(string \<Rightarrow> string option) \<Rightarrow> json list \<Rightarrow> json list option"
  and go_fields :: "(string \<Rightarrow> string option) \<Rightarrow> (string \<times> json) list \<Rightarrow> (string \<times> json) list option" where
  "go_any num JNull = Some JNull"
| "go_any num (JBool b) = Some (JBool b)"
| "go_any num (JNum s) = map_option JNum (num s)"
| "go_any num (JStr s) = Some (JStr s)"
| "go_any num (JArr xs) = map_option JArr (go_list num xs)"
| "go_any num (JObj kvs) = map_option (\<lambda>kvs. json_map (fold (\<lambda>(k, v). AList.update k v) kvs [])) (go_fields num kvs)"
| "go_list num [] = Some []"
| "go_list num (x # xs) = Option.bind (go_any num x) (\<lambda>x. map_option ((#) x) (go_list num xs))"
| "go_fields num [] = Some []"
| "go_fields num ((k, v) # kvs) =
     Option.bind (go_any num v) (\<lambda>v. map_option ((#) (k, v)) (go_fields num kvs))"

text \<open>The raw text of a value as the custom unmarshalers see it. A string without escapes is itself between quotes.\<close>

definition flex_text :: "json \<Rightarrow> string" where
  "flex_text j = (let s = trim_set [CHR 0x22] (json_encode j) in if s = ''null'' then [] else s)"

fun flex_field :: "string \<Rightarrow> string \<Rightarrow> (string \<times> json) list \<Rightarrow> string" where
  "flex_field name v [] = v"
| "flex_field name v ((k, j) # kvs) = flex_field name (if equal_fold k name then flex_text j else v) kvs"

section \<open>Tokens\<close>

definition bearerToken :: "request \<Rightarrow> string" where
  "bearerToken r =
     (let h = rq_header r ''Authorization''; (scheme, rest) = cut_byte h (CHR '' '') in
      if CHR '' '' \<in> set h \<and> (scheme = ''Bearer'' \<or> scheme = ''Bot'') then trim_space rest
      else trim_space h)"

definition unauthorized :: reply where
  "unauthorized = jerror 401 ''401: Unauthorized''"

type_synonym ('d, 'r) handler = "request \<Rightarrow> User \<Rightarrow> ('d, 'r, reply) act"

definition requireAuth :: "'d store \<Rightarrow> time \<Rightarrow> ('d, 'r) handler \<Rightarrow> request \<Rightarrow> ('d, 'r, reply) act" where
  "requireAuth B now next r =
     (let token = bearerToken r in
      if token = [] then answer unauthorized
      else
        thendo (with_auth (\<lambda>a. ValidateToken B a token now)) (\<lambda>v.
        case v of Inl _ \<Rightarrow> answer unauthorized | Inr u \<Rightarrow> next r u))"

section \<open>Accounts\<close>

definition struct3 :: "request \<Rightarrow> string \<Rightarrow> string \<Rightarrow> string \<Rightarrow> (string \<times> string \<times> string) option" where
  "struct3 r a b c =
     Option.bind (body_struct r) (\<lambda>kvs.
     Option.bind (str_field a [] kvs) (\<lambda>x.
     Option.bind (str_field b [] kvs) (\<lambda>y.
     map_option (\<lambda>z. (x, y, z)) (str_field c [] kvs))))"

text \<open>\<open>err.Error()\<close>: the errors that the program names, and the others by their own text.\<close>

definition error_text :: "'r rest_env \<Rightarrow> err \<Rightarrow> string" where
  "error_text E e =
     (case e of
        ErrRegistrationClosed \<Rightarrow> ''registration is closed''
      | ErrInvalidCredentials \<Rightarrow> ''invalid credentials''
      | ErrInvalidUsername \<Rightarrow> ''username must be 2-32 chars: a-z 0-9 . _''
      | ErrInvalidEmail \<Rightarrow> ''invalid email''
      | ErrInvalidPassword \<Rightarrow> ''password must be 8-128 chars''
      | ErrNotFound \<Rightarrow> ''not found''
      | ErrUsernameTaken \<Rightarrow> ''username already taken''
      | ErrEmailTaken \<Rightarrow> ''email already taken''
      | _ \<Rightarrow> re_errtext E e)"

definition register_error :: "'r rest_env \<Rightarrow> err \<Rightarrow> reply" where
  "register_error E e =
     (if e = ErrRegistrationClosed then jerror 403 ''Registration is closed''
      else if e \<in> {ErrInvalidUsername, ErrInvalidEmail, ErrInvalidPassword} then jerror 400 (error_text E e)
      else if e = ErrUsernameTaken then jerror 409 ''Username is already taken''
      else if e = ErrEmailTaken then jerror 409 ''Email is already registered''
      else jerror 500 ''Internal server error'')"

definition token_reply :: "string \<Rightarrow> reply" where
  "token_reply token = Reply 200 (JObj [(''token'', JStr token)])"

definition handleRegister :: "'d store \<Rightarrow> 'r rest_env \<Rightarrow> time \<Rightarrow> request \<Rightarrow> ('d, 'r, reply) act" where
  "handleRegister B E now r =
     (case struct3 r ''username'' ''email'' ''password'' of
        None \<Rightarrow> answer (jerror 400 ''Invalid JSON body'')
      | Some (name, email, password) \<Rightarrow>
        thendo (with_auth (\<lambda>a. Register B (re_argon E) (re_rand E) a name email password now)) (\<lambda>v.
        answer (case v of Inl e \<Rightarrow> register_error E e | Inr (_, token) \<Rightarrow> token_reply token)))"

definition handleLogin :: "'d store \<Rightarrow> 'r rest_env \<Rightarrow> time \<Rightarrow> request \<Rightarrow> ('d, 'r, reply) act" where
  "handleLogin B E now r =
     (case Option.bind (body_struct r) (\<lambda>kvs.
           Option.bind (str_field ''login'' [] kvs) (\<lambda>l. map_option (Pair l) (str_field ''password'' [] kvs))) of
        None \<Rightarrow> answer (jerror 400 ''Invalid JSON body'')
      | Some (login, password) \<Rightarrow>
        thendo (with_auth (\<lambda>a. Login B (re_argon E) (re_rand E) a login password now)) (\<lambda>v.
        answer (case v of Inl _ \<Rightarrow> jerror 401 ''Invalid credentials'' | Inr (_, token) \<Rightarrow> token_reply token)))"

definition handleLogout :: "'d store \<Rightarrow> ('d, 'r) handler" where
  "handleLogout B r u =
     thendo (with_auth (\<lambda>a. Logout B a (bearerToken r))) (\<lambda>v.
     answer (case v of Inl _ \<Rightarrow> jerror 500 ''Logout failed'' | Inr _ \<Rightarrow> Status 204))"

definition handleMe :: "('d, 'r) handler" where
  "handleMe r u = answer (Reply 200 (ToUser u))"

definition adminPayload :: "User \<Rightarrow> json" where
  "adminPayload u =
     JObj [(''username'', JStr (u_Username u)), (''email'', JStr (u_Email u)), (''admin'', JBool (u_IsAdmin u)),
           (''id'', JStr (u_ID u))]"

definition handleAdminCreateUser :: "'d store \<Rightarrow> 'r rest_env \<Rightarrow> time \<Rightarrow> request \<Rightarrow> ('d, 'r, reply) act" where
  "handleAdminCreateUser B E now r =
     thendo (reads (\<lambda>m. AdminAuthorized (gw_auth (m_gw m)) (rq_header r ''X-Master-Key''))) (\<lambda>ok.
     if \<not> ok then answer (jerror 401 ''invalid master key'')
     else case Option.bind (struct3 (limited (2 ^ 16) r) ''username'' ''email'' ''password'') (\<lambda>q.
          Option.bind (body_struct (limited (2 ^ 16) r)) (\<lambda>kvs. map_option (Pair q) (bool_field ''admin'' False kvs))) of
       None \<Rightarrow> answer (jerror 400 ''invalid body'')
     | Some ((name, email, password), admin) \<Rightarrow>
       thendo (with_auth (\<lambda>a. CreateUserAdmin B (re_argon E) (re_rand E) a name email password admin now)) (\<lambda>v.
       answer (case v of Inl e \<Rightarrow> jerror 400 (error_text E e) | Inr u \<Rightarrow> Reply 201 (adminPayload u))))"

definition handleAdminListUsers :: "'d store \<Rightarrow> request \<Rightarrow> ('d, 'r, reply) act" where
  "handleAdminListUsers B r =
     reads (\<lambda>m.
       if \<not> AdminAuthorized (gw_auth (m_gw m)) (rq_header r ''X-Master-Key'') then jerror 401 ''invalid master key''
       else case ListUsers B (m_db m) of
         Inl _ \<Rightarrow> jerror 500 ''failed to list users''
       | Inr us \<Rightarrow> Reply 200 (JArr (map adminPayload us)))"

text \<open>\<open>Fingerprint\<close> of the accounts.\<close>

definition Fingerprint :: "'r rest_env \<Rightarrow> time \<Rightarrow> ('d, 'r) auth \<Rightarrow> string \<times> ('d, 'r) auth" where
  "Fingerprint E now a =
     (let (tok, rs) = RandomToken (re_rand E) (au_rand a) 27;
          hash = (case tok of Inr t \<Rightarrow> t | Inl _ \<Rightarrow> re_clock E);
          (i, sf) = New (au_sf a) (now div 1000000)
      in (i @ ''.'' @ hash, a\<lparr>au_rand := rs, au_sf := sf\<rparr>))"

definition handleAuthFingerprint :: "'r rest_env \<Rightarrow> time \<Rightarrow> request \<Rightarrow> ('d, 'r, reply) act" where
  "handleAuthFingerprint E now r =
     thendo (with_auth (Fingerprint E now)) (\<lambda>f. answer (Reply 200 (json_map [(''fingerprint'', JStr f)])))"

section \<open>Discovery\<close>

definition Version :: string where
  "Version = ''0.1.0''"

definition handleHealth :: "'r rest_env \<Rightarrow> request \<Rightarrow> ('d, 'r, reply) act" where
  "handleHealth E r =
     reads (\<lambda>m. case SessionStats (m_gw m) of (active, known) \<Rightarrow>
       Reply 200 (json_map [(''status'', JStr ''ok''), (''version'', JStr Version), (''goroutines'', JInt (re_goroutines E)),
         (''gw_sessions_live'', JInt (int active)), (''gw_sessions_total'', JInt (int known))]))"

definition handleGateway :: "'r rest_env \<Rightarrow> request \<Rightarrow> ('d, 'r, reply) act" where
  "handleGateway E r = answer (Reply 200 (json_map [(''url'', JStr (GatewayWSURL (re_publicURL E)))]))"

definition handleGatewayBot :: "'r rest_env \<Rightarrow> request \<Rightarrow> ('d, 'r, reply) act" where
  "handleGatewayBot E r =
     answer (Reply 200 (json_map [(''url'', JStr (GatewayWSURL (re_publicURL E))), (''shards'', JInt 1),
       (''session_start_limit'', json_map [(''total'', JInt 1000), (''remaining'', JInt 1000), (''reset_after'', JInt 0),
          (''max_concurrency'', JInt 1)])]))"

definition instanceBase :: "request \<Rightarrow> string \<times> string" where
  "instanceBase r =
     (if rq_tls r then (''https://'' @ rq_host r, ''wss://'' @ rq_host r) else (''http://'' @ rq_host r, ''ws://'' @ rq_host r))"

definition handleWellKnownClient :: "request \<Rightarrow> ('d, 'r, reply) act" where
  "handleWellKnownClient r =
     (case instanceBase r of (httpBase, wsBase) \<Rightarrow>
      answer (Reply 200 (json_map
        [(''api'', json_map [(''baseUrl'', JStr httpBase),
            (''apiVersions'', json_map [(''default'', JStr ''v9''), (''active'', JArr [JStr ''v9''])])]),
         (''gateway'', json_map [(''baseUrl'', JStr (wsBase @ ''/gateway?v=9&encoding=json'')),
            (''encoding'', JArr [JStr ''json'']), (''compression'', JArr [JStr ''zlib-stream''])]),
         (''cdn'', json_map [(''baseUrl'', JStr httpBase)]), (''admin'', json_map [(''baseUrl'', JStr httpBase)])])))"

definition handleWellKnown :: "request \<Rightarrow> ('d, 'r, reply) act" where
  "handleWellKnown r = answer (Reply 200 (json_map [(''api'', JStr (fst (instanceBase r) @ ''/api''))]))"

definition handleInstanceDomains :: "request \<Rightarrow> ('d, 'r, reply) act" where
  "handleInstanceDomains r =
     (case instanceBase r of (httpBase, wsBase) \<Rightarrow>
      answer (Reply 200 (json_map [(''cdn'', JStr httpBase), (''gateway'', JStr (wsBase @ ''/gateway?v=9&encoding=json'')),
        (''defaultApiVersion'', JStr ''9''), (''apiEndpoint'', JStr (httpBase @ ''/api/v9'')), (''assets'', JArr [JStr httpBase])])))"

section \<open>What a user sees of themselves\<close>

definition handleUserSettings :: "'d store \<Rightarrow> ('d, 'r) handler" where
  "handleUserSettings B r u = reads (\<lambda>m. Reply 200 (json_map (SettingsWithDefaults (UserSettings B (m_db m) (u_ID u)))))"

definition handleUserGuilds :: "'d store \<Rightarrow> ('d, 'r) handler" where
  "handleUserGuilds B r u =
     reads (\<lambda>m. case GuildsForUser B m (u_ID u) of
       Inl _ \<Rightarrow> jerror 500 ''failed to list guilds'' | Inr gs \<Rightarrow> Reply 200 (JArr gs))"

definition handleUserChannels :: "'d store \<Rightarrow> ('d, 'r) handler" where
  "handleUserChannels B r u = reads (\<lambda>m. Reply 200 (JArr (DMChannelPayloads B m (u_ID u))))"

end
