(* ===== verification/RestFiles.thy ===== *)
theory RestFiles
  imports RestBase
begin

text \<open>
  The HTTP API, second part: files. Avatars and icons (\<open>avatars.go\<close>), the default discs (\<open>avatars.go\<close>,
  \<open>defaultavatar.go\<close>) and attachments (\<open>attachments.go\<close>). The drawing of a disc and its PNG encoding, the reading of image
  dimensions, the table of content types and content sniffing are in the environment; the memory of drawn discs is left
  out, as it changes no reply, and so is a connection that breaks while a body is read.
\<close>

section \<open>Avatars\<close>

definition defaultAvatarColors :: "(string \<times> nat \<times> nat \<times> nat) list" where
  "defaultAvatarColors =
     [(''6debd47ed13483642cf09e832ed0bc1b'', 59, 130, 246), (''322c936a8c8be1b803cd94861bdfa868'', 148, 155, 164),
      (''dd4dbc0016779df1378e7812eabaa04d'', 35, 165, 90), (''0e291f67c9274a1abdddeb3fd919cbaa'', 240, 178, 50),
      (''1cbd08c76f8af6dddce02c5138971129'', 242, 63, 67)]"

definition defaultAvatarPNG :: "'r rest_env \<Rightarrow> string \<Rightarrow> string option" where
  "defaultAvatarPNG E name = Option.bind (map_of defaultAvatarColors (trim_suffix name ''.png'')) (re_disc E)"

definition handleAsset :: "'r rest_env \<Rightarrow> request \<Rightarrow> ('d, 'r, reply) act" where
  "handleAsset E r =
     answer (case defaultAvatarPNG E (rq_value r ''name'') of
       None \<Rightarrow> NotFoundPage
     | Some data \<Rightarrow> File [(''Content-Type'', ''image/png''), (''Cache-Control'', ''public, max-age=604800'')] data)"

definition defaultAvatarIndexHashes :: "string list" where
  "defaultAvatarIndexHashes =
     [''6debd47ed13483642cf09e832ed0bc1b'', ''322c936a8c8be1b803cd94861bdfa868'', ''dd4dbc0016779df1378e7812eabaa04d'',
      ''0e291f67c9274a1abdddeb3fd919cbaa'', ''1cbd08c76f8af6dddce02c5138971129'', ''6debd47ed13483642cf09e832ed0bc1b'']"

definition handleDefaultAvatar :: "'r rest_env \<Rightarrow> request \<Rightarrow> ('d, 'r, reply) act" where
  "handleDefaultAvatar E r =
     answer (case parse_int64 (trim_suffix (rq_value r ''n'') ''.png'') of
       Inl _ \<Rightarrow> NotFoundPage
     | Inr idx \<Rightarrow>
       if idx < 0 then NotFoundPage
       else case defaultAvatarPNG E (defaultAvatarIndexHashes ! (nat idx mod length defaultAvatarIndexHashes) @ ''.png'') of
         None \<Rightarrow> NotFoundPage
       | Some data \<Rightarrow>
         File [(''Content-Type'', ''image/png''), (''Cache-Control'', ''public, max-age=604800, immutable'')] data)"

text \<open>The data URI of an avatar field: null and anything but a string clear the avatar.\<close>

definition avatar_value :: "json \<Rightarrow> string" where
  "avatar_value j = (case j of JStr s \<Rightarrow> trim_space s | _ \<Rightarrow> [])"

definition avatar_error :: "err \<Rightarrow> reply" where
  "avatar_error e =
     (if e \<in> {ErrBadAvatarDataURI, ErrAvatarTooLarge, ErrAvatarType} then jerror 400 ''invalid avatar''
      else jerror 500 ''avatar store failed'')"

text \<open>A body decoded into a map: the keys are exact and the last of equal keys wins.\<close>

definition body_map :: "request \<Rightarrow> (string \<times> json) list option" where
  "body_map r =
     (case decode_json (rq_body r) of
        Decoded (JObj kvs) \<Rightarrow> Some (fold (\<lambda>(k, v). AList.update k v) kvs [])
      | Decoded JNull \<Rightarrow> Some []
      | _ \<Rightarrow> None)"

definition handleUpdateMe :: "'d store \<Rightarrow> 'r rest_env \<Rightarrow> time \<Rightarrow> ('d, 'r) handler" where
  "handleUpdateMe B E now r u =
     (case body_map r of
        None \<Rightarrow> answer (jerror 400 ''Invalid JSON body'')
      | Some req \<Rightarrow>
        (case map_of req ''avatar'' of
           Some raw \<Rightarrow>
             trying (SetGlobalAvatar B (re_publicURL E) now (u_ID u) (avatar_value raw))
               (\<lambda>e. answer (avatar_error e)) (\<lambda>updated. answer (Reply 200 (ToUser updated)))
         | None \<Rightarrow> answer (Reply 200 (ToUser u))))"

definition handleAvatarFile :: "'d store \<Rightarrow> request \<Rightarrow> ('d, 'r, reply) act" where
  "handleAvatarFile B r =
     reads (\<lambda>m.
       let hash = fold (\<lambda>ext s. trim_suffix s ext) [''.png'', ''.jpg'', ''.jpeg'', ''.webp'', ''.gif''] (rq_value r ''hash'') in
       if hash = [] then NotFoundPage
       else case GetAvatar B (m_db m) hash of
         Inl _ \<Rightarrow> NotFoundPage
       | Inr (att, data) \<Rightarrow>
         File [(''Content-Type'', if at_ContentType att = [] then ''image/png'' else at_ContentType att),
               (''Cache-Control'', ''public, max-age=604800''), (''Content-Length'', format_nat (length data))]
           (if rq_method r = ''HEAD'' then [] else data))"

section \<open>Attachments\<close>

definition maxUploadBytes :: nat where
  "maxUploadBytes = 100 * 2 ^ 20"

definition randomToken :: "'r rest_env \<Rightarrow> ('d, 'r) auth \<Rightarrow> string \<times> ('d, 'r) auth" where
  "randomToken E a =
     (let (b, rs) = re_rand E 16 (au_rand a)
      in (hex_encode (case b of Inr b \<Rightarrow> b | Inl _ \<Rightarrow> replicate 16 (CHR 0x00)), a\<lparr>au_rand := rs\<rparr>))"

definition sanitizeFilename :: "string \<Rightarrow> string" where
  "sanitizeFilename name =
     (let name = trim_space (path_base (map (\<lambda>c. if c = CHR 0x5C then CHR ''/'' else c) name)) in
      if name = [] \<or> name = ''.'' \<or> name = ''..'' then ''file'' else name)"

definition attachmentURL :: "string \<Rightarrow> string \<Rightarrow> string \<Rightarrow> string" where
  "attachmentURL publicURL i filename = trim_suffix publicURL ''/'' @ ''/attachments/'' @ i @ ''/'' @ filename"

definition attachmentPayload :: "string \<Rightarrow> string \<Rightarrow> Attachment \<Rightarrow> json" where
  "attachmentPayload publicURL rowID att =
     (let url = attachmentURL publicURL (at_ID att) (at_Filename att) in
      json_map ([(''id'', JStr rowID), (''filename'', JStr (at_Filename att)), (''size'', JInt (at_Size att)),
         (''url'', JStr url), (''proxy_url'', JStr url), (''content_type'', JStr (at_ContentType att))]
        @ (if at_Width att > 0 \<and> at_Height att > 0
           then [(''width'', JInt (at_Width att)), (''height'', JInt (at_Height att))] else [])))"

text \<open>\<open>filepath.Ext\<close>.\<close>

definition path_ext :: "string \<Rightarrow> string" where
  "path_ext p =
     (let b = rev (takeWhile (\<lambda>c. c \<noteq> CHR ''/'') (rev p)) in
      if CHR ''.'' \<in> set b then CHR ''.'' # rev (takeWhile (\<lambda>c. c \<noteq> CHR ''.'') (rev b)) else [])"

definition contentTypeFor :: "'r rest_env \<Rightarrow> string \<Rightarrow> string \<Rightarrow> string" where
  "contentTypeFor E filename data =
     (let ct = re_mime E (to_lower (path_ext filename)) in if ct \<noteq> [] then ct else re_sniff E data)"

definition sniffDims :: "'r rest_env \<Rightarrow> string \<Rightarrow> Attachment \<Rightarrow> Attachment" where
  "sniffDims E data att =
     (case re_dims E data of Some (w, h) \<Rightarrow> att\<lparr>at_Width := w, at_Height := h\<rparr> | None \<Rightarrow> att)"

definition new_attachment :: "'r rest_env \<Rightarrow> time \<Rightarrow> string \<Rightarrow> string \<Rightarrow> string \<Rightarrow> string \<Rightarrow> Attachment" where
  "new_attachment E now i filename ct data =
     sniffDims E data \<lparr>at_ID = i, at_Filename = filename, at_ContentType = ct, at_Size = int (length data), at_Width = 0,
       at_Height = 0, at_UploadedAt = now div 1000000000\<rparr>"

text \<open>The entries of a request for slots: id, name and size.\<close>

definition slot_request :: "json \<Rightarrow> (string \<times> string \<times> int) option" where
  "slot_request j =
     Option.bind (struct_of j) (\<lambda>kvs.
     Option.bind (str_field ''id'' [] kvs) (\<lambda>i.
     Option.bind (str_field ''filename'' [] kvs) (\<lambda>f. map_option (\<lambda>n. (i, f, n)) (int_field ''file_size'' 0 kvs))))"

definition slot_requests :: "request \<Rightarrow> (string \<times> string \<times> int) list option" where
  "slot_requests r =
     Option.bind (body_struct (limited (2 ^ 20) r)) (\<lambda>kvs.
     Option.bind (list_field ''files'' [] kvs) (\<lambda>files.
     those (map slot_request files)))"

fun create_slots ::
  "'d store \<Rightarrow> 'r rest_env \<Rightarrow> time \<Rightarrow> string \<Rightarrow> string \<Rightarrow> json list \<Rightarrow> (string \<times> string \<times> int) list \<Rightarrow> ('d, 'r, reply) act" where
  "create_slots B E now userID channelID out [] = answer (Reply 200 (json_map [(''attachments'', JArr out)]))"
| "create_slots B E now userID channelID out ((i, name, n) # files) =
     (if n \<le> 0 \<or> n > int maxUploadBytes then answer (jerror 400 ''file_size out of range'')
      else
        let filename = sanitizeFilename name in
        thendo (with_auth (randomToken E)) (\<lambda>token.
        thendo (with_auth (randomToken E)) (\<lambda>prefix.
        let uploadFilename = prefix @ ''/'' @ filename in
        trying (store_do (\<lambda>d. CreateUpload B d \<lparr>pu_Token = token, pu_UploadFilename = uploadFilename, pu_Filename = filename,
                 pu_UserID = userID, pu_ChannelID = channelID, pu_FileSize = n, pu_CreatedAt = now div 1000000000\<rparr>))
          (\<lambda>_. answer (jerror 500 ''upload slot failed''))
          (\<lambda>_. create_slots B E now userID channelID
             (out @ [json_map [(''id'', JStr i),
                (''upload_url'', JStr (trim_suffix (re_publicURL E) ''/'' @ ''/api/v9/uploads/'' @ token)),
                (''upload_filename'', JStr uploadFilename)]]) files))))"

definition handleCreateAttachments :: "'d store \<Rightarrow> 'r rest_env \<Rightarrow> time \<Rightarrow> ('d, 'r) handler" where
  "handleCreateAttachments B E now r u =
     (case slot_requests r of
        None \<Rightarrow> answer (jerror 400 ''invalid body'')
      | Some files \<Rightarrow>
        if length files = 0 \<or> length files > 10 then answer (jerror 400 ''files must contain 1-10 entries'')
        else create_slots B E now (u_ID u) (rq_value r ''channel'') [] files)"

definition handleUpload :: "'d store \<Rightarrow> 'r rest_env \<Rightarrow> time \<Rightarrow> request \<Rightarrow> ('d, 'r, reply) act" where
  "handleUpload B E now r =
     trying (store_get (\<lambda>d. GetUpload B d (rq_value r ''token''))) (\<lambda>_. answer (jerror 404 ''unknown upload'')) (\<lambda>upload.
     let data = take (maxUploadBytes + 1) (rq_body r) in
     if length data > maxUploadBytes \<or> int (length data) > pu_FileSize upload
     then answer (jerror 400 ''file larger than declared size'')
     else
       thendo (does (mint_new now)) (\<lambda>i.
       let att = new_attachment E now i (pu_Filename upload) (contentTypeFor E (pu_Filename upload) data) data in
       trying (store_do (\<lambda>d. BindAttachment B d upload att data)) (\<lambda>_. answer (jerror 500 ''store failed''))
         (\<lambda>_. answer (Reply 200 (json_map [])))))"

definition newStoredAttachment :: "'d store \<Rightarrow> 'r rest_env \<Rightarrow> time \<Rightarrow> string \<Rightarrow> string \<Rightarrow> ('d, 'r, Attachment) act" where
  "newStoredAttachment B E now filename data =
     thendo (does (mint_new now)) (\<lambda>i.
     let att = new_attachment E now i (sanitizeFilename filename) (contentTypeFor E filename data) data in
     thendo (store_do (\<lambda>d. PutAttachment B d att data)) (\<lambda>_. answer att))"

text \<open>The attachments of a message to send: id and uploaded file.\<close>

record sendAttachment =
  sa_ID :: string
  sa_UploadedFilename :: string

definition dec_attachment :: "json \<Rightarrow> sendAttachment option" where
  "dec_attachment j =
     Option.bind (struct_of j) (\<lambda>kvs.
     Option.bind (str_field ''id'' [] kvs) (\<lambda>i.
     Option.bind (str_field ''filename'' [] kvs) (\<lambda>_.
     map_option (\<lambda>f. \<lparr>sa_ID = i, sa_UploadedFilename = f\<rparr>) (str_field ''uploaded_filename'' [] kvs))))"

fun resolve_rows ::
  "'d store \<Rightarrow> string \<Rightarrow> 'd \<Rightarrow> (json list \<times> string list) \<Rightarrow> sendAttachment list \<Rightarrow> err + json list \<times> string list" where
  "resolve_rows B publicURL d (rows, urls) [] = Inr (rows, urls)"
| "resolve_rows B publicURL d (rows, urls) (ra # reqs) =
     (if sa_UploadedFilename ra = [] then resolve_rows B publicURL d (rows, urls) reqs
      else
        tryb (ResolveUpload B d (sa_UploadedFilename ra)) (\<lambda>att.
        let rowID = (if sa_ID ra = [] then format_nat (length rows) else sa_ID ra)
        in resolve_rows B publicURL d
             (rows @ [attachmentPayload publicURL rowID att], urls @ [attachmentURL publicURL (at_ID att) (at_Filename att)])
             reqs))"

definition resolveSendAttachments ::
  "'d store \<Rightarrow> string \<Rightarrow> 'd \<Rightarrow> sendAttachment list \<Rightarrow> err + json list \<times> string list" where
  "resolveSendAttachments B publicURL d reqs = resolve_rows B publicURL d ([], []) reqs"

definition handleGetAttachment :: "'d store \<Rightarrow> request \<Rightarrow> ('d, 'r, reply) act" where
  "handleGetAttachment B r =
     reads (\<lambda>m.
       case tryb (GetAttachment B (m_db m) (rq_value r ''id'')) (\<lambda>att.
            tryb (GetAttachmentData B (m_db m) (at_ID att)) (\<lambda>data. Inr (att, data))) of
         Inl _ \<Rightarrow> jerror 404 ''unknown attachment''
       | Inr (att, data) \<Rightarrow>
         File [(''Content-Type'', if at_ContentType att = [] then ''application/octet-stream'' else at_ContentType att),
               (''Content-Length'', format_nat (length data)), (''Cache-Control'', ''public, max-age=31536000, immutable''),
               (''Content-Disposition'', ''inline; filename='' @ [CHR 0x22] @ at_Filename att @ [CHR 0x22])]
           (if rq_method r = ''HEAD'' then [] else data))"

definition handleRefreshAttachmentURLs :: "('d, 'r) handler" where
  "handleRefreshAttachmentURLs r u =
     (case Option.bind (body_struct (limited (2 ^ 20) r)) (\<lambda>kvs.
           Option.bind (list_field ''attachment_urls'' [] kvs) (\<lambda>us.
           those (map (\<lambda>j. if j = JNull then Some [] else dec_str j) us))) of
        None \<Rightarrow> answer (jerror 400 ''invalid body'')
      | Some urls \<Rightarrow>
        answer (Reply 200 (json_map [(''refreshed_urls'',
          JArr (map (\<lambda>s. json_map [(''original'', JStr s), (''refreshed'', JStr s)]) urls))])))"

end
