(* ===== verification/RestStubs.thy ===== *)
theory RestStubs
  imports RestFiles
begin

text \<open>
  The HTTP API, third part: \<open>stubs.go\<close>. Profiles, notes and the two settings stores, and the endpoints that answer a
  constant so that a client finishes loading; and who is behind a hashed id (\<open>manager.go\<close>, \<open>network.go\<close>). The order in
  which Go iterates over the peers of a connection is \<open>re_peers\<close>.
\<close>

section \<open>Who is behind an id\<close>

definition known_peers :: "'r rest_env \<Rightarrow> conn \<Rightarrow> (string \<times> peerFact) list" where
  "known_peers E c = List.map_filter (\<lambda>n. map_option (Pair n) (c_peers c n)) (re_peers E c)"

text \<open>Nick, account and host.\<close>

definition PeerInfoByAuthor :: "'r rest_env \<Rightarrow> ('d, 'r) Manager \<Rightarrow> string \<Rightarrow> string \<Rightarrow> (string \<times> string \<times> string) option" where
  "PeerInfoByAuthor E m userID authorID =
     (if authorID = [] then None
      else
        map_option (\<lambda>(n, f). (n, pf_Account f, if pf_User f \<noteq> [] \<and> pf_Host f \<noteq> [] then pf_User f @ ''@'' @ pf_Host f else []))
          (List.find (\<lambda>(n, f). IrcAuthorID (''irc:'' @ n) = authorID)
             (concat (map (\<lambda>(_, c). known_peers E c) (user_conns m userID)))))"

definition reactor_row :: "string \<Rightarrow> string \<Rightarrow> json \<Rightarrow> json" where
  "reactor_row i name avatar =
     json_map [(''id'', JStr i), (''username'', JStr name), (''discriminator'', JStr ''0''), (''bot'', JBool False),
       (''avatar'', avatar)]"

definition ReactorUserPayload :: "'d store \<Rightarrow> 'r rest_env \<Rightarrow> ('d, 'r) Manager \<Rightarrow> string \<Rightarrow> string \<Rightarrow> json" where
  "ReactorUserPayload B E m userID reactorID =
     (case GetUserByID B (m_db m) reactorID of
        Inr u \<Rightarrow> reactor_row (u_ID u) (u_Username u) (globalAvatarValue B m (u_ID u))
      | Inl _ \<Rightarrow>
        (case PeerInfoByAuthor E m userID reactorID of
           Some (nick, _, _) \<Rightarrow>
             if nick \<noteq> [] then reactor_row reactorID nick (json_or_null (PeerAvatarFor B m userID [] nick))
             else reactor_row reactorID ''user'' JNull
         | None \<Rightarrow> reactor_row reactorID ''user'' JNull))"

record profile =
  pr_username :: string
  pr_globalName :: string
  pr_bio :: string
  pr_bot :: bool
  pr_avatar :: json

definition profile_of :: "'d store \<Rightarrow> 'r rest_env \<Rightarrow> ('d, 'r) Manager \<Rightarrow> User \<Rightarrow> string \<Rightarrow> string \<Rightarrow> profile" where
  "profile_of B E m u i guildID =
     (if i = u_ID u then
        \<lparr>pr_username = u_Username u, pr_globalName = [], pr_bio = [], pr_bot = False,
         pr_avatar = (if guildID \<noteq> [] then MemberAvatarFor B m (u_ID u) guildID else globalAvatarValue B m (u_ID u))\<rparr>
      else case PeerInfoByAuthor E m (u_ID u) i of
        None \<Rightarrow> \<lparr>pr_username = ''user'', pr_globalName = [], pr_bio = [], pr_bot = False, pr_avatar = JNull\<rparr>
      | Some (nick, account, host) \<Rightarrow>
        \<lparr>pr_username = nick, pr_globalName = nick,
         pr_bio = join [CHR 0x0A] ((if account \<noteq> [] then [''NickServ: '' @ account] else [])
                                   @ (if host \<noteq> [] then [''Host: '' @ host] else [])),
         pr_bot = PeerBotFor B m (u_ID u) guildID nick,
         pr_avatar = json_or_null (PeerAvatarFor B m (u_ID u) guildID nick)\<rparr>)"

definition handleUserProfile :: "'d store \<Rightarrow> 'r rest_env \<Rightarrow> ('d, 'r) handler" where
  "handleUserProfile B E r u =
     reads (\<lambda>m.
       let i = rq_value r ''id''; p = profile_of B E m u i (query_get r ''guild_id'') in
       Reply 200 (json_map
         [(''user'', json_map
             ([(''id'', JStr i), (''username'', JStr (pr_username p)), (''discriminator'', JStr ''0''),
               (''avatar'', pr_avatar p), (''bot'', JBool (pr_bot p)), (''public_flags'', JInt 0), (''flags'', JInt 0),
               (''premium_type'', JInt 0), (''bio'', JStr (pr_bio p))]
              @ (if pr_globalName p \<noteq> [] then [(''global_name'', JStr (pr_globalName p))] else []))),
          (''user_profile'', json_map [(''bio'', JStr (pr_bio p)), (''pronouns'', JStr [])]),
          (''connected_accounts'', JArr []), (''mutual_guilds'', JArr []), (''mutual_friends_count'', JInt 0)]))"

section \<open>Notes\<close>

definition maxUserNoteLen :: nat where
  "maxUserNoteLen = 256"

definition UserNotes :: "'d store \<Rightarrow> 'd \<Rightarrow> string \<Rightarrow> (string \<times> string) list" where
  "UserNotes B d userID = (case ListUserNotes B d userID of Inr ns \<Rightarrow> ns | Inl _ \<Rightarrow> [])"

definition UserNote :: "'d store \<Rightarrow> 'd \<Rightarrow> string \<Rightarrow> string \<Rightarrow> string" where
  "UserNote B d userID targetID = (case GetUserNote B d userID targetID of Inr n \<Rightarrow> n | Inl _ \<Rightarrow> [])"

definition handleUserNotes :: "'d store \<Rightarrow> ('d, 'r) handler" where
  "handleUserNotes B r u =
     reads (\<lambda>m. Reply 200 (json_map (map (\<lambda>(t, n). (t, JStr n)) (UserNotes B (m_db m) (u_ID u)))))"

definition handleUserNote :: "'d store \<Rightarrow> ('d, 'r) handler" where
  "handleUserNote B r u =
     reads (\<lambda>m. Reply 200 (json_map
       [(''note'', JStr (UserNote B (m_db m) (u_ID u) (rq_value r ''id''))), (''note_user_id'', JStr (rq_value r ''id'')),
        (''user_id'', JStr (u_ID u))]))"

definition handlePutUserNote :: "'d store \<Rightarrow> time \<Rightarrow> ('d, 'r) handler" where
  "handlePutUserNote B now r u =
     (case Option.bind (body_struct r) (ptr_field dec_str ''note'' None) of
        Some (Some note) \<Rightarrow>
          if length (runes_of note) > maxUserNoteLen then answer (jerror 400 ''Note is too long'')
          else
            trying (SetUserNote B now (u_ID u) (rq_value r ''id'') note)
              (\<lambda>_. answer (jerror 500 ''Internal server error'')) (\<lambda>_. answer (Status 204))
      | _ \<Rightarrow> answer (jerror 400 ''Invalid JSON body''))"

section \<open>Settings\<close>

text \<open>The body of a settings patch: None when it is unreadable; \<open>null\<close> makes the map nil.\<close>

definition settings_patch :: "request \<Rightarrow> (string \<times> json) list option option" where
  "settings_patch r =
     (case decode_json (rq_body r) of
        Decoded JNull \<Rightarrow> Some None
      | Decoded (JObj kvs) \<Rightarrow> map_option (\<lambda>kvs. Some (fold (\<lambda>(k, v). AList.update k v) kvs [])) (go_fields Some kvs)
      | _ \<Rightarrow> None)"

definition handleSettingsPatch :: "'d store \<Rightarrow> time \<Rightarrow> ('d, 'r) handler" where
  "handleSettingsPatch B now r u =
     (case settings_patch r of
        None \<Rightarrow> answer (Status 204)
      | Some patch \<Rightarrow>
        let kvs = (case patch of Some kvs \<Rightarrow> kvs | None \<Rightarrow> []) in
        thendo (store_do (\<lambda>d. MergeUserSettings B d (u_ID u) kvs)) (\<lambda>_.
        thendo (does (\<lambda>m. ((), case map_of kvs ''status'' of Some (JStr status) \<Rightarrow> SetStatus (u_ID u) status m | _ \<Rightarrow> m))) (\<lambda>_.
        thendo (fires (u_ID u) ''USER_SETTINGS_UPDATE'' (case patch of Some kvs \<Rightarrow> json_map kvs | None \<Rightarrow> JNull) now) (\<lambda>_.
        reads (\<lambda>m. Reply 200 (json_map (SettingsWithDefaults (UserSettings B (m_db m) (u_ID u)))))))))"

definition decodeSettingsProto :: "string \<Rightarrow> err + string option" where
  "decodeSettingsProto b64 =
     (if b64 = [] then Inr None
      else tryb (std_decode b64) (\<lambda>blob. if length blob > 5 * 2 ^ 20 then Inl ErrTooLarge else Inr (Some blob)))"

text \<open>\<open>base64.StdEncoding\<close>.\<close>

definition std_encode :: "string \<Rightarrow> string" where
  "std_encode s = (let t = raw_encode s in t @ replicate ((4 - length t mod 4) mod 4) (CHR ''=''))"

definition settingsProtoBody :: "'d store \<Rightarrow> 'd \<Rightarrow> string \<Rightarrow> string \<Rightarrow> json" where
  "settingsProtoBody B d userID kind =
     json_map [(''settings'', JStr (case UserSettingsProto B d userID kind of Some b \<Rightarrow> std_encode b | None \<Rightarrow> [])),
       (''required_data_version'', JNull)]"

text \<open>The blob of the body, an absent body being an empty one. None is a body that does not decode.\<close>

definition proto_patch :: "request \<Rightarrow> string option" where
  "proto_patch r =
     (case decode_json (rq_body r) of
        AtEOF \<Rightarrow> Some []
      | Malformed \<Rightarrow> None
      | Decoded j \<Rightarrow>
        Option.bind (struct_of j) (\<lambda>kvs.
        Option.bind (ptr_field dec_int ''required_data_version'' None kvs) (\<lambda>_. str_field ''settings'' [] kvs)))"

definition handleSettingsProtoPatch :: "'d store \<Rightarrow> ('d, 'r) handler" where
  "handleSettingsProtoPatch B r u =
     (let kind = rq_value r ''type''; echo = reads (\<lambda>m. Reply 200 (settingsProtoBody B (m_db m) (u_ID u) kind)) in
      case proto_patch r of
        None \<Rightarrow> echo
      | Some b64 \<Rightarrow>
        (case decodeSettingsProto b64 of
           Inl _ \<Rightarrow> answer (Reply 400 (json_map [(''message'', JStr ''400: Bad Request''), (''code'', JInt 0)]))
         | Inr None \<Rightarrow> echo
         | Inr (Some blob) \<Rightarrow>
           thendo (reads (\<lambda>m. case UserSettingsProto B (m_db m) (u_ID u) kind of Some b \<Rightarrow> b | None \<Rightarrow> [])) (\<lambda>stored.
           let merged = (case mergeProtoFields stored blob of Inr b \<Rightarrow> b | Inl _ \<Rightarrow> blob) in
           thendo (store_do (\<lambda>d. SetUserSettingsProto B d (u_ID u) kind merged)) (\<lambda>_.
           answer (Reply 200 (json_map [(''settings'', JStr (std_encode merged)), (''out_of_date'', JBool False)]))))))"

definition handleSettingsProtoGet :: "'d store \<Rightarrow> ('d, 'r) handler" where
  "handleSettingsProtoGet B r u = reads (\<lambda>m. Reply 200 (settingsProtoBody B (m_db m) (u_ID u) (rq_value r ''type'')))"

section \<open>Constant answers\<close>

definition handleEmptyArray :: "('d, 'r) handler" where
  "handleEmptyArray r u = answer (Reply 200 (JArr []))"

definition handleEmptyMap :: "('d, 'r) handler" where
  "handleEmptyMap r u = answer (Reply 200 (json_map []))"

definition handleNull :: "('d, 'r) handler" where
  "handleNull r u = answer (Reply 200 JNull)"

definition handleNoContentAuthed :: "('d, 'r) handler" where
  "handleNoContentAuthed r u = answer (Status 204)"

definition handleNoContent :: "request \<Rightarrow> ('d, 'r, reply) act" where
  "handleNoContent r = answer (Status 204)"

definition handleEmptyArrayPublic :: "request \<Rightarrow> ('d, 'r, reply) act" where
  "handleEmptyArrayPublic r = answer (Reply 200 (JArr []))"

definition handleLocationMetadata :: "request \<Rightarrow> ('d, 'r, reply) act" where
  "handleLocationMetadata r =
     answer (Reply 200 (json_map [(''consent_required'', JBool False), (''country_code'', JStr ''US''),
       (''promotional_body'', JNull), (''promo_flags'', JInt 0), (''samsung_client_id'', JNull),
       (''samsung_sdk_initialized'', JBool False)]))"

definition handleExperiments :: "request \<Rightarrow> ('d, 'r, reply) act" where
  "handleExperiments r =
     answer (Reply 200 (json_map [(''guild_id'', JNull), (''hash'', JStr ''voidbar''), (''assignments'', JArr [])]))"

definition handleGuildRecommendations :: "('d, 'r) handler" where
  "handleGuildRecommendations r u =
     answer (Reply 200 (json_map [(''recommended_guilds'', JArr []), (''load_id'', JStr ''voidbar'')]))"

definition handleDiscoverableGuilds :: "('d, 'r) handler" where
  "handleDiscoverableGuilds r u =
     answer (Reply 200 (json_map [(''guilds'', JArr []), (''total'', JInt 0), (''offset'', JInt 0), (''limit'', JInt 0),
       (''categories'', JArr []), (''keywords'', JArr []), (''load_id'', JStr ''voidbar'')]))"

definition handleDiscoveryCategories :: "request \<Rightarrow> ('d, 'r, reply) act" where
  "handleDiscoveryCategories r =
     answer (Reply 200 (json_map [(''categories'', JArr []), (''load_id'', JStr ''voidbar'')]))"

definition handleStatuspageJSON :: "request \<Rightarrow> ('d, 'r, reply) act" where
  "handleStatuspageJSON r =
     answer (Reply 200 (json_map [(''incidents'', JArr []), (''scheduled_maintenances'', JArr [])]))"

definition handleGuildAffinities :: "('d, 'r) handler" where
  "handleGuildAffinities r u =
     answer (Reply 200 (json_map [(''guild_affinities'', JArr []), (''inverse_guild_affinities'', JArr [])]))"

definition handleAffinities :: "('d, 'r) handler" where
  "handleAffinities r u =
     answer (Reply 200 (json_map [(''user_affinities'', JArr []), (''inverse_user_affinities'', JArr [])]))"

definition handleCountryCode :: "('d, 'r) handler" where
  "handleCountryCode r u = answer (Reply 200 (json_map [(''country_code'', JStr ''US'')]))"

definition handleStickerPacks :: "('d, 'r) handler" where
  "handleStickerPacks r u = answer (Reply 200 (json_map [(''sticker_packs'', JArr [])]))"

definition handleStickerPack :: "('d, 'r) handler" where
  "handleStickerPack r u =
     answer (Reply 200 (json_map [(''id'', JStr (rq_value r ''id'')), (''stickers'', JArr []), (''name'', JStr []),
       (''description'', JStr []), (''sku_id'', JNull), (''cover_sticker_id'', JNull), (''banner'', JNull)]))"

definition handleUnknown :: "request \<Rightarrow> ('d, 'r, reply) act" where
  "handleUnknown r = answer (Reply 404 (json_map [(''message'', JStr ''404: Not Found''), (''code'', JInt 0)]))"

end
