(* ===== verification/RestGuilds.thy ===== *)
theory RestGuilds
  imports RestFiles
begin

text \<open>
  The HTTP API, fourth part: guilds, channels, members, invites, DM threads and read markers (\<open>guilds.go\<close>). The pauses
  that let a gateway event overtake a reply are left out.
\<close>

section \<open>Joining\<close>

text \<open>The text of an error of \<open>Join\<close>, which wraps the reason why a connection string does not parse.\<close>

definition join_text :: "'r rest_env \<Rightarrow> string \<Rightarrow> err \<Rightarrow> string" where
  "join_text E raw e =
     (if e = ErrBadConnString then ''invalid connection string: '' @ re_badconn E raw else error_text E e)"

definition join_failed :: "'r rest_env \<Rightarrow> string \<Rightarrow> err \<Rightarrow> reply" where
  "join_failed E raw e =
     (if e = ErrBadConnString then jerror 400 (join_text E raw e) else jerror 500 ''failed to join network'')"

definition handleCreateGuild :: "'d store \<Rightarrow> 'r rest_env \<Rightarrow> time \<Rightarrow> ('d, 'r) handler" where
  "handleCreateGuild B E now r u =
     (case Option.bind (body_struct r) (str_field ''name'' []) of
        None \<Rightarrow> answer (jerror 400 ''connection string is required in name'')
      | Some name \<Rightarrow>
        if trim_space name = [] then answer (jerror 400 ''connection string is required in name'')
        else
          trying (Join B now (u_ID u) name) (\<lambda>e. answer (join_failed E name e))
            (\<lambda>net. answer (Reply 201 (json_map [(''id'', JStr (n_ID net)), (''name'', JStr (n_Name net))]))))"

definition invite_channel :: "Channel \<Rightarrow> json" where
  "invite_channel ch = json_map [(''id'', JStr (ch_ID ch)), (''name'', JStr (ch_Name ch)), (''type'', JInt 0)]"

definition invitePayload :: "string \<Rightarrow> Network \<Rightarrow> Channel list \<Rightarrow> User \<Rightarrow> json" where
  "invitePayload code net chans u =
     (let channel =
        (case chans of
           [] \<Rightarrow> json_map [(''id'', JStr ''0''), (''name'', JStr ''irc''), (''type'', JInt 0)]
         | ch # _ \<Rightarrow>
           (case List.find (\<lambda>ch. equal_fold (trim_prefix (ch_Name ch) ''#'') (trim_prefix code ''#'')) chans of
              Some ch \<Rightarrow> invite_channel ch
            | None \<Rightarrow> invite_channel ch));
          n = JInt (if chans = [] then 1 else int (length chans))
      in json_map
        [(''type'', JInt 0), (''code'', JStr code),
         (''guild'', json_map [(''id'', JStr (n_ID net)), (''name'', JStr (n_Name net)), (''splash'', JNull), (''banner'', JNull),
            (''description'', JNull), (''icon'', GuildIconValue net), (''features'', JArr []), (''verification_level'', JInt 0),
            (''vanity_url_code'', JNull), (''nsfw_level'', JInt 0), (''premium_subscription_count'', JInt 0)]),
         (''guild_id'', JStr (n_ID net)), (''channel'', channel),
         (''inviter'', json_map [(''id'', JStr (u_ID u)), (''username'', JStr (u_Username u)), (''avatar'', AvatarPtr (u_Avatar u)),
            (''discriminator'', JStr ''0''), (''public_flags'', JInt 0), (''bot'', JBool False)]),
         (''target_type'', JNull), (''target_user'', JNull), (''target_application'', JNull), (''expires_at'', JNull),
         (''uses'', JInt 0), (''max_uses'', JInt 0), (''max_age'', JInt 0), (''temporary'', JBool False),
         (''created_at'', JStr (rfc3339 (n_CreatedAt net))), (''member_count'', n), (''presence_count'', n),
         (''approximate_member_count'', n), (''approximate_presence_count'', n)])"

text \<open>The GUILD_CREATE of one network, as it is sent after joining it.\<close>

definition fire_guild :: "'d store \<Rightarrow> time \<Rightarrow> string \<Rightarrow> string \<Rightarrow> ('d, 'r, unit) act" where
  "fire_guild B now userID netID =
     thendo (GuildCreatePayloads B now userID) (\<lambda>r.
     for_each (\<lambda>g. fires userID ''GUILD_CREATE'' g now)
       (filter (\<lambda>g. map_of (object_fields g) ''id'' = Some (JStr netID)) (case r of Inr gs \<Rightarrow> gs | Inl _ \<Rightarrow> [])))"

text \<open>The registered channels of a member, none on an error.\<close>

definition joined_channels :: "'d store \<Rightarrow> time \<Rightarrow> string \<Rightarrow> Membership \<Rightarrow> ('d, 'r, Channel list) act" where
  "joined_channels B now netID mem =
     thendo (store_mint (\<lambda>d s. ChannelsByIRC B d (new_id now) s netID (mem_AutoJoin mem) now)) (\<lambda>r.
     answer (case r of Inr chs \<Rightarrow> chs | Inl _ \<Rightarrow> []))"

definition handleGetInvite :: "'d store \<Rightarrow> 'r rest_env \<Rightarrow> time \<Rightarrow> ('d, 'r) handler" where
  "handleGetInvite B E now r u =
     (let code = rq_value r ''code''; q = query_get r ''inputValue''; inputValue = (if q = [] then code else q) in
      case Parse inputValue of
        Inl _ \<Rightarrow> answer (jerror 404 ''Unknown Invite'')
      | Inr _ \<Rightarrow>
        trying (Join B now (u_ID u) inputValue) (\<lambda>e. answer (join_failed E inputValue e)) (\<lambda>net.
        trying (store_get (\<lambda>d. GetMembership B d (n_ID net) (u_ID u))) (\<lambda>_. answer (jerror 500 ''membership missing'')) (\<lambda>mem.
        thendo (joined_channels B now (n_ID net) mem) (\<lambda>chans.
        thendo (fire_guild B now (u_ID u) (n_ID net)) (\<lambda>_.
        answer (Reply 200 (invitePayload code net chans u)))))))"

text \<open>A code that is not a connection string with a scheme names a channel or the host of a joined network.\<close>

definition find_fragment :: "'d store \<Rightarrow> 'd \<Rightarrow> string \<Rightarrow> string \<Rightarrow> err + Network \<times> Membership" where
  "find_fragment B d userID code =
     (case FindByChannelName B d userID code of Inr r \<Rightarrow> Inr r | Inl _ \<Rightarrow> FindByHost B d userID code)"

definition invite_found :: "'d store \<Rightarrow> time \<Rightarrow> string \<Rightarrow> User \<Rightarrow> err + Network \<times> Membership \<Rightarrow> ('d, 'r, reply) act" where
  "invite_found B now code u found =
     (case found of
        Inl _ \<Rightarrow> answer (jerror 404 (''Unknown Invite: nothing matches '' @ code))
      | Inr (net, mem) \<Rightarrow>
        thendo (joined_channels B now (n_ID net) mem) (\<lambda>chans. answer (Reply 200 (invitePayload code net chans u))))"

definition handleJoinInvite :: "'d store \<Rightarrow> time \<Rightarrow> ('d, 'r) handler" where
  "handleJoinInvite B now r u =
     (let code = rq_value r ''code'' in
      if code = [] then answer (jerror 400 ''missing invite code'')
      else if has_infix code ''://'' \<and> (case Parse code of Inr _ \<Rightarrow> True | Inl _ \<Rightarrow> False) then
        trying (Join B now (u_ID u) code) (\<lambda>_. answer (jerror 400 ''invalid connection string'')) (\<lambda>net.
        thendo (store_get (\<lambda>d. GetMembership B d (n_ID net) (u_ID u))) (\<lambda>mem.
        invite_found B now code u (tryb mem (\<lambda>mem. Inr (net, mem)))))
      else
        thendo (reads (\<lambda>m. find_fragment B (m_db m) (u_ID u) code)) (invite_found B now code u))"

section \<open>Guilds\<close>

definition handleGuildDetail :: "'d store \<Rightarrow> time \<Rightarrow> ('d, 'r) handler" where
  "handleGuildDetail B now r u =
     (let guildID = rq_value r ''guild'' in
      trying (store_get (\<lambda>d. GetMembership B d guildID (u_ID u))) (\<lambda>_. answer (jerror 404 ''unknown guild'')) (\<lambda>mem.
      trying (store_get (\<lambda>d. GetNetwork B d guildID)) (\<lambda>_. answer (jerror 404 ''unknown guild'')) (\<lambda>net.
      trying (GuildChannelsPayload B now guildID (mem_AutoJoin mem)) (\<lambda>_. answer (jerror 500 ''failed to list channels'')) (\<lambda>chans.
      reads (\<lambda>m. Reply 200 (json_map
        [(''id'', JStr guildID), (''name'', JStr (n_Name net)), (''owner_id'', JStr ClydeID), (''channels'', JArr chans),
         (''roles'', JArr (EveryoneRolePayload guildID (ReactionsSupported m (u_ID u) (n_ID net)) # IrcRolePayloads)),
         (''member_count'', JInt (int (length chans) + 1))]))))))"

definition handleGuildPreview :: "'d store \<Rightarrow> ('d, 'r) handler" where
  "handleGuildPreview B r u =
     reads (\<lambda>m. case GetNetwork B (m_db m) (rq_value r ''guild'') of
        Inl _ \<Rightarrow> jerror 404 ''Unknown Guild''
      | Inr net \<Rightarrow> Reply 200 (json_map
        [(''id'', JStr (rq_value r ''guild'')), (''name'', JStr (n_Name net)), (''icon'', GuildIconValue net), (''splash'', JNull),
         (''discovery_splash'', JNull), (''emojis'', JArr []), (''stickers'', JArr []), (''features'', JArr []),
         (''description'', JStr []), (''approximate_member_count'', JInt 1), (''approximate_presence_count'', JInt 1)]))"

definition flushes :: "string \<Rightarrow> nat \<Rightarrow> ('d, 'r, unit) act" where
  "flushes userID done_id m = map_option (\<lambda>g. ((), m\<lparr>m_gw := g\<rparr>)) (FlushUser userID done_id (m_gw m))"

definition handleUpdateGuild :: "'d store \<Rightarrow> 'r rest_env \<Rightarrow> time \<Rightarrow> ('d, 'r) handler" where
  "handleUpdateGuild B E now r u =
     (case Option.bind (body_struct r) (ptr_field dec_str ''name'' None) of
        Some (Some raw) \<Rightarrow>
          let name = trim_space raw in
          if name = [] \<or> length (runes_of name) > 100 then answer (jerror 400 ''Name must be 1-100 characters'')
          else
            trying (RenameNetworkFor B now (u_ID u) (rq_value r ''guild'') name)
              (\<lambda>e. answer (if e = ErrNotFound then jerror 404 ''Unknown Guild'' else jerror 500 ''Internal server error''))
              (\<lambda>_. thendo (flushes (u_ID u) (re_barrier E)) (\<lambda>_. handleGuildDetail B now r u))
      | _ \<Rightarrow> answer (jerror 400 ''Invalid JSON body''))"

definition handleLeaveGuild :: "'d store \<Rightarrow> time \<Rightarrow> ('d, 'r) handler" where
  "handleLeaveGuild B now r u =
     (let guildID = rq_value r ''guild'' in
      trying (Leave B (u_ID u) guildID)
        (\<lambda>e. answer (if e = ErrNotFound then jerror 404 ''Unknown Guild'' else jerror 500 ''leave failed''))
        (\<lambda>_. thendo (fires (u_ID u) ''GUILD_DELETE'' (json_map [(''id'', JStr guildID), (''unavailable'', JBool False)]) now)
               (\<lambda>_. answer (Status 204))))"

section \<open>Channels\<close>

text \<open>A parent id of a request: whether it was given, whether as \<open>null\<close>, and the id, a string or a number.\<close>

record parentRef =
  par_set :: bool
  par_null :: bool
  par_id :: string

definition no_parent :: parentRef where
  "no_parent = \<lparr>par_set = False, par_null = False, par_id = []\<rparr>"

fun parent_field :: "parentRef \<Rightarrow> (string \<times> json) list \<Rightarrow> parentRef option" where
  "parent_field p [] = Some p"
| "parent_field p ((k, j) # kvs) =
     (if equal_fold k ''parent_id'' then
        (case j of
           JNull \<Rightarrow> parent_field (p\<lparr>par_set := True, par_null := True\<rparr>) kvs
         | JStr s \<Rightarrow> parent_field (p\<lparr>par_set := True, par_id := s\<rparr>) kvs
         | JNum s \<Rightarrow> parent_field (p\<lparr>par_set := True, par_id := s\<rparr>) kvs
         | _ \<Rightarrow> None)
      else parent_field p kvs)"

record updateChannelRequest =
  uc_Name :: "string option"
  uc_Topic :: "string option"
  uc_ParentID :: parentRef
  uc_Position :: "int option"

definition decode_update_channel :: "request \<Rightarrow> updateChannelRequest option" where
  "decode_update_channel r =
     Option.bind (body_struct r) (\<lambda>kvs.
     Option.bind (ptr_field dec_str ''name'' None kvs) (\<lambda>n.
     Option.bind (ptr_field dec_str ''topic'' None kvs) (\<lambda>t.
     Option.bind (parent_field no_parent kvs) (\<lambda>p.
     map_option (\<lambda>i. \<lparr>uc_Name = n, uc_Topic = t, uc_ParentID = p, uc_Position = i\<rparr>) (ptr_field dec_int ''position'' None kvs)))))"

definition update_category :: "'d store \<Rightarrow> time \<Rightarrow> User \<Rightarrow> Category \<Rightarrow> updateChannelRequest \<Rightarrow> ('d, 'r, reply) act" where
  "update_category B now u cat req =
     (let echo = Reply 200 (json_map [(''id'', JStr (cat_ID cat)), (''name'', JStr (cat_Name cat)), (''type'', JInt 4),
                   (''position'', JInt (cat_Position cat))]) in
      case uc_Name req of
        None \<Rightarrow> answer echo
      | Some name \<Rightarrow>
        trying (RenameCategory B now (u_ID u) (cat_ID cat) name)
          (\<lambda>_. answer (jerror 400 ''invalid category name'')) (\<lambda>_. answer echo))"

text \<open>The topic and the name are only asked for upstream: the name of the reply, or the refusal.\<close>

definition ask_topic :: "User \<Rightarrow> Channel \<Rightarrow> string option \<Rightarrow> ('d, 'r, bool) act" where
  "ask_topic u ch t =
     (case t of
        None \<Rightarrow> answer True
      | Some topic \<Rightarrow> does (\<lambda>m. case SetTopic (u_ID u) (ch_NetworkID ch) (ch_IRCName ch) topic m of (e, m) \<Rightarrow> (e = None, m)))"

definition ask_rename :: "User \<Rightarrow> Channel \<Rightarrow> string option \<Rightarrow> ('d, 'r, reply + string) act" where
  "ask_rename u ch n =
     (case n of
        None \<Rightarrow> answer (Inr (ch_Name ch))
      | Some n \<Rightarrow>
        if trim_space n = [] then answer (Inr (ch_Name ch))
        else
          let raw = trim_space (trim_prefix n ''#'') in
          if raw = [] \<or> contains_any raw [CHR '' '', CHR '','', CHR '':'', CHR 0x07] \<or> length raw > 50
          then answer (Inl (jerror 400 ''invalid channel name''))
          else if equal_fold raw (ch_Name ch) then answer (Inr raw)
          else does (\<lambda>m.
            case Bridge.RenameChannel (u_ID u) (ch_NetworkID ch) (ch_IRCName ch) (''#'' @ raw) m of
              (Some _, m) \<Rightarrow> (Inl (jerror 503 ''upstream unavailable''), m)
            | (None, m) \<Rightarrow> (Inr raw, m)))"

definition channel_echo :: "Channel \<Rightarrow> string \<Rightarrow> int \<Rightarrow> string \<Rightarrow> string \<Rightarrow> reply" where
  "channel_echo ch name position topic parentID =
     Reply 200 (json_map
       [(''id'', JStr (ch_ID ch)), (''guild_id'', JStr (ch_NetworkID ch)), (''name'', JStr name), (''type'', JInt 0),
        (''position'', JInt position), (''topic'', TopicValue topic),
        (''member_list_id'', JStr (MemberListID (ch_NetworkID ch) (ch_ID ch))), (''parent_id'', json_or_null parentID)])"

definition update_channel :: "'d store \<Rightarrow> time \<Rightarrow> User \<Rightarrow> Channel \<Rightarrow> updateChannelRequest \<Rightarrow> ('d, 'r, reply) act" where
  "update_channel B now u ch req =
     thendo (ask_topic u ch (uc_Topic req)) (\<lambda>ok.
     if \<not> ok then answer (jerror 503 ''upstream unavailable'')
     else
       thendo (ask_rename u ch (uc_Name req)) (\<lambda>n.
       case n of
         Inl bad \<Rightarrow> answer bad
       | Inr name \<Rightarrow>
         let topic = (case uc_Topic req of Some t \<Rightarrow> t | None \<Rightarrow> ch_Topic ch) in
         thendo (reads (\<lambda>m. auto_position B m (ch_NetworkID ch) (u_ID u) (ch_IRCName ch))) (\<lambda>position.
         let p = uc_ParentID req in
         if par_set p then
           (let parentID = (if par_null p then [] else par_id p) in
            trying (MoveChannel B now (u_ID u) (ch_ID ch) parentID (case uc_Position req of Some i \<Rightarrow> i | None \<Rightarrow> 0)
                      (uc_Position req \<noteq> None))
              (\<lambda>_. answer (jerror 400 ''invalid category move''))
              (\<lambda>_. answer (channel_echo ch name position topic parentID)))
         else case uc_Position req of
           Some i \<Rightarrow>
             trying (MoveChannel B now (u_ID u) (ch_ID ch) (ch_ParentID ch) i True)
               (\<lambda>_. answer (jerror 400 ''invalid move'')) (\<lambda>_. answer (channel_echo ch name i topic (ch_ParentID ch)))
         | None \<Rightarrow> answer (channel_echo ch name position topic (ch_ParentID ch)))))"

definition handleUpdateChannel :: "'d store \<Rightarrow> time \<Rightarrow> ('d, 'r) handler" where
  "handleUpdateChannel B now r u =
     (case decode_update_channel r of
        None \<Rightarrow> answer (jerror 400 ''invalid body'')
      | Some req \<Rightarrow>
        thendo (reads (\<lambda>m. CategoryByID B (m_db m) (u_ID u) (rq_value r ''channel''))) (\<lambda>c.
        case c of
          Inr (_, cat) \<Rightarrow> update_category B now u cat req
        | Inl _ \<Rightarrow>
          trying (store_get (\<lambda>d. GetChannel B d (rq_value r ''channel''))) (\<lambda>_. answer (jerror 404 ''Unknown Channel''))
            (\<lambda>ch. update_channel B now u ch req)))"

definition create_error :: "string \<Rightarrow> err \<Rightarrow> reply" where
  "create_error invalid e =
     (if e = ErrBadChannelName then jerror 400 invalid
      else if e = ErrNotFound then jerror 404 ''Unknown Guild'' else jerror 500 ''create failed'')"

definition handleCreateChannel :: "'d store \<Rightarrow> time \<Rightarrow> ('d, 'r) handler" where
  "handleCreateChannel B now r u =
     (let guildID = rq_value r ''guild'' in
      case Option.bind (body_struct r) (\<lambda>kvs.
           Option.bind (str_field ''name'' [] kvs) (\<lambda>n. map_option (Pair n) (int_field ''type'' 0 kvs))) of
        None \<Rightarrow> answer (jerror 400 ''invalid body'')
      | Some (name, ty) \<Rightarrow>
        if ty = 4 then
          trying (CreateCategory B now (u_ID u) guildID name) (\<lambda>e. answer (create_error ''Invalid category name'' e))
            (\<lambda>pl. answer (Reply 200 pl))
        else
          trying (CreateChannel B now (u_ID u) guildID name) (\<lambda>e. answer (create_error ''Invalid channel name for IRC'' e))
            (\<lambda>pl. answer (Reply 200 pl)))"

definition close_dm :: "'d store \<Rightarrow> time \<Rightarrow> User \<Rightarrow> string \<Rightarrow> DMChannel \<Rightarrow> ('d, 'r, reply) act" where
  "close_dm B now u channelID dm =
     (if dm_OwnerID dm \<noteq> u_ID u then answer (jerror 404 ''unknown channel'')
      else
        trying (store_do (\<lambda>d. DeleteDMChannel B d channelID)) (\<lambda>_. answer (jerror 500 ''close failed'')) (\<lambda>_.
        thendo (fires (u_ID u) ''CHANNEL_DELETE'' (json_map [(''id'', JStr channelID), (''type'', JInt 1)]) now) (\<lambda>_.
        answer (Status 204))))"

definition handleDeleteChannel :: "'d store \<Rightarrow> time \<Rightarrow> ('d, 'r) handler" where
  "handleDeleteChannel B now r u =
     (let channelID = rq_value r ''channel'' in
      trying (store_get (\<lambda>d. GetDMChannel B d channelID))
        (\<lambda>_. trying (RemoveCategory B now (u_ID u) channelID)
          (\<lambda>_. trying (RemoveChannel B now (u_ID u) channelID)
            (\<lambda>e. answer (if e = ErrNotFound then jerror 404 ''Unknown Channel'' else jerror 500 ''delete failed''))
            (\<lambda>_. answer (Status 204)))
          (\<lambda>_. answer (Status 204)))
        (close_dm B now u channelID))"

record positionEntry =
  pe_ID :: string
  pe_Position :: "int option"
  pe_ParentID :: parentRef

text \<open>An entry of the sidebar drag, with the id strictly a string or decoded by \<open>flexID\<close>.\<close>

definition position_entry :: "bool \<Rightarrow> json \<Rightarrow> positionEntry option" where
  "position_entry flex j =
     Option.bind (struct_of j) (\<lambda>kvs.
     Option.bind (if flex then Some (flex_field ''id'' [] kvs) else str_field ''id'' [] kvs) (\<lambda>i.
     Option.bind (ptr_field dec_int ''position'' None kvs) (\<lambda>p.
     map_option (\<lambda>q. \<lparr>pe_ID = i, pe_Position = p, pe_ParentID = q\<rparr>) (parent_field no_parent kvs))))"

definition position_entries :: "bool \<Rightarrow> string \<Rightarrow> positionEntry list option" where
  "position_entries flex body =
     (case unmarshal body of
        Some (JArr xs) \<Rightarrow> if xs = [] then None else those (map (position_entry flex) xs)
      | _ \<Rightarrow> None)"

text \<open>One entry: None goes on with the next.\<close>

definition move_entry :: "'d store \<Rightarrow> time \<Rightarrow> User \<Rightarrow> positionEntry \<Rightarrow> ('d, 'r, reply option) act" where
  "move_entry B now u e =
     (let pos = (case pe_Position e of Some p \<Rightarrow> p | None \<Rightarrow> 0); p = pe_ParentID e in
      thendo (reads (\<lambda>m. CategoryByID B (m_db m) (u_ID u) (pe_ID e))) (\<lambda>c.
      case c of
        Inr _ \<Rightarrow>
          if pe_Position e = None then answer None
          else trying (SetCategoryPosition B now (u_ID u) (pe_ID e) pos) (\<lambda>_. answer (Some (jerror 500 ''move failed'')))
                 (\<lambda>_. answer None)
      | Inl _ \<Rightarrow>
        if \<not> par_set p \<and> pe_Position e = None then answer None
        else
          thendo (reads (\<lambda>m. if par_set p then if par_null p then [] else par_id p
                    else case GetChannel B (m_db m) (pe_ID e) of Inr ch \<Rightarrow> ch_ParentID ch | Inl _ \<Rightarrow> [])) (\<lambda>parent.
          thendo (MoveChannel B now (u_ID u) (pe_ID e) parent pos (pe_Position e \<noteq> None)) (\<lambda>_. answer None))))"

fun move_entries :: "'d store \<Rightarrow> time \<Rightarrow> User \<Rightarrow> positionEntry list \<Rightarrow> ('d, 'r, reply) act" where
  "move_entries B now u [] = answer (Status 204)"
| "move_entries B now u (e # es) =
     thendo (move_entry B now u e) (\<lambda>r. case r of Some bad \<Rightarrow> answer bad | None \<Rightarrow> move_entries B now u es)"

definition handleGuildChannelPositions :: "'d store \<Rightarrow> time \<Rightarrow> ('d, 'r) handler" where
  "handleGuildChannelPositions B now r u =
     trying (store_get (\<lambda>d. GetMembership B d (rq_value r ''guild'') (u_ID u))) (\<lambda>_. answer (jerror 404 ''unknown guild'')) (\<lambda>_.
     let body = take (2 ^ 16) (rq_body r) in
     case (case position_entries False body of Some es \<Rightarrow> Some es | None \<Rightarrow> position_entries True body) of
       None \<Rightarrow> answer (jerror 400 ''invalid body'')
     | Some es \<Rightarrow> move_entries B now u es)"

section \<open>Members\<close>

definition bad_nick :: "string \<Rightarrow> bool" where
  "bad_nick cand =
     (length cand > 30 \<or> contains_any cand [CHR '' '', CHR '','', CHR '':'', CHR ''#'']
      \<or> list_ex (\<lambda>c. (of_char c :: nat) < 32 \<or> (of_char c :: nat) = 127) cand)"

text \<open>The nick of the reply, or the refusal.\<close>

definition ask_nick :: "User \<Rightarrow> string \<Rightarrow> string \<Rightarrow> string option \<Rightarrow> ('d, 'r, reply + string) act" where
  "ask_nick u netID current n =
     (case n of
        None \<Rightarrow> answer (Inr current)
      | Some raw \<Rightarrow>
        let cand = trim_space raw in
        if cand = [] then answer (Inr current)
        else if bad_nick cand then answer (Inl (jerror 400 ''invalid nickname''))
        else if equal_fold cand current then answer (Inr cand)
        else does (\<lambda>m. case SetNick (u_ID u) netID cand m of
               (Some _, m) \<Rightarrow> (Inl (jerror 503 ''upstream unavailable''), m)
             | (None, m) \<Rightarrow> (Inr cand, m)))"

definition handleUpdateMemberMe :: "'d store \<Rightarrow> 'r rest_env \<Rightarrow> time \<Rightarrow> ('d, 'r) handler" where
  "handleUpdateMemberMe B E now r u =
     trying (store_get (\<lambda>d. GetMembership B d (rq_value r ''guild'') (u_ID u))) (\<lambda>_. answer (jerror 404 ''Unknown Guild'')) (\<lambda>mem.
     case Option.bind (body_struct r) (\<lambda>kvs. map_option (\<lambda>n. (n, raw_field ''avatar'' None kvs)) (ptr_field dec_str ''nick'' None kvs)) of
       None \<Rightarrow> answer (jerror 400 ''invalid body'')
     | Some (n, av) \<Rightarrow>
       trying (case av of None \<Rightarrow> give () | Some j \<Rightarrow> SetNetworkAvatar B (re_publicURL E) now (u_ID u) (mem_NetworkID mem) (avatar_value j))
         (\<lambda>e. answer (avatar_error e)) (\<lambda>_.
       thendo (reads (\<lambda>m. liveNickFor m (u_ID u) (mem_NetworkID mem) (mem_Nick mem))) (\<lambda>current.
       thendo (ask_nick u (mem_NetworkID mem) current n) (\<lambda>res.
       case res of
         Inl bad \<Rightarrow> answer bad
       | Inr nick \<Rightarrow>
         reads (\<lambda>m. Reply 200 (case MemberPayload B m (u_ID u) (mem_NetworkID mem) nick of Some pl \<Rightarrow> pl | None \<Rightarrow> JNull))))))"

section \<open>DM threads, typing and read markers\<close>

definition dm_recipient :: "(string \<times> json) list \<Rightarrow> string option" where
  "dm_recipient kvs =
     map_option (\<lambda>rs. let i = flex_field ''recipient_id'' [] kvs in
                    if i \<noteq> [] then i else case rs of j # _ \<Rightarrow> flex_text j | [] \<Rightarrow> [])
       (list_field ''recipients'' [] kvs)"

definition handleCreateDM :: "'d store \<Rightarrow> time \<Rightarrow> ('d, 'r) handler" where
  "handleCreateDM B now r u =
     (case Option.bind (body_struct r) dm_recipient of
        None \<Rightarrow> answer (jerror 400 ''invalid body'')
      | Some recipient \<Rightarrow>
        if recipient = [] then answer (jerror 400 ''recipient_id is required'')
        else trying (CreateDMChannel B now (u_ID u) recipient) (\<lambda>_. answer (jerror 400 ''unknown recipient''))
               (\<lambda>pl. answer (Reply 200 pl)))"

definition handleStartTyping :: "'d store \<Rightarrow> ('d, 'r) handler" where
  "handleStartTyping B r u =
     thendo (does (StartTyping B (u_ID u) (rq_value r ''channel''))) (\<lambda>_. answer (Status 204))"

definition ack_payload :: "string \<Rightarrow> ReadState \<Rightarrow> json" where
  "ack_payload channelID rs =
     json_map [(''channel_id'', JStr channelID), (''message_id'', JStr (rs_LastMessageID rs)),
               (''mention_count'', JInt (rs_MentionCount rs))]"

definition handleAckMessage :: "'d store \<Rightarrow> time \<Rightarrow> ('d, 'r) handler" where
  "handleAckMessage B now r u =
     (let channelID = rq_value r ''channel''; messageID = rq_value r ''message'' in
      if channelID = [] \<or> messageID = [] then answer (jerror 400 ''missing channel or message'')
      else
        thendo (does (on_db (MarkChannelRead B (u_ID u) channelID messageID))) (\<lambda>(rs, e).
        if e \<noteq> None then answer (jerror 500 ''failed to mark read'')
        else thendo (fires (u_ID u) ''MESSAGE_ACK'' (ack_payload channelID rs) now) (\<lambda>_. answer (Status 204))))"

definition handleAckGuild :: "'d store \<Rightarrow> time \<Rightarrow> ('d, 'r) handler" where
  "handleAckGuild B now r u =
     thendo (does (on_db (AckGuild B (u_ID u) (rq_value r ''guild'')))) (\<lambda>states.
     thendo (for_each (\<lambda>rs. fires (u_ID u) ''MESSAGE_ACK'' (ack_payload (rs_ChannelID rs) rs) now)
               (filter (\<lambda>rs. rs_LastMessageID rs \<noteq> []) states)) (\<lambda>_.
     answer (Status 204)))"

end
