(* ===== verification/RestMessages.thy ===== *)
theory RestMessages
  imports RestStubs
begin

text \<open>
  The HTTP API, fifth part: reading messages (\<open>guilds.go\<close>). History pages with the rounds of \<open>FetchOlderMessages\<close>
  (\<open>network.go\<close>), pins, search, recent mentions, reactions and deletion. A history payload chases replies recursively:
  it is None when the chain never ends. What happens while a request waits for the IRC server is an argument: whether the
  answer comes in time, and the state then. The nicks of a page are announced in the order of their first mention.
\<close>

section \<open>Message payloads\<close>

definition messagePayload ::
  "string \<Rightarrow> string \<Rightarrow> string \<Rightarrow> string \<Rightarrow> string \<Rightarrow> string \<Rightarrow> json \<Rightarrow> string \<Rightarrow> json \<Rightarrow> payload" where
  "messagePayload i channelID body ts authorID authorName nonce bio avatar =
     message_base i channelID body ts nonce
       (json_map ([(''id'', JStr authorID), (''username'', JStr authorName), (''discriminator'', JStr ''0''), (''bot'', JBool False)]
          @ (if bio \<noteq> [] then [(''bio'', JStr bio)] else [])
          @ (if avatar \<noteq> JNull then [(''avatar'', avatar)] else [])))"

text \<open>A row of the buffer without its decorations.\<close>

definition plain_payload :: "'d store \<Rightarrow> ('d, 'r) Manager \<Rightarrow> string \<Rightarrow> BufferedMessage \<Rightarrow> payload" where
  "plain_payload B m userID row =
     messagePayload (bm_ID row) (bm_ChannelID row) (bm_Content row) (bm_Timestamp row) (IrcAuthorID (bm_AuthorID row))
       (bm_AuthorName row) (bm_Nonce row) (AuthorBio B m userID (bm_ChannelID row) (bm_AuthorID row))
       (AuthorAvatar B m userID (bm_ChannelID row) (bm_AuthorID row))"

definition with_reference :: "string \<Rightarrow> string \<Rightarrow> payload \<Rightarrow> payload" where
  "with_reference channelID refID pl =
     AList.update ''message_reference''
       (json_map [(''type'', JInt 0), (''message_id'', JStr refID), (''channel_id'', JStr channelID)])
       (AList.update ''type'' (JInt 19) pl)"

definition with_referenced :: "payload \<Rightarrow> payload \<Rightarrow> payload" where
  "with_referenced inner pl =
     AList.update ''referenced_message''
       (json_map (AList.delete ''referenced_message'' (AList.delete ''message_reference'' inner))) pl"

partial_function (option) historyMessagePayload ::
  "'d store \<Rightarrow> ('d, 'r) Manager \<Rightarrow> string \<Rightarrow> BufferedMessage \<Rightarrow> payload option" where
  "historyMessagePayload B m userID row =
     (let pl = plain_payload B m userID row in
      if bm_ReplyTo row = [] then Some (row_extras userID row pl)
      else
        (let pl = with_reference (bm_ChannelID row) (bm_ReplyTo row) pl in
         case MessageByID B (m_db m) (bm_ChannelID row) (bm_ReplyTo row) of
           None \<Rightarrow> Some (row_extras userID row pl)
         | Some ref \<Rightarrow>
           Option.bind (historyMessagePayload B m userID ref) (\<lambda>inner.
           Some (row_extras userID row (with_referenced inner pl)))))"

definition attachHistoryReply ::
  "'d store \<Rightarrow> ('d, 'r) Manager \<Rightarrow> string \<Rightarrow> string \<Rightarrow> string \<Rightarrow> payload \<Rightarrow> payload option" where
  "attachHistoryReply B m userID channelID refID pl =
     (case MessageByID B (m_db m) channelID refID of
        None \<Rightarrow> Some (with_reference channelID refID pl)
      | Some row \<Rightarrow>
        map_option (\<lambda>inner. with_referenced inner (with_reference channelID refID pl)) (historyMessagePayload B m userID row))"

text \<open>The payloads of a list of rows; nothing when one of them does not return.\<close>

definition history_page ::
  "'d store \<Rightarrow> string \<Rightarrow> (('d, 'r) Manager \<Rightarrow> BufferedMessage list) \<Rightarrow> ('d, 'r, payload list) act" where
  "history_page B userID rows m =
     map_option (\<lambda>ps. (ps, m)) (those (map (historyMessagePayload B m userID) (rows m)))"

definition mentioned_nicks :: "BufferedMessage list \<Rightarrow> string list" where
  "mentioned_nicks rows = rev (remdups (rev (concat (map (\<lambda>row. map mr_Nick (bm_Mentions row)) rows))))"

definition upsert_pills :: "'d store \<Rightarrow> time \<Rightarrow> string \<Rightarrow> string \<Rightarrow> BufferedMessage list \<Rightarrow> ('d, 'r, unit) act" where
  "upsert_pills B now userID channelID rows m =
     (if mentioned_nicks rows = [] then Some ((), m)
      else map_option (Pair ())
        (UpsertPeersByNick B now userID (ChannelNetworkID B m channelID) (mentioned_nicks rows) m))"

section \<open>History\<close>

type_synonym ('d, 'r) wait = "nat \<Rightarrow> ('d, 'r) Manager \<Rightarrow> bool \<times> ('d, 'r) Manager"

definition fetch_older ::
  "'d store \<Rightarrow> env \<Rightarrow> ('d, 'r) hooks \<Rightarrow> (('d, 'r) Manager \<Rightarrow> bool \<times> ('d, 'r) Manager) \<Rightarrow> time \<Rightarrow> string \<Rightarrow> Channel \<Rightarrow>
     string \<times> string \<times> time \<Rightarrow> int \<Rightarrow> ('d, 'r, nat) act" where
  "fetch_older B e h w now userID ch = (\<lambda>(anchorMsgID, ceilingID, anchor) need.
     thendo (does (fetch_ask now userID (ch_NetworkID ch) (ch_IRCName ch) anchorMsgID ceilingID anchor need)) (\<lambda>asked.
     if \<not> asked then answer 0
     else
       thendo (does w) (\<lambda>arrived.
       if arrived then fetch_take B e h now (userID, ch_NetworkID ch) else answer 0)))"

fun fetch_rounds ::
  "'d store \<Rightarrow> env \<Rightarrow> ('d, 'r) hooks \<Rightarrow> ('d, 'r) wait \<Rightarrow> time \<Rightarrow> string \<Rightarrow> Channel \<Rightarrow> time \<Rightarrow> nat \<Rightarrow> int \<Rightarrow>
     ('d, 'r, nat) act" where
  "fetch_rounds B e h w now userID ch cursor 0 need = answer 0"
| "fetch_rounds B e h w now userID ch cursor (Suc k) need =
     (if need \<le> 0 then answer 0
      else
        thendo (reads (\<lambda>m. older_anchor B (m_db m) (ch_ID ch) cursor)) (\<lambda>anchor.
        thendo (fetch_older B e h (w k) now userID ch anchor need) (\<lambda>got.
        if got = 0 then answer 0
        else thendo (fetch_rounds B e h w now userID ch cursor k (need - int got)) (\<lambda>rest. answer (got + rest)))))"

definition FetchOlderMessages ::
  "'d store \<Rightarrow> env \<Rightarrow> ('d, 'r) hooks \<Rightarrow> ('d, 'r) wait \<Rightarrow> time \<Rightarrow> string \<Rightarrow> string \<Rightarrow> string \<Rightarrow> int \<Rightarrow> ('d, 'r, nat) act" where
  "FetchOlderMessages B e h w now userID channelID before need =
     (if need \<le> 0 then answer 0
      else case ParseSnowflake before of
        Inl _ \<Rightarrow> answer 0
      | Inr i \<Rightarrow>
        thendo (reads (\<lambda>m. GetChannel B (m_db m) channelID)) (\<lambda>r.
        case r of
          Inl _ \<Rightarrow> answer 0
        | Inr ch \<Rightarrow>
          if \<not> is_channel_name (ch_IRCName ch) then answer 0
          else fetch_rounds B e h w now userID ch (SnowflakeTime i * 1000000) 3 need))"

definition page_limit :: "request \<Rightarrow> nat" where
  "page_limit r =
     (let n = (case query_int r ''limit'' of Some n \<Rightarrow> if n > 0 then n else 50 | None \<Rightarrow> 50)
      in nat (if n > 100 then 100 else n))"

definition handleGetMessages ::
  "'d store \<Rightarrow> env \<Rightarrow> ('d, 'r) hooks \<Rightarrow> ('d, 'r) wait \<Rightarrow> time \<Rightarrow> ('d, 'r) handler" where
  "handleGetMessages B e h w now r u =
     (let channelID = rq_value r ''channel''; limit = page_limit r;
          before = query_get r ''before''; after = query_get r ''after'';
          page = (\<lambda>m. ChannelMessages B (m_db m) channelID before after limit) in
      thendo (reads page) (\<lambda>buffered.
      thendo (if before \<noteq> [] \<and> after = [] \<and> length buffered < limit
              then FetchOlderMessages B e h w now (u_ID u) channelID before (int (limit - length buffered))
              else answer 0) (\<lambda>got.
      thendo (if got > 0 then reads page else answer buffered) (\<lambda>rows.
      thendo (history_page B (u_ID u) (\<lambda>_. rows)) (\<lambda>pls.
      thendo (upsert_pills B now (u_ID u) channelID rows) (\<lambda>_.
      answer (Reply 200 (JArr (map json_map pls)))))))))"

section \<open>Pins\<close>

definition pinned_rows :: "'d store \<Rightarrow> string \<Rightarrow> ('d, 'r) Manager \<Rightarrow> BufferedMessage list" where
  "pinned_rows B channelID m =
     List.map_filter (\<lambda>p. MessageByID B (m_db m) channelID (pin_ID p)) (ChannelPins B m channelID)"

definition handlePinnedMessages :: "'d store \<Rightarrow> time \<Rightarrow> ('d, 'r) handler" where
  "handlePinnedMessages B now r u =
     (let channelID = rq_value r ''channel'' in
      thendo (reads (pinned_rows B channelID)) (\<lambda>rows.
      thendo (history_page B (u_ID u) (\<lambda>_. rows)) (\<lambda>pls.
      thendo (upsert_pills B now (u_ID u) channelID rows) (\<lambda>_.
      answer (Reply 200 (JArr (map (\<lambda>pl. json_map (AList.update ''pinned'' (JBool True) pl)) pls)))))))"

definition handlePinMessage :: "'d store \<Rightarrow> time \<Rightarrow> ('d, 'r) handler" where
  "handlePinMessage B now r u =
     (let channelID = rq_value r ''channel''; messageID = rq_value r ''message'' in
      thendo (reads (\<lambda>m. (MessageByID B (m_db m) channelID messageID, PinCount B m channelID))) (\<lambda>(row, n).
      if row = None then answer (jerror 404 ''Unknown message'')
      else if n \<ge> MaxChannelPins then answer (jerror 400 ''Maximum number of pins reached'')
      else
        trying (SetChannelPin B now (u_ID u) channelID messageID True)
          (\<lambda>_. answer (jerror 500 ''Internal server error'')) (\<lambda>_. answer (Status 204))))"

definition handleUnpinMessage :: "'d store \<Rightarrow> time \<Rightarrow> ('d, 'r) handler" where
  "handleUnpinMessage B now r u =
     trying (SetChannelPin B now (u_ID u) (rq_value r ''channel'') (rq_value r ''message'') False)
       (\<lambda>_. answer (jerror 500 ''Internal server error'')) (\<lambda>_. answer (Status 204))"

section \<open>Search\<close>

definition matches_terms :: "string list \<Rightarrow> BufferedMessage \<Rightarrow> bool" where
  "matches_terms terms row =
     (let haystack = to_lower (bm_Content row @ '' '' @ bm_AuthorName row) in list_all (has_infix haystack) terms)"

definition searchChannel :: "'d store \<Rightarrow> ('d, 'r) Manager \<Rightarrow> string \<Rightarrow> string \<Rightarrow> string list \<Rightarrow> payload list" where
  "searchChannel B m userID channelID terms =
     map (\<lambda>row. messagePayload (bm_ID row) (bm_ChannelID row) (bm_Content row) (bm_Timestamp row)
                  (IrcAuthorID (bm_AuthorID row)) (bm_AuthorName row) (bm_Nonce row)
                  (AuthorBio B m userID channelID (bm_AuthorID row)) (AuthorAvatar B m userID channelID (bm_AuthorID row)))
       (filter (matches_terms terms) (ChannelMessages B (m_db m) channelID [] [] (2 ^ 20)))"

definition searchTerms :: "request \<Rightarrow> string list" where
  "searchTerms r =
     (let raws = [query_get r ''content'']
                 @ map (\<lambda>tok. case index_byte tok (CHR ''|'') of Some i \<Rightarrow> drop (i + 1) tok | None \<Rightarrow> tok) (query_all r ''contents'')
                 @ [query_get r ''text'', query_get r ''query'', query_get r ''q'']
      in rev (remdups (rev (concat (map (\<lambda>raw. words (to_lower raw)) raws)))))"

definition search_offset :: "request \<Rightarrow> nat" where
  "search_offset r = (case query_int r ''offset'' of Some n \<Rightarrow> nat n | None \<Rightarrow> 0)"

definition writeSearchResults :: "payload list \<Rightarrow> nat \<Rightarrow> reply" where
  "writeSearchResults hits offset =
     Reply 200 (json_map
       [(''analytics_id'', JStr ''voidbar''), (''doing_deep_historical_index'', JBool False),
        (''total_results'', JInt (int (length hits))),
        (''messages'', JArr (map (\<lambda>h. JArr [json_map (AList.delete ''reactions''
            (AList.update ''components'' (JArr []) (AList.update ''hit'' (JBool True) h)))]) (take 25 (drop offset hits))))])"

definition no_results :: reply where
  "no_results = Reply 200 (json_map [(''analytics_id'', JStr ''voidbar''), (''total_results'', JInt 0), (''messages'', JArr [])])"

definition handleSearchMessages :: "'d store \<Rightarrow> ('d, 'r) handler" where
  "handleSearchMessages B r u =
     (let terms = searchTerms r in
      if terms = [] then answer no_results
      else reads (\<lambda>m. writeSearchResults (searchChannel B m (u_ID u) (rq_value r ''channel'') terms) (search_offset r)))"

definition hit_id :: "payload \<Rightarrow> string" where
  "hit_id h = (case map_of h ''id'' of Some (JStr i) \<Rightarrow> i | _ \<Rightarrow> [])"

definition handleSearchGuildMessages :: "'d store \<Rightarrow> time \<Rightarrow> ('d, 'r) handler" where
  "handleSearchGuildMessages B now r u =
     trying (store_get (\<lambda>d. GetMembership B d (rq_value r ''guild'') (u_ID u))) (\<lambda>_. answer (jerror 404 ''unknown guild'')) (\<lambda>mem.
     let terms = searchTerms r in
     if terms = [] then answer no_results
     else
       trying (store_mint (\<lambda>d s. ChannelsByIRC B d (new_id now) s (mem_NetworkID mem) (mem_AutoJoin mem) now))
         (\<lambda>_. answer no_results) (\<lambda>chans.
       let only = filter (\<lambda>i. i \<noteq> []) (query_all r ''channel_id'');
           chans = filter (\<lambda>ch. only = [] \<or> ch_ID ch \<in> set only) chans in
       reads (\<lambda>m. writeSearchResults
         (rev (sort_key hit_id (concat (map (\<lambda>ch. searchChannel B m (u_ID u) (ch_ID ch) terms) chans)))) (search_offset r))))"

definition handleRecentMentions :: "'d store \<Rightarrow> ('d, 'r) handler" where
  "handleRecentMentions B r u =
     (let limit = (case query_int r ''limit'' of Some n \<Rightarrow> if 0 < n \<and> n \<le> 50 then nat n else 25 | None \<Rightarrow> 25) in
      thendo (reads (\<lambda>m. MentionedMessages B (m_db m) (u_ID u) limit (query_get r ''before'') (query_get r ''guild_id''))) (\<lambda>rows.
      thendo (history_page B (u_ID u) (\<lambda>_. rows)) (\<lambda>pls.
      reads (\<lambda>m. Reply 200 (JArr (map (\<lambda>(row, pl). json_map
        (case GetChannel B (m_db m) (bm_ChannelID row) of
           Inr ch \<Rightarrow> AList.update ''guild_id'' (JStr (ch_NetworkID ch)) pl | Inl _ \<Rightarrow> pl)) (zip rows pls)))))))"

section \<open>Reactions and deletion\<close>

definition decodeEmoji :: "string \<Rightarrow> string" where
  "decodeEmoji raw =
     (let raw = (if CHR ''%'' \<in> set raw then case pct_decode raw of Some s \<Rightarrow> s | None \<Rightarrow> raw else raw) in
      case index_byte raw (CHR '':'') of Some i \<Rightarrow> if i > 0 then take i raw else raw | None \<Rightarrow> raw)"

definition handleReactionReactors :: "'d store \<Rightarrow> 'r rest_env \<Rightarrow> ('d, 'r) handler" where
  "handleReactionReactors B E r u =
     (let emoji = decodeEmoji (rq_value r ''emoji'') in
      if emoji = [] then answer (jerror 400 ''missing emoji'')
      else reads (\<lambda>m. case MessageByID B (m_db m) (rq_value r ''channel'') (rq_value r ''message'') of
        None \<Rightarrow> jerror 404 ''Unknown message''
      | Some row \<Rightarrow>
        Reply 200 (JArr (map (ReactorUserPayload B E m (u_ID u))
          (case map_of (bm_Reactions row) emoji of Some ids \<Rightarrow> ids | None \<Rightarrow> [])))))"

text \<open>Where a message of a channel or an own DM thread goes: the target and its network.\<close>

definition message_target :: "'d store \<Rightarrow> ('d, 'r) Manager \<Rightarrow> string \<Rightarrow> string \<Rightarrow> (string \<times> string) option" where
  "message_target B m userID channelID =
     (case GetChannel B (m_db m) channelID of
        Inr ch \<Rightarrow> Some (ch_IRCName ch, ch_NetworkID ch)
      | Inl _ \<Rightarrow>
        (case GetDMChannel B (m_db m) channelID of
           Inr dm \<Rightarrow> if dm_OwnerID dm = userID then Some (dm_Nick dm, dm_NetworkID dm) else None
         | Inl _ \<Rightarrow> None))"

definition mgr_text :: "mgr_err \<Rightarrow> string" where
  "mgr_text e =
     (case e of
        NotConnected n \<Rightarrow> ''not connected to '' @ n
      | LinkDown n \<Rightarrow> ''connection to '' @ n @ '' is down, retrying''
      | ReadOnlyChannel \<Rightarrow> ''server-notices is a read-only bouncer channel''
      | ErrUnknownMessage \<Rightarrow> ''message not found''
      | ErrNotOwner \<Rightarrow> ''only the author can delete this message'')"

definition handleReactSelf :: "'d store \<Rightarrow> time \<Rightarrow> ('d, 'r) handler" where
  "handleReactSelf B now r u =
     (let channelID = rq_value r ''channel''; emoji = decodeEmoji (rq_value r ''emoji'') in
      if emoji = [] then answer (jerror 400 ''missing emoji'')
      else
        thendo (reads (\<lambda>m. message_target B m (u_ID u) channelID)) (\<lambda>t.
        case t of
          None \<Rightarrow> answer (jerror 404 ''unknown channel'')
        | Some (target, networkID) \<Rightarrow>
          thendo (SendReaction B now (u_ID u) networkID target (rq_value r ''message'') channelID emoji (rq_method r = ''DELETE''))
            (\<lambda>e. answer (case e of Some e \<Rightarrow> jerror 409 (mgr_text e) | None \<Rightarrow> Status 204))))"

definition handleDeleteMessage :: "'d store \<Rightarrow> time \<Rightarrow> ('d, 'r) handler" where
  "handleDeleteMessage B now r u =
     (let channelID = rq_value r ''channel'' in
      thendo (reads (\<lambda>m. message_target B m (u_ID u) channelID)) (\<lambda>t.
      case t of
        None \<Rightarrow> answer (jerror 404 ''unknown channel'')
      | Some (target, networkID) \<Rightarrow>
        thendo (Bridge.DeleteMessage B now (u_ID u) networkID target (rq_value r ''message'') channelID) (\<lambda>e.
        answer (case e of
          None \<Rightarrow> Status 204
        | Some ErrUnknownMessage \<Rightarrow> jerror 404 ''unknown message''
        | Some ErrNotOwner \<Rightarrow> jerror 403 (mgr_text ErrNotOwner)
        | Some e \<Rightarrow> jerror 409 (mgr_text e)))))"

end
