(* ===== verification/RestSend.thy ===== *)
theory RestSend
  imports RestMessages RestGuilds
begin

text \<open>
  The HTTP API, sixth part: sending (\<open>guilds.go\<close>). A message to Clyde is a command; any other goes upstream through the
  queue of its connection, to the client's sessions and into the buffer. None is a panic of \<open>IRCize\<close>, a loop of
  \<open>MentionPayloadsFromMarkers\<close> or a reply chain that never ends. The parsing of a multipart body is \<open>mime/multipart\<close>.
\<close>

section \<open>Clyde\<close>

definition clydeHelpText :: string where
  "clydeHelpText =
     ''I manage your networks. Send me a connection string to join one:'' @ [CHR 0x0A] @
     ''ircs://irc.example.com:6697/#channel?nick=myself&name=Label&sasl=user:pass'' @ [CHR 0x0A] @
     ''Everything after the host is optional: #channels to auto-join, nick, name, sasl (SASL PLAIN).'' @ [CHR 0x0A] @
     ''Commands: help, list, leave <host>''"

definition touch_dm :: "'d store \<Rightarrow> time \<Rightarrow> string \<Rightarrow> ('d, 'r, unit) act" where
  "touch_dm B now channelID = thendo (store_do (\<lambda>d. TouchDMChannel B d channelID now)) (\<lambda>_. answer ())"

definition plain_row :: "string \<Rightarrow> string \<Rightarrow> string \<Rightarrow> string \<Rightarrow> string \<Rightarrow> json \<Rightarrow> string \<Rightarrow> BufferedMessage" where
  "plain_row i channelID authorID authorName body nonce ts =
     \<lparr>bm_ID = i, bm_ChannelID = channelID, bm_AuthorID = authorID, bm_AuthorName = authorName, bm_Content = body,
      bm_Nonce = nonce, bm_Timestamp = ts, bm_Type = 0, bm_MsgID = [], bm_ReplyTo = [], bm_Reactions = [],
      bm_Attachments = [], bm_Embeds = [], bm_Mentions = []\<rparr>"

definition clydeReply :: "'d store \<Rightarrow> time \<Rightarrow> DMChannel \<Rightarrow> string \<Rightarrow> ('d, 'r, unit) act" where
  "clydeReply B now dm body =
     thendo (does (mint_new now)) (\<lambda>msgID.
     let ts = NowTimestamp now in
     thendo (fires (dm_OwnerID dm) ''MESSAGE_CREATE''
       (json_map (messagePayload msgID (dm_ID dm) body ts ClydeID ''Clyde'' JNull [] JNull)) now) (\<lambda>_.
     thendo (store_do (\<lambda>d. AppendMessage B d (plain_row msgID (dm_ID dm) ''irc:Clyde'' ''Clyde'' body JNull ts))) (\<lambda>_.
     touch_dm B now (dm_ID dm))))"

definition clyde_list :: "UserNetworkSummary list \<Rightarrow> string" where
  "clyde_list rows =
     (if rows = [] then ''No networks yet. Send me a connection string to join one (see help).''
      else ''Your networks:'' @ [CHR 0x0A]
           @ concat (map (\<lambda>s. ''- '' @ us_Name s @ '' ('' @ us_Host s @ '') - '' @ (if us_Up s then ''up'' else ''down'') @ [CHR 0x0A]) rows))"

definition clyde_leave :: "'d store \<Rightarrow> 'r rest_env \<Rightarrow> time \<Rightarrow> User \<Rightarrow> DMChannel \<Rightarrow> string \<Rightarrow> ('d, 'r, unit) act" where
  "clyde_leave B E now u dm host =
     (if host = [] then clydeReply B now dm ''Usage: leave <host>''
      else
        trying (store_get (\<lambda>d. FindByHost B d (u_ID u) host)) (\<lambda>_. clydeReply B now dm (''No network matching '' @ host)) (\<lambda>(net, _).
        trying (Leave B (u_ID u) (n_ID net))
          (\<lambda>e. clydeReply B now dm (''Failed to leave '' @ n_Name net @ '': '' @ error_text E e))
          (\<lambda>_. thendo (fires (u_ID u) ''GUILD_DELETE'' (json_map [(''id'', JStr (n_ID net)), (''unavailable'', JBool False)]) now)
                 (\<lambda>_. clydeReply B now dm (''Left '' @ n_Name net @ ''.'')))))"

definition clyde_join :: "'d store \<Rightarrow> 'r rest_env \<Rightarrow> time \<Rightarrow> User \<Rightarrow> DMChannel \<Rightarrow> string \<Rightarrow> ('d, 'r, unit) act" where
  "clyde_join B E now u dm line =
     (if \<not> has_infix line ''://'' then
        clydeReply B now dm (''That doesn'' @ [CHR 0x27] @ ''t look like a connection string.'' @ [CHR 0x0A, CHR 0x0A] @ clydeHelpText)
      else
        trying (Join B now (u_ID u) line) (\<lambda>e. clydeReply B now dm (''Can'' @ [CHR 0x27] @ ''t join: '' @ join_text E line e)) (\<lambda>net.
        thendo (fire_guild B now (u_ID u) (n_ID net)) (\<lambda>_.
        clydeReply B now dm (''Joining '' @ n_Name net @ ''. I'' @ [CHR 0x27] @ ''ll report here if the connection fails.''))))"

definition clyde_line :: "'d store \<Rightarrow> 'r rest_env \<Rightarrow> time \<Rightarrow> User \<Rightarrow> DMChannel \<Rightarrow> string \<Rightarrow> ('d, 'r, unit) act" where
  "clyde_line B E now u dm line =
     (if line = [] \<or> equal_fold line ''help'' then clydeReply B now dm clydeHelpText
      else if equal_fold line ''list'' \<or> equal_fold line ''networks'' then
        thendo (reads (\<lambda>m. UserNetworks B m (u_ID u))) (\<lambda>rows. clydeReply B now dm (clyde_list rows))
      else if has_prefix (to_lower line) ''leave '' then
        clyde_leave B E now u dm (trim_space (drop (length ''leave '') line))
      else clyde_join B E now u dm line)"

definition clydeCommand ::
  "'d store \<Rightarrow> 'r rest_env \<Rightarrow> time \<Rightarrow> User \<Rightarrow> DMChannel \<Rightarrow> string \<Rightarrow> json \<Rightarrow> ('d, 'r, reply) act" where
  "clydeCommand B E now u dm body nonce =
     thendo (does (mint_new now)) (\<lambda>msgID.
     thendo (reads (\<lambda>m. SelfAvatarFor B m (u_ID u) (dm_NetworkID dm))) (\<lambda>avatar.
     let ts = NowTimestamp now;
         echo = json_map (messagePayload msgID (dm_ID dm) body ts (u_ID u) (u_Username u) nonce [] avatar) in
     thendo (fires (u_ID u) ''MESSAGE_CREATE'' echo now) (\<lambda>_.
     thendo (store_do (\<lambda>d. AppendMessage B d (plain_row msgID (dm_ID dm) (u_ID u) (u_Username u) body nonce ts))) (\<lambda>_.
     thendo (touch_dm B now (dm_ID dm)) (\<lambda>_.
     thendo (clyde_line B E now u dm (trim_space body)) (\<lambda>_.
     answer (Reply 200 echo)))))))"

section \<open>Reading the request\<close>

record sendMessageRequest =
  sm_Content :: string
  sm_Nonce :: json
  sm_Reference :: "string option"
  sm_Attachments :: "sendAttachment list"

definition dec_reference :: "json \<Rightarrow> string option" where
  "dec_reference j = map_option (flex_field ''message_id'' []) (struct_of j)"

definition decode_send :: "'r rest_env \<Rightarrow> json \<Rightarrow> sendMessageRequest option" where
  "decode_send E j =
     Option.bind (struct_of j) (\<lambda>kvs.
     Option.bind (str_field ''content'' [] kvs) (\<lambda>c.
     Option.bind (case raw_field ''nonce'' None kvs of Some j \<Rightarrow> go_any (re_float E) j | None \<Rightarrow> Some JNull) (\<lambda>n.
     Option.bind (ptr_field dec_reference ''message_reference'' None kvs) (\<lambda>ref.
     Option.bind (list_field ''attachments'' [] kvs) (\<lambda>atts.
     map_option (\<lambda>as. \<lparr>sm_Content = c, sm_Nonce = n, sm_Reference = ref, sm_Attachments = as\<rparr>) (those (map dec_attachment atts)))))))"

text \<open>\<open>FormValue\<close>: the query comes before the body.\<close>

definition form_value :: "request \<Rightarrow> form \<Rightarrow> string \<Rightarrow> string" where
  "form_value r f k = (case map_of (rq_query r @ fst f) k of Some v \<Rightarrow> v | None \<Rightarrow> [])"

definition form_request :: "'r rest_env \<Rightarrow> request \<Rightarrow> form \<Rightarrow> sendMessageRequest option" where
  "form_request E r f =
     (let pj = form_value r f ''payload_json'' in
      if pj \<noteq> [] then Option.bind (unmarshal pj) (decode_send E)
      else Some \<lparr>sm_Content = form_value r f ''content'', sm_Nonce = JStr (form_value r f ''nonce''), sm_Reference = None,
                 sm_Attachments = []\<rparr>)"

text \<open>The files of a form, by the order of their field names. A file is None when it cannot be read.\<close>

definition form_files :: "form \<Rightarrow> (string \<times> string option) list" where
  "form_files f =
     concat (map snd (sort_key fst (filter (\<lambda>(k, _). k = ''files'' \<or> has_prefix k ''files['' \<or> has_prefix k ''file'') (snd f))))"

text \<open>The stored rows and URLs, or the refusal.\<close>

fun store_files ::
  "'d store \<Rightarrow> 'r rest_env \<Rightarrow> time \<Rightarrow> sendAttachment list \<Rightarrow> (string \<times> string option) list \<Rightarrow> json list \<times> string list \<Rightarrow>
     ('d, 'r, reply + json list \<times> string list) act" where
  "store_files B E now atts [] acc = answer (Inr acc)"
| "store_files B E now atts ((name, file) # files) (rows, urls) =
     (case file of
        None \<Rightarrow> answer (Inl (jerror 400 ''unreadable file''))
      | Some data \<Rightarrow>
        if length data > maxUploadBytes then answer (Inl (jerror 400 ''unreadable file''))
        else
          thendo (newStoredAttachment B E now name data) (\<lambda>att.
          let given = (if length atts > length rows then sa_ID (atts ! length rows) else []);
              rowID = (if given \<noteq> [] then given else format_nat (length rows)) in
          store_files B E now atts files
            (rows @ [attachmentPayload (re_publicURL E) rowID att],
             urls @ [attachmentURL (re_publicURL E) (at_ID att) (at_Filename att)])))"

definition receive ::
  "'d store \<Rightarrow> 'r rest_env \<Rightarrow> time \<Rightarrow> request \<Rightarrow> ('d, 'r, reply + sendMessageRequest \<times> json list \<times> string list) act" where
  "receive B E now r =
     (if has_prefix (rq_header r ''Content-Type'') ''multipart/form-data'' then
        (case rq_form r of
           None \<Rightarrow> answer (Inl (jerror 400 ''invalid body''))
         | Some f \<Rightarrow>
           (case form_request E r f of
              None \<Rightarrow> answer (Inl (jerror 400 ''invalid body''))
            | Some req \<Rightarrow>
              thendo (store_files B E now (sm_Attachments req) (form_files f) ([], [])) (\<lambda>s.
              answer (case s of Inl bad \<Rightarrow> Inl bad | Inr acc \<Rightarrow> Inr (req, acc)))))
      else
        answer (case decode_json (rq_body r) of
          Decoded j \<Rightarrow> (case decode_send E j of Some req \<Rightarrow> Inr (req, [], []) | None \<Rightarrow> Inl (jerror 400 ''invalid body''))
        | _ \<Rightarrow> Inl (jerror 400 ''invalid body'')))"

section \<open>Sending\<close>

definition dedupByNonce :: "'d store \<Rightarrow> ('d, 'r) Manager \<Rightarrow> string \<Rightarrow> string \<Rightarrow> json \<Rightarrow> payload option" where
  "dedupByNonce B m userID channelID nonce =
     (case nonce of
        JStr ns \<Rightarrow>
          if ns = [] then None
          else
            map_option (\<lambda>row. messagePayload (bm_ID row) (bm_ChannelID row) (bm_Content row) (bm_Timestamp row)
                (IrcAuthorID (bm_AuthorID row)) (bm_AuthorName row) (bm_Nonce row)
                (AuthorBio B m userID channelID (bm_AuthorID row)) (AuthorAvatar B m userID channelID (bm_AuthorID row)))
              (List.find (\<lambda>row. bm_Nonce row = JStr ns \<and> bm_AuthorID row = userID)
                 (ChannelMessages B (m_db m) channelID [] [] 50))
      | _ \<Rightarrow> None)"

text \<open>Where a message goes: the target, its network, and whether it is a DM thread.\<close>

record destination =
  de_target :: string
  de_network :: string
  de_dm :: bool

definition ircize_for :: "'d store \<Rightarrow> time \<Rightarrow> string \<Rightarrow> destination \<Rightarrow> string \<Rightarrow> ('d, 'r, string) act" where
  "ircize_for B now userID to body m =
     (if \<not> has_infix body ''<@'' \<and> \<not> has_infix body ''<#'' then Some (body, m)
      else
        let users = mention_users B m userID (de_network to) (de_target to);
            (chans, m) = mention_chans B now userID (de_network to) m
        in map_option (\<lambda>s. (s, m)) (IRCize users chans body))"

definition mentions_for :: "'d store \<Rightarrow> time \<Rightarrow> string \<Rightarrow> destination \<Rightarrow> string \<Rightarrow> ('d, 'r, json list \<times> json list) act" where
  "mentions_for B now userID to body m =
     (let users = mention_users B m userID (de_network to) (de_target to);
          (chans, m) = mention_chans B now userID (de_network to) m
      in map_option (\<lambda>r. (r, m)) (MentionPayloadsFromMarkers users chans (de_network to) body))"

definition reply_to :: "sendMessageRequest \<Rightarrow> string" where
  "reply_to req = (case sm_Reference req of Some i \<Rightarrow> i | None \<Rightarrow> [])"

definition wire_copy :: "'d store \<Rightarrow> time \<Rightarrow> string \<Rightarrow> destination \<Rightarrow> string \<Rightarrow> string list \<Rightarrow> ('d, 'r, string) act" where
  "wire_copy B now userID to body urls =
     thendo (ircize_for B now userID to body) (\<lambda>s. answer (trim_space (s @ '' '' @ join '' '' urls)))"

definition relay_upstream ::
  "string \<Rightarrow> destination \<Rightarrow> string \<Rightarrow> string \<Rightarrow> string \<Rightarrow> string \<Rightarrow> ('d, 'r, mgr_err option) act" where
  "relay_upstream userID to wire msgID channelID replyMsgid =
     does (\<lambda>m. if de_dm to then SendQuery userID (de_network to) (de_target to) wire msgID channelID replyMsgid m
               else SendChannel userID (de_network to) (de_target to) wire msgID channelID replyMsgid m)"

definition author_name :: "'d store \<Rightarrow> ('d, 'r) Manager \<Rightarrow> User \<Rightarrow> string \<Rightarrow> string" where
  "author_name B m u networkID =
     (case GetMembership B (m_db m) networkID (u_ID u) of
        Inr mem \<Rightarrow> if mem_Nick mem \<noteq> [] then mem_Nick mem else u_Username u
      | Inl _ \<Rightarrow> u_Username u)"

text \<open>The message as the client sees it: attachments, the reply, and who is mentioned. The mentions of a DM hold no
  channels.\<close>

definition own_message ::
  "'d store \<Rightarrow> time \<Rightarrow> User \<Rightarrow> string \<Rightarrow> destination \<Rightarrow> string \<Rightarrow> string \<Rightarrow> string \<Rightarrow> sendMessageRequest \<Rightarrow> json list \<Rightarrow>
     ('d, 'r, payload) act" where
  "own_message B now u channelID to msgID ts name req rows =
     thendo (reads (\<lambda>m. messagePayload msgID channelID (sm_Content req) ts (u_ID u) name (sm_Nonce req) []
               (SelfAvatarFor B m (u_ID u) (de_network to)))) (\<lambda>msg.
     let msg = (if rows \<noteq> [] then AList.update ''attachments'' (JArr rows) msg else msg) in
     thendo (if reply_to req \<noteq> [] then (\<lambda>m. map_option (\<lambda>p. (p, m)) (attachHistoryReply B m (u_ID u) channelID (reply_to req) msg))
             else answer msg) (\<lambda>msg.
     thendo (mentions_for B now (u_ID u) to (sm_Content req)) (\<lambda>(users, chans).
     let msg = (if users \<noteq> [] then AList.update ''mentions'' (JArr users) msg else msg) in
     answer (if chans \<noteq> [] \<and> \<not> de_dm to then AList.update ''mention_channels'' (JArr chans) msg else msg))))"

definition own_row ::
  "User \<Rightarrow> string \<Rightarrow> string \<Rightarrow> string \<Rightarrow> string \<Rightarrow> sendMessageRequest \<Rightarrow> json list \<Rightarrow> BufferedMessage" where
  "own_row u channelID msgID ts name req rows =
     (plain_row msgID channelID (u_ID u) name (sm_Content req) (sm_Nonce req) ts)\<lparr>bm_Attachments := rows, bm_ReplyTo := reply_to req\<rparr>"

definition publish ::
  "'d store \<Rightarrow> time \<Rightarrow> User \<Rightarrow> string \<Rightarrow> destination \<Rightarrow> string \<Rightarrow> sendMessageRequest \<Rightarrow> json list \<Rightarrow> ('d, 'r, reply) act" where
  "publish B now u channelID to msgID req rows =
     (let ts = NowTimestamp now in
      thendo (reads (\<lambda>m. author_name B m u (de_network to))) (\<lambda>name.
      thendo (own_message B now u channelID to msgID ts name req rows) (\<lambda>msg.
      thendo (fires (u_ID u) ''MESSAGE_CREATE'' (json_map msg) now) (\<lambda>_.
      thendo (store_do (\<lambda>d. AppendMessage B d (own_row u channelID msgID ts name req rows))) (\<lambda>r.
      thendo (does (\<lambda>m. ((), case r of Inl _ \<Rightarrow> m | Inr _ \<Rightarrow> sendLinkPreview (u_ID u) channelID msgID (sm_Content req) m))) (\<lambda>_.
      thendo (if de_dm to then touch_dm B now channelID else answer ()) (\<lambda>_.
      answer (Reply 200 (json_map msg)))))))))"

definition send_to ::
  "'d store \<Rightarrow> time \<Rightarrow> User \<Rightarrow> string \<Rightarrow> destination \<Rightarrow> sendMessageRequest \<Rightarrow> json list \<Rightarrow> string list \<Rightarrow> ('d, 'r, reply) act" where
  "send_to B now u channelID to req rows urls =
     thendo (reads (\<lambda>m. dedupByNonce B m (u_ID u) channelID (sm_Nonce req))) (\<lambda>dup.
     case dup of
       Some msg \<Rightarrow> answer (Reply 200 (json_map msg))
     | None \<Rightarrow>
       thendo (does (mint_new now)) (\<lambda>msgID.
       thendo (reads (\<lambda>m. if reply_to req = [] then []
                          else ReplyTargetMsgid B m (u_ID u) (de_network to) channelID (reply_to req))) (\<lambda>replyMsgid.
       thendo (wire_copy B now (u_ID u) to (sm_Content req) urls) (\<lambda>wire.
       thendo (relay_upstream (u_ID u) to wire msgID channelID replyMsgid) (\<lambda>e.
       case e of
         Some e \<Rightarrow> answer (jerror 409 (mgr_text e))
       | None \<Rightarrow> publish B now u channelID to msgID req rows)))))"

definition send_dm ::
  "'d store \<Rightarrow> 'r rest_env \<Rightarrow> time \<Rightarrow> User \<Rightarrow> string \<Rightarrow> sendMessageRequest \<Rightarrow> json list \<Rightarrow> string list \<Rightarrow> DMChannel \<Rightarrow>
     ('d, 'r, reply) act" where
  "send_dm B E now u channelID req rows urls dm =
     (if dm_OwnerID dm \<noteq> u_ID u then answer (jerror 404 ''unknown channel'')
      else if dm_NetworkID dm = ClydeNetID then clydeCommand B E now u dm (sm_Content req) (sm_Nonce req)
      else send_to B now u channelID \<lparr>de_target = dm_Nick dm, de_network = dm_NetworkID dm, de_dm = True\<rparr> req rows urls)"

definition send_request ::
  "'d store \<Rightarrow> 'r rest_env \<Rightarrow> time \<Rightarrow> User \<Rightarrow> string \<Rightarrow> sendMessageRequest \<Rightarrow> json list \<Rightarrow> string list \<Rightarrow> ('d, 'r, reply) act" where
  "send_request B E now u channelID req rows urls =
     (if trim_space (sm_Content req) = [] \<and> rows = [] then answer (jerror 400 ''empty message'')
      else
        let body = rev (dropWhile (\<lambda>c. c \<in> {CHR '' '', CHR 0x09, CHR 0x0D, CHR 0x0A}) (rev (sm_Content req)));
            req = req\<lparr>sm_Content := body\<rparr> in
        trying (store_get (\<lambda>d. GetDMChannel B d channelID))
          (\<lambda>_. trying (store_get (\<lambda>d. GetChannel B d channelID)) (\<lambda>_. answer (jerror 404 ''unknown channel''))
            (\<lambda>ch. send_to B now u channelID \<lparr>de_target = ch_IRCName ch, de_network = ch_NetworkID ch, de_dm = False\<rparr> req rows urls))
          (send_dm B E now u channelID req rows urls))"

definition handleSendMessage :: "'d store \<Rightarrow> 'r rest_env \<Rightarrow> time \<Rightarrow> ('d, 'r) handler" where
  "handleSendMessage B E now r u =
     thendo (receive B E now r) (\<lambda>got.
     case got of
       Inl bad \<Rightarrow> answer bad
     | Inr (req, rows, urls) \<Rightarrow>
       thendo (reads (\<lambda>m. resolveSendAttachments B (re_publicURL E) (m_db m) (sm_Attachments req))) (\<lambda>res.
       case res of
         Inl _ \<Rightarrow> answer (jerror 400 ''unknown uploaded attachment'')
       | Inr (uploaded, links) \<Rightarrow>
           send_request B E now u (rq_value r ''channel'') req (rows @ uploaded) (urls @ links)))"

end
