(* ===== verification/Rest.thy ===== *)
theory Rest
  imports RestSend
begin

text \<open>
  The HTTP API, last part: the routes of \<open>New\<close> (\<open>server.go\<close>) and \<open>registerStubs\<close> (\<open>stubs.go\<close>), how a request finds its
  handler, and the CORS wrapper around them. The patterns are read the way \<open>http.ServeMux\<close> documents them. No two routes
  for one method match the same path, so their order does not matter. Of the two websocket upgrades (\<open>/gateway\<close>,
  \<open>/remote-auth\<close>) only the handshake is a request, answered by the websocket library; what happens on the gateway's socket
  then is \<open>GatewayServer\<close>. The path of a request is the cleaned path, in segments.
\<close>

datatype ('d, 'r) route =
    Public "request \<Rightarrow> ('d, 'r, reply) act"
  | Protected "('d, 'r) handler"

section \<open>Patterns\<close>

definition is_var :: "string \<Rightarrow> bool" where
  "is_var p = has_prefix p ''{''"

definition var_name :: "string \<Rightarrow> string" where
  "var_name p = trim_set [CHR ''{'', CHR ''}''] p"

text \<open>The values of the wildcards, when the segments of a path match those of a pattern. A wildcard takes one segment that is
  not empty; a pattern that ends in a slash takes every path below it.\<close>

fun match_path :: "string list \<Rightarrow> string list \<Rightarrow> (string \<times> string) list option" where
  "match_path [] [] = Some []"
| "match_path (p # ps) (s # ss) =
     (if p = [] \<and> ps = [] then Some []
      else if is_var p then (if s = [] then None else map_option ((#) (var_name p, s)) (match_path ps ss))
      else if p = s then match_path ps ss
      else None)"
| "match_path _ _ = None"

definition path_segments :: "string \<Rightarrow> string list" where
  "path_segments p = split_on (CHR ''/'') (drop 1 p)"

text \<open>A pattern for GET also takes HEAD.\<close>

definition match_route :: "string \<Rightarrow> request \<Rightarrow> (string \<times> string) list option" where
  "match_route pattern r =
     (case cut_byte pattern (CHR '' '') of (meth, path) \<Rightarrow>
      if meth = rq_method r \<or> meth = ''GET'' \<and> rq_method r = ''HEAD'' then match_path (path_segments path) (rq_path r)
      else None)"

definition with_values :: "request \<Rightarrow> (string \<times> string) list \<Rightarrow> request" where
  "with_values r vs = r\<lparr>rq_value := (\<lambda>k. case map_of vs k of Some v \<Rightarrow> v | None \<Rightarrow> [])\<rparr>"

section \<open>The routes\<close>

definition handle_upgrade :: "'r rest_env \<Rightarrow> request \<Rightarrow> ('d, 'r, reply) act" where
  "handle_upgrade E r = answer (re_upgrade E r)"

definition server_routes ::
  "'d store \<Rightarrow> 'r rest_env \<Rightarrow> env \<Rightarrow> ('d, 'r) hooks \<Rightarrow> ('d, 'r) wait \<Rightarrow> time \<Rightarrow> (string \<times> ('d, 'r) route) list" where
  "server_routes B E e h w now =
     [(''GET /health'', Public (handleHealth E)),
      (''GET /api/v9/gateway'', Public (handleGateway E)),
      (''GET /gateway'', Public (handle_upgrade E)),
      (''GET /gateway/'', Public (handle_upgrade E)),
      (''GET /remote-auth'', Public (handle_upgrade E)),
      (''GET /remote-auth/'', Public (handle_upgrade E)),
      (''POST /api/v9/auth/register'', Public (handleRegister B E now)),
      (''POST /api/v9/auth/login'', Public (handleLogin B E now)),
      (''POST /api/v9/auth/logout'', Protected (handleLogout B)),
      (''GET /api/v9/users/@me'', Protected handleMe),
      (''PATCH /api/v9/users/@me'', Protected (handleUpdateMe B E now)),
      (''POST /api/v9/admin/users'', Public (handleAdminCreateUser B E now)),
      (''GET /api/v9/admin/users'', Public (handleAdminListUsers B)),
      (''GET /avatars/{user}/{hash}'', Public (handleAvatarFile B)),
      (''HEAD /avatars/{user}/{hash}'', Public (handleAvatarFile B)),
      (''GET /embed/avatars/{n}'', Public (handleDefaultAvatar E)),
      (''HEAD /embed/avatars/{n}'', Public (handleDefaultAvatar E)),
      (''GET /users/{user}/avatars/{hash}'', Public (handleAvatarFile B)),
      (''HEAD /users/{user}/avatars/{hash}'', Public (handleAvatarFile B)),
      (''GET /icons/{guild}/{hash}'', Public (handleAvatarFile B)),
      (''HEAD /icons/{guild}/{hash}'', Public (handleAvatarFile B)),
      (''GET /guilds/{guild}/icons/{hash}'', Public (handleAvatarFile B)),
      (''HEAD /guilds/{guild}/icons/{hash}'', Public (handleAvatarFile B)),
      (''GET /api/v9/users/@me/settings'', Protected (handleUserSettings B)),
      (''GET /api/v9/users/@me/notes'', Protected (handleUserNotes B)),
      (''GET /api/v9/users/@me/notes/{id}'', Protected (handleUserNote B)),
      (''PUT /api/v9/users/@me/notes/{id}'', Protected (handlePutUserNote B now)),
      (''GET /api/v9/users/@me/guilds'', Protected (handleUserGuilds B)),
      (''GET /api/v9/users/@me/mentions'', Protected (handleRecentMentions B)),
      (''DELETE /api/v9/users/@me/guilds/{guild}'', Protected (handleLeaveGuild B now)),
      (''POST /api/v9/guilds/{guild}/delete'', Protected (handleLeaveGuild B now)),
      (''DELETE /api/v9/guilds/{guild}'', Protected (handleLeaveGuild B now)),
      (''GET /api/v9/guilds/{guild}/preview'', Protected (handleGuildPreview B)),
      (''GET /api/v9/users/@me/channels'', Protected (handleUserChannels B)),
      (''POST /api/v9/users/@me/channels'', Protected (handleCreateDM B now)),
      (''POST /api/v9/guilds'', Protected (handleCreateGuild B E now)),
      (''POST /api/v9/guilds/{guild}/channels'', Protected (handleCreateChannel B now)),
      (''PATCH /api/v9/guilds/{guild}/channels'', Protected (handleGuildChannelPositions B now)),
      (''DELETE /api/v9/channels/{channel}'', Protected (handleDeleteChannel B now)),
      (''PATCH /api/v9/channels/{channel}'', Protected (handleUpdateChannel B now)),
      (''PATCH /api/v9/guilds/{guild}/members/@me'', Protected (handleUpdateMemberMe B E now)),
      (''GET /api/v9/invites/{code}'', Protected (handleGetInvite B E now)),
      (''POST /api/v9/invites/{code}'', Protected (handleJoinInvite B now)),
      (''GET /api/v9/channels/{channel}/messages'', Protected (handleGetMessages B e h w now)),
      (''GET /api/v9/channels/{channel}/messages/search'', Protected (handleSearchMessages B)),
      (''GET /api/v9/guilds/{guild}/messages/search'', Protected (handleSearchGuildMessages B now)),
      (''POST /api/v9/channels/{channel}/messages'', Protected (handleSendMessage B E now)),
      (''POST /api/v9/channels/{channel}/attachments'', Protected (handleCreateAttachments B E now)),
      (''PUT /api/v9/uploads/{token}'', Public (handleUpload B E now)),
      (''DELETE /api/v9/attachments/{path}'', Protected handleNoContentAuthed),
      (''POST /api/v9/attachments/refresh-urls'', Protected handleRefreshAttachmentURLs),
      (''GET /attachments/{id}/{filename}'', Public (handleGetAttachment B)),
      (''HEAD /attachments/{id}/{filename}'', Public (handleGetAttachment B)),
      (''DELETE /api/v9/channels/{channel}/messages/{message}'', Protected (handleDeleteMessage B now)),
      (''PUT /api/v9/channels/{channel}/messages/{message}/reactions/{emoji}/@me'', Protected (handleReactSelf B now)),
      (''DELETE /api/v9/channels/{channel}/messages/{message}/reactions/{emoji}/@me'', Protected (handleReactSelf B now)),
      (''POST /api/v9/channels/{channel}/typing'', Protected (handleStartTyping B)),
      (''GET /api/v9/channels/{channel}/pins'', Protected (handlePinnedMessages B now)),
      (''PUT /api/v9/channels/{channel}/pins/{message}'', Protected (handlePinMessage B now)),
      (''DELETE /api/v9/channels/{channel}/pins/{message}'', Protected (handleUnpinMessage B now)),
      (''POST /api/v9/channels/{channel}/messages/{message}/ack'', Protected (handleAckMessage B now)),
      (''POST /api/v9/guilds/{guild}/ack'', Protected (handleAckGuild B now)),
      (''GET /api/v9/guilds/{guild}'', Protected (handleGuildDetail B now)),
      (''PATCH /api/v9/guilds/{guild}'', Protected (handleUpdateGuild B E now)),
      (''GET /api/v9/channels/{channel}/messages/{message}/reactions/{emoji}'', Protected (handleReactionReactors B E)),
      (''GET /.well-known/spacebar/client'', Public handleWellKnownClient),
      (''GET /.well-known/spacebar'', Public handleWellKnown),
      (''GET /policies/instance/domains'', Public handleInstanceDomains),
      (''GET /assets/{name}'', Public (handleAsset E))]"

definition registerStubs :: "'d store \<Rightarrow> 'r rest_env \<Rightarrow> time \<Rightarrow> (string \<times> ('d, 'r) route) list" where
  "registerStubs B E now =
     [(''GET /api/v9/guild-recommendations'', Protected handleGuildRecommendations),
      (''GET /api/v9/discoverable-guilds'', Protected handleDiscoverableGuilds),
      (''GET /api/v9/discovery/categories'', Public handleDiscoveryCategories),
      (''GET /api/v9/experiments'', Public handleExperiments),
      (''POST /api/v9/science'', Public handleNoContent),
      (''POST /api/v9/metrics'', Public handleNoContent),
      (''POST /api/v9/flurgergson'', Public handleNoContent),
      (''PUT /api/v9/fingerprint/whitelist'', Public handleNoContent),
      (''GET /api/v9/auth/location-metadata'', Public handleLocationMetadata),
      (''POST /api/v9/auth/fingerprint'', Public (handleAuthFingerprint E now)),
      (''PATCH /api/v9/users/@me/settings-proto/{type}'', Protected (handleSettingsProtoPatch B)),
      (''GET /api/v9/users/@me/settings-proto/{type}'', Protected (handleSettingsProtoGet B)),
      (''GET /api/v9/users/@me/billing/payment-sources'', Protected handleEmptyArray),
      (''GET /api/v9/users/@me/billing/country-code'', Protected handleCountryCode),
      (''PATCH /api/v9/users/@me/settings'', Protected (handleSettingsPatch B now)),
      (''GET /api/v9/users/@me/affinities/guilds'', Protected handleGuildAffinities),
      (''GET /api/v9/users/@me/library'', Protected handleEmptyArray),
      (''GET /api/v9/users/@me/billing/user-trial-offer'', Protected handleNull),
      (''GET /api/v2/incidents/unresolved.json'', Public handleStatuspageJSON),
      (''GET /api/v2/scheduled-maintenances/active.json'', Public handleStatuspageJSON),
      (''GET /api/v2/scheduled-maintenances/upcoming.json'', Public handleStatuspageJSON),
      (''GET /api/v9/gateway/bot'', Public (handleGatewayBot E)),
      (''GET /api/v9/applications/detectable'', Public handleEmptyArrayPublic),
      (''GET /api/v9/users/@me/connections'', Protected handleEmptyArray),
      (''GET /api/v9/users/@me/entitlements'', Protected handleEmptyArray),
      (''GET /api/v9/users/@me/billing/subscriptions'', Protected handleEmptyArray),
      (''GET /api/v9/users/@me/relationships'', Protected handleEmptyArray),
      (''GET /api/v9/users/@me/affinities/users'', Protected handleAffinities),
      (''GET /api/v9/users/{id}/profile'', Protected (handleUserProfile B E)),
      (''GET /api/v9/users/@me/survey'', Protected handleNull),
      (''GET /api/v9/outbound-promotions'', Protected handleEmptyArray),
      (''POST /api/v9/users/@me/devices'', Protected handleNoContentAuthed),
      (''GET /api/v9/sticker-packs'', Protected handleStickerPacks),
      (''GET /api/v9/sticker-packs/{id}'', Protected handleStickerPack)]"

section \<open>Serving a request\<close>

definition handle_route :: "'d store \<Rightarrow> time \<Rightarrow> ('d, 'r) route \<Rightarrow> request \<Rightarrow> ('d, 'r, reply) act" where
  "handle_route B now rt =
     (case rt of Public f \<Rightarrow> f | Protected f \<Rightarrow> requireAuth B now f)"

fun dispatch_routes :: "'d store \<Rightarrow> time \<Rightarrow> (string \<times> ('d, 'r) route) list \<Rightarrow> request \<Rightarrow> ('d, 'r, reply) act" where
  "dispatch_routes B now [] r = handleUnknown r"
| "dispatch_routes B now ((pattern, rt) # rts) r =
     (case match_route pattern r of
        Some vs \<Rightarrow> handle_route B now rt (with_values r vs)
      | None \<Rightarrow> dispatch_routes B now rts r)"

definition cors_headers :: "(string \<times> string) list" where
  "cors_headers =
     [(''Access-Control-Allow-Origin'', ''*''),
      (''Access-Control-Allow-Methods'', ''GET, POST, PUT, PATCH, DELETE, OPTIONS''),
      (''Access-Control-Allow-Headers'',
       ''Authorization, Content-Type, X-Debug-Options, X-Super-Properties, X-Fingerprint, X-Context-Properties, '' @
       ''X-Discord-Locale'')]"

text \<open>The headers that go with every reply, and the reply.\<close>

definition withCORS :: "(request \<Rightarrow> ('d, 'r, reply) act) \<Rightarrow> request \<Rightarrow> ('d, 'r, (string \<times> string) list \<times> reply) act" where
  "withCORS next r =
     thendo (if rq_method r = ''OPTIONS'' then answer (Status 204) else next r) (\<lambda>reply. answer (cors_headers, reply))"

definition serve ::
  "'d store \<Rightarrow> 'r rest_env \<Rightarrow> env \<Rightarrow> ('d, 'r) hooks \<Rightarrow> ('d, 'r) wait \<Rightarrow> time \<Rightarrow> request \<Rightarrow>
     ('d, 'r, (string \<times> string) list \<times> reply) act" where
  "serve B E e h w now =
     withCORS (dispatch_routes B now (server_routes B E e h w now @ registerStubs B E now))"

end
