(* ===== verification/RestSafety.thy ===== *)
theory RestSafety
  imports Rest ServiceSafety
begin

text \<open>
  The HTTP API keeps the bouncer well formed: every request that returns leaves a well-formed state, and every request
  returns, but for the handlers that render stored replies or read mention markers, whose loops may run forever.
\<close>

text \<open>\<open>safe lost f\<close>: on a well-formed state \<open>f\<close> keeps it well formed, and returns unless \<open>lost\<close> allows that it does not.\<close>

definition safe :: "bool \<Rightarrow> ('d, 'r, 'a) act \<Rightarrow> bool" where
  "safe lost f \<longleftrightarrow> (\<forall>m. mgr_wf m \<longrightarrow> (case f m of Some (_, m') \<Rightarrow> mgr_wf m' | None \<Rightarrow> lost))"

named_theorems safes

lemma safe_stays: "(\<And>m. mgr_wf m \<Longrightarrow> stays2 (f m)) \<Longrightarrow> safe lost f"
  by (fastforce simp: safe_def stays2_def split: option.splits)

lemma safe_lost: "(\<And>m x m'. mgr_wf m \<Longrightarrow> f m = Some (x, m') \<Longrightarrow> mgr_wf m') \<Longrightarrow> safe True f"
  by (auto simp: safe_def split: option.split)

lemma sound_safe: "sound f \<Longrightarrow> safe lost f"
  by (simp add: sound_def safe_stays)

lemmas sound_safes [safes] = sounds [THEN sound_safe]

lemma safe_answer [safes]: "safe lost (answer x)"
  and safe_reads [safes]: "safe lost (reads g)"
  by (simp_all add: safe_def answer_def reads_def)

lemma safe_does [safes]: "(\<And>m. mgr_wf m \<Longrightarrow> mgr_wf (snd (f m))) \<Longrightarrow> safe lost (does f)"
  by (simp add: safe_def does_def split_beta)

lemma safe_fires [safes]: "safe lost (fires u t pl now)"
  by (rule safe_stays) (auto simp: fires_def intro!: keeps)

lemma safe_thendo [safes]:
  fixes f :: "('d, 'r, 'a) act"
  assumes "safe lost f" "\<And>x. safe lost (g x)" shows "safe lost (thendo f g)"
proof (unfold safe_def, intro allI impI)
  fix m :: "('d, 'r) Manager"
  assume "mgr_wf m"
  then have "case f m of Some (_, m') \<Rightarrow> mgr_wf m' | None \<Rightarrow> lost" using assms(1) by (simp add: safe_def)
  then show "case thendo f g m of Some (_, m') \<Rightarrow> mgr_wf m' | None \<Rightarrow> lost"
    using assms(2) by (cases "f m") (auto simp: thendo_def safe_def)
qed

lemma safe_trying [safes]:
  assumes "safe lost f" "\<And>e. safe lost (bad e)" "\<And>x. safe lost (good x)"
  shows "safe lost (trying f bad good)"
  unfolding trying_def using assms by (auto intro!: safe_thendo split: sum.split)

lemma safe_for_each [safes]: "(\<And>x. safe lost (f x)) \<Longrightarrow> safe lost (for_each f xs)"
  by (induction xs) (auto intro!: safes)

lemma safe_with_auth [safes]: "safe lost (with_auth f)"
  by (auto simp: safe_def with_auth_def mgr_wf_def Let_def split: prod.split)

section \<open>Accounts, discovery and files\<close>

lemma safe_requireAuth [safes]: "(\<And>r u. safe lost (f r u)) \<Longrightarrow> safe lost (requireAuth B now f r)"
  unfolding requireAuth_def by (auto intro!: safes simp: Let_def split: sum.split)

lemma safe_accounts [safes]:
  "safe lost (handleRegister B E now r)" "safe lost (handleLogin B E now r)" "safe lost (handleLogout B r u)"
  "safe lost (handleMe r u)" "safe lost (handleAdminCreateUser B E now r)" "safe lost (handleAdminListUsers B r)"
  "safe lost (handleAuthFingerprint E now r)"
  unfolding handleRegister_def handleLogin_def handleLogout_def handleMe_def handleAdminCreateUser_def
    handleAdminListUsers_def handleAuthFingerprint_def
  by (auto intro!: safes split: option.split)

lemma safe_discovery [safes]:
  "safe lost (handleHealth E r)" "safe lost (handleGateway E r)" "safe lost (handleGatewayBot E r)"
  "safe lost (handleWellKnownClient r)" "safe lost (handleWellKnown r)" "safe lost (handleInstanceDomains r)"
  "safe lost (handle_upgrade E r)"
  unfolding handleHealth_def handleGateway_def handleGatewayBot_def handleWellKnownClient_def handleWellKnown_def
    handleInstanceDomains_def handle_upgrade_def
  by (auto intro!: safes split: prod.split)

lemma safe_self [safes]:
  "safe lost (handleUserSettings B r u)" "safe lost (handleUserGuilds B r u)" "safe lost (handleUserChannels B r u)"
  unfolding handleUserSettings_def handleUserGuilds_def handleUserChannels_def by (rule safes)+

lemma safe_avatars [safes]:
  "safe lost (handleAsset E r)" "safe lost (handleDefaultAvatar E r)" "safe lost (handleUpdateMe B E now r u)"
  "safe lost (handleAvatarFile B r)"
  unfolding handleAsset_def handleDefaultAvatar_def handleUpdateMe_def handleAvatarFile_def
  by (auto intro!: safes split: option.split)

lemma safe_create_slots [safes]: "safe lost (create_slots B E now u ch out files)"
  by (induction files arbitrary: out) (auto intro!: safes simp: Let_def)

lemma safe_mint [safes]: "safe lost (does (mint_new now))"
  by (rule safe_does) simp

lemma safe_stored [safes]: "safe lost (newStoredAttachment B E now name data)"
  unfolding newStoredAttachment_def by (auto intro!: safes simp: Let_def)

lemma safe_attachments [safes]:
  "safe lost (handleCreateAttachments B E now r u)" "safe lost (handleUpload B E now r)"
  "safe lost (handleGetAttachment B r)" "safe lost (handleRefreshAttachmentURLs r u)"
  unfolding handleCreateAttachments_def handleUpload_def handleGetAttachment_def handleRefreshAttachmentURLs_def
  by (auto intro!: safes simp: Let_def split: option.split)

section \<open>Settings and constant answers\<close>

lemma safe_settings [safes]:
  "safe lost (handleUserProfile B E r u)" "safe lost (handleUserNotes B r u)" "safe lost (handleUserNote B r u)"
  "safe lost (handlePutUserNote B now r u)" "safe lost (handleSettingsPatch B now r u)"
  "safe lost (handleSettingsProtoPatch B r u)" "safe lost (handleSettingsProtoGet B r u)"
  unfolding handleUserProfile_def handleUserNotes_def handleUserNote_def handlePutUserNote_def handleSettingsPatch_def
    handleSettingsProtoPatch_def handleSettingsProtoGet_def
  by (auto intro!: safes keeps simp: Let_def split: option.split sum.split json.split)

lemma safe_constants [safes]:
  "safe lost (handleEmptyArray r u)" "safe lost (handleNull r u)" "safe lost (handleNoContentAuthed r u)"
  "safe lost (handleNoContent r)" "safe lost (handleEmptyArrayPublic r)" "safe lost (handleLocationMetadata r)"
  "safe lost (handleExperiments r)" "safe lost (handleGuildRecommendations r u)" "safe lost (handleDiscoverableGuilds r u)"
  "safe lost (handleDiscoveryCategories r)" "safe lost (handleStatuspageJSON r)" "safe lost (handleGuildAffinities r u)"
  "safe lost (handleAffinities r u)" "safe lost (handleCountryCode r u)" "safe lost (handleStickerPacks r u)"
  "safe lost (handleStickerPack r u)" "safe lost (handleUnknown r)"
  unfolding handleEmptyArray_def handleNull_def handleNoContentAuthed_def handleNoContent_def handleEmptyArrayPublic_def
    handleLocationMetadata_def handleExperiments_def handleGuildRecommendations_def handleDiscoverableGuilds_def
    handleDiscoveryCategories_def handleStatuspageJSON_def handleGuildAffinities_def handleAffinities_def
    handleCountryCode_def handleStickerPacks_def handleStickerPack_def handleUnknown_def
  by (rule safes)+

section \<open>Guilds and channels\<close>

lemma safe_fire_guild [safes]: "safe lost (fire_guild B now u n)"
  unfolding fire_guild_def by (auto intro!: safes)

lemma safe_joined_channels [safes]: "safe lost (joined_channels B now n mem)"
  unfolding joined_channels_def by (auto intro!: safes)

lemma safe_invite_found [safes]: "safe lost (invite_found B now code u found)"
  unfolding invite_found_def by (auto intro!: safes split: sum.split)

lemma safe_joining [safes]:
  "safe lost (handleCreateGuild B E now r u)" "safe lost (handleGetInvite B E now r u)" "safe lost (handleJoinInvite B now r u)"
  unfolding handleCreateGuild_def handleGetInvite_def handleJoinInvite_def
  by (auto intro!: safes simp: Let_def split: option.split sum.split)

lemma flush_all_wf:
  "gw_wf sv \<Longrightarrow> \<forall>a \<in> set as. a < length (gw_heap sv) \<Longrightarrow> \<exists>sv'. flush_all as n sv = Some sv' \<and> gw_wf sv'"
proof (induction "as" arbitrary: n sv)
  case (Cons a "as")
  let ?s = "sess_at sv a"
  show ?case
  proof (cases "gs_send ?s")
    case None
    then show ?thesis using Cons by (simp add: offline_def)
  next
    case (Some c)
    then have open_c: "\<not> wc_closed (gw_wire sv c)"
      using gw_session_wf [OF Cons.prems(1), of a] Cons.prems(2) by (simp add: session_wf_def)
    then obtain b w where q: "queueFlush ?s (gw_wire sv) n = Some (b, w)" "\<forall>c. wc_closed (w c) = wc_closed (gw_wire sv c)"
      using Some by (cases "chan_full (gw_wire sv c)") (auto simp: queueFlush_def)
    then have "gw_wf (sv\<lparr>gw_wire := w\<rparr>)" using Cons.prems(1) by (intro gw_wf_wire)
    then show ?thesis using Some q(1) Cons.IH [of "sv\<lparr>gw_wire := w\<rparr>" "n + 1"] Cons.prems(2) by (simp add: offline_def)
  qed
qed simp

lemma user_session_addr: "gw_wf sv \<Longrightarrow> (i, a) \<in> set (user_sessions sv u) \<Longrightarrow> a < length (gw_heap sv)"
  unfolding gw_wf_def table_wf_def user_sessions_def
  by (auto split: option.splits)

lemma FlushUser_wf: "gw_wf sv \<Longrightarrow> \<exists>sv'. FlushUser u n sv = Some sv' \<and> gw_wf sv'"
  unfolding FlushUser_def using user_session_addr by (intro flush_all_wf) auto

lemma safe_flushes [safes]: "safe lost (flushes u n)"
proof (rule safe_stays)
  fix m :: "('a, 'b) Manager"
  assume wf: "mgr_wf m"
  then obtain g where "FlushUser u n (m_gw m) = Some g" "gw_wf g"
    using FlushUser_wf [of "m_gw m" u n] by (auto simp: mgr_wf_def)
  then show "stays2 (flushes u n m)" using wf by (simp add: flushes_def mgr_wf_def)
qed

lemma safe_guilds [safes]:
  "safe lost (handleGuildDetail B now r u)" "safe lost (handleGuildPreview B r u)" "safe lost (handleLeaveGuild B now r u)"
  unfolding handleGuildDetail_def handleGuildPreview_def handleLeaveGuild_def
  by (auto intro!: safes simp: Let_def)

lemma safe_handleUpdateGuild [safes]: "safe lost (handleUpdateGuild B E now r u)"
  unfolding handleUpdateGuild_def by (auto intro!: safes simp: Let_def split: option.split)

lemma upstream_wf [keeps]:
  assumes "mgr_wf m"
  shows "mgr_wf (snd (SetTopic u n ch topic m))" "mgr_wf (snd (Bridge.RenameChannel u n ch name m))"
    "mgr_wf (snd (SetNick u n nick m))" "mgr_wf (snd (StartTyping B u ch m))"
  using assms
  by (auto simp: SetTopic_def Bridge.RenameChannel_def SetNick_def StartTyping_def split_beta intro!: keeps
      split: sum.split option.split)

lemma safe_asks [safes]:
  "safe lost (ask_topic u ch t)" "safe lost (ask_rename u ch n)" "safe lost (ask_nick u netID current n)"
  unfolding ask_topic_def ask_rename_def ask_nick_def
  by (auto intro!: safes simp: Let_def split_beta upstream_wf split: option.split)

lemma safe_update_channel [safes]:
  "safe lost (update_category B now u cat req)" "safe lost (update_channel B now u ch req)"
  unfolding update_category_def update_channel_def
  by (auto intro!: safes simp: Let_def split: option.split sum.split)

lemma safe_close_dm [safes]: "safe lost (close_dm B now u ch dm)"
  unfolding close_dm_def by (auto intro!: safes)

lemma safe_channels [safes]:
  "safe lost (handleUpdateChannel B now r u)" "safe lost (handleCreateChannel B now r u)" "safe lost (handleDeleteChannel B now r u)"
  unfolding handleUpdateChannel_def handleCreateChannel_def handleDeleteChannel_def
  by (auto intro!: safes simp: Let_def split: option.split sum.split)

lemma safe_move_entry [safes]: "safe lost (move_entry B now u e)"
  unfolding move_entry_def by (auto intro!: safes simp: Let_def split: sum.split)

lemma safe_move_entries [safes]: "safe lost (move_entries B now u es)"
  by (induction es) (auto intro!: safes split: option.split)

lemma safe_positions [safes]: "safe lost (handleGuildChannelPositions B now r u)"
  unfolding handleGuildChannelPositions_def by (auto intro!: safes simp: Let_def split: option.split)

lemma safe_handleUpdateMemberMe [safes]: "safe lost (handleUpdateMemberMe B E now r u)"
  unfolding handleUpdateMemberMe_def by (auto intro!: safes split: option.split sum.split)

lemma safe_direct [safes]:
  "safe lost (handleCreateDM B now r u)" "safe lost (handleStartTyping B r u)"
  "safe lost (handleAckMessage B now r u)" "safe lost (handleAckGuild B now r u)"
  unfolding handleCreateDM_def handleStartTyping_def handleAckMessage_def handleAckGuild_def
  by (auto intro!: safes keeps simp: Let_def split: option.split)

section \<open>Messages\<close>

lemma safe_pinning [safes]:
  "safe lost (handlePinMessage B now r u)" "safe lost (handleUnpinMessage B now r u)"
  unfolding handlePinMessage_def handleUnpinMessage_def by (auto intro!: safes simp: Let_def split: prod.split)

lemma safe_searching [safes]:
  "safe lost (handleSearchMessages B r u)" "safe lost (handleSearchGuildMessages B now r u)"
  "safe lost (handleReactionReactors B E r u)"
  unfolding handleSearchMessages_def handleSearchGuildMessages_def handleReactionReactors_def
  by (auto intro!: safes simp: Let_def)

lemma safe_bridge [safes]:
  "safe lost (SendReaction B now u n target i ch emoji remove)" "safe lost (Bridge.DeleteMessage B now u n target i ch)"
  by (rule safe_stays, erule keeps)+

lemma safe_reacting [safes]:
  "safe lost (handleReactSelf B now r u)" "safe lost (handleDeleteMessage B now r u)"
  unfolding handleReactSelf_def handleDeleteMessage_def by (auto intro!: safes simp: Let_def split: option.split)

lemma safe_history_page [safes]: "safe True (history_page B u rows)"
  by (rule safe_lost) (auto simp: history_page_def)

lemma UpsertPeersByNick_stays: "mgr_wf m \<Longrightarrow> stays (UpsertPeersByNick B now u n nicks m)"
  unfolding UpsertPeersByNick_def by (auto intro!: keeps split: option.split sum.split)

lemma safe_upsert_pills [safes]: "safe lost (upsert_pills B now u ch rows)"
  by (rule safe_stays) (auto simp: upsert_pills_def intro!: stays_pair UpsertPeersByNick_stays)

section \<open>Sending\<close>

lemma safe_touch_dm [safes]: "safe lost (touch_dm B now ch)"
  unfolding touch_dm_def by (auto intro!: safes)

lemma safe_clydeReply [safes]: "safe lost (clydeReply B now dm body)"
  unfolding clydeReply_def by (auto intro!: safes simp: Let_def)

lemma safe_clyde_lines [safes]:
  "safe lost (clyde_leave B E now u dm host)" "safe lost (clyde_join B E now u dm line)"
  unfolding clyde_leave_def clyde_join_def by (auto intro!: safes split: prod.split)

lemma safe_clyde_line [safes]: "safe lost (clyde_line B E now u dm line)"
  unfolding clyde_line_def by (auto intro!: safes)

lemma safe_clydeCommand [safes]: "safe lost (clydeCommand B E now u dm body nonce)"
  unfolding clydeCommand_def by (auto intro!: safes simp: Let_def)

lemma safe_store_files [safes]: "safe lost (store_files B E now atts files acc)"
  by (induction B E now atts files acc rule: store_files.induct) (auto intro!: safes simp: Let_def split: option.split)

lemma safe_receive [safes]: "safe lost (receive B E now r)"
  unfolding receive_def by (auto intro!: safes split: option.split)

lemma safe_mentions [safes]:
  "safe True (ircize_for B now u to body)" "safe True (mentions_for B now u to body)"
  by (rule safe_lost, auto simp: ircize_for_def mentions_for_def mention_chans_def split_beta split: if_splits)+

lemma safe_relay_upstream [safes]: "safe lost (relay_upstream u to wire i ch replyMsgid)"
  unfolding relay_upstream_def by (auto intro!: safes keeps)

lemma safe_attachHistoryReply [safes]: "safe True (\<lambda>m. map_option (\<lambda>p. (p, m)) (attachHistoryReply B m u ch ref pl))"
  by (rule safe_lost) auto

lemma safe_send_to [safes]: "safe True (send_to B now u ch to req rows urls)"
  unfolding send_to_def wire_copy_def publish_def own_message_def
  by (auto intro!: safes simp: Let_def split: option.split sum.split)

lemma safe_handleSendMessage [safes]: "safe True (handleSendMessage B E now r u)"
  unfolding handleSendMessage_def send_request_def send_dm_def
  by (auto intro!: safes simp: Let_def split: sum.split)

section \<open>History\<close>

text \<open>While a request waits for a page of history the others go on; they keep the state well formed.\<close>

definition wait_wf :: "('d, 'r) wait \<Rightarrow> bool" where
  "wait_wf w \<longleftrightarrow> (\<forall>k m. mgr_wf m \<longrightarrow> mgr_wf (snd (w k m)))"

lemma safe_fetch_take [safes]: "hooks_wf h \<Longrightarrow> safe lost (fetch_take B e h now c)"
  by (rule safe_stays, erule keeps)

lemma safe_fetch_older [safes]: "hooks_wf h \<Longrightarrow> wait_wf w \<Longrightarrow> safe lost (fetch_older B e h (w k) now u ch anchor need)"
  unfolding fetch_older_def
  by (auto intro!: safes keeps simp: wait_wf_def split: prod.split)

lemma safe_fetch_rounds [safes]: "hooks_wf h \<Longrightarrow> wait_wf w \<Longrightarrow> safe lost (fetch_rounds B e h w now u ch cursor k need)"
  by (induction k arbitrary: need) (auto intro!: safes)

lemma safe_FetchOlderMessages [safes]:
  "hooks_wf h \<Longrightarrow> wait_wf w \<Longrightarrow> safe lost (FetchOlderMessages B e h w now u ch before need)"
  unfolding FetchOlderMessages_def by (auto intro!: safes split: sum.split)

lemma safe_rendering [safes]:
  "hooks_wf h \<Longrightarrow> wait_wf w \<Longrightarrow> safe True (handleGetMessages B e h w now r u)"
  "safe True (handlePinnedMessages B now r u)" "safe True (handleRecentMentions B r u)"
  unfolding handleGetMessages_def handlePinnedMessages_def handleRecentMentions_def
  by (auto intro!: safes simp: Let_def)

section \<open>Every route\<close>

text \<open>The routes that render stored replies or read mention markers.\<close>

definition slow_routes :: "string list" where
  "slow_routes =
     [''GET /api/v9/users/@me/mentions'', ''GET /api/v9/channels/{channel}/messages'',
      ''POST /api/v9/channels/{channel}/messages'', ''GET /api/v9/channels/{channel}/pins'']"

definition safe_route :: "bool \<Rightarrow> ('d, 'r) route \<Rightarrow> bool" where
  "safe_route lost rt = (case rt of Public f \<Rightarrow> \<forall>r. safe lost (f r) | Protected f \<Rightarrow> \<forall>r u. safe lost (f r u))"

lemma safe_route_simps [simp]:
  "safe_route lost (Public f) = (\<forall>r. safe lost (f r))" "safe_route lost (Protected g) = (\<forall>r u. safe lost (g r u))"
  by (simp_all add: safe_route_def)

lemma safe_mono: "safe lost f \<Longrightarrow> (lost \<Longrightarrow> lost') \<Longrightarrow> safe lost' f"
  by (auto simp: safe_def split: option.splits)

lemma safe_route_mono: "safe_route lost rt \<Longrightarrow> (lost \<Longrightarrow> lost') \<Longrightarrow> safe_route lost' rt"
  by (cases rt) (auto intro: safe_mono)

lemma safe_handle_route: "safe_route lost rt \<Longrightarrow> safe lost (handle_route B now rt r)"
  by (cases rt) (simp_all add: handle_route_def safe_requireAuth)

lemma safe_dispatch_routes:
  "(\<And>p rt. (p, rt) \<in> set rts \<Longrightarrow> match_route p r \<noteq> None \<Longrightarrow> safe_route lost rt) \<Longrightarrow> safe lost (dispatch_routes B now rts r)"
proof (induction rts)
  case (Cons x rts)
  obtain p rt where x: "x = (p, rt)" by (cases x)
  show ?case
  proof (cases "match_route p r")
    case None
    have "safe lost (dispatch_routes B now rts r)" using Cons.prems by (intro Cons.IH) (meson list.set_intros(2))
    then show ?thesis using None x by simp
  next
    case (Some vs)
    then have "safe_route lost rt" using Cons.prems [of p rt] x by simp
    then show ?thesis using Some x by (simp add: safe_handle_route)
  qed
qed (simp add: safes)

lemma safe_server_routes:
  "hooks_wf h \<Longrightarrow> wait_wf w \<Longrightarrow> (p, rt) \<in> set (server_routes B E e h w now) \<Longrightarrow> safe_route (p \<in> set slow_routes) rt"
  unfolding server_routes_def list.set insert_iff empty_iff prod.inject slow_routes_def
  by (elim disjE conjE; simp add: safes)

lemma safe_stub_routes: "(p, rt) \<in> set (registerStubs B E now) \<Longrightarrow> safe_route lost rt"
  unfolding registerStubs_def list.set insert_iff empty_iff prod.inject
  by (elim disjE conjE; simp add: safes)

lemma safe_serve:
  assumes "hooks_wf h" "wait_wf w"
  shows "safe (\<exists>p \<in> set slow_routes. match_route p r \<noteq> None) (serve B E e h w now r)"
proof -
  have "safe (\<exists>p \<in> set slow_routes. match_route p r \<noteq> None)
      (dispatch_routes B now (server_routes B E e h w now @ registerStubs B E now) r)"
  proof (rule safe_dispatch_routes)
    fix p rt
    assume p: "(p, rt) \<in> set (server_routes B E e h w now @ registerStubs B E now)" "match_route p r \<noteq> None"
    then have "safe_route (p \<in> set slow_routes) rt" using safe_server_routes [OF assms] safe_stub_routes by auto
    then show "safe_route (\<exists>p \<in> set slow_routes. match_route p r \<noteq> None) rt" by (rule safe_route_mono) (use p in blast)
  qed
  then show ?thesis by (auto simp: serve_def withCORS_def intro!: safes)
qed

end
