(* ===== verification/RestProps.thy ===== *)
theory RestProps
  imports RestSafety Relayed
begin

text \<open>What the HTTP API promises: it survives every request, changes nothing for a stranger, and sends a retried message
  once; and where it does not return.\<close>

section \<open>Survival\<close>

definition demo_rest :: "nat rest_env" where
  "demo_rest =
     \<lparr>re_publicURL = ''http://h'', re_argon = demo_argon, re_rand = demo_rand, re_goroutines = 9, re_clock = ''7'',
      re_disc = (\<lambda>_. None), re_dims = (\<lambda>_. None), re_mime = (\<lambda>_. []), re_sniff = (\<lambda>_. ''application/octet-stream''),
      re_float = Some, re_errtext = (\<lambda>_. []), re_badconn = (\<lambda>_. []), re_barrier = 0, re_peers = (\<lambda>_. []),
      re_upgrade = (\<lambda>_. Status 101)\<rparr>"

definition demo_request :: "string \<Rightarrow> string list \<Rightarrow> string \<Rightarrow> request" where
  "demo_request meth path body =
     \<lparr>rq_method = meth, rq_path = path, rq_header = (\<lambda>_. []), rq_query = [], rq_value = (\<lambda>_. []), rq_body = body,
      rq_form = None, rq_host = ''h'', rq_tls = False\<rparr>"

lemma gw_manager_wf: "mgr_wf m \<Longrightarrow> gw_wf (m_gw m)"
  by (simp add: mgr_wf_def)

text \<open>C5: Every request on a well-formed bouncer, whatever it asks and whoever sends it, leaves the bouncer well formed,
  also when it changes networks, channels or settings or makes connections; and it is answered, unless it reads history,
  pins or mentions or sends a message (the routes that render stored replies or read mention markers).\<close>

lemma serve_survives:
  assumes "mgr_wf m" "wait_wf w"
  shows "case serve B E e (service_hooks B fetch later) w now r m of
      Some (_, m') \<Rightarrow> gw_wf (m_gw m') \<and> (\<forall>u n k. conn_at m' u n = Some k \<longrightarrow> conn_wf k)
    | None \<Rightarrow> list_ex (\<lambda>p. match_route p r \<noteq> None) slow_routes"
proof -
  have "safe (\<exists>p \<in> set slow_routes. match_route p r \<noteq> None) (serve B E e (service_hooks B fetch later) w now r)"
    using service_hooks_wf assms(2) by (rule safe_serve)
  then show ?thesis using assms(1) conn_at_wf gw_manager_wf
    unfolding safe_def list_ex_iff by (fastforce split: option.splits)
qed

lemma demo_wait: "wait_wf (\<lambda>k m. (False, m))"
  by (simp add: wait_wf_def)

lemma serve_survives_witness:
  "\<exists>reply m'. serve mem_kv demo_rest demo_env (service_hooks mem_kv (\<lambda>_. None) 9) (\<lambda>k m. (False, m)) 7
      (demo_request ''POST'' [''api'', ''v9'', ''auth'', ''login''] ''{}'') demo_manager = Some (reply, m') \<and> gw_wf (m_gw m')"
proof -
  let ?r = "demo_request ''POST'' [''api'', ''v9'', ''auth'', ''login''] ''{}''"
  have "\<not> list_ex (\<lambda>p. match_route p ?r \<noteq> None) slow_routes"
    unfolding slow_routes_def demo_request_def by code_simp
  then show ?thesis
    using serve_survives [OF demo_manager_wf demo_wait, where r = ?r and B = mem_kv and E = demo_rest and e = demo_env
        and fetch = "\<lambda>_. None" and later = 9 and now = 7]
    by (auto split: option.splits)
qed

section \<open>Strangers\<close>

text \<open>\<open>calm m f\<close>: started in \<open>m\<close>, \<open>f\<close> returns and changes nothing.\<close>

definition calm :: "('d, 'r) Manager \<Rightarrow> ('d, 'r, 'a) act \<Rightarrow> bool" where
  "calm m f \<longleftrightarrow> (\<exists>x. f m = Some (x, m))"

lemma calm_simps [simp]: "calm m (answer x)" "calm m (reads g)"
  by (simp_all add: calm_def answer_def reads_def)

text \<open>The routes that let anyone create state: registering, logging in, uploading into a slot, and the fingerprint.\<close>

definition open_writes :: "string list" where
  "open_writes =
     [''POST /api/v9/auth/register'', ''POST /api/v9/auth/login'', ''POST /api/v9/auth/fingerprint'',
      ''PUT /api/v9/uploads/{token}'']"

definition no_session :: "'d store \<Rightarrow> ('d, 'r) Manager \<Rightarrow> request \<Rightarrow> bool" where
  "no_session B m r \<longleftrightarrow> bearerToken r = [] \<or> session_of B (m_db m) (SHA256Hex (bearerToken r)) = None"

definition no_admin :: "('d, 'r) Manager \<Rightarrow> request \<Rightarrow> bool" where
  "no_admin m r \<longleftrightarrow> \<not> AdminAuthorized (gw_auth (m_gw m)) (rq_header r ''X-Master-Key'')"

lemma with_values_header [simp]:
  "rq_header (with_values r vs) = rq_header r" "bearerToken (with_values r vs) = bearerToken r"
  "no_session B m (with_values r vs) = no_session B m r" "no_admin m (with_values r vs) = no_admin m r"
  by (simp_all add: with_values_def bearerToken_def no_session_def no_admin_def)

lemma calm_requireAuth:
  assumes "store B" "no_session B m r"
  shows "requireAuth B now f r m = Some (unauthorized, m)"
proof (cases "bearerToken r = []")
  case True
  then show ?thesis by (simp add: requireAuth_def answer_def)
next
  case False
  then have "session_of B (au_db (gw_auth (m_gw m))) (SHA256Hex (bearerToken r)) = None"
    using assms(2) by (simp add: no_session_def m_db_def)
  then have "ValidateToken B (gw_auth (m_gw m)) (bearerToken r) now = (Inl ErrInvalidCredentials, gw_auth (m_gw m))"
    by (rule store.ValidateToken_none [OF assms(1)])
  then show ?thesis using False by (simp add: requireAuth_def thendo_def with_auth_def answer_def)
qed

lemma calm_open:
  "calm m (handleHealth E r)" "calm m (handleGateway E r)" "calm m (handleGatewayBot E r)" "calm m (handle_upgrade E r)"
  "calm m (handleWellKnownClient r)" "calm m (handleWellKnown r)" "calm m (handleInstanceDomains r)"
  "calm m (handleAsset E r)" "calm m (handleDefaultAvatar E r)" "calm m (handleAvatarFile B r)" "calm m (handleGetAttachment B r)"
  "calm m (handleNoContent r)" "calm m (handleEmptyArrayPublic r)" "calm m (handleLocationMetadata r)"
  "calm m (handleExperiments r)" "calm m (handleDiscoveryCategories r)" "calm m (handleStatuspageJSON r)"
  "calm m (handleUnknown r)" "calm m (handleAdminListUsers B r)"
  by (simp_all add: handleHealth_def handleGateway_def handleGatewayBot_def handle_upgrade_def handleWellKnownClient_def
      handleWellKnown_def handleInstanceDomains_def handleAsset_def handleDefaultAvatar_def handleAvatarFile_def
      handleGetAttachment_def handleNoContent_def handleEmptyArrayPublic_def handleLocationMetadata_def handleExperiments_def
      handleDiscoveryCategories_def handleStatuspageJSON_def handleUnknown_def handleAdminListUsers_def split_beta)

lemma calm_admin: "no_admin m r \<Longrightarrow> calm m (handleAdminCreateUser B E now r)"
  by (simp add: handleAdminCreateUser_def no_admin_def calm_def thendo_def reads_def answer_def)

definition calm_route :: "('d, 'r) Manager \<Rightarrow> request \<Rightarrow> string \<Rightarrow> ('d, 'r) route \<Rightarrow> bool" where
  "calm_route m r p rt =
     (case rt of Public f \<Rightarrow> p \<in> set open_writes \<or> (\<forall>vs. calm m (f (with_values r vs))) | Protected f \<Rightarrow> True)"

lemma calm_route_simps [simp]:
  "calm_route m r p (Public f) = (p \<in> set open_writes \<or> (\<forall>vs. calm m (f (with_values r vs))))"
  "calm_route m r p (Protected g)"
  by (simp_all add: calm_route_def)

lemma calm_server_routes:
  "no_admin m r \<Longrightarrow> (p, rt) \<in> set (server_routes B E e h w now) \<Longrightarrow> calm_route m r p rt"
  unfolding server_routes_def list.set insert_iff empty_iff prod.inject
  by (elim disjE conjE; simp add: calm_open calm_admin open_writes_def)

lemma calm_stub_routes: "(p, rt) \<in> set (registerStubs B E now) \<Longrightarrow> calm_route m r p rt"
  unfolding registerStubs_def list.set insert_iff empty_iff prod.inject
  by (elim disjE conjE; simp add: calm_open open_writes_def)

lemma calm_handle_route:
  assumes "store B" "no_session B m r" "calm_route m r p rt" "p \<notin> set open_writes"
  shows "calm m (handle_route B now rt (with_values r vs))"
  using assms(3,4) calm_requireAuth [OF assms(1), of m "with_values r vs"] assms(2)
  by (cases rt) (simp_all add: handle_route_def calm_def)

lemma calm_dispatch_routes:
  assumes "store B" "no_session B m r" "\<And>p rt. (p, rt) \<in> set rts \<Longrightarrow> calm_route m r p rt"
    and "\<And>p. p \<in> set open_writes \<Longrightarrow> match_route p r = None"
  shows "calm m (dispatch_routes B now rts r)"
  using assms(3)
proof (induction rts)
  case (Cons x rts)
  obtain p rt where x: "x = (p, rt)" by (cases x)
  show ?case
  proof (cases "match_route p r")
    case None
    have "calm m (dispatch_routes B now rts r)" using Cons.prems by (intro Cons.IH) (meson list.set_intros(2))
    then show ?thesis using None x by simp
  next
    case (Some vs)
    then have "p \<notin> set open_writes" using assms(4) by force
    then show ?thesis using Some x calm_handle_route [OF assms(1,2)] Cons.prems [of p rt] by simp
  qed
qed (simp add: calm_open)

text \<open>C6: A request without a valid session token and without the master key changes nothing at all, neither the database
  nor connections, sessions or queues, on any route but four: registration, login, the fingerprint and the upload into a
  slot. It is always answered, and where the route needs an account the answer is the refusal.\<close>

lemma strangers_change_nothing:
  assumes "store B" "no_session B m r" "no_admin m r"
    and "list_all (\<lambda>p. match_route p r = None) open_writes"
  shows "(\<exists>reply. serve B E e h w now r m = Some ((cors_headers, reply), m))
    \<and> requireAuth B now f r m = Some (jerror 401 ''401: Unauthorized'', m)"
proof
  have "calm m (dispatch_routes B now (server_routes B E e h w now @ registerStubs B E now) r)"
    using assms(1,2)
  proof (rule calm_dispatch_routes)
    show "calm_route m r p rt" if "(p, rt) \<in> set (server_routes B E e h w now @ registerStubs B E now)" for p rt
      using that calm_server_routes [OF assms(3)] calm_stub_routes by auto
    show "match_route p r = None" if "p \<in> set open_writes" for p using that assms(4) by (simp add: list_all_iff)
  qed
  then show "\<exists>reply. serve B E e h w now r m = Some ((cors_headers, reply), m)"
    by (auto simp: serve_def withCORS_def thendo_def calm_def answer_def)
  show "requireAuth B now f r m = Some (jerror 401 ''401: Unauthorized'', m)"
    using calm_requireAuth [OF assms(1,2)] by (simp add: unauthorized_def)
qed

lemma strangers_change_nothing_witness:
  "(\<exists>reply. serve mem_kv demo_rest demo_env no_hooks (\<lambda>k m. (False, m)) 7
      (demo_request ''DELETE'' [''api'', ''v9'', ''users'', ''@me'', ''guilds'', ''1''] []) demo_manager
      = Some ((cors_headers, reply), demo_manager))
    \<and> requireAuth mem_kv 7 (\<lambda>_ _. answer (Status 204)) (demo_request ''GET'' [] []) demo_manager
      = Some (jerror 401 ''401: Unauthorized'', demo_manager)"
proof -
  let ?r = "demo_request ''DELETE'' [''api'', ''v9'', ''users'', ''@me'', ''guilds'', ''1''] []"
  have "no_session mem_kv demo_manager (demo_request a b c)" "no_admin demo_manager (demo_request a b c)" for a b c
    by (simp_all add: no_session_def no_admin_def bearerToken_def demo_request_def AdminAuthorized_def demo_manager_def
        demo_server_def demo_auth_def Let_def trim_space_def cut_byte_def)
  moreover have "list_all (\<lambda>p. match_route p ?r = None) open_writes"
    "list_all (\<lambda>p. match_route p (demo_request ''GET'' [] []) = None) open_writes"
    unfolding open_writes_def demo_request_def by code_simp+
  ultimately show ?thesis
    by (intro conjI conjunct1 [OF strangers_change_nothing] conjunct2 [OF strangers_change_nothing] mem_store.store_axioms)
qed

section \<open>Replies that lead back\<close>

text \<open>Following the replies from a row ends within \<open>n\<close> steps: at a row that is no reply or whose target is gone.\<close>

fun replies_end :: "nat \<Rightarrow> 'd store \<Rightarrow> 'd \<Rightarrow> BufferedMessage \<Rightarrow> bool" where
  "replies_end 0 B d row = (bm_ReplyTo row = [] \<or> MessageByID B d (bm_ChannelID row) (bm_ReplyTo row) = None)"
| "replies_end (Suc n) B d row =
     (bm_ReplyTo row = []
      \<or> (case MessageByID B d (bm_ChannelID row) (bm_ReplyTo row) of None \<Rightarrow> True | Some ref \<Rightarrow> replies_end n B d ref))"

lemma historyMessagePayload_ends:
  "historyMessagePayload B m userID row = Some pl \<Longrightarrow> \<exists>n. replies_end n B (m_db m) row"
proof (rule historyMessagePayload.raw_induct)
  fix rec :: "'a store \<Rightarrow> ('a, 'b) Manager \<Rightarrow> string \<Rightarrow> BufferedMessage \<Rightarrow> payload option"
    and B :: "'a store" and m :: "('a, 'b) Manager" and userID row pl
  assume IH: "\<And>B m userID row pl. rec B m userID row = Some pl \<Longrightarrow> \<exists>n. replies_end n B (m_db m) row"
    and body: "(let pl = plain_payload B m userID row in
      if bm_ReplyTo row = [] then Some (row_extras userID row pl)
      else
        (let pl = with_reference (bm_ChannelID row) (bm_ReplyTo row) pl in
         case MessageByID B (m_db m) (bm_ChannelID row) (bm_ReplyTo row) of
           None \<Rightarrow> Some (row_extras userID row pl)
         | Some ref \<Rightarrow>
           Option.bind (rec B m userID ref) (\<lambda>inner.
           Some (row_extras userID row (with_referenced inner pl))))) = Some pl"
  show "\<exists>n. replies_end n B (m_db m) row"
  proof (cases "bm_ReplyTo row = [] \<or> MessageByID B (m_db m) (bm_ChannelID row) (bm_ReplyTo row) = None")
    case True
    then show ?thesis by (intro exI [of _ 0]) simp
  next
    case False
    then obtain ref where ref: "MessageByID B (m_db m) (bm_ChannelID row) (bm_ReplyTo row) = Some ref" by auto
    then obtain inner where "rec B m userID ref = Some inner"
      using body False by (auto simp: Let_def split: bind_splits)
    then obtain n where "replies_end n B (m_db m) ref" using IH by blast
    then show ?thesis using ref by (intro exI [of _ "Suc n"]) simp
  qed
qed

lemma ends_historyMessagePayload: "replies_end n B (m_db m) row \<Longrightarrow> \<exists>pl. historyMessagePayload B m userID row = Some pl"
proof (induction n arbitrary: row)
  case 0
  then show ?case by (subst historyMessagePayload.simps) (auto simp: Let_def)
next
  case (Suc n)
  then show ?case by (subst historyMessagePayload.simps) (fastforce simp: Let_def split: option.splits bind_split)
qed

text \<open>C36: A row of history is rendered exactly when following its replies comes to an end. Replies that lead back to a row
  already visited, such as a message that replies to itself, are followed forever: the request never returns.\<close>

lemma history_returns_iff:
  "historyMessagePayload B m userID row \<noteq> None \<longleftrightarrow> (\<exists>n. replies_end n B (m_db m) row)"
  using historyMessagePayload_ends ends_historyMessagePayload by (metis not_None_eq)

lemma self_reply_hangs:
  assumes "MessageByID B (m_db m) (bm_ChannelID row) (bm_ReplyTo row) = Some row" "bm_ReplyTo row \<noteq> []"
  shows "historyMessagePayload B m userID row = None"
proof -
  have "\<not> replies_end n B (m_db m) row" for n using assms by (induction n) auto
  then show ?thesis using historyMessagePayload_ends by fastforce
qed

end
