(* ===== verification/RestRetry.thy ===== *)
theory RestRetry
  imports RestProps
begin

text \<open>A retried message is sent once: the nonce of a message that was sent finds its row, and the retry changes nothing.\<close>

lemma thendo_Some: "thendo f g m = Some (y, m') \<longleftrightarrow> (\<exists>x m1. f m = Some (x, m1) \<and> g x m1 = Some (y, m'))"
  by (auto simp: thendo_def split: option.splits)

lemmas act_simps = thendo_Some answer_def reads_def does_def

context store begin

lemma mention_chans_quiet: "quiet B (m_db m) (m_db (snd (mention_chans B now u n m)))"
  using mentionChannels_quiet by (simp add: mention_chans_def on_ids_def split_beta)

lemma ircize_for_quiet: "ircize_for B now u to body m = Some (s, m') \<Longrightarrow> quiet B (m_db m) (m_db m')"
  using mention_chans_quiet by (auto simp: ircize_for_def split_beta split: if_splits)

lemma wire_copy_quiet: "wire_copy B now u to body urls m = Some (s, m') \<Longrightarrow> quiet B (m_db m) (m_db m')"
  using ircize_for_quiet by (auto simp: wire_copy_def act_simps)

lemma mentions_for_quiet: "mentions_for B now u to body m = Some (s, m') \<Longrightarrow> quiet B (m_db m) (m_db m')"
  using mention_chans_quiet by (auto simp: mentions_for_def split_beta)

lemma relay_upstream_db: "relay_upstream u to wire i ch replyMsgid m = Some (e, m') \<Longrightarrow> m_db m' = m_db m"
  by (auto simp: relay_upstream_def does_def SendChannel_def SendQuery_def queue_send_def Let_def split: if_splits sum.splits)

lemma own_message_quiet:
  assumes "own_message B now u ch to i ts name req rows m = Some (msg, m')"
  shows "quiet B (m_db m) (m_db m')"
proof -
  obtain pl m1 r m2 where "m1 = m" and r: "mentions_for B now (u_ID u) to (sm_Content req) m1 = Some (r, m2)" and "m' = m2"
    using assms unfolding own_message_def
    by (auto simp: act_simps Let_def split_beta simp del: not_None_eq split: if_split_asm)
  then show ?thesis using mentions_for_quiet by blast
qed

lemma touch_dm_quiet:
  assumes "touch_dm B now ch m = Some (x, m')" shows "quiet B (m_db m) (m_db m')"
proof -
  obtain r where "on_db (\<lambda>d. TouchDMChannel B d ch now) m = (r, m')"
    using assms by (auto simp: touch_dm_def act_simps store_do_def)
  then have "m_db m' = snd (TouchDMChannel B (m_db m) ch now)"
    using m_db_simps(5) [of "\<lambda>d. TouchDMChannel B d ch now" m] by simp
  then show ?thesis using TouchDMChannel_quiet by simp
qed

lemma publish_ring:
  assumes pub: "publish B now u ch to i req rows m = Some (reply, m')" and wf: "ring_wf B (m_db m) ch"
  shows "\<exists>row. bm_ID row = i \<and> bm_ChannelID row = ch \<and> bm_AuthorID row = u_ID u \<and> bm_Nonce row = sm_Nonce req
    \<and> ring_wf B (m_db m') ch \<and> ring B (m_db m') ch = newest MsgBufferCap (insert_row row (ring B (m_db m) ch))"
proof -
  define row where "row = own_row u ch i (NowTimestamp now) (author_name B m u (de_network to)) req rows"
  have row: "bm_ID row = i" "bm_ChannelID row = ch" "bm_AuthorID row = u_ID u" "bm_Nonce row = sm_Nonce req"
    by (simp_all add: row_def own_row_def plain_row_def)
  obtain msg m1 where m1: "own_message B now u ch to i (NowTimestamp now) (author_name B m u (de_network to)) req rows m = Some (msg, m1)"
    and rest: "thendo (fires (u_ID u) ''MESSAGE_CREATE'' (json_map msg) now) (\<lambda>_.
      thendo (store_do (\<lambda>d. AppendMessage B d row)) (\<lambda>r.
      thendo (does (\<lambda>m. ((), case r of Inl _ \<Rightarrow> m | Inr _ \<Rightarrow> sendLinkPreview (u_ID u) ch i (sm_Content req) m))) (\<lambda>_.
      thendo (if de_dm to then touch_dm B now ch else answer ()) (\<lambda>_.
      answer (Reply 200 (json_map msg)))))) m1 = Some (reply, m')"
    using pub unfolding publish_def Let_def thendo_Some [where f = "reads f" for f] thendo_Some [where f = "own_message B now u c t j ts n r rs" for c t j ts n r rs]
    by (auto simp: reads_def row_def)
  from rest obtain m2 where m2: "fires (u_ID u) ''MESSAGE_CREATE'' (json_map msg) now m1 = Some ((), m2)"
    and rest: "thendo (store_do (\<lambda>d. AppendMessage B d row)) (\<lambda>r.
      thendo (does (\<lambda>m. ((), case r of Inl _ \<Rightarrow> m | Inr _ \<Rightarrow> sendLinkPreview (u_ID u) ch i (sm_Content req) m))) (\<lambda>_.
      thendo (if de_dm to then touch_dm B now ch else answer ()) (\<lambda>_.
      answer (Reply 200 (json_map msg))))) m2 = Some (reply, m')"
    unfolding thendo_Some [where f = "fires a b c d" for a b c d] by auto
  from rest obtain r m3 where m3: "on_db (\<lambda>d. AppendMessage B d row) m2 = (r, m3)"
    and rest: "thendo (does (\<lambda>m. ((), case r of Inl _ \<Rightarrow> m | Inr _ \<Rightarrow> sendLinkPreview (u_ID u) ch i (sm_Content req) m))) (\<lambda>_.
      thendo (if de_dm to then touch_dm B now ch else answer ()) (\<lambda>_.
      answer (Reply 200 (json_map msg)))) m3 = Some (reply, m')"
    unfolding thendo_Some [where f = "store_do q" for q] by (auto simp: store_do_def)
  have "quiet B (m_db m3) (m_db m')"
    using rest touch_dm_quiet by (fastforce simp: act_simps split: if_splits sum.splits)
  then have end_ring: "ring_wf B (m_db m') ch = ring_wf B (m_db m3) ch" "ring B (m_db m') ch = ring B (m_db m3) ch"
    using quiet_rings by blast+
  have "m_db m2 = m_db m1" using m2 gw_dispatch_db by (auto simp: fires_def)
  then have start: "ring_wf B (m_db m2) ch" "ring B (m_db m2) ch = ring B (m_db m) ch"
    using own_message_quiet [OF m1] quiet_rings wf by metis+
  obtain e d where app: "AppendMessage B (m_db m2) row = (e, d)" by fastforce
  have "m_db m3 = d" using m3 app m_db_simps(5) [of "\<lambda>d. AppendMessage B d row" m2] by simp
  with AppendMessage_get [OF _ app] start row end_ring show ?thesis by (intro exI [of _ row]) auto
qed

lemma send_to_ring:
  assumes sent: "send_to B now u ch to req rows urls m = Some (Reply 200 j, m')" and wf: "ring_wf B (m_db m) ch"
    and fresh: "dedupByNonce B m (u_ID u) ch (sm_Nonce req) = None"
  shows "\<exists>row. bm_ID row = fst (mint_new now m) \<and> bm_ChannelID row = ch \<and> bm_AuthorID row = u_ID u \<and> bm_Nonce row = sm_Nonce req
    \<and> ring_wf B (m_db m') ch \<and> ring B (m_db m') ch = newest MsgBufferCap (insert_row row (ring B (m_db m) ch))"
proof -
  obtain i m0 where mint: "mint_new now m = (i, m0)" by (cases "mint_new now m")
  have db: "m_db m0 = m_db m" using m_db_simps(7) [of now m] mint by simp
  from sent fresh obtain replyMsgid wire m1 e m2 where
    m1: "wire_copy B now (u_ID u) to (sm_Content req) urls m0 = Some (wire, m1)"
    and m2: "relay_upstream (u_ID u) to wire i ch replyMsgid m1 = Some (e, m2)"
    and e: "(case e of Some e \<Rightarrow> answer (jerror 409 (mgr_text e)) | None \<Rightarrow> publish B now u ch to i req rows) m2 = Some (Reply 200 j, m')"
    using mint unfolding send_to_def by (simp add: reads_def does_def thendo_Some) blast
  from e have pub: "publish B now u ch to i req rows m2 = Some (Reply 200 j, m')"
    by (auto simp: answer_def jerror_def split: option.splits)
  have "quiet B (m_db m) (m_db m2)"
    using wire_copy_quiet [OF m1] relay_upstream_db [OF m2] db by simp
  then have "ring_wf B (m_db m2) ch" "ring B (m_db m2) ch = ring B (m_db m) ch" using quiet_rings wf by blast+
  with publish_ring [OF pub] show ?thesis by (simp add: mint)
qed

lemma messagePayload_id: "map_of (messagePayload i ch body ts author name nonce bio avatar) ''id'' = Some (JStr i)"
  by (simp add: messagePayload_def message_base_def)

lemma dedup_last:
  assumes "ring_wf B (m_db m) ch" "ring B (m_db m) ch = xs @ [row]" "bm_Nonce row = JStr ns" "ns \<noteq> []" "bm_AuthorID row = userID"
  shows "\<exists>pl. dedupByNonce B m userID ch (JStr ns) = Some pl \<and> map_of pl ''id'' = Some (JStr (bm_ID row))"
proof -
  have "ChannelMessages B (m_db m) ch [] [] 50 = row # take 49 (rev xs)"
    using ChannelMessages_before [OF assms(1), of 50 "[]"] assms(2) by simp
  then show ?thesis using assms(3-5) messagePayload_id by (simp add: dedupByNonce_def)
qed

lemma dedup_row:
  assumes "ring_wf B (m_db m) ch" "dedupByNonce B m userID ch (JStr ns) = Some pl"
  shows "\<exists>row \<in> set (take 50 (rev (ring B (m_db m) ch))). bm_AuthorID row = userID \<and> bm_Nonce row = JStr ns
    \<and> map_of pl ''id'' = Some (JStr (bm_ID row))"
proof -
  obtain row where row: "List.find (\<lambda>row. bm_Nonce row = JStr ns \<and> bm_AuthorID row = userID) (ChannelMessages B (m_db m) ch [] [] 50) = Some row"
    and pl: "map_of pl ''id'' = Some (JStr (bm_ID row))"
    using assms(2) messagePayload_id by (fastforce simp: dedupByNonce_def split: if_splits)
  from row have "row \<in> set (ChannelMessages B (m_db m) ch [] [] 50)" "bm_Nonce row = JStr ns" "bm_AuthorID row = userID"
    by (auto simp: find_Some_iff)
  then show ?thesis using pl ChannelMessages_before [OF assms(1), of 50 "[]"] by auto
qed

lemma dedup_recent:
  assumes "ring_wf B (m_db m) ch" "ns \<noteq> []" "row \<in> set (take 50 (rev (ring B (m_db m) ch)))"
    and "bm_AuthorID row = userID" "bm_Nonce row = JStr ns"
  shows "dedupByNonce B m userID ch (JStr ns) \<noteq> None"
  using assms ChannelMessages_before [OF assms(1), of 50 "[]"]
  by (auto simp: dedupByNonce_def find_None_iff)

lemma send_to_again:
  "dedupByNonce B m (u_ID u) ch (sm_Nonce req) = Some pl \<Longrightarrow>
     send_to B now u ch to req rows urls m = Some (Reply 200 (json_map pl), m)"
  by (simp add: send_to_def thendo_def reads_def answer_def)

end


section \<open>A connected user\<close>

lemma mentions_for_returns:
  assumes "markers_of body \<noteq> None" shows "\<exists>r. mentions_for B now u to body m = Some (r, snd (mention_chans B now u (de_network to) m))"
  using assms by (auto simp: mentions_for_def split_beta MentionPayloads_returns)

lemma publish_returns:
  assumes wf: "mgr_wf m" and "reply_to req = []" "markers_of (sm_Content req) \<noteq> None"
  shows "\<exists>j m'. publish B now u ch to i req rows m = Some (Reply 200 j, m')"
proof -
  let ?name = "author_name B m u (de_network to)"
  obtain msg where msg: "own_message B now u ch to i (NowTimestamp now) ?name req rows m =
      Some (msg, snd (mention_chans B now (u_ID u) (de_network to) m))"
    using mentions_for_returns [OF assms(3), of B now "u_ID u" to m] assms(2)
    by (fastforce simp: own_message_def thendo_def reads_def answer_def Let_def split: prod.split)
  have "mgr_wf (snd (mention_chans B now (u_ID u) (de_network to) m))" using wf by (simp add: mention_chans_def)
  then have "safe False (fires (u_ID u) ''MESSAGE_CREATE'' (json_map msg) now)" "mgr_wf (snd (mention_chans B now (u_ID u) (de_network to) m))"
    by (simp_all add: safe_fires)
  then obtain m2 where "fires (u_ID u) ''MESSAGE_CREATE'' (json_map msg) now (snd (mention_chans B now (u_ID u) (de_network to) m)) = Some ((), m2)"
    by (fastforce simp: safe_def split: option.splits)
  then show ?thesis using msg
    by (simp add: publish_def thendo_def reads_def does_def answer_def Let_def store_do_def touch_dm_def split: prod.split)
qed

definition demo_user :: User where
  "demo_user = \<lparr>u_ID = ''u'', u_Username = ''ann'', u_Email = [], u_PassHash = [], u_IsAdmin = False, u_Avatar = [], u_CreatedAt = 0\<rparr>"

definition demo_linked :: "((string, dbval) rbt, nat) Manager" where
  "demo_linked = (put_conn (''u'', ''n'') (newConn ''u'' ''n'') demo_manager)\<lparr>m_clients := Map.empty(conn_key ''u'' ''n'' \<mapsto> demo_girc)\<rparr>"

definition demo_message :: "string \<Rightarrow> sendMessageRequest" where
  "demo_message body = \<lparr>sm_Content = body, sm_Nonce = JStr ''x'', sm_Reference = None, sm_Attachments = []\<rparr>"

definition demo_target :: destination where
  "demo_target = \<lparr>de_target = ''#a'', de_network = ''n'', de_dm = False\<rparr>"

lemma demo_linked_wf: "mgr_wf demo_linked"
  using demo_manager_wf by (simp add: demo_linked_def put_conn_wf newConn_wf)

lemma demo_linked_db: "m_db demo_linked = empty_db"
  by (simp add: demo_linked_def put_conn_def m_db_def demo_manager_def demo_server_def demo_auth_def)

lemma demo_dedup: "dedupByNonce mem_kv demo_linked u ch n = None"
  using store.ChannelMessages_before [OF mem_store.store_axioms, of empty_db ch 50 "[]"]
  by (auto simp: dedupByNonce_def demo_linked_db split: json.split)

lemma demo_relay:
  "mgr_wf m \<Longrightarrow> upstream m ''u'' ''n'' = Inr g \<Longrightarrow>
     \<exists>m'. relay_upstream ''u'' demo_target wire i ch reply m = Some (None, m') \<and> mgr_wf m'"
  using send_wf(1) [of m "''u''" "''n''" "''#a''" wire i ch reply]
  by (auto simp: relay_upstream_def does_def demo_target_def SendChannel_def SystemIRCName_def)

lemma demo_upstream:
  "upstream (snd (mint_new 7 demo_linked)) ''u'' ''n'' = Inr demo_girc"
  by (simp add: upstream_def mint_new_def split_beta set_store_def conn_at_def client_at_def demo_linked_def put_conn_def
      demo_manager_def conn_key_def newConn_def)

lemma demo_send:
  "\<exists>j m'. send_to mem_kv 7 demo_user ''5'' demo_target (demo_message ''hi'') [] [] demo_linked = Some (Reply 200 j, m')"
proof -
  obtain i m0 where mint: "mint_new 7 demo_linked = (i, m0)" by fastforce
  have wf: "mgr_wf m0" and up: "upstream m0 ''u'' ''n'' = Inr demo_girc"
    using demo_linked_wf demo_upstream mint_new_wf [of 7 demo_linked] by (simp_all add: mint)
  have "wire_copy mem_kv 7 ''u'' demo_target ''hi'' [] m0 = Some (trim_space (''hi'' @ '' '' @ join '' '' []), m0)"
    by (simp add: wire_copy_def thendo_def ircize_for_def answer_def)
  moreover obtain m2 where "relay_upstream ''u'' demo_target (trim_space (''hi'' @ '' '' @ join '' '' [])) i ''5'' [] m0 = Some (None, m2)" "mgr_wf m2"
    using demo_relay [OF wf up] by blast
  moreover have "markers_of ''hi'' \<noteq> None" by code_simp
  then obtain j m' where "publish mem_kv 7 demo_user ''5'' demo_target i (demo_message ''hi'') [] m2
      = Some (Reply 200 j, m')"
    using publish_returns [OF \<open>mgr_wf m2\<close>, of "demo_message ''hi''"] by (fastforce simp: demo_message_def reply_to_def)
  ultimately have "send_to mem_kv 7 demo_user ''5'' demo_target (demo_message ''hi'') [] [] demo_linked = Some (Reply 200 j, m')"
    using mint by (simp add: send_to_def thendo_def reads_def does_def demo_dedup demo_message_def reply_to_def demo_user_def)
  then show ?thesis by blast
qed


end
