(* ===== verification/Commands.thy ===== *)
theory Commands
  imports RestProps NetworkLife
begin

text \<open>
  The commands of \<open>cmd/voidbar/main.go\<close>: \<open>serve\<close>, which builds the bouncer from its configuration and its database, and
  \<open>user add\<close> and \<open>user list\<close>, which work on the database or, with \<open>--server\<close>, through the HTTP API of a running bouncer. The
  flags arrive parsed. What a command prints is its result. Lemmas: \<open>serve\<close> starts in a well-formed state; a user added
  through the API of a running bouncer is the one that the account service creates.
\<close>

section \<open>The machine\<close>

text \<open>The files, the environment, the TOML decoder, standard input, whether another process holds the lock of the database,
  the key derivation and the random source with its state.\<close>

record 'r machine =
  mc_disk :: disk
  mc_env :: "string \<Rightarrow> string option"
  mc_toml :: "string \<Rightarrow> Config \<Rightarrow> Config option"
  mc_stdin :: string
  mc_locked :: bool
  mc_argon :: argon
  mc_rand :: "'r rand"
  mc_seed :: 'r

datatype cmd_err =
    FlagsMissing                     \<comment> \<open>--username and --email are required\<close>
  | NoInput
  | ConfigErr cfg_err | MasterKeyErr cfg_err
  | StorageLocked
  | StoreErr err
  | EmailNotLower                    \<comment> \<open>email must be lowercase\<close>
  | NoAnswer | BadAnswer
  | Refused int string               \<comment> \<open>server refused\<close>

definition load_config :: "'r machine \<Rightarrow> string \<Rightarrow> cfg_err + Config" where
  "load_config M path = Load (mc_toml M) (mc_env M) (mc_disk M) path"

section \<open>Serving\<close>

text \<open>The services that \<open>serveCmd\<close> builds over an open database \<open>d\<close>, with the connections of all memberships started and
  the public URL set last; \<open>w\<close> are the channels that sessions will use.\<close>

definition serve_state :: "'d store \<Rightarrow> wire \<Rightarrow> Config \<Rightarrow> string \<Rightarrow> 'd \<Rightarrow> 'r \<Rightarrow> ('d, 'r) Manager" where
  "serve_state B w cfg key d rnd =
     (let au = SetAdminKey \<lparr>au_db = d, au_sf = NewSnowflake 0 0, au_registration = av_Registration (cf_Auth cfg),
                 au_adminKey = [], au_rand = rnd\<rparr> key;
          gw = \<lparr>gw_heap = [], gw_sessions = [], gw_byUser = [], gw_wire = w, gw_auth = au\<rparr>;
          m = \<lparr>m_gw = gw, m_conns = [], m_clients = Map.empty, m_sent = [], m_batchSeq = 0, m_publicURL = [],
               m_previews = [], m_previewJobs = []\<rparr>
      in (EnsureAll B m)\<lparr>m_publicURL := trim_suffix (sv_PublicURL (cf_Server cfg)) ''/''\<rparr>)"

definition serveCmd :: "'d store \<Rightarrow> wire \<Rightarrow> 'r machine \<Rightarrow> string \<Rightarrow> 'd \<Rightarrow> (cmd_err + ('d, 'r) Manager) \<times> disk" where
  "serveCmd B w M path d =
     (case load_config M path of
        Inl e \<Rightarrow> (Inl (ConfigErr e), mc_disk M)
      | Inr cfg \<Rightarrow>
        (case LoadOrCreateMasterKey (mc_rand M) (mc_seed M) (mc_disk M) (MasterKeyPath cfg) of
           (Inl e, _, k) \<Rightarrow> (Inl (MasterKeyErr e), k)
         | (Inr key, rnd, k) \<Rightarrow>
           if mc_locked M then (Inl StorageLocked, k) else (Inr (serve_state B w cfg key d rnd), k)))"

section \<open>Users\<close>

record user_flags =
  uf_config :: string
  uf_username :: string
  uf_email :: string
  uf_password :: string
  uf_admin :: bool
  uf_server :: string
  uf_masterKey :: string

definition adminKeyFor :: "'r machine \<Rightarrow> string \<Rightarrow> string \<Rightarrow> (cmd_err + string) \<times> disk" where
  "adminKeyFor M flagKey path =
     (if flagKey \<noteq> [] then (Inr flagKey, mc_disk M)
      else case mc_env M ''VOIDBAR_ADMIN_KEY'' of
        Some (c # cs) \<Rightarrow> (Inr (c # cs), mc_disk M)
      | _ \<Rightarrow>
        (case load_config M path of
           Inl e \<Rightarrow> (Inl (ConfigErr e), mc_disk M)
         | Inr cfg \<Rightarrow>
           (case LoadOrCreateMasterKey (mc_rand M) (mc_seed M) (mc_disk M) (MasterKeyPath cfg) of
              (Inl e, _, k) \<Rightarrow> (Inl (MasterKeyErr e), k)
            | (Inr key, _, k) \<Rightarrow> (Inr (hex_encode key), k))))"

text \<open>The password of the flag, or the first line of standard input.\<close>

definition read_password :: "'r machine \<Rightarrow> user_flags \<Rightarrow> string option" where
  "read_password M f =
     (if uf_password f \<noteq> [] then Some (uf_password f)
      else if mc_stdin M = [] then None
      else Some (trim_space (takeWhile (\<lambda>c. c \<noteq> CHR 0x0A) (mc_stdin M))))"

definition admin_request :: "string \<Rightarrow> string \<Rightarrow> string \<Rightarrow> request" where
  "admin_request meth key text =
     \<lparr>rq_method = meth, rq_path = [''api'', ''v9'', ''admin'', ''users''],
      rq_header = (\<lambda>h. if h = ''X-Master-Key'' then key
                       else if h = ''Content-Type'' \<and> meth = ''POST'' then ''application/json'' else []),
      rq_query = [], rq_value = (\<lambda>_. []), rq_body = text, rq_form = None, rq_host = [], rq_tls = False\<rparr>"

definition add_body :: "user_flags \<Rightarrow> string \<Rightarrow> string" where
  "add_body f pass =
     json_encode (json_map [(''username'', JStr (uf_username f)), (''email'', JStr (uf_email f)), (''password'', JStr pass),
       (''admin'', JBool (uf_admin f))])"

text \<open>The answer of the server, decoded: id, user name, admin and message.\<close>

definition user_answer :: "string \<Rightarrow> (string \<times> string \<times> bool \<times> string) option" where
  "user_answer text =
     (case decode_json text of
        Decoded j \<Rightarrow>
          Option.bind (struct_of j) (\<lambda>kvs.
          Option.bind (str_field ''id'' [] kvs) (\<lambda>i.
          Option.bind (str_field ''username'' [] kvs) (\<lambda>n.
          Option.bind (bool_field ''admin'' False kvs) (\<lambda>a.
          map_option (\<lambda>msg. (i, n, a, msg)) (str_field ''message'' [] kvs)))))
      | _ \<Rightarrow> None)"

text \<open>\<open>http\<close> sends a request to the server in some state \<open>s\<close>: the status and the body of the answer, or no answer.\<close>

type_synonym 's http = "request \<Rightarrow> 's \<Rightarrow> (int \<times> string) option \<times> 's"

definition add_remote ::
  "'r machine \<Rightarrow> user_flags \<Rightarrow> string \<Rightarrow> 's http \<Rightarrow> 's \<Rightarrow> (cmd_err + string \<times> string \<times> bool) \<times> 's \<times> disk" where
  "add_remote M f pass http s =
     (case adminKeyFor M (uf_masterKey f) (uf_config f) of
        (Inl e, k) \<Rightarrow> (Inl e, s, k)
      | (Inr key, k) \<Rightarrow>
        (case http (admin_request ''POST'' key (add_body f pass)) s of
           (None, s) \<Rightarrow> (Inl NoAnswer, s, k)
         | (Some (status, text), s) \<Rightarrow>
           (case user_answer text of
              None \<Rightarrow> (Inl BadAnswer, s, k)
            | Some (i, n, a, msg) \<Rightarrow>
              if status \<noteq> 201 then (Inl (Refused status msg), s, k) else (Inr (i, n, a), s, k))))"

definition add_local ::
  "'d store \<Rightarrow> 'r machine \<Rightarrow> time \<Rightarrow> user_flags \<Rightarrow> string \<Rightarrow> 'd \<Rightarrow> (cmd_err + User) \<times> 'd" where
  "add_local B M now f pass d =
     (case load_config M (uf_config f) of
        Inl e \<Rightarrow> (Inl (ConfigErr e), d)
      | Inr _ \<Rightarrow>
        if mc_locked M then (Inl StorageLocked, d)
        else case HashPassword (mc_argon M) (mc_rand M) (mc_seed M) pass of
          (Inl e, _) \<Rightarrow> (Inl (StoreErr e), d)
        | (Inr hash, _) \<Rightarrow>
          if length pass < 8 \<or> length pass > 128 then (Inl (StoreErr ErrInvalidPassword), d)
          else if \<not> equal_fold (uf_email f) (to_lower (uf_email f)) then (Inl EmailNotLower, d)
          else case UserCount B d of
            Inl e \<Rightarrow> (Inl (StoreErr e), d)
          | Inr count \<Rightarrow>
            let u = \<lparr>u_ID = fst (New (NewSnowflake 0 0) (now div 1000000)), u_Username = to_lower (uf_username f),
                     u_Email = to_lower (uf_email f), u_PassHash = hash, u_IsAdmin = (uf_admin f \<or> count = 0),
                     u_Avatar = [], u_CreatedAt = now\<rparr>
            in (case CreateUser B d u of (Inl e, d) \<Rightarrow> (Inl (StoreErr e), d) | (Inr _, d) \<Rightarrow> (Inr u, d)))"

definition userAddCmd ::
  "'d store \<Rightarrow> 'r machine \<Rightarrow> time \<Rightarrow> user_flags \<Rightarrow> 's http \<Rightarrow> 's \<Rightarrow> 'd \<Rightarrow> 
     (cmd_err + string \<times> string \<times> bool) \<times> 's \<times> 'd \<times> disk" where
  "userAddCmd B M now f http s d =
     (if uf_username f = [] \<or> uf_email f = [] then (Inl FlagsMissing, s, d, mc_disk M)
      else case read_password M f of
        None \<Rightarrow> (Inl NoInput, s, d, mc_disk M)
      | Some pass \<Rightarrow>
        if uf_server f \<noteq> [] then (case add_remote M f pass http s of (r, s, k) \<Rightarrow> (r, s, d, k))
        else (case add_local B M now f pass d of
                (Inl e, d) \<Rightarrow> (Inl e, s, d, mc_disk M)
              | (Inr u, d) \<Rightarrow> (Inr (u_ID u, u_Username u, u_IsAdmin u), s, d, mc_disk M)))"

text \<open>The rows of \<open>user list\<close>: id, user name, e-mail, admin.\<close>

definition user_row_of :: "json \<Rightarrow> (string \<times> string \<times> string \<times> bool) option" where
  "user_row_of j =
     Option.bind (struct_of j) (\<lambda>kvs.
     Option.bind (str_field ''id'' [] kvs) (\<lambda>i.
     Option.bind (str_field ''username'' [] kvs) (\<lambda>n.
     Option.bind (str_field ''email'' [] kvs) (\<lambda>e.
     map_option (\<lambda>a. (i, n, e, a)) (bool_field ''admin'' False kvs)))))"

definition users_answer :: "string \<Rightarrow> (string \<times> string \<times> string \<times> bool) list option" where
  "users_answer text =
     (case decode_json text of
        Decoded (JArr js) \<Rightarrow> those (map user_row_of js)
      | Decoded JNull \<Rightarrow> Some []
      | _ \<Rightarrow> None)"

definition userListCmd ::
  "'d store \<Rightarrow> 'r machine \<Rightarrow> user_flags \<Rightarrow> 's http \<Rightarrow> 's \<Rightarrow> 'd \<Rightarrow>
     (cmd_err + (string \<times> string \<times> string \<times> bool) list) \<times> 's \<times> disk" where
  "userListCmd B M f http s d =
     (if uf_server f \<noteq> [] then
        (case adminKeyFor M (uf_masterKey f) (uf_config f) of
           (Inl e, k) \<Rightarrow> (Inl e, s, k)
         | (Inr key, k) \<Rightarrow>
           (case http (admin_request ''GET'' key []) s of
              (None, s) \<Rightarrow> (Inl NoAnswer, s, k)
            | (Some (status, text), s) \<Rightarrow>
              (case users_answer text of
                 None \<Rightarrow> (Inl BadAnswer, s, k)
               | Some rows \<Rightarrow> if status \<noteq> 200 then (Inl (Refused status []), s, k) else (Inr rows, s, k))))
      else
        (case load_config M (uf_config f) of
           Inl e \<Rightarrow> (Inl (ConfigErr e), s, mc_disk M)
         | Inr _ \<Rightarrow>
           if mc_locked M then (Inl StorageLocked, s, mc_disk M)
           else case ListUsers B d of
             Inl e \<Rightarrow> (Inl (StoreErr e), s, mc_disk M)
           | Inr us \<Rightarrow> (Inr (map (\<lambda>u. (u_ID u, u_Username u, u_Email u, u_IsAdmin u)) us), s, mc_disk M)))"

section \<open>Commands against a running bouncer\<close>

text \<open>A reply on the wire: \<open>writeJSON\<close> ends a value with a newline.\<close>

fun reply_wire :: "reply \<Rightarrow> int \<times> string" where
  "reply_wire (Reply status j) = (status, json_encode j @ [CHR 0x0A])"
| "reply_wire (Status status) = (status, [])"
| "reply_wire (File _ text) = (200, text)"
| "reply_wire NotFoundPage = (404, ''404 page not found'' @ [CHR 0x0A])"

definition over_http :: "(request \<Rightarrow> ('d, 'r, (string \<times> string) list \<times> reply) act) \<Rightarrow> ('d, 'r) Manager http" where
  "over_http f r m = (case f r m of None \<Rightarrow> (None, m) | Some ((_, reply), m) \<Rightarrow> (Some (reply_wire reply), m))"

text \<open>The route of the admin requests.\<close>

lemma admin_request_sel [simp]:
  "rq_method (admin_request meth key text) = meth" "rq_path (admin_request meth key text) = [''api'', ''v9'', ''admin'', ''users'']"
  "rq_header (admin_request meth key text) ''X-Master-Key'' = key" "rq_body (admin_request meth key text) = text"
  by (simp_all add: admin_request_def)

lemma match_admin: "match_route p (admin_request meth key text) = match_route p (admin_request meth [] [])"
  unfolding match_route_def admin_request_sel by (rule refl)

lemma admin_misses:
  "list_all (\<lambda>p. match_route p (admin_request ''POST'' [] []) = None)
     [''GET /health'', ''GET /api/v9/gateway'', ''GET /gateway'', ''GET /gateway/'', ''GET /remote-auth'', ''GET /remote-auth/'',
      ''POST /api/v9/auth/register'', ''POST /api/v9/auth/login'', ''POST /api/v9/auth/logout'', ''GET /api/v9/users/@me'',
      ''PATCH /api/v9/users/@me'']"
  "list_all (\<lambda>p. match_route p (admin_request ''GET'' [] []) = None)
     [''GET /health'', ''GET /api/v9/gateway'', ''GET /gateway'', ''GET /gateway/'', ''GET /remote-auth'', ''GET /remote-auth/'',
      ''POST /api/v9/auth/register'', ''POST /api/v9/auth/login'', ''POST /api/v9/auth/logout'', ''GET /api/v9/users/@me'',
      ''PATCH /api/v9/users/@me'', ''POST /api/v9/admin/users'']"
  "match_route ''POST /api/v9/admin/users'' (admin_request ''POST'' [] []) = Some []"
  "match_route ''GET /api/v9/admin/users'' (admin_request ''GET'' [] []) = Some []"
  unfolding admin_request_def by code_simp+

lemma with_no_values: "with_values (admin_request meth key text) [] = admin_request meth key text"
  by (simp add: with_values_def admin_request_def)

lemma admin_route:
  "serve B E e h w now (admin_request ''POST'' key text) m =
     map_option (\<lambda>(reply, m). ((cors_headers, reply), m)) (handleAdminCreateUser B E now (admin_request ''POST'' key text) m)"
  "serve B E e h w now (admin_request ''GET'' key text) m =
     map_option (\<lambda>(reply, m). ((cors_headers, reply), m)) (handleAdminListUsers B (admin_request ''GET'' key text) m)"
proof -
  note miss = admin_misses [unfolded list.pred_inject]
  have "dispatch_routes B now (server_routes B E e h w now @ registerStubs B E now) (admin_request ''POST'' key text)
      = handleAdminCreateUser B E now (admin_request ''POST'' key text)"
    unfolding server_routes_def append_Cons dispatch_routes.simps match_admin [of _ _ key "text"]
    using miss by (simp add: handle_route_def with_no_values)
  moreover have "dispatch_routes B now (server_routes B E e h w now @ registerStubs B E now) (admin_request ''GET'' key text)
      = handleAdminListUsers B (admin_request ''GET'' key text)"
    unfolding server_routes_def append_Cons dispatch_routes.simps match_admin [of _ _ key "text"]
    using miss by (simp add: handle_route_def with_no_values)
  ultimately show "serve B E e h w now (admin_request ''POST'' key text) m =
     map_option (\<lambda>(reply, m). ((cors_headers, reply), m)) (handleAdminCreateUser B E now (admin_request ''POST'' key text) m)"
    "serve B E e h w now (admin_request ''GET'' key text) m =
     map_option (\<lambda>(reply, m). ((cors_headers, reply), m)) (handleAdminListUsers B (admin_request ''GET'' key text) m)"
    by (simp_all add: serve_def withCORS_def thendo_def answer_def split: option.split)
qed

lemma decode_reply: "json_ok j \<Longrightarrow> decode_json (json_encode j @ [CHR 0x0A]) = Decoded j"
  using json_roundtrip [of j _ "[CHR 0x0A]"] by (simp add: marshal_def ends_number_def is_digit_def)

lemma sorted_body:
  "sort_key fst [(''username'', a), (''email'', b), (''password'', c), (''admin'', d)]
     = [(''admin'', d), (''email'', b), (''password'', c), (''username'', a)]"
  by simp

lemma add_body_struct:
  "body_struct (admin_request meth key (add_body f pass)) =
     Some [(''admin'', JBool (uf_admin f)), (''email'', JStr (uf_email f)), (''password'', JStr pass), (''username'', JStr (uf_username f))]"
proof -
  let ?j = "JObj [(''admin'', JBool (uf_admin f)), (''email'', JStr (uf_email f)), (''password'', JStr pass), (''username'', JStr (uf_username f))]"
  have "decode_json (json_encode ?j) = Decoded ?j"
    using json_roundtrip [of ?j "json_encode ?j" "[]"] by (simp add: marshal_def)
  then show ?thesis by (simp only: body_struct_def admin_request_sel add_body_def json_map_def sorted_body decoded.case)
    (simp add: struct_of_def GatewayServer.fields_of_def)
qed

lemma limited_whole: "length (rq_body r) \<le> n \<Longrightarrow> limited n r = r"
  by (simp add: limited_def)

lemma field_names:
  "\<not> equal_fold ''admin'' ''username''" "\<not> equal_fold ''email'' ''username''" "\<not> equal_fold ''password'' ''username''"
  "\<not> equal_fold ''admin'' ''email''" "\<not> equal_fold ''password'' ''email''" "\<not> equal_fold ''username'' ''email''"
  "\<not> equal_fold ''admin'' ''password''" "\<not> equal_fold ''email'' ''password''" "\<not> equal_fold ''username'' ''password''"
  "\<not> equal_fold ''email'' ''admin''" "\<not> equal_fold ''password'' ''admin''" "\<not> equal_fold ''username'' ''admin''"
  "\<not> equal_fold ''username'' ''id''" "\<not> equal_fold ''email'' ''id''" "\<not> equal_fold ''admin'' ''id''" "\<not> equal_fold ''message'' ''id''"
  "\<not> equal_fold ''id'' ''username''" "\<not> equal_fold ''id'' ''email''" "\<not> equal_fold ''id'' ''admin''" "\<not> equal_fold ''id'' ''message''"
  "\<not> equal_fold ''username'' ''message''" "\<not> equal_fold ''email'' ''message''" "\<not> equal_fold ''admin'' ''message''"
  "\<not> equal_fold ''message'' ''username''" "\<not> equal_fold ''message'' ''admin''"
  by code_simp+

lemma handle_admin_add:
  assumes "AdminAuthorized (gw_auth (m_gw m)) key" "length (add_body f pass) \<le> 2 ^ 16"
  shows "handleAdminCreateUser B E now (admin_request ''POST'' key (add_body f pass)) m =
    (case CreateUserAdmin B (re_argon E) (re_rand E) (gw_auth (m_gw m)) (uf_username f) (uf_email f) pass (uf_admin f) now of
       (r, a) \<Rightarrow> Some (case r of Inl er \<Rightarrow> jerror 400 (error_text E er) | Inr u \<Rightarrow> Reply 201 (adminPayload u),
         m\<lparr>m_gw := (m_gw m)\<lparr>gw_auth := a\<rparr>\<rparr>))"
  using assms
  by (simp add: handleAdminCreateUser_def thendo_def reads_def answer_def limited_whole struct3_def add_body_struct field_names
      with_auth_def split: prod.split)

text \<open>C19: \<open>user add --server\<close> against a running bouncer does what the account service does, whatever key the command
  ends up with (flag, environment or key file). With a key that the bouncer does not accept the command reports the
  refusal 401 \<open>invalid master key\<close> and the bouncer stays as it is. With the right key it prints the id, the name and the
  role of the user that \<open>CreateUserAdmin\<close> made, or its error as the server's refusal, and the bouncer changes in its
  accounts only. Supposed: the command finds a key at all, the server answers, and the request fits the 64 KiB that the
  handler reads.\<close>

lemma add_remote_serve:
  assumes "adminKeyFor M (uf_masterKey f) (uf_config f) = (Inr key, k)" "length (add_body f pass) \<le> 2 ^ 16"
  shows "add_remote M f pass (over_http (serve B E e h w now)) m =
    (if AdminAuthorized (gw_auth (m_gw m)) key then
       (case CreateUserAdmin B (re_argon E) (re_rand E) (gw_auth (m_gw m)) (uf_username f) (uf_email f) pass (uf_admin f) now of
          (r, a) \<Rightarrow> (case r of Inl er \<Rightarrow> Inl (Refused 400 (error_text E er)) | Inr u \<Rightarrow> Inr (u_ID u, u_Username u, u_IsAdmin u),
            m\<lparr>m_gw := (m_gw m)\<lparr>gw_auth := a\<rparr>\<rparr>, k))
     else (Inl (Refused 401 ''invalid master key''), m, k))"
proof -
  obtain r a where r: "CreateUserAdmin B (re_argon E) (re_rand E) (gw_auth (m_gw m)) (uf_username f) (uf_email f) pass (uf_admin f) now = (r, a)"
    by fastforce
  have ok: "user_answer (json_encode (adminPayload u) @ [CHR 0x0A]) = Some (u_ID u, u_Username u, u_IsAdmin u, [])" for u
    by (simp add: user_answer_def decode_reply adminPayload_def struct_of_def GatewayServer.fields_of_def field_names del: json_encode.simps)
  have bad: "user_answer (json_encode (json_map [(''message'', JStr msg)]) @ [CHR 0x0A]) = Some ([], [], False, msg)" for msg
    by (simp add: user_answer_def decode_reply json_map_def struct_of_def GatewayServer.fields_of_def field_names del: json_encode.simps)
  show ?thesis
  proof (cases "AdminAuthorized (gw_auth (m_gw m)) key")
    case True
    then show ?thesis
      using handle_admin_add [OF True assms(2), of B E now] assms(1) r
      by (simp add: add_remote_def over_http_def admin_route jerror_def ok bad split: sum.split)
  next
    case False
    then show ?thesis
      using assms(1)
      by (simp add: add_remote_def over_http_def admin_route handleAdminCreateUser_def thendo_def reads_def answer_def
          jerror_def bad)
  qed
qed

section \<open>Starting\<close>

lemma EnsureConn_frame:
  "m_gw (snd (EnsureConn B u n m)) = m_gw m" "conn_at m v k \<noteq> None \<Longrightarrow> conn_at (snd (EnsureConn B u n m)) v k \<noteq> None"
  by (auto simp: EnsureConn_def put_conn_def conn_at_def update_conv' split: sum.split)

lemma ensure_each_frame:
  "m_gw (ensure_each B us m) = m_gw m" "conn_at m v k \<noteq> None \<Longrightarrow> conn_at (ensure_each B us m) v k \<noteq> None"
proof (induction us arbitrary: m)
  case (Cons x us)
  case 1
  then show ?case using Cons.IH(1) EnsureConn_frame(1) by (cases x) simp
  case 2
  obtain u n where "x = (u, n)" by (cases x)
  then show ?case using Cons.IH(2) [of "snd (EnsureConn B u n m)"] EnsureConn_frame(2) [OF 2] by simp
qed simp_all

lemma EnsureAll_gw [simp]: "m_gw (EnsureAll B m) = m_gw m"
  by (simp add: EnsureAll_def ensure_each_frame(1) split: sum.split)

lemma EnsureAll_wf: "mgr_wf m \<Longrightarrow> mgr_wf (EnsureAll B m)"
proof -
  have "mgr_wf m \<Longrightarrow> mgr_wf (ensure_each B us m)" for us and m :: "('a, 'b) Manager"
    by (induction us arbitrary: m) (auto simp: EnsureConn_wf)
  then show "mgr_wf m \<Longrightarrow> mgr_wf (EnsureAll B m)" by (simp add: EnsureAll_def split: sum.split)
qed

context store
begin

lemma read_all_rows:
  assumes "\<And>k. k \<in> set ks \<Longrightarrow> get_as B as d k = Inr (f k)"
  shows "read_all B as d ks = Inr (map (\<lambda>k. (k, f k)) ks)"
  using assms by (induction ks) simp_all

lemma ListNetworks_has:
  assumes wf: "nets_wf B d" and n: "content B d (networkKey i) = Some (VNet net)"
  shows "\<exists>nets. ListNetworks B d = Inr nets \<and> net \<in> set nets"
proof -
  have row: "\<exists>x. get_as B as_net d k = Inr x" if k: "k \<in> set (scan B d ''network/'')" for k
  proof -
    have "\<exists>j v. k = networkKey j \<and> content B d (networkKey j) = Some v"
      using k by (auto simp: set_scan_content has_prefix_iff networkKey_def)
    then obtain j v where "k = networkKey j" "content B d (networkKey j) = Some v" by blast
    then show ?thesis using wf unfolding nets_wf_def by (fastforce simp: get_as_content as_Inr)
  qed
  then obtain f where f: "\<And>k. k \<in> set (scan B d ''network/'') \<Longrightarrow> get_as B as_net d k = Inr (f k)" by metis
  have k: "networkKey i \<in> set (scan B d ''network/'')" using n by (auto simp: set_scan_content networkKey_def has_prefix_iff)
  moreover have "get_as B as_net d (networkKey i) = Inr net" using n by (simp add: get_as_content as_Inr)
  ultimately have "f (networkKey i) = net" using f by fastforce
  then show ?thesis using read_all_rows [OF f] k by (auto simp: ListNetworks_def image_iff intro: bexI [of _ "networkKey i"])
qed

lemma ListMemberships_has:
  assumes wf: "nets_wf B d" and n: "content B d (memberKey i u) = Some (VMem mem)"
  shows "\<exists>mems. ListMemberships B d i = Inr mems \<and> mem \<in> set mems"
proof -
  have row: "\<exists>x. get_as B as_mem d k = Inr x" if k: "k \<in> set (scan B d (memberPrefix i))" for k
  proof -
    have "\<exists>u v. k = memberKey i u \<and> content B d (memberKey i u) = Some v"
      using k by (auto simp: set_scan_content has_prefix_iff memberKey_def memberPrefix_def)
    then obtain u v where "k = memberKey i u" "content B d (memberKey i u) = Some v" by blast
    then show ?thesis using wf unfolding nets_wf_def by (fastforce simp: get_as_content as_Inr)
  qed
  then obtain f where f: "\<And>k. k \<in> set (scan B d (memberPrefix i)) \<Longrightarrow> get_as B as_mem d k = Inr (f k)" by metis
  have k: "memberKey i u \<in> set (scan B d (memberPrefix i))"
    using n by (auto simp: set_scan_content memberKey_def memberPrefix_def has_prefix_iff)
  moreover have "get_as B as_mem d (memberKey i u) = Inr mem" using n by (simp add: get_as_content as_Inr)
  ultimately have "f (memberKey i u) = mem" using f by fastforce
  then show ?thesis using read_all_rows [OF f] k by (auto simp: ListMemberships_def image_iff intro: bexI [of _ "memberKey i u"])
qed

lemma ensure_each_connects:
  assumes "(u, n) \<in> set us" "content B (m_db m) (networkKey n) = Some (VNet net)" "content B (m_db m) (memberKey n u) = Some (VMem mem)"
  shows "conn_at (ensure_each B us m) u n \<noteq> None"
  using assms
proof (induction us arbitrary: m)
  case (Cons x us)
  obtain v k where x: "x = (v, k)" by (cases x)
  have db: "m_db (snd (EnsureConn B v k m)) = m_db m" using EnsureConn_frame(1) [of B v k m] by (simp add: m_db_def)
  show ?case
  proof (cases "(u, n) = (v, k)")
    case True
    then show ?thesis
      using ensure_each_frame(2) [OF conjunct1 [OF EnsureConn_result [OF Cons.prems(2,3)]], where us = us] by (simp add: x)
  next
    case False
    then show ?thesis using Cons.IH [of "snd (EnsureConn B v k m)"] Cons.prems db by (auto simp: x)
  qed
qed simp

lemma EnsureAll_connects:
  assumes wf: "nets_wf B (m_db m)" and n: "content B (m_db m) (networkKey n) = Some (VNet net)"
    and u: "content B (m_db m) (memberKey n u) = Some (VMem mem)"
  shows "conn_at (EnsureAll B m) u n \<noteq> None"
proof -
  obtain nets where nets: "ListNetworks B (m_db m) = Inr nets" "net \<in> set nets" using ListNetworks_has [OF wf n] by blast
  obtain mems where mems: "ListMemberships B (m_db m) n = Inr mems" "mem \<in> set mems" using ListMemberships_has [OF wf u] by blast
  have "n_ID net = n" "mem_UserID mem = u" using wf n u unfolding nets_wf_def by blast+
  then have "(u, n) \<in> set (concat (map (\<lambda>net. case ListMemberships B (m_db m) (n_ID net) of Inl _ \<Rightarrow> []
      | Inr mems \<Rightarrow> map (\<lambda>mem. (mem_UserID mem, n_ID net)) mems) nets))"
    using nets(2) mems by (fastforce intro!: bexI [of _ net])
  from ensure_each_connects [OF this n u] show ?thesis by (simp add: EnsureAll_def nets(1))
qed

end

text \<open>The key that \<open>serve\<close> has written or found is the one that a command finds afterwards.\<close>

lemma master_key_kept:
  assumes "LoadOrCreateMasterKey rnd r k p = (Inr key, r', k')"
  shows "dk_fault k' = dk_fault k \<and> (read_file k q = Content t \<longrightarrow> read_file k' q = Content t)
    \<and> (length key = 32 \<longrightarrow> LoadOrCreateMasterKey rnd r2 k' p = (Inr key, r2, k'))"
  using assms
  by (auto simp: LoadOrCreateMasterKey_def read_file_def write_file_def split: read_result.splits if_splits option.splits prod.splits sum.splits)

lemma load_config_kept:
  assumes "load_config M path = Inr cfg" "\<And>q t. read_file (mc_disk M) q = Content t \<Longrightarrow> read_file k q = Content t"
  shows "load_config (M\<lparr>mc_disk := k\<rparr>) path = Inr cfg"
proof (cases "path = []")
  case False
  then obtain t where "read_file (mc_disk M) path = Content t"
    using assms(1) by (auto simp: load_config_def Load_def split: read_result.splits)
  then show ?thesis using assms by (auto simp: load_config_def Load_def)
qed (use assms(1) in \<open>simp add: load_config_def Load_def\<close>)

lemma serve_state_parts:
  "m_db (serve_state B w cfg key d rnd) = d"
  "AdminAuthorized (gw_auth (m_gw (serve_state B w cfg key d rnd))) h \<longleftrightarrow> key \<noteq> [] \<and> h = hex_encode key"
  "au_registration (gw_auth (m_gw (serve_state B w cfg key d rnd))) = av_Registration (cf_Auth cfg)"
  "mgr_wf (serve_state B w cfg key d rnd)"
proof -
  let ?au = "SetAdminKey \<lparr>au_db = d, au_sf = NewSnowflake 0 0, au_registration = av_Registration (cf_Auth cfg), au_adminKey = [], au_rand = rnd\<rparr> key"
  let ?gw = "\<lparr>gw_heap = [], gw_sessions = [], gw_byUser = [], gw_wire = w, gw_auth = ?au\<rparr>"
  let ?m = "\<lparr>m_gw = ?gw, m_conns = [], m_clients = Map.empty, m_sent = [], m_batchSeq = 0, m_publicURL = [], m_previews = [], m_previewJobs = []\<rparr>"
  have m: "serve_state B w cfg key d rnd = (EnsureAll B ?m)\<lparr>m_publicURL := trim_suffix (sv_PublicURL (cf_Server cfg)) ''/''\<rparr>"
    by (simp add: serve_state_def Let_def)
  show "m_db (serve_state B w cfg key d rnd) = d" by (simp add: m m_db_def SetAdminKey_def)
  have "hex_encode key = [] \<longleftrightarrow> key = []" by (cases key) (simp_all add: hex_encode_def Let_def)
  then show "AdminAuthorized (gw_auth (m_gw (serve_state B w cfg key d rnd))) h \<longleftrightarrow> key \<noteq> [] \<and> h = hex_encode key"
    by (auto simp: m AdminAuthorized_def SetAdminKey_def)
  show "au_registration (gw_auth (m_gw (serve_state B w cfg key d rnd))) = av_Registration (cf_Auth cfg)"
    by (simp add: m SetAdminKey_def)
  have "gw_wf ?gw" by (simp add: gw_wf_def table_wf_def heap_wf_def user_sessions_def)
  then have "mgr_wf ?m" by (simp add: mgr_wf_def)
  then have "mgr_wf (EnsureAll B ?m)" by (rule EnsureAll_wf)
  then show "mgr_wf (serve_state B w cfg key d rnd)" by (simp add: m mgr_wf_def)
qed

lemma serve_state_connects:
  assumes "store B" "nets_wf B d" "content B d (networkKey n) = Some (VNet net)" "content B d (memberKey n u) = Some (VMem mem)"
  shows "conn_at (serve_state B w cfg key d rnd) u n \<noteq> None"
proof -
  define m0 where "m0 = \<lparr>m_gw = \<lparr>gw_heap = [], gw_sessions = [], gw_byUser = [], gw_wire = w,
       gw_auth = SetAdminKey \<lparr>au_db = d, au_sf = NewSnowflake 0 0, au_registration = av_Registration (cf_Auth cfg), au_adminKey = [], au_rand = rnd\<rparr> key\<rparr>,
     m_conns = [], m_clients = Map.empty, m_sent = [], m_batchSeq = 0, m_publicURL = [], m_previews = [], m_previewJobs = []\<rparr>"
  have "m_db m0 = d" by (simp add: m0_def m_db_def SetAdminKey_def)
  then have "conn_at (EnsureAll B m0) u n \<noteq> None" using store.EnsureAll_connects [OF assms(1), of m0] assms(2-4) by simp
  then show ?thesis by (simp add: serve_state_def Let_def m0_def conn_at_def)
qed


section \<open>Users of the database\<close>

context store
begin

lemma UserCount_rows:
  assumes wf: "UserStore.users_wf B d"
  shows "\<exists>n. UserCount B d = Inr n \<and> (n = 0 \<longleftrightarrow> (\<forall>v. \<not> user_row B d v))"
proof -
  let ?ks = "scan B d ''user/id/''"
  have key: "k \<in> set ?ks \<longleftrightarrow> (\<exists>i v. k = userKey i \<and> content B d (userKey i) = Some v)" for k
    by (auto simp: set_scan_content has_prefix_iff userKey_def)
  have row: "\<exists>x. get_as B as_user d k = Inr x" if "k \<in> set ?ks" for k
    using that wf unfolding key UserStore.users_wf_def by (fastforce simp: get_as_content as_Inr)
  then obtain f where f: "\<And>k. k \<in> set ?ks \<Longrightarrow> get_as B as_user d k = Inr (f k)" by metis
  have "UserCount B d = Inr (length ?ks)" using read_all_rows [OF f] by (simp add: UserCount_def ListUsers_def)
  moreover have "?ks = [] \<longleftrightarrow> (\<forall>v. \<not> user_row B d v)"
  proof
    assume "?ks = []"
    then show "\<forall>v. \<not> user_row B d v" using key by (fastforce simp: user_row_def)
  next
    assume none: "\<forall>v. \<not> user_row B d v"
    have "k \<notin> set ?ks" for k using none wf unfolding key UserStore.users_wf_def user_row_def by metis
    then show "?ks = []" by (cases ?ks) auto
  qed
  ultimately show ?thesis by simp
qed

end

lemma equal_fold_lower: "equal_fold e (to_lower e)" "equal_fold v (to_lower e) = equal_fold v e"
  by (simp_all add: equal_fold_def)

lemma is_space_lower: "is_space (lower_char c) = is_space c"
  by (auto simp: is_space_def lower_char_def of_char_of)

lemma trim_lower: "trim_space (to_lower s) = to_lower (trim_space s)"
  by (simp add: trim_space_def to_lower_def dropWhile_map rev_map comp_def is_space_lower)

lemma trim_idem: "trim_space (trim_space s) = trim_space s"
proof -
  define u where "u = dropWhile is_space s"
  define t where "t = rev (dropWhile is_space (rev u))"
  have "u = t @ rev (takeWhile is_space (rev u))"
    unfolding t_def by (metis rev_append rev_rev_ident takeWhile_dropWhile_id)
  moreover have "\<not> is_space (hd u)" if "u \<noteq> []" using that hd_dropWhile unfolding u_def by blast
  ultimately have "\<not> is_space (hd t)" if "t \<noteq> []" using that by (metis append_is_Nil_conv hd_append)
  then have "dropWhile is_space t = t" by (cases t) auto
  then have "trim_space t = t" by (simp add: trim_space_def t_def)
  then show ?thesis by (simp add: trim_space_def t_def u_def)
qed

lemma dropWhile_full: "length (dropWhile P xs) = length xs \<Longrightarrow> dropWhile P xs = xs"
  using length_dropWhile_le [of P "tl xs"] by (cases xs) (auto split: if_splits)

lemma trim_space_full:
  assumes "length (trim_space s) = length s" shows "trim_space s = s"
proof -
  have l: "length (dropWhile is_space (rev (dropWhile is_space s))) = length s" using assms by (simp add: trim_space_def)
  then have "length s \<le> length (dropWhile is_space s)"
    using length_dropWhile_le [of is_space "rev (dropWhile is_space s)"] by simp
  then have d: "dropWhile is_space s = s"
    using length_dropWhile_le [of is_space s] by (intro dropWhile_full) simp
  then have "dropWhile is_space (rev s) = rev s" using l by (intro dropWhile_full) simp
  with d show ?thesis by (simp add: trim_space_def)
qed

lemma trimmed_fold:
  assumes "equal_fold s (trim_space l)" shows "trim_space s = s"
proof -
  have e: "to_lower s = to_lower (trim_space l)" using assms by (simp add: equal_fold_def)
  then have "to_lower (trim_space s) = to_lower s" by (metis trim_lower trim_idem)
  then have "length (trim_space s) = length s" by (metis length_map to_lower_def)
  then show ?thesis by (simp add: trim_space_full)
qed

text \<open>C18: \<open>user add\<close> on the database creates an account: when the names are free and the password has 8 to 128 bytes, the
  new user is the only change to the table, and an administrator if asked or if it is the first. It logs in by its
  e-mail with that password, unless the e-mail has space around it: it is stored with the space, and a login, whose
  name is trimmed, never finds the account by its e-mail again. Little else is checked: the error for an e-mail that is not
  in lower case is never reported, and a user name that the API refuses is accepted. Names and e-mail are ASCII here (the
  case folding of other letters is not modelled).\<close>

lemma add_local_Login:
  assumes "store B" "UserStore.users_wf B d" "load_config M (uf_config f) = Inr cfg" "\<not> mc_locked M"
    and "HashPassword (mc_argon M) (mc_rand M) (mc_seed M) pass = (Inr hash, r)" "8 \<le> length pass" "length pass \<le> 128"
    and "content B d (userKey (fst (New (NewSnowflake 0 0) (now div 1000000)))) = None"
    and "\<And>v. user_row B d v \<Longrightarrow> \<not> equal_fold (u_Username v) (uf_username f) \<and> \<not> equal_fold (u_Email v) (uf_email f)"
    and "argon_version (mc_argon M) < 2 ^ 63"
    and "\<And>pw salt. length (argon_IDKey (mc_argon M) pw salt argonTime argonMemory argonThreads argonKeyLen) = argonKeyLen"
    and "ascii (uf_username f)" "ascii (uf_email f)"
  shows "\<exists>u d'. add_local B M now f pass d = (Inr u, d')
    \<and> u_Username u = to_lower (uf_username f) \<and> u_Email u = to_lower (uf_email f)
    \<and> UserStore.users_wf B d' \<and> (\<forall>v. user_row B d' v \<longleftrightarrow> v = u \<or> user_row B d v)
    \<and> (u_IsAdmin u \<longleftrightarrow> uf_admin f \<or> (\<forall>v. \<not> user_row B d v))
    \<and> (trim_space (uf_email f) = uf_email f \<longrightarrow>
        (\<forall>s later. au_db s = d' \<longrightarrow> Login B (mc_argon M) rnd s (uf_email f) pass later =
          (case newSession B rnd s (u_ID u) later of (Inl e, s) \<Rightarrow> (Inl e, s) | (Inr tok, s) \<Rightarrow> (Inr (u, tok), s))))
    \<and> (trim_space (uf_email f) \<noteq> uf_email f \<longrightarrow>
        (\<forall>d2 login. UserStore.users_wf B d2 \<longrightarrow> GetUserByEmail B d2 (trim_space login) \<noteq> Inr u))
    \<and> (\<not> username_ok (trim_space (to_lower (uf_username f))) \<longrightarrow>
        (\<forall>s. fst (CreateUserAdmin B (mc_argon M) rnd s (uf_username f) (uf_email f) pass (uf_admin f) now) = Inl ErrInvalidUsername))"
proof -
  obtain count where count: "UserCount B d = Inr count" "count = 0 \<longleftrightarrow> (\<forall>v. \<not> user_row B d v)"
    using store.UserCount_rows [OF assms(1,2)] by blast
  define u where "u = \<lparr>u_ID = fst (New (NewSnowflake 0 0) (now div 1000000)), u_Username = to_lower (uf_username f),
     u_Email = to_lower (uf_email f), u_PassHash = hash, u_IsAdmin = (uf_admin f \<or> count = 0), u_Avatar = [], u_CreatedAt = now\<rparr>"
  have fields: "u_Username u = to_lower (uf_username f)" "u_Email u = to_lower (uf_email f)" "u_PassHash u = hash"
    "u_IsAdmin u \<longleftrightarrow> uf_admin f \<or> (\<forall>v. \<not> user_row B d v)"
    using count(2) by (simp_all add: u_def)
  have "content B d (userKey (u_ID u)) = None" using assms(8) by (simp add: u_def)
  then obtain d' where d': "CreateUser B d u = (Inr (), d')" "UserStore.users_wf B d'" "\<And>v. user_row B d' v \<longleftrightarrow> v = u \<or> user_row B d v"
    using store.CreateUser_new [OF assms(1,2), of u] assms(9) by (auto simp: fields equal_fold_lower(2))
  have add: "add_local B M now f pass d = (Inr u, d')"
    using assms(3-7) count(1) d'(1) by (simp add: add_local_def equal_fold_lower(1) u_def [symmetric])
  have "Login B (mc_argon M) rnd s (uf_email f) pass later =
      (case newSession B rnd s (u_ID u) later of (Inl e, s) \<Rightarrow> (Inl e, s) | (Inr tok, s) \<Rightarrow> (Inr (u, tok), s))"
    if trim: "trim_space (uf_email f) = uf_email f" and "au_db s = d'" for s later
  proof -
    have "find_login B d' (uf_email f) = Inr u"
      using d'(3) fields(2) by (intro store.find_login_row [OF assms(1) d'(2)]) (auto simp: equal_fold_def)
    moreover have "VerifyPassword (mc_argon M) pass (u_PassHash u) = Inr True"
      using HashPassword_verifies [OF assms(10,11,5)] by (auto simp: fields(3))
    ultimately show ?thesis using that by (simp add: Login_def)
  qed
  moreover have "GetUserByEmail B d2 (trim_space login) \<noteq> Inr u"
    if "trim_space (uf_email f) \<noteq> uf_email f" "UserStore.users_wf B d2" for d2 login
  proof
    assume "GetUserByEmail B d2 (trim_space login) = Inr u"
    then have "equal_fold (uf_email f) (trim_space login)"
      using store.GetUserByEmail_row [OF assms(1) that(2)] by (simp add: fields(2) equal_fold_def)
    then show False using that(1) trimmed_fold by blast
  qed
  ultimately show ?thesis
    using add d'(2,3) fields by (intro exI [of _ u] exI [of _ d']) (auto simp: CreateUserAdmin_def Let_def)
qed

text \<open>\<open>user list --server\<close> never reports a refusal: the message of the server is decoded as a list first.\<close>

lemma list_remote_refusal:
  assumes "uf_server f \<noteq> []" "adminKeyFor M (uf_masterKey f) (uf_config f) = (Inr key, k)"
    and "\<not> AdminAuthorized (gw_auth (m_gw m)) key"
  shows "userListCmd B M f (over_http (serve B E e h w now)) m d = (Inl BadAnswer, m, k)"
proof -
  have "users_answer (json_encode (json_map [(''message'', JStr msg)]) @ [CHR 0x0A]) = None" for msg
    by (simp add: users_answer_def decode_reply json_map_def del: json_encode.simps)
  then show ?thesis using assms
    by (simp add: userListCmd_def over_http_def admin_route handleAdminListUsers_def reads_def jerror_def)
qed

section \<open>A machine\<close>

definition demo_machine :: "nat machine" where
  "demo_machine = \<lparr>mc_disk = \<lparr>dk_files = Map.empty, dk_fault = (\<lambda>_. False), dk_torn = Map.empty\<rparr>, mc_env = Map.empty, mc_toml = (\<lambda>_ _. None),
     mc_stdin = [], mc_locked = False, mc_argon = demo_argon, mc_rand = (\<lambda>n r. (Inr (replicate n (CHR ''k'')), r)), mc_seed = 0\<rparr>"

definition demo_flags :: user_flags where
  "demo_flags = \<lparr>uf_config = [], uf_username = ''Ann B'', uf_email = ''Ann@x.org'', uf_password = ''12345678'', uf_admin = False,
     uf_server = [], uf_masterKey = ''6b''\<rparr>"

lemma demo_config: "load_config demo_machine [] = Inr Default"
  by (simp add: load_config_def Load_def applyEnv_def set_env_def Default_def Validate_def has_prefix_iff demo_machine_def)

lemma demo_rand_length: "mc_rand demo_machine n r = (Inr b, r') \<Longrightarrow> length b = n"
  by (auto simp: demo_machine_def)

lemma demo_serve: "\<exists>m k. serveCmd mem_kv w demo_machine [] empty_db = (Inr m, k)"
  unfolding serveCmd_def demo_config
  by (simp add: LoadOrCreateMasterKey_def read_file_def write_file_def demo_machine_def)


lemma add_remote_serve_witness:
  "add_remote demo_machine (demo_flags\<lparr>uf_username := ''x''\<rparr>) ''12345678''
      (over_http (serve mem_kv demo_rest demo_env no_hooks (\<lambda>k m. (False, m)) 7)) (serve_state mem_kv demo_wire Default ''k'' empty_db 0)
    = (Inl (Refused 400 ''username must be 2-32 chars: a-z 0-9 . _''), serve_state mem_kv demo_wire Default ''k'' empty_db 0, mc_disk demo_machine)"
proof -
  let ?f = "demo_flags\<lparr>uf_username := ''x''\<rparr>" and ?m = "serve_state mem_kv demo_wire Default ''k'' empty_db 0"
  have "hex_encode ''k'' = ''6b''" by code_simp
  then have "AdminAuthorized (gw_auth (m_gw ?m)) ''6b''" by (simp add: serve_state_parts(2))
  moreover have "adminKeyFor demo_machine (uf_masterKey ?f) (uf_config ?f) = (Inr ''6b'', mc_disk demo_machine)"
    by (simp add: adminKeyFor_def demo_flags_def)
  moreover have "length (add_body ?f ''12345678'') < 200" unfolding demo_flags_def by code_simp
  then have "length (add_body ?f ''12345678'') \<le> 2 ^ 16" by simp
  moreover have "CreateUserAdmin mem_kv A rn a (uf_username ?f) em pw adm now = (Inl ErrInvalidUsername, a)"
    for A em pw adm now and rn :: "nat rand" and a
  proof -
    have "\<not> username_ok (trim_space (to_lower ''x''))" by code_simp
    then show ?thesis by (simp add: CreateUserAdmin_def Let_def demo_flags_def)
  qed
  ultimately show ?thesis
    using add_remote_serve [of demo_machine ?f "''6b''" "mc_disk demo_machine" "''12345678''" mem_kv demo_rest demo_env no_hooks
        "\<lambda>k m. (False, m)" 7 ?m]
    by (simp add: error_text_def)
qed

lemma add_local_Login_witness:
  "\<exists>u d'. add_local mem_kv demo_machine 7 demo_flags ''12345678'' empty_db = (Inr u, d')
    \<and> u_Username u = ''ann b'' \<and> u_Email u = ''ann@x.org'' \<and> u_IsAdmin u
    \<and> fst (CreateUserAdmin mem_kv demo_argon demo_rand demo_auth ''Ann B'' ''Ann@x.org'' ''12345678'' False 7) = Inl ErrInvalidUsername"
proof -
  have "UserStore.users_wf mem_kv empty_db" "\<not> user_row mem_kv empty_db v" for v
    by (simp_all add: UserStore.users_wf_def user_row_def)
  moreover have "\<not> username_ok (trim_space (to_lower ''Ann B''))" by code_simp
  moreover have "to_lower ''Ann B'' = ''ann b''" "to_lower ''Ann@x.org'' = ''ann@x.org''" "trim_space ''Ann@x.org'' = ''Ann@x.org''"
    "ascii ''Ann B''" "ascii ''Ann@x.org''" by code_simp+
  moreover obtain hash r where "HashPassword demo_argon (mc_rand demo_machine) (mc_seed demo_machine) ''12345678'' = (Inr hash, r)"
    by (simp add: HashPassword_def demo_machine_def)
  ultimately show ?thesis
    using add_local_Login [OF mem_store.store_axioms, of empty_db demo_machine demo_flags Default "''12345678''" hash r 7 demo_rand]
      demo_config demo_argon
    by (force simp: demo_flags_def demo_machine_def)
qed

end
