(* ===== verification/WebSync.thy ===== *)
theory WebSync
  imports RestBase
begin

text \<open>
  The asset cache of \<open>voidweb\<close> (\<open>cmd/voidweb/sync.go\<close>, first half): the commits of the scraping archive, the download of a
  build, the check that it can boot and the search of the neighbouring builds for the files it lacks. The cache directory
  is a list of cleaned paths with their bytes. Writing a file fails on the paths of \<open>wb_fault\<close>, before the file is opened or, as
  on a full disk, after a piece of it is written; the paths of \<open>wb_stuck\<close> cannot be removed. What the
  network answers is the record \<open>web\<close>. Errors that are only logged carry no text. Lemmas: a build that \<open>syncAssets\<close> returns
  has every file that its page loads at once, when files can be removed, and what goes wrong when they cannot.
\<close>

section \<open>The network and the cache\<close>

text \<open>An entry of an archive: its header and the bytes that can be read, with whether the copy ends without an error.\<close>

record tar_entry =
  te_name :: string
  te_regular :: bool
  te_size :: nat
  te_data :: string
  te_ok :: bool

record web =
  wb_api :: "string \<Rightarrow> (int \<times> string) option"
  wb_tar :: "string \<Rightarrow> (tar_entry list \<times> bool) option"  \<comment> \<open>the archive of a commit, and whether it ends without an error\<close>
  wb_raw :: "string \<Rightarrow> (int \<times> string) option"
  wb_fault :: "string \<Rightarrow> (string \<Rightarrow> string option) option"
    \<comment> \<open>writing the path fails, and leaves what the function gives for the bytes: None when the file was not opened\<close>
  wb_stuck :: "string \<Rightarrow> bool"

type_synonym files = "(string \<times> string) list"

definition on_disk :: "files \<Rightarrow> string \<Rightarrow> bool" where
  "on_disk fs p = (map_of fs p \<noteq> None)"

text \<open>\<open>Stat\<close> without an error: a file, or a directory.\<close>

definition stat :: "files \<Rightarrow> string \<Rightarrow> bool" where
  "stat fs p = list_ex (\<lambda>(q, _). q = p \<or> has_prefix q (p @ ''/'')) fs"

text \<open>Creating a file with its directory and writing it: without an error, and the cache afterwards.\<close>

definition create_file :: "web \<Rightarrow> string \<Rightarrow> string \<Rightarrow> files \<Rightarrow> bool \<times> files" where
  "create_file W p b fs =
     (case wb_fault W p of
        None \<Rightarrow> (True, AList.update p b fs)
      | Some left \<Rightarrow> (False, case left b of None \<Rightarrow> fs | Some piece \<Rightarrow> AList.update p piece fs))"

text \<open>\<open>RemoveAll\<close> removes all that it can; it fails when something stays.\<close>

definition remove_all :: "web \<Rightarrow> string \<Rightarrow> files \<Rightarrow> bool \<times> files" where
  "remove_all W p fs =
     (let below = (\<lambda>q. q = p \<or> has_prefix q (p @ ''/'')) in
      (\<not> list_ex (\<lambda>(q, _). below q \<and> wb_stuck W q) fs, filter (\<lambda>(q, _). below q \<longrightarrow> wb_stuck W q) fs))"

text \<open>The files of a directory, sorted; None when it does not exist, which is when there is nothing below it.\<close>

definition dir_files :: "string \<Rightarrow> files \<Rightarrow> string list option" where
  "dir_files p fs =
     (let below = map (drop (length p + 1)) (filter (\<lambda>q. has_prefix q (p @ ''/'')) (map fst fs)) in
      if below = [] then None else Some (sort (remdups (filter (\<lambda>n. CHR ''/'' \<notin> set n) below))))"

definition cut_prefix :: "string \<Rightarrow> string \<Rightarrow> string option" where
  "cut_prefix s p = (if has_prefix s p then Some (drop (length p) s) else None)"

abbreviation index_path :: "string \<Rightarrow> string" where "index_path C \<equiv> path_join C ''index.html''"
abbreviation assets_dir :: "string \<Rightarrow> string" where "assets_dir C \<equiv> path_join C ''assets''"
abbreviation asset_path :: "string \<Rightarrow> string \<Rightarrow> string" where "asset_path C a \<equiv> path_join C (''assets/'' @ a)"

section \<open>The commits of the archive\<close>

definition githubAPI :: string where
  "githubAPI = ''https://api.github.com/repos/jaimeadf/discord-scraping''"

definition month_days :: "nat \<Rightarrow> nat \<Rightarrow> nat" where
  "month_days y m =
     (if m = 2 then (if is_leap (int y) then 29 else 28)
      else if m \<in> {4, 6, 9, 11} then 30 else 31)"

text \<open>\<open>time.Parse\<close> with the layout \<open>2006-01-02\<close>.\<close>

definition is_date :: "string \<Rightarrow> bool" where
  "is_date s =
     (length s = 10 \<and> s ! 4 = CHR ''-'' \<and> s ! 7 = CHR ''-''
      \<and> list_all is_digit (take 4 s) \<and> list_all is_digit (take 2 (drop 5 s)) \<and> list_all is_digit (drop 8 s)
      \<and> (let y = dec_val 0 (take 4 s); m = dec_val 0 (take 2 (drop 5 s)); d = dec_val 0 (drop 8 s)
         in 1 \<le> m \<and> m \<le> 12 \<and> 1 \<le> d \<and> d \<le> month_days y m))"

definition sha_of :: "json \<Rightarrow> string option" where
  "sha_of j = Option.bind (struct_of j) (str_field ''sha'' [])"

definition commit_list :: "string \<Rightarrow> string list option" where
  "commit_list text =
     (case decode_json text of
        Decoded (JArr js) \<Rightarrow> those (map sha_of js)
      | Decoded JNull \<Rightarrow> Some []
      | _ \<Rightarrow> None)"

definition api_commits :: "web \<Rightarrow> string \<Rightarrow> string list option" where
  "api_commits W u =
     (case wb_api W u of Some (status, text) \<Rightarrow> if status \<noteq> 200 then None else commit_list text | None \<Rightarrow> None)"

definition resolveCommit :: "web \<Rightarrow> string \<Rightarrow> string \<Rightarrow> string list option" where
  "resolveCommit W channel at =
     (if at \<noteq> [] \<and> \<not> is_date at then None
      else
        let u = githubAPI @ ''/commits?sha='' @ channel @ ''&per_page=20''
                @ (if at \<noteq> [] then ''&until='' @ at @ ''T23:59:59Z'' else [])
        in case api_commits W u of Some (s # ss) \<Rightarrow> Some (s # ss) | _ \<Rightarrow> None)"

section \<open>What a page references\<close>

definition asset_char :: "char \<Rightarrow> bool" where
  "asset_char c = (is_alpha c \<or> is_digit c \<or> c \<in> {CHR ''.'', CHR ''_'', CHR ''-''})"

abbreviation quoted :: "string \<Rightarrow> string" where "quoted s \<equiv> CHR 0x22 # s @ [CHR 0x22]"

abbreviation asset_name :: re where "asset_name \<equiv> Group 1 (re_plus asset_char)"

definition scriptSrc :: re where
  "scriptSrc = re_seqs [re_lit ''<script'', re_plus not_gt, re_lit (''src='' @ CHR 0x22 # ''/assets/''), asset_name, re_lit [CHR 0x22]]"

definition sheetHref :: re where
  "sheetHref = re_seqs [re_lit ''<link'', re_star not_gt, re_lit (''rel='' @ quoted ''stylesheet''), re_star not_gt,
     re_lit (''href='' @ CHR 0x22 # ''/assets/''), asset_name, re_lit [CHR 0x22]]"

definition iconHref :: re where
  "iconHref = re_seqs [re_lit ''<link'', re_star not_gt, re_lit (''rel='' @ quoted ''icon''), re_star not_gt,
     re_lit (''href='' @ CHR 0x22 # ''/assets/''), asset_name, re_lit [CHR 0x22]]"

definition assetRef :: re where
  "assetRef = re_seqs [Alt (re_lit ''/assets/'') (re_lit (CHR 0x22 # ''assets/'')),
     Group 1 (re_seqs [re_plus asset_char, re_lit ''.'',
       re_alts (map re_lit [''js'', ''css'', ''png'', ''svg'', ''woff2'', ''ico'', ''webm'', ''mp3'', ''json''])])]"

definition is_hex :: "char \<Rightarrow> bool" where
  "is_hex c = (is_digit c \<or> c \<in> set ''abcdef'')"

definition chunkHash :: re where
  "chunkHash = re_seqs [re_lit [CHR 0x22], Group 1 (Chars is_hex 20 (Some 20) True), re_lit [CHR 0x22]]"

definition eager_names :: "string \<Rightarrow> string list" where
  "eager_names page = FindAll scriptSrc page @ FindAll sheetHref page @ FindAll iconHref page"

definition bootCriticalMissing :: "string \<Rightarrow> files \<Rightarrow> string list" where
  "bootCriticalMissing C fs =
     (case map_of fs (index_path C) of
        None \<Rightarrow> [''index.html'']
      | Some page \<Rightarrow> filter (\<lambda>a. \<not> stat fs (asset_path C a)) (eager_names page))"

section \<open>Archives\<close>

definition tar_prefix :: "string \<Rightarrow> string" where
  "tar_prefix sha = ''discord-scraping-'' @ sha @ ''/''"

definition client_file :: "string \<Rightarrow> bool" where
  "client_file name = (has_prefix name ''assets/'' \<or> name = ''index.html'' \<or> name = ''manifest.json'')"

text \<open>The entries one after the other: whether all went well, the number of files, and the cache. A copy that fails leaves
  what it has written.\<close>

fun extract_entries :: "web \<Rightarrow> string \<Rightarrow> string \<Rightarrow> tar_entry list \<Rightarrow> nat \<Rightarrow> files \<Rightarrow> bool \<times> nat \<times> files" where
  "extract_entries W C sha [] n fs = (True, n, fs)"
| "extract_entries W C sha (e # es) n fs =
     (case cut_prefix (te_name e) (tar_prefix sha) of
        None \<Rightarrow> extract_entries W C sha es n fs
      | Some name \<Rightarrow>
        if \<not> te_regular e \<or> \<not> client_file name \<or> te_size e = 0 then extract_entries W C sha es n fs
        else case create_file W (path_join C name) (te_data e) fs of (written, fs) \<Rightarrow>
          if written \<and> te_ok e then extract_entries W C sha es (n + 1) fs else (False, n, fs))"

definition extractTarball :: "web \<Rightarrow> string \<Rightarrow> string \<Rightarrow> files \<Rightarrow> bool \<times> files" where
  "extractTarball W C sha fs =
     (case wb_tar W sha of
        None \<Rightarrow> (False, fs)
      | Some (es, ends) \<Rightarrow>
        (case extract_entries W C sha es 0 fs of (ok, n, fs) \<Rightarrow> (ok \<and> ends \<and> n > 0, fs)))"

fun sweep_entries :: "web \<Rightarrow> string \<Rightarrow> string \<Rightarrow> tar_entry list \<Rightarrow> string list \<Rightarrow> files \<Rightarrow> string list \<times> files" where
  "sweep_entries W C sha [] missing fs = (missing, fs)"
| "sweep_entries W C sha (e # es) missing fs =
     (case Option.bind (cut_prefix (te_name e) (tar_prefix sha)) (\<lambda>name. cut_prefix name ''assets/'') of
        None \<Rightarrow> sweep_entries W C sha es missing fs
      | Some asset \<Rightarrow>
        if \<not> te_regular e \<or> te_size e = 0 \<or> asset \<notin> set missing then sweep_entries W C sha es missing fs
        else case create_file W (asset_path C asset) (te_data e) fs of (written, fs) \<Rightarrow>
          sweep_entries W C sha es (if written \<and> te_ok e \<and> te_data e \<noteq> [] then removeAll asset missing else missing) fs)"

definition sweepTarball :: "web \<Rightarrow> string \<Rightarrow> string \<Rightarrow> string list \<Rightarrow> files \<Rightarrow> string list \<times> files" where
  "sweepTarball W C sha missing fs =
     (case wb_tar W sha of None \<Rightarrow> (missing, fs) | Some (es, _) \<Rightarrow> sweep_entries W C sha es missing fs)"

definition referenced :: "string \<Rightarrow> string \<Rightarrow> string list \<Rightarrow> files \<Rightarrow> string list" where
  "referenced C page names fs =
     FindAll assetRef page
     @ concat (map (\<lambda>n. if has_suffix n ''.js'' then
                          case map_of fs (asset_path C n) of
                            Some body \<Rightarrow> map (\<lambda>h. h @ ''.js'') (FindAll chunkHash body)
                          | None \<Rightarrow> []
                        else []) names)"

fun sweep_all :: "web \<Rightarrow> string \<Rightarrow> string list \<Rightarrow> string list \<Rightarrow> files \<Rightarrow> files" where
  "sweep_all W C [] missing fs = fs"
| "sweep_all W C (sha # shas) missing fs =
     (if missing = [] then fs
      else case sweepTarball W C sha missing fs of (missing, fs) \<Rightarrow> sweep_all W C shas missing fs)"

definition backfillMissing :: "web \<Rightarrow> string \<Rightarrow> string list \<Rightarrow> files \<Rightarrow> files" where
  "backfillMissing W C shas fs =
     (case (map_of fs (index_path C), dir_files (assets_dir C) fs) of
        (Some page, Some names) \<Rightarrow>
          sweep_all W C shas
            (remdups (filter (\<lambda>a. \<not> stat fs (asset_path C a)) (referenced C page names fs))) fs
      | _ \<Rightarrow> fs)"

section \<open>Synchronising\<close>

definition synced :: "string \<Rightarrow> string \<Rightarrow> string" where
  "synced C sha = path_join C (''synced-'' @ sha)"

definition swept :: "string \<Rightarrow> string \<Rightarrow> string" where
  "swept C sha = path_join C (''swept-'' @ sha)"

definition markers :: "string \<Rightarrow> files \<Rightarrow> string list" where
  "markers C fs = (case dir_files (path_clean C) fs of Some ns \<Rightarrow> filter (\<lambda>n. has_prefix n ''synced-'') ns | None \<Rightarrow> [])"

text \<open>The markers are removed one by one; an error is ignored.\<close>

definition drop_markers :: "web \<Rightarrow> string \<Rightarrow> files \<Rightarrow> files" where
  "drop_markers W C fs = filter (\<lambda>(p, _). p \<in> path_join C ` set (markers C fs) \<longrightarrow> wb_stuck W p) fs"

text \<open>A write whose error is ignored.\<close>

definition touch :: "web \<Rightarrow> string \<Rightarrow> files \<Rightarrow> files" where
  "touch W p fs = snd (create_file W p [] fs)"

definition finish_sync :: "web \<Rightarrow> string \<Rightarrow> string list \<Rightarrow> string \<Rightarrow> files \<Rightarrow> files" where
  "finish_sync W C shas sha fs = touch W (swept C sha) (backfillMissing W C shas fs)"

fun try_builds :: "web \<Rightarrow> string \<Rightarrow> string list \<Rightarrow> string list \<Rightarrow> files \<Rightarrow> string option \<times> files" where
  "try_builds W C all [] fs = (None, fs)"
| "try_builds W C all (sha # shas) fs =
     (if on_disk fs (synced C sha) then (Some sha, fs)
      else
        case remove_all W (assets_dir C) fs of (removed, fs) \<Rightarrow>
          if \<not> removed then (None, fs)
          else case extractTarball W C sha (drop_markers W C fs) of
            (ok, fs) \<Rightarrow>
              if \<not> ok \<or> bootCriticalMissing C fs \<noteq> [] then try_builds W C all shas fs
              else case create_file W (synced C sha) [] fs of (written, fs) \<Rightarrow>
                if written then (Some sha, finish_sync W C all sha fs) else (None, fs))"

text \<open>The cache directory itself cannot be made when \<open>wb_fault\<close> has its path.\<close>

definition syncAssets :: "web \<Rightarrow> string \<Rightarrow> string \<Rightarrow> string \<Rightarrow> files \<Rightarrow> string option \<times> files" where
  "syncAssets W C channel at fs =
     (let fresh = (case resolveCommit W channel at of None \<Rightarrow> (None, fs) | Some shas \<Rightarrow> try_builds W C shas shas fs) in
      if wb_fault W (path_clean C) \<noteq> None then (None, fs)
      else case markers C fs of
        [] \<Rightarrow> fresh
      | n # _ \<Rightarrow>
        let sha = drop (length ''synced-'') n in
        if \<not> on_disk fs (index_path C) then fresh
        else case resolveCommit W channel at of
          None \<Rightarrow> (Some sha, fs)
        | Some shas \<Rightarrow>
          if sha \<in> set shas
          then (Some sha, if on_disk fs (swept C sha) then fs else finish_sync W C shas sha fs)
          else fresh)"

section \<open>Paths of the cache\<close>

definition good_dir :: "string \<Rightarrow> bool" where
  "good_dir C \<longleftrightarrow> C \<noteq> [] \<and> path_elems C \<noteq> []"

definition kept_elem :: "string \<Rightarrow> bool" where
  "kept_elem e = (e \<noteq> [] \<and> e \<noteq> ''.'')"

lemma fold_clean: "''..'' \<notin> set es \<Longrightarrow> fold (clean_step rooted) es up = rev (filter kept_elem es) @ up"
  by (induction es arbitrary: up) (auto simp: kept_elem_def)

lemma join_append: "xs \<noteq> [] \<Longrightarrow> ys \<noteq> [] \<Longrightarrow> join sep (xs @ ys) = join sep xs @ sep @ join sep ys"
  by (induction xs) (auto simp: join_Cons)

lemma path_join_below:
  assumes "good_dir C" "''..'' \<notin> set (split_on (CHR ''/'') n)" "filter kept_elem (split_on (CHR ''/'') n) \<noteq> []"
  shows "path_join C n = path_clean C @ ''/'' @ join ''/'' (filter kept_elem (split_on (CHR ''/'') n))"
proof -
  let ?ks = "filter kept_elem (split_on (CHR ''/'') n)"
  have C: "C \<noteq> []" "path_elems C \<noteq> []" using assms(1) by (simp_all add: good_dir_def)
  have p: "has_prefix (C @ CHR ''/'' # n) ''/'' = has_prefix C ''/''" using C(1) by (cases C) (simp_all add: has_prefix_iff)
  have "path_elems (C @ ''/'' @ n) = rev ?ks @ path_elems C"
    using split_on_sep [of "CHR ''/''" C n] fold_clean [OF assms(2)] by (simp add: path_elems_def p)
  then have "path_clean (C @ ''/'' @ n) = path_clean C @ ''/'' @ join ''/'' ?ks"
    using p C(2) assms(3) join_append [of "rev (path_elems C)" ?ks "''/''"] by (simp add: path_clean_def Let_def)
  then show ?thesis using C(1) by (simp add: path_join_def)
qed

lemma path_join_name: "good_dir C \<Longrightarrow> plain_name n \<Longrightarrow> path_join C n = path_clean C @ ''/'' @ n"
  using path_join_plain by (simp add: good_dir_def)

lemma cache_names:
  assumes "good_dir C"
  shows "index_path C = path_clean C @ ''/index.html''" "assets_dir C = path_clean C @ ''/assets''"
    and "CHR ''/'' \<notin> set s \<Longrightarrow> synced C s = path_clean C @ ''/synced-'' @ s"
    and "CHR ''/'' \<notin> set s \<Longrightarrow> swept C s = path_clean C @ ''/swept-'' @ s"
  using path_join_name [OF assms] by (simp_all add: synced_def swept_def plain_name_def)

text \<open>Where a file of the client is written: below the assets, the page or the manifest.\<close>

lemma asset_write:
  assumes "good_dir C" "CHR ''/'' \<notin> set a"
  shows "asset_path C a = path_clean C \<or> has_prefix (asset_path C a) (path_clean C @ ''/assets'')"
proof (cases "a = ''..''")
  case True
  have C: "C \<noteq> []" using assms(1) by (simp add: good_dir_def)
  have p: "has_prefix (C @ CHR ''/'' # n) ''/'' = has_prefix C ''/''" for n using C by (cases C) (simp_all add: has_prefix_iff)
  have "split_on (CHR ''/'') (C @ ''/assets/..'') = split_on (CHR ''/'') C @ [''assets'', ''..'']"
    using split_on_sep [of "CHR ''/''" C "''assets/..''"] by simp
  then have "path_elems (C @ ''/assets/..'') = path_elems C" using p by (simp add: path_elems_def)
  then show ?thesis using True C p by (simp add: path_join_def path_clean_def)
next
  case False
  have sp: "split_on (CHR ''/'') (''assets/'' @ a) = [''assets'', a]"
    using split_on_sep [of "CHR ''/''" "''assets''" a] split_on_plain [OF assms(2)] by simp
  then have "asset_path C a = path_clean C @ ''/'' @ join ''/'' (''assets'' # filter kept_elem [a])"
    using path_join_below [OF assms(1), of "''assets/'' @ a"] False by (simp add: kept_elem_def)
  then show ?thesis by (simp add: has_prefix_iff join_Cons)
qed

lemma client_write:
  assumes "good_dir C" "client_file n" "''..'' \<notin> set (split_on (CHR ''/'') n)"
  shows "has_prefix (path_join C n) (path_clean C @ ''/assets'') \<or> path_join C n = path_clean C @ ''/index.html''
    \<or> path_join C n = path_clean C @ ''/manifest.json''"
proof (cases "has_prefix n ''assets/''")
  case True
  then obtain x where n: "n = ''assets/'' @ x" by (auto simp: has_prefix_iff)
  have "split_on (CHR ''/'') n = ''assets'' # split_on (CHR ''/'') x"
    using split_on_sep [of "CHR ''/''" "''assets''" x] by (simp add: n)
  then have "path_join C n = path_clean C @ ''/'' @ join ''/'' (''assets'' # filter kept_elem (split_on (CHR ''/'') x))"
    using path_join_below [OF assms(1,3)] by (simp add: kept_elem_def)
  then show ?thesis by (simp add: has_prefix_iff join_Cons)
next
  case False
  then have "n = ''index.html'' \<or> n = ''manifest.json''" using assms(2) by (simp add: client_file_def)
  moreover have "plain_name ''index.html''" "plain_name ''manifest.json''" by (simp_all add: plain_name_def)
  ultimately show ?thesis using path_join_name [OF assms(1)] by (elim disjE) simp_all
qed

section \<open>What is kept\<close>

lemma stat_keys: "stat fs p \<longleftrightarrow> (\<exists>q \<in> fst ` set fs. q = p \<or> has_prefix q (p @ ''/''))"
  by (force simp: stat_def list_ex_iff)

lemma on_disk_keys: "on_disk fs p \<longleftrightarrow> p \<in> fst ` set fs"
  by (simp add: on_disk_def map_of_eq_None_iff)

lemma create_file_True:
  assumes "create_file W p b fs = (True, fs')"
  shows "map_of fs' = (map_of fs)(p \<mapsto> b)" "fst ` set fs' = insert p (fst ` set fs)"
proof -
  have "fs' = AList.update p b fs" using assms by (auto simp: create_file_def split: option.splits)
  then show "map_of fs' = (map_of fs)(p \<mapsto> b)" "fst ` set fs' = insert p (fst ` set fs)"
    by (simp_all add: update_conv' dom_update)
qed

lemma create_file_other:
  assumes "create_file W p b fs = (ok, fs')"
  shows "q \<noteq> p \<Longrightarrow> map_of fs' q = map_of fs q" "fst ` set fs \<subseteq> fst ` set fs'" "fst ` set fs' \<subseteq> insert p (fst ` set fs)"
proof -
  have c: "fs' = fs \<or> (\<exists>c. fs' = AList.update p c fs)" using assms by (auto simp: create_file_def split: option.splits)
  then show "q \<noteq> p \<Longrightarrow> map_of fs' q = map_of fs q" by (auto simp: update_conv')
  have "fst ` set (AList.update p c fs) = insert p (fst ` set fs)" for c by (simp add: dom_update)
  with c show "fst ` set fs \<subseteq> fst ` set fs'" "fst ` set fs' \<subseteq> insert p (fst ` set fs)" by auto
qed

lemma create_stat: "create_file W p b fs = (ok, fs') \<Longrightarrow> stat fs q \<Longrightarrow> stat fs' q"
  unfolding stat_keys using create_file_other(2) by (meson subsetD)

lemma create_on_disk: "create_file W p b fs = (ok, fs') \<Longrightarrow> q \<noteq> p \<Longrightarrow> on_disk fs' q = on_disk fs q"
  unfolding on_disk_def using create_file_other(1) by metis

definition no_slash :: "string \<Rightarrow> bool" where
  "no_slash s = (CHR ''/'' \<notin> set s)"

text \<open>The page and the markers are the same, and nothing has gone.\<close>

definition kept :: "string \<Rightarrow> files \<Rightarrow> files \<Rightarrow> bool" where
  "kept C fs fs' \<longleftrightarrow> map_of fs' (index_path C) = map_of fs (index_path C) \<and> (\<forall>q. stat fs q \<longrightarrow> stat fs' q)
     \<and> (\<forall>s. no_slash s \<longrightarrow> on_disk fs' (synced C s) = on_disk fs (synced C s))"

lemma kept_refl [simp]: "kept C fs fs"
  by (simp add: kept_def)

lemma kept_trans: "kept C fs gs \<Longrightarrow> kept C gs hs \<Longrightarrow> kept C fs hs"
  unfolding kept_def by metis

lemma other_paths:
  assumes "good_dir C" "p = path_clean C \<or> has_prefix p (path_clean C @ ''/assets'') \<or> has_prefix p (path_clean C @ ''/swept-'')"
  shows "p \<noteq> index_path C" "no_slash s \<Longrightarrow> p \<noteq> synced C s"
  using assms(2) by (auto simp: cache_names [OF assms(1)] no_slash_def has_prefix_iff)

lemma create_kept:
  assumes "good_dir C" "create_file W p b fs = (ok, fs')"
    and "p = path_clean C \<or> has_prefix p (path_clean C @ ''/assets'') \<or> has_prefix p (path_clean C @ ''/swept-'')"
  shows "kept C fs fs'"
  using other_paths [OF assms(1,3)] create_file_other(1) [OF assms(2)] create_stat [OF assms(2)] create_on_disk [OF assms(2)]
  by (simp add: kept_def) metis

lemma sweep_entries_kept:
  assumes "good_dir C"
  shows "list_all no_slash missing \<Longrightarrow> sweep_entries W C sha es missing fs = (missing', fs') \<Longrightarrow>
    kept C fs fs' \<and> list_all no_slash missing'"
proof (induction es arbitrary: missing fs)
  case (Cons e es)
  show ?case
  proof (cases "Option.bind (cut_prefix (te_name e) (tar_prefix sha)) (\<lambda>name. cut_prefix name ''assets/'')")
    case None
    then show ?thesis using Cons by simp
  next
    case (Some a)
    show ?thesis
    proof (cases "\<not> te_regular e \<or> te_size e = 0 \<or> a \<notin> set missing")
      case True
      then show ?thesis using Cons Some by (auto split: if_splits)
    next
      case False
      obtain written gs where gs: "create_file W (asset_path C a) (te_data e) fs = (written, gs)" by fastforce
      have a: "no_slash a" using False Cons.prems(1) by (auto simp: list_all_iff)
      then have "kept C fs gs" using create_kept [OF assms gs] asset_write [OF assms, of a] by (auto simp: no_slash_def)
      moreover have "list_all no_slash (if written \<and> te_ok e \<and> te_data e \<noteq> [] then removeAll a missing else missing)"
        using Cons.prems(1) by (auto simp: list_all_iff)
      then have "kept C gs fs' \<and> list_all no_slash missing'"
        using Cons.IH Cons.prems(2) Some False gs by simp
      ultimately show ?thesis using kept_trans by blast
    qed
  qed
qed simp

lemma sweep_all_kept: "good_dir C \<Longrightarrow> list_all no_slash missing \<Longrightarrow> kept C fs (sweep_all W C shas missing fs)"
proof (induction shas arbitrary: missing fs)
  case (Cons sha shas)
  obtain m' fs' where r: "sweepTarball W C sha missing fs = (m', fs')" by fastforce
  have "kept C fs fs' \<and> list_all no_slash m'"
  proof (cases "wb_tar W sha")
    case None
    then show ?thesis using r Cons.prems by (simp add: sweepTarball_def)
  next
    case (Some x)
    then show ?thesis using r sweep_entries_kept [OF Cons.prems(1,2)] by (cases x) (simp add: sweepTarball_def)
  qed
  then show ?case using Cons.IH [of m' fs'] Cons.prems(1) r kept_trans by (cases "missing = []") auto
qed simp

lemma FindAll_no_slash:
  "g \<in> set (FindAll assetRef page) \<Longrightarrow> no_slash g" "h \<in> set (FindAll chunkHash body) \<Longrightarrow> no_slash h"
proof -
  have "groups_within (\<lambda>c. c \<noteq> CHR ''/'') assetRef" "groups_within (\<lambda>c. c \<noteq> CHR ''/'') chunkHash"
    by (auto simp: assetRef_def chunkHash_def asset_char_def is_alpha_def is_digit_def is_hex_def)
  then show "g \<in> set (FindAll assetRef page) \<Longrightarrow> no_slash g" "h \<in> set (FindAll chunkHash body) \<Longrightarrow> no_slash h"
    using FindAll_within by (fastforce simp: no_slash_def list_all_iff)+
qed

lemma referenced_no_slash: "list_all no_slash (referenced C page names fs)"
  using FindAll_no_slash by (auto simp: referenced_def list_all_iff no_slash_def split: option.splits if_splits)

lemma finish_sync_kept:
  assumes "good_dir C" "no_slash sha" shows "kept C fs (finish_sync W C shas sha fs)"
proof -
  have "kept C fs (backfillMissing W C shas fs)"
  proof (cases "map_of fs (index_path C)")
    case (Some page)
    have "list_all no_slash (remdups (filter P (referenced C page names fs)))" for P names
      using referenced_no_slash [of C page names fs] by (simp add: list_all_iff)
    then show ?thesis using sweep_all_kept [OF assms(1)] Some
      by (simp add: backfillMissing_def split: option.split)
  qed (simp add: backfillMissing_def)
  moreover have "kept C gs (touch W (swept C sha) gs)" for gs
    using create_kept [OF assms(1), of W "swept C sha" "[]" gs] cache_names(4) [OF assms(1), of sha] assms(2)
    by (cases "create_file W (swept C sha) [] gs") (auto simp: touch_def no_slash_def has_prefix_iff)
  ultimately show ?thesis unfolding finish_sync_def using kept_trans by blast
qed

lemma boot_kept: "kept C fs fs' \<Longrightarrow> bootCriticalMissing C fs = [] \<Longrightarrow> bootCriticalMissing C fs' = []"
  by (auto simp: bootCriticalMissing_def kept_def filter_empty_conv split: option.splits)

section \<open>Markers\<close>

lemma marker_iff:
  assumes "good_dir C"
  shows "n \<in> set (markers C fs) \<longleftrightarrow> (\<exists>s. n = ''synced-'' @ s \<and> no_slash s \<and> on_disk fs (synced C s))"
proof -
  let ?D = "path_clean C"
  have "n \<in> drop (length ?D + 1) ` {q \<in> K. has_prefix q (?D @ ''/'')} \<longleftrightarrow> ?D @ ''/'' @ n \<in> K" for K
  proof
    assume "?D @ ''/'' @ n \<in> K"
    then show "n \<in> drop (length ?D + 1) ` {q \<in> K. has_prefix q (?D @ ''/'')}"
      by (intro image_eqI [of _ _ "?D @ ''/'' @ n"]) (auto simp: has_prefix_iff)
  qed (auto simp: has_prefix_iff)
  note below = this
  define b where "b = map (drop (length ?D + 1)) (filter (\<lambda>q. has_prefix q (?D @ ''/'')) (map fst fs))"
  have "set b = drop (length ?D + 1) ` {q \<in> fst ` set fs. has_prefix q (?D @ ''/'')}" by (simp add: b_def)
  then have "n \<in> set b \<longleftrightarrow> ?D @ ''/'' @ n \<in> fst ` set fs" by (simp only: below)
  moreover have "n \<in> set (markers C fs) \<longleftrightarrow> n \<in> set b \<and> CHR ''/'' \<notin> set n \<and> has_prefix n ''synced-''"
    unfolding markers_def dir_files_def Let_def b_def [symmetric] by (cases "b = []") auto
  ultimately have "n \<in> set (markers C fs) \<longleftrightarrow> ?D @ ''/'' @ n \<in> fst ` set fs \<and> CHR ''/'' \<notin> set n \<and> has_prefix n ''synced-''"
    by simp
  moreover have "no_slash (''synced-'' @ s) = no_slash s" "no_slash s \<Longrightarrow> ?D @ ''/'' @ ''synced-'' @ s = synced C s" for s
    using cache_names(3) [OF assms, of s] by (simp_all add: no_slash_def)
  ultimately show ?thesis unfolding on_disk_keys has_prefix_iff no_slash_def [symmetric] by metis
qed

definition unmarked :: "string \<Rightarrow> files \<Rightarrow> bool" where
  "unmarked C fs \<longleftrightarrow> (\<forall>s. no_slash s \<longrightarrow> \<not> on_disk fs (synced C s))"

lemma drop_markers_unmarked:
  assumes "good_dir C" "\<And>q. \<not> wb_stuck W q" shows "unmarked C (drop_markers W C fs)"
  unfolding unmarked_def
proof (intro allI impI notI)
  fix s assume s: "no_slash s" "on_disk (drop_markers W C fs) (synced C s)"
  then have "on_disk fs (synced C s)" "synced C s \<notin> path_join C ` set (markers C fs)"
    using assms(2) by (auto simp: on_disk_keys drop_markers_def)
  then show False using s(1) marker_iff [OF assms(1), of "''synced-'' @ s" fs] by (auto simp: synced_def)
qed

text \<open>An archive whose names do not climb.\<close>

definition tame :: "tar_entry list \<Rightarrow> bool" where
  "tame es = list_all (\<lambda>e. ''..'' \<notin> set (split_on (CHR ''/'') (te_name e))) es"

lemma extract_entries_unmarked:
  assumes "good_dir C"
  shows "tame es \<Longrightarrow> unmarked C fs \<Longrightarrow> unmarked C (snd (snd (extract_entries W C sha es n fs)))"
proof (induction es arbitrary: n fs)
  case (Cons e es)
  show ?case
  proof (cases "cut_prefix (te_name e) (tar_prefix sha)")
    case None
    then show ?thesis using Cons by (simp add: tame_def)
  next
    case (Some name)
    show ?thesis
    proof (cases "\<not> te_regular e \<or> \<not> client_file name \<or> te_size e = 0")
      case True
      then show ?thesis using Cons Some by (auto simp: tame_def)
    next
      case False
      obtain written gs where gs: "create_file W (path_join C name) (te_data e) fs = (written, gs)" by fastforce
      have "te_name e = (''discord-scraping-'' @ sha) @ CHR ''/'' # name"
        using Some by (auto simp: cut_prefix_def tar_prefix_def has_prefix_iff split: if_splits)
      then have "''..'' \<notin> set (split_on (CHR ''/'') name)"
        using Cons.prems(1) split_on_sep [of "CHR ''/''" "''discord-scraping-'' @ sha" name] by (simp add: tame_def)
      then have "no_slash s \<Longrightarrow> path_join C name \<noteq> synced C s" for s
        using client_write [OF assms, of name] False cache_names(3) [OF assms, of s] by (auto simp: no_slash_def has_prefix_iff)
      then have "unmarked C gs" using Cons.prems(2) create_on_disk [OF gs] by (simp add: unmarked_def) metis
      then show ?thesis using Cons.IH [of gs] Cons.prems(1) Some False gs by (simp add: tame_def)
    qed
  qed
qed simp

section \<open>A build that boots\<close>

text \<open>A marked cache holds every file that its page loads at once.\<close>

definition cache_ok :: "string \<Rightarrow> files \<Rightarrow> bool" where
  "cache_ok C fs \<longleftrightarrow> (unmarked C fs \<or> bootCriticalMissing C fs = [])"

lemma cache_ok_kept: "kept C fs fs' \<Longrightarrow> cache_ok C fs \<Longrightarrow> cache_ok C fs'"
  unfolding cache_ok_def unmarked_def using boot_kept by (auto simp: kept_def)

definition synced_to :: "string \<Rightarrow> string option \<Rightarrow> files \<Rightarrow> bool" where
  "synced_to C r fs \<longleftrightarrow> cache_ok C fs \<and> (case r of Some sha \<Rightarrow> on_disk fs (synced C sha) \<and> bootCriticalMissing C fs = [] | None \<Rightarrow> True)"

lemma synced_to_kept:
  "kept C fs fs' \<Longrightarrow> no_slash sha \<Longrightarrow> on_disk fs (synced C sha) \<Longrightarrow> bootCriticalMissing C fs = [] \<Longrightarrow> synced_to C (Some sha) fs'"
  using boot_kept by (auto simp: synced_to_def cache_ok_def kept_def)

lemma create_marker:
  assumes "good_dir C" "no_slash sha" "create_file W (synced C sha) b fs = (ok, gs)" "bootCriticalMissing C fs = []"
  shows "ok \<Longrightarrow> on_disk gs (synced C sha)" "bootCriticalMissing C gs = []"
proof -
  show "on_disk gs (synced C sha)" if ok using create_file_True(1) [of W "synced C sha" b fs gs] assms(3) that by (simp add: on_disk_def)
  have "synced C sha \<noteq> index_path C"
    using cache_names(1) [OF assms(1)] cache_names(3) [OF assms(1), of sha] assms(2) by (simp add: no_slash_def)
  then have "map_of gs (index_path C) = map_of fs (index_path C)" using create_file_other(1) [OF assms(3)] by simp
  then show "bootCriticalMissing C gs = []"
    using assms(4) create_stat [OF assms(3)] by (auto simp: bootCriticalMissing_def filter_empty_conv split: option.splits)
qed

lemma try_builds_synced:
  assumes "good_dir C" "\<And>sha es ends. wb_tar W sha = Some (es, ends) \<Longrightarrow> tame es" "\<And>q. \<not> wb_stuck W q"
  shows "list_all no_slash shas \<Longrightarrow> cache_ok C fs \<Longrightarrow> try_builds W C all shas fs = (r, fs') \<Longrightarrow> synced_to C r fs'"
proof (induction shas arbitrary: fs)
  case (Cons sha shas)
  have sha: "no_slash sha" using Cons.prems(1) by simp
  show ?case
  proof (cases "on_disk fs (synced C sha)")
    case True
    then have "bootCriticalMissing C fs = []" using Cons.prems(2) sha by (auto simp: cache_ok_def unmarked_def)
    then show ?thesis using True Cons.prems(2,3) by (auto simp: synced_to_def)
  next
    case False
    obtain rs where rs: "remove_all W (assets_dir C) fs = (True, rs)"
      using assms(3) by (auto simp: remove_all_def list_ex_iff)
    obtain ok gs where x: "extractTarball W C sha (drop_markers W C rs) = (ok, gs)" by fastforce
    have gs: "unmarked C gs"
    proof (cases "wb_tar W sha")
      case None
      then show ?thesis using x drop_markers_unmarked [OF assms(1,3)] by (auto simp: extractTarball_def)
    next
      case (Some y)
      then have "unmarked C (snd (snd (extract_entries W C sha (fst y) 0 (drop_markers W C rs))))"
        using extract_entries_unmarked [OF assms(1) _ drop_markers_unmarked [OF assms(1,3)]] assms(2) by (metis prod.collapse)
      then show ?thesis using x Some by (auto simp: extractTarball_def split: prod.splits)
    qed
    show ?thesis
    proof (cases "\<not> ok \<or> bootCriticalMissing C gs \<noteq> []")
      case True
      then show ?thesis using Cons.IH [of gs] Cons.prems(1,3) False x rs gs by (auto simp: cache_ok_def)
    next
      case ok: False
      obtain written hs where w: "create_file W (synced C sha) [] gs = (written, hs)" by fastforce
      have hs: "written \<Longrightarrow> on_disk hs (synced C sha)" "bootCriticalMissing C hs = []"
        using create_marker [OF assms(1) sha w] ok by auto
      show ?thesis
      proof (cases written)
        case False
        then show ?thesis using Cons.prems(3) \<open>\<not> on_disk fs (synced C sha)\<close> x rs ok w hs(2) by (auto simp: synced_to_def cache_ok_def)
      next
        case True
        then have "synced_to C (Some sha) (finish_sync W C all sha hs)"
          using hs sha by (intro synced_to_kept [OF finish_sync_kept [OF assms(1) sha]]) auto
        then show ?thesis using Cons.prems(3) False x rs ok w True by simp
      qed
    qed
  qed
qed (simp add: synced_to_def)

text \<open>C10: A build that \<open>syncAssets\<close> returns can boot: its marker is in the cache, and so are the page and every script,
  style sheet and icon that the page loads at once, whether the build was downloaded now, walked back to, or found there
  and served because the archive cannot be reached. A run that fails, be it in the middle of a write, leaves no marker on an
  incomplete cache. Supposed: old assets and markers can be removed, no name in an archive climbs with \<open>..\<close>, the ids of
  commits hold no slash, and the cache is marked at the start only if it is complete.\<close>

lemma syncAssets_boots:
  assumes "good_dir C" "\<And>sha es ends. wb_tar W sha = Some (es, ends) \<Longrightarrow> tame es"
    and "\<And>shas. resolveCommit W channel at = Some shas \<Longrightarrow> list_all no_slash shas"
    and "\<And>q. \<not> wb_stuck W q"
    and "unmarked C fs \<or> bootCriticalMissing C fs = []"
    and "syncAssets W C channel at fs = (r, fs')"
  shows "(unmarked C fs' \<or> bootCriticalMissing C fs' = [])
    \<and> (\<forall>sha. r = Some sha \<longrightarrow> on_disk fs' (synced C sha) \<and> on_disk fs' (index_path C)
        \<and> (\<forall>page a. map_of fs' (index_path C) = Some page \<and> a \<in> set (eager_names page) \<longrightarrow> stat fs' (asset_path C a)))"
proof -
  have ok: "cache_ok C fs" using assms(5) by (simp add: cache_ok_def)
  have fresh: "synced_to C r fs'"
    if "(case resolveCommit W channel at of None \<Rightarrow> (None, fs) | Some shas \<Rightarrow> try_builds W C shas shas fs) = (r, fs')"
  proof (cases "resolveCommit W channel at")
    case (Some shas)
    show ?thesis
      by (rule try_builds_synced [of C W shas fs shas]) (use assms(1,2,4) assms(3) [OF Some] ok that Some in auto)
  qed (use that ok in \<open>auto simp: synced_to_def\<close>)
  have "synced_to C r fs'"
  proof (cases "wb_fault W (path_clean C) \<noteq> None")
    case True
    then show ?thesis using assms(6) ok by (auto simp: syncAssets_def Let_def synced_to_def)
  next
    case made: False
    show ?thesis
    proof (cases "markers C fs")
      case Nil
      then show ?thesis using assms(6) fresh made by (simp add: syncAssets_def Let_def)
    next
      case (Cons n ns)
      obtain s where s: "n = ''synced-'' @ s" "no_slash s" "on_disk fs (synced C s)"
        using marker_iff [OF assms(1), of n fs] Cons by auto
      then have boot: "bootCriticalMissing C fs = []" using ok by (auto simp: cache_ok_def unmarked_def)
      have there: "synced_to C (Some s) fs" "synced_to C (Some s) (finish_sync W C shas s fs)" for shas
        using synced_to_kept [OF kept_refl s(2,3) boot] synced_to_kept [OF finish_sync_kept [OF assms(1) s(2)] s(2,3) boot] by auto
      show ?thesis using assms(6) fresh there made Cons s(1) by (auto simp: syncAssets_def Let_def split: if_splits option.splits)
    qed
  qed
  then show ?thesis
    by (auto simp: synced_to_def cache_ok_def bootCriticalMissing_def filter_empty_conv on_disk_def split: option.splits)
qed

text \<open>When old assets cannot be removed, the run fails with the marker of the old build on what is left of it; a later run
  that cannot reach the archive serves it.\<close>

lemma remove_fails_marked:
  assumes "good_dir C" "no_slash sha" "no_slash old" "\<not> on_disk fs (synced C sha)" "on_disk fs (synced C old)"
    and "has_prefix q (assets_dir C @ ''/'')" "on_disk fs q" "wb_stuck W q"
    and "has_prefix p (assets_dir C @ ''/'')" "\<not> wb_stuck W p"
  shows "\<exists>fs'. try_builds W C all (sha # shas) fs = (None, fs') \<and> on_disk fs' (synced C old) \<and> \<not> on_disk fs' p"
proof -
  obtain removed fs' where r: "remove_all W (assets_dir C) fs = (removed, fs')" by fastforce
  have "\<not> removed" using r assms(6-8) by (force simp: remove_all_def Let_def list_ex_iff on_disk_keys)
  moreover have "\<not> has_prefix (synced C old) (assets_dir C @ ''/'')" "synced C old \<noteq> assets_dir C"
    using assms(3) by (auto simp: cache_names [OF assms(1)] no_slash_def has_prefix_iff)
  then have "on_disk fs' (synced C old)" using r assms(5) by (force simp: remove_all_def Let_def on_disk_keys)
  moreover have "\<not> on_disk fs' p" using r assms(9,10) by (auto simp: remove_all_def Let_def on_disk_keys)
  ultimately show ?thesis using assms(4) r by auto
qed

text \<open>A marker that cannot be removed is trusted by the same run when the walk comes to its build, although the assets of that
  build are gone.\<close>

lemma stuck_marker_trusted:
  assumes "good_dir C" "no_slash sha" "no_slash old" "\<not> on_disk fs (synced C sha)" "on_disk fs (synced C old)"
    and "wb_stuck W (synced C old)" "\<forall>q. has_prefix q (assets_dir C) \<longrightarrow> \<not> wb_stuck W q" "wb_tar W sha = None"
  shows "\<exists>fs'. try_builds W C all [sha, old] fs = (Some old, fs') \<and> (\<forall>q. has_prefix q (assets_dir C @ ''/'') \<longrightarrow> \<not> on_disk fs' q)"
proof -
  have pre: "has_prefix q (assets_dir C)" if "q = assets_dir C \<or> has_prefix q (assets_dir C @ ''/'')" for q
    using that by (auto simp: has_prefix_iff)
  obtain rs where r: "remove_all W (assets_dir C) fs = (True, rs)"
    using assms(7) pre by (fastforce simp: remove_all_def Let_def list_ex_iff)
  have rs: "fst ` set rs = {q \<in> fst ` set fs. \<not> (q = assets_dir C \<or> has_prefix q (assets_dir C @ ''/''))}"
    using r assms(7) pre by (force simp: remove_all_def Let_def)
  let ?fs = "drop_markers W C rs"
  have "\<not> has_prefix (synced C old) (assets_dir C @ ''/'')" "synced C old \<noteq> assets_dir C"
    using assms(3) by (auto simp: cache_names [OF assms(1)] no_slash_def has_prefix_iff)
  then have "on_disk rs (synced C old)" using assms(5) by (simp add: on_disk_keys rs)
  then have "on_disk ?fs (synced C old)" using assms(6) by (force simp: drop_markers_def on_disk_keys)
  moreover have "\<not> on_disk ?fs q" if "has_prefix q (assets_dir C @ ''/'')" for q
  proof -
    have "q \<notin> fst ` set rs" using that rs by blast
    then show ?thesis by (auto simp: drop_markers_def on_disk_keys)
  qed
  moreover have "extractTarball W C sha ?fs = (False, ?fs)" using assms(8) by (simp add: extractTarball_def)
  ultimately show ?thesis using assms(4) r by auto
qed

text \<open>A small archive.\<close>

definition demo_entry :: "string \<Rightarrow> string \<Rightarrow> tar_entry" where
  "demo_entry name text = \<lparr>te_name = ''discord-scraping-abcdefgh/'' @ name, te_regular = True, te_size = length text, te_data = text, te_ok = True\<rparr>"

definition demo_page :: string where
  "demo_page = ''<script src='' @ quoted ''/assets/a.js''"

definition demo_web :: web where
  "demo_web = \<lparr>wb_api = (\<lambda>_. Some (200, ''[{'' @ quoted ''sha'' @ '':'' @ quoted ''abcdefgh'' @ ''}]'')),
     wb_tar = (\<lambda>sha. if sha = ''abcdefgh'' then Some ([demo_entry ''index.html'' demo_page, demo_entry ''assets/a.js'' ''x''], True) else None),
     wb_raw = (\<lambda>_. None), wb_fault = (\<lambda>_. None), wb_stuck = (\<lambda>_. False)\<rparr>"

lemma demo_commits: "resolveCommit demo_web ''stable'' [] = Some [''abcdefgh'']"
  unfolding demo_web_def by code_simp

lemma demo_sync: "fst (syncAssets demo_web ''/c'' ''stable'' [] []) = Some ''abcdefgh''"
  unfolding demo_web_def demo_entry_def demo_page_def by code_simp

lemma syncAssets_boots_witness:
  "\<exists>fs'. syncAssets demo_web ''/c'' ''stable'' [] [] = (Some ''abcdefgh'', fs')
    \<and> on_disk fs' (synced ''/c'' ''abcdefgh'') \<and> on_disk fs' (index_path ''/c'')"
proof -
  obtain fs' where r: "syncAssets demo_web ''/c'' ''stable'' [] [] = (Some ''abcdefgh'', fs')"
    using demo_sync by (metis prod.collapse)
  have "good_dir ''/c''" by code_simp
  moreover have "tame [demo_entry ''index.html'' demo_page, demo_entry ''assets/a.js'' ''x'']"
    unfolding demo_entry_def demo_page_def by code_simp
  then have "wb_tar demo_web sha = Some (es, ends) \<Longrightarrow> tame es" for sha es ends
    by (auto simp: demo_web_def split: if_splits)
  moreover have "resolveCommit demo_web ''stable'' [] = Some shas \<Longrightarrow> list_all no_slash shas" for shas
    using demo_commits by (auto simp: no_slash_def)
  moreover have "unmarked ''/c'' []" "\<not> wb_stuck demo_web q" for q by (simp_all add: unmarked_def on_disk_def demo_web_def)
  ultimately show ?thesis using syncAssets_boots [OF _ _ _ _ _ r] r by blast
qed

text \<open>The name of an entry may climb out of the cache.\<close>

lemma extract_climbs:
  assumes "wb_fault W ''/home/x'' = None"
  shows "extract_entries W ''/home/cache'' sha [\<lparr>te_name = tar_prefix sha @ ''assets/../../x'', te_regular = True, te_size = 1,
      te_data = b, te_ok = True\<rparr>] 0 [] = (True, 1, [(''/home/x'', b)])"
proof -
  have "path_join ''/home/cache'' ''assets/../../x'' = ''/home/x''" "client_file ''assets/../../x''" by code_simp+
  then show ?thesis using assms by (simp add: cut_prefix_def create_file_def)
qed

end
