(* ===== verification/WebServe.thy ===== *)
theory WebServe
  imports WebSync Commands
begin

text \<open>
  What \<open>voidweb\<close> serves (\<open>cmd/voidweb/sync.go\<close>, second half, and \<open>cmd/voidweb/main.go\<close>): the handler of the assets with its
  search for files that the build lacks and the memo of its results, the rewriting of scripts and of the page, the stubs of
  absent modules, and the login at the bouncer. The scripts that are pasted into the page are parameters; the paths of
  requests are those that \<open>ServeMux\<close> has cleaned, and no asset is called \<open>index.html\<close>, which \<open>ServeFile\<close> redirects. Lemmas:
  what a search finds and remembers, that the handler stays inside the cache, and which bytes an immutable reply carries.
\<close>

section \<open>Searching the archive for an asset\<close>

record asset_handler =
  ah_channel :: string
  ah_donors :: "(string \<times> string) list"
  ah_ids :: "(string \<times> string) list"
  ah_patched :: "(string \<times> string) list"

definition rawBase :: string where
  "rawBase = ''https://raw.githubusercontent.com/jaimeadf/discord-scraping''"

definition branches :: "string \<Rightarrow> string list" where
  "branches channel = channel # filter (\<lambda>b. b \<noteq> channel) [''stable'', ''ptb'', ''canary'']"

definition findDonors :: "web \<Rightarrow> string \<Rightarrow> string \<Rightarrow> string list option" where
  "findDonors W channel name =
     map_option (filter (\<lambda>s. s \<noteq> []))
       (api_commits W (githubAPI @ ''/commits?sha='' @ channel @ ''&path=assets/'' @ name @ ''&per_page=4''))"

definition maxAsset :: nat where "maxAsset = 64 * 2 ^ 20"

definition fetchRaw :: "web \<Rightarrow> string \<Rightarrow> string \<Rightarrow> string \<Rightarrow> files \<Rightarrow> bool \<times> files" where
  "fetchRaw W sha name dst fs =
     (case wb_raw W (rawBase @ ''/'' @ sha @ ''/assets/'' @ name) of
        None \<Rightarrow> (False, fs)
      | Some (status, body) \<Rightarrow>
        if status \<noteq> 200 \<or> body = [] then (False, fs) else create_file W dst (take maxAsset body) fs)"

fun fetch_any :: "web \<Rightarrow> string list \<Rightarrow> string \<Rightarrow> string \<Rightarrow> files \<Rightarrow> string option \<times> files" where
  "fetch_any W [] name dst fs = (None, fs)"
| "fetch_any W (sha # shas) name dst fs =
     (case fetchRaw W sha name dst fs of (got, fs) \<Rightarrow> if got then (Some sha, fs) else fetch_any W shas name dst fs)"

abbreviation donors_path :: "string \<Rightarrow> string" where "donors_path C \<equiv> path_join C ''donors.json''"

definition persistDonors :: "web \<Rightarrow> string \<Rightarrow> asset_handler \<Rightarrow> files \<Rightarrow> files" where
  "persistDonors W C h fs =
     snd (create_file W (donors_path C) (json_encode (json_map (map (\<lambda>(k, v). (k, JStr v)) (ah_donors h)))) fs)"

definition note_donor :: "web \<Rightarrow> string \<Rightarrow> string \<Rightarrow> string \<Rightarrow> asset_handler \<Rightarrow> files \<Rightarrow> asset_handler \<times> files" where
  "note_donor W C name v h fs =
     (let h = h\<lparr>ah_donors := AList.update name v (ah_donors h)\<rparr> in (h, persistDonors W C h fs))"

text \<open>The branches one after the other; \<open>now\<close> is the Unix time.\<close>

fun probe :: "web \<Rightarrow> string \<Rightarrow> int \<Rightarrow> string list \<Rightarrow> string \<Rightarrow> asset_handler \<Rightarrow> files \<Rightarrow> bool \<times> asset_handler \<times> files" where
  "probe W C now [] name h fs = (False, note_donor W C name ''-'' h fs)"
| "probe W C now (b # bs) name h fs =
     (case findDonors W b name of
        None \<Rightarrow> (False, note_donor W C name (CHR ''!'' # format_int (now + 600)) h fs)
      | Some shas \<Rightarrow>
        (case fetch_any W shas name (asset_path C name) fs of
           (Some sha, fs) \<Rightarrow> (True, note_donor W C name sha h fs)
         | (None, fs) \<Rightarrow> probe W C now bs name h fs))"

definition heal :: "web \<Rightarrow> string \<Rightarrow> int \<Rightarrow> string \<Rightarrow> asset_handler \<Rightarrow> files \<Rightarrow> bool \<times> asset_handler \<times> files" where
  "heal W C now name h fs =
     (if stat fs (asset_path C name) then (True, h, fs)
      else case map_of (ah_donors h) name of
        None \<Rightarrow> probe W C now (branches (ah_channel h)) name h fs
      | Some v \<Rightarrow>
        if v = ''-'' then (False, h, fs)
        else if has_prefix v ''!'' then
          (if case parse_int64 (drop 1 v) of Inr t \<Rightarrow> now < t | Inl _ \<Rightarrow> False then (False, h, fs)
           else probe W C now (branches (ah_channel h)) name (h\<lparr>ah_donors := AList.delete name (ah_donors h)\<rparr>) fs)
        else case fetchRaw W v name (asset_path C name) fs of
          (got, fs) \<Rightarrow> if got then (True, h, fs) else probe W C now (branches (ah_channel h)) name h fs)"

text \<open>\<open>json.Unmarshal\<close> into a map of strings: a value of another type leaves an empty string. A file that holds \<open>null\<close>,
  which is never written, is left out.\<close>

definition donors_of :: "string \<Rightarrow> (string \<times> string) list" where
  "donors_of text =
     (case unmarshal text of
        Some (JObj kvs) \<Rightarrow> fold (\<lambda>(k, v). AList.update k (case v of JStr s \<Rightarrow> s | _ \<Rightarrow> [])) kvs []
      | _ \<Rightarrow> [])"

definition loadDonors :: "web \<Rightarrow> string \<Rightarrow> files \<Rightarrow> (string \<times> string) list \<times> files" where
  "loadDonors W C fs =
     (let ds = (case map_of fs (donors_path C) of Some text \<Rightarrow> donors_of text | None \<Rightarrow> []);
          marker = path_join C ''donors-v2'' in
      if on_disk fs marker then (ds, fs)
      else (filter (\<lambda>(_, v). v \<noteq> ''-'') ds,
            snd (create_file W marker (''cross-branch'' @ [CHR 0x0A]) fs)))"

section \<open>Serving an asset\<close>

definition immutable :: "string \<times> string" where
  "immutable = (''Cache-Control'', ''public, max-age=31536000, immutable'')"

definition js_headers :: "(string \<times> string) list" where
  "js_headers = [(''Content-Type'', ''application/javascript''), immutable]"

definition assetLoaderMiss :: re where
  "assetLoaderMiss = re_seqs
     [re_lit ''if (!n.o(r, e)) return Promise.resolve().then((() => {'', re_star re_blank,
      re_lit (''var t = new Error('' @ CHR 0x22 # ''Cannot find module '' @ [CHR 0x27, CHR 0x22] @ '' + e + ''
        @ [CHR 0x22, CHR 0x27, CHR 0x22] @ '');''), re_star re_blank,
      re_lit (''t.code = '' @ quoted ''MODULE_NOT_FOUND'' @ '';''), re_star re_blank,
      re_lit ''throw t'', re_star re_blank, re_lit ''}));'']"

definition assetLoaderMissFix :: string where
  "assetLoaderMissFix = ''if (!n.o(r, e)) return Promise.resolve().then((() => n.t(950001, 23)));''"

definition patch_script :: "string \<Rightarrow> string" where
  "patch_script body = ReplaceAll assetLoaderMiss (\<lambda>_. assetLoaderMissFix) None body"

definition servePatchedJS :: "string \<Rightarrow> string \<Rightarrow> asset_handler \<Rightarrow> files \<Rightarrow> reply \<times> asset_handler" where
  "servePatchedJS C name h fs =
     (case map_of (ah_patched h) name of
        Some text \<Rightarrow> (File js_headers text, h)
      | None \<Rightarrow>
        (case map_of fs (asset_path C name) of
           None \<Rightarrow> (NotFoundPage, h)
         | Some body \<Rightarrow>
           let patched = patch_script body in
           if patched = body then (File js_headers body, h)
           else (File js_headers patched, h\<lparr>ah_patched := AList.update name patched (ah_patched h)\<rparr>)))"

definition serveStub :: "asset_handler \<Rightarrow> string \<Rightarrow> reply" where
  "serveStub h name =
     (let (body, ct) =
        (if has_suffix name ''.js'' then
           (case map_of (ah_ids h) (trim_suffix name ''.js'') of
              Some i \<Rightarrow> ''(self.webpackChunkdiscord_app=self.webpackChunkdiscord_app||[]).push([['' @ i @ ''],{}])''
            | None \<Rightarrow> [], ''application/javascript'')
         else if has_suffix name ''.css'' then ([], ''text/css'')
         else if has_suffix name ''.png'' then ([], ''image/png'')
         else ([], ''application/octet-stream''))
      in File [(''Cache-Control'', ''no-store''), (''Content-Type'', ct)] body)"

definition ServeHTTP :: "web \<Rightarrow> string \<Rightarrow> int \<Rightarrow> string \<Rightarrow> asset_handler \<Rightarrow> files \<Rightarrow> reply \<times> asset_handler \<times> files" where
  "ServeHTTP W C now path h fs =
     (let name = trim_prefix path ''/assets/'' in
      if name = [] \<or> name \<noteq> path_base name \<or> has_infix name ''..'' then (NotFoundPage, h, fs)
      else case (if stat fs (asset_path C name) then (True, h, fs) else heal W C now name h fs) of
        (found, h, fs) \<Rightarrow>
          if \<not> found then (serveStub h name, h, fs)
          else if has_suffix name ''.js'' then (case servePatchedJS C name h fs of (r, h) \<Rightarrow> (r, h, fs))
          else (case map_of fs (asset_path C name) of
                  Some body \<Rightarrow> File [immutable] body
                | None \<Rightarrow> NotFoundPage, h, fs))"

definition chunk_pair :: re where
  "chunk_pair = re_seqs [Group 1 (Chars is_digit 1 (Some 7) True), re_lit '':'', re_star re_blank, re_lit [CHR 0x22],
     Group 2 (Chars is_hex 20 (Some 20) True), re_lit [CHR 0x22]]"

text \<open>The scripts of the cache in the order of their names.\<close>

definition bundles :: "string \<Rightarrow> files \<Rightarrow> string list" where
  "bundles C fs =
     (case dir_files (assets_dir C) fs of
        None \<Rightarrow> []
      | Some names \<Rightarrow> List.map_filter (\<lambda>n. if has_suffix n ''.js'' then map_of fs (asset_path C n) else None) names)"

definition add_id :: "(nat \<times> string) list \<Rightarrow> (string \<times> string) list \<Rightarrow> (string \<times> string) list" where
  "add_id caps ids = (if map_of ids (re_group 2 caps) = None then ids @ [(re_group 2 caps, re_group 1 caps)] else ids)"

definition buildChunkIDs :: "string \<Rightarrow> files \<Rightarrow> (string \<times> string) list" where
  "buildChunkIDs C fs = fold (\<lambda>body. fold add_id (FindAllSubmatch chunk_pair None body)) (bundles C fs) []"

section \<open>The page\<close>

definition replace_first :: "string \<Rightarrow> string \<Rightarrow> string \<Rightarrow> string" where
  "replace_first s old new =
     (case find_sub s old of Some i \<Rightarrow> take i s @ new @ drop (i + length old) s | None \<Rightarrow> s)"

definition integrityAttr :: re where
  "integrityAttr = re_seqs [re_plus re_blank, re_lit (''integrity='' @ [CHR 0x22]), re_star (\<lambda>c. c \<noteq> CHR 0x22), re_lit [CHR 0x22]]"

definition config_entry :: "string \<Rightarrow> re" where
  "config_entry key = Seq (Group 1 (Seq (re_lit (key @ '':'')) (re_star re_blank)))
     (Group 2 (Alt (re_seqs [re_lit [CHR 0x27], re_star (\<lambda>c. c \<noteq> CHR 0x27), re_lit [CHR 0x27]])
                   (re_seqs [re_lit [CHR 0x22], re_star (\<lambda>c. c \<noteq> CHR 0x22), re_lit [CHR 0x22]])))"

definition replacements :: "string \<Rightarrow> (string \<times> string) list" where
  "replacements host =
     [(''API_ENDPOINT'', ''/api''), (''GATEWAY_ENDPOINT'', ''wss://'' @ host @ ''/gateway''), (''WEBAPP_ENDPOINT'', []),
      (''CDN_HOST'', host), (''ASSET_ENDPOINT'', []), (''WIDGET_ENDPOINT'', []), (''DEVELOPERS_ENDPOINT'', []),
      (''MARKETING_ENDPOINT'', []), (''REMOTE_AUTH_ENDPOINT'', ''//'' @ host @ ''/remote-auth''), (''NETWORKING_ENDPOINT'', [])]"

text \<open>The scripts that are pasted: the error sink at the start of the body, the report at its end. The host holds no dollar
  sign, which the replacement would expand.\<close>

definition rewriteIndex :: "string \<Rightarrow> string \<Rightarrow> string \<Rightarrow> files \<Rightarrow> string \<Rightarrow> string option" where
  "rewriteIndex sink report C fs host =
     map_option (\<lambda>raw.
       let page = ReplaceAll integrityAttr (\<lambda>_. []) None raw;
           page = replace_first page ''<body>'' (''<body>'' @ sink);
           page = replace_first page ''</body>'' report
       in fold (\<lambda>(key, v). ReplaceAll (config_entry key) (\<lambda>caps. re_group 1 caps @ [CHR 0x27] @ v @ [CHR 0x27]) None)
            (replacements host) page)
     (map_of fs (index_path C))"

definition is_word :: "char \<Rightarrow> bool" where
  "is_word c = (is_alpha c \<or> is_digit c \<or> c = CHR ''_'')"

definition defRe :: re where
  "defRe = re_seqs [Bol, re_star re_blank, Group 1 (Chars is_digit 5 (Some 7) True), re_lit '': '',
     re_alts [re_lit ''('', re_lit ''function'', Seq (re_plus is_word) (re_lit '' =>'')]]"

abbreviation short_name :: re where
  "short_name \<equiv> Chars (\<lambda>c. is_alpha c \<or> c = CHR ''_'' \<or> c = CHR ''$'') 1 (Some 2) True"

definition refRe :: re where
  "refRe = re_seqs
     [re_alts [Seq short_name (re_lit ''.e''), Seq short_name (re_lit ''.bind(this,''), short_name,
        re_seqs [re1 is_word, re_lit ''.bind('', re_plus is_word, re_lit '','']],
      re_lit ''('', re_star re_blank, Group 1 (Chars is_digit 4 (Some 7) True), re_star re_blank, re_lit '')'']"

definition ghostModules :: "string \<Rightarrow> files \<Rightarrow> string list" where
  "ghostModules C fs =
     (let defined = concat (map (FindAll defRe) (bundles C fs)); refd = concat (map (FindAll refRe) (bundles C fs))
      in sort (remdups (filter (\<lambda>i. i \<notin> set defined) refd)))"

text \<open>The page that \<open>main\<close> serves: \<open>seed\<close> is the script that registers the ghost modules.\<close>

definition boot_page ::
  "string \<Rightarrow> string \<Rightarrow> (string list \<Rightarrow> string) \<Rightarrow> string \<Rightarrow> files \<Rightarrow> string \<Rightarrow> string option" where
  "boot_page sink report seed C fs host =
     map_option (\<lambda>page. replace_first page ''<body>'' (''<body>'' @ seed (ghostModules C fs)))
       (rewriteIndex sink report C fs host)"

definition readManifest :: "string \<Rightarrow> files \<Rightarrow> string \<times> string" where
  "readManifest C fs =
     (case Option.bind (map_of fs (path_join C ''manifest.json'')) (\<lambda>raw.
           Option.bind (unmarshal raw) (\<lambda>j. Option.bind (struct_of j) (\<lambda>kvs.
           Option.bind (ptr_field dec_int ''build'' None kvs) (\<lambda>b.
           map_option (\<lambda>hash. (format_int (case b of Some n \<Rightarrow> n | None \<Rightarrow> 0), hash)) (str_field ''versionHash'' [] kvs))))) of
        Some r \<Rightarrow> r
      | None \<Rightarrow> (''?'', ''?''))"

text \<open>\<open>^/api/v[0-9]+/\<close> at the start of a path.\<close>

definition apiVersion :: re where
  "apiVersion = re_seqs [re_lit ''/api/v'', re_plus is_digit, re_lit ''/'']"

definition api_path :: "string \<Rightarrow> string" where
  "api_path p = (case re_matches apiVersion (None, p, []) of (_, rest, _) # _ \<Rightarrow> ''/api/v9/'' @ rest | [] \<Rightarrow> p)"

text \<open>The login at the bouncer: a session is kept once there is one.\<close>

definition login_request :: "string \<Rightarrow> string \<Rightarrow> request" where
  "login_request login pass =
     \<lparr>rq_method = ''POST'', rq_path = [''api'', ''v9'', ''auth'', ''login''],
      rq_header = (\<lambda>h. if h = ''Content-Type'' then ''application/json'' else []), rq_query = [], rq_value = (\<lambda>_. []),
      rq_body = json_encode (json_map [(''login'', JStr login), (''password'', JStr pass)]),
      rq_form = None, rq_host = [], rq_tls = False\<rparr>"

definition tryLogin :: "string \<Rightarrow> 's http \<Rightarrow> string option \<Rightarrow> 's \<Rightarrow> string option \<times> 's" where
  "tryLogin auth http session s =
     (if session \<noteq> None then (session, s)
      else
        let (login, pass) = cut_byte auth (CHR '':'') in
        if CHR '':'' \<notin> set auth \<or> login = [] \<or> pass = [] then (None, s)
        else case http (login_request login pass) s of
          (None, s) \<Rightarrow> (None, s)
        | (Some (status, text), s) \<Rightarrow>
          if status \<noteq> 200 then (None, s)
          else case (case decode_json text of Decoded j \<Rightarrow> Option.bind (struct_of j) (str_field ''token'' []) | _ \<Rightarrow> None) of
            Some (c # cs) \<Rightarrow> (Some (c # cs), s)
          | _ \<Rightarrow> (None, s))"

text \<open>The served page: \<open>token_script\<close> and \<open>form_script\<close> are the scripts with the values quoted.\<close>

definition serve_page ::
  "(string \<Rightarrow> string) \<Rightarrow> (string \<Rightarrow> string \<Rightarrow> string) \<Rightarrow> string \<Rightarrow> string option \<Rightarrow> string \<Rightarrow> reply" where
  "serve_page token_script form_script autologin session index =
     (let page = (case session of
                    Some tok \<Rightarrow> if tok = [] then index else replace_first index ''<body>'' (''<body>'' @ token_script tok)
                  | None \<Rightarrow> index);
          (login, pass) = cut_byte autologin (CHR '':'');
          page = (if CHR '':'' \<in> set autologin \<and> login \<noteq> [] \<and> pass \<noteq> []
                  then replace_first page ''</body>'' (form_script login pass @ ''</body>'') else page)
      in File [(''Content-Type'', ''text/html; charset=utf-8''), (''Cache-Control'', ''no-store'')] page)"

definition handle_page ::
  "(string \<Rightarrow> string) \<Rightarrow> (string \<Rightarrow> string \<Rightarrow> string) \<Rightarrow> string \<Rightarrow> string \<Rightarrow> 's http \<Rightarrow> string \<Rightarrow> string option \<Rightarrow> 's \<Rightarrow>
     reply \<times> string option \<times> 's" where
  "handle_page token_script form_script autologin auth http index session s =
     (let (session, s) = (if auth \<noteq> [] then tryLogin auth http session s else (session, s))
      in (serve_page token_script form_script autologin session index, session, s))"

text \<open>The start of \<open>main\<close>: a synchronised cache, the page, and the handler of the assets.\<close>

definition start_web ::
  "web \<Rightarrow> string \<Rightarrow> string \<Rightarrow> (string list \<Rightarrow> string) \<Rightarrow> string \<Rightarrow> string \<Rightarrow> string \<Rightarrow> string \<Rightarrow> files \<Rightarrow>
     (string \<times> asset_handler) option \<times> files" where
  "start_web W sink report seed C channel at host fs =
     (case syncAssets W C channel at fs of
        (None, fs) \<Rightarrow> (None, fs)
      | (Some _, fs) \<Rightarrow>
        (case boot_page sink report seed C fs host of
           None \<Rightarrow> (None, fs)
         | Some page \<Rightarrow>
           (case loadDonors W C fs of
              (ds, fs) \<Rightarrow>
                (Some (page, \<lparr>ah_channel = channel, ah_donors = ds, ah_ids = buildChunkIDs C fs, ah_patched = []\<rparr>), fs))))"

section \<open>What a search does\<close>

text \<open>The files of the cache that a search may write.\<close>

definition only_at :: "string list \<Rightarrow> files \<Rightarrow> files \<Rightarrow> bool" where
  "only_at ps fs fs' \<longleftrightarrow> (\<forall>p. p \<notin> set ps \<longrightarrow> map_of fs' p = map_of fs p) \<and> (\<forall>q. stat fs q \<longrightarrow> stat fs' q)"

lemma only_at_refl [simp]: "only_at ps fs fs"
  by (simp add: only_at_def)

lemma only_at_trans: "only_at ps fs gs \<Longrightarrow> only_at ps gs hs \<Longrightarrow> only_at ps fs hs"
  by (simp add: only_at_def)

lemma create_only_at: "create_file W p b fs = (ok, fs') \<Longrightarrow> p \<in> set ps \<Longrightarrow> only_at ps fs fs'"
  using create_file_other(1) [of W p b fs ok fs'] create_stat [of W p b fs ok fs'] unfolding only_at_def by metis

lemma fetchRaw_only_at: "fetchRaw W sha n dst fs = (ok, fs') \<Longrightarrow> only_at [dst] fs fs'"
  using create_only_at [of W dst _ fs ok fs' "[dst]"] by (auto simp: fetchRaw_def split: option.splits if_splits)

lemma fetchRaw_file:
  assumes "fetchRaw W sha n dst fs = (True, fs')"
  shows "stat fs' dst"
    and "\<exists>body. wb_raw W (rawBase @ ''/'' @ sha @ ''/assets/'' @ n) = Some (200, body) \<and> map_of fs' dst = Some (take maxAsset body)"
proof -
  obtain body where b: "wb_raw W (rawBase @ ''/'' @ sha @ ''/assets/'' @ n) = Some (200, body)"
      "create_file W dst (take maxAsset body) fs = (True, fs')"
    using assms by (auto simp: fetchRaw_def split: option.splits if_splits)
  show "stat fs' dst" using create_file_True(2) [OF b(2)] by (simp add: stat_keys)
  show "\<exists>body. wb_raw W (rawBase @ ''/'' @ sha @ ''/assets/'' @ n) = Some (200, body) \<and> map_of fs' dst = Some (take maxAsset body)"
    using b create_file_True(1) [OF b(2)] by simp
qed

lemma fetch_any_file: "fetch_any W shas n dst fs = (r, fs') \<Longrightarrow> only_at [dst] fs fs' \<and> (r \<noteq> None \<longrightarrow> stat fs' dst)"
proof (induction shas arbitrary: fs)
  case (Cons sha shas)
  obtain got gs where g: "fetchRaw W sha n dst fs = (got, gs)" by fastforce
  show ?case
  proof (cases got)
    case True
    then show ?thesis using Cons.prems g fetchRaw_only_at [OF g] fetchRaw_file(1) [of W sha n dst fs gs] by auto
  next
    case False
    then show ?thesis using Cons.IH [of gs] Cons.prems g only_at_trans [OF fetchRaw_only_at [OF g]] by auto
  qed
qed simp

lemma note_donor_file:
  assumes "note_donor W C n v h fs = (h', fs')"
  shows "only_at [donors_path C] fs fs' \<and> ah_patched h' = ah_patched h \<and> map_of (ah_donors h') n = Some v"
proof -
  have "only_at [donors_path C] fs (snd (create_file W (donors_path C) b fs))" for b
    using create_only_at [of W "donors_path C" b fs _ _ "[donors_path C]"] by (metis list.set_intros(1) prod.collapse)
  then show ?thesis using assms by (auto simp: note_donor_def persistDonors_def Let_def update_conv')
qed

lemma only_at_mono: "only_at ps fs fs' \<Longrightarrow> set ps \<subseteq> set qs \<Longrightarrow> only_at qs fs fs'"
  by (auto simp: only_at_def)

text \<open>A search changes the file it looks for and the memo; it says that it found the file only when the file is there.\<close>

abbreviation search_paths :: "string \<Rightarrow> string \<Rightarrow> string list" where
  "search_paths C n \<equiv> [asset_path C n, donors_path C]"

definition searched :: "string \<Rightarrow> string \<Rightarrow> asset_handler \<Rightarrow> files \<Rightarrow> bool \<times> asset_handler \<times> files \<Rightarrow> bool" where
  "searched C n h fs r = (case r of (found, h', fs') \<Rightarrow>
     only_at (search_paths C n) fs fs' \<and> ah_patched h' = ah_patched h \<and> (found \<longrightarrow> stat fs' (asset_path C n)))"

lemma probe_searched: "searched C n h fs (probe W C now bs n h fs)"
proof (induction bs arbitrary: fs)
  case Nil
  show ?case using note_donor_file [of W C n "''-''" h fs]
    by (cases "note_donor W C n ''-'' h fs") (auto simp: searched_def intro: only_at_mono)
next
  case (Cons b bs)
  show ?case
  proof (cases "findDonors W b n")
    case None
    then show ?thesis using note_donor_file [of W C n "CHR ''!'' # format_int (now + 600)" h fs]
      by (cases "note_donor W C n (CHR ''!'' # format_int (now + 600)) h fs") (auto simp: searched_def intro: only_at_mono)
  next
    case (Some shas)
    show ?thesis
    proof (cases "fst (fetch_any W shas n (asset_path C n) fs)")
      case N: None
      then obtain gs where S: "fetch_any W shas n (asset_path C n) fs = (None, gs)" by (metis prod.collapse)
      have "only_at (search_paths C n) fs gs" using fetch_any_file [OF S] by (auto intro: only_at_mono)
      moreover have "searched C n h gs (probe W C now bs n h gs)" by (rule Cons.IH)
      ultimately show ?thesis using Some S only_at_trans by (auto simp: searched_def)
    next
      case (Some sha)
      then obtain gs where S: "fetch_any W shas n (asset_path C n) fs = (Some sha, gs)" by (metis prod.collapse)
      obtain h' hs where nd: "note_donor W C n sha h gs = (h', hs)" by fastforce
      have "only_at (search_paths C n) fs gs" "stat gs (asset_path C n)"
        using fetch_any_file [OF S] by (auto intro: only_at_mono)
      moreover have "only_at (search_paths C n) gs hs" "ah_patched h' = ah_patched h"
        using note_donor_file [OF nd] by (auto intro: only_at_mono)
      ultimately show ?thesis using \<open>findDonors W b n = Some shas\<close> S nd only_at_trans by (auto simp: searched_def only_at_def)
    qed
  qed
qed

lemma searched_elsewhere:
  "searched C n h fs (found, h', fs') \<Longrightarrow> map_of fs' p = map_of fs p \<or> p = asset_path C n \<or> p = donors_path C"
  by (simp only: searched_def only_at_def prod.case) auto

lemma searched_here [simp]:
  "searched C n h fs (False, h, fs)" "stat fs (asset_path C n) \<Longrightarrow> searched C n h fs (True, h, fs)"
  by (simp_all add: searched_def)

lemma searched_after:
  assumes "only_at (search_paths C n) fs gs" "searched C n h gs r" shows "searched C n h fs r"
  using assms only_at_trans by (auto simp: searched_def split: prod.splits)

lemma heal_searched: "searched C n h fs (heal W C now n h fs)"
proof -
  have p: "searched C n h gs (probe W C now bs n (h\<lparr>ah_donors := ds\<rparr>) gs)" for bs ds gs
    using probe_searched [of C n "h\<lparr>ah_donors := ds\<rparr>" gs W now bs] by (simp add: searched_def)
  have "searched C n h fs (case fetchRaw W v n (asset_path C n) fs of
      (got, gs) \<Rightarrow> if got then (True, h, gs) else probe W C now (branches (ah_channel h)) n h gs)" for v
  proof -
    obtain got gs where g: "fetchRaw W v n (asset_path C n) fs = (got, gs)" by fastforce
    have o: "only_at (search_paths C n) fs gs" using fetchRaw_only_at [OF g] by (rule only_at_mono) simp
    show ?thesis
    proof (cases got)
      case True
      then show ?thesis using g o fetchRaw_file(1) [of W v n "asset_path C n" fs gs] by (simp add: searched_def)
    next
      case False
      then show ?thesis using g searched_after [OF o probe_searched] by simp
    qed
  qed
  then show ?thesis using p probe_searched [of C n h fs W now] by (simp add: heal_def split: option.split)
qed

section \<open>What the handler serves\<close>

text \<open>The remembered scripts are the patched files of the cache.\<close>

definition patched_at :: "string \<Rightarrow> files \<Rightarrow> string \<Rightarrow> string \<Rightarrow> bool" where
  "patched_at C fs n t \<longleftrightarrow> no_slash n \<and> n \<noteq> ''..'' \<and> map_option patch_script (map_of fs (asset_path C n)) = Some t"

definition patched_ok :: "string \<Rightarrow> asset_handler \<Rightarrow> files \<Rightarrow> bool" where
  "patched_ok C h fs \<longleftrightarrow> (\<forall>n t. map_of (ah_patched h) n = Some t \<longrightarrow> patched_at C fs n t)"

lemma asset_path_no_slash:
  assumes "good_dir C" "no_slash n" "n \<noteq> ''..''"
  shows "has_prefix (asset_path C n) (path_clean C @ ''/assets'')" "asset_path C n \<noteq> donors_path C"
    and "\<not> has_prefix (donors_path C) (asset_path C n @ ''/'')"
proof -
  have d: "donors_path C = path_clean C @ ''/donors.json''" using path_join_name [OF assms(1)] by (simp add: plain_name_def)
  have "split_on (CHR ''/'') (''assets/'' @ n) = [''assets'', n]"
    using split_on_sep [of "CHR ''/''" "''assets''" n] split_on_plain [of "CHR ''/''" n] assms(2) by (simp add: no_slash_def)
  then have a: "asset_path C n = path_clean C @ ''/'' @ join ''/'' (''assets'' # filter kept_elem [n])"
    using path_join_below [OF assms(1), of "''assets/'' @ n"] assms(3) by (simp add: kept_elem_def)
  show "has_prefix (asset_path C n) (path_clean C @ ''/assets'')" using a by (simp add: has_prefix_iff join_Cons)
  show "asset_path C n \<noteq> donors_path C" "\<not> has_prefix (donors_path C) (asset_path C n @ ''/'')"
    using a d by (auto simp: has_prefix_iff join_Cons)
qed

lemma patched_ok_searched:
  assumes "good_dir C" "patched_ok C h fs" "\<not> stat fs (asset_path C n)" "searched C n h fs (found, h', fs')"
  shows "patched_ok C h' fs'"
  unfolding patched_ok_def
proof (intro allI impI)
  fix m t assume "map_of (ah_patched h') m = Some t"
  then have "map_of (ah_patched h) m = Some t" using assms(4) by (simp add: searched_def)
  then have m: "patched_at C fs m t" using assms(2) by (auto simp: patched_ok_def)
  then have "stat fs (asset_path C m)" by (force simp: patched_at_def stat_keys dest: map_of_SomeD)
  then have "asset_path C m \<notin> set (search_paths C n)"
    using assms(3) asset_path_no_slash(2) [OF assms(1), of m] m by (auto simp: patched_at_def)
  then have "map_of fs' (asset_path C m) = map_of fs (asset_path C m)" using assms(4) unfolding searched_def only_at_def prod.case by blast
  then show "patched_at C fs' m t" using m by (simp add: patched_at_def)
qed

lemma servePatchedJS_ok:
  assumes "patched_ok C h fs" "no_slash n" "n \<noteq> ''..''" "servePatchedJS C n h fs = (r, h')"
  shows "patched_ok C h' fs" "r = File hs body \<Longrightarrow> patched_at C fs n body"
proof -
  have "map_of fs (asset_path C n) = Some b \<Longrightarrow> patched_at C fs n (patch_script b)" for b
    using assms(2,3) by (simp add: patched_at_def)
  then show "patched_ok C h' fs"
    using assms(1,4) by (auto simp: servePatchedJS_def patched_ok_def Let_def update_conv' split: option.splits if_splits)
  show "patched_at C fs n body" if "r = File hs body"
    using that assms by (auto simp: servePatchedJS_def patched_ok_def patched_at_def Let_def split: option.splits if_splits)
qed

lemma stub_not_immutable: "serveStub h n = File hs body \<Longrightarrow> immutable \<notin> set hs"
  by (auto simp: serveStub_def immutable_def Let_def split: prod.splits if_splits)

text \<open>C15: The asset handler keeps the cache honest. A request writes to no file but the requested asset and the memo of
  donors: every other asset, the page, the markers and the world outside the cache stay, whatever the archive answers and
  wherever a write breaks off. A reply that a browser may
  keep for ever carries the bytes of the cached file, patched for a script; a placeholder is never given that way, and the
  remembered scripts stay those of the files.\<close>

lemma ServeHTTP_immutable:
  assumes "good_dir C" "trim_prefix path ''/assets/'' \<noteq> ''/''" "patched_ok C h fs"
    and "ServeHTTP W C now path h fs = (r, h', fs')"
  shows "patched_ok C h' fs'
    \<and> (\<forall>p. map_of fs' p \<noteq> map_of fs p \<longrightarrow> p = donors_path C
        \<or> p = asset_path C (trim_prefix path ''/assets/'') \<and> has_prefix p (path_clean C @ ''/assets''))
    \<and> (\<forall>hs body. r = File hs body \<and> immutable \<in> set hs \<longrightarrow>
        (\<exists>b. map_of fs' (asset_path C (trim_prefix path ''/assets/'')) = Some b
           \<and> body = (if has_suffix (trim_prefix path ''/assets/'') ''.js'' then patch_script b else b)))"
proof -
  let ?n = "trim_prefix path ''/assets/''"
  show ?thesis
  proof (cases "?n = [] \<or> ?n \<noteq> path_base ?n \<or> has_infix ?n ''..''")
    case True
    then show ?thesis using assms(3,4) by (simp add: ServeHTTP_def Let_def)
  next
    case False
    then have n: "no_slash ?n" using path_base_no_slash assms(2) by (simp add: no_slash_def)
    have dots: "?n \<noteq> ''..''"
    proof
      assume "?n = ''..''"
      moreover have "has_infix ''..'' ''..''" by code_simp
      ultimately show False using False by simp
    qed
    obtain found h1 fs1 where f: "(if stat fs (asset_path C ?n) then (True, h, fs) else heal W C now ?n h fs) = (found, h1, fs1)"
      by (metis prod.collapse)
    have s: "searched C ?n h fs (found, h1, fs1)"
      using heal_searched [of C ?n h fs W now] f by (auto split: if_splits)
    have ok: "patched_ok C h1 fs1"
      using patched_ok_searched [OF assms(1,3)] s f assms(3) by (auto split: if_splits)
    have step: "ServeHTTP W C now path h fs =
       (if \<not> found then (serveStub h1 ?n, h1, fs1)
        else if has_suffix ?n ''.js'' then (case servePatchedJS C ?n h1 fs1 of (r, h) \<Rightarrow> (r, h, fs1))
        else (case map_of fs1 (asset_path C ?n) of Some body \<Rightarrow> File [immutable] body | None \<Rightarrow> NotFoundPage, h1, fs1))"
      using False f by (simp add: ServeHTTP_def Let_def)
    have files: "map_of fs1 p = map_of fs p \<or> p = donors_path C \<or> p = asset_path C ?n \<and> has_prefix p (path_clean C @ ''/assets'')" for p
      using searched_elsewhere [OF s, of p] asset_path_no_slash(1) [OF assms(1) n dots] by auto
    have replies: "patched_ok C h' fs1 \<and> fs' = fs1 \<and> (\<forall>hs body. r = File hs body \<and> immutable \<in> set hs \<longrightarrow>
        (\<exists>b. map_of fs1 (asset_path C ?n) = Some b \<and> body = (if has_suffix ?n ''.js'' then patch_script b else b)))"
    proof (cases "found \<and> has_suffix ?n ''.js''")
      case True
      then obtain r' h2 where p: "servePatchedJS C ?n h1 fs1 = (r', h2)" "(r, h', fs') = (r', h2, fs1)"
        using step assms(4) by (cases "servePatchedJS C ?n h1 fs1") simp
      then show ?thesis using servePatchedJS_ok [OF ok n dots p(1)] True by (auto simp: patched_at_def)
    next
      case F: False
      then show ?thesis using step assms(4) ok stub_not_immutable [of h1 ?n] by (auto split: if_splits option.splits)
    qed
    have eq: "fs' = fs1" by (rule conjunct1 [OF conjunct2 [OF replies]])
    have "\<forall>p. map_of fs1 p \<noteq> map_of fs p \<longrightarrow> p = donors_path C \<or> p = asset_path C ?n \<and> has_prefix p (path_clean C @ ''/assets'')"
      using files by blast
    then show ?thesis unfolding eq
      by (rule conjI [OF conjunct1 [OF replies] conjI [OF _ conjunct2 [OF conjunct2 [OF replies]]]])
  qed
qed

section \<open>An outage\<close>

lemma fetchRaw_outage: "wb_raw W = (\<lambda>_. None) \<Longrightarrow> fetchRaw W sha n dst fs = (False, fs)"
  by (simp add: fetchRaw_def)

lemma fetch_any_outage: "wb_raw W = (\<lambda>_. None) \<Longrightarrow> fetch_any W shas n dst fs = (None, fs)"
  by (induction shas) (simp_all add: fetchRaw_outage)

lemma probe_outage:
  assumes "wb_raw W = (\<lambda>_. None)" "\<And>b. findDonors W b n \<noteq> None"
  shows "probe W C now bs n h fs = (False, note_donor W C n ''-'' h fs)"
proof (induction bs)
  case (Cons b bs)
  obtain shas where "findDonors W b n = Some shas" using assms(2) by blast
  then show ?case using Cons fetch_any_outage [OF assms(1)] by simp
qed simp

lemma json_ok_strings: "json_ok_fields (map (\<lambda>(k, v). (k, JStr v)) ds)"
  by (induction ds) auto

lemma fold_update_map_of:
  "distinct (map fst ds) \<Longrightarrow> map_of (fold (\<lambda>(k, v). AList.update k (case v of JStr s \<Rightarrow> s | _ \<Rightarrow> [])) (map (\<lambda>(k, v). (k, JStr v)) ds) acc)
     = map_of acc ++ map_of ds"
proof (induction ds arbitrary: acc)
  case (Cons d ds)
  obtain k v where d: "d = (k, v)" by fastforce
  have "map_of ds k = None" using Cons.prems d by (simp add: map_of_eq_None_iff)
  then show ?case using Cons d by (auto simp: update_conv' map_add_def fun_eq_iff split: option.split)
qed simp

lemma sort_strings:
  fixes ds :: "(string \<times> string) list"
  shows "sort_key fst (map (\<lambda>(k, v). (k, JStr v)) ds) = map (\<lambda>(k, v). (k, JStr v)) (sort_key fst ds)"
proof -
  have "insort_key fst ((\<lambda>(k, v). (k, JStr v)) d) (map (\<lambda>(k, v). (k, JStr v)) xs) = map (\<lambda>(k, v). (k, JStr v)) (insort_key fst d xs)"
    for d :: "string \<times> string" and xs
    by (induction xs) (auto split: prod.splits)
  then show ?thesis by (induction ds) (simp_all add: sort_key_simps)
qed

lemma donors_roundtrip:
  assumes "distinct (map fst ds)"
  shows "map_of (donors_of (json_encode (json_map (map (\<lambda>(k, v). (k, JStr v)) ds)))) = map_of ds"
proof -
  let ?s = "sort_key fst ds" and ?js = "\<lambda>ds :: (string \<times> string) list. map (\<lambda>(k, v). (k, JStr v)) ds"
  have s: "distinct (map fst ?s)" "set ?s = set ds" using assms by (simp_all add: distinct_map)
  have "unmarshal (json_encode (JObj (?js ?s))) = Some (JObj (?js ?s))"
    using json_roundtrip [of "JObj (?js ?s)" _ "[]"] json_ok_strings [of ?s] by (simp add: marshal_def)
  then have "map_of (donors_of (json_encode (json_map (?js ds)))) = map_of ?s"
    using fold_update_map_of [OF s(1), of "[]"] by (simp add: donors_of_def json_map_def sort_strings)
  also have "\<dots> = map_of ds" using s assms map_of_inject_set by metis
  finally show ?thesis .
qed

text \<open>C28: A verdict outlives its cause. When the raw files of the archive cannot be fetched for a while, although its commits
  can be listed, an asset that a request asks for is written down as being nowhere; from then on no search looks for it,
  whatever the archive answers, and the verdict is read back after a restart, for good.\<close>

lemma outage_remembered:
  assumes "good_dir C" "no_slash n" "n \<noteq> ''..''" "\<not> stat fs (asset_path C n)" "map_of (ah_donors h) n = None"
    and "wb_raw W = (\<lambda>_. None)" "\<And>b. findDonors W b n \<noteq> None"
    and "wb_fault W (donors_path C) = None" "distinct (map fst (ah_donors h))" "on_disk fs (path_join C ''donors-v2'')"
  shows "\<exists>h' fs'. heal W C now n h fs = (False, h', fs')
    \<and> (\<forall>W' later. heal W' C later n h' fs' = (False, h', fs'))
    \<and> (\<forall>W'. snd (loadDonors W' C fs') = fs' \<and> map_of (fst (loadDonors W' C fs')) n = Some ''-'')"
proof -
  let ?h = "h\<lparr>ah_donors := AList.update n ''-'' (ah_donors h)\<rparr>"
  let ?b = "json_encode (json_map (map (\<lambda>(k, v). (k, JStr v)) (ah_donors ?h)))"
  let ?fs = "AList.update (donors_path C) ?b fs"
  have c: "create_file W (donors_path C) ?b fs = (True, ?fs)" using assms(8) by (simp add: create_file_def)
  have first: "heal W C now n h fs = (False, ?h, ?fs)"
    using assms(4,5) probe_outage [OF assms(6,7)] c by (simp add: heal_def note_donor_def persistDonors_def Let_def)
  have "\<not> stat ?fs (asset_path C n)"
    using assms(4) asset_path_no_slash(2,3) [OF assms(1-3)] create_file_True(2) [OF c] by (auto simp: stat_keys)
  then have again: "heal W' C later n ?h ?fs = (False, ?h, ?fs)" for W' later
    by (simp add: heal_def update_conv')
  have "distinct (map fst (AList.update n ''-'' (ah_donors h)))" using assms(9) by (rule distinct_update)
  then have "map_of (donors_of ?b) n = Some ''-''" using donors_roundtrip [of "ah_donors ?h"] by (simp add: update_conv')
  moreover have "on_disk ?fs (path_join C ''donors-v2'')" using assms(10) create_file_True(2) [OF c] by (simp add: on_disk_keys)
  moreover have "map_of ?fs (donors_path C) = Some ?b" by (simp add: update_conv')
  ultimately have "loadDonors W' C ?fs = (donors_of ?b, ?fs)" "map_of (donors_of ?b) n = Some ''-''" for W'
    by (simp_all add: loadDonors_def Let_def)
  then show ?thesis using first again by (intro exI [of _ ?h] exI [of _ ?fs]) simp
qed

definition demo_handler :: asset_handler where
  "demo_handler = \<lparr>ah_channel = ''stable'', ah_donors = [], ah_ids = [], ah_patched = []\<rparr>"

lemma outage_remembered_witness:
  "\<exists>h' fs'. heal demo_web ''/c'' 0 ''b.js'' demo_handler [(''/c/donors-v2'', [])] = (False, h', fs')
    \<and> (\<forall>W' later. heal W' ''/c'' later ''b.js'' h' fs' = (False, h', fs'))"
proof -
  have "good_dir ''/c''" "no_slash ''b.js''" "\<not> stat [(''/c/donors-v2'', [])] (asset_path ''/c'' ''b.js'')"
    "on_disk [(''/c/donors-v2'', [])] (path_join ''/c'' ''donors-v2'')" by code_simp+
  moreover have "commit_list (''[{'' @ quoted ''sha'' @ '':'' @ quoted ''abcdefgh'' @ ''}]'') = Some [''abcdefgh'']" by code_simp
  then have "findDonors demo_web b ''b.js'' \<noteq> None" for b
    by (simp add: findDonors_def api_commits_def demo_web_def)
  moreover have "wb_raw demo_web = (\<lambda>_. None)" "wb_fault demo_web p = None" for p by (simp_all add: demo_web_def)
  moreover have "map_of (ah_donors demo_handler) ''b.js'' = None" "distinct (map fst (ah_donors demo_handler))"
    by (simp_all add: demo_handler_def)
  ultimately show ?thesis
    using outage_remembered [of "''/c''" "''b.js''" "[(''/c/donors-v2'', [])]" demo_handler demo_web 0] by fastforce
qed

lemma ServeHTTP_immutable_witness:
  "\<exists>r h' fs'. ServeHTTP demo_web ''/c'' 0 ''/assets/b.js'' demo_handler [] = (r, h', fs') \<and> patched_ok ''/c'' h' fs'"
proof -
  obtain r h' fs' where r: "ServeHTTP demo_web ''/c'' 0 ''/assets/b.js'' demo_handler [] = (r, h', fs')" by (metis prod.collapse)
  have "good_dir ''/c''" by code_simp
  moreover have "trim_prefix ''/assets/b.js'' ''/assets/'' \<noteq> ''/''" by code_simp
  moreover have "patched_ok ''/c'' demo_handler []" by (simp add: patched_ok_def demo_handler_def)
  ultimately show ?thesis using ServeHTTP_immutable [OF _ _ _ r] r by blast
qed

text \<open>A copy that breaks off while a neighbouring build is searched leaves the piece it has written, and the piece is served as
  the asset.\<close>

lemma sweep_truncated:
  assumes "good_dir C" "no_slash n" "n \<noteq> ''..''" "path_base n = n" "\<not> has_infix n ''..''" "\<not> has_suffix n ''.js''"
    and "wb_fault W (asset_path C n) = None" "n \<in> set missing"
    and "e = \<lparr>te_name = tar_prefix sha @ ''assets/'' @ n, te_regular = True, te_size = z, te_data = piece, te_ok = False\<rparr>" "0 < z"
  shows "\<exists>fs'. sweep_entries W C sha [e] missing fs = (missing, fs')
    \<and> ServeHTTP W C now (''/assets/'' @ n) h fs' = (File [immutable] piece, h, fs')"
proof -
  let ?fs = "AList.update (asset_path C n) piece fs"
  have c: "create_file W (asset_path C n) piece fs = (True, ?fs)" using assms(7) by (simp add: create_file_def)
  then have "sweep_entries W C sha [e] missing fs = (missing, ?fs)"
    using assms(8-10) by (simp add: cut_prefix_def)
  moreover have "stat ?fs (asset_path C n)" "map_of ?fs (asset_path C n) = Some piece"
    using create_file_True [OF c] by (auto simp: stat_keys)
  moreover have "n \<noteq> []" using assms(4) by (auto simp: path_base_def)
  ultimately show ?thesis using assms(4-6) by (simp add: ServeHTTP_def trim_prefix_def)
qed

text \<open>So does the piece of a single download whose write breaks off: the search goes on as if there was nothing, and every later
  request gets the piece, to be kept for ever.\<close>

lemma fetch_truncated:
  assumes "n \<noteq> []" "path_base n = n" "\<not> has_infix n ''..''" "\<not> has_suffix n ''.js''"
    and "wb_raw W (rawBase @ ''/'' @ sha @ ''/assets/'' @ n) = Some (200, body)" "body \<noteq> []"
    and "wb_fault W (asset_path C n) = Some left" "left (take maxAsset body) = Some piece"
  shows "\<exists>fs'. fetchRaw W sha n (asset_path C n) fs = (False, fs')
    \<and> (\<forall>W' later h. ServeHTTP W' C later (''/assets/'' @ n) h fs' = (File [immutable] piece, h, fs'))"
proof -
  let ?fs = "AList.update (asset_path C n) piece fs"
  have "fetchRaw W sha n (asset_path C n) fs = (False, ?fs)" using assms(5-8) by (simp add: fetchRaw_def create_file_def)
  moreover have "map_of ?fs (asset_path C n) = Some piece" by (simp add: update_conv')
  then have "stat ?fs (asset_path C n)" by (force simp: stat_keys dest: map_of_SomeD)
  ultimately show ?thesis using assms(1-4) by (simp add: ServeHTTP_def trim_prefix_def update_conv')
qed

section \<open>The login\<close>

lemma login_request_sel [simp]:
  "rq_method (login_request l p) = ''POST''" "rq_path (login_request l p) = [''api'', ''v9'', ''auth'', ''login'']"
  "rq_body (login_request l p) = json_encode (json_map [(''login'', JStr l), (''password'', JStr p)])"
  by (simp_all add: login_request_def)

lemma login_misses:
  "list_all (\<lambda>p. match_route p (login_request [] []) = None)
     [''GET /health'', ''GET /api/v9/gateway'', ''GET /gateway'', ''GET /gateway/'', ''GET /remote-auth'', ''GET /remote-auth/'',
      ''POST /api/v9/auth/register'']"
  "match_route ''POST /api/v9/auth/login'' (login_request [] []) = Some []"
  unfolding login_request_def by code_simp+

lemma match_login: "match_route p (login_request l q) = match_route p (login_request [] [])"
  unfolding match_route_def login_request_sel by (rule refl)

lemma login_route:
  "serve B E e h w now (login_request l p) m =
     map_option (\<lambda>(reply, m). ((cors_headers, reply), m)) (handleLogin B E now (login_request l p) m)"
proof -
  note miss = login_misses [unfolded list.pred_inject]
  have v: "with_values (login_request l p) [] = login_request l p" by (simp add: with_values_def login_request_def)
  have "dispatch_routes B now (server_routes B E e h w now @ registerStubs B E now) (login_request l p)
      = handleLogin B E now (login_request l p)"
    unfolding server_routes_def append_Cons dispatch_routes.simps match_login [of _ l p]
    using miss v by (simp add: handle_route_def)
  then show ?thesis by (simp add: serve_def withCORS_def thendo_def answer_def split: option.split)
qed

lemma login_body: "body_struct (login_request l p) = Some [(''login'', JStr l), (''password'', JStr p)]"
proof -
  let ?j = "JObj [(''login'', JStr l), (''password'', JStr p)]"
  have "decode_json (json_encode ?j) = Decoded ?j"
    using json_roundtrip [of ?j "json_encode ?j" "[]"] by (simp add: marshal_def)
  moreover have "json_map [(''login'', JStr l), (''password'', JStr p)] = ?j" by (simp add: json_map_def)
  ultimately show ?thesis by (simp only: body_struct_def login_request_sel decoded.case)
    (simp add: struct_of_def GatewayServer.fields_of_def)
qed

lemma login_names: "\<not> equal_fold ''login'' ''password''" "\<not> equal_fold ''password'' ''login''"
  by code_simp+

lemma handle_login:
  "handleLogin B E now (login_request l p) m =
    (case Login B (re_argon E) (re_rand E) (gw_auth (m_gw m)) l p now of
       (v, a) \<Rightarrow> Some (case v of Inl _ \<Rightarrow> jerror 401 ''Invalid credentials'' | Inr (_, token) \<Rightarrow> token_reply token,
         m\<lparr>m_gw := (m_gw m)\<lparr>gw_auth := a\<rparr>\<rparr>))"
  by (simp add: handleLogin_def thendo_def answer_def login_body login_names with_auth_def split: prod.split)

text \<open>C20: The token that \<open>voidweb\<close> puts into the page is one that the bouncer has just issued: with credentials
  \<open>login:password\<close> (the password may hold further colons) the request reaches the login handler, a session is kept exactly
  when \<open>Login\<close> opens one, with its token, and a refusal keeps none; the bouncer changes in its accounts only.\<close>

lemma tryLogin_serve:
  assumes "CHR '':'' \<notin> set login" "login \<noteq> []" "pass \<noteq> []"
  shows "tryLogin (login @ '':'' @ pass) (over_http (serve B E e h w now)) None m =
    (case Login B (re_argon E) (re_rand E) (gw_auth (m_gw m)) login pass now of
       (v, a) \<Rightarrow> (case v of Inl _ \<Rightarrow> None | Inr (_, token) \<Rightarrow> if token = [] then None else Some token,
         m\<lparr>m_gw := (m_gw m)\<lparr>gw_auth := a\<rparr>\<rparr>))"
proof -
  have cut: "cut_byte (login @ '':'' @ pass) (CHR '':'') = (login, pass)"
    using assms(1) index_byte_append [of "CHR '':''" login pass] by (simp add: cut_byte_def)
  have tok: "(case decode_json (json_encode (JObj [(''token'', JStr token)]) @ [CHR 0x0A]) of
      Decoded j \<Rightarrow> Option.bind (struct_of j) (str_field ''token'' []) | _ \<Rightarrow> None) = Some token" for token
    by (simp add: decode_reply struct_of_def GatewayServer.fields_of_def del: json_encode.simps)
  show ?thesis
    using assms(2,3) cut tok
    by (auto simp: tryLogin_def over_http_def login_route handle_login jerror_def token_reply_def simp del: json_encode.simps
        split: sum.split prod.split list.split)
qed

lemma tryLogin_serve_witness:
  "\<exists>m token m'. tryLogin '' ALICE@example.org:correct horse'' (over_http (serve mem_kv demo_rest demo_env no_hooks (\<lambda>k m. (False, m)) 5)) None m
     = (Some token, m') \<and> token \<noteq> []"
proof -
  obtain s u token s2 where l: "Login mem_kv demo_argon demo_rand s '' ALICE@example.org'' ''correct horse'' 5 = (Inr (u, token), s2)"
    using Register_Login_witness by blast
  have "newSession mem_kv demo_rand s (u_ID u) 5 = (Inr token, s2)"
    using l by (auto simp: Login_def split: sum.splits if_splits prod.splits)
  then have "token = hex_encode (replicate 32 (CHR ''r''))"
    by (auto simp: newSession_def RandomToken_def demo_rand_def split: sum.splits prod.splits)
  moreover have "hex_encode (replicate 32 (CHR ''r'')) \<noteq> []" by code_simp
  ultimately have "token \<noteq> []" by simp
  let ?m = "demo_manager\<lparr>m_gw := (m_gw demo_manager)\<lparr>gw_auth := s\<rparr>\<rparr>"
  have "CHR '':'' \<notin> set '' ALICE@example.org''" by simp
  from tryLogin_serve [OF this, of "''correct horse''" mem_kv demo_rest demo_env no_hooks "\<lambda>k m. (False, m)" 5 ?m]
  show ?thesis using l \<open>token \<noteq> []\<close>
    by (intro exI [of _ ?m] exI [of _ token] exI [of _ "?m\<lparr>m_gw := (m_gw ?m)\<lparr>gw_auth := s2\<rparr>\<rparr>"]) (simp add: demo_rest_def)
qed

end
